(* ===== verification/Prelude.thy ===== *)
theory Prelude imports Main "HOL-Library.List_Lexorder" "HOL-Library.Char_ord"
  "HOL-Library.Product_Lexorder" "HOL-Library.Multiset" begin

text \<open>
  Shared vocabulary of the development: the collections of rewrite rules the component
  theories extend, Python's string, tuple and dictionary operations the program uses,
  the first-minimum choice that models \<open>min(xs, key=f)\<close> and \<open>ORDER BY ... LIMIT 1\<close>, and
  tables of rows with a primary key.

  Strings are lists of characters, one per code point. The case functions are exact for
  ASCII; the strings the program folds (codec names, states, file suffixes, tag names) are
  compared with ASCII literals only.

  \<open>list\<close> and product orders are the lexicographic ones (\<^theory_text>\<open>List_Lexorder\<close>,
  \<^theory_text>\<open>Product_Lexorder\<close>, \<^theory_text>\<open>Char_ord\<close>), which are Python's orders on strings and tuples.
\<close>

named_theorems policy_simps \<comment> \<open>unfolding rules of the source quality policy\<close>
named_theorems queue_simps \<comment> \<open>unfolding rules of the job repository\<close>
named_theorems worker_simps \<comment> \<open>unfolding rules of the processing worker\<close>
named_theorems publish_simps \<comment> \<open>unfolding rules of the publication journal\<close>
named_theorems score_simps \<comment> \<open>unfolding rules of candidate scoring\<close>
named_theorems bytes_simps \<comment> \<open>unfolding rules of the container parsers\<close>

type_synonym timestamp = int \<comment> \<open>\<open>datetime\<close>: microseconds on one UTC axis\<close>
type_synonym duration = int \<comment> \<open>\<open>timedelta\<close>: microseconds\<close>

section \<open>Results that may raise\<close>

fun bindR :: "'e + 'a \<Rightarrow> ('a \<Rightarrow> 'e + 'b) \<Rightarrow> 'e + 'b" where
  "bindR (Inl e) f = Inl e"
| "bindR (Inr x) f = f x"

lemma bindR_Inr_iff: "bindR m f = Inr y \<longleftrightarrow> (\<exists>x. m = Inr x \<and> f x = Inr y)"
  by (cases m) auto

lemma bindR_Inl_iff: "bindR m f = Inl e \<longleftrightarrow> m = Inl e \<or> (\<exists>x. m = Inr x \<and> f x = Inl e)"
  by (cases m) auto

section \<open>First minimum\<close>

text \<open>\<open>min(xs, key=f)\<close> on a non-empty sequence is the first element with the least key;
  on an empty one it raises, and an \<open>ORDER BY f LIMIT 1\<close> query gives no row.\<close>

definition first_min :: "('a \<Rightarrow> 'b::linorder) \<Rightarrow> 'a list \<Rightarrow> 'a option" where
  "first_min f xs = (case xs of [] \<Rightarrow> None | _ \<Rightarrow> Some (arg_min_list f xs))"

lemma first_min_None [simp]: "first_min f xs = None \<longleftrightarrow> xs = []"
  by (simp add: first_min_def split: list.splits)

lemma first_min_Nil [simp]: "first_min f [] = None"
  by (simp add: first_min_def)

lemma first_min_in: "first_min f xs = Some x \<Longrightarrow> x \<in> set xs"
  by (cases xs) (use arg_min_list_in [of xs f] in \<open>auto simp: first_min_def\<close>)

lemma first_min_le: "first_min f xs = Some x \<Longrightarrow> y \<in> set xs \<Longrightarrow> f x \<le> f y"
proof -
  assume a: "first_min f xs = Some x" and y: "y \<in> set xs"
  then have ne: "xs \<noteq> []" by auto
  have x: "x = arg_min_list f xs" using a ne by (cases xs) (auto simp: first_min_def)
  have "f x = Min (f ` set xs)" using ne by (simp add: x f_arg_min_list_f)
  then show "f x \<le> f y" using y by simp
qed

lemma first_min_unique:
  assumes "inj_on f (set xs)" and "x \<in> set xs" and "\<And>y. y \<in> set xs \<Longrightarrow> f x \<le> f y"
  shows "first_min f xs = Some x"
proof -
  obtain z where z: "first_min f xs = Some z" using assms(2) by (cases "first_min f xs") auto
  have "f z \<le> f x" using first_min_le [OF z assms(2)] .
  moreover have "f x \<le> f z" using assms(3) first_min_in [OF z] by blast
  ultimately have "f z = f x" by simp
  then have "z = x" using assms(1,2) first_min_in [OF z] by (auto dest: inj_onD)
  then show ?thesis using z by simp
qed

text \<open>With keys that tell the elements apart, the choice does not depend on their order.\<close>

lemma first_min_perm:
  assumes "inj_on f (set xs)" and "set xs = set ys"
  shows "first_min f xs = first_min f ys"
proof (cases "first_min f ys")
  case None
  then show ?thesis using assms(2) by simp
next
  case (Some x)
  have "first_min f xs = Some x"
    by (rule first_min_unique) (use assms Some first_min_in first_min_le in \<open>auto\<close>)
  then show ?thesis using Some by simp
qed

section \<open>Python strings\<close>

definition is_space :: "char \<Rightarrow> bool" where
  "is_space c = (let n = (of_char c :: nat) in
     (9 \<le> n \<and> n \<le> 13) \<or> (28 \<le> n \<and> n \<le> 32) \<or> n = 133 \<or> n = 160)"

definition str_strip :: "string \<Rightarrow> string" where
  "str_strip s = rev (dropWhile is_space (rev (dropWhile is_space s)))"

definition char_upper :: "char \<Rightarrow> char" where
  "char_upper c = (if CHR ''a'' \<le> c \<and> c \<le> CHR ''z'' then char_of (of_char c - 32 :: nat) else c)"

definition char_lower :: "char \<Rightarrow> char" where
  "char_lower c = (if CHR ''A'' \<le> c \<and> c \<le> CHR ''Z'' then char_of (of_char c + 32 :: nat) else c)"

definition str_upper :: "string \<Rightarrow> string" where
  "str_upper = map char_upper"

definition str_casefold :: "string \<Rightarrow> string" where
  "str_casefold = map char_lower"

text \<open>Truth of an optional string: \<open>None\<close> and the empty string are false.\<close>

fun str_truthy :: "string option \<Rightarrow> bool" where
  "str_truthy None = False"
| "str_truthy (Some s) = (s \<noteq> [])"

fun str_startswith :: "string \<Rightarrow> string \<Rightarrow> bool" where
  "str_startswith s [] = True"
| "str_startswith [] (p # ps) = False"
| "str_startswith (c # s) (p # ps) = (c = p \<and> str_startswith s ps)"

lemma str_startswith_append: "str_startswith s p \<longleftrightarrow> (\<exists>t. s = p @ t)"
  by (induction s p rule: str_startswith.induct) auto

definition str_endswith :: "string \<Rightarrow> string \<Rightarrow> bool" where
  "str_endswith s p = str_startswith (rev s) (rev p)"

text \<open>\<open>sep.join(parts)\<close>.\<close>

fun str_join :: "string \<Rightarrow> string list \<Rightarrow> string" where
  "str_join sep [] = []"
| "str_join sep [x] = x"
| "str_join sep (x # y # zs) = x @ sep @ str_join sep (y # zs)"

text \<open>\<open>s.split(c, 1)\<close> where \<open>c in s\<close>: the parts before and after the first \<open>c\<close>.\<close>

definition split_once :: "char \<Rightarrow> string \<Rightarrow> string \<times> string" where
  "split_once c s = (takeWhile (\<lambda>x. x \<noteq> c) s, tl (dropWhile (\<lambda>x. x \<noteq> c) s))"

lemma split_once_append: "c \<in> set s \<Longrightarrow> split_once c s = (a, b) \<Longrightarrow> s = a @ c # b \<and> c \<notin> set a"
proof -
  assume c: "c \<in> set s" and e: "split_once c s = (a, b)"
  have ne: "dropWhile (\<lambda>x. x \<noteq> c) s \<noteq> []" using c by (simp add: dropWhile_eq_Nil_conv)
  then have "hd (dropWhile (\<lambda>x. x \<noteq> c) s) = c" using hd_dropWhile [OF ne] by simp
  then have "dropWhile (\<lambda>x. x \<noteq> c) s = c # tl (dropWhile (\<lambda>x. x \<noteq> c) s)"
    using ne by (metis list.collapse)
  then have "s = a @ c # b" using e takeWhile_dropWhile_id [of "\<lambda>x. x \<noteq> c" s]
    by (simp add: split_once_def)
  moreover have "c \<notin> set a" using e by (auto simp: split_once_def dest: set_takeWhileD)
  ultimately show ?thesis ..
qed

lemma split_once_eq: "c \<notin> set a \<Longrightarrow> split_once c (a @ c # b) = (a, b)"
  by (induction a) (auto simp: split_once_def)

section \<open>Sequences and dictionaries\<close>

text \<open>\<open>tuple(dict.fromkeys(xs))\<close>: the first occurrences, in order.\<close>

fun dedup_aux :: "'a list \<Rightarrow> 'a list \<Rightarrow> 'a list" where
  "dedup_aux seen [] = []"
| "dedup_aux seen (x # xs) =
     (if x \<in> set seen then dedup_aux seen xs else x # dedup_aux (x # seen) xs)"

definition dedup :: "'a list \<Rightarrow> 'a list" where
  "dedup xs = dedup_aux [] xs"

lemma set_dedup_aux: "set (dedup_aux seen xs) = set xs - set seen"
  by (induction seen xs rule: dedup_aux.induct) auto

lemma set_dedup [simp]: "set (dedup xs) = set xs"
  by (simp add: dedup_def set_dedup_aux)

lemma distinct_dedup_aux: "distinct (dedup_aux seen xs)"
  by (induction seen xs rule: dedup_aux.induct) (auto simp: set_dedup_aux)

lemma distinct_dedup [simp]: "distinct (dedup xs)"
  by (simp add: dedup_def distinct_dedup_aux)

lemma dedup_aux_id: "distinct xs \<Longrightarrow> set xs \<inter> set seen = {} \<Longrightarrow> dedup_aux seen xs = xs"
  by (induction seen xs rule: dedup_aux.induct) auto

lemma dedup_id: "distinct xs \<Longrightarrow> dedup xs = xs"
  by (simp add: dedup_def dedup_aux_id)

lemma dedup_idem [simp]: "dedup (dedup xs) = dedup xs"
  by (simp add: dedup_id)

text \<open>An insertion-ordered dictionary is an association list with distinct keys: a store to
  a present key keeps its place, a store to a new key goes to the end.\<close>

fun dict_set :: "'k \<Rightarrow> 'v \<Rightarrow> ('k \<times> 'v) list \<Rightarrow> ('k \<times> 'v) list" where
  "dict_set k v [] = [(k, v)]"
| "dict_set k v ((a, b) # d) = (if a = k then (k, v) # d else (a, b) # dict_set k v d)"

abbreviation dict_get :: "('k \<times> 'v) list \<Rightarrow> 'k \<Rightarrow> 'v option" where
  "dict_get \<equiv> map_of"

lemma dict_get_set [simp]: "dict_get (dict_set k v d) = (dict_get d)(k \<mapsto> v)"
  by (induction k v d rule: dict_set.induct) auto

lemma dict_set_keys: "set (map fst (dict_set k v d)) = insert k (set (map fst d))"
  by (induction k v d rule: dict_set.induct) auto

lemma dict_set_distinct: "distinct (map fst d) \<Longrightarrow> distinct (map fst (dict_set k v d))"
  by (induction k v d rule: dict_set.induct) (auto simp: dict_set_keys [unfolded set_map] image_iff)

section \<open>Tables with a primary key\<close>

text \<open>A table is a list of rows; a mapped object changed in place is a row replaced under its
  primary key.\<close>

definition update_row :: "('r \<Rightarrow> 'k) \<Rightarrow> 'k \<Rightarrow> ('r \<Rightarrow> 'r) \<Rightarrow> 'r list \<Rightarrow> 'r list" where
  "update_row pk k f rows = map (\<lambda>r. if pk r = k then f r else r) rows"

definition find_row :: "('r \<Rightarrow> 'k) \<Rightarrow> 'k \<Rightarrow> 'r list \<Rightarrow> 'r option" where
  "find_row pk k rows = find (\<lambda>r. pk r = k) rows"

lemma find_row_Some: "find_row pk k rows = Some r \<Longrightarrow> r \<in> set rows \<and> pk r = k"
  by (auto simp: find_row_def find_Some_iff)

lemma find_row_None: "find_row pk k rows = None \<longleftrightarrow> k \<notin> pk ` set rows"
  by (auto simp: find_row_def find_None_iff)

lemma find_row_in: "distinct (map pk rows) \<Longrightarrow> r \<in> set rows \<Longrightarrow> find_row pk (pk r) rows = Some r"
  by (induction rows) (auto simp: find_row_def)

lemma length_update_row [simp]: "length (update_row pk k f rows) = length rows"
  by (simp add: update_row_def)

text \<open>What a write to one row needs so that the table keeps its shape: the write leaves the
  primary key alone.\<close>

locale keyed_write =
  fixes pk :: "'r \<Rightarrow> 'k" and wr :: "'r \<Rightarrow> 'r"
  assumes pk_wr: "pk (wr r) = pk r"
begin

lemma keys_update: "map pk (update_row pk k wr rows) = map pk rows"
  by (simp add: update_row_def pk_wr)

lemma distinct_update: "distinct (map pk (update_row pk k wr rows)) = distinct (map pk rows)"
  by (simp add: keys_update)

lemma find_update_same:
  "find_row pk k (update_row pk k wr rows) = map_option wr (find_row pk k rows)"
  by (induction rows) (auto simp: find_row_def update_row_def pk_wr)

lemma find_update_other:
  "j \<noteq> k \<Longrightarrow> find_row pk j (update_row pk k wr rows) = find_row pk j rows"
  by (induction rows) (auto simp: find_row_def update_row_def pk_wr)

end

end
