(* ===== verification/Json.thy ===== *)
theory Json imports Prelude begin

text \<open>
  Python's \<^verbatim>\<open>json\<close> module as far as the program uses it: values, \<open>dumps\<close> with its separators and
  escapes, and a parser with the grammar of \<open>loads\<close>.

  An object is the list of its members in order; the parser applies the dictionary rule that a
  repeated key keeps its first place and takes the last value. A number with a fraction or an
  exponent, and the constants \<open>NaN\<close> and \<open>Infinity\<close>, keep their text (\<open>JReal\<close>). Characters are the
  code points below 256, so an escape beyond them is refused. The parser runs on fuel;
  \<open>loads\<close> supplies twice the length of the text, and every printed value needs less.
\<close>

datatype json = JNull | JBool bool | JInt int | JReal string | JStr string
  | JArr "json list" | JObj "(string \<times> json) list"

section \<open>Printing\<close>

definition hex_digit :: "nat \<Rightarrow> char" where
  "hex_digit n = ''0123456789abcdef'' ! (n mod 16)"

text \<open>The escapes of \<open>ensure_ascii=True\<close> (\<open>json_char\<close>) and of \<open>ensure_ascii=False\<close> (\<open>raw_char\<close>).\<close>

definition short_escapes :: "(nat \<times> char) list" where
  "short_escapes = [(34, CHR 0x22), (92, CHR 0x5C), (8, CHR ''b''), (9, CHR ''t''),
     (10, CHR ''n''), (12, CHR ''f''), (13, CHR ''r'')]"

definition escape_with :: "(nat \<Rightarrow> bool) \<Rightarrow> char \<Rightarrow> string" where
  "escape_with plain c = (let n = (of_char c :: nat) in
     case map_of short_escapes n of Some e \<Rightarrow> [CHR 0x5C, e]
     | None \<Rightarrow> if 32 \<le> n \<and> plain n then [c]
        else CHR 0x5C # ''u00'' @ [hex_digit (n div 16), hex_digit n])"

definition json_char :: "char \<Rightarrow> string" where
  "json_char = escape_with (\<lambda>n. n \<le> 126)"

definition raw_char :: "char \<Rightarrow> string" where
  "raw_char = escape_with (\<lambda>n. True)"

definition quoted :: "(char \<Rightarrow> string) \<Rightarrow> string \<Rightarrow> string" where
  "quoted esc s = CHR 0x22 # concat (map esc s) @ [CHR 0x22]"

definition json_str :: "string \<Rightarrow> string" where
  "json_str s = quoted json_char s"

fun nat_digits :: "nat \<Rightarrow> string" where
  "nat_digits n = (if n < 10 then [char_of (48 + n)] else nat_digits (n div 10) @ [char_of (48 + n mod 10)])"

declare nat_digits.simps [simp del]

definition json_int :: "int \<Rightarrow> string" where
  "json_int i = (if i < 0 then ''-'' @ nat_digits (nat (- i)) else nat_digits (nat i))"

definition json_bool :: "bool \<Rightarrow> string" where
  "json_bool b = (if b then ''true'' else ''false'')"

text \<open>\<open>json.dumps\<close>: \<open>esc\<close> escapes one character, \<open>sp\<close> is the blank after a comma and a colon, which
  the compact separators leave out.\<close>

fun dumps :: "(char \<Rightarrow> string) \<Rightarrow> string \<Rightarrow> json \<Rightarrow> string" where
  "dumps esc sp JNull = ''null''"
| "dumps esc sp (JBool b) = json_bool b"
| "dumps esc sp (JInt i) = json_int i"
| "dumps esc sp (JReal t) = t"
| "dumps esc sp (JStr s) = quoted esc s"
| "dumps esc sp (JArr vs) = ''['' @ str_join (CHR '','' # sp) (map (dumps esc sp) vs) @ '']''"
| "dumps esc sp (JObj kvs) = ''{'' @ str_join (CHR '','' # sp)
     (map (\<lambda>(k, v). quoted esc k @ CHR '':'' # sp @ dumps esc sp v) kvs) @ ''}''"

section \<open>Parsing\<close>

definition blank :: "char \<Rightarrow> bool" where
  "blank c = (c \<in> {CHR '' '', CHR 0x09, CHR 0x0A, CHR 0x0D})"

definition skip_ws :: "string \<Rightarrow> string" where
  "skip_ws = dropWhile blank"

definition is_digit :: "char \<Rightarrow> bool" where
  "is_digit c = (CHR ''0'' \<le> c \<and> c \<le> CHR ''9'')"

definition digit_val :: "char \<Rightarrow> nat" where
  "digit_val c = of_char c - 48"

definition digits_value :: "string \<Rightarrow> nat" where
  "digits_value ds = foldl (\<lambda>n c. 10 * n + digit_val c) 0 ds"

definition hex_val :: "char \<Rightarrow> nat option" where
  "hex_val c = (let n = of_char c in
     if 48 \<le> n \<and> n \<le> 57 then Some (n - 48)
     else if 97 \<le> n \<and> n \<le> 102 then Some (n - 87)
     else if 65 \<le> n \<and> n \<le> 70 then Some (n - 55) else None)"

definition hex4 :: "char \<Rightarrow> char \<Rightarrow> char \<Rightarrow> char \<Rightarrow> char option" where
  "hex4 a b c d = (case (hex_val a, hex_val b, hex_val c, hex_val d) of
     (Some w, Some x, Some y, Some z) \<Rightarrow>
        (let n = 4096 * w + 256 * x + 16 * y + z in if n < 256 then Some (char_of n) else None)
   | _ \<Rightarrow> None)"

definition unescape :: "char \<Rightarrow> char option" where
  "unescape c = (let n = (of_char c :: nat) in
     if n = 34 \<or> n = 92 \<or> n = 47 then Some c
     else if c = CHR ''b'' then Some (char_of (8::nat)) else if c = CHR ''f'' then Some (char_of (12::nat))
     else if c = CHR ''n'' then Some (char_of (10::nat)) else if c = CHR ''r'' then Some (char_of (13::nat))
     else if c = CHR ''t'' then Some (char_of (9::nat)) else None)"

definition consR :: "'a \<Rightarrow> ('a list \<times> 'b) option \<Rightarrow> ('a list \<times> 'b) option" where
  "consR x m = map_option (\<lambda>(xs, r). (x # xs, r)) m"

text \<open>The characters of a string after its opening quote.\<close>

fun parse_chars :: "string \<Rightarrow> (string \<times> string) option" where
  "parse_chars [] = None"
| "parse_chars (c # r) = (let n = (of_char c :: nat) in
     if n = 34 then Some ([], r)
     else if n = 92 then
       (case r of [] \<Rightarrow> None
        | e # r1 \<Rightarrow> if e = CHR ''u'' then
             (case r1 of a # b # d # f # r2 \<Rightarrow>
                 (case hex4 a b d f of None \<Rightarrow> None | Some x \<Rightarrow> consR x (parse_chars r2))
              | _ \<Rightarrow> None)
           else (case unescape e of None \<Rightarrow> None | Some x \<Rightarrow> consR x (parse_chars r1)))
     else if n < 32 then None
     else consR c (parse_chars r))"

text \<open>\<open>-?(0|[1-9]\d*)(\.\d+)?([eE][-+]?\d+)?\<close>.\<close>

definition parse_frac :: "string \<Rightarrow> string \<times> string" where
  "parse_frac r = (case r of c # t \<Rightarrow>
       if c = CHR ''.'' \<and> takeWhile is_digit t \<noteq> [] then (c # takeWhile is_digit t, dropWhile is_digit t) else ([], r)
     | [] \<Rightarrow> ([], r))"

definition parse_exp :: "string \<Rightarrow> string \<times> string" where
  "parse_exp r = (case r of [] \<Rightarrow> ([], r) | c # t \<Rightarrow>
     (let sgn = (case t of s # _ \<Rightarrow> if s = CHR ''-'' \<or> s = CHR ''+'' then [s] else [] | [] \<Rightarrow> []);
          u = drop (length sgn) t in
      if (c = CHR ''e'' \<or> c = CHR ''E'') \<and> takeWhile is_digit u \<noteq> []
      then (c # sgn @ takeWhile is_digit u, dropWhile is_digit u) else ([], r)))"

definition int_part :: "string \<Rightarrow> string" where
  "int_part r = (case r of c # _ \<Rightarrow> if c = CHR ''0'' then [c] else takeWhile is_digit r | [] \<Rightarrow> [])"

definition parse_unsigned :: "bool \<Rightarrow> string \<Rightarrow> (json \<times> string) option" where
  "parse_unsigned neg r = (let ip = int_part r; r1 = drop (length ip) r in
     if ip = [] then None
     else (case parse_frac r1 of (fr, r2) \<Rightarrow> (case parse_exp r2 of (ex, r3) \<Rightarrow>
       if fr = [] \<and> ex = []
       then Some (JInt (if neg then - int (digits_value ip) else int (digits_value ip)), r3)
       else Some (JReal ((if neg then [CHR ''-''] else []) @ ip @ fr @ ex), r3))))"

definition parse_number :: "string \<Rightarrow> (json \<times> string) option" where
  "parse_number s = (case s of [] \<Rightarrow> None
     | c # r \<Rightarrow> if c = CHR ''-'' then parse_unsigned True r else parse_unsigned False s)"

text \<open>The constants, tried in the order of the scanner.\<close>

definition json_words :: "(string \<times> json) list" where
  "json_words = [(''null'', JNull), (''true'', JBool True), (''false'', JBool False),
     (''NaN'', JReal ''NaN''), (''Infinity'', JReal ''Infinity''), (''-Infinity'', JReal ''-Infinity'')]"

definition parse_atom :: "string \<Rightarrow> (json \<times> string) option" where
  "parse_atom s = (case find (\<lambda>(w, v). str_startswith s w) json_words of
     Some (w, v) \<Rightarrow> Some (v, drop (length w) s) | None \<Rightarrow> parse_number s)"

definition to_dict :: "(string \<times> json) list \<Rightarrow> (string \<times> json) list" where
  "to_dict kvs = foldl (\<lambda>d (k, v). dict_set k v d) [] kvs"

fun parse_value :: "nat \<Rightarrow> string \<Rightarrow> (json \<times> string) option"
  and parse_items :: "nat \<Rightarrow> string \<Rightarrow> (json list \<times> string) option"
  and parse_members :: "nat \<Rightarrow> string \<Rightarrow> ((string \<times> json) list \<times> string) option"
where
  "parse_value 0 s = None"
| "parse_value (Suc n) s = (case s of [] \<Rightarrow> None | c # r \<Rightarrow>
     if c = CHR 0x22 then map_option (\<lambda>(x, t). (JStr x, t)) (parse_chars r)
     else if c = CHR ''['' then
       (case skip_ws r of [] \<Rightarrow> None
        | d # t \<Rightarrow> if d = CHR '']'' then Some (JArr [], t)
            else map_option (\<lambda>(vs, u). (JArr vs, u)) (parse_items n (d # t)))
     else if c = CHR ''{'' then
       (case skip_ws r of [] \<Rightarrow> None
        | d # t \<Rightarrow> if d = CHR ''}'' then Some (JObj [], t)
            else map_option (\<lambda>(kvs, u). (JObj (to_dict kvs), u)) (parse_members n (d # t)))
     else parse_atom s)"
| "parse_items 0 s = None"
| "parse_items (Suc n) s = (case parse_value n s of None \<Rightarrow> None
     | Some (v, t) \<Rightarrow> (case skip_ws t of [] \<Rightarrow> None
        | c # u \<Rightarrow> if c = CHR '','' then consR v (parse_items n (skip_ws u))
            else if c = CHR '']'' then Some ([v], u) else None))"
| "parse_members 0 s = None"
| "parse_members (Suc n) s = (case s of [] \<Rightarrow> None
     | q # s1 \<Rightarrow> if q \<noteq> CHR 0x22 then None
       else (case parse_chars s1 of None \<Rightarrow> None
         | Some (k, s2) \<Rightarrow> (case skip_ws s2 of [] \<Rightarrow> None
            | e # s3 \<Rightarrow> if e \<noteq> CHR '':'' then None
              else (case parse_value n (skip_ws s3) of None \<Rightarrow> None
                | Some (v, t) \<Rightarrow> (case skip_ws t of [] \<Rightarrow> None
                   | c # u \<Rightarrow> if c = CHR '','' then consR (k, v) (parse_members n (skip_ws u))
                       else if c = CHR ''}'' then Some ([(k, v)], u) else None)))))"

text \<open>\<open>json.loads\<close>; a text that is no JSON raises, which is \<open>None\<close> here.\<close>

definition loads :: "string \<Rightarrow> json option" where
  "loads s = (case parse_value (2 * length s) (skip_ws s) of
     None \<Rightarrow> None | Some (v, t) \<Rightarrow> if skip_ws t = [] then Some v else None)"

fun obj_get :: "json \<Rightarrow> string \<Rightarrow> json option" where
  "obj_get (JObj kvs) k = map_of kvs k"
| "obj_get _ k = None"

section \<open>Round trip\<close>

lemma consR_Some [simp]: "consR x (Some (xs, r)) = Some (x # xs, r)"
  by (simp add: consR_def)

lemma hex_val_digit: "k < 16 \<Longrightarrow> hex_val (hex_digit k) = Some k"
proof -
  have "\<forall>k \<in> set [0..<16]. hex_val (hex_digit k) = Some k" by code_simp
  then show "k < 16 \<Longrightarrow> ?thesis" by auto
qed

lemma hex_digit_mod: "hex_digit n = hex_digit (n mod 16)"
  by (simp add: hex_digit_def)

lemma hex4_code:
  assumes "n < 256"
  shows "hex4 (CHR ''0'') (CHR ''0'') (hex_digit (n div 16)) (hex_digit n) = Some (char_of n)"
proof -
  have z: "hex_val (CHR ''0'') = Some 0" by code_simp
  have d: "hex_val (hex_digit (n div 16)) = Some (n div 16)" using assms by (intro hex_val_digit) auto
  have m: "hex_val (hex_digit n) = Some (n mod 16)" unfolding hex_digit_mod [of n] by (rule hex_val_digit) simp
  show ?thesis unfolding hex4_def z d m using assms by (simp add: Let_def)
qed

lemma short_escapes_ok:
  "map_of short_escapes n = Some e \<Longrightarrow> unescape e = Some (char_of n) \<and> e \<noteq> CHR ''u''"
proof -
  have "\<forall>(n, e) \<in> set short_escapes. unescape e = Some (char_of n) \<and> e \<noteq> CHR ''u''" by code_simp
  then show "map_of short_escapes n = Some e \<Longrightarrow> ?thesis" by (fastforce dest: map_of_SomeD)
qed

lemma short_escapes_None: "map_of short_escapes n = None \<Longrightarrow> n \<noteq> 34 \<and> n \<noteq> 92"
  by (auto simp: short_escapes_def split: if_splits)

lemma parse_escape: "parse_chars (escape_with plain c @ r) = consR c (parse_chars r)"
proof -
  define n where "n = (of_char c :: nat)"
  have c: "c = char_of n" by (simp add: n_def)
  have lt: "n < 256" by (simp add: n_def)
  show ?thesis
  proof (cases "map_of short_escapes n")
    case (Some e)
    then show ?thesis using short_escapes_ok [OF Some] by (simp add: escape_with_def Let_def n_def [symmetric] c [symmetric])
  next
    case None
    show ?thesis
    proof (cases "32 \<le> n \<and> plain n")
      case True
      then show ?thesis using None short_escapes_None [OF None] by (simp add: escape_with_def Let_def n_def)
    next
      case False
      then have "escape_with plain c = CHR 0x5C # CHR ''u'' # CHR ''0'' # CHR ''0'' # [hex_digit (n div 16), hex_digit n]"
        using None by (simp add: escape_with_def Let_def n_def)
      then show ?thesis using hex4_code [OF lt] by (simp add: Let_def c [symmetric])
    qed
  qed
qed

lemma parse_quoted:
  "parse_chars (concat (map (escape_with plain) s) @ CHR 0x22 # r) = Some (s, r)"
  by (induction s) (simp_all add: Let_def parse_escape)

lemma digit_char: "d < 10 \<Longrightarrow> is_digit (char_of (48 + d)) \<and> digit_val (char_of (48 + d)) = d"
proof -
  have "\<forall>d \<in> set [0..<10]. is_digit (char_of (48 + d)) \<and> digit_val (char_of (48 + d)) = d" by code_simp
  then show "d < 10 \<Longrightarrow> ?thesis" by auto
qed

lemma nat_digits_0 [simp]: "nat_digits 0 = [CHR ''0'']"
  by (simp add: nat_digits.simps [of 0]) code_simp

lemma nat_digits_ok:
  "list_all is_digit (nat_digits n) \<and> nat_digits n \<noteq> [] \<and> digits_value (nat_digits n) = n
     \<and> (n \<noteq> 0 \<longrightarrow> hd (nat_digits n) \<noteq> CHR ''0'') \<and> (n = 0 \<longrightarrow> nat_digits n = [CHR ''0''])"
proof (induction n rule: nat_digits.induct)
  case (1 n)
  have "\<forall>d \<in> set [1..<10]. char_of (48 + d :: nat) \<noteq> CHR ''0''" by code_simp
  then have nz: "d < 10 \<Longrightarrow> d \<noteq> 0 \<Longrightarrow> char_of (48 + d :: nat) \<noteq> CHR ''0''" for d by auto
  have z: "char_of (48 :: nat) = CHR ''0''" by code_simp
  show ?case
  proof (cases "n < 10")
    case True
    then show ?thesis using digit_char [OF True] nz [OF True]
      by (auto simp: nat_digits.simps [of n] digits_value_def z)
  next
    case False
    have ih: "list_all is_digit (nat_digits (n div 10)) \<and> nat_digits (n div 10) \<noteq> []
        \<and> digits_value (nat_digits (n div 10)) = n div 10 \<and> (n div 10 \<noteq> 0 \<longrightarrow> hd (nat_digits (n div 10)) \<noteq> CHR ''0'')"
      using "1.IH" [OF False] by blast
    have m: "n mod 10 < 10" by simp
    have d: "n div 10 \<noteq> 0" using False by auto
    show ?thesis using ih digit_char [OF m] d False
      by (simp add: nat_digits.simps [of n] digits_value_def hd_append del: char_of_nat)
  qed
qed

definition number_end :: "string \<Rightarrow> bool" where
  "number_end r = (case r of [] \<Rightarrow> True
     | c # _ \<Rightarrow> \<not> is_digit c \<and> c \<noteq> CHR ''.'' \<and> c \<noteq> CHR ''e'' \<and> c \<noteq> CHR ''E'')"

lemma number_end_tail: "number_end r \<Longrightarrow> parse_frac r = ([], r) \<and> parse_exp r = ([], r)
    \<and> takeWhile is_digit r = [] \<and> dropWhile is_digit r = r"
  by (cases r) (auto simp: number_end_def parse_frac_def parse_exp_def Let_def)

lemma digits_then:
  assumes "list_all is_digit ds" and "number_end r"
  shows "takeWhile is_digit (ds @ r) = ds" "drop (length ds) (ds @ r) = r"
proof -
  show "drop (length ds) (ds @ r) = r" by simp
  show "takeWhile is_digit (ds @ r) = ds"
    using assms number_end_tail [OF assms(2)] by (induction ds) auto
qed

lemma parse_digits:
  assumes "number_end r"
  shows "parse_number (nat_digits n @ r) = Some (JInt (int n), r)"
    "parse_number (CHR ''-'' # nat_digits n @ r) = Some (JInt (- int n), r)"
proof -
  note d = nat_digits_ok [of n] and e = number_end_tail [OF assms]
  obtain c ds where c: "nat_digits n = c # ds" using d by (cases "nat_digits n") auto
  have cm: "c \<noteq> CHR ''-''"
    using d c by (auto simp: is_digit_def less_eq_char_def)
  have ip: "int_part (nat_digits n @ r) = nat_digits n"
  proof (cases "n = 0")
    case False
    then have "c \<noteq> CHR ''0''" using d c by simp
    moreover have "takeWhile is_digit ((c # ds) @ r) = c # ds"
      using digits_then(1) [of "c # ds" r] d c assms by simp
    ultimately show ?thesis by (simp add: c int_part_def)
  qed (simp add: int_part_def)
  have u: "parse_unsigned b (nat_digits n @ r) = Some (JInt (if b then - int n else int n), r)" for b
    unfolding parse_unsigned_def Let_def ip using d e by simp
  show "parse_number (nat_digits n @ r) = Some (JInt (int n), r)"
    using u [of False] cm by (simp add: parse_number_def c)
  show "parse_number (CHR ''-'' # nat_digits n @ r) = Some (JInt (- int n), r)"
    using u [of True] by (simp add: parse_number_def)
qed

lemma parse_atom_digit:
  assumes "is_digit c"
  shows "parse_atom (c # r) = parse_number (c # r)" "parse_atom (CHR ''-'' # c # r) = parse_number (CHR ''-'' # c # r)"
proof -
  have "c \<notin> {CHR ''n'', CHR ''t'', CHR ''f'', CHR ''N'', CHR ''I'', CHR ''-''}"
    using assms by (auto simp: is_digit_def less_eq_char_def)
  then show "parse_atom (c # r) = parse_number (c # r)" "parse_atom (CHR ''-'' # c # r) = parse_number (CHR ''-'' # c # r)"
    by (simp_all add: parse_atom_def json_words_def)
qed

lemma parse_int:
  assumes "number_end r"
  shows "parse_atom (json_int i @ r) = Some (JInt i, r)"
proof -
  obtain c ds where c: "nat_digits n = c # ds" "is_digit c" if "n = nat \<bar>i\<bar>" for n
    using nat_digits_ok [of "nat \<bar>i\<bar>"] by (cases "nat_digits (nat \<bar>i\<bar>)") auto
  show ?thesis
  proof (cases "i < 0")
    case True
    then have "nat (- i) = nat \<bar>i\<bar>" by simp
    then show ?thesis using parse_atom_digit(2) [OF c(2), of "nat (- i)"] parse_digits(2) [OF assms, of "nat (- i)"]
        c(1) [of "nat (- i)"] True by (simp add: json_int_def)
  next
    case False
    then have "nat i = nat \<bar>i\<bar>" by simp
    then show ?thesis using parse_atom_digit(1) [OF c(2), of "nat i"] parse_digits(1) [OF assms, of "nat i"]
        c(1) [of "nat i"] False by (simp add: json_int_def)
  qed
qed

lemma dict_set_new: "k \<notin> fst ` set d \<Longrightarrow> dict_set k v d = d @ [(k, v)]"
  by (induction k v d rule: dict_set.induct) auto

lemma to_dict_id: "distinct (map fst kvs) \<Longrightarrow> to_dict kvs = kvs"
proof -
  have "distinct (map fst (d @ kvs)) \<Longrightarrow> foldl (\<lambda>d (k, v). dict_set k v d) d kvs = d @ kvs" for d
  proof (induction kvs arbitrary: d)
    case (Cons a kvs)
    obtain k v where a: "a = (k, v)" by fastforce
    have "k \<notin> fst ` set d" using Cons.prems by (auto simp: a)
    moreover have "distinct (map fst ((d @ [(k, v)]) @ kvs))" using Cons.prems by (simp add: a)
    ultimately show ?case using Cons.IH [of "d @ [(k, v)]"] by (simp add: a dict_set_new)
  qed simp
  from this [of "[]"] show "distinct (map fst kvs) \<Longrightarrow> ?thesis" by (simp add: to_dict_def)
qed

text \<open>The values the round trip holds for: no number kept as text, no repeated key.\<close>

fun json_ok :: "json \<Rightarrow> bool" where
  "json_ok (JReal t) = False"
| "json_ok (JArr vs) = list_all json_ok vs"
| "json_ok (JObj kvs) = (distinct (map fst kvs) \<and> list_all (\<lambda>(k, v). json_ok v) kvs)"
| "json_ok _ = True"

lemma str_join_Cons: "str_join sep (x # xs) = x @ (if xs = [] then [] else sep @ str_join sep xs)"
  by (cases xs) simp_all

lemma skip_blanks: "list_all blank sp \<Longrightarrow> skip_ws (sp @ x) = skip_ws x"
  by (induction sp) (simp_all add: skip_ws_def)

lemma skip_ws_stop: "\<not> blank c \<Longrightarrow> skip_ws (c # t) = c # t"
  by (simp add: skip_ws_def)

lemma not_blank [simp]:
  "\<not> blank (CHR '','')" "\<not> blank (CHR '']'')" "\<not> blank (CHR ''}'')" "\<not> blank (CHR '':'')"
  "\<not> blank (CHR 0x22)" "\<not> blank (CHR ''['')" "\<not> blank (CHR ''{'')"
  "is_digit c \<Longrightarrow> \<not> blank c" "\<not> blank (CHR ''-'')"
  by (code_simp; fail | auto simp: blank_def is_digit_def less_eq_char_def)+

lemma dumps_head:
  assumes "json_ok v"
  shows "\<exists>c t. dumps esc sp v = c # t \<and> \<not> blank c \<and> c \<noteq> CHR '']''"
proof (cases v)
  case (JInt i)
  have d: "is_digit c \<Longrightarrow> c \<noteq> CHR '']''" for c by (auto simp: is_digit_def less_eq_char_def)
  have "\<exists>c t. nat_digits n = c # t \<and> \<not> blank c \<and> c \<noteq> CHR '']''" for n
    using nat_digits_ok [of n] d by (cases "nat_digits n") auto
  then show ?thesis by (simp add: JInt json_int_def)
qed (use assms in \<open>auto simp: json_bool_def quoted_def blank_def\<close>)

lemma skip_dumps: "json_ok v \<Longrightarrow> skip_ws (dumps esc sp v @ r) = dumps esc sp v @ r"
  using dumps_head [of v esc sp] by (auto simp: skip_ws_stop)

lemma dumps_len: "json_ok v \<Longrightarrow> 0 < length (dumps esc sp v)"
  using dumps_head [of v esc sp] by auto

lemma number_end_simps [simp]: "number_end []" "number_end (CHR '','' # r)" "number_end (CHR '']'' # r)" "number_end (CHR ''}'' # r)"
  by (simp_all add: number_end_def is_digit_def less_eq_char_def)

lemma parse_dumps_items:
  assumes "vs \<noteq> []" and "list_all blank sp" and "list_all json_ok vs"
    and "\<And>v r n. v \<in> set vs \<Longrightarrow> number_end r \<Longrightarrow> 2 * length (dumps esc sp v) \<le> n \<Longrightarrow>
           parse_value n (dumps esc sp v @ r) = Some (v, r)"
    and "2 * length (str_join (CHR '','' # sp) (map (dumps esc sp) vs)) + 1 \<le> n"
  shows "parse_items n (str_join (CHR '','' # sp) (map (dumps esc sp) vs) @ CHR '']'' # r) = Some (vs, r)"
  using assms
proof (induction vs arbitrary: n)
  case (Cons v vs)
  let ?j = "str_join (CHR '','' # sp) (map (dumps esc sp) vs)"
  obtain m where m: "n = Suc m" using Cons.prems(5) by (cases n) auto
  show ?case
  proof (cases "vs = []")
    case True
    then show ?thesis using Cons.prems(4) [of v "CHR '']'' # r" m] Cons.prems(5) by (simp add: m skip_ws_stop)
  next
    case False
    obtain w ws where w: "vs = w # ws" "json_ok w" using False Cons.prems(3) by (cases vs) auto
    have j: "skip_ws (sp @ ?j @ CHR '']'' # r) = ?j @ CHR '']'' # r"
      using skip_dumps [OF w(2)] Cons.prems(2) by (simp add: skip_blanks w(1) str_join_Cons)
    have v: "parse_value m (dumps esc sp v @ CHR '','' # sp @ ?j @ CHR '']'' # r) = Some (v, CHR '','' # sp @ ?j @ CHR '']'' # r)"
      using Cons.prems(4,5) False by (simp add: str_join_Cons m)
    have "parse_items m (?j @ CHR '']'' # r) = Some (vs, r)"
      using Cons.prems False by (intro Cons.IH) (simp_all add: str_join_Cons m)
    then show ?thesis using False v j by (simp add: str_join_Cons m skip_ws_stop)
  qed
qed simp

lemma parse_dumps_members:
  assumes "kvs \<noteq> []" and "list_all blank sp" and "list_all (\<lambda>(k, v). json_ok v) kvs"
    and "\<And>k v r n. (k, v) \<in> set kvs \<Longrightarrow> number_end r \<Longrightarrow> 2 * length (dumps (escape_with plain) sp v) \<le> n \<Longrightarrow>
           parse_value n (dumps (escape_with plain) sp v @ r) = Some (v, r)"
    and "2 * length (str_join (CHR '','' # sp)
      (map (\<lambda>(k, v). quoted (escape_with plain) k @ CHR '':'' # sp @ dumps (escape_with plain) sp v) kvs)) + 1 \<le> n"
  shows "parse_members n (str_join (CHR '','' # sp)
      (map (\<lambda>(k, v). quoted (escape_with plain) k @ CHR '':'' # sp @ dumps (escape_with plain) sp v) kvs)
      @ CHR ''}'' # r) = Some (kvs, r)"
  using assms
proof (induction kvs arbitrary: n)
  case (Cons kv kvs)
  obtain k v where kv: "kv = (k, v)" by fastforce
  let ?d = "dumps (escape_with plain) sp"
  let ?m = "\<lambda>(k, v). quoted (escape_with plain) k @ CHR '':'' # sp @ ?d v"
  let ?j = "str_join (CHR '','' # sp) (map ?m kvs)"
  obtain m where m: "n = Suc m" using Cons.prems(5) by (cases n) auto
  have ok: "json_ok v" using Cons.prems(3) by (simp add: kv)
  have q: "quoted (escape_with plain) k @ x = CHR 0x22 # concat (map (escape_with plain) k) @ CHR 0x22 # x" for k x
    by (simp add: quoted_def)
  have c: "skip_ws (sp @ ?d v @ x) = ?d v @ x" for x using skip_dumps [OF ok] Cons.prems(2) by (simp add: skip_blanks)
  show ?case
  proof (cases "kvs = []")
    case True
    have "parse_value m (?d v @ CHR ''}'' # r) = Some (v, CHR ''}'' # r)"
      using Cons.prems(4) [of k v "CHR ''}'' # r" m] Cons.prems(5) True by (simp add: m kv)
    then show ?thesis using True c by (simp add: m kv q parse_quoted skip_ws_stop del: char_of_eq_iff)
  next
    case False
    obtain k' v' ws where w: "kvs = (k', v') # ws" using False by (cases kvs) auto
    have j: "skip_ws (sp @ ?j @ CHR ''}'' # r) = ?j @ CHR ''}'' # r"
      using Cons.prems(2) by (simp add: skip_blanks w str_join_Cons q skip_ws_stop)
    have v: "parse_value m (?d v @ CHR '','' # sp @ ?j @ CHR ''}'' # r) = Some (v, CHR '','' # sp @ ?j @ CHR ''}'' # r)"
      using Cons.prems(4) [of k v _ m] Cons.prems(5) False by (simp add: str_join_Cons m kv)
    have "parse_members m (?j @ CHR ''}'' # r) = Some (kvs, r)"
    proof (rule Cons.IH [OF False Cons.prems(2)])
      show "list_all (\<lambda>(k, v). json_ok v) kvs" "2 * length ?j + 1 \<le> m"
        using Cons.prems(3,5) False by (simp_all add: str_join_Cons m kv)
    qed (use Cons.prems(4) in auto)
    then show ?thesis using False v j c by (simp add: str_join_Cons m kv q parse_quoted skip_ws_stop)
  qed
qed simp

lemma parse_dumps:
  assumes "list_all blank sp"
  shows "json_ok v \<Longrightarrow> number_end r \<Longrightarrow> 2 * length (dumps (escape_with plain) sp v) \<le> n \<Longrightarrow>
     parse_value n (dumps (escape_with plain) sp v @ r) = Some (v, r)"
proof (induction v arbitrary: r n)
  case JNull
  then show ?case by (cases n) (simp_all add: parse_atom_def json_words_def)
next
  case (JBool b)
  then show ?case by (cases n; cases b) (simp_all add: parse_atom_def json_words_def json_bool_def)
next
  case (JInt i)
  obtain m where m: "n = Suc m" using JInt.prems(3) dumps_len [OF JInt.prems(1)] by (cases n) (auto simp del: dumps.simps)
  have d: "is_digit c \<Longrightarrow> c \<notin> {CHR 0x22, CHR ''['', CHR ''{''}" for c
    by (auto simp: is_digit_def less_eq_char_def)
  have "\<exists>c t. json_int i = c # t \<and> c \<notin> {CHR 0x22, CHR ''['', CHR ''{''}"
    using nat_digits_ok [of "nat (- i)"] nat_digits_ok [of "nat i"] d
    by (cases "nat_digits (nat i)") (auto simp: json_int_def)
  then obtain c t where c: "json_int i = c # t" "c \<noteq> CHR 0x22" "c \<noteq> CHR ''[''" "c \<noteq> CHR ''{''" by auto
  then show ?case using parse_int [OF JInt.prems(2), of i] by (simp add: m)
next
  case (JStr s)
  then show ?case by (cases n) (simp_all add: quoted_def parse_quoted)
next
  case (JArr vs)
  obtain m where m: "n = Suc m" using JArr.prems(3) by (cases n) auto
  show ?case
  proof (cases vs)
    case Nil
    then show ?thesis by (simp add: m skip_ws_stop)
  next
    case (Cons w ws)
    let ?j = "str_join (CHR '','' # sp) (map (dumps (escape_with plain) sp) vs)"
    have ok: "list_all json_ok vs" using JArr.prems(1) by simp
    have "json_ok w" using ok Cons by simp
    from dumps_head [OF this, of "escape_with plain" sp]
    obtain c t where c: "?j @ CHR '']'' # r = c # t" "\<not> blank c" "c \<noteq> CHR '']''" by (auto simp: Cons str_join_Cons)
    have "parse_items m (?j @ CHR '']'' # r) = Some (vs, r)"
    proof (rule parse_dumps_items [OF _ assms ok])
      show "vs \<noteq> []" using Cons by simp
      show "2 * length ?j + 1 \<le> m" using JArr.prems(3) by (simp add: m)
      fix v r' n' assume "v \<in> set vs" "number_end r'" "2 * length (dumps (escape_with plain) sp v) \<le> n'"
      then show "parse_value n' (dumps (escape_with plain) sp v @ r') = Some (v, r')"
        using JArr.IH ok by (auto simp: list_all_iff)
    qed
    then show ?thesis using c by (simp add: m skip_ws_stop)
  qed
next
  case (JObj kvs)
  obtain m where m: "n = Suc m" using JObj.prems(3) by (cases n) auto
  show ?case
  proof (cases kvs)
    case Nil
    then show ?thesis by (simp add: m skip_ws_stop)
  next
    case (Cons kv ws)
    let ?j = "str_join (CHR '','' # sp)
      (map (\<lambda>(k, v). quoted (escape_with plain) k @ CHR '':'' # sp @ dumps (escape_with plain) sp v) kvs)"
    have ok: "list_all (\<lambda>(k, v). json_ok v) kvs" "distinct (map fst kvs)" using JObj.prems(1) by simp_all
    obtain t where c: "?j @ CHR ''}'' # r = CHR 0x22 # t"
      by (cases kv) (auto simp: Cons str_join_Cons quoted_def)
    have "parse_members m (?j @ CHR ''}'' # r) = Some (kvs, r)"
    proof (rule parse_dumps_members [OF _ assms ok(1)])
      show "kvs \<noteq> []" using Cons by simp
      show "2 * length ?j + 1 \<le> m" using JObj.prems(3) by (simp add: m)
      fix k v r' n' assume v: "(k, v) \<in> set kvs" "number_end r'" "2 * length (dumps (escape_with plain) sp v) \<le> n'"
      have "json_ok v" using ok(1) v(1) by (auto simp: list_all_iff)
      then show "parse_value n' (dumps (escape_with plain) sp v @ r') = Some (v, r')"
        using JObj.IH [OF v(1) _ _ v(2,3)] by simp
    qed
    then show ?thesis using c by (simp add: m skip_ws_stop to_dict_id [OF ok(2)])
  qed
qed simp

lemma loads_dumps:
  assumes "list_all blank sp" and "json_ok v"
  shows "loads (dumps (escape_with plain) sp v) = Some v"
proof -
  have "skip_ws (dumps (escape_with plain) sp v) = dumps (escape_with plain) sp v"
    using skip_dumps [OF assms(2), of "escape_with plain" sp "[]"] by simp
  then show ?thesis using parse_dumps [OF assms, of "[]" plain] by (simp add: loads_def skip_ws_def)
qed

lemmas loads_json = loads_dumps [of "[]" _ "\<lambda>n. n \<le> 126", folded json_char_def, simplified]
  loads_dumps [of _ _ "\<lambda>n. True", folded raw_char_def]

end
