(* ===== verification/QualityPolicy.thy ===== *)
theory QualityPolicy imports Json begin

text \<open>
  The source quality policy (\<^verbatim>\<open>services/quality_policy.py\<close>): which of the sources attached to a
  library record is the effective one. A candidate is eligible when its quality tuple exists; a
  decision compares the best eligible candidate with the previous decision.

  Column values have the dynamic type \<open>object | None\<close> in the code. They are values of
  \<open>pyval\<close>: absent, an integer, a Boolean (which Python's \<open>type(v) is int\<close> refuses and
  \<open>v in (None, 0)\<close> accepts when false) or a string. The digest of the candidate set is SHA-256
  of a JSON text; the JSON text is modelled, the digest function \<open>sha\<close> is an argument.
\<close>

section \<open>Data\<close>

datatype pyval = PNone | PInt int | PBool bool | PStr string

datatype codec_enum = FLAC | ALAC | OPUS | AAC | MP3 | VORBIS

datatype codec_value = CodecEnum codec_enum | CodecText string

datatype decision_reason =
    INITIAL_SELECTION | MANUAL_BASELINE | MANUAL_BASELINE_RETAINED | STRICTLY_BETTER_REPLACEMENT
  | CURRENT_SELECTION_RETAINED | INELIGIBLE_SOURCE_REPLACED | POLICY_VERSION_REVIEW
  | NO_ELIGIBLE_SOURCE

record quality_candidate =
  source_id :: string
  codec :: codec_value
  bit_depth :: pyval
  sample_rate :: pyval
  channels :: pyval
  bitrate :: pyval
  confirmed :: bool
  intake_state :: string
  disappeared :: bool

type_synonym quality_tuple = "int \<times> int \<times> int \<times> int \<times> int \<times> int \<times> int"

text \<open>\<open>QualityDecision\<close> and \<open>ExistingDecision\<close> have the same fields; \<open>from_decision\<close> copies a
  decision and may give it another policy version.\<close>

record quality_decision =
  d_source_id :: "string option"
  d_baseline_source_id :: "string option"
  d_policy_version :: string
  d_quality_tuple :: "quality_tuple option"
  d_reason :: decision_reason
  d_candidate_set_key :: string

datatype policy_error = ManualSourceNotEligible

definition POLICY_VERSION :: string where
  "POLICY_VERSION = ''quality-policy-v1''"

definition LOSSLESS_CODECS :: "string list" where
  "LOSSLESS_CODECS = [''FLAC'', ''ALAC'']"

definition LOSSY_CODECS :: "string list" where
  "LOSSY_CODECS = [''OPUS'', ''AAC'', ''MP3'', ''VORBIS'']"

definition CODEC_RANK :: "(string \<times> int) list" where
  "CODEC_RANK = [(''FLAC'', 5), (''ALAC'', 4), (''OPUS'', 3), (''AAC'', 2), (''MP3'', 1), (''VORBIS'', 0)]"

definition EXCLUDED_INTAKE_STATES :: "string list" where
  "EXCLUDED_INTAKE_STATES = [''disappeared'', ''quarantined'', ''unsupported'', ''failed'', ''invalid_audio'']"

definition from_decision :: "quality_decision \<Rightarrow> string \<Rightarrow> quality_decision" where
  "from_decision d version = d\<lparr>d_policy_version := version\<rparr>"

section \<open>Quality tuples\<close>

fun codec_value_name :: "codec_enum \<Rightarrow> string" where
  "codec_value_name FLAC = ''FLAC''"
| "codec_value_name ALAC = ''ALAC''"
| "codec_value_name OPUS = ''OPUS''"
| "codec_value_name AAC = ''AAC''"
| "codec_value_name MP3 = ''MP3''"
| "codec_value_name VORBIS = ''VORBIS''"

fun codec_name :: "codec_value \<Rightarrow> string" where
  "codec_name (CodecEnum c) = codec_value_name c"
| "codec_name (CodecText s) = str_upper s"

fun positive1 :: "pyval \<Rightarrow> bool" where
  "positive1 (PInt n) = (n > 0)"
| "positive1 _ = False"

definition positive :: "pyval list \<Rightarrow> bool" where
  "positive vs = list_all positive1 vs"

text \<open>\<open>v in (None, 0)\<close>, where \<open>False == 0\<close> holds in Python.\<close>

fun none_or_zero :: "pyval \<Rightarrow> bool" where
  "none_or_zero PNone = True"
| "none_or_zero (PInt n) = (n = 0)"
| "none_or_zero (PBool b) = (\<not> b)"
| "none_or_zero (PStr s) = False"

text \<open>The \<open>cast\<close> of a value already known to be a positive integer.\<close>

fun int_of_pyval :: "pyval \<Rightarrow> int" where
  "int_of_pyval (PInt n) = n"
| "int_of_pyval _ = 0"

definition codec_rank :: "string \<Rightarrow> int" where
  "codec_rank c = (case map_of CODEC_RANK c of Some r \<Rightarrow> r | None \<Rightarrow> -1)"

definition quality_tuple :: "quality_candidate \<Rightarrow> quality_tuple option" where
  "quality_tuple cand = (let c = codec_name (codec cand) in
     if \<not> confirmed cand \<or> disappeared cand
        \<or> str_casefold (intake_state cand) \<in> set EXCLUDED_INTAKE_STATES then None
     else if c \<in> set LOSSLESS_CODECS then
       (if \<not> positive [bit_depth cand, sample_rate cand, channels cand]
           \<or> \<not> none_or_zero (bitrate cand) then None
        else Some (1, 2, codec_rank c, int_of_pyval (bit_depth cand),
                   int_of_pyval (sample_rate cand), int_of_pyval (channels cand), 0))
     else if c \<in> set LOSSY_CODECS then
       (if \<not> positive [sample_rate cand, channels cand, bitrate cand]
           \<or> \<not> none_or_zero (bit_depth cand) then None
        else Some (1, 1, codec_rank c, 0, int_of_pyval (sample_rate cand),
                   int_of_pyval (channels cand), int_of_pyval (bitrate cand)))
     else None)"

definition eligible :: "quality_candidate \<Rightarrow> bool" where
  "eligible c = (quality_tuple c \<noteq> None)"

fun neg_tuple :: "quality_tuple \<Rightarrow> quality_tuple" where
  "neg_tuple (a, b, c, d, e, f, g) = (- a, - b, - c, - d, - e, - f, - g)"

text \<open>The sort key of \<open>_best\<close>, which is called with eligible candidates only: there the tuple
  exists and the code's \<open>or ()\<close> is not reached.\<close>

definition best_key :: "quality_candidate \<Rightarrow> quality_tuple \<times> string" where
  "best_key c = (neg_tuple (case quality_tuple c of Some t \<Rightarrow> t | None \<Rightarrow> (0, 0, 0, 0, 0, 0, 0)), source_id c)"

definition best :: "quality_candidate list \<Rightarrow> quality_candidate option" where
  "best cs = first_min best_key cs"

definition strictly_better :: "quality_candidate \<Rightarrow> quality_tuple \<Rightarrow> bool" where
  "strictly_better c prev = (case quality_tuple c of None \<Rightarrow> False | Some t \<Rightarrow> t > prev)"

section \<open>The candidate set key\<close>

text \<open>\<open>json.dumps(payload, separators=(',', ':'), sort_keys=True)\<close> with its ASCII escapes
  (the printers of values are those of \<^theory_text>\<open>Json\<close>).\<close>

fun json_pyval :: "pyval \<Rightarrow> string" where
  "json_pyval PNone = ''null''"
| "json_pyval (PInt i) = json_int i"
| "json_pyval (PBool b) = json_bool b"
| "json_pyval (PStr s) = json_str s"

definition json_field :: "string \<Rightarrow> string \<Rightarrow> string" where
  "json_field name value = json_str name @ '':'' @ value"

definition json_candidate :: "quality_candidate \<Rightarrow> string" where
  "json_candidate c = ''{'' @ str_join '',''
     [json_field ''bit_depth'' (json_pyval (bit_depth c)),
      json_field ''bitrate'' (json_pyval (bitrate c)),
      json_field ''channels'' (json_pyval (channels c)),
      json_field ''codec'' (json_str (codec_name (codec c))),
      json_field ''confirmed'' (json_bool (confirmed c)),
      json_field ''disappeared'' (json_bool (disappeared c)),
      json_field ''intake_state'' (json_str (intake_state c)),
      json_field ''sample_rate'' (json_pyval (sample_rate c)),
      json_field ''source_id'' (json_str (source_id c))] @ ''}''"

definition candidate_set_key :: "(string \<Rightarrow> string) \<Rightarrow> quality_candidate list \<Rightarrow> string" where
  "candidate_set_key sha cs =
     sha (''['' @ str_join '','' (map json_candidate (sort_key source_id cs)) @ '']'')"

section \<open>Decisions\<close>

definition mk_decision :: "quality_candidate \<Rightarrow> string option \<Rightarrow> decision_reason \<Rightarrow> string \<Rightarrow> quality_decision" where
  "mk_decision s baseline reason key =
     \<lparr>d_source_id = Some (source_id s), d_baseline_source_id = baseline,
      d_policy_version = POLICY_VERSION, d_quality_tuple = quality_tuple s,
      d_reason = reason, d_candidate_set_key = key\<rparr>"

definition keep_previous :: "quality_decision \<Rightarrow> decision_reason \<Rightarrow> string \<Rightarrow> quality_decision" where
  "keep_previous p reason key =
     \<lparr>d_source_id = d_source_id p, d_baseline_source_id = d_baseline_source_id p,
      d_policy_version = POLICY_VERSION, d_quality_tuple = d_quality_tuple p,
      d_reason = reason, d_candidate_set_key = key\<rparr>"

definition empty_or_initial :: "quality_candidate option \<Rightarrow> string \<Rightarrow> quality_decision" where
  "empty_or_initial w key = (case w of
     None \<Rightarrow> \<lparr>d_source_id = None, d_baseline_source_id = None, d_policy_version = POLICY_VERSION,
              d_quality_tuple = None, d_reason = NO_ELIGIBLE_SOURCE, d_candidate_set_key = key\<rparr>
   | Some c \<Rightarrow> mk_decision c None INITIAL_SELECTION key)"

text \<open>\<open>{candidate.source_id: candidate for candidate in eligible}\<close>: a later candidate with the
  same identifier replaces an earlier one.\<close>

definition by_id :: "quality_candidate list \<Rightarrow> string \<Rightarrow> quality_candidate option" where
  "by_id cs k = find (\<lambda>c. source_id c = k) (rev cs)"

text \<open>The part of \<open>evaluate\<close> below the manual and the policy-version branches, where the previous
  decision names a source and its tuple.\<close>

definition evaluate_against ::
  "quality_decision \<Rightarrow> quality_tuple \<Rightarrow> quality_candidate option \<Rightarrow> quality_candidate option
   \<Rightarrow> string \<Rightarrow> quality_decision" where
  "evaluate_against prev prev_tuple current winner key = (case d_baseline_source_id prev of
     Some base \<Rightarrow>
       (case (current, winner) of
          (None, Some w) \<Rightarrow> mk_decision w (Some base) INELIGIBLE_SOURCE_REPLACED key
        | _ \<Rightarrow>
          if key = d_candidate_set_key prev then keep_previous prev (d_reason prev) key
          else (case winner of
                  None \<Rightarrow> keep_previous prev MANUAL_BASELINE_RETAINED key
                | Some w \<Rightarrow>
                    if strictly_better w prev_tuple
                    then mk_decision w (Some base) STRICTLY_BETTER_REPLACEMENT key
                    else keep_previous prev MANUAL_BASELINE_RETAINED key))
   | None \<Rightarrow>
       (case winner of
          None \<Rightarrow> keep_previous prev CURRENT_SELECTION_RETAINED key
        | Some w \<Rightarrow>
            if current = None then mk_decision w None INELIGIBLE_SOURCE_REPLACED key
            else if \<not> strictly_better w prev_tuple then keep_previous prev CURRENT_SELECTION_RETAINED key
            else if strictly_better w prev_tuple then mk_decision w None STRICTLY_BETTER_REPLACEMENT key
            else keep_previous prev CURRENT_SELECTION_RETAINED key))"

definition resolved_set_key :: "(string \<Rightarrow> string) \<Rightarrow> quality_candidate list \<Rightarrow> string option \<Rightarrow> string" where
  "resolved_set_key sha cands set_key =
     (if str_truthy set_key then the set_key else candidate_set_key sha cands)"

definition evaluate ::
  "(string \<Rightarrow> string) \<Rightarrow> quality_candidate list \<Rightarrow> quality_decision option \<Rightarrow> string option
   \<Rightarrow> string option \<Rightarrow> policy_error + quality_decision" where
  "evaluate sha cands previous manual_source_id set_key = (
     let key = resolved_set_key sha cands set_key;
         elig = filter eligible cands
     in case manual_source_id of
          Some m \<Rightarrow> (case by_id elig m of
              None \<Rightarrow> Inl ManualSourceNotEligible
            | Some man \<Rightarrow> Inr (mk_decision man (Some (source_id man)) MANUAL_BASELINE key))
        | None \<Rightarrow> (case previous of
              None \<Rightarrow> Inr (empty_or_initial (best elig) key)
            | Some p \<Rightarrow>
                if d_policy_version p \<noteq> POLICY_VERSION then
                  Inr (keep_previous p POLICY_VERSION_REVIEW key)
                else (case (d_source_id p, d_quality_tuple p) of
                    (Some s, Some t) \<Rightarrow> Inr (evaluate_against p t (by_id elig s) (best elig) key)
                  | _ \<Rightarrow> Inr (empty_or_initial (best elig) key))))"


section \<open>Lemmas\<close>

declare mk_decision_def [policy_simps] keep_previous_def [policy_simps]
  empty_or_initial_def [policy_simps] evaluate_against_def [policy_simps]
  from_decision_def [policy_simps]

lemma eligible_iff: "eligible c \<longleftrightarrow> (\<exists>t. quality_tuple c = Some t)"
  by (cases "quality_tuple c") (auto simp: eligible_def)

lemma eligibleI: "quality_tuple c = Some t \<Longrightarrow> eligible c"
  by (simp add: eligible_def)

lemma neg_lex_le:
  fixes a b :: int and t u :: "'b::linorder" and t' u' :: "'c::linorder"
  assumes "t' \<le> u' \<longleftrightarrow> u \<le> t"
  shows "(- a, t') \<le> (- b, u') \<longleftrightarrow> (b, u) \<le> (a, t)"
  using assms by auto

lemma neg_tuple_le: "neg_tuple t \<le> neg_tuple u \<longleftrightarrow> u \<le> t"
proof -
  obtain a b c d e f g where t: "t = (a, b, c, d, e, f, g)" by (cases t) auto
  obtain a' b' c' d' e' f' g' where u: "u = (a', b', c', d', e', f', g')" by (cases u) auto
  show ?thesis unfolding t u neg_tuple.simps by (intro neg_lex_le) simp
qed

lemma neg_tuple_less: "neg_tuple t < neg_tuple u \<longleftrightarrow> u < t"
  by (simp only: less_le_not_le neg_tuple_le)

lemma lex_antitone_le:
  fixes t u :: "'a::linorder" and t' u' :: "'b::linorder" and a b :: "'c::linorder"
  assumes "t' < u' \<longleftrightarrow> u < t" and "t' \<le> u' \<longleftrightarrow> u \<le> t"
  shows "(t', a) \<le> (u', b) \<longleftrightarrow> u < t \<or> (u = t \<and> a \<le> b)"
  using assms by auto

lemma best_key_le:
  assumes "quality_tuple c = Some t" and "quality_tuple d = Some u"
  shows "best_key c \<le> best_key d \<longleftrightarrow> u < t \<or> (u = t \<and> source_id c \<le> source_id d)"
  unfolding best_key_def assms option.case
  by (rule lex_antitone_le) (rule neg_tuple_less, rule neg_tuple_le)

lemma best_eligible: "best (filter eligible cs) = Some w \<Longrightarrow> w \<in> set cs \<and> eligible w"
  unfolding best_def by (drule first_min_in) auto

lemma best_maximal:
  assumes "best (filter eligible cs) = Some w" and "quality_tuple w = Some t"
    and "c \<in> set cs" and "quality_tuple c = Some u"
  shows "u < t \<or> (u = t \<and> source_id w \<le> source_id c)"
proof -
  have "best_key w \<le> best_key c"
    using assms first_min_le [of best_key "filter eligible cs" w c] eligibleI [OF assms(4)]
    by (simp add: best_def)
  then show ?thesis using best_key_le [OF assms(2,4)] by simp
qed

lemma best_None: "best (filter eligible cs) = None \<longleftrightarrow> filter eligible cs = []"
  by (simp add: best_def)

lemma by_id_None: "by_id cs k = None \<longleftrightarrow> k \<notin> source_id ` set cs"
  by (auto simp: by_id_def find_None_iff)

lemma by_id_Some: "by_id cs k = Some c \<Longrightarrow> c \<in> set cs \<and> source_id c = k"
  by (auto simp: by_id_def find_Some_iff) (metis length_rev nth_mem set_rev)

lemma by_id_perm:
  assumes "distinct (map source_id cs)" and "mset cs = mset ds"
  shows "by_id cs k = by_id ds k"
proof (cases "by_id ds k")
  case None
  then have "by_id cs k = None" using mset_eq_setD [OF assms(2)] by (metis by_id_None)
  then show ?thesis using None by simp
next
  case (Some c)
  then have c: "c \<in> set cs" "source_id c = k" using by_id_Some [OF Some] assms(2)
    by (auto dest: mset_eq_setD)
  then obtain d where d: "by_id cs k = Some d" using by_id_None [of cs k] by fastforce
  then have "d \<in> set cs" "source_id d = k" using by_id_Some by blast+
  then have "d = c" using c assms(1) by (auto simp: distinct_map dest: inj_onD)
  then show ?thesis using d Some by simp
qed

lemma inj_best_key: "distinct (map source_id cs) \<Longrightarrow> inj_on best_key (set cs)"
  by (auto simp: best_key_def inj_on_def distinct_map)

lemma best_perm:
  "distinct (map source_id cs) \<Longrightarrow> mset cs = mset ds \<Longrightarrow> best cs = best ds"
  unfolding best_def by (rule first_min_perm) (auto dest: mset_eq_setD inj_best_key)

lemma filter_perm: "mset cs = mset ds \<Longrightarrow> mset (filter P cs) = mset (filter P ds)"
  by simp

lemma candidate_set_key_perm:
  assumes "distinct (map source_id cs)" and "mset cs = mset ds"
  shows "candidate_set_key sha cs = candidate_set_key sha ds"
proof -
  have "sort_key source_id cs = sort_key source_id ds"
    using assms by (intro sort_key_inj_key_eq) (auto simp: distinct_map)
  then show ?thesis by (simp add: candidate_set_key_def)
qed

lemma not_strictly_better_self: "quality_tuple c = Some t \<Longrightarrow> \<not> strictly_better c t"
  by (simp add: strictly_better_def)

text \<open>The two shapes of a decision against a previous one, and the shapes of an automatic
  evaluation; the case analyses below use these instead of unfolding the definitions.\<close>

lemma evaluate_against_cases:
  "(\<exists>r. evaluate_against p t cur w key = keep_previous p r key \<and> (cur \<noteq> None \<or> w = None)
        \<and> (d_baseline_source_id p = None \<longrightarrow> (\<forall>x. w = Some x \<longrightarrow> \<not> strictly_better x t)))
   \<or> (\<exists>x r. w = Some x \<and> evaluate_against p t cur w key = mk_decision x (d_baseline_source_id p) r key
        \<and> (cur = None \<or> strictly_better x t))"
  by (auto simp: evaluate_against_def split: option.splits)

lemma evaluate_against_justified:
  assumes "d = evaluate_against p t (by_id es s) (best es) key" and "d_source_id p = Some s"
    and "\<forall>c\<in>set es. eligible c"
  shows "d_baseline_source_id d = d_baseline_source_id p"
    and "d_source_id d \<noteq> Some s \<Longrightarrow> s \<notin> source_id ` set es
      \<or> (\<exists>w\<in>set es. \<exists>u. d_source_id d = Some (source_id w) \<and> quality_tuple w = Some u \<and> u > t)"
proof -
  consider r where "d = keep_previous p r key"
    | x r where "best es = Some x" "d = mk_decision x (d_baseline_source_id p) r key"
        "by_id es s = None \<or> strictly_better x t"
    using evaluate_against_cases [of p t "by_id es s" "best es" key] assms(1) by auto
  note cases = this
  show "d_baseline_source_id d = d_baseline_source_id p"
    using cases by (cases) (auto simp: keep_previous_def mk_decision_def)
  assume n: "d_source_id d \<noteq> Some s"
  show "s \<notin> source_id ` set es
      \<or> (\<exists>w\<in>set es. \<exists>u. d_source_id d = Some (source_id w) \<and> quality_tuple w = Some u \<and> u > t)"
    using cases
  proof cases
    case 1
    then show ?thesis using n assms(2) by (simp add: keep_previous_def)
  next
    case 2
    then have "x \<in> set es" by (auto simp: best_def dest: first_min_in)
    with 2 show ?thesis using assms(3)
      by (auto simp: mk_decision_def by_id_None [symmetric] strictly_better_def eligible_iff
            simp del: set_filter split: option.splits)
  qed
qed

lemma evaluate_current:
  assumes "d_policy_version p = POLICY_VERSION" and "d_source_id p = Some s" and "d_quality_tuple p = Some t"
  shows "evaluate sha cs (Some p) None set_key =
    Inr (evaluate_against p t (by_id (filter eligible cs) s) (best (filter eligible cs))
      (resolved_set_key sha cs set_key))"
  using assms by (simp add: evaluate_def Let_def)

lemma evaluate_auto_cases:
  assumes "evaluate sha cs previous None set_key = Inr d"
  obtains (initial) "d = empty_or_initial (best (filter eligible cs)) (resolved_set_key sha cs set_key)"
  | (review) p where "previous = Some p" "d_policy_version p \<noteq> POLICY_VERSION"
      "d = keep_previous p POLICY_VERSION_REVIEW (resolved_set_key sha cs set_key)"
  | (kept) p r s t where "previous = Some p" "d = keep_previous p r (resolved_set_key sha cs set_key)"
      "d_source_id p = Some s" "d_quality_tuple p = Some t"
      "by_id (filter eligible cs) s \<noteq> None \<or> best (filter eligible cs) = None"
      "d_baseline_source_id p = None \<longrightarrow>
        (\<forall>x. best (filter eligible cs) = Some x \<longrightarrow> \<not> strictly_better x t)"
  | (replaced) p x r where "previous = Some p" "best (filter eligible cs) = Some x"
      "d = mk_decision x (d_baseline_source_id p) r (resolved_set_key sha cs set_key)"
proof (cases previous)
  case None
  then show thesis using assms initial by (simp add: evaluate_def Let_def)
next
  case (Some p)
  consider "d_policy_version p \<noteq> POLICY_VERSION"
    | "d_policy_version p = POLICY_VERSION" "d_source_id p = None \<or> d_quality_tuple p = None"
    | s t where "d_policy_version p = POLICY_VERSION" "d_source_id p = Some s" "d_quality_tuple p = Some t"
    by (metis not_None_eq)
  then show thesis
  proof cases
    case 1
    then show thesis using assms Some review by (simp add: evaluate_def Let_def)
  next
    case 2
    then have "d = empty_or_initial (best (filter eligible cs)) (resolved_set_key sha cs set_key)"
      using assms Some
      by (cases "d_source_id p"; cases "d_quality_tuple p") (simp_all add: evaluate_def Let_def)
    then show thesis by (rule initial)
  next
    case 3
    then have "d = evaluate_against p t (by_id (filter eligible cs) s) (best (filter eligible cs))
        (resolved_set_key sha cs set_key)"
      using assms Some by (simp add: evaluate_current)
    note d = this
    consider r where "d = keep_previous p r (resolved_set_key sha cs set_key)"
        "by_id (filter eligible cs) s \<noteq> None \<or> best (filter eligible cs) = None"
        "d_baseline_source_id p = None \<longrightarrow>
          (\<forall>x. best (filter eligible cs) = Some x \<longrightarrow> \<not> strictly_better x t)"
      | x r where "best (filter eligible cs) = Some x"
        "d = mk_decision x (d_baseline_source_id p) r (resolved_set_key sha cs set_key)"
      unfolding d using evaluate_against_cases by metis
    then show thesis
    proof cases
      case 1
      show thesis by (rule kept [OF Some 1(1) 3(2,3) 1(2,3)])
    next
      case 2
      show thesis by (rule replaced [OF Some 2])
    qed
  qed
qed

text \<open>A decision for a source that is still eligible, with its own tuple recorded, is kept when the
  key is the recorded one or the best candidate is not strictly better.\<close>

lemma evaluate_against_kept:
  assumes "cur \<noteq> None \<or> w = None"
    and "(d_baseline_source_id p \<noteq> None \<and> key = d_candidate_set_key p)
      \<or> (\<forall>x. w = Some x \<longrightarrow> \<not> strictly_better x t)"
  shows "\<exists>r. evaluate_against p t cur w key = keep_previous p r key"
  using assms by (auto simp: evaluate_against_def split: option.splits)

lemmas decision_fields = mk_decision_def keep_previous_def from_decision_def

section \<open>Properties\<close>

text \<open>C1. An automatic evaluation either keeps the previously selected source with its tuple, or
  finds no eligible candidate and selects none, or selects an eligible candidate that no other
  candidate beats: every other eligible tuple is smaller, or equal with a source identifier that
  is not smaller.\<close>

theorem evaluate_selects_best:
  assumes "evaluate sha cs previous None set_key = Inr d"
  shows "(\<exists>p. previous = Some p \<and> d_source_id d = d_source_id p \<and> d_quality_tuple d = d_quality_tuple p)
    \<or> (filter eligible cs = [] \<and> d_source_id d = None \<and> d_quality_tuple d = None)
    \<or> (\<exists>w \<in> set cs. \<exists>t. quality_tuple w = Some t \<and> d_source_id d = Some (source_id w)
         \<and> d_quality_tuple d = Some t
         \<and> (\<forall>c \<in> set cs. \<forall>u. quality_tuple c = Some u \<longrightarrow>
              u < t \<or> (u = t \<and> source_id w \<le> source_id c)))"
proof -
  have new: ?thesis if w: "best (filter eligible cs) = Some w" and d: "d = mk_decision w b r key" for w b r key
  proof -
    obtain t where t: "w \<in> set cs" "quality_tuple w = Some t"
      using best_eligible [OF w] eligible_iff by blast
    have "d_source_id d = Some (source_id w)" "d_quality_tuple d = Some t"
      by (simp_all add: d mk_decision_def t(2))
    then show ?thesis using t best_maximal [OF w t(2)] by blast
  qed
  show ?thesis using assms
  proof (cases rule: evaluate_auto_cases)
    case initial
    then show ?thesis using new best_None [of cs]
      by (cases "best (filter eligible cs)") (auto simp: empty_or_initial_def)
  next
    case review
    then show ?thesis by (simp add: keep_previous_def)
  next
    case kept
    then show ?thesis by (simp add: keep_previous_def)
  next
    case (replaced p x r)
    show ?thesis by (rule new [OF replaced(2,3)])
  qed
qed

text \<open>C2. What an automatic evaluation may change of a previous decision. Under another policy version
  the selected source and the baseline stay. Under the current one, a selected source with a recorded
  tuple is replaced only for cause: it is no longer among the eligible candidates, or the tuple of the
  new source is strictly greater than the recorded one. The manual baseline stays in every evaluation,
  except that a decision of the current version that has no source or no tuple loses it: such a decision
  is made anew.\<close>

theorem evaluate_change_justified:
  assumes "evaluate sha cs (Some p) None set_key = Inr d"
  shows "d_baseline_source_id d =
      (if d_policy_version p = POLICY_VERSION \<and> (d_source_id p = None \<or> d_quality_tuple p = None)
       then None else d_baseline_source_id p)
    \<and> (d_policy_version p \<noteq> POLICY_VERSION \<longrightarrow> d_source_id d = d_source_id p)
    \<and> (\<forall>s t. d_policy_version p = POLICY_VERSION \<and> d_source_id p = Some s \<and> d_quality_tuple p = Some t
         \<and> d_source_id d \<noteq> Some s \<longrightarrow>
       s \<notin> source_id ` set (filter eligible cs)
       \<or> (\<exists>w \<in> set cs. \<exists>u. d_source_id d = Some (source_id w) \<and> quality_tuple w = Some u \<and> u > t))"
proof -
  consider (review) "d_policy_version p \<noteq> POLICY_VERSION"
    | (anew) "d_policy_version p = POLICY_VERSION" "d_source_id p = None \<or> d_quality_tuple p = None"
    | (against) s t where "d_policy_version p = POLICY_VERSION" "d_source_id p = Some s" "d_quality_tuple p = Some t"
    by (cases "d_policy_version p = POLICY_VERSION"; cases "d_source_id p"; cases "d_quality_tuple p") blast+
  then show ?thesis
  proof cases
    case review
    then have "d = keep_previous p POLICY_VERSION_REVIEW (resolved_set_key sha cs set_key)"
      using assms by (simp add: evaluate_def Let_def)
    then show ?thesis using review by (simp add: keep_previous_def)
  next
    case anew
    then have "d = empty_or_initial (best (filter eligible cs)) (resolved_set_key sha cs set_key)"
      using assms by (auto simp: evaluate_def Let_def split: option.splits)
    then show ?thesis using anew by (auto simp: empty_or_initial_def mk_decision_def split: option.splits)
  next
    case (against s t)
    then have "d = evaluate_against p t (by_id (filter eligible cs) s) (best (filter eligible cs))
        (resolved_set_key sha cs set_key)"
      using assms by (simp add: evaluate_current)
    note just = evaluate_against_justified [OF this against(2)]
    have "\<forall>c\<in>set (filter eligible cs). eligible c" "set (filter eligible cs) \<subseteq> set cs" by auto
    then show ?thesis using just against by fastforce
  qed
qed

text \<open>C3. The decision does not depend on the order in which the candidates are supplied.\<close>

theorem evaluate_order_independent:
  assumes "distinct (map source_id cs)" and "mset cs = mset ds"
  shows "evaluate sha cs previous manual set_key = evaluate sha ds previous manual set_key"
proof -
  let ?f = "filter eligible"
  have dist: "distinct (map source_id (?f cs))"
    using assms(1) by (rule distinct_map_filter)
  have key: "candidate_set_key sha cs = candidate_set_key sha ds"
    using assms by (rule candidate_set_key_perm)
  have winner: "best (?f cs) = best (?f ds)"
    using dist filter_perm [OF assms(2)] by (rule best_perm)
  have index: "by_id (?f cs) = by_id (?f ds)"
    using by_id_perm [OF dist filter_perm [OF assms(2)]] by (rule ext)
  show ?thesis unfolding evaluate_def resolved_set_key_def Let_def key winner index by (rule refl)
qed

text \<open>A decision is a fixed point: evaluating the same candidates again, with the decision just
  made as the previous one, keeps source, tuple and baseline.\<close>

lemma evaluate_stable_facts:
  assumes "evaluate sha cs previous manual set_key = Inr d"
    and "\<forall>p. previous = Some p \<longrightarrow> d_policy_version p = POLICY_VERSION"
    and "evaluate sha cs (Some (from_decision d POLICY_VERSION)) None set_key = Inr d'"
  shows "d_source_id d' = d_source_id d \<and> d_quality_tuple d' = d_quality_tuple d
    \<and> d_baseline_source_id d' = d_baseline_source_id d"
proof -
  let ?e = "filter eligible cs"
  let ?q = "from_decision d POLICY_VERSION"
  let ?k = "resolved_set_key sha cs set_key"
  have again: ?thesis if prev: "d_source_id d = Some s" "d_quality_tuple d = Some t" "d_candidate_set_key d = ?k"
    "by_id ?e s \<noteq> None \<or> best ?e = None"
    "d_baseline_source_id d = None \<longrightarrow> (\<forall>x. best ?e = Some x \<longrightarrow> \<not> strictly_better x t)" for s t
  proof -
    have "d' = evaluate_against ?q t (by_id ?e s) (best ?e) ?k"
      using assms(3) prev(1,2) by (simp add: evaluate_current from_decision_def)
    moreover obtain r where "evaluate_against ?q t (by_id ?e s) (best ?e) ?k = keep_previous ?q r ?k"
      using evaluate_against_kept [of "by_id ?e s" "best ?e" ?q ?k t] prev(3-5)
      by (auto simp: from_decision_def)
    ultimately show ?thesis by (simp add: decision_fields)
  qed
  have chosen: ?thesis if w: "w \<in> set ?e" "d = mk_decision w b r ?k"
    and own: "b = None \<longrightarrow> best ?e = Some w" for w b r
  proof -
    obtain t where t: "quality_tuple w = Some t" using w(1) by (auto simp: eligible_iff)
    show ?thesis by (rule again [of "source_id w" t])
        (use w own t in \<open>auto simp: mk_decision_def by_id_None not_strictly_better_self\<close>)
  qed
  show ?thesis
  proof (cases manual)
    case (Some m)
    then obtain w where w: "by_id ?e m = Some w" "d = mk_decision w (Some (source_id w)) MANUAL_BASELINE ?k"
      using assms(1) by (auto simp: evaluate_def Let_def split: option.splits)
    show ?thesis by (rule chosen [OF _ w(2)]) (use by_id_Some [OF w(1)] in auto)
  next
    case None
    with assms(1) have "evaluate sha cs previous None set_key = Inr d" by simp
    then show ?thesis
    proof (cases rule: evaluate_auto_cases)
      case initial
      show ?thesis
      proof (cases "best ?e")
        case None
        then show ?thesis using initial assms(3)
          by (simp add: empty_or_initial_def evaluate_def Let_def from_decision_def)
      next
        case (Some w)
        have "d = mk_decision w None INITIAL_SELECTION ?k" using initial Some
          by (simp add: empty_or_initial_def)
        then show ?thesis by (rule chosen [rotated]) (use best_eligible [OF Some] Some in simp_all)
      qed
    next
      case review
      then show ?thesis using assms(2) by blast
    next
      case (kept p r s t)
      show ?thesis
        by (rule again [of s t]) (use kept in \<open>simp_all add: keep_previous_def\<close>)
    next
      case (replaced p x r)
      show ?thesis by (rule chosen [OF _ replaced(3)]) (use best_eligible [OF replaced(2)] replaced(2) in simp_all)
    qed
  qed
qed

text \<open>A FLAC, a better FLAC and a lossy candidate, for the instances below.\<close>

definition sample_flac :: quality_candidate where
  "sample_flac = \<lparr>source_id = ''a'', codec = CodecEnum FLAC, bit_depth = PInt 16, sample_rate = PInt 44100,
     channels = PInt 2, bitrate = PNone, confirmed = True, intake_state = ''ready'', disappeared = False\<rparr>"

definition sample_hires :: quality_candidate where
  "sample_hires = sample_flac\<lparr>source_id := ''b'', bit_depth := PInt 24\<rparr>"

definition sample_mp3 :: quality_candidate where
  "sample_mp3 = \<lparr>source_id = ''c'', codec = CodecText ''mp3'', bit_depth = PNone, sample_rate = PInt 44100,
     channels = PInt 2, bitrate = PInt 320000, confirmed = True, intake_state = ''ready'', disappeared = False\<rparr>"

lemmas sample_defs = sample_flac_def sample_hires_def sample_mp3_def

lemma sample_tuples [simp]:
  "quality_tuple sample_flac = Some (1, 2, 5, 16, 44100, 2, 0)"
  "quality_tuple sample_hires = Some (1, 2, 5, 24, 44100, 2, 0)"
  "quality_tuple sample_mp3 = Some (1, 1, 1, 0, 44100, 2, 320000)"
  by code_simp+

lemma sample_ids [simp]:
  "source_id sample_flac = ''a''" "source_id sample_hires = ''b''" "source_id sample_mp3 = ''c''"
  by (simp_all add: sample_defs)

lemma sample_eligible [simp]: "eligible sample_flac" "eligible sample_hires" "eligible sample_mp3"
  by (simp_all add: eligible_def)

lemma sample_best:
  "best [sample_mp3, sample_flac] = Some sample_flac"
  "best [sample_hires, sample_flac] = Some sample_hires"
  by (simp_all add: best_def first_min_def best_key_def)

theorem evaluate_selects_best_witness:
  "evaluate id [sample_mp3, sample_flac] None None (Some ''k'') = Inr (mk_decision sample_flac None INITIAL_SELECTION ''k'')
   \<and> (\<exists>w \<in> set [sample_mp3, sample_flac]. quality_tuple w = Some (1, 2, 5, 16, 44100, 2, 0))"
proof -
  have e: "evaluate id [sample_mp3, sample_flac] None None (Some ''k'') = Inr (mk_decision sample_flac None INITIAL_SELECTION ''k'')"
    by (simp add: evaluate_def resolved_set_key_def sample_best empty_or_initial_def)
  show ?thesis using e evaluate_selects_best [OF e] by (auto simp: mk_decision_def)
qed

definition baseline_previous :: quality_decision where
  "baseline_previous = mk_decision sample_flac (Some ''a'') MANUAL_BASELINE ''k0''"

theorem evaluate_change_justified_witness:
  "\<exists>d. evaluate id [sample_hires, sample_flac] (Some baseline_previous) None (Some ''k'') = Inr d
     \<and> d_source_id d = Some ''b'' \<and> d_baseline_source_id d = Some ''a''
     \<and> (\<exists>w \<in> set [sample_hires, sample_flac]. \<exists>u. source_id w = ''b'' \<and> quality_tuple w = Some u
          \<and> u > (1, 2, 5, 16, 44100, 2, 0))"
proof -
  let ?d = "mk_decision sample_hires (Some ''a'') STRICTLY_BETTER_REPLACEMENT ''k''"
  have e: "evaluate id [sample_hires, sample_flac] (Some baseline_previous) None (Some ''k'') = Inr ?d"
    by (simp add: evaluate_def resolved_set_key_def sample_best baseline_previous_def mk_decision_def by_id_def
        evaluate_against_def strictly_better_def)
  have ids: "d_source_id ?d = Some ''b''" "d_source_id baseline_previous = Some ''a''"
      "d_policy_version baseline_previous = POLICY_VERSION" "d_quality_tuple baseline_previous = Some (1, 2, 5, 16, 44100, 2, 0)"
      "''a'' \<in> source_id ` set (filter eligible [sample_hires, sample_flac])"
    by (simp_all add: baseline_previous_def mk_decision_def)
  have b: "d_baseline_source_id ?d = Some ''a''" by (simp add: mk_decision_def)
  have "d_source_id ?d \<noteq> Some ''a''" by (simp add: mk_decision_def)
  then have "\<exists>w \<in> set [sample_hires, sample_flac]. \<exists>u. d_source_id ?d = Some (source_id w) \<and> quality_tuple w = Some u
      \<and> u > (1, 2, 5, 16, 44100, 2, 0)"
    using evaluate_change_justified [OF e, THEN conjunct2, THEN conjunct2, rule_format, of "''a''" "(1, 2, 5, 16, 44100, 2, 0)"]
      ids by blast
  then show ?thesis using e b ids(1) by (metis option.inject)
qed

theorem evaluate_order_independent_witness:
  "evaluate id [sample_mp3, sample_flac] None None None = evaluate id [sample_flac, sample_mp3] None None None"
  by (rule evaluate_order_independent) (simp_all add: add_mset_commute)

text \<open>The only failure is a manual choice of a source that is not eligible.\<close>

lemma evaluate_fails_iff:
  "evaluate sha cs previous manual set_key = Inl e \<longleftrightarrow>
     (\<exists>m. manual = Some m \<and> m \<notin> source_id ` set (filter eligible cs))"
  by (cases e)
     (auto simp: evaluate_def Let_def by_id_None [symmetric] simp del: set_filter split: option.splits if_splits)

end
