(* ===== verification/Bytes.thy ===== *)
theory Bytes imports Prelude "HOL-Library.Word" begin

text \<open>
  File contents as lists of bytes, the reads the container parsers make, big-endian integers and
  the 28-bit "synchsafe" sizes of ID3v2, with the arithmetic both parsers share; and the outcome of
  an external tool (\<^verbatim>\<open>adapters/inspectors/_tool.py\<close>, \<^verbatim>\<open>adapters/inspectors/decoder.py\<close>).
\<close>

unbundle bit_operations_syntax

type_synonym byte = "8 word"
type_synonym bytes = "byte list"

text \<open>\<open>source.seek(off); source.read(n)\<close>: short at the end of the file.\<close>

definition read_at :: "bytes \<Rightarrow> nat \<Rightarrow> nat \<Rightarrow> bytes" where
  "read_at file off n = take n (drop off file)"

text \<open>\<open>int.from_bytes(bs, 'big')\<close>.\<close>

definition be :: "bytes \<Rightarrow> nat" where
  "be bs = foldl (\<lambda>acc b. acc * 256 + unat b) 0 bs"

definition b_ID3 :: bytes where "b_ID3 = [0x49, 0x44, 0x33]"
definition b_3DI :: bytes where "b_3DI = [0x33, 0x44, 0x49]"
definition b_TAG :: bytes where "b_TAG = [0x54, 0x41, 0x47]"
definition b_fLaC :: bytes where "b_fLaC = [0x66, 0x4C, 0x61, 0x43]"

definition starts_with :: "bytes \<Rightarrow> bytes \<Rightarrow> bool" where
  "starts_with bs p = (take (length p) bs = p)"

lemma be_Nil [simp]: "be [] = 0" by (simp add: be_def)

lemma be_snoc: "be (bs @ [b]) = be bs * 256 + unat b"
  by (simp add: be_def)

lemma foldl_be: "foldl (\<lambda>acc b. acc * 256 + unat b) n bs = n * 256 ^ length bs + be bs"
proof (induction bs rule: rev_induct)
  case Nil
  then show ?case by simp
next
  case (snoc b bs)
  then show ?case by (simp add: be_snoc distrib_right mult.assoc mult.commute [of _ 256])
qed

lemma be_Cons: "be (b # bs) = unat b * 256 ^ length bs + be bs"
  using foldl_be [of "unat b" bs] by (simp add: be_def)

lemma be_bound: "be bs < 256 ^ length bs"
proof (induction bs)
  case Nil
  then show ?case by simp
next
  case (Cons b bs)
  have "unat b \<le> 255" using unsigned_less [of b, where ?'a = nat] by simp
  then have m: "unat b * 256 ^ length bs \<le> 255 * 256 ^ length bs"
    by (rule mult_right_mono) simp
  have "(256::nat) ^ length (b # bs) = 255 * 256 ^ length bs + 256 ^ length bs" by simp
  then show ?case using m Cons.IH unfolding be_Cons by linarith
qed

lemma length_read_at: "length (read_at file off n) = min n (length file - off)"
  by (simp add: read_at_def)

lemma read_at_0: "read_at file 0 n = take n file"
  by (simp add: read_at_def)

lemma read_at_append: "read_at (xs @ ys) (length xs + k) n = read_at ys k n"
  by (simp add: read_at_def)

lemma read_at_prefix: "off + n \<le> length xs \<Longrightarrow> read_at (xs @ ys) off n = read_at xs off n"
  by (simp add: read_at_def)

lemma read_at_all: "length file \<le> n \<Longrightarrow> read_at file 0 n = file"
  by (simp add: read_at_def)

lemma read_at_split:
  assumes "k \<le> n"
  shows "read_at data pos k @ read_at data (pos + k) (n - k) = read_at data pos n"
proof -
  obtain m where "n = k + m" using assms by (auto simp: le_iff_add)
  then show ?thesis by (simp add: read_at_def take_add add.commute)
qed

section \<open>Synchsafe sizes\<close>

text \<open>The sum of 7-bit digits, as the inspectors write it
  (\<open>sum(value << (7 * index) for index, value in enumerate(reversed(bs)))\<close>).\<close>

fun sum7 :: "nat \<Rightarrow> bytes \<Rightarrow> nat" where
  "sum7 i [] = 0"
| "sum7 i (v # vs) = push_bit (7 * i) (unat v) + sum7 (i + 1) vs"

definition synchsafe_sum :: "bytes \<Rightarrow> nat" where
  "synchsafe_sum bs = sum7 0 (rev bs)"

text \<open>The masked and shifted 32-bit value, as the sanitizer writes it.\<close>

definition synchsafe_mask :: "bytes \<Rightarrow> nat" where
  "synchsafe_mask bs = (let n = be bs in
     drop_bit 3 (n AND 0x7F000000) OR drop_bit 2 (n AND 0x007F0000)
       OR drop_bit 1 (n AND 0x00007F00) OR (n AND 0x0000007F))"

lemma or_eq_add:
  fixes x y :: nat
  assumes "x < 2 ^ n"
  shows "push_bit n y OR x = push_bit n y + x"
proof -
  have "push_bit n y AND x = 0"
  proof (rule bit_eqI)
    fix k
    have "bit x k \<Longrightarrow> k < n" using assms
      by (metis bit_take_bit_iff take_bit_nat_eq_self)
    then show "bit (push_bit n y AND x) k = bit (0::nat) k"
      by (auto simp: bit_and_iff bit_push_bit_iff)
  qed
  then show ?thesis by (simp add: disjunctive_add_eq_or)
qed

lemma and_field:
  fixes n :: nat
  shows "n AND push_bit s (mask 7) = push_bit s (n div 2 ^ s mod 128)"
proof -
  have "n AND push_bit s (mask 7) = push_bit s (take_bit 7 (drop_bit s n))"
    by (rule bit_eqI) (auto simp: bit_and_iff bit_push_bit_iff bit_take_bit_iff bit_drop_bit_eq bit_mask_iff)
  then show ?thesis by (simp add: take_bit_eq_mod drop_bit_eq_div)
qed

lemma field_masks:
  "(0x7F000000::nat) = push_bit 24 (mask 7)" "(0x007F0000::nat) = push_bit 16 (mask 7)"
  "(0x00007F00::nat) = push_bit 8 (mask 7)" "(0x0000007F::nat) = push_bit 0 (mask 7)"
  by (simp_all add: push_bit_eq_mult mask_eq_exp_minus_1)

lemma be4: "be [a, b, c, d] = unat a * 16777216 + unat b * 65536 + unat c * 256 + unat d"
  by (simp add: be_def)

lemma unat_byte: "unat (v::byte) < 256"
  using unsigned_less [of v, where ?'a = nat] by simp

lemma high_bit_clear: "((v::byte) AND 0x80 = 0) \<longleftrightarrow> unat v < 128"
proof -
  have "v AND 0x80 = 0 \<longleftrightarrow> \<not> bit v 7"
    by (simp add: and_exp_eq_0_iff_not_bit [of v 7, simplified])
  also have "\<dots> \<longleftrightarrow> \<not> bit (unat v) 7"
    by (simp add: bit_unsigned_iff)
  also have "\<dots> \<longleftrightarrow> even (unat v div 128)"
    by (simp add: bit_iff_odd)
  also have "\<dots> \<longleftrightarrow> unat v < 128"
  proof (cases "unat v < 128")
    case True
    then show ?thesis by simp
  next
    case False
    then have "unat v div 128 = 1"
      using unat_byte [of v] by (intro div_nat_eqI) simp_all
    then show ?thesis using False by simp
  qed
  finally show ?thesis .
qed

lemma be4_fields:
  assumes "unat a < 128" "unat b < 128" "unat c < 128" "unat d < 128"
  shows "be [a, b, c, d] div 16777216 mod 128 = unat a" "be [a, b, c, d] div 65536 mod 128 = unat b"
    "be [a, b, c, d] div 256 mod 128 = unat c" "be [a, b, c, d] mod 128 = unat d"
proof -
  have div_eq: "(q * m + r) div m = q" if "r < m" for q m r :: nat
    using that by simp
  have one: "be [a, b, c, d] = unat a * 16777216 + (unat b * 65536 + unat c * 256 + unat d)"
    and two: "be [a, b, c, d] = (unat a * 256 + unat b) * 65536 + (unat c * 256 + unat d)"
    and three: "be [a, b, c, d] = (unat a * 65536 + unat b * 256 + unat c) * 256 + unat d"
    by (simp_all add: be4)
  have low: "(q * 256 + r) mod 128 = r" if "r < 128" for q r :: nat
  proof -
    have "q * 256 + r = (q * 2) * 128 + r" by (simp only: mult.assoc)
    then show ?thesis using that by (simp only: mod_mult_self3 mod_less)
  qed
  have "be [a, b, c, d] div 16777216 = unat a"
    unfolding one using assms by (intro div_eq) simp
  then show "be [a, b, c, d] div 16777216 mod 128 = unat a" using assms by simp
  have "be [a, b, c, d] div 65536 = unat a * 256 + unat b"
    unfolding two using assms by (intro div_eq) simp
  then show "be [a, b, c, d] div 65536 mod 128 = unat b" using assms low by simp
  have "be [a, b, c, d] div 256 = (unat a * 256 + unat b) * 256 + unat c"
    unfolding three using assms by (subst div_eq) simp_all
  then show "be [a, b, c, d] div 256 mod 128 = unat c" using assms low [of "unat c" "unat a * 256 + unat b"] by simp
  show "be [a, b, c, d] mod 128 = unat d" unfolding three using assms by (intro low)
qed

text \<open>On four bytes with a clear high bit the two forms agree.\<close>

lemma synchsafe_forms_agree:
  assumes "length bs = 4" and "\<forall>v \<in> set bs. v AND 0x80 = 0"
  shows "synchsafe_mask bs = synchsafe_sum bs"
proof -
  obtain a b c d where bs: "bs = [a, b, c, d]" using assms(1)
    by (auto simp: length_Suc_conv numeral_eq_Suc)
  have lt: "unat a < 128" "unat b < 128" "unat c < 128" "unat d < 128"
    using assms(2) by (simp_all add: bs high_bit_clear)
  have f: "be bs div 16777216 mod 128 = unat a" "be bs div 65536 mod 128 = unat b"
    "be bs div 256 mod 128 = unat c" "be bs mod 128 = unat d"
    unfolding bs by (fact be4_fields [OF lt])+
  have m: "be bs AND 0x7F000000 = push_bit 24 (unat a)" "be bs AND 0x007F0000 = push_bit 16 (unat b)"
    "be bs AND 0x00007F00 = push_bit 8 (unat c)" "be bs AND 0x0000007F = unat d"
    unfolding field_masks and_field using f by simp_all
  have s: "drop_bit 3 (push_bit 24 x) = push_bit 14 (push_bit 7 x)" "drop_bit 2 (push_bit 16 x) = push_bit 14 x"
    "drop_bit 1 (push_bit 8 x) = push_bit 7 x" for x :: nat
    by (simp_all add: drop_bit_push_bit)
  have "synchsafe_mask bs = ((push_bit 14 (push_bit 7 (unat a)) OR push_bit 14 (unat b)) OR push_bit 7 (unat c)) OR unat d"
    by (simp only: synchsafe_mask_def Let_def m s or.assoc)
  also have "\<dots> = push_bit 14 (push_bit 7 (unat a) + unat b) OR (push_bit 7 (unat c) OR unat d)"
    using or_eq_add [of "unat b" 7 "unat a"] lt
    by (simp only: push_bit_or [symmetric] or.assoc) simp
  also have "\<dots> = push_bit 14 (push_bit 7 (unat a) + unat b) + (push_bit 7 (unat c) + unat d)"
    using lt by (subst or_eq_add [of "unat d" 7], simp, subst or_eq_add) (simp_all add: push_bit_eq_mult)
  also have "\<dots> = synchsafe_sum bs"
    by (simp add: synchsafe_sum_def bs push_bit_eq_mult algebra_simps)
  finally show ?thesis .
qed

section \<open>External tools\<close>

datatype tool_state = SUCCESS | FAILED | MISSING | EXECUTION_FAILED | TIMED_OUT

record tool_evidence =
  t_state :: tool_state
  t_return_code :: "int option"
  t_stdout :: string
  t_stderr :: string

text \<open>How \<open>subprocess.run\<close> may end, and the evidence \<open>run_tool\<close> makes of it.\<close>

datatype process_end =
    FileNotFound string | TimeoutExpired | OSFailure string
  | Completed int string string

fun run_tool :: "process_end \<Rightarrow> tool_evidence" where
  "run_tool (FileNotFound err) = \<lparr>t_state = MISSING, t_return_code = None, t_stdout = [], t_stderr = err\<rparr>"
| "run_tool TimeoutExpired = \<lparr>t_state = TIMED_OUT, t_return_code = None, t_stdout = [], t_stderr = []\<rparr>"
| "run_tool (OSFailure err) = \<lparr>t_state = EXECUTION_FAILED, t_return_code = None, t_stdout = [], t_stderr = err\<rparr>"
| "run_tool (Completed rc out err) =
     \<lparr>t_state = (if rc = 0 then SUCCESS else FAILED), t_return_code = Some rc, t_stdout = out, t_stderr = err\<rparr>"

end
