(* ===== verification/FlacSanitizer.thy ===== *)
theory FlacSanitizer imports Bytes begin

text \<open>
  The FLAC sanitizer (\<^verbatim>\<open>adapters/sanitizers/flac.py\<close>): it parses the container, keeps the STREAMINFO
  block and the audio frames, and drops every other metadata block, a leading ID3v2 tag and a
  trailing ID3v1 tag. Files are byte lists in a map from paths; the decoder (ffmpeg) is a function
  from contents to its outcome, and \<open>interfere\<close> is what other processes do to the file system
  between the validation of the paths and the exclusive creation of the output.
\<close>

section \<open>Data\<close>

datatype flac_error_kind =
    MALFORMED_CONTAINER | INVALID_STAGING | DESTINATION_CONFLICT | SOURCE_DESTINATION_COLLISION
  | PREFLIGHT_FAILED | POSTFLIGHT_FAILED | IDENTITY_MISMATCH | FRAME_MISMATCH

datatype flac_finding_kind =
    LEADING_ID3V2_REMOVED | TRAILING_ID3V1_REMOVED | METADATA_BLOCK_DROPPED

datatype flac_error = FlacError flac_error_kind string | FileNotFoundError string | FileExistsError string | OSError string

text \<open>The system call that fails, if one does: making the temporary file, writing it after some octets,
  creating the output, or copying to it after some octets.\<close>

datatype flac_fault = NoFlacFault | MkstempFails | TemporaryFails nat | OutputOpenFails | OutputCopyFails nat

record flac_finding =
  ff_kind :: flac_finding_kind
  ff_offset :: nat
  ff_size :: nat

record stream_identity =
  si_md5 :: bytes
  si_sample_rate :: nat
  si_channels :: nat
  si_bits_per_sample :: nat
  si_total_samples :: nat

record flac_layout =
  streaminfo_payload :: bytes
  streaminfo :: stream_identity
  audio_start :: nat
  audio_end :: nat
  findings :: "flac_finding list"
  has_trailing_id3v1 :: bool

record flac_request =
  rq_source :: string
  rq_output :: string
  rq_staging :: string
  rq_staging_exists :: bool
  rq_staging_is_dir :: bool
  rq_output_parent :: string
  rq_tmp :: string \<comment> \<open>the fresh name \<open>mkstemp\<close> gives in the staging directory\<close>

record flac_result =
  fr_output :: string
  fr_findings :: "flac_finding list"
  fr_preflight :: tool_state
  fr_postflight :: tool_state
  fr_streaminfo :: stream_identity

type_synonym files = "string \<rightharpoonup> bytes"

section \<open>Parsing\<close>

definition leading_id3v2 :: "string \<Rightarrow> bytes \<Rightarrow> flac_error + (nat \<times> flac_finding option)" where
  "leading_id3v2 path data = (let payload = read_at data 0 10; bad = Inl (FlacError MALFORMED_CONTAINER path) in
     if \<not> starts_with payload b_ID3 then Inr (0, None)
     else if length payload < 10 \<or> payload ! 3 \<notin> {2, 3, 4} \<or> payload ! 5 AND 0x0F \<noteq> 0 then bad
     else (let size_bytes = take 4 (drop 6 payload) in
       if \<exists>v \<in> set size_bytes. v AND 0x80 \<noteq> 0 then bad
       else (let tag_size = synchsafe_mask size_bytes;
                 footer_size = (if payload ! 3 = 4 \<and> payload ! 5 AND 0x10 \<noteq> 0 then 10 else 0);
                 total_size = 10 + tag_size + footer_size in
         if total_size > length data then bad
         else if footer_size \<noteq> 0
              \<and> read_at data (10 + tag_size) 10 \<noteq> b_3DI @ take 3 (drop 3 payload) @ take 4 (drop 6 payload)
         then bad
         else Inr (total_size,
           Some \<lparr>ff_kind = LEADING_ID3V2_REMOVED, ff_offset = 0, ff_size = total_size\<rparr>))))"

text \<open>The \<open>while True\<close> loop over metadata blocks. \<open>offset\<close> is also the position of the data, which
  every iteration leaves at the end of the block it read or skipped.\<close>

function parse_blocks ::
  "string \<Rightarrow> bytes \<Rightarrow> nat \<Rightarrow> nat \<Rightarrow> flac_finding list \<Rightarrow> bytes option
   \<Rightarrow> flac_error + (nat \<times> flac_finding list \<times> bytes option)" where
  "parse_blocks path data offset block_number fs si =
    (let header_bytes = read_at data offset 4; bad = Inl (FlacError MALFORMED_CONTAINER path) in
     if length header_bytes \<noteq> 4 then bad
     else (let header = header_bytes ! 0;
               block_type = header AND 0x7F;
               block_size = be (drop 1 header_bytes);
               block_end = offset + 4 + block_size in
       if block_end > length data then bad
       else if block_number = 0 \<and> (block_type \<noteq> 0 \<or> block_size \<noteq> 34) then bad
       else if block_type = 0 \<and> si \<noteq> None then bad
       else (let si' = (if block_type = 0 then Some (read_at data (offset + 4) block_size) else si);
                 fs' = (if block_type = 0 then fs
                        else fs @ [\<lparr>ff_kind = METADATA_BLOCK_DROPPED, ff_offset = offset, ff_size = block_size\<rparr>]) in
         if header AND 0x80 \<noteq> 0 then Inr (block_end, fs', si')
         else parse_blocks path data block_end (block_number + 1) fs' si')))"
  by pat_completeness auto
termination
  by (relation "measure (\<lambda>(path, data, offset, n, fs, si). length data - offset)")
     (auto simp: length_read_at)

declare parse_blocks.simps [simp del]

definition streaminfo_identity :: "bytes \<Rightarrow> stream_identity" where
  "streaminfo_identity p = (let packed = be (take 8 (drop 10 p)) in
     \<lparr>si_md5 = take 16 (drop 18 p),
      si_sample_rate = drop_bit 44 packed,
      si_channels = (drop_bit 41 packed AND 0x07) + 1,
      si_bits_per_sample = (drop_bit 36 packed AND 0x1F) + 1,
      si_total_samples = packed AND (push_bit 36 1 - 1)\<rparr>)"

definition parse_layout :: "string \<Rightarrow> bytes \<Rightarrow> flac_error + flac_layout" where
  "parse_layout path data = (let bad = Inl (FlacError MALFORMED_CONTAINER path) in
     case leading_id3v2 path data of
       Inl e \<Rightarrow> Inl e
     | Inr (marker_offset, leading) \<Rightarrow>
       if read_at data marker_offset 4 \<noteq> b_fLaC then bad
       else (case parse_blocks path data (marker_offset + 4) 0
                    (case leading of None \<Rightarrow> [] | Some f \<Rightarrow> [f]) None of
           Inl e \<Rightarrow> Inl e
         | Inr (offset, fs, None) \<Rightarrow> bad
         | Inr (offset, fs, Some payload) \<Rightarrow>
           (let trailing = (offset + 128 \<le> length data \<and> read_at data (length data - 128) 3 = b_TAG);
                aend = (if trailing then length data - 128 else length data) in
            if aend \<le> offset then bad
            else Inr \<lparr>streaminfo_payload = payload, streaminfo = streaminfo_identity payload,
                   audio_start = offset, audio_end = aend,
                   findings = (if trailing
                      then fs @ [\<lparr>ff_kind = TRAILING_ID3V1_REMOVED, ff_offset = aend, ff_size = 128\<rparr>] else fs),
                   has_trailing_id3v1 = trailing\<rparr>)))"

section \<open>Sanitizing\<close>

text \<open>\<open>_copy_audio_frames\<close>: \<open>chunk\<close> is the read size (1 MiB in the code).\<close>

function copy_frames :: "nat \<Rightarrow> string \<Rightarrow> bytes \<Rightarrow> nat \<Rightarrow> nat \<Rightarrow> bytes \<Rightarrow> flac_error + bytes" where
  "copy_frames chunk path data pos remaining out =
     (if remaining = 0 then Inr out
      else (let c = read_at data pos (min chunk remaining) in
        if c = [] then Inl (FlacError FRAME_MISMATCH path)
        else copy_frames chunk path data (pos + length c) (remaining - length c) (out @ c)))"
  by pat_completeness auto
termination
  by (relation "measure (\<lambda>(chunk, path, data, pos, remaining, out). remaining)")
     (auto simp: length_read_at read_at_def)

declare copy_frames.simps [simp del]

definition copy_chunk :: nat where "copy_chunk = 1024 * 1024"

definition copy_audio_frames :: "string \<Rightarrow> bytes \<Rightarrow> flac_layout \<Rightarrow> flac_error + bytes" where
  "copy_audio_frames path data l =
     copy_frames copy_chunk path data (audio_start l) (audio_end l - audio_start l) []"

definition output_header :: bytes where
  "output_header = b_fLaC @ [0x80, 0x00, 0x00, 0x22]"

definition validate_output_layout :: "flac_layout \<Rightarrow> flac_layout \<Rightarrow> string \<Rightarrow> flac_error option" where
  "validate_output_layout src out tmp =
     (if streaminfo out \<noteq> streaminfo src \<or> streaminfo_payload out \<noteq> streaminfo_payload src
      then Some (FlacError IDENTITY_MISMATCH tmp)
      else if int (audio_end out) - int (audio_start out) \<noteq> int (audio_end src) - int (audio_start src)
      then Some (FlacError FRAME_MISMATCH tmp)
      else if findings out \<noteq> [] \<or> has_trailing_id3v1 out then Some (FlacError MALFORMED_CONTAINER tmp)
      else None)"

definition validated_paths :: "flac_request \<Rightarrow> files \<Rightarrow> flac_error option" where
  "validated_paths rq fs =
     (if fs (rq_source rq) = None then Some (FileNotFoundError (rq_source rq))
      else if \<not> rq_staging_exists rq then Some (FileNotFoundError (rq_staging rq))
      else if \<not> rq_staging_is_dir rq \<or> rq_output_parent rq \<noteq> rq_staging rq
      then Some (FlacError INVALID_STAGING (rq_staging rq))
      else if rq_source rq = rq_output rq
      then Some (FlacError SOURCE_DESTINATION_COLLISION (rq_output rq))
      else if fs (rq_output rq) \<noteq> None then Some (FlacError DESTINATION_CONFLICT (rq_output rq))
      else None)"

definition repairable_wrapper :: "flac_layout \<Rightarrow> bool" where
  "repairable_wrapper l = (has_trailing_id3v1 l \<or> (\<exists>f \<in> set (findings l). ff_kind f = LEADING_ID3V2_REMOVED))"

text \<open>\<open>_copy_file_exclusive\<close>: the destination is created first, and removed again when the copy fails;
  a destination that exists is not touched.\<close>

definition copy_file_exclusive :: "flac_fault \<Rightarrow> string \<Rightarrow> string \<Rightarrow> files \<Rightarrow> flac_error option \<times> files" where
  "copy_file_exclusive fault src dest fs =
     (if fs dest \<noteq> None then (Some (FileExistsError dest), fs)
      else if fault = OutputOpenFails then (Some (OSError dest), fs)
      else let created = fs(dest \<mapsto> []) in
        (case (created src, fault) of
           (None, _) \<Rightarrow> (Some (FileNotFoundError src), created(dest := None))
         | (Some content, OutputCopyFails n) \<Rightarrow>
             (let partial = created(dest \<mapsto> take n content) in (Some (OSError dest), partial(dest := None)))
         | (Some content, _) \<Rightarrow> (None, created(dest \<mapsto> content))))"

text \<open>The part of \<open>sanitize_flac\<close> after the temporary file is written, on the file system that holds
  it. \<open>finally\<close> removes the temporary file on every way out.\<close>

definition finish_sanitize ::
  "(bytes \<Rightarrow> tool_state) \<Rightarrow> (files \<Rightarrow> files) \<Rightarrow> flac_fault \<Rightarrow> flac_request \<Rightarrow> flac_layout \<Rightarrow> tool_state \<Rightarrow> bytes \<Rightarrow> files
   \<Rightarrow> (flac_error + flac_result) \<times> files" where
  "finish_sanitize decoder interfere fault rq l pre content fs = (
     case parse_layout (rq_tmp rq) content of
       Inl e \<Rightarrow> (Inl e, fs(rq_tmp rq := None))
     | Inr out \<Rightarrow>
       (case validate_output_layout l out (rq_tmp rq) of
          Some e \<Rightarrow> (Inl e, fs(rq_tmp rq := None))
        | None \<Rightarrow>
          (let post = decoder content in
           if post \<noteq> SUCCESS then (Inl (FlacError POSTFLIGHT_FAILED (rq_tmp rq)), fs(rq_tmp rq := None))
           else (case copy_file_exclusive fault (rq_tmp rq) (rq_output rq) (interfere fs) of
               (Some e, fs') \<Rightarrow> (Inl (if e = FileExistsError (rq_output rq)
                   then FlacError DESTINATION_CONFLICT (rq_output rq) else e), fs'(rq_tmp rq := None))
             | (None, fs') \<Rightarrow> (Inr \<lparr>fr_output = rq_output rq, fr_findings = findings l, fr_preflight = pre,
                        fr_postflight = post, fr_streaminfo = streaminfo l\<rparr>, fs'(rq_tmp rq := None))))))"

definition sanitize_flac ::
  "(bytes \<Rightarrow> tool_state) \<Rightarrow> (files \<Rightarrow> files) \<Rightarrow> flac_fault \<Rightarrow> flac_request \<Rightarrow> files
   \<Rightarrow> (flac_error + flac_result) \<times> files" where
  "sanitize_flac decoder interfere fault rq fs = (
     case validated_paths rq fs of
       Some e \<Rightarrow> (Inl e, fs)
     | None \<Rightarrow>
       (let source = (case fs (rq_source rq) of Some b \<Rightarrow> b | None \<Rightarrow> []) in
        case parse_layout (rq_source rq) source of
          Inl e \<Rightarrow> (Inl e, fs)
        | Inr l \<Rightarrow>
          (let pre = decoder source in
           if pre \<noteq> SUCCESS \<and> \<not> (pre = FAILED \<and> repairable_wrapper l)
           then (Inl (FlacError PREFLIGHT_FAILED (rq_source rq)), fs)
           else if fault = MkstempFails then (Inl (OSError (rq_staging rq)), fs)
           else (let header = output_header @ streaminfo_payload l in
             case copy_audio_frames (rq_source rq) source l of
               Inl e \<Rightarrow> (Inl e, (fs(rq_tmp rq \<mapsto> header))(rq_tmp rq := None))
             | Inr frames \<Rightarrow>
               (let content = header @ frames in
                case fault of
                  TemporaryFails n \<Rightarrow> (Inl (OSError (rq_tmp rq)), (fs(rq_tmp rq \<mapsto> take n content))(rq_tmp rq := None))
                | _ \<Rightarrow> finish_sanitize decoder interfere fault rq l pre content (fs(rq_tmp rq \<mapsto> content)))))))"


section \<open>Lemmas\<close>

lemma parse_blocks_result:
  assumes "parse_blocks path data off n fs si = Inr (stop, fs', si')"
  shows "off + 4 \<le> stop \<and> stop \<le> length data
    \<and> (\<exists>more. fs' = fs @ more \<and> (\<forall>f \<in> set more. off \<le> ff_offset f \<and> ff_offset f + 4 + ff_size f \<le> stop
         \<and> ff_kind f = METADATA_BLOCK_DROPPED))
    \<and> (\<forall>p. si = Some p \<longrightarrow> si' = Some p)
    \<and> (n = 0 \<and> si = None \<longrightarrow> (\<exists>p. si' = Some p \<and> length p = 34))
    \<and> (n = 0 \<longrightarrow> off + 38 \<le> stop)"
  using assms
proof (induction path data off n fs si rule: parse_blocks.induct)
  case (1 path data off n fs si)
  define hb where "hb = read_at data off 4"
  define size where "size = be (drop 1 hb)"
  define si1 where "si1 = (if hb ! 0 AND 0x7F = 0 then Some (read_at data (off + 4) size) else si)"
  define fs1 where "fs1 = (if hb ! 0 AND 0x7F = 0 then fs
     else fs @ [\<lparr>ff_kind = METADATA_BLOCK_DROPPED, ff_offset = off, ff_size = size\<rparr>])"
  have g: "length hb = 4" "off + 4 + size \<le> length data"
      "n = 0 \<longrightarrow> hb ! 0 AND 0x7F = 0 \<and> size = 34" "hb ! 0 AND 0x7F = 0 \<longrightarrow> si = None"
    and r: "(if hb ! 0 AND 0x80 \<noteq> 0 then Inr (off + 4 + size, fs1, si1)
        else parse_blocks path data (off + 4 + size) (n + 1) fs1 si1) = Inr (stop, fs', si')"
    using "1.prems"
    by (subst (asm) parse_blocks.simps; force simp: Let_def hb_def size_def si1_def fs1_def split: if_splits)+
  have step: "si = Some p \<Longrightarrow> si1 = Some p" "n = 0 \<and> si = None \<Longrightarrow> \<exists>p. si1 = Some p \<and> length p = 34"
    for p using g by (auto simp: si1_def length_read_at)
  show ?case
  proof (cases "hb ! 0 AND 0x80 \<noteq> 0")
    case True
    then show ?thesis using r step g(2,3) by (auto simp: fs1_def)
  next
    case False
    then have rec: "parse_blocks path data (off + 4 + size) (n + 1) fs1 si1 = Inr (stop, fs', si')"
      using r by simp
    have ih: "off + 4 + size + 4 \<le> stop \<and> stop \<le> length data
      \<and> (\<exists>more. fs' = fs1 @ more \<and> (\<forall>f \<in> set more. off + 4 + size \<le> ff_offset f \<and> ff_offset f + 4 + ff_size f \<le> stop
         \<and> ff_kind f = METADATA_BLOCK_DROPPED))
      \<and> (\<forall>p. si1 = Some p \<longrightarrow> si' = Some p)"
      using "1.IH" [OF hb_def refl _ refl refl size_def refl _ _ _ si1_def fs1_def] g False rec by auto
    then obtain more where m: "fs' = fs1 @ more" "\<forall>f \<in> set more. off + 4 + size \<le> ff_offset f
        \<and> ff_offset f + 4 + ff_size f \<le> stop \<and> ff_kind f = METADATA_BLOCK_DROPPED" by blast
    have "\<exists>more. fs' = fs @ more \<and> (\<forall>f \<in> set more. off \<le> ff_offset f \<and> ff_offset f + 4 + ff_size f \<le> stop
         \<and> ff_kind f = METADATA_BLOCK_DROPPED)"
      using m ih by (cases "hb ! 0 AND 0x7F = 0") (force simp: fs1_def)+
    then show ?thesis using ih step g(3) by auto
  qed
qed


lemma leading_id3v2_result:
  assumes "leading_id3v2 path data = Inr (m, leading)"
  shows "(m = 0 \<and> leading = None)
    \<or> (10 \<le> m \<and> m \<le> length data \<and> leading = Some \<lparr>ff_kind = LEADING_ID3V2_REMOVED, ff_offset = 0, ff_size = m\<rparr>)"
  using assms by (auto simp: leading_id3v2_def Let_def split: if_splits)

lemma leading_id3v2_total:
  assumes "leading_id3v2 path data = Inl e"
  shows "e = FlacError MALFORMED_CONTAINER path"
  using assms by (auto simp: leading_id3v2_def Let_def split: if_splits)

text \<open>The findings a layout may carry: each names bytes outside the audio frames.\<close>

definition outside_audio :: "nat \<Rightarrow> nat \<Rightarrow> nat \<Rightarrow> flac_finding \<Rightarrow> bool" where
  "outside_audio first stop len f = (case ff_kind f of
     LEADING_ID3V2_REMOVED \<Rightarrow> ff_offset f = 0 \<and> ff_size f < first
   | METADATA_BLOCK_DROPPED \<Rightarrow> ff_offset f + 4 + ff_size f \<le> first
   | TRAILING_ID3V1_REMOVED \<Rightarrow> ff_offset f = stop \<and> stop + 128 = len)"

lemma parse_layout_elim:
  assumes "parse_layout path data = Inr l"
  obtains m leading offset fs payload where
    "leading_id3v2 path data = Inr (m, leading)" "read_at data m 4 = b_fLaC"
    "parse_blocks path data (m + 4) 0 (case leading of None \<Rightarrow> [] | Some f \<Rightarrow> [f]) None
       = Inr (offset, fs, Some payload)"
    "streaminfo_payload l = payload" "streaminfo l = streaminfo_identity payload"
    "audio_start l = offset" "offset < audio_end l"
    "has_trailing_id3v1 l = (offset + 128 \<le> length data \<and> read_at data (length data - 128) 3 = b_TAG)"
    "audio_end l = (if has_trailing_id3v1 l then length data - 128 else length data)"
    "findings l = (if has_trailing_id3v1 l
       then fs @ [\<lparr>ff_kind = TRAILING_ID3V1_REMOVED, ff_offset = audio_end l, ff_size = 128\<rparr>] else fs)"
  using assms
  by (force simp: parse_layout_def Let_def split: if_splits sum.splits prod.splits option.splits)

lemma parse_layout_facts:
  assumes "parse_layout path data = Inr l"
  shows "length (streaminfo_payload l) = 34 \<and> 42 \<le> audio_start l \<and> audio_start l < audio_end l
    \<and> audio_end l \<le> length data
    \<and> streaminfo l = streaminfo_identity (streaminfo_payload l)
    \<and> (\<forall>f \<in> set (findings l). outside_audio (audio_start l) (audio_end l) (length data) f)"
  using assms
proof (cases rule: parse_layout_elim)
  case (1 m leading offset fs payload)
  note blocks = parse_blocks_result [OF 1(3)]
  have len: "length payload = 34" using blocks by auto
  obtain more where more: "fs = (case leading of None \<Rightarrow> [] | Some f \<Rightarrow> [f]) @ more"
      "\<forall>f \<in> set more. ff_offset f + 4 + ff_size f \<le> offset \<and> ff_kind f = METADATA_BLOCK_DROPPED"
    using blocks by blast
  have lead: "\<forall>f. leading = Some f \<longrightarrow> outside_audio offset (audio_end l) (length data) f"
    using leading_id3v2_result [OF 1(1)] blocks by (auto simp: outside_audio_def)
  have fs: "\<forall>f \<in> set fs. outside_audio offset (audio_end l) (length data) f"
    using more lead by (auto simp: outside_audio_def split: option.splits)
  have start: "42 \<le> offset" "offset \<le> length data" using blocks by auto
  have stop: "audio_end l \<le> length data" using 1(9) by auto
  have "\<forall>f \<in> set (findings l). outside_audio offset (audio_end l) (length data) f"
  proof (cases "has_trailing_id3v1 l")
    case True
    then have "outside_audio offset (audio_end l) (length data)
        \<lparr>ff_kind = TRAILING_ID3V1_REMOVED, ff_offset = audio_end l, ff_size = 128\<rparr>"
      using 1(8,9) by (simp add: outside_audio_def)
    then show ?thesis using True fs 1(10) by simp
  next
    case False
    then show ?thesis using fs 1(10) by simp
  qed
  then show ?thesis using 1(4-7) len start stop by simp
qed


lemma copy_frames_eq:
  assumes "0 < chunk" and "pos + remaining \<le> length data"
  shows "copy_frames chunk path data pos remaining out = Inr (out @ read_at data pos remaining)"
  using assms
proof (induction chunk path data pos remaining out rule: copy_frames.induct)
  case (1 chunk path data pos remaining out)
  show ?case
  proof (cases "remaining = 0")
    case True
    then show ?thesis by (subst copy_frames.simps) (simp add: read_at_def)
  next
    case False
    let ?c = "read_at data pos (min chunk remaining)"
    have len: "length ?c = min chunk remaining" using "1.prems" by (simp add: length_read_at)
    then have ne: "?c \<noteq> []" using False "1.prems" by auto
    have "copy_frames chunk path data (pos + length ?c) (remaining - length ?c) (out @ ?c)
        = Inr ((out @ ?c) @ read_at data (pos + length ?c) (remaining - length ?c))"
      using "1.IH" [OF False refl ne] "1.prems" len by simp
    moreover have "?c @ read_at data (pos + length ?c) (remaining - length ?c) = read_at data pos remaining"
      unfolding len by (rule read_at_split) simp
    ultimately show ?thesis using False ne
      by (subst copy_frames.simps) (simp add: Let_def)
  qed
qed

lemma copy_audio_frames_eq:
  assumes "parse_layout path data = Inr l"
  shows "copy_audio_frames path data l = Inr (read_at data (audio_start l) (audio_end l - audio_start l))"
  using parse_layout_facts [OF assms] copy_frames_eq [of copy_chunk "audio_start l" "audio_end l - audio_start l" data path "[]"]
  by (simp add: copy_audio_frames_def copy_chunk_def)

text \<open>An ID3v1 tag at the end of a run of frames.\<close>

definition tag_at_end :: "bytes \<Rightarrow> bool" where
  "tag_at_end frames = (128 \<le> length frames \<and> read_at frames (length frames - 128) 3 = b_TAG)"

lemma length_output_header [simp]: "length output_header = 8"
  by (simp add: output_header_def b_fLaC_def)

text \<open>Parsing what the sanitizer writes.\<close>

lemma parse_blocks_output:
  assumes "length p = 34"
  shows "parse_blocks path (output_header @ p @ frames) 4 0 [] None = Inr (42, [], Some p)"
proof -
  have h: "read_at (output_header @ p @ frames) 4 4 = [0x80, 0, 0, 0x22]"
    by (simp add: read_at_def output_header_def b_fLaC_def)
  have "read_at (output_header @ p @ frames) 8 34 = p"
    using assms by (simp add: read_at_def)
  then show ?thesis using assms
    by (subst parse_blocks.simps) (simp add: h Let_def be_def)
qed

lemma parse_layout_eq:
  assumes "leading_id3v2 path data = Inr (m, leading)" and "read_at data m 4 = b_fLaC"
    and "parse_blocks path data (m + 4) 0 (case leading of None \<Rightarrow> [] | Some f \<Rightarrow> [f]) None
      = Inr (offset, fs, Some payload)"
    and "(offset + 128 \<le> length data \<and> read_at data (length data - 128) 3 = b_TAG) = trailing"
    and "(if trailing then length data - 128 else length data) = aend"
  shows "parse_layout path data =
    (if aend \<le> offset then Inl (FlacError MALFORMED_CONTAINER path)
     else Inr \<lparr>streaminfo_payload = payload, streaminfo = streaminfo_identity payload,
            audio_start = offset, audio_end = aend,
            findings = (if trailing
               then fs @ [\<lparr>ff_kind = TRAILING_ID3V1_REMOVED, ff_offset = aend, ff_size = 128\<rparr>] else fs),
            has_trailing_id3v1 = trailing\<rparr>)"
  unfolding parse_layout_def Let_def assms(1,2) sum.case prod.case assms(3) option.case assms(4,5)
  by (rule if_not_P) simp

lemma parse_layout_output:
  assumes "length p = 34" and "frames \<noteq> []"
  shows "parse_layout path (output_header @ p @ frames) =
    (if tag_at_end frames then
       (if length frames = 128 then Inl (FlacError MALFORMED_CONTAINER path)
        else Inr \<lparr>streaminfo_payload = p, streaminfo = streaminfo_identity p, audio_start = 42,
               audio_end = 42 + length frames - 128,
               findings = [\<lparr>ff_kind = TRAILING_ID3V1_REMOVED, ff_offset = 42 + length frames - 128, ff_size = 128\<rparr>],
               has_trailing_id3v1 = True\<rparr>)
     else Inr \<lparr>streaminfo_payload = p, streaminfo = streaminfo_identity p, audio_start = 42,
               audio_end = 42 + length frames, findings = [], has_trailing_id3v1 = False\<rparr>)"
proof -
  let ?d = "output_header @ p @ frames"
  have id3: "leading_id3v2 path ?d = Inr (0, None)"
    by (simp add: leading_id3v2_def Let_def read_at_def starts_with_def output_header_def b_fLaC_def b_ID3_def)
  have marker: "read_at ?d 0 4 = b_fLaC"
    by (simp add: read_at_def output_header_def b_fLaC_def)
  have tag: "42 + 128 \<le> length ?d \<and> read_at ?d (length ?d - 128) 3 = b_TAG \<longleftrightarrow> tag_at_end frames"
  proof (cases "128 \<le> length frames")
    case True
    then have at: "length ?d - 128 = length (output_header @ p) + (length frames - 128)"
      using assms(1) by simp
    have "read_at ?d (length ?d - 128) 3 = read_at frames (length frames - 128) 3"
      unfolding at using read_at_append [of "output_header @ p" frames] by (simp only: append_assoc)
    then show ?thesis using True assms(1) by (simp only: tag_at_end_def) simp
  next
    case False
    then show ?thesis using assms(1) by (simp add: tag_at_end_def)
  qed
  have len: "length ?d = 42 + length frames" using assms(1) by simp
  have blocks: "parse_blocks path ?d (0 + 4) 0 (case None of None \<Rightarrow> [] | Some f \<Rightarrow> [f]) None = Inr (42, [], Some p)"
    using parse_blocks_output [OF assms(1)] by simp
  show ?thesis
    unfolding parse_layout_eq [OF id3 marker blocks tag refl] len
    using assms(2) by (cases "tag_at_end frames") (auto simp: tag_at_end_def)
qed


section \<open>Properties\<close>

text \<open>Parsing never assigns a byte twice or outside the file: the audio frames of an accepted
  file are a non-empty range behind at least 42 bytes of marker and STREAMINFO, the kept STREAMINFO
  payload has 34 bytes, and everything reported as removed lies outside the frames.\<close>

lemma parse_layout_bounds:
  assumes "parse_layout path data = Inr l"
  shows "length (streaminfo_payload l) = 34 \<and> 42 \<le> audio_start l \<and> audio_start l < audio_end l
    \<and> audio_end l \<le> length data
    \<and> (\<forall>f \<in> set (findings l). outside_audio (audio_start l) (audio_end l) (length data) f)"
  using parse_layout_facts [OF assms] by blast

lemma frames_length:
  assumes "parse_layout path data = Inr l"
  shows "length (read_at data (audio_start l) (audio_end l - audio_start l)) = audio_end l - audio_start l"
  using parse_layout_facts [OF assms] by (auto simp: length_read_at)

lemma round_trip_facts:
  assumes "parse_layout path data = Inr l"
    and "copy_audio_frames path data l = Inr frames"
  shows "frames = read_at data (audio_start l) (audio_end l - audio_start l)
    \<and> ((\<exists>l'. parse_layout tmp (output_header @ streaminfo_payload l @ frames) = Inr l'
            \<and> validate_output_layout l l' tmp = None)
       \<longleftrightarrow> \<not> tag_at_end frames)
    \<and> (\<forall>l'. parse_layout tmp (output_header @ streaminfo_payload l @ frames) = Inr l'
         \<longrightarrow> streaminfo l' = streaminfo l \<and> streaminfo_payload l' = streaminfo_payload l)"
proof -
  have f: "frames = read_at data (audio_start l) (audio_end l - audio_start l)"
    using assms copy_audio_frames_eq [OF assms(1)] by simp
  have len: "length frames = audio_end l - audio_start l" using f frames_length [OF assms(1)] by simp
  note facts = parse_layout_facts [OF assms(1)]
  have ne: "frames \<noteq> []" using len facts by auto
  note out = parse_layout_output [OF _ ne, of "streaminfo_payload l" tmp]
  show ?thesis
  proof (cases "tag_at_end frames")
    case True
    then show ?thesis using facts out f len
      by (auto simp: validate_output_layout_def tag_at_end_def split: if_splits)
  next
    case False
    then show ?thesis using facts out f len by (simp add: validate_output_layout_def)
  qed
qed

text \<open>C4. Round trip: what the sanitizer writes for an accepted file is the marker, one last STREAMINFO
  block and the frames; parsing it again gives the same stream identity, and the output check
  accepts it exactly when the frames do not themselves end in an ID3v1 tag.\<close>

theorem sanitized_round_trip:
  assumes "parse_layout path data = Inr l"
    and "copy_audio_frames path data l = Inr frames"
  shows "frames = read_at data (audio_start l) (audio_end l - audio_start l)
    \<and> ((\<exists>l'. parse_layout tmp (output_header @ streaminfo_payload l @ frames) = Inr l'
            \<and> validate_output_layout l l' tmp = None)
       \<longleftrightarrow> \<not> tag_at_end frames)
    \<and> (\<forall>l'. parse_layout tmp (output_header @ streaminfo_payload l @ frames) = Inr l'
         \<longrightarrow> streaminfo l' = streaminfo l \<and> streaminfo_payload l' = streaminfo_payload l)"
  using assms by (rule round_trip_facts)

lemma validated_paths_facts:
  "validated_paths rq fs = None \<Longrightarrow>
     fs (rq_source rq) \<noteq> None \<and> fs (rq_output rq) = None \<and> rq_source rq \<noteq> rq_output rq"
  by (auto simp: validated_paths_def split: if_splits)

text \<open>A successful sanitization publishes, under the requested output path, exactly the marker,
  STREAMINFO and frames of the source, in a file that parses with nothing left to remove; it
  removes its temporary file and writes nothing else.\<close>

lemma copy_file_exclusive_outcome:
  assumes "copy_file_exclusive fault src dest fs = (e, fs')" and "src \<noteq> dest"
  shows "e \<noteq> None \<Longrightarrow> fs' = fs"
    and "e = None \<Longrightarrow> fs dest = None \<and> (\<exists>content. fs src = Some content \<and> fs' = fs(dest \<mapsto> content))"
  using assms by (auto simp: copy_file_exclusive_def Let_def split: if_splits option.splits flac_fault.splits)

lemma finish_sanitize_outcome:
  assumes "finish_sanitize decoder interfere fault rq l pre content fs = (r, fs')" and "rq_tmp rq \<noteq> rq_output rq"
  shows "r = Inl e \<Longrightarrow> fs' = fs(rq_tmp rq := None) \<or> fs' = (interfere fs)(rq_tmp rq := None)"
    and "r = Inr out \<Longrightarrow> fr_streaminfo out = streaminfo l \<and> decoder content = SUCCESS
      \<and> (\<exists>l'. parse_layout (rq_tmp rq) content = Inr l' \<and> validate_output_layout l l' (rq_tmp rq) = None)
      \<and> interfere fs (rq_output rq) = None
      \<and> (\<exists>c. interfere fs (rq_tmp rq) = Some c \<and> fs' = (interfere fs)(rq_output rq \<mapsto> c, rq_tmp rq := None))"
  using assms copy_file_exclusive_outcome [OF _ assms(2), of fault "interfere fs"]
  by (fastforce simp: finish_sanitize_def Let_def split: sum.splits option.splits if_splits prod.splits)+

lemma sanitize_flac_output:
  assumes "sanitize_flac decoder interfere fault rq fs = (Inr r, fs')"
    and "rq_tmp rq \<noteq> rq_output rq"
  shows "\<exists>data l l' content c. fs (rq_source rq) = Some data \<and> parse_layout (rq_source rq) data = Inr l
    \<and> content = output_header @ streaminfo_payload l @ read_at data (audio_start l) (audio_end l - audio_start l)
    \<and> interfere (fs(rq_tmp rq \<mapsto> content)) (rq_tmp rq) = Some c
    \<and> fs' = (interfere (fs(rq_tmp rq \<mapsto> content)))(rq_output rq \<mapsto> c, rq_tmp rq := None)
    \<and> interfere (fs(rq_tmp rq \<mapsto> content)) (rq_output rq) = None
    \<and> parse_layout (rq_tmp rq) content = Inr l' \<and> findings l' = [] \<and> streaminfo l' = streaminfo l
    \<and> decoder content = SUCCESS \<and> fr_streaminfo r = streaminfo l"
proof -
  have v: "validated_paths rq fs = None" using assms(1)
    by (auto simp: sanitize_flac_def split: option.splits)
  obtain data where d: "fs (rq_source rq) = Some data" using validated_paths_facts [OF v] by blast
  obtain l where l: "parse_layout (rq_source rq) data = Inr l" using assms(1) v d
    by (auto simp: sanitize_flac_def split: sum.splits)
  define content where "content = output_header @ streaminfo_payload l @ read_at data (audio_start l) (audio_end l - audio_start l)"
  have fin: "finish_sanitize decoder interfere fault rq l (decoder data) content (fs(rq_tmp rq \<mapsto> content)) = (Inr r, fs')"
    using assms(1) v d l copy_audio_frames_eq [OF l]
    by (auto simp: sanitize_flac_def content_def Let_def split: if_splits flac_fault.splits)
  show ?thesis using finish_sanitize_outcome(2) [OF fin assms(2) refl] d l
    by (auto simp: content_def validate_output_layout_def split: if_splits)
qed

text \<open>C5. A sanitization that fails, in whichever check or system call, leaves no temporary file, and no
  output of its own: what it leaves is the file system it found, or the one other processes have made of
  it up to the exclusive copy, so that a destination created meanwhile is not removed. With no other
  process at work the file system is what it was.\<close>

theorem sanitize_flac_failure_clean:
  assumes "sanitize_flac decoder interfere fault rq fs = (Inl e, fs')"
    and "fs (rq_tmp rq) = None" and "rq_tmp rq \<noteq> rq_output rq"
  shows "fs' (rq_tmp rq) = None
    \<and> (fs' = fs \<or> (\<exists>content. fs' = (interfere (fs(rq_tmp rq \<mapsto> content)))(rq_tmp rq := None)))
    \<and> ((\<forall>f. interfere f = f) \<longrightarrow> fs' = fs)"
proof -
  have undo: "(fs(rq_tmp rq \<mapsto> c))(rq_tmp rq := None) = fs" for c
    using assms(2) by auto
  have fin: "f = fs \<or> f = (interfere (fs(rq_tmp rq \<mapsto> c)))(rq_tmp rq := None)"
    if "finish_sanitize decoder interfere fl rq l pre c (fs(rq_tmp rq \<mapsto> c)) = (Inl e, f)" for fl l pre c f
    using finish_sanitize_outcome(1) [OF that assms(3) refl] undo [of c] by auto
  have "fs' = fs \<or> (\<exists>content. fs' = (interfere (fs(rq_tmp rq \<mapsto> content)))(rq_tmp rq := None))"
    using assms(1) undo
    by (auto simp: sanitize_flac_def Let_def simp del: fun_upd_upd dest!: fin
        split: option.splits sum.splits if_splits flac_fault.splits)
  then show ?thesis using undo assms(2) by auto
qed

section \<open>Instances\<close>

text \<open>A FLAC with a padding block behind STREAMINFO, and its sanitization.\<close>

definition sample_streaminfo :: bytes where
  "sample_streaminfo = replicate 10 0 @ [0x0A, 0xC4, 0x42, 0xF0, 0, 0, 0, 0x10] @ replicate 16 7"

definition sample_file :: bytes where
  "sample_file = b_fLaC @ [0x00, 0, 0, 0x22] @ sample_streaminfo @ [0x81, 0, 0, 2, 0, 0] @ [1, 2, 3]"

definition sample_layout :: flac_layout where
  "sample_layout = \<lparr>streaminfo_payload = sample_streaminfo, streaminfo = streaminfo_identity sample_streaminfo,
     audio_start = 48, audio_end = 51,
     findings = [\<lparr>ff_kind = METADATA_BLOCK_DROPPED, ff_offset = 42, ff_size = 2\<rparr>], has_trailing_id3v1 = False\<rparr>"

lemma sample_parse: "parse_layout p sample_file = Inr sample_layout"
proof -
  have id3: "leading_id3v2 p sample_file = Inr (0, None)"
    by (simp add: leading_id3v2_def Let_def read_at_def starts_with_def sample_file_def b_fLaC_def b_ID3_def)
  have marker: "read_at sample_file 0 4 = b_fLaC"
    by (simp add: read_at_def sample_file_def b_fLaC_def)
  have len: "length sample_file = 51" by (simp add: sample_file_def sample_streaminfo_def b_fLaC_def)
  have r: "read_at sample_file 4 4 = [0, 0, 0, 0x22]" "read_at sample_file 8 34 = sample_streaminfo"
    "read_at sample_file 42 4 = [0x81, 0, 0, 2]"
    by (simp_all add: read_at_def sample_file_def b_fLaC_def sample_streaminfo_def numeral_eq_Suc)
  have blocks: "parse_blocks p sample_file (0 + 4) 0 (case None of None \<Rightarrow> [] | Some f \<Rightarrow> [f]) None
     = Inr (48, [\<lparr>ff_kind = METADATA_BLOCK_DROPPED, ff_offset = 42, ff_size = 2\<rparr>], Some sample_streaminfo)"
    by (simp add: parse_blocks.simps [of p sample_file 4] parse_blocks.simps [of p sample_file 42] r len be_def)
  show ?thesis unfolding parse_layout_eq [OF id3 marker blocks _ refl] sample_layout_def
    using parse_layout_eq [OF id3 marker blocks refl refl] len by (simp add: sample_layout_def)
qed

theorem sanitized_round_trip_witness:
  "copy_audio_frames ''a'' sample_file sample_layout = Inr [1, 2, 3]
   \<and> (\<exists>l'. parse_layout ''t'' (output_header @ streaminfo_payload sample_layout @ [1, 2, 3]) = Inr l'
        \<and> validate_output_layout sample_layout l' ''t'' = None)"
proof -
  have "read_at sample_file 48 3 = [1, 2, 3]"
    by (simp add: read_at_def sample_file_def b_fLaC_def sample_streaminfo_def numeral_eq_Suc)
  then have c: "copy_audio_frames ''a'' sample_file sample_layout = Inr [1, 2, 3]"
    using copy_audio_frames_eq [OF sample_parse] by (simp add: sample_layout_def)
  moreover have "\<not> tag_at_end [1, 2, 3]" by (simp add: tag_at_end_def)
  ultimately show ?thesis using sanitized_round_trip [OF sample_parse c, of "''t''"] c by blast
qed

definition sample_request :: flac_request where
  "sample_request = \<lparr>rq_source = ''/in/a.flac'', rq_output = ''/st/a.flac'', rq_staging = ''/st'',
     rq_staging_exists = True, rq_staging_is_dir = True, rq_output_parent = ''/st'', rq_tmp = ''/st/tmp''\<rparr>"

text \<open>The frames cannot be copied completely to the output.\<close>

lemma sample_copied: "copy_audio_frames ''/in/a.flac'' sample_file sample_layout = Inr (read_at sample_file 48 3)"
  using copy_audio_frames_eq [OF sample_parse] by (simp add: sample_layout_def)

definition sample_content :: bytes where
  "sample_content = output_header @ streaminfo_payload sample_layout @ read_at sample_file 48 3"

lemma sample_content_ok:
  "\<exists>l'. parse_layout ''/st/tmp'' sample_content = Inr l' \<and> validate_output_layout sample_layout l' ''/st/tmp'' = None"
proof -
  have "length (read_at sample_file 48 3) = 3"
    using frames_length [OF sample_parse] by (simp add: sample_layout_def)
  then have "\<not> tag_at_end (read_at sample_file 48 3)" by (simp add: tag_at_end_def)
  then show ?thesis
    using round_trip_facts [OF sample_parse sample_copied, of "''/st/tmp''"] unfolding sample_content_def by blast
qed

lemma sample_sanitize:
  "\<exists>r fs'. sanitize_flac (\<lambda>_. SUCCESS) id NoFlacFault sample_request [''/in/a.flac'' \<mapsto> sample_file] = (Inr r, fs')"
  using sample_content_ok sample_copied sample_parse
  by (auto simp: sanitize_flac_def sample_request_def validated_paths_def finish_sanitize_def Let_def
      sample_content_def copy_file_exclusive_def)

theorem sanitize_flac_failure_clean_witness:
  "fst (sanitize_flac (\<lambda>_. SUCCESS) id (OutputCopyFails 7) sample_request [''/in/a.flac'' \<mapsto> sample_file])
     = Inl (OSError ''/st/a.flac'')
   \<and> snd (sanitize_flac (\<lambda>_. SUCCESS) id (OutputCopyFails 7) sample_request [''/in/a.flac'' \<mapsto> sample_file])
     = [''/in/a.flac'' \<mapsto> sample_file]"
proof -
  have e: "fst (sanitize_flac (\<lambda>_. SUCCESS) id (OutputCopyFails 7) sample_request [''/in/a.flac'' \<mapsto> sample_file])
      = Inl (OSError ''/st/a.flac'')"
    using sample_content_ok sample_copied sample_parse
    by (auto simp: sanitize_flac_def sample_request_def validated_paths_def finish_sanitize_def Let_def
        sample_content_def copy_file_exclusive_def)
  then obtain fs' where f: "sanitize_flac (\<lambda>_. SUCCESS) id (OutputCopyFails 7) sample_request [''/in/a.flac'' \<mapsto> sample_file]
      = (Inl (OSError ''/st/a.flac''), fs')" by (metis prod.collapse)
  show ?thesis using sanitize_flac_failure_clean [OF f] e f by (simp add: sample_request_def)
qed

end
