(* ===== verification/Inspectors.thy ===== *)
theory Inspectors imports FlacSanitizer begin

text \<open>
  The container inspectors: \<^verbatim>\<open>adapters/inspectors/flac.py\<close>, \<^verbatim>\<open>adapters/inspectors/mp3.py\<close> and
  the capability parser of \<^verbatim>\<open>adapters/inspectors/media_capabilities.py\<close> on decoded JSON. An
  inspector never raises: a malformed container is a finding and the state QUARANTINE.
\<close>

section \<open>The FLAC inspector\<close>

datatype inspection_state = VALID | INFRASTRUCTURE | QUARANTINE

datatype flac_inspection_kind =
    LEADING_ID3V2 | FLAC_MARKER | STREAMINFO | VORBIS_COMMENT | PICTURE | APPLICATION | PADDING
  | METADATA_BLOCK | TRAILING_ID3V1 | MALFORMED | FLAC_TEST_FAILED | FLAC_TEST_UNAVAILABLE
  | FLAC_TEST_TIMED_OUT

record inspection_finding =
  in_kind :: flac_inspection_kind
  in_offset :: "nat option"
  in_size :: "nat option"

record flac_inspection =
  fi_state :: inspection_state
  fi_findings :: "inspection_finding list"
  fi_flac_test :: tool_state

definition mk_finding :: "flac_inspection_kind \<Rightarrow> nat option \<Rightarrow> nat option \<Rightarrow> inspection_finding" where
  "mk_finding k off sz = \<lparr>in_kind = k, in_offset = off, in_size = sz\<rparr>"

definition block_kind :: "byte \<Rightarrow> flac_inspection_kind" where
  "block_kind t = (if t = 0 then STREAMINFO else if t = 1 then PADDING else if t = 2 then APPLICATION
     else if t = 4 then VORBIS_COMMENT else if t = 6 then PICTURE else METADATA_BLOCK)"

definition inspect_leading_id3v2 :: "bytes \<Rightarrow> nat \<Rightarrow> nat \<times> inspection_finding option \<times> bool" where
  "inspect_leading_id3v2 payload file_size =
     (if \<not> starts_with payload b_ID3 then (0, None, False)
      else if length payload < 10 \<or> (\<exists>v \<in> set (take 4 (drop 6 payload)). v AND 0x80 \<noteq> 0) then (0, None, True)
      else (let total_size = 10 + synchsafe_sum (take 4 (drop 6 payload)) in
        if total_size > file_size then (0, None, True)
        else (total_size, Some (mk_finding LEADING_ID3V2 (Some 0) (Some total_size)), False)))"

text \<open>The \<open>while not is_last\<close> loop. \<open>Inl\<close> carries the findings of the early, malformed return.\<close>

function scan_blocks ::
  "bytes \<Rightarrow> nat \<Rightarrow> bool \<Rightarrow> inspection_finding list \<Rightarrow> inspection_finding list + inspection_finding list" where
  "scan_blocks data offset first_block fs =
    (let header_bytes = read_at data offset 4 in
     if length header_bytes \<noteq> 4 then Inl (fs @ [mk_finding MALFORMED (Some offset) None])
     else (let header = header_bytes ! 0;
               is_last = (header AND 0x80 \<noteq> 0);
               block_type = header AND 0x7F;
               block_size = be (drop 1 header_bytes);
               data_offset = offset + 4 in
       if length data < data_offset + block_size
       then Inl (fs @ [mk_finding MALFORMED (Some offset) (Some block_size)])
       else (let fs' = fs @ [mk_finding (block_kind block_type) (Some offset) (Some block_size)] in
         if first_block \<and> (block_type \<noteq> 0 \<or> block_size \<noteq> 34)
         then Inl (fs' @ [mk_finding MALFORMED (Some offset) (Some block_size)])
         else if is_last then Inr fs'
         else scan_blocks data (data_offset + block_size) False fs')))"
  by pat_completeness auto
termination
  by (relation "measure (\<lambda>(data, offset, first, fs). length data - offset)") (auto simp: length_read_at)

declare scan_blocks.simps [simp del]

definition parse_flac :: "bytes \<Rightarrow> inspection_finding list \<times> bool" where
  "parse_flac data = (case inspect_leading_id3v2 (read_at data 0 10) (length data) of
     (offset, id3_finding, malformed_id3) \<Rightarrow>
       (let fs = (case id3_finding of None \<Rightarrow> [] | Some f \<Rightarrow> [f]) in
        if malformed_id3 \<or> read_at data offset 4 \<noteq> b_fLaC
        then (fs @ [mk_finding MALFORMED (Some offset) None], True)
        else (case scan_blocks data (offset + 4) True (fs @ [mk_finding FLAC_MARKER (Some offset) (Some 4)]) of
            Inl bad \<Rightarrow> (bad, True)
          | Inr fs' \<Rightarrow>
              (if 128 \<le> length data \<and> read_at data (length data - 128) 3 = b_TAG
               then fs' @ [mk_finding TRAILING_ID3V1 (Some (length data - 128)) (Some 128)] else fs', False))))"

fun tool_findings :: "tool_state \<Rightarrow> inspection_finding list" where
  "tool_findings SUCCESS = []"
| "tool_findings FAILED = [mk_finding FLAC_TEST_FAILED None None]"
| "tool_findings MISSING = [mk_finding FLAC_TEST_UNAVAILABLE None None]"
| "tool_findings EXECUTION_FAILED = [mk_finding FLAC_TEST_FAILED None None]"
| "tool_findings TIMED_OUT = [mk_finding FLAC_TEST_TIMED_OUT None None]"

definition inspect_flac :: "(bytes \<Rightarrow> tool_state) \<Rightarrow> tool_state option \<Rightarrow> bytes \<Rightarrow> flac_inspection" where
  "inspect_flac decoder cached data = (case parse_flac data of (fs, malformed) \<Rightarrow>
     (let flac_test = (case cached of Some t \<Rightarrow> t | None \<Rightarrow> decoder data);
          fs' = fs @ tool_findings flac_test;
          has_trailing = (\<exists>f \<in> set fs'. in_kind f = TRAILING_ID3V1);
          rejects = (flac_test \<noteq> SUCCESS \<and> \<not> has_trailing) in
      \<lparr>fi_state = (if malformed then QUARANTINE else if \<not> rejects then VALID else INFRASTRUCTURE),
       fi_findings = fs', fi_flac_test = flac_test\<rparr>))"

section \<open>The MP3 inspector\<close>

datatype mp3_finding_kind =
    ID3V2 | MP3_FRAME | MP3_TRAILING_ID3V1 | MP3_MALFORMED | FFPROBE_FAILED | FFPROBE_UNAVAILABLE | FFPROBE_TIMED_OUT

record mp3_finding =
  m_kind :: mp3_finding_kind
  m_offset :: "nat option"
  m_size :: "nat option"

record mp3_inspection =
  mi_state :: inspection_state
  mi_findings :: "mp3_finding list"
  mi_version :: "byte option"
  mi_tag_size :: "nat option"
  mi_ffprobe :: tool_state

definition mk_mp3 :: "mp3_finding_kind \<Rightarrow> nat option \<Rightarrow> nat option \<Rightarrow> mp3_finding" where
  "mk_mp3 k off sz = \<lparr>m_kind = k, m_offset = off, m_size = sz\<rparr>"

definition MAX_LEADING_RUN_IN_BYTES :: nat where
  "MAX_LEADING_RUN_IN_BYTES = 64 * 1024"

definition mp3_leading_id3v2 ::
  "bytes \<Rightarrow> nat \<Rightarrow> nat \<times> byte option \<times> nat option \<times> mp3_finding option \<times> bool" where
  "mp3_leading_id3v2 payload file_size =
     (if \<not> starts_with payload b_ID3 then (0, None, None, None, False)
      else if length payload < 10 \<or> payload ! 3 \<notin> {2, 3, 4} \<or> (\<exists>v \<in> set (take 4 (drop 6 payload)). v AND 0x80 \<noteq> 0)
      then (0, None, None, None, True)
      else (let tag_size = synchsafe_sum (take 4 (drop 6 payload));
                total_size = 10 + tag_size + (if payload ! 3 = 4 \<and> payload ! 5 AND 0x10 \<noteq> 0 then 10 else 0) in
        if total_size > file_size then (0, Some (payload ! 3), Some tag_size, None, True)
        else (total_size, Some (payload ! 3), Some tag_size,
              Some (mk_mp3 ID3V2 (Some 0) (Some total_size)), False)))"

definition is_mp3_frame :: "bytes \<Rightarrow> nat \<Rightarrow> bool" where
  "is_mp3_frame payload offset = (if int (length payload) - int offset < 4 then False
     else (let header = be (read_at payload offset 4);
               sync = drop_bit 21 header;
               version = drop_bit 19 header AND 0b11;
               layer = drop_bit 17 header AND 0b11;
               bitrate = drop_bit 12 header AND 0b1111;
               sample_rate = drop_bit 10 header AND 0b11 in
       sync = 0b11111111111 \<and> version \<noteq> 0b01 \<and> layer \<noteq> 0 \<and> bitrate \<notin> {0, 0b1111} \<and> sample_rate \<noteq> 0b11))"

definition first_mp3_frame_offset :: "bytes \<Rightarrow> nat \<Rightarrow> nat option" where
  "first_mp3_frame_offset payload offset =
     (let search_end = min (length payload - 3) (offset + MAX_LEADING_RUN_IN_BYTES) in
      find (is_mp3_frame payload) [offset..<search_end])"

definition parse_mp3 :: "bytes \<Rightarrow> mp3_finding list \<times> byte option \<times> nat option \<times> bool" where
  "parse_mp3 data = (case mp3_leading_id3v2 (read_at data 0 10) (length data) of
     (offset, version, tag_size, id3_finding, malformed) \<Rightarrow>
       (let leading_run = read_at data offset (MAX_LEADING_RUN_IN_BYTES + 3);
            fs = (case id3_finding of None \<Rightarrow> [] | Some f \<Rightarrow> [f]);
            frame_offset = first_mp3_frame_offset leading_run 0 in
        (case (malformed, frame_offset) of
           (False, Some fo) \<Rightarrow>
             (let fs' = fs @ [mk_mp3 MP3_FRAME (Some (offset + fo)) (Some 4)];
                  trailing = (128 \<le> length data \<and> read_at data (length data - 128) 3 = b_TAG) in
              (if trailing then fs' @ [mk_mp3 MP3_TRAILING_ID3V1 (Some (length data - 128)) (Some 128)] else fs',
               version, tag_size, False))
         | _ \<Rightarrow> (fs @ [mk_mp3 MP3_MALFORMED (Some offset) None], version, tag_size, True))))"

fun mp3_tool_findings :: "tool_state \<Rightarrow> mp3_finding list" where
  "mp3_tool_findings SUCCESS = []"
| "mp3_tool_findings FAILED = [mk_mp3 FFPROBE_FAILED None None]"
| "mp3_tool_findings MISSING = [mk_mp3 FFPROBE_UNAVAILABLE None None]"
| "mp3_tool_findings EXECUTION_FAILED = [mk_mp3 FFPROBE_FAILED None None]"
| "mp3_tool_findings TIMED_OUT = [mk_mp3 FFPROBE_TIMED_OUT None None]"

definition inspect_mp3 :: "(bytes \<Rightarrow> tool_state) \<Rightarrow> bytes \<Rightarrow> mp3_inspection" where
  "inspect_mp3 ffprobe data = (case parse_mp3 data of (fs, version, tag_size, malformed) \<Rightarrow>
     \<lparr>mi_state = (if malformed then QUARANTINE else if ffprobe data = SUCCESS then VALID else INFRASTRUCTURE),
      mi_findings = fs @ mp3_tool_findings (ffprobe data),
      mi_version = version, mi_tag_size = tag_size, mi_ffprobe = ffprobe data\<rparr>)"

section \<open>Lemmas\<close>

lemma leading_payload:
  "\<not> length (read_at data 0 10) < 10 \<Longrightarrow> length (take 4 (drop 6 (read_at data 0 10))) = 4"
  by (simp add: length_read_at)

text \<open>The tag footer the two FLAC parsers treat differently.\<close>

definition footer_flagged :: "bytes \<Rightarrow> bool" where
  "footer_flagged data = (starts_with (read_at data 0 10) b_ID3
     \<and> read_at data 0 10 ! 3 = 4 \<and> read_at data 0 10 ! 5 AND 0x10 \<noteq> 0)"

lemma inspect_leading_agrees:
  assumes "leading_id3v2 path data = Inr (m, leading)" and "\<not> footer_flagged data"
  shows "\<exists>f. inspect_leading_id3v2 (read_at data 0 10) (length data) = (m, f, False)"
proof (cases "starts_with (read_at data 0 10) b_ID3")
  case False
  then show ?thesis using assms(1) by (simp add: leading_id3v2_def inspect_leading_id3v2_def Let_def)
next
  case True
  let ?p = "read_at data 0 10"
  have p: "\<not> length ?p < 10" "\<forall>v \<in> set (take 4 (drop 6 ?p)). v AND 0x80 = 0"
    using assms(1) True by (auto simp: leading_id3v2_def Let_def split: if_splits)
  have nofooter: "\<not> (?p ! 3 = 4 \<and> ?p ! 5 AND 0x10 \<noteq> 0)"
    using assms(2) True by (simp add: footer_flagged_def)
  have "synchsafe_mask (take 4 (drop 6 ?p)) = synchsafe_sum (take 4 (drop 6 ?p))"
    using leading_payload [OF p(1)] p(2) by (rule synchsafe_forms_agree)
  then have m: "m = 10 + synchsafe_sum (take 4 (drop 6 ?p))" "m \<le> length data"
    using assms(1) True p nofooter by (auto simp: leading_id3v2_def Let_def split: if_splits)
  then show ?thesis using True p by (simp add: inspect_leading_id3v2_def Let_def)
qed

lemma inspect_leading_footer:
  assumes "leading_id3v2 path data = Inr (m, leading)" and "footer_flagged data"
  shows "\<exists>k f. inspect_leading_id3v2 (read_at data 0 10) (length data) = (k, f, False)
    \<and> read_at data k 4 \<noteq> b_fLaC"
proof -
  let ?p = "read_at data 0 10"
  have s: "starts_with ?p b_ID3" "?p ! 3 = 4" "?p ! 5 AND 0x10 \<noteq> 0"
    using assms(2) by (simp_all add: footer_flagged_def)
  have p: "\<not> length ?p < 10" "\<forall>v \<in> set (take 4 (drop 6 ?p)). v AND 0x80 = 0"
    using assms(1) s by (auto simp: leading_id3v2_def Let_def split: if_splits)
  have eq: "synchsafe_mask (take 4 (drop 6 ?p)) = synchsafe_sum (take 4 (drop 6 ?p))"
    using leading_payload [OF p(1)] p(2) by (rule synchsafe_forms_agree)
  define k where "k = 10 + synchsafe_sum (take 4 (drop 6 ?p))"
  have f: "read_at data k 10 = b_3DI @ take 3 (drop 3 ?p) @ take 4 (drop 6 ?p)" "k + 10 \<le> length data"
    using assms(1) s p unfolding k_def eq [symmetric]
    by (auto simp: leading_id3v2_def Let_def split: if_splits)
  have "read_at data k 4 = take 4 (read_at data k 10)" by (simp add: read_at_def)
  then have "take 3 (read_at data k 4) = b_3DI" using f(1) by (simp add: b_3DI_def)
  then have "read_at data k 4 \<noteq> b_fLaC" by (auto simp: b_3DI_def b_fLaC_def)
  moreover have "inspect_leading_id3v2 ?p (length data) = (k, Some (mk_finding LEADING_ID3V2 (Some 0) (Some k)), False)"
    using s p f(2) by (simp add: inspect_leading_id3v2_def Let_def k_def)
  ultimately show ?thesis by blast
qed

lemma scan_blocks_accepts:
  assumes "parse_blocks path data off n fs si = Inr r"
  shows "\<exists>gs'. scan_blocks data off (n = 0) gs = Inr gs'"
  using assms
proof (induction path data off n fs si arbitrary: gs rule: parse_blocks.induct)
  case (1 path data off n fs si)
  define hb where "hb = read_at data off 4"
  define size where "size = be (drop 1 hb)"
  define si1 where "si1 = (if hb ! 0 AND 0x7F = 0 then Some (read_at data (off + 4) size) else si)"
  define fs1 where "fs1 = (if hb ! 0 AND 0x7F = 0 then fs
     else fs @ [\<lparr>ff_kind = METADATA_BLOCK_DROPPED, ff_offset = off, ff_size = size\<rparr>])"
  have g: "length hb = 4" "off + 4 + size \<le> length data"
      "n = 0 \<longrightarrow> hb ! 0 AND 0x7F = 0 \<and> size = 34" "hb ! 0 AND 0x7F = 0 \<longrightarrow> si = None"
    and r: "(if hb ! 0 AND 0x80 \<noteq> 0 then Inr (off + 4 + size, fs1, si1)
        else parse_blocks path data (off + 4 + size) (n + 1) fs1 si1) = Inr r"
    using "1.prems"
    by (subst (asm) parse_blocks.simps; force simp: Let_def hb_def size_def si1_def fs1_def split: if_splits)+
  have size': "be (drop (Suc 0) hb) = size" by (simp add: size_def)
  let ?gs = "gs @ [mk_finding (block_kind (hb ! 0 AND 0x7F)) (Some off) (Some size)]"
  have step: "scan_blocks data off (n = 0) gs =
      (if hb ! 0 AND 0x80 \<noteq> 0 then Inr ?gs else scan_blocks data (off + 4 + size) False ?gs)"
    by (subst scan_blocks.simps) (use g size' in \<open>auto simp: Let_def hb_def [symmetric]\<close>)
  show ?case
  proof (cases "hb ! 0 AND 0x80 \<noteq> 0")
    case True
    then show ?thesis using step by simp
  next
    case False
    then have "parse_blocks path data (off + 4 + size) (n + 1) fs1 si1 = Inr r" using r by simp
    then have "\<exists>gs'. scan_blocks data (off + 4 + size) (n + 1 = 0) ?gs = Inr gs'"
      using "1.IH" [OF hb_def refl _ refl refl size_def refl _ _ _ si1_def fs1_def] g False by auto
    then show ?thesis using False step by simp
  qed
qed

text \<open>What the two loops over the blocks have in common: where the inspector's ends well, the sanitizer's
  ends at the same octet unless a second STREAMINFO block was met.\<close>

definition is_streaminfo :: "inspection_finding \<Rightarrow> bool" where
  "is_streaminfo g \<longleftrightarrow> in_kind g = STREAMINFO"

definition block_end :: "inspection_finding \<Rightarrow> nat" where
  "block_end g = the (in_offset g) + 4 + the (in_size g)"

definition streaminfos :: "inspection_finding list \<Rightarrow> nat" where
  "streaminfos gs = length (filter is_streaminfo gs)"

lemma block_kind_streaminfo [simp]: "is_streaminfo (mk_finding (block_kind t) a b) \<longleftrightarrow> t = 0"
  by (simp add: is_streaminfo_def block_kind_def mk_finding_def)

lemma block_kind_not_trailing [simp]: "block_kind t \<noteq> TRAILING_ID3V1"
  by (simp add: block_kind_def)

lemma scan_blocks_stepD:
  assumes "scan_blocks data off first gs = Inr gs'"
  defines "hb \<equiv> read_at data off 4"
  defines "sz \<equiv> be (drop 1 hb)"
  defines "g \<equiv> mk_finding (block_kind (hb ! 0 AND 0x7F)) (Some off) (Some sz)"
  shows "length hb = 4" and "\<not> length data < off + 4 + sz"
    and "first \<Longrightarrow> hb ! 0 AND 0x7F = 0 \<and> sz = 34"
    and "(if hb ! 0 AND 0x80 \<noteq> 0 then Inr (gs @ [g]) else scan_blocks data (off + 4 + sz) False (gs @ [g])) = Inr gs'"
  using assms(1) unfolding hb_def sz_def g_def
  by (subst (asm) scan_blocks.simps; simp add: Let_def split: if_splits)+

lemma scan_blocks_more: "scan_blocks data off first gs = Inr gs' \<Longrightarrow> \<exists>more. gs' = gs @ more \<and> more \<noteq> [] \<and>
    (\<forall>g\<in>set more. in_kind g \<noteq> TRAILING_ID3V1)"
proof (induction data off first gs rule: scan_blocks.induct)
  case (1 data off first gs)
  define hb where "hb = read_at data off 4"
  define g where "g = mk_finding (block_kind (hb ! 0 AND 0x7F)) (Some off) (Some (be (drop 1 hb)))"
  note r = scan_blocks_stepD(1-3) [OF "1.prems", folded hb_def]
  note step = scan_blocks_stepD(4) [OF "1.prems", folded hb_def, folded g_def]
  have kind: "in_kind g \<noteq> TRAILING_ID3V1" by (simp add: g_def mk_finding_def)
  show ?case
  proof (cases "hb ! 0 AND 0x80 \<noteq> 0")
    case True
    then show ?thesis using step kind by auto
  next
    case False
    then have "\<exists>more. gs' = (gs @ [g]) @ more \<and> more \<noteq> [] \<and> (\<forall>g\<in>set more. in_kind g \<noteq> TRAILING_ID3V1)"
      using "1.IH" [OF hb_def _ refl refl refl refl refl _ refl] r step by (auto simp: g_def)
    then show ?thesis using kind by auto
  qed
qed

lemma scan_blocks_parse:
  assumes "scan_blocks data off (n = 0) gs = Inr gs'" and "(si = None) = (streaminfos gs = 0)"
    and "streaminfos gs \<le> 1" and "n = 0 \<or> si \<noteq> None"
  shows "if streaminfos gs' = 1 then \<exists>fs' p. parse_blocks path data off n fs si = Inr (block_end (last gs'), fs', Some p)
    else \<exists>e. parse_blocks path data off n fs si = Inl e"
  using assms
proof (induction path data off n fs si arbitrary: gs rule: parse_blocks.induct)
  case (1 path data off n fs si)
  define hb where "hb = read_at data off 4"
  define sz where "sz = be (drop 1 hb)"
  define si1 where "si1 = (if hb ! 0 AND 0x7F = 0 then Some (read_at data (off + 4) sz) else si)"
  define fs1 where "fs1 = (if hb ! 0 AND 0x7F = 0 then fs
     else fs @ [\<lparr>ff_kind = METADATA_BLOCK_DROPPED, ff_offset = off, ff_size = sz\<rparr>])"
  define g where "g = mk_finding (block_kind (hb ! 0 AND 0x7F)) (Some off) (Some sz)"
  note folded = hb_def [symmetric] sz_def [symmetric] g_def [symmetric]
  have r: "length hb = 4" "\<not> length data < off + 4 + sz" "n = 0 \<longrightarrow> hb ! 0 AND 0x7F = 0 \<and> sz = 34"
    using scan_blocks_stepD(1-3) [OF "1.prems"(1), unfolded folded] by blast+
  note step = scan_blocks_stepD(4) [OF "1.prems"(1), unfolded folded]
  have sz': "be (drop (Suc 0) hb) = sz" by (simp add: sz_def)
  have parse: "parse_blocks path data off n fs si = (if hb ! 0 AND 0x7F = 0 \<and> si \<noteq> None
      then Inl (FlacError MALFORMED_CONTAINER path)
      else if hb ! 0 AND 0x80 \<noteq> 0 then Inr (off + 4 + sz, fs1, si1)
      else parse_blocks path data (off + 4 + sz) (n + 1) fs1 si1)"
    using r by (subst parse_blocks.simps) (auto simp: Let_def hb_def [symmetric] sz' si1_def fs1_def)
  have end_g: "block_end g = off + 4 + sz" by (simp add: g_def block_end_def mk_finding_def)
  have count: "streaminfos (gs @ [g]) = streaminfos gs + (if hb ! 0 AND 0x7F = 0 then 1 else 0)"
    by (simp add: streaminfos_def g_def)
  have more: "\<exists>more. gs' = gs @ [g] @ more"
    using step scan_blocks_more [of data "off + 4 + sz" False "gs @ [g]" gs'] by (auto split: if_splits)
  then have mono: "streaminfos (gs @ [g]) \<le> streaminfos gs'" by (auto simp: streaminfos_def)
  show ?case
  proof (cases "hb ! 0 AND 0x7F = 0 \<and> si \<noteq> None")
    case True
    then have "streaminfos gs' \<noteq> 1" using mono count "1.prems"(2) by auto
    then show ?thesis using parse True by simp
  next
    case ok: False
    have si1: "(si1 = None) = (streaminfos (gs @ [g]) = 0)" "streaminfos (gs @ [g]) \<le> 1" "si1 \<noteq> None"
      using ok "1.prems" r(3) count by (auto simp: si1_def)
    show ?thesis
    proof (cases "hb ! 0 AND 0x80 \<noteq> 0")
      case True
      then show ?thesis using parse ok step si1 end_g by auto
    next
      case False
      have "if streaminfos gs' = 1
        then \<exists>fs' p. parse_blocks path data (off + 4 + sz) (n + 1) fs1 si1 = Inr (block_end (last gs'), fs', Some p)
        else \<exists>e. parse_blocks path data (off + 4 + sz) (n + 1) fs1 si1 = Inl e"
        using "1.IH" [OF hb_def refl _ refl refl sz_def refl _ _ _ si1_def fs1_def] r ok False step si1 by auto
      moreover have "parse_blocks path data off n fs si = parse_blocks path data (off + 4 + sz) (n + 1) fs1 si1"
        using parse ok False by (simp only: if_False)
      ultimately show ?thesis by (simp only:)
    qed
  qed
qed

text \<open>What the sanitizer demands of a file beyond the inspector: a version and flags it knows, one
  STREAMINFO block, and octets behind the blocks that are not a trailing tag.\<close>

definition supported_tag :: "bytes \<Rightarrow> bool" where
  "supported_tag data \<longleftrightarrow> (starts_with (read_at data 0 10) b_ID3 \<longrightarrow>
     read_at data 0 10 ! 3 \<in> {2, 3, 4} \<and> read_at data 0 10 ! 5 AND 0x0F = 0)"

definition frames_behind :: "bytes \<Rightarrow> inspection_finding list \<Rightarrow> bool" where
  "frames_behind data gs \<longleftrightarrow> (let stop = block_end (last (filter (\<lambda>g. in_kind g \<noteq> TRAILING_ID3V1) gs)) in
     stop < (if stop + 128 \<le> length data \<and> (\<exists>g\<in>set gs. in_kind g = TRAILING_ID3V1) then length data - 128 else length data))"

lemma leading_iff:
  assumes "\<not> footer_flagged data"
  shows "(\<exists>m leading. leading_id3v2 path data = Inr (m, leading)) \<longleftrightarrow>
    supported_tag data \<and> (\<exists>m f. inspect_leading_id3v2 (read_at data 0 10) (length data) = (m, f, False))"
proof (cases "starts_with (read_at data 0 10) b_ID3 \<and> length (read_at data 0 10) \<ge> 10
    \<and> (\<forall>v \<in> set (take 4 (drop 6 (read_at data 0 10))). v AND 0x80 = 0)")
  case True
  then have "synchsafe_mask (take 4 (drop 6 (read_at data 0 10))) = synchsafe_sum (take 4 (drop 6 (read_at data 0 10)))"
    using synchsafe_forms_agree [OF leading_payload] by auto
  then show ?thesis using True assms
    by (auto simp: leading_id3v2_def inspect_leading_id3v2_def supported_tag_def footer_flagged_def Let_def)
next
  case False
  then show ?thesis
    by (auto simp: leading_id3v2_def inspect_leading_id3v2_def supported_tag_def Let_def not_le)
qed

lemma inspect_leading_finding:
  "inspect_leading_id3v2 payload n = (m, f, b) \<Longrightarrow> f = None \<or> f = Some (mk_finding LEADING_ID3V2 (Some 0) (Some m))"
  by (auto simp: inspect_leading_id3v2_def Let_def split: if_splits)

lemma accepted_footer_malformed:
  assumes "footer_flagged data" and "parse_layout path data = Inr l"
  shows "snd (parse_flac data)"
proof -
  obtain m leading where "leading_id3v2 path data = Inr (m, leading)"
    using assms(2) by (auto simp: parse_layout_def Let_def split: sum.splits prod.splits)
  then obtain k f where "inspect_leading_id3v2 (read_at data 0 10) (length data) = (k, f, False)"
      "read_at data k 4 \<noteq> b_fLaC" using inspect_leading_footer assms(1) by blast
  then show ?thesis by (simp add: parse_flac_def Let_def)
qed

lemma accepted_iff_inspected:
  assumes "\<not> footer_flagged data" and "parse_flac data = (gs, bad)"
  shows "(\<exists>l. parse_layout path data = Inr l) \<longleftrightarrow>
    \<not> bad \<and> supported_tag data \<and> streaminfos gs = 1 \<and> frames_behind data gs"
proof (cases "\<exists>m leading. leading_id3v2 path data = Inr (m, leading)")
  case False
  then have "\<nexists>l. parse_layout path data = Inr l"
    by (auto simp: parse_layout_def Let_def split: sum.splits prod.splits)
  moreover have "\<not> supported_tag data \<or> bad"
    using False leading_iff [OF assms(1), of path] assms(2)
    by (cases "inspect_leading_id3v2 (read_at data 0 10) (length data)") (auto simp: parse_flac_def Let_def)
  ultimately show ?thesis by blast
next
  case True
  then obtain m leading where l: "leading_id3v2 path data = Inr (m, leading)" by blast
  obtain f where f: "inspect_leading_id3v2 (read_at data 0 10) (length data) = (m, f, False)"
    using inspect_leading_agrees [OF l assms(1)] by blast
  have sup: "supported_tag data" using True leading_iff [OF assms(1), of path] by blast
  let ?g0 = "(case f of None \<Rightarrow> [] | Some f \<Rightarrow> [f]) @ [mk_finding FLAC_MARKER (Some m) (Some 4)]"
  let ?fs = "case leading of None \<Rightarrow> [] | Some f \<Rightarrow> [f]"
  have g0: "streaminfos ?g0 = 0" "\<forall>g\<in>set ?g0. in_kind g \<noteq> TRAILING_ID3V1"
    using inspect_leading_finding [OF f] by (auto simp: streaminfos_def is_streaminfo_def mk_finding_def)
  show ?thesis
  proof (cases "read_at data m 4 = b_fLaC")
    case False
    then show ?thesis using assms(2) l f by (auto simp: parse_layout_def parse_flac_def Let_def)
  next
    case marker: True
    show ?thesis
    proof (cases "scan_blocks data (m + 4) True ?g0")
      case (Inl e)
      then have "\<nexists>r. parse_blocks path data (m + 4) 0 ?fs None = Inr r"
        using scan_blocks_accepts [of path data "m + 4" 0 ?fs None _ ?g0] by auto
      then show ?thesis using assms(2) l f marker Inl
        by (auto simp: parse_layout_def parse_flac_def Let_def split: sum.splits)
    next
      case (Inr gs')
      obtain more where more: "gs' = ?g0 @ more" "more \<noteq> []" "\<forall>g\<in>set more. in_kind g \<noteq> TRAILING_ID3V1"
        using scan_blocks_more [OF Inr] by blast
      define tag where "tag = (128 \<le> length data \<and> read_at data (length data - 128) 3 = b_TAG)"
      define t where "t = mk_finding TRAILING_ID3V1 (Some (length data - 128)) (Some 128)"
      have gs: "gs = (if tag then gs' @ [t] else gs')" "\<not> bad"
        using assms(2) f marker Inr by (auto simp: parse_flac_def Let_def tag_def t_def)
      have none: "\<forall>g\<in>set gs'. in_kind g \<noteq> TRAILING_ID3V1" using more g0(2) by auto
      have kinds: "filter (\<lambda>g. in_kind g \<noteq> TRAILING_ID3V1) gs = gs'" "(\<exists>g\<in>set gs. in_kind g = TRAILING_ID3V1) = tag"
          "streaminfos gs = streaminfos gs'"
        using gs(1) none by (auto simp: t_def mk_finding_def streaminfos_def is_streaminfo_def)
      have "if streaminfos gs' = 1
        then \<exists>fs' p. parse_blocks path data (m + 4) 0 ?fs None = Inr (block_end (last gs'), fs', Some p)
        else \<exists>e. parse_blocks path data (m + 4) 0 ?fs None = Inl e"
        using scan_blocks_parse [of data "m + 4" 0 ?g0 gs' None path ?fs] Inr g0(1) by simp
      then show ?thesis
      proof (cases "streaminfos gs' = 1")
        case True
        then obtain fs' p where "parse_blocks path data (m + 4) 0 ?fs None = Inr (block_end (last gs'), fs', Some p)"
          using \<open>if _ then _ else _\<close> by auto
        then have "(\<exists>l. parse_layout path data = Inr l) \<longleftrightarrow> block_end (last gs')
            < (if block_end (last gs') + 128 \<le> length data \<and> tag then length data - 128 else length data)"
          using l marker by (auto simp: parse_layout_def Let_def tag_def)
        then show ?thesis using True sup gs(2) kinds by (simp add: frames_behind_def Let_def)
      next
        case False
        then show ?thesis using \<open>if _ then _ else _\<close> l marker kinds(3)
          by (auto simp: parse_layout_def Let_def)
      qed
    qed
  qed
qed

section \<open>The window search of the MP3 inspector\<close>

lemma run_frame:
  assumes "k < MAX_LEADING_RUN_IN_BYTES"
  shows "is_mp3_frame (read_at data off (MAX_LEADING_RUN_IN_BYTES + 3)) k = is_mp3_frame data (off + k)"
proof -
  let ?r = "read_at data off (MAX_LEADING_RUN_IN_BYTES + 3)"
  have "read_at ?r k 4 = read_at data (off + k) 4"
    using assms by (simp add: read_at_def drop_take take_take add.commute)
  moreover have "(int (length ?r) - int k < 4) = (int (length data) - int (off + k) < 4)"
    using assms by (auto simp: read_at_def)
  ultimately show ?thesis by (simp only: is_mp3_frame_def)
qed

lemma frame_fits: "is_mp3_frame data k \<Longrightarrow> k + 4 \<le> length data"
  by (auto simp: is_mp3_frame_def split: if_splits)

lemma find_upt:
  "find P [a..<b] = Some k \<longleftrightarrow> a \<le> k \<and> k < b \<and> P k \<and> (\<forall>j. a \<le> j \<and> j < k \<longrightarrow> \<not> P j)"
proof -
  have "find P [a..<b] = Some k \<longleftrightarrow> (\<exists>i<b - a. P (a + i) \<and> k = a + i \<and> (\<forall>j<i. \<not> P (a + j)))"
    by (auto simp: find_Some_iff)
  also have "\<dots> \<longleftrightarrow> a \<le> k \<and> k < b \<and> P k \<and> (\<forall>j. a \<le> j \<and> j < k \<longrightarrow> \<not> P j)"
  proof (intro iffI)
    assume "\<exists>i<b - a. P (a + i) \<and> k = a + i \<and> (\<forall>j<i. \<not> P (a + j))"
    then obtain i where i: "i < b - a" "P (a + i)" "k = a + i" "\<forall>j<i. \<not> P (a + j)" by blast
    have "\<not> P j" if "a \<le> j" "j < k" for j using i(4) [rule_format, of "j - a"] that i(3) by simp
    then show "a \<le> k \<and> k < b \<and> P k \<and> (\<forall>j. a \<le> j \<and> j < k \<longrightarrow> \<not> P j)" using i by auto
  next
    assume "a \<le> k \<and> k < b \<and> P k \<and> (\<forall>j. a \<le> j \<and> j < k \<longrightarrow> \<not> P j)"
    then show "\<exists>i<b - a. P (a + i) \<and> k = a + i \<and> (\<forall>j<i. \<not> P (a + j))"
      by (intro exI [of _ "k - a"]) auto
  qed
  finally show ?thesis .
qed

lemma first_frame_Some:
  "first_mp3_frame_offset (read_at data off (MAX_LEADING_RUN_IN_BYTES + 3)) 0 = Some k \<longleftrightarrow>
     k < MAX_LEADING_RUN_IN_BYTES \<and> is_mp3_frame data (off + k)
     \<and> (\<forall>j<k. \<not> is_mp3_frame data (off + j))"
proof -
  have "k < length (read_at data off (MAX_LEADING_RUN_IN_BYTES + 3)) - 3"
    if "k < MAX_LEADING_RUN_IN_BYTES" "is_mp3_frame data (off + k)"
    using frame_fits [OF that(2)] that(1) by (simp add: read_at_def)
  then show ?thesis
    by (auto simp: first_mp3_frame_offset_def Let_def find_upt run_frame)
qed

section \<open>Properties\<close>

text \<open>C6. The inspector and the sanitizer agree on which FLAC files are well formed, up to a footer and
  three demands only the sanitizer makes. Let the decoder test pass. Where the leading tag announces no
  ID3v2.4 footer, the sanitizer accepts a file exactly when the inspector judges it VALID, the version and
  the flags of its leading tag are supported, the inspector found a single STREAMINFO block, and octets
  are left for frames behind the blocks. Where the tag announces a footer, no file passes both: the
  inspector quarantines every file the sanitizer accepts.\<close>

theorem inspector_sanitizer_agreement:
  assumes "decoder data = SUCCESS"
  shows "if footer_flagged data
    then (\<exists>l. parse_layout path data = Inr l) \<longrightarrow> fi_state (inspect_flac decoder None data) = QUARANTINE
    else (\<exists>l. parse_layout path data = Inr l) \<longleftrightarrow>
      fi_state (inspect_flac decoder None data) = VALID \<and> supported_tag data
      \<and> streaminfos (fi_findings (inspect_flac decoder None data)) = 1
      \<and> frames_behind data (fi_findings (inspect_flac decoder None data))"
proof -
  obtain gs bad where g: "parse_flac data = (gs, bad)" by (cases "parse_flac data")
  have i: "inspect_flac decoder None data =
      \<lparr>fi_state = (if bad then QUARANTINE else VALID), fi_findings = gs, fi_flac_test = SUCCESS\<rparr>"
    using assms by (simp add: inspect_flac_def g Let_def)
  show ?thesis
    using accepted_footer_malformed [of data path] accepted_iff_inspected [of data gs bad path] by (auto simp: i g)
qed

text \<open>The MP3 inspector accepts a file exactly when its leading tag is well formed and a frame
  header starts within the first 64 KiB behind it; the frame it reports is the first one and lies
  inside the file.\<close>

lemma mp3_accepts_iff_frame:
  assumes "mp3_leading_id3v2 (read_at data 0 10) (length data) = (off, version, tag_size, f, bad)"
  shows "(snd (snd (snd (parse_mp3 data)))
      \<longleftrightarrow> bad \<or> (\<forall>k<MAX_LEADING_RUN_IN_BYTES. \<not> is_mp3_frame data (off + k)))
    \<and> (\<forall>k. mk_mp3 MP3_FRAME (Some k) (Some 4) \<in> set (fst (parse_mp3 data)) \<longrightarrow>
         off \<le> k \<and> k + 4 \<le> length data \<and> is_mp3_frame data k \<and> (\<forall>j. off \<le> j \<and> j < k \<longrightarrow> \<not> is_mp3_frame data j))"
proof -
  define fo where "fo = first_mp3_frame_offset (read_at data off (MAX_LEADING_RUN_IN_BYTES + 3)) 0"
  have tag: "f = None \<or> (\<exists>n. f = Some (mk_mp3 ID3V2 (Some 0) (Some n)))"
    using assms by (auto simp: mp3_leading_id3v2_def Let_def split: if_splits)
  have nofr: "mk_mp3 MP3_FRAME a b \<notin> set (case f of None \<Rightarrow> [] | Some x \<Rightarrow> [x])" for a b
    using tag by (auto simp: mk_mp3_def)
  have p: "parse_mp3 data =
     (let fs = (case f of None \<Rightarrow> [] | Some x \<Rightarrow> [x]) in
      case (bad, fo) of
        (False, Some o') \<Rightarrow> (let fs' = fs @ [mk_mp3 MP3_FRAME (Some (off + o')) (Some 4)] in
          (if 128 \<le> length data \<and> read_at data (length data - 128) 3 = b_TAG
           then fs' @ [mk_mp3 MP3_TRAILING_ID3V1 (Some (length data - 128)) (Some 128)] else fs',
           version, tag_size, False))
      | _ \<Rightarrow> (fs @ [mk_mp3 MP3_MALFORMED (Some off) None], version, tag_size, True))"
    by (cases bad; cases fo) (simp_all add: parse_mp3_def assms fo_def Let_def)
  show ?thesis
  proof (cases "\<not> bad \<and> fo \<noteq> None")
    case False
    then have "parse_mp3 data = ((case f of None \<Rightarrow> [] | Some x \<Rightarrow> [x]) @ [mk_mp3 MP3_MALFORMED (Some off) None],
        version, tag_size, True)"
      by (auto simp: p split: bool.splits option.splits)
    moreover have "\<forall>k<MAX_LEADING_RUN_IN_BYTES. \<not> is_mp3_frame data (off + k)" if nb: "\<not> bad"
    proof (rule ccontr)
      assume "\<not> ?thesis"
      then have ex: "\<exists>k. k < MAX_LEADING_RUN_IN_BYTES \<and> is_mp3_frame data (off + k)" by blast
      define k where "k = (LEAST k. k < MAX_LEADING_RUN_IN_BYTES \<and> is_mp3_frame data (off + k))"
      have k: "k < MAX_LEADING_RUN_IN_BYTES \<and> is_mp3_frame data (off + k)"
        unfolding k_def using ex by (rule LeastI_ex)
      have "\<not> is_mp3_frame data (off + j)" if "j < k" for j
        using that k not_less_Least [of j "\<lambda>k. k < MAX_LEADING_RUN_IN_BYTES \<and> is_mp3_frame data (off + k)"]
        unfolding k_def by auto
      then have "fo = Some k" using k by (simp add: fo_def first_frame_Some)
      then show False using False nb by simp
    qed
    ultimately show ?thesis using nofr by (auto simp: mk_mp3_def)
  next
    case True
    then obtain o' where o': "fo = Some o'" by blast
    then have s: "o' < MAX_LEADING_RUN_IN_BYTES" "is_mp3_frame data (off + o')"
        "\<forall>j<o'. \<not> is_mp3_frame data (off + j)" by (simp_all add: fo_def first_frame_Some)
    have least: "\<not> is_mp3_frame data j" if "off \<le> j" "j < off + o'" for j
      using s(3) [rule_format, of "j - off"] that by simp
    have "snd (snd (snd (parse_mp3 data))) = False" using True o' by (simp add: p Let_def)
    moreover have "k = off + o'" if "mk_mp3 MP3_FRAME (Some k) (Some 4) \<in> set (fst (parse_mp3 data))" for k
      using that True o' nofr [of "Some k" "Some 4"] by (auto simp: p Let_def mk_mp3_def split: if_splits)
    moreover have "off \<le> off + o' \<and> off + o' + 4 \<le> length data" using frame_fits [OF s(2)] by simp
    ultimately show ?thesis using True s(1,2) least by metis
  qed
qed

section \<open>Instances\<close>

text \<open>The sample file of the sanitizer behind an empty ID3v2.4 tag with a footer.\<close>

definition footer_sample :: bytes where
  "footer_sample = b_ID3 @ [4, 0, 0x10, 0, 0, 0, 0] @ b_3DI @ [4, 0, 0x10, 0, 0, 0, 0] @ sample_file"

lemma footer_sample_flagged: "footer_flagged footer_sample" "\<not> footer_flagged sample_file"
  by (simp_all add: footer_flagged_def starts_with_def read_at_def footer_sample_def sample_file_def
      b_ID3_def b_3DI_def b_fLaC_def)

lemma footer_sample_accepted: "\<exists>l. parse_layout ''a.flac'' footer_sample = Inr l"
proof -
  have id3: "leading_id3v2 ''a.flac'' footer_sample
      = Inr (20, Some \<lparr>ff_kind = LEADING_ID3V2_REMOVED, ff_offset = 0, ff_size = 20\<rparr>)"
    by (simp add: leading_id3v2_def Let_def read_at_def starts_with_def footer_sample_def b_ID3_def b_3DI_def
        synchsafe_mask_def be_def)
  have marker: "read_at footer_sample 20 4 = b_fLaC"
    by (simp add: read_at_def sample_file_def b_fLaC_def footer_sample_def b_ID3_def b_3DI_def)
  have len: "length footer_sample = 71"
    by (simp add: sample_file_def sample_streaminfo_def b_fLaC_def footer_sample_def b_ID3_def b_3DI_def)
  have r: "read_at footer_sample 24 4 = [0, 0, 0, 0x22]" "read_at footer_sample 28 34 = sample_streaminfo"
    "read_at footer_sample 62 4 = [0x81, 0, 0, 2]"
    by (simp_all add: read_at_def sample_file_def b_fLaC_def sample_streaminfo_def numeral_eq_Suc
        footer_sample_def b_ID3_def b_3DI_def)
  define fs where "fs = [\<lparr>ff_kind = LEADING_ID3V2_REMOVED, ff_offset = 0, ff_size = 20\<rparr>,
     \<lparr>ff_kind = METADATA_BLOCK_DROPPED, ff_offset = 62, ff_size = 2\<rparr>]"
  have blocks: "parse_blocks ''a.flac'' footer_sample (20 + 4) 0
     (case Some \<lparr>ff_kind = LEADING_ID3V2_REMOVED, ff_offset = 0, ff_size = 20\<rparr> of None \<Rightarrow> [] | Some f \<Rightarrow> [f]) None
     = Inr (68, fs, Some sample_streaminfo)"
    by (simp add: parse_blocks.simps [of _ footer_sample 24] parse_blocks.simps [of _ footer_sample 62] r len be_def fs_def)
  show ?thesis unfolding parse_layout_eq [OF id3 marker blocks refl refl] using len by auto
qed

theorem inspector_sanitizer_agreement_witness:
  "\<not> footer_flagged sample_file \<and> fi_state (inspect_flac (\<lambda>_. SUCCESS) None sample_file) = VALID
   \<and> frames_behind sample_file (fi_findings (inspect_flac (\<lambda>_. SUCCESS) None sample_file))
   \<and> footer_flagged footer_sample \<and> fi_state (inspect_flac (\<lambda>_. SUCCESS) None footer_sample) = QUARANTINE"
proof -
  have a: "if footer_flagged footer_sample
      then (\<exists>l. parse_layout ''a.flac'' footer_sample = Inr l) \<longrightarrow>
        fi_state (inspect_flac (\<lambda>_. SUCCESS) None footer_sample) = QUARANTINE else True"
    using inspector_sanitizer_agreement [of "\<lambda>_. SUCCESS" footer_sample "''a.flac''"] footer_sample_flagged by simp
  have "\<exists>l. parse_layout ''a.flac'' sample_file = Inr l" using sample_parse by blast
  then show ?thesis using a footer_sample_flagged footer_sample_accepted
      inspector_sanitizer_agreement [of "\<lambda>_. SUCCESS" sample_file "''a.flac''"] by simp
qed

end
