(* ===== verification/JobQueue.thy ===== *)
theory JobQueue imports Prelude begin

text \<open>
  The durable job queue: \<^verbatim>\<open>repositories/jobs.py\<close> over the tables of \<^verbatim>\<open>models/workflow.py\<close>.

  A database is the list of job rows (each with its attempts, ordered by attempt number) and the
  keys the foreign keys refer to. The constraints of the tables are predicates, and a flush that
  breaks one is the value \<^verbatim>\<open>IntegrityError\<close>. Between the read of an enqueue operation and its
  insert other transactions may commit: each such operation takes the argument \<open>itf\<close>, the change
  they make to the database (the identity when there is none). \<open>uid\<close> is the hexadecimal text of
  the \<open>uuid4\<close> drawn, \<open>locked\<close> the rows other transactions hold, which \<open>SKIP LOCKED\<close> passes over.
  The invariant, the coalescing contract and the lease are stated and proved below.
\<close>

section \<open>Tables\<close>

record attempt =
  attempt_number :: nat
  at_state :: string
  started_at :: timestamp
  finished_at :: "timestamp option"

record job =
  job_id :: string
  source_id :: "string option"
  library_record_id :: "string option"
  release_mbid :: "string option"
  folder_path :: "string option"
  job_kind :: string
  metadata_revision_id :: "int option"
  job_state :: string
  created_at :: timestamp
  next_attempt_at :: "timestamp option"
  failure_reason :: "string option"
  source_metadata_revision :: "int option"
  expected_recording_id :: "string option"
  expected_release_id :: "string option"
  attempts :: "attempt list"

record database =
  jobs :: "job list"
  sources :: "(string \<times> int) list" \<comment> \<open>\<open>source_records\<close>: id and \<open>source_metadata_revision\<close>\<close>
  library_records :: "string list"
  metadata_revisions :: "int list"

text \<open>A row of \<open>library_events\<close>, the explanation a library record keeps of what happened to it.\<close>

record event =
  ev_record :: string
  ev_source :: "string option"
  ev_kind :: string
  ev_state :: string
  ev_reason :: "string option"
  ev_at :: timestamp

datatype db_error = IntegrityError

definition is_active :: "job \<Rightarrow> bool" where
  "is_active j = (job_state j \<in> {''queued'', ''running''})"

text \<open>SQL's \<open>trim\<close> removes blanks only.\<close>

definition sql_trim :: "string \<Rightarrow> string" where
  "sql_trim s = rev (dropWhile (\<lambda>c. c = CHR '' '') (rev (dropWhile (\<lambda>c. c = CHR '' '') s)))"

definition ck_jobs_target_or_reconciliation :: "job \<Rightarrow> bool" where
  "ck_jobs_target_or_reconciliation j =
     ((if source_id j \<noteq> None then 1 else 0) + (if library_record_id j \<noteq> None then 1 else 0)
      + (if release_mbid j \<noteq> None then 1 else 0) + (if folder_path j \<noteq> None then 1 else 0) = (1::nat)
      \<or> job_kind j \<in> {''reconciliation_scan'', ''publication_reconciliation''})"

definition ck_jobs_expected_musicbrainz_pair :: "job \<Rightarrow> bool" where
  "ck_jobs_expected_musicbrainz_pair j =
     (case (expected_recording_id j, expected_release_id j) of
        (None, None) \<Rightarrow> True
      | (Some a, Some b) \<Rightarrow> sql_trim a \<noteq> [] \<and> sql_trim b \<noteq> []
      | _ \<Rightarrow> False)"

text \<open>The partial unique indexes. Null targets are distinct from each other.\<close>

definition uq_active_by ::
  "string \<Rightarrow> (job \<Rightarrow> string option) \<Rightarrow> job \<Rightarrow> job \<Rightarrow> bool" where
  "uq_active_by k target a b =
     (job_kind a = k \<and> job_kind b = k \<and> is_active a \<and> is_active b \<and> target a \<noteq> None \<and> target a = target b)"

definition uq_active_kind :: "string \<Rightarrow> job \<Rightarrow> job \<Rightarrow> bool" where
  "uq_active_kind k a b = (job_kind a = k \<and> job_kind b = k \<and> is_active a \<and> is_active b)"

definition index_conflict :: "job \<Rightarrow> job \<Rightarrow> bool" where
  "index_conflict a b =
     (uq_active_by ''selection_refresh'' library_record_id a b
      \<or> uq_active_by ''musicbrainz_refresh'' source_id a b
      \<or> uq_active_by ''lrclib_fetch'' library_record_id a b
      \<or> uq_active_by ''folder_release_selection'' folder_path a b
      \<or> uq_active_kind ''reconciliation_scan'' a b
      \<or> uq_active_kind ''publication_reconciliation'' a b)"

definition fk_ok :: "database \<Rightarrow> job \<Rightarrow> bool" where
  "fk_ok db j =
     ((case source_id j of None \<Rightarrow> True | Some s \<Rightarrow> s \<in> set (map fst (sources db)))
      \<and> (case library_record_id j of None \<Rightarrow> True | Some r \<Rightarrow> r \<in> set (library_records db))
      \<and> (case metadata_revision_id j of None \<Rightarrow> True | Some m \<Rightarrow> m \<in> set (metadata_revisions db)))"

definition insert_ok :: "database \<Rightarrow> job \<Rightarrow> bool" where
  "insert_ok db j =
     (ck_jobs_target_or_reconciliation j \<and> ck_jobs_expected_musicbrainz_pair j \<and> fk_ok db j
      \<and> (\<forall>k \<in> set (jobs db). job_id k \<noteq> job_id j \<and> \<not> index_conflict j k))"

text \<open>\<open>session.add(job); session.flush()\<close>\<close>

definition insert_job :: "database \<Rightarrow> job \<Rightarrow> db_error + database" where
  "insert_job db j = (if insert_ok db j then Inr (db\<lparr>jobs := jobs db @ [j]\<rparr>) else Inl IntegrityError)"

text \<open>What the database checks when changed rows are flushed.\<close>

definition rows_ok :: "job list \<Rightarrow> bool" where
  "rows_ok js =
     (distinct (map job_id js)
      \<and> (\<forall>j \<in> set js. ck_jobs_target_or_reconciliation j \<and> ck_jobs_expected_musicbrainz_pair j
          \<and> distinct (map attempt_number (attempts j))
          \<and> (\<forall>k \<in> set js. index_conflict j k \<longrightarrow> job_id j = job_id k)))"

definition flush :: "database \<Rightarrow> db_error + database" where
  "flush db = (if rows_ok (jobs db) then Inr db else Inl IntegrityError)"

definition new_job :: "string \<Rightarrow> string \<Rightarrow> timestamp \<Rightarrow> job" where
  "new_job i k now = \<lparr>job_id = i, source_id = None, library_record_id = None, release_mbid = None,
     folder_path = None, job_kind = k, metadata_revision_id = None, job_state = ''queued'', created_at = now,
     next_attempt_at = None, failure_reason = None, source_metadata_revision = None,
     expected_recording_id = None, expected_release_id = None, attempts = []\<rparr>"

section \<open>Claiming\<close>

record claimed_job =
  cl_job :: string
  cl_attempt :: nat
  cl_kind :: string
  reclaimed_stale :: bool

definition claimable :: "timestamp \<Rightarrow> duration \<Rightarrow> string option \<Rightarrow> string set option \<Rightarrow> job \<Rightarrow> bool" where
  "claimable now lease_age src allowed_kinds j =
     (((job_state j = ''queued'' \<and> (case next_attempt_at j of None \<Rightarrow> True | Some t \<Rightarrow> t \<le> now))
       \<or> (job_state j = ''running''
          \<and> (\<exists>a \<in> set (attempts j). at_state a = ''running'' \<and> started_at a \<le> now - lease_age)))
      \<and> (case src of None \<Rightarrow> True | Some s \<Rightarrow> source_id j = Some s)
      \<and> (case allowed_kinds of None \<Rightarrow> True | Some ks \<Rightarrow> job_kind j \<in> ks))"

definition claim_key :: "job \<Rightarrow> timestamp \<times> string" where
  "claim_key j = (created_at j, job_id j)"

definition claimable_statement ::
  "(string \<Rightarrow> bool) \<Rightarrow> timestamp \<Rightarrow> duration \<Rightarrow> string option \<Rightarrow> string set option \<Rightarrow> database \<Rightarrow> job option" where
  "claimable_statement locked now lease_age src allowed_kinds db =
     first_min claim_key (filter (\<lambda>j. \<not> locked (job_id j) \<and> claimable now lease_age src allowed_kinds j) (jobs db))"

definition close_stale :: "timestamp \<Rightarrow> attempt list \<Rightarrow> attempt list" where
  "close_stale now as = (if as = [] then []
     else butlast as @ [(last as)\<lparr>at_state := ''interrupted'', finished_at := Some now\<rparr>])"

definition claim_write :: "timestamp \<Rightarrow> job \<Rightarrow> job" where
  "claim_write now j = j\<lparr>job_state := ''running'',
     attempts := (if job_state j = ''running'' then close_stale now (attempts j) else attempts j)
       @ [\<lparr>attempt_number = length (attempts j) + 1, at_state = ''running'', started_at = now, finished_at = None\<rparr>]\<rparr>"

definition claim :: "timestamp \<Rightarrow> job option \<Rightarrow> database \<Rightarrow> claimed_job option \<times> database" where
  "claim now candidate db = (case candidate of
     None \<Rightarrow> (None, db)
   | Some j \<Rightarrow> (Some \<lparr>cl_job = job_id j, cl_attempt = length (attempts j) + 1, cl_kind = job_kind j,
                   reclaimed_stale = (job_state j = ''running'' \<and> attempts j \<noteq> [])\<rparr>,
       db\<lparr>jobs := update_row job_id (job_id j) (claim_write now) (jobs db)\<rparr>))"

definition claim_next ::
  "(string \<Rightarrow> bool) \<Rightarrow> timestamp \<Rightarrow> duration \<Rightarrow> string set option \<Rightarrow> database \<Rightarrow> claimed_job option \<times> database" where
  "claim_next locked now lease_age allowed_kinds db =
     claim now (claimable_statement locked now lease_age None allowed_kinds db) db"

definition claim_next_for_source ::
  "(string \<Rightarrow> bool) \<Rightarrow> string \<Rightarrow> timestamp \<Rightarrow> duration \<Rightarrow> string set option \<Rightarrow> database
   \<Rightarrow> claimed_job option \<times> database" where
  "claim_next_for_source locked src now lease_age allowed_kinds db =
     claim now (claimable_statement locked now lease_age (Some src) allowed_kinds db) db"

section \<open>Ending an attempt\<close>

definition end_attempt :: "nat \<Rightarrow> string \<Rightarrow> timestamp \<Rightarrow> attempt list \<Rightarrow> attempt list" where
  "end_attempt n st now as =
     map (\<lambda>a. if attempt_number a = n then a\<lparr>at_state := st, finished_at := Some now\<rparr> else a) as"

definition succeed_write :: "nat \<Rightarrow> timestamp \<Rightarrow> job \<Rightarrow> job" where
  "succeed_write n now j = j\<lparr>attempts := end_attempt n ''succeeded'' now (attempts j),
     job_state := ''completed'', next_attempt_at := None\<rparr>"

definition quarantine_write :: "nat \<Rightarrow> timestamp \<Rightarrow> job \<Rightarrow> job" where
  "quarantine_write n now j = j\<lparr>attempts := end_attempt n ''quarantined'' now (attempts j),
     job_state := ''quarantined'', next_attempt_at := None\<rparr>"

definition retry_write :: "nat \<Rightarrow> timestamp \<Rightarrow> duration \<Rightarrow> nat \<Rightarrow> string \<Rightarrow> job \<Rightarrow> job" where
  "retry_write n now delay max_attempts reason j =
     (if n \<ge> max_attempts
      then j\<lparr>failure_reason := Some reason,
             attempts := end_attempt n ''blocked_infrastructure'' now (attempts j),
             job_state := ''blocked_infrastructure'', next_attempt_at := None\<rparr>
      else j\<lparr>attempts := end_attempt n ''retry_wait'' now (attempts j),
             job_state := ''queued'', next_attempt_at := Some (now + delay)\<rparr>)"

definition write_claimed :: "claimed_job \<Rightarrow> (job \<Rightarrow> job) \<Rightarrow> database \<Rightarrow> database" where
  "write_claimed c f db = db\<lparr>jobs := update_row job_id (cl_job c) f (jobs db)\<rparr>"

definition succeed :: "claimed_job \<Rightarrow> timestamp \<Rightarrow> database \<Rightarrow> database" where
  "succeed c now = write_claimed c (succeed_write (cl_attempt c) now)"

definition quarantine :: "claimed_job \<Rightarrow> timestamp \<Rightarrow> database \<Rightarrow> database" where
  "quarantine c now = write_claimed c (quarantine_write (cl_attempt c) now)"

definition retry :: "claimed_job \<Rightarrow> timestamp \<Rightarrow> duration \<Rightarrow> nat \<Rightarrow> string \<Rightarrow> database \<Rightarrow> database" where
  "retry c now delay max_attempts reason = write_claimed c (retry_write (cl_attempt c) now delay max_attempts reason)"

section \<open>Enqueueing\<close>

text \<open>The most recent active job a coalescing operation reads first.\<close>

definition newest_active :: "(job \<Rightarrow> bool) \<Rightarrow> database \<Rightarrow> job option" where
  "newest_active slot db = first_min (\<lambda>j. - created_at j) (filter (\<lambda>j. slot j \<and> is_active j) (jobs db))"

definition record_slot :: "string \<Rightarrow> string \<Rightarrow> job \<Rightarrow> bool" where
  "record_slot k record_id j = (library_record_id j = Some record_id \<and> job_kind j = k)"

definition source_slot :: "string \<Rightarrow> string \<Rightarrow> job \<Rightarrow> bool" where
  "source_slot k src j = (source_id j = Some src \<and> job_kind j = k)"

definition folder_slot :: "string \<Rightarrow> string \<Rightarrow> job \<Rightarrow> bool" where
  "folder_slot k path j = (folder_path j = Some path \<and> job_kind j = k)"

definition release_slot :: "string \<Rightarrow> string \<Rightarrow> job \<Rightarrow> bool" where
  "release_slot k mbid j = (release_mbid j = Some mbid \<and> job_kind j = k)"

definition kind_slot :: "string \<Rightarrow> job \<Rightarrow> bool" where
  "kind_slot k j = (job_kind j = k)"

text \<open>The \<open>try: with begin_nested()\<close> block of the coalescing operations: a failing insert rolls back
  to the savepoint, and the error is raised again unless a job of the slot is active now.\<close>

definition insert_or_coalesce ::
  "(job \<Rightarrow> bool) \<Rightarrow> job \<Rightarrow> database \<Rightarrow> (db_error + job option) \<times> database" where
  "insert_or_coalesce slot j db = (case insert_job db j of
     Inr db' \<Rightarrow> (Inr (Some j), db')
   | Inl e \<Rightarrow> (case newest_active slot db of None \<Rightarrow> (Inl e, db) | Some _ \<Rightarrow> (Inr None, db)))"

definition insert_plain :: "job \<Rightarrow> database \<Rightarrow> (db_error + job option) \<times> database" where
  "insert_plain j db = (case insert_job db j of Inr db' \<Rightarrow> (Inr (Some j), db') | Inl e \<Rightarrow> (Inl e, db))"

definition enqueue_selection_refresh ::
  "string \<Rightarrow> (database \<Rightarrow> database) \<Rightarrow> string \<Rightarrow> timestamp \<Rightarrow> database \<Rightarrow> (db_error + job option) \<times> database" where
  "enqueue_selection_refresh uid itf record_id now db =
     (if newest_active (record_slot ''selection_refresh'' record_id) db \<noteq> None then (Inr None, db)
      else insert_or_coalesce (record_slot ''selection_refresh'' record_id)
        ((new_job (''selection_refresh-'' @ uid) ''selection_refresh'' now)\<lparr>library_record_id := Some record_id\<rparr>)
        (itf db))"

text \<open>The batch reads the active records once; \<open>itf r\<close> is what happens before the insert for \<open>r\<close>.\<close>

fun refresh_each ::
  "(string \<Rightarrow> string) \<Rightarrow> (string \<Rightarrow> database \<Rightarrow> database) \<Rightarrow> string list \<Rightarrow> (string \<times> timestamp) list
   \<Rightarrow> job list \<Rightarrow> database \<Rightarrow> (db_error + job list) \<times> database" where
  "refresh_each uids itf active [] queued db = (Inr queued, db)"
| "refresh_each uids itf active ((r, t) # rs) queued db =
     (if r \<in> set active then refresh_each uids itf active rs queued db
      else (case insert_or_coalesce (record_slot ''selection_refresh'' r)
                ((new_job (''selection_refresh-'' @ uids r) ''selection_refresh'' t)\<lparr>library_record_id := Some r\<rparr>)
                (itf r db) of
          (Inl e, db') \<Rightarrow> (Inl e, db')
        | (Inr None, db') \<Rightarrow> refresh_each uids itf active rs queued db'
        | (Inr (Some j), db') \<Rightarrow> refresh_each uids itf active rs (queued @ [j]) db'))"

definition enqueue_selection_refreshes ::
  "(string \<Rightarrow> string) \<Rightarrow> (string \<Rightarrow> database \<Rightarrow> database) \<Rightarrow> (string \<times> timestamp) list
   \<Rightarrow> database \<Rightarrow> (db_error + job list) \<times> database" where
  "enqueue_selection_refreshes uids itf record_times db =
     refresh_each uids itf
       (map (\<lambda>j. the (library_record_id j))
          (filter (\<lambda>j. \<exists>r \<in> set (map fst record_times). record_slot ''selection_refresh'' r j \<and> is_active j) (jobs db)))
       (sort_key fst record_times) [] db"

record identity =
  recording_mbid :: string
  release_mbid_of :: string

definition supersede_write :: "job \<Rightarrow> job" where
  "supersede_write j = j\<lparr>job_state := ''superseded'', next_attempt_at := None\<rparr>"

definition enqueue_musicbrainz_refresh ::
  "string \<Rightarrow> (database \<Rightarrow> database) \<Rightarrow> string \<Rightarrow> identity \<Rightarrow> timestamp \<Rightarrow> database
   \<Rightarrow> (db_error + job option) \<times> database" where
  "enqueue_musicbrainz_refresh uid itf src identity now db =
    (let active = newest_active (source_slot ''musicbrainz_refresh'' src) db;
         same = (case active of None \<Rightarrow> False
           | Some a \<Rightarrow> expected_recording_id a = Some (recording_mbid identity)
                \<and> expected_release_id a = Some (release_mbid_of identity)) in
     if same then (Inr None, db)
     else (let db1 = (case active of None \<Rightarrow> db
                | Some a \<Rightarrow> db\<lparr>jobs := update_row job_id (job_id a) supersede_write (jobs db)\<rparr>);
               db2 = itf db1 in
        insert_or_coalesce (source_slot ''musicbrainz_refresh'' src)
          ((new_job (''musicbrainz_refresh-'' @ uid) ''musicbrainz_refresh'' now)
             \<lparr>source_id := Some src, source_metadata_revision := map_of (sources db2) src,
              expected_recording_id := Some (recording_mbid identity),
              expected_release_id := Some (release_mbid_of identity)\<rparr>)
          db2))"

definition enqueue_lrclib_fetch ::
  "string \<Rightarrow> (database \<Rightarrow> database) \<Rightarrow> string \<Rightarrow> timestamp \<Rightarrow> database \<Rightarrow> (db_error + job option) \<times> database" where
  "enqueue_lrclib_fetch uid itf record_id now db =
     (if newest_active (record_slot ''lrclib_fetch'' record_id) db \<noteq> None then (Inr None, db)
      else insert_or_coalesce (record_slot ''lrclib_fetch'' record_id)
        ((new_job (''lrclib-fetch-'' @ uid) ''lrclib_fetch'' now)\<lparr>library_record_id := Some record_id\<rparr>)
        (itf db))"

definition former_missing_adapter_reason :: string where
  "former_missing_adapter_reason = ''ProcessingInfrastructureError: lrclib provider is unavailable''"

definition recoverable :: "job \<Rightarrow> bool" where
  "recoverable j = (job_kind j = ''lrclib_fetch'' \<and> job_state j = ''blocked_infrastructure''
     \<and> (case failure_reason j of None \<Rightarrow> False | Some r \<Rightarrow> str_endswith r former_missing_adapter_reason))"

definition recoverable_blocked_lrclib_fetches_statement :: "database \<Rightarrow> job list" where
  "recoverable_blocked_lrclib_fetches_statement db = sort_key claim_key (filter recoverable (jobs db))"

definition count_recoverable_blocked_lrclib_fetches :: "database \<Rightarrow> nat" where
  "count_recoverable_blocked_lrclib_fetches db = length (recoverable_blocked_lrclib_fetches_statement db)"

record recovery =
  selected :: nat
  recovered :: nat

fun recover_each ::
  "(string \<Rightarrow> string) \<Rightarrow> timestamp \<Rightarrow> string list \<Rightarrow> nat \<Rightarrow> job list \<Rightarrow> database \<Rightarrow> (db_error + nat) \<times> database" where
  "recover_each uids now seen n [] db = (Inr n, db)"
| "recover_each uids now seen n (b # bs) db =
     (case library_record_id b of
        None \<Rightarrow> recover_each uids now seen n bs db
      | Some r \<Rightarrow>
          if r \<in> set seen then recover_each uids now seen n bs db
          else (case enqueue_lrclib_fetch (uids r) id r now db of
              (Inl e, db') \<Rightarrow> (Inl e, db')
            | (Inr None, db') \<Rightarrow> recover_each uids now (r # seen) n bs db'
            | (Inr (Some _), db') \<Rightarrow> recover_each uids now (r # seen) (n + 1) bs db'))"

definition recover_blocked_lrclib_fetches ::
  "(string \<Rightarrow> string) \<Rightarrow> timestamp \<Rightarrow> nat \<Rightarrow> database \<Rightarrow> (db_error + recovery) \<times> database" where
  "recover_blocked_lrclib_fetches uids now limit db =
    (let blocked = take limit (recoverable_blocked_lrclib_fetches_statement db) in
     case recover_each uids now [] 0 blocked db of
       (Inl e, db') \<Rightarrow> (Inl e, db')
     | (Inr n, db') \<Rightarrow> (Inr \<lparr>selected = length blocked, recovered = n\<rparr>, db'))"

definition enqueue_folder_release_selection ::
  "string \<Rightarrow> (database \<Rightarrow> database) \<Rightarrow> string \<Rightarrow> timestamp \<Rightarrow> database \<Rightarrow> (db_error + job option) \<times> database" where
  "enqueue_folder_release_selection uid itf path now db =
     (if newest_active (folder_slot ''folder_release_selection'' path) db \<noteq> None then (Inr None, db)
      else insert_plain
        ((new_job (''folder-release-selection-'' @ uid) ''folder_release_selection'' now)\<lparr>folder_path := Some path\<rparr>)
        (itf db))"

text \<open>The two global scans give the active job back instead of \<open>None\<close>.\<close>

definition enqueue_global ::
  "string \<Rightarrow> job \<Rightarrow> (database \<Rightarrow> database) \<Rightarrow> database \<Rightarrow> (db_error + job \<times> bool) \<times> database" where
  "enqueue_global k j itf db = (case newest_active (kind_slot k) db of
     Some a \<Rightarrow> (Inr (a, False), db)
   | None \<Rightarrow> (let db1 = itf db in
       case insert_job db1 j of
         Inr db2 \<Rightarrow> (Inr (j, True), db2)
       | Inl e \<Rightarrow> (case newest_active (kind_slot k) db1 of
             None \<Rightarrow> (Inl e, db1) | Some a \<Rightarrow> (Inr (a, False), db1))))"

definition enqueue_reconciliation_scan ::
  "string \<Rightarrow> (database \<Rightarrow> database) \<Rightarrow> timestamp \<Rightarrow> database \<Rightarrow> (db_error + job \<times> bool) \<times> database" where
  "enqueue_reconciliation_scan uid itf now =
     enqueue_global ''reconciliation_scan'' (new_job (''reconciliation-scan-'' @ uid) ''reconciliation_scan'' now) itf"

definition enqueue_publication_reconciliation ::
  "string \<Rightarrow> (database \<Rightarrow> database) \<Rightarrow> timestamp \<Rightarrow> database \<Rightarrow> (db_error + job \<times> bool) \<times> database" where
  "enqueue_publication_reconciliation uid itf now =
     enqueue_global ''publication_reconciliation''
       (new_job (''publication-reconciliation-'' @ uid) ''publication_reconciliation'' now) itf"

definition revision_write :: "int \<Rightarrow> job \<Rightarrow> job" where
  "revision_write m j = j\<lparr>metadata_revision_id := Some m\<rparr>"

definition enqueue ::
  "string \<Rightarrow> (database \<Rightarrow> database) \<Rightarrow> string \<Rightarrow> string \<Rightarrow> timestamp \<Rightarrow> int option \<Rightarrow> database
   \<Rightarrow> (db_error + job option) \<times> database" where
  "enqueue uid itf src k now revision db = (case newest_active (source_slot k src) db of
     Some a \<Rightarrow> (Inr None, (case revision of None \<Rightarrow> db
        | Some m \<Rightarrow> db\<lparr>jobs := update_row job_id (job_id a) (revision_write m) (jobs db)\<rparr>))
   | None \<Rightarrow> (let db1 = itf db in
       insert_plain ((new_job (take 63 k @ ''-'' @ uid) k now)
         \<lparr>source_id := Some src, metadata_revision_id := revision,
          source_metadata_revision := map_of (sources db1) src\<rparr>) db1))"

definition requeue_source ::
  "string \<Rightarrow> (database \<Rightarrow> database) \<Rightarrow> string \<Rightarrow> timestamp \<Rightarrow> database \<Rightarrow> (db_error + bool) \<times> database" where
  "requeue_source uid itf src now db = (case enqueue uid itf src ''acoustid_analysis'' now None db of
     (Inl e, db') \<Rightarrow> (Inl e, db') | (Inr j, db') \<Rightarrow> (Inr (j \<noteq> None), db'))"

definition requeue_provider ::
  "string \<Rightarrow> (database \<Rightarrow> database) \<Rightarrow> string \<Rightarrow> string \<Rightarrow> timestamp \<Rightarrow> database \<Rightarrow> (db_error + bool) \<times> database" where
  "requeue_provider uid itf src provider now db = (case enqueue uid itf src (provider @ ''_analysis'') now None db of
     (Inl e, db') \<Rightarrow> (Inl e, db') | (Inr j, db') \<Rightarrow> (Inr (j \<noteq> None), db'))"

definition enqueue_release_artwork ::
  "string \<Rightarrow> (database \<Rightarrow> database) \<Rightarrow> string \<Rightarrow> timestamp \<Rightarrow> database \<Rightarrow> (db_error + job option) \<times> database" where
  "enqueue_release_artwork uid itf mbid now db =
     (if newest_active (release_slot ''artwork_enrichment'' mbid) db \<noteq> None then (Inr None, db)
      else insert_plain
        ((new_job (''artwork-enrichment-'' @ uid) ''artwork_enrichment'' now)\<lparr>release_mbid := Some mbid\<rparr>)
        (itf db))"

section \<open>The invariant\<close>

definition wf_attempts :: "attempt list \<Rightarrow> bool" where
  "wf_attempts as = (map attempt_number as = [1..<length as + 1] \<and> (\<forall>a \<in> set (butlast as). at_state a \<noteq> ''running''))"

definition wf_job :: "job \<Rightarrow> bool" where
  "wf_job j = (wf_attempts (attempts j)
     \<and> (job_state j = ''running'' \<longrightarrow> attempts j \<noteq> [] \<and> at_state (last (attempts j)) = ''running'')
     \<and> (job_state j = ''queued'' \<longrightarrow> (\<forall>a \<in> set (attempts j). at_state a \<noteq> ''running'')))"

definition wf_db :: "database \<Rightarrow> bool" where
  "wf_db db = (rows_ok (jobs db) \<and> (\<forall>j \<in> set (jobs db). wf_job j))"

definition active_in :: "(job \<Rightarrow> bool) \<Rightarrow> database \<Rightarrow> job list" where
  "active_in slot db = filter (\<lambda>j. slot j \<and> is_active j) (jobs db)"

lemma newest_active_None: "newest_active slot db = None \<longleftrightarrow> active_in slot db = []"
  by (simp add: newest_active_def active_in_def)

lemma newest_active_Some: "newest_active slot db = Some j \<Longrightarrow> j \<in> set (active_in slot db)"
  by (auto simp: newest_active_def active_in_def dest: first_min_in)

lemma set_active_in: "set (active_in slot db) = {j \<in> set (jobs db). slot j \<and> is_active j}"
  by (auto simp: active_in_def)

text \<open>The slot of the unique indexes a job occupies; two jobs conflict when they occupy the same.\<close>

definition index_key :: "job \<Rightarrow> (string \<times> string) option" where
  "index_key j =
     (if \<not> is_active j then None
      else if job_kind j = ''selection_refresh'' \<or> job_kind j = ''lrclib_fetch''
      then map_option (Pair (job_kind j)) (library_record_id j)
      else if job_kind j = ''musicbrainz_refresh'' then map_option (Pair (job_kind j)) (source_id j)
      else if job_kind j = ''folder_release_selection'' then map_option (Pair (job_kind j)) (folder_path j)
      else if job_kind j = ''reconciliation_scan'' \<or> job_kind j = ''publication_reconciliation''
      then Some (job_kind j, [])
      else None)"

lemma index_key_inactive: "\<not> is_active j \<Longrightarrow> index_key j = None"
  by (simp add: index_key_def)

lemma index_key_fst: "index_key j = Some (k, t) \<Longrightarrow> job_kind j = k \<and> is_active j"
  by (auto simp: index_key_def split: if_splits)

lemma uq_by_key:
  assumes "\<And>j. job_kind j = k \<Longrightarrow> is_active j \<Longrightarrow> index_key j = map_option (Pair k) (target j)"
  shows "uq_active_by k target a b \<longleftrightarrow> job_kind a = k \<and> index_key a \<noteq> None \<and> index_key a = index_key b"
proof (cases "job_kind a = k \<and> is_active a")
  case True
  then have ka: "index_key a = map_option (Pair k) (target a)" using assms by blast
  show ?thesis
  proof (cases "job_kind b = k \<and> is_active b")
    case True
    then have "index_key b = map_option (Pair k) (target b)" using assms by blast
    then show ?thesis using ka True \<open>job_kind a = k \<and> is_active a\<close>
      by (cases "target a"; cases "target b") (simp_all add: uq_active_by_def)
  next
    case False
    then have "\<not> uq_active_by k target a b" by (auto simp: uq_active_by_def)
    moreover have "index_key b \<noteq> Some (k, t)" for t using False index_key_fst [of b k t] by blast
    ultimately show ?thesis using ka by (cases "target a") (auto, metis)
  qed
next
  case False
  then show ?thesis using index_key_inactive [of a] by (auto simp: uq_active_by_def)
qed

lemma uq_kind_key:
  assumes "\<And>j. job_kind j = k \<Longrightarrow> is_active j \<Longrightarrow> index_key j = Some (k, [])"
  shows "uq_active_kind k a b \<longleftrightarrow> job_kind a = k \<and> index_key a \<noteq> None \<and> index_key a = index_key b"
proof -
  have "index_key b = Some (k, []) \<longleftrightarrow> job_kind b = k \<and> is_active b"
    using assms [of b] index_key_fst [of b k "[]"] by blast
  then show ?thesis using assms [of a] index_key_inactive [of a]
    by (cases "job_kind a = k \<and> is_active a") (auto simp: uq_active_kind_def)
qed

lemma index_conflict_iff: "index_conflict a b \<longleftrightarrow> index_key a \<noteq> None \<and> index_key a = index_key b"
proof -
  have key: "index_key a \<noteq> None \<Longrightarrow> job_kind a \<in> {''selection_refresh'', ''musicbrainz_refresh'', ''lrclib_fetch'',
      ''folder_release_selection'', ''reconciliation_scan'', ''publication_reconciliation''}"
    by (auto simp: index_key_def split: if_splits)
  have u: "uq_active_by ''selection_refresh'' library_record_id a b \<longleftrightarrow> job_kind a = ''selection_refresh'' \<and> index_key a \<noteq> None \<and> index_key a = index_key b"
    "uq_active_by ''musicbrainz_refresh'' source_id a b \<longleftrightarrow> job_kind a = ''musicbrainz_refresh'' \<and> index_key a \<noteq> None \<and> index_key a = index_key b"
    "uq_active_by ''lrclib_fetch'' library_record_id a b \<longleftrightarrow> job_kind a = ''lrclib_fetch'' \<and> index_key a \<noteq> None \<and> index_key a = index_key b"
    "uq_active_by ''folder_release_selection'' folder_path a b \<longleftrightarrow> job_kind a = ''folder_release_selection'' \<and> index_key a \<noteq> None \<and> index_key a = index_key b"
    "uq_active_kind ''reconciliation_scan'' a b \<longleftrightarrow> job_kind a = ''reconciliation_scan'' \<and> index_key a \<noteq> None \<and> index_key a = index_key b"
    "uq_active_kind ''publication_reconciliation'' a b \<longleftrightarrow> job_kind a = ''publication_reconciliation'' \<and> index_key a \<noteq> None \<and> index_key a = index_key b"
    by (rule uq_by_key uq_kind_key; simp add: index_key_def)+
  show ?thesis unfolding index_conflict_def u using key by blast
qed

lemma index_conflict_sym: "index_conflict a b = index_conflict b a"
  unfolding index_conflict_iff by metis

lemma wf_numbers: "wf_attempts as \<Longrightarrow> distinct (map attempt_number as)"
  by (simp only: wf_attempts_def) simp

lemma wf_insert:
  assumes "insert_job db j = Inr db'" and "wf_db db" and "wf_job j"
  shows "wf_db db'"
proof -
  have ok: "insert_ok db j" and db': "db' = db\<lparr>jobs := jobs db @ [j]\<rparr>"
    using assms(1) by (auto simp: insert_job_def split: if_splits)
  have "distinct (map attempt_number (attempts j))"
    using assms(3) by (simp add: wf_job_def wf_numbers)
  then have new: "ck_jobs_target_or_reconciliation j" "ck_jobs_expected_musicbrainz_pair j"
      "\<And>k. k \<in> set (jobs db) \<Longrightarrow> job_id k \<noteq> job_id j" "\<And>k. k \<in> set (jobs db) \<Longrightarrow> \<not> index_conflict j k"
      "distinct (map attempt_number (attempts j))"
    using ok unfolding insert_ok_def by blast+
  have old: "rows_ok (jobs db)" using assms(2) by (simp only: wf_db_def)
  have "rows_ok (jobs db @ [j])" unfolding rows_ok_def
  proof (intro conjI ballI impI)
    have "job_id j \<notin> job_id ` set (jobs db)" using new(3) by force
    then show "distinct (map job_id (jobs db @ [j]))" using old by (simp add: rows_ok_def)
    fix a assume a: "a \<in> set (jobs db @ [j])"
    then have a': "a \<in> set (jobs db) \<or> a = j" by auto
    show "ck_jobs_target_or_reconciliation a" "ck_jobs_expected_musicbrainz_pair a"
      "distinct (map attempt_number (attempts a))"
      using a' old new(1,2,5) by (auto simp only: rows_ok_def)
    fix b assume "b \<in> set (jobs db @ [j])" and c: "index_conflict a b"
    then have b': "b \<in> set (jobs db) \<or> b = j" by auto
    show "job_id a = job_id b"
      using a' b' c new(4) index_conflict_sym [of a b] old unfolding rows_ok_def by blast
  qed
  then have "rows_ok (jobs db')" by (simp add: db')
  then show ?thesis using assms(2,3) by (simp add: db' wf_db_def)
qed

lemma wf_new_job [simp]: "attempts j = [] \<Longrightarrow> job_state j = ''queued'' \<Longrightarrow> wf_job j"
  by (simp add: wf_job_def wf_attempts_def)

lemma new_job_simps [simp]:
  "attempts (new_job i k now) = []" "job_state (new_job i k now) = ''queued''"
  "job_kind (new_job i k now) = k" "job_id (new_job i k now) = i"
  by (simp_all add: new_job_def)

text \<open>A write to one row that leaves key, kind, targets and expectation alone. The table stays within
  its constraints when the write does not make an inactive row active.\<close>

locale row_write = keyed_write job_id wr for wr :: "job \<Rightarrow> job" +
  assumes kind_wr: "job_kind (wr j) = job_kind j"
    and targets_wr: "source_id (wr j) = source_id j" "library_record_id (wr j) = library_record_id j"
      "release_mbid (wr j) = release_mbid j" "folder_path (wr j) = folder_path j"
    and expected_wr: "expected_recording_id (wr j) = expected_recording_id j"
      "expected_release_id (wr j) = expected_release_id j"
begin

lemma key_wr:
  "(is_active (wr a) \<Longrightarrow> is_active a) \<Longrightarrow> index_key (wr a) = None \<or> index_key (wr a) = index_key a"
  by (cases "is_active (wr a)") (simp_all add: index_key_def kind_wr targets_wr)

lemma checks_wr: "ck_jobs_target_or_reconciliation (wr j) = ck_jobs_target_or_reconciliation j"
  "ck_jobs_expected_musicbrainz_pair (wr j) = ck_jobs_expected_musicbrainz_pair j"
  by (simp_all add: ck_jobs_target_or_reconciliation_def ck_jobs_expected_musicbrainz_pair_def
      kind_wr targets_wr expected_wr)

lemma wf_update:
  assumes wf: "wf_db db"
    and act: "\<And>j. j \<in> set (jobs db) \<Longrightarrow> job_id j = i \<Longrightarrow> is_active (wr j) \<Longrightarrow> is_active j"
    and row: "\<And>j. j \<in> set (jobs db) \<Longrightarrow> job_id j = i \<Longrightarrow> wf_job (wr j)"
  shows "wf_db (db\<lparr>jobs := update_row job_id i wr (jobs db)\<rparr>)"
proof -
  let ?u = "\<lambda>j. if job_id j = i then wr j else j"
  have u: "update_row job_id i wr (jobs db) = map ?u (jobs db)" by (simp add: update_row_def)
  have key: "job_id (?u j) = job_id j" for j by (simp add: pk_wr)
  have wfj: "wf_job (?u j)" if "j \<in> set (jobs db)" for j using wf that row by (simp add: wf_db_def)
  have ukey: "index_key (?u j) = None \<or> index_key (?u j) = index_key j" if "j \<in> set (jobs db)" for j
    using key_wr [of j] act [OF that] by simp
  have confl: "index_conflict j k" if "j \<in> set (jobs db)" "k \<in> set (jobs db)" "index_conflict (?u j) (?u k)" for j k
    using ukey [OF that(1)] ukey [OF that(2)] that(3) by (metis index_conflict_iff)
  have jobs_eq: "jobs (db\<lparr>jobs := update_row job_id i wr (jobs db)\<rparr>) = map ?u (jobs db)" by (simp add: u)
  have ck: "ck_jobs_target_or_reconciliation (?u j) \<and> ck_jobs_expected_musicbrainz_pair (?u j)"
    if "j \<in> set (jobs db)" for j using wf that by (simp add: wf_db_def rows_ok_def checks_wr)
  have num: "distinct (map attempt_number (attempts (?u j)))" if "j \<in> set (jobs db)" for j
    using wfj [OF that] wf_numbers by (simp add: wf_job_def)
  have conf: "job_id (?u j) = job_id (?u k)"
    if "j \<in> set (jobs db)" "k \<in> set (jobs db)" "index_conflict (?u j) (?u k)" for j k
    using confl [OF that] wf that(1,2) unfolding key wf_db_def rows_ok_def by blast
  have dist: "distinct (map job_id (map ?u (jobs db)))"
    using wf distinct_update [of i "jobs db"] by (simp only: wf_db_def rows_ok_def update_row_def)
  show ?thesis
    unfolding wf_db_def rows_ok_def jobs_eq
  proof (intro conjI ballI impI)
    fix j assume "j \<in> set (map ?u (jobs db))"
    then obtain j' where j: "j = ?u j'" "j' \<in> set (jobs db)" unfolding set_map by blast
    show "ck_jobs_target_or_reconciliation j" "ck_jobs_expected_musicbrainz_pair j"
      "distinct (map attempt_number (attempts j))" "wf_job j"
      unfolding j(1) using ck [OF j(2)] num [OF j(2)] wfj [OF j(2)] by blast+
    fix k assume "k \<in> set (map ?u (jobs db))" and c: "index_conflict j k"
    then obtain k' where k: "k = ?u k'" "k' \<in> set (jobs db)" unfolding set_map by blast
    show "job_id j = job_id k" using conf [OF j(2) k(2)] c unfolding j(1) k(1) by blast
  qed (fact dist)
qed

end

lemma wf_attempts_append:
  assumes "map attempt_number as = [1..<length as + 1]" and "\<forall>a \<in> set as. at_state a \<noteq> ''running''"
    and "attempt_number b = length as + 1"
  shows "wf_attempts (as @ [b])"
  using assms by (simp add: wf_attempts_def)

lemma close_stale_numbers: "map attempt_number (close_stale now as) = map attempt_number as"
  by (cases as rule: rev_cases) (simp_all add: close_stale_def)

lemma close_stale_closed:
  "\<forall>a \<in> set (butlast as). at_state a \<noteq> ''running'' \<Longrightarrow> \<forall>a \<in> set (close_stale now as). at_state a \<noteq> ''running''"
  by (cases as rule: rev_cases) (auto simp: close_stale_def)

lemma end_attempt_numbers: "map attempt_number (end_attempt n st now as) = map attempt_number as"
  by (simp add: end_attempt_def)

lemma wf_end_attempt:
  assumes "wf_attempts as" and "st \<noteq> ''running''"
  shows "wf_attempts (end_attempt n st now as)"
proof -
  have "butlast (end_attempt n st now as) = end_attempt n st now (butlast as)"
    by (simp add: end_attempt_def map_butlast)
  moreover have "length (end_attempt n st now as) = length as" by (simp add: end_attempt_def)
  moreover have "\<forall>a \<in> set (end_attempt n st now (butlast as)). at_state a \<noteq> ''running''"
    using assms by (auto simp: wf_attempts_def end_attempt_def)
  ultimately show ?thesis using assms(1) by (simp add: wf_attempts_def end_attempt_numbers)
qed

section \<open>The writes of the repository\<close>

lemma wf_claim_write:
  assumes wf: "wf_job j" and act: "is_active j"
  shows "wf_job (claim_write now j)"
proof -
  let ?as = "if job_state j = ''running'' then close_stale now (attempts j) else attempts j"
  have n: "map attempt_number ?as = map attempt_number (attempts j)" by (simp add: close_stale_numbers)
  then have len: "length ?as = length (attempts j)" by (metis length_map)
  have closed: "\<forall>a \<in> set ?as. at_state a \<noteq> ''running''"
    using wf act close_stale_closed [of "attempts j" now] by (auto simp: wf_job_def wf_attempts_def is_active_def)
  have "wf_attempts (?as @ [\<lparr>attempt_number = length (attempts j) + 1, at_state = ''running'',
      started_at = now, finished_at = None\<rparr>])"
    by (rule wf_attempts_append) (use wf n len closed in \<open>simp_all add: wf_job_def wf_attempts_def\<close>)
  then show ?thesis by (simp add: claim_write_def wf_job_def)
qed

interpretation cw: row_write "claim_write now"
  by unfold_locales (simp_all add: claim_write_def)

interpretation sw: row_write "succeed_write n now"
  by unfold_locales (simp_all add: succeed_write_def)

interpretation qw: row_write "quarantine_write n now"
  by unfold_locales (simp_all add: quarantine_write_def)

interpretation rw: row_write "retry_write n now delay mx reason"
  by unfold_locales (simp_all add: retry_write_def)

interpretation ssw: row_write "supersede_write"
  by unfold_locales (simp_all add: supersede_write_def)

interpretation rvw: row_write "revision_write m"
  by unfold_locales (simp_all add: revision_write_def)

text \<open>A claim is still held when its attempt is the last one of its job.\<close>

definition holds_claim :: "claimed_job \<Rightarrow> database \<Rightarrow> bool" where
  "holds_claim c db = (\<forall>j \<in> set (jobs db). job_id j = cl_job c \<longrightarrow> length (attempts j) = cl_attempt c)"

lemma end_last_closed:
  assumes "wf_attempts as" and "n = length as" and "st \<noteq> ''running''"
  shows "\<forall>a \<in> set (end_attempt n st now as). at_state a \<noteq> ''running''"
proof (cases as rule: rev_cases)
  case Nil
  then show ?thesis by (simp add: end_attempt_def)
next
  case (snoc ys y)
  then have "attempt_number y = n" using assms(1,2) by (simp add: wf_attempts_def)
  then show ?thesis using snoc assms by (auto simp: end_attempt_def wf_attempts_def)
qed

lemma wf_end_write:
  assumes "wf_job j" and "n = length (attempts j)" and "st \<noteq> ''running''"
    and "attempts j' = end_attempt n st now (attempts j)" and "job_state j' \<noteq> ''running''"
  shows "wf_job j'"
  using assms wf_end_attempt [of "attempts j" st n now] end_last_closed [of "attempts j" n st now]
  by (simp add: wf_job_def)

lemma finished_inactive: "\<not> is_active (succeed_write n now j)" "\<not> is_active (quarantine_write n now j)"
  by (simp_all add: succeed_write_def quarantine_write_def is_active_def)

lemma succeed_wf_job: "wf_job j \<Longrightarrow> wf_job (succeed_write (length (attempts j)) now j)"
  by (rule wf_end_write [where st = "''succeeded''" and j = j and now = now]) (simp_all add: succeed_write_def)

lemma quarantine_wf_job: "wf_job j \<Longrightarrow> wf_job (quarantine_write (length (attempts j)) now j)"
  by (rule wf_end_write [where st = "''quarantined''" and j = j and now = now]) (simp_all add: quarantine_write_def)

lemma held: "holds_claim c db \<Longrightarrow> j \<in> set (jobs db) \<Longrightarrow> job_id j = cl_job c \<Longrightarrow> cl_attempt c = length (attempts j)"
  by (simp add: holds_claim_def)

lemma wf_succeed:
  assumes "wf_db db" and "holds_claim c db"
  shows "wf_db (succeed c now db)"
  unfolding succeed_def write_claimed_def
proof (rule sw.wf_update [OF assms(1)])
  fix j assume j: "j \<in> set (jobs db)" "job_id j = cl_job c"
  then show "wf_job (succeed_write (cl_attempt c) now j)"
    unfolding held [OF assms(2) j] using assms(1) by (simp add: wf_db_def succeed_wf_job)
qed (simp add: finished_inactive)

lemma wf_quarantine:
  assumes "wf_db db" and "holds_claim c db"
  shows "wf_db (quarantine c now db)"
  unfolding quarantine_def write_claimed_def
proof (rule qw.wf_update [OF assms(1)])
  fix j assume j: "j \<in> set (jobs db)" "job_id j = cl_job c"
  then show "wf_job (quarantine_write (cl_attempt c) now j)"
    unfolding held [OF assms(2) j] using assms(1) by (simp add: wf_db_def quarantine_wf_job)
qed (simp add: finished_inactive)

text \<open>A retry makes an active job queued, so it needs the job still active; the flush checks the rest.\<close>

lemma retry_wf_job:
  assumes "wf_job j"
  shows "wf_job (retry_write (length (attempts j)) now delay mx reason j)"
proof (cases "length (attempts j) \<ge> mx")
  case True
  then show ?thesis using assms
    by - (rule wf_end_write [where st = "''blocked_infrastructure''" and j = j and now = now], simp_all add: retry_write_def)
next
  case False
  then show ?thesis using assms
    by - (rule wf_end_write [where st = "''retry_wait''" and j = j and now = now], simp_all add: retry_write_def)
qed

lemma flush_Inr: "flush db = Inr db' \<longleftrightarrow> rows_ok (jobs db) \<and> db' = db"
  unfolding flush_def by (cases "rows_ok (jobs db)") auto

lemma wf_retry:
  assumes "wf_db db" and "holds_claim c db" and "flush (retry c now delay mx reason db) = Inr db'"
  shows "wf_db db'"
proof -
  let ?f = "\<lambda>k. if job_id k = cl_job c then retry_write (cl_attempt c) now delay mx reason k else k"
  have rows: "jobs (retry c now delay mx reason db) = map ?f (jobs db)"
    by (simp add: retry_def write_claimed_def update_row_def)
  have ok: "rows_ok (jobs (retry c now delay mx reason db))" and db': "db' = retry c now delay mx reason db"
    using assms(3) unfolding flush_Inr by blast+
  have "wf_job j" if jm: "j \<in> set (map ?f (jobs db))" for j
  proof -
    obtain k where k: "k \<in> set (jobs db)" "j = ?f k" using jm unfolding set_map by blast
    have "wf_job k" using k(1) assms(1) by (simp add: wf_db_def)
    then show ?thesis using k(2) retry_wf_job [of k now delay mx reason] held [OF assms(2) k(1)]
      by (cases "job_id k = cl_job c") simp_all
  qed
  then show ?thesis unfolding wf_db_def db' using ok unfolding rows by blast
qed

lemma claimable_active: "claimable now lease src ks j \<Longrightarrow> is_active j"
  by (auto simp: claimable_def is_active_def)

lemma claimable_statement_Some:
  assumes "claimable_statement locked now lease src ks db = Some j"
  shows "j \<in> set (jobs db)" "\<not> locked (job_id j)" "claimable now lease src ks j"
  using first_min_in [OF assms [unfolded claimable_statement_def]] by auto

lemma same_id: "wf_db db \<Longrightarrow> j \<in> set (jobs db) \<Longrightarrow> k \<in> set (jobs db) \<Longrightarrow> job_id j = job_id k \<Longrightarrow> j = k"
  by (auto simp: wf_db_def rows_ok_def distinct_map dest: inj_onD)

lemma wf_claim:
  assumes "wf_db db" and "claimable_statement locked now lease src ks db = c"
  shows "wf_db (snd (claim now c db))"
proof (cases c)
  case None
  then show ?thesis using assms by (simp add: claim_def)
next
  case (Some j)
  note j = claimable_statement_Some [OF assms(2) [unfolded Some]]
  have row: "k = j" if "k \<in> set (jobs db)" "job_id k = job_id j" for k
    using same_id [OF assms(1) that(1) j(1) that(2)] .
  have "wf_db (db\<lparr>jobs := update_row job_id (job_id j) (claim_write now) (jobs db)\<rparr>)"
  proof (rule cw.wf_update [OF assms(1)])
    fix k assume k: "k \<in> set (jobs db)" "job_id k = job_id j"
    show "is_active k" using row [OF k] claimable_active [OF j(3)] by simp
    then show "wf_job (claim_write now k)" using wf_claim_write k assms(1) by (simp add: wf_db_def)
  qed
  then show ?thesis by (simp add: claim_def Some)
qed

section \<open>The coalescing contract\<close>

definition unique_slot :: "(job \<Rightarrow> bool) \<Rightarrow> bool" where
  "unique_slot slot = (\<forall>a b. slot a \<and> slot b \<and> is_active a \<and> is_active b \<longrightarrow> index_conflict a b)"

lemma unique_slots:
  "unique_slot (record_slot ''selection_refresh'' r)" "unique_slot (record_slot ''lrclib_fetch'' r)"
  "unique_slot (source_slot ''musicbrainz_refresh'' src)" "unique_slot (folder_slot ''folder_release_selection'' path)"
  "unique_slot (kind_slot ''reconciliation_scan'')" "unique_slot (kind_slot ''publication_reconciliation'')"
  by (simp_all add: unique_slot_def index_conflict_iff index_key_def record_slot_def source_slot_def
      folder_slot_def kind_slot_def)

lemma one_element: "distinct xs \<Longrightarrow> (\<And>a b. a \<in> set xs \<Longrightarrow> b \<in> set xs \<Longrightarrow> a = b) \<Longrightarrow> length xs \<le> 1"
proof (rule ccontr)
  assume d: "distinct xs" and same: "\<And>a b. a \<in> set xs \<Longrightarrow> b \<in> set xs \<Longrightarrow> a = b" and "\<not> length xs \<le> 1"
  then have l: "0 < length xs" "1 < length xs" by linarith+
  then have "xs ! 0 = xs ! 1" using same nth_mem by blast
  then show False using d l by (simp add: nth_eq_iff_index_eq)
qed

lemma at_most_one_active:
  assumes "wf_db db" and "unique_slot slot"
  shows "length (active_in slot db) \<le> 1"
proof -
  have same: "a = b" if "a \<in> set (active_in slot db)" "b \<in> set (active_in slot db)" for a b
  proof -
    have "index_conflict a b" using that assms(2) by (simp add: unique_slot_def set_active_in)
    then have "job_id a = job_id b" using that assms(1) by (simp add: wf_db_def rows_ok_def set_active_in)
    then show ?thesis using same_id [OF assms(1)] that by (simp add: set_active_in)
  qed
  have "distinct (active_in slot db)"
    using assms(1) by (simp add: wf_db_def rows_ok_def active_in_def distinct_map)
  then show ?thesis using same by (rule one_element)
qed

lemma insert_job_Inr: "insert_job db j = Inr db' \<longleftrightarrow> insert_ok db j \<and> db' = db\<lparr>jobs := jobs db @ [j]\<rparr>"
  unfolding insert_job_def by (cases "insert_ok db j") auto

lemma insert_job_Inl: "insert_job db j = Inl e \<longleftrightarrow> \<not> insert_ok db j \<and> e = IntegrityError"
  unfolding insert_job_def by (cases "insert_ok db j") auto

lemma active_after_insert:
  assumes "insert_job db j = Inr db'" and "slot j" and "is_active j"
  shows "active_in slot db' = active_in slot db @ [j]"
  using assms by (simp add: insert_job_Inr active_in_def)

lemma fresh_inserted:
  assumes "insert_job db j = Inr db'" and "wf_db db" and "unique_slot slot"
    and "slot j" and "job_state j = ''queued''" and "attempts j = []"
  shows "wf_db db' \<and> active_in slot db = [] \<and> active_in slot db' = [j] \<and> jobs db' = jobs db @ [j]"
proof -
  have act: "is_active j" using assms(5) by (simp add: is_active_def)
  have wf: "wf_db db'" using wf_insert [OF assms(1,2)] assms(5,6) by simp
  have "active_in slot db = []" using at_most_one_active [OF wf assms(3)]
      active_after_insert [of db j db' slot] assms(1,4) act by simp
  then show ?thesis using wf active_after_insert [of db j db' slot] assms(1,4) act
    by (simp add: insert_job_Inr)
qed

lemma insert_or_coalesce_cases:
  assumes "wf_db db" and "unique_slot slot" and "slot j" and "job_state j = ''queued''" and "attempts j = []"
    and "insert_or_coalesce slot j db = (res, db')"
  shows "wf_db db' \<and>
    (case res of
       Inl e \<Rightarrow> db' = db \<and> active_in slot db = [] \<and> \<not> insert_ok db j
     | Inr None \<Rightarrow> db' = db \<and> length (active_in slot db) = 1
     | Inr (Some k) \<Rightarrow> k = j \<and> active_in slot db = [] \<and> active_in slot db' = [j] \<and> jobs db' = jobs db @ [j])"
proof (cases "insert_job db j")
  case (Inr d)
  then show ?thesis using assms(6) fresh_inserted [OF Inr assms(1-5)] by (auto simp: insert_or_coalesce_def)
next
  case (Inl e)
  then have nok: "\<not> insert_ok db j" by (simp add: insert_job_Inl)
  show ?thesis
  proof (cases "newest_active slot db")
    case None
    then show ?thesis using assms(1,6) Inl nok newest_active_None [of slot db]
      by (auto simp: insert_or_coalesce_def)
  next
    case (Some a)
    then have "active_in slot db \<noteq> []" using newest_active_None [of slot db] by simp
    then have "length (active_in slot db) = 1"
      using at_most_one_active [OF assms(1,2)] by (cases "active_in slot db") auto
    then show ?thesis using assms(1,6) Inl Some by (auto simp: insert_or_coalesce_def)
  qed
qed

locale coalescing_enqueue =
  fixes slot :: "job \<Rightarrow> bool" and fresh :: job
    and run_enqueue :: "(database \<Rightarrow> database) \<Rightarrow> database \<Rightarrow> (db_error + job option) \<times> database"
  assumes busy: "newest_active slot db \<noteq> None \<Longrightarrow> run_enqueue itf db = (Inr None, db)"
    and idle: "newest_active slot db = None \<Longrightarrow> run_enqueue itf db = insert_or_coalesce slot fresh (itf db)"
    and slot_unique: "unique_slot slot"
    and fresh_job: "slot fresh" "job_state fresh = ''queued''" "attempts fresh = []"
begin

lemma preserves:
  assumes "wf_db db" and "wf_db (itf db)"
  shows "wf_db (snd (run_enqueue itf db))"
proof (cases "newest_active slot db")
  case None
  then show ?thesis using insert_or_coalesce_cases [OF assms(2) slot_unique fresh_job] idle [OF None]
    by (metis prod.collapse)
next
  case (Some a)
  then show ?thesis using busy [of db itf] assms(1) by simp
qed

lemma outcome:
  assumes "wf_db db" and "wf_db (itf db)" and "run_enqueue itf db = (res, db')"
  shows "case res of
      Inl e \<Rightarrow> db' = itf db \<and> active_in slot db' = [] \<and> \<not> insert_ok db' fresh
    | Inr None \<Rightarrow> db' \<in> {db, itf db} \<and> length (active_in slot db') = 1
    | Inr (Some j) \<Rightarrow> j = fresh \<and> active_in slot db = [] \<and> active_in slot db' = [j] \<and> jobs db' = jobs (itf db) @ [j]"
proof (cases "newest_active slot db")
  case None
  then show ?thesis
    using insert_or_coalesce_cases [OF assms(2) slot_unique fresh_job, of res db'] idle [OF None, of itf] assms(3)
    by (auto simp: newest_active_None split: sum.splits option.splits)
next
  case (Some a)
  then have "active_in slot db \<noteq> []" using newest_active_None [of slot db] by simp
  then have "length (active_in slot db) = 1"
    using at_most_one_active [OF assms(1) slot_unique] by (cases "active_in slot db") auto
  then show ?thesis using busy [of db itf] assms(3) Some by auto
qed

end

interpretation sr: coalescing_enqueue "record_slot ''selection_refresh'' r"
  "(new_job (''selection_refresh-'' @ uid) ''selection_refresh'' now)\<lparr>library_record_id := Some r\<rparr>"
  "\<lambda>itf. enqueue_selection_refresh uid itf r now"
  by unfold_locales (simp_all add: enqueue_selection_refresh_def unique_slots record_slot_def)

interpretation lf: coalescing_enqueue "record_slot ''lrclib_fetch'' r"
  "(new_job (''lrclib-fetch-'' @ uid) ''lrclib_fetch'' now)\<lparr>library_record_id := Some r\<rparr>"
  "\<lambda>itf. enqueue_lrclib_fetch uid itf r now"
  by unfold_locales (simp_all add: enqueue_lrclib_fetch_def unique_slots record_slot_def)

section \<open>Every run of the repository\<close>

text \<open>What transactions may do to the database, one after the other: each operation of the repository,
  whose reads and inserts may be interleaved with further such runs (\<open>itf\<close>), and changes of the
  referenced tables. An operation that raises is rolled back. An attempt is ended by the worker
  that still holds the claim.\<close>

definition superseded_first :: "string \<Rightarrow> database \<Rightarrow> database" where
  "superseded_first src db = (case newest_active (source_slot ''musicbrainz_refresh'' src) db of
     None \<Rightarrow> db | Some a \<Rightarrow> db\<lparr>jobs := update_row job_id (job_id a) supersede_write (jobs db)\<rparr>)"

inductive runs :: "database \<Rightarrow> database \<Rightarrow> bool" where
  runs_refl: "runs db db"
| runs_rows: "runs db mid \<Longrightarrow> jobs db' = jobs mid \<Longrightarrow> runs db db'"
| runs_claim: "runs db mid \<Longrightarrow> claim_next locked now lease ks mid = (c, db') \<Longrightarrow> runs db db'"
| runs_claim_source: "runs db mid \<Longrightarrow> claim_next_for_source locked src now lease ks mid = (c, db') \<Longrightarrow> runs db db'"
| runs_succeed: "runs db mid \<Longrightarrow> holds_claim c mid \<Longrightarrow> runs db (succeed c now mid)"
| runs_quarantine: "runs db mid \<Longrightarrow> holds_claim c mid \<Longrightarrow> runs db (quarantine c now mid)"
| runs_retry: "runs db mid \<Longrightarrow> holds_claim c mid \<Longrightarrow> flush (retry c now delay mx reason mid) = Inr db' \<Longrightarrow> runs db db'"
| runs_selection: "runs db mid \<Longrightarrow> \<forall>d. runs d (itf d) \<Longrightarrow>
    enqueue_selection_refresh uid itf r now mid = (Inr x, db') \<Longrightarrow> runs db db'"
| runs_selections: "runs db mid \<Longrightarrow> \<forall>r d. runs d (itfs r d) \<Longrightarrow>
    enqueue_selection_refreshes uids itfs rts mid = (Inr xs, db') \<Longrightarrow> runs db db'"
| runs_musicbrainz: "runs db mid \<Longrightarrow> \<forall>d. runs d (itf d) \<Longrightarrow>
    enqueue_musicbrainz_refresh uid itf src identity now mid = (Inr x, db') \<Longrightarrow> runs db db'"
| runs_lrclib: "runs db mid \<Longrightarrow> \<forall>d. runs d (itf d) \<Longrightarrow>
    enqueue_lrclib_fetch uid itf r now mid = (Inr x, db') \<Longrightarrow> runs db db'"
| runs_recover: "runs db mid \<Longrightarrow> recover_blocked_lrclib_fetches uids now limit mid = (Inr rcv, db') \<Longrightarrow> runs db db'"
| runs_folder: "runs db mid \<Longrightarrow> \<forall>d. runs d (itf d) \<Longrightarrow>
    enqueue_folder_release_selection uid itf path now mid = (Inr x, db') \<Longrightarrow> runs db db'"
| runs_scan: "runs db mid \<Longrightarrow> \<forall>d. runs d (itf d) \<Longrightarrow>
    enqueue_reconciliation_scan uid itf now mid = (Inr y, db') \<Longrightarrow> runs db db'"
| runs_publication: "runs db mid \<Longrightarrow> \<forall>d. runs d (itf d) \<Longrightarrow>
    enqueue_publication_reconciliation uid itf now mid = (Inr y, db') \<Longrightarrow> runs db db'"
| runs_enqueue: "runs db mid \<Longrightarrow> \<forall>d. runs d (itf d) \<Longrightarrow>
    enqueue uid itf src k now revision mid = (Inr x, db') \<Longrightarrow> runs db db'"
| runs_requeue: "runs db mid \<Longrightarrow> \<forall>d. runs d (itf d) \<Longrightarrow>
    requeue_provider uid itf src provider now mid = (Inr b, db') \<Longrightarrow> runs db db'"
| runs_artwork: "runs db mid \<Longrightarrow> \<forall>d. runs d (itf d) \<Longrightarrow>
    enqueue_release_artwork uid itf mbid now mid = (Inr x, db') \<Longrightarrow> runs db db'"

lemma wf_supersede:
  assumes "wf_db db" and "newest_active slot db = Some a"
  shows "wf_db (db\<lparr>jobs := update_row job_id (job_id a) supersede_write (jobs db)\<rparr>)"
proof (rule ssw.wf_update [OF assms(1)])
  fix j assume j: "j \<in> set (jobs db)"
  then have "wf_job j" using assms(1) by (simp add: wf_db_def)
  then show "wf_job (supersede_write j)" by (simp add: wf_job_def supersede_write_def)
next
  fix j assume "is_active (supersede_write j)"
  then show "is_active j" by (simp add: is_active_def supersede_write_def)
qed

lemma wf_revision:
  assumes "wf_db db"
  shows "wf_db (db\<lparr>jobs := update_row job_id i (revision_write m) (jobs db)\<rparr>)"
  by (rule rvw.wf_update [OF assms]) (use assms in \<open>auto simp: revision_write_def is_active_def wf_db_def wf_job_def\<close>)

lemma wf_insert_plain:
  "wf_db db \<Longrightarrow> job_state j = ''queued'' \<Longrightarrow> attempts j = [] \<Longrightarrow> insert_plain j db = (res, db') \<Longrightarrow> wf_db db'"
  using wf_insert [of db j] by (auto simp: insert_plain_def split: sum.splits)

lemma wf_if_plain:
  assumes "(if b then (Inr None, db) else insert_plain j d) = (res, db')"
    and "wf_db db" and "wf_db d" and "job_state j = ''queued''" and "attempts j = []"
  shows "wf_db db'"
  using assms wf_insert_plain [OF assms(3-5), of res db'] by (cases b) auto

lemma wf_insert_or_coalesce:
  "wf_db db \<Longrightarrow> job_state j = ''queued'' \<Longrightarrow> attempts j = [] \<Longrightarrow> insert_or_coalesce slot j db = (res, db') \<Longrightarrow> wf_db db'"
  using wf_insert [of db j] by (auto simp: insert_or_coalesce_def split: sum.splits option.splits)

lemma wf_refresh_each:
  "refresh_each uids itf active rs queued db = (res, db') \<Longrightarrow> \<forall>r d. wf_db d \<longrightarrow> wf_db (itf r d) \<Longrightarrow>
     wf_db db \<Longrightarrow> wf_db db'"
proof (induction uids itf active rs queued db rule: refresh_each.induct)
  case (2 uids itf active r t rs queued db)
  show ?case
  proof (cases "r \<in> set active")
    case True
    then show ?thesis using 2 by simp
  next
    case False
    let ?j = "(new_job (''selection_refresh-'' @ uids r) ''selection_refresh'' t)\<lparr>library_record_id := Some r\<rparr>"
    obtain x d where e: "insert_or_coalesce (record_slot ''selection_refresh'' r) ?j (itf r db) = (x, d)"
      by (cases "insert_or_coalesce (record_slot ''selection_refresh'' r) ?j (itf r db)")
    have wf: "wf_db d" using 2(5,6) wf_insert_or_coalesce [OF _ _ _ e] by simp
    consider er where "x = Inl er" | "x = Inr None" | k where "x = Inr (Some k)"
      by (cases x; cases "projr x") auto
    then show ?thesis
    proof cases
      case 1
      then show ?thesis using "2.prems"(1) False e wf by simp
    next
      case 2
      then show ?thesis using "2.IH"(2) "2.prems" False e wf by simp
    next
      case (3 k)
      then show ?thesis using "2.IH"(3) "2.prems" False e wf by simp
    qed
  qed
qed simp

lemma wf_recover_each:
  "recover_each uids now seen n bs db = (res, db') \<Longrightarrow> wf_db db \<Longrightarrow> wf_db db'"
proof (induction uids now seen n bs db rule: recover_each.induct)
  case (2 uids now seen n b bs db)
  show ?case
  proof (cases "library_record_id b")
    case None
    then show ?thesis using 2 by simp
  next
    case (Some r)
    obtain x d where e: "enqueue_lrclib_fetch (uids r) id r now db = (x, d)"
      by (cases "enqueue_lrclib_fetch (uids r) id r now db")
    have wf: "wf_db d" using lf.preserves [of db id] e "2.prems"(2) by (metis id_apply snd_conv)
    consider er where "x = Inl er" | "x = Inr None" | k where "x = Inr (Some k)"
      by (cases x; cases "projr x") auto
    then show ?thesis
    proof cases
      case 1
      then show ?thesis using "2.IH"(2) "2.prems" Some e wf by (cases "r \<in> set seen") simp_all
    next
      case 2
      then show ?thesis using "2.IH"(2,3) "2.prems" Some e wf by (cases "r \<in> set seen") simp_all
    next
      case (3 k)
      then show ?thesis using "2.IH"(2,4) "2.prems" Some e wf by (cases "r \<in> set seen") simp_all
    qed
  qed
qed simp

lemma wf_enqueue_global:
  assumes "wf_db db" and "wf_db (itf db)" and "job_state j = ''queued''" and "attempts j = []"
    and "enqueue_global k j itf db = (res, db')"
  shows "wf_db db'"
  using assms wf_insert [of "itf db" j]
  by (auto simp: enqueue_global_def Let_def split: option.splits sum.splits)

lemma wf_enqueue:
  assumes "wf_db db" and "wf_db (itf db)" and "enqueue uid itf src k now revision db = (res, db')"
  shows "wf_db db'"
proof (cases "newest_active (source_slot k src) db")
  case None
  let ?j = "(new_job (take 63 k @ ''-'' @ uid) k now)
         \<lparr>source_id := Some src, metadata_revision_id := revision,
          source_metadata_revision := map_of (sources (itf db)) src\<rparr>"
  have "insert_plain ?j (itf db) = (res, db')" using assms(3) None by (simp add: enqueue_def Let_def)
  then show ?thesis using wf_insert_plain [OF assms(2) _ _ \<open>insert_plain ?j (itf db) = _\<close>] by simp
next
  case (Some a)
  then show ?thesis using assms(1,3) wf_revision by (auto simp: enqueue_def split: option.splits)
qed

lemma musicbrainz_insert:
  assumes "enqueue_musicbrainz_refresh uid itf src identity now db = (res, db')"
  obtains (same) a where "res = Inr None" "db' = db" "newest_active (source_slot ''musicbrainz_refresh'' src) db = Some a"
      "expected_recording_id a = Some (recording_mbid identity)" "expected_release_id a = Some (release_mbid_of identity)"
  | (insert) j where "insert_or_coalesce (source_slot ''musicbrainz_refresh'' src) j (itf (superseded_first src db)) = (res, db')"
      "source_slot ''musicbrainz_refresh'' src j" "job_state j = ''queued''" "attempts j = []"
      "expected_recording_id j = Some (recording_mbid identity)" "expected_release_id j = Some (release_mbid_of identity)"
proof (cases "\<exists>a. newest_active (source_slot ''musicbrainz_refresh'' src) db = Some a
      \<and> expected_recording_id a = Some (recording_mbid identity) \<and> expected_release_id a = Some (release_mbid_of identity)")
  case True
  then obtain a where a: "newest_active (source_slot ''musicbrainz_refresh'' src) db = Some a"
      "expected_recording_id a = Some (recording_mbid identity)" "expected_release_id a = Some (release_mbid_of identity)"
    by blast
  then have "(res, db') = (Inr None, db)" using assms by (simp add: enqueue_musicbrainz_refresh_def)
  then show ?thesis using same a by blast
next
  case False
  let ?j = "(new_job (''musicbrainz_refresh-'' @ uid) ''musicbrainz_refresh'' now)
             \<lparr>source_id := Some src, source_metadata_revision := map_of (sources (itf (superseded_first src db))) src,
              expected_recording_id := Some (recording_mbid identity),
              expected_release_id := Some (release_mbid_of identity)\<rparr>"
  have "insert_or_coalesce (source_slot ''musicbrainz_refresh'' src) ?j (itf (superseded_first src db)) = (res, db')"
  proof (cases "newest_active (source_slot ''musicbrainz_refresh'' src) db")
    case None
    then show ?thesis using assms by (simp add: enqueue_musicbrainz_refresh_def Let_def superseded_first_def)
  next
    case (Some a)
    then have "(expected_recording_id a = Some (recording_mbid identity)
        \<and> expected_release_id a = Some (release_mbid_of identity)) = False" using False by blast
    then show ?thesis using assms Some
      by (simp only: enqueue_musicbrainz_refresh_def Let_def superseded_first_def option.case if_False)
  qed
  then show ?thesis by (rule insert) (simp_all add: source_slot_def)
qed

lemma wf_superseded_first: "wf_db db \<Longrightarrow> wf_db (superseded_first src db)"
  using wf_supersede by (simp add: superseded_first_def split: option.splits)

lemma wf_musicbrainz:
  assumes "wf_db db" and "\<And>d. wf_db d \<Longrightarrow> wf_db (itf d)"
    and "enqueue_musicbrainz_refresh uid itf src identity now db = (res, db')"
  shows "wf_db db'"
  using assms(3)
proof (cases rule: musicbrainz_insert)
  case same
  then show ?thesis using assms(1) by simp
next
  case (insert j)
  then show ?thesis using wf_insert_or_coalesce [OF _ insert(3,4,1)] assms(1,2) wf_superseded_first by blast
qed

lemma claim_wf:
  "wf_db db \<Longrightarrow> claim_next locked now lease ks db = (c, db') \<Longrightarrow> wf_db db'"
  "wf_db db \<Longrightarrow> claim_next_for_source locked src now lease ks db = (c, db') \<Longrightarrow> wf_db db'"
  using wf_claim [OF _ refl] by (metis claim_next_def claim_next_for_source_def snd_conv)+

lemma runs_wf: "runs db db' \<Longrightarrow> wf_db db \<Longrightarrow> wf_db db'"
proof (induction rule: runs.induct)
  case (runs_rows db mid db')
  then show ?case by (simp add: wf_db_def)
next
  case (runs_claim db mid locked now lease ks c db')
  then show ?case using claim_wf(1) by blast
next
  case (runs_claim_source db mid locked src now lease ks c db')
  then show ?case using claim_wf(2) by blast
next
  case (runs_succeed db mid c now)
  then show ?case using wf_succeed by blast
next
  case (runs_quarantine db mid c now)
  then show ?case using wf_quarantine by blast
next
  case (runs_retry db mid c now delay mx reason db')
  then show ?case using wf_retry by blast
next
  case (runs_selection db mid itf uid r now x db')
  then show ?case using sr.preserves [where db = mid and itf = itf and uid = uid and now = now and r = r] by simp
next
  case (runs_selections db mid itfs uids rts xs db')
  then show ?case using wf_refresh_each [of uids itfs _ "sort_key fst rts" "[]" mid "Inr xs" db']
    by (simp add: enqueue_selection_refreshes_def)
next
  case (runs_musicbrainz db mid itf uid src identity now x db')
  then show ?case using wf_musicbrainz [of mid itf] by blast
next
  case (runs_lrclib db mid itf uid r now x db')
  then show ?case using lf.preserves [where db = mid and itf = itf and uid = uid and now = now and r = r] by simp
next
  case (runs_recover db mid uids now limit rcv db')
  obtain res d where e: "recover_each uids now [] 0 (take limit (recoverable_blocked_lrclib_fetches_statement mid)) mid = (res, d)"
    by fastforce
  then have "d = db'" using runs_recover(2) by (auto simp: recover_blocked_lrclib_fetches_def Let_def split: sum.splits)
  then show ?case using wf_recover_each [OF e] runs_recover by blast
next
  case (runs_folder db mid itf uid path now x db')
  then have "wf_db mid" "wf_db (itf mid)" by blast+
  then show ?case
    by (rule wf_if_plain [OF runs_folder.hyps(2) [unfolded enqueue_folder_release_selection_def]]) simp_all
next
  case (runs_scan db mid itf uid now y db')
  then have "wf_db mid" "wf_db (itf mid)" by blast+
  then show ?case
    by (rule wf_enqueue_global [OF _ _ _ _ runs_scan.hyps(2) [unfolded enqueue_reconciliation_scan_def]]) simp_all
next
  case (runs_publication db mid itf uid now y db')
  then have "wf_db mid" "wf_db (itf mid)" by blast+
  then show ?case
    by (rule wf_enqueue_global [OF _ _ _ _ runs_publication.hyps(2) [unfolded enqueue_publication_reconciliation_def]]) simp_all
next
  case (runs_enqueue db mid itf uid src k now revision x db')
  then show ?case using wf_enqueue by blast
next
  case (runs_requeue db mid itf uid src provider now b db')
  obtain x where "enqueue uid itf src (provider @ ''_analysis'') now None mid = (Inr x, db')"
    using runs_requeue.hyps(2) by (auto simp: requeue_provider_def split: prod.splits sum.splits)
  then show ?case using wf_enqueue [of mid itf] runs_requeue by blast
next
  case (runs_artwork db mid itf uid mbid now x db')
  then have "wf_db mid" "wf_db (itf mid)" by blast+
  then show ?case
    by (rule wf_if_plain [OF runs_artwork.hyps(2) [unfolded enqueue_release_artwork_def]]) simp_all
qed

section \<open>Properties\<close>

text \<open>C7. In every database the repository's transactions can reach from a well-formed one, however they
  interleave: at most one job is active in each coalesced slot (selection refresh and lyric fetch per
  library record, MusicBrainz refresh per source, release selection per folder, the two global
  scans), attempts of a job are numbered 1, 2, ..., and only the last attempt of a job can be running.\<close>

theorem queue_invariant:
  assumes "runs db db'" and "wf_db db"
  shows "length (active_in (record_slot ''selection_refresh'' r) db') \<le> 1
    \<and> length (active_in (record_slot ''lrclib_fetch'' r) db') \<le> 1
    \<and> length (active_in (source_slot ''musicbrainz_refresh'' src) db') \<le> 1
    \<and> length (active_in (folder_slot ''folder_release_selection'' path) db') \<le> 1
    \<and> length (active_in (kind_slot ''reconciliation_scan'') db') \<le> 1
    \<and> length (active_in (kind_slot ''publication_reconciliation'') db') \<le> 1
    \<and> (\<forall>j \<in> set (jobs db'). map attempt_number (attempts j) = [1..<length (attempts j) + 1]
         \<and> (\<forall>a \<in> set (butlast (attempts j)). at_state a \<noteq> ''running''))"
proof -
  have wf: "wf_db db'" using runs_wf assms by blast
  show ?thesis using at_most_one_active [OF wf] unique_slots wf
    by (simp add: wf_db_def wf_job_def wf_attempts_def)
qed

text \<open>What taking a job means, without reference to how it is written: the job is running, its other
  columns are as they were, a new attempt is the only running one, and of the attempts before it at most
  those that were running are changed, to interrupted.\<close>

definition taken :: "timestamp \<Rightarrow> job \<Rightarrow> job \<Rightarrow> bool" where
  "taken now j j' \<longleftrightarrow> job_state j' = ''running''
     \<and> j' = j\<lparr>job_state := job_state j', attempts := attempts j'\<rparr>
     \<and> (\<exists>earlier. attempts j' = earlier @ [\<lparr>attempt_number = length (attempts j) + 1, at_state = ''running'',
           started_at = now, finished_at = None\<rparr>]
         \<and> length earlier = length (attempts j)
         \<and> (\<forall>k<length (attempts j). at_state (earlier ! k) \<noteq> ''running''
             \<and> (earlier ! k = attempts j ! k
                \<or> at_state (attempts j ! k) = ''running''
                  \<and> earlier ! k = (attempts j ! k)\<lparr>at_state := ''interrupted'', finished_at := Some now\<rparr>)))"

lemma taken_running:
  assumes "taken now j j'" and "a \<in> set (attempts j')" and "at_state a = ''running''"
  shows "started_at a = now \<and> attempt_number a = length (attempts j) + 1"
proof -
  obtain earlier where e: "attempts j' = earlier @ [\<lparr>attempt_number = length (attempts j) + 1, at_state = ''running'',
           started_at = now, finished_at = None\<rparr>]"
      "length earlier = length (attempts j)" "\<forall>k<length (attempts j). at_state (earlier ! k) \<noteq> ''running''"
    using assms(1) by (auto simp: taken_def)
  then have "a \<notin> set earlier" using assms(3) by (auto simp: in_set_conv_nth)
  then show ?thesis using assms(2) e(1) by simp
qed

lemma close_stale_nth:
  assumes "\<forall>a \<in> set (butlast as). at_state a \<noteq> ''running''" and "k < length as"
  shows "at_state (close_stale now as ! k) \<noteq> ''running'' \<and> (close_stale now as ! k = as ! k
    \<or> close_stale now as ! k = (as ! k)\<lparr>at_state := ''interrupted'', finished_at := Some now\<rparr> \<and> k = length as - 1)"
  using assms by (cases as rule: rev_cases) (auto simp: close_stale_def nth_append)

lemma claim_write_taken:
  assumes "wf_job j" and "is_active j"
  shows "taken now j (claim_write now j)"
proof (cases "job_state j = ''running''")
  case True
  then have w: "\<forall>a \<in> set (butlast (attempts j)). at_state a \<noteq> ''running''" "attempts j \<noteq> []"
      "at_state (last (attempts j)) = ''running''"
    using assms(1) by (simp_all add: wf_job_def wf_attempts_def)
  have len: "length (close_stale now (attempts j)) = length (attempts j)"
    by (metis close_stale_numbers length_map)
  have "at_state (attempts j ! (length (attempts j) - 1)) = ''running''" using w(2,3) by (simp add: last_conv_nth)
  then show ?thesis using True len close_stale_nth [OF w(1)]
    unfolding taken_def by (intro conjI exI [of _ "close_stale now (attempts j)"]) (auto simp: claim_write_def)
next
  case False
  then have "\<forall>a \<in> set (attempts j). at_state a \<noteq> ''running''" using assms by (auto simp: wf_job_def is_active_def)
  then show ?thesis using False
    unfolding taken_def by (intro conjI exI [of _ "attempts j"]) (auto simp: claim_write_def)
qed

lemma claim_next_facts:
  assumes "wf_db db" and "claim_next locked now lease ks db = (c, db')"
  shows "case c of
      None \<Rightarrow> db' = db \<and> (\<forall>j \<in> set (jobs db). claimable now lease None ks j \<longrightarrow> locked (job_id j))
    | Some cl \<Rightarrow> \<exists>j \<in> set (jobs db). claimable now lease None ks j \<and> \<not> locked (job_id j) \<and> cl_job cl = job_id j
        \<and> (\<forall>k \<in> set (jobs db). claimable now lease None ks k \<and> \<not> locked (job_id k) \<longrightarrow> claim_key j \<le> claim_key k)
        \<and> cl_attempt cl = length (attempts j) + 1 \<and> reclaimed_stale cl = (job_state j = ''running'')
        \<and> (\<exists>j'. find_row job_id (job_id j) (jobs db') = Some j' \<and> taken now j j')
        \<and> (\<forall>i. i \<noteq> job_id j \<longrightarrow> find_row job_id i (jobs db') = find_row job_id i (jobs db))"
proof (cases "claimable_statement locked now lease None ks db")
  case None
  then have "c = None" "db' = db" using assms(2) by (simp_all add: claim_next_def claim_def)
  moreover have "\<forall>j \<in> set (jobs db). claimable now lease None ks j \<longrightarrow> locked (job_id j)"
    using None by (auto simp: claimable_statement_def filter_empty_conv)
  ultimately show ?thesis by simp
next
  case (Some j)
  note j = claimable_statement_Some [OF Some]
  have least: "\<forall>k \<in> set (jobs db). claimable now lease None ks k \<and> \<not> locked (job_id k) \<longrightarrow> claim_key j \<le> claim_key k"
    using first_min_le [OF Some [unfolded claimable_statement_def]] by simp
  have e: "c = Some \<lparr>cl_job = job_id j, cl_attempt = length (attempts j) + 1, cl_kind = job_kind j,
                   reclaimed_stale = (job_state j = ''running'' \<and> attempts j \<noteq> [])\<rparr>"
      "db' = db\<lparr>jobs := update_row job_id (job_id j) (claim_write now) (jobs db)\<rparr>"
    using assms(2) Some by (simp_all add: claim_next_def claim_def)
  have "distinct (map job_id (jobs db))" using assms(1) by (simp add: wf_db_def rows_ok_def)
  then have f: "find_row job_id (job_id j) (jobs db) = Some j" using find_row_in j(1) by fast
  have s: "(job_state j = ''running'' \<and> attempts j \<noteq> []) = (job_state j = ''running'')"
    using assms(1) j(1) by (auto simp: wf_db_def wf_job_def)
  have t: "taken now j (claim_write now j)"
    using claim_write_taken claimable_active [OF j(3)] assms(1) j(1) by (simp add: wf_db_def)
  show ?thesis unfolding e(1) option.case
    by (rule bexI [OF _ j(1)])
       (use j(2,3) least s f t cw.find_update_same [where k = "job_id j" and rows = "jobs db" and now = now]
           cw.find_update_other [where k = "job_id j" and rows = "jobs db" and now = now] in
         \<open>simp add: e(2)\<close>)
qed

text \<open>C8. A claim takes, among the unlocked claimable jobs, the oldest by creation time and id. Afterwards
  that job is running, its last attempt is a new one, numbered one above the attempts before, started now
  and unfinished, and the only running one: an attempt that was still running is interrupted now. The
  other columns of the job and every other job stay. Nothing is claimed only when nothing unlocked is
  claimable.\<close>

theorem claim_next_oldest:
  assumes "wf_db db" and "claim_next locked now lease ks db = (c, db')"
  shows "case c of
      None \<Rightarrow> db' = db \<and> (\<forall>j \<in> set (jobs db). claimable now lease None ks j \<longrightarrow> locked (job_id j))
    | Some cl \<Rightarrow> \<exists>j \<in> set (jobs db). claimable now lease None ks j \<and> \<not> locked (job_id j) \<and> cl_job cl = job_id j
        \<and> (\<forall>k \<in> set (jobs db). claimable now lease None ks k \<and> \<not> locked (job_id k) \<longrightarrow> claim_key j \<le> claim_key k)
        \<and> cl_attempt cl = length (attempts j) + 1 \<and> reclaimed_stale cl = (job_state j = ''running'')
        \<and> (\<exists>j'. find_row job_id (job_id j) (jobs db') = Some j' \<and> taken now j j')
        \<and> (\<forall>i. i \<noteq> job_id j \<longrightarrow> find_row job_id i (jobs db') = find_row job_id i (jobs db))"
  using assms by (rule claim_next_facts)

text \<open>C9. A claimed job is leased. Whatever happens to the other jobs meanwhile, as long as the row of the
  claimed job has not been written again (its attempt neither ended nor retried), no claim operation
  takes the job before the lease has run out.\<close>

theorem claim_lease_exclusive:
  assumes "wf_db db" and "claim_next locked now lease ks db = (Some cl, db')"
    and "wf_db mid" and "find_row job_id (cl_job cl) (jobs mid) = find_row job_id (cl_job cl) (jobs db')"
    and "later < now + lease'"
    and "claim_next locked' later lease' ks' mid = (Some cl', db'')
      \<or> claim_next_for_source locked' src later lease' ks' mid = (Some cl', db'')"
  shows "cl_job cl' \<noteq> cl_job cl"
proof -
  obtain j j' where j: "cl_job cl = job_id j" "find_row job_id (job_id j) (jobs mid) = Some j'" "taken now j j'"
    using claim_next_facts [OF assms(1,2)] assms(4) by auto
  obtain src' k where k: "claimable_statement locked' later lease' src' ks' mid = Some k" "cl_job cl' = job_id k"
    using assms(6) by (auto simp: claim_next_def claim_next_for_source_def claim_def split: option.splits)
  note k' = claimable_statement_Some [OF k(1)]
  show ?thesis
  proof
    assume "cl_job cl' = cl_job cl"
    moreover have "distinct (map job_id (jobs mid))" using assms(3) by (simp add: wf_db_def rows_ok_def)
    ultimately have "k = j'" using find_row_in [of job_id "jobs mid" k] k'(1) k(2) j(1,2) by simp
    then obtain a where a: "a \<in> set (attempts j')" "at_state a = ''running''" "started_at a \<le> later - lease'"
      using k'(3) j(3) by (auto simp: claimable_def taken_def)
    then have "started_at a = now" using taken_running [OF j(3)] by blast
    then show False using a(3) assms(5) by simp
  qed
qed

text \<open>A lyric fetch is coalesced: afterwards exactly one fetch is active for the record, whatever
  committed between the read and the insert; a new job is queued only when there was none, and the
  operation raises only when the insert breaks a constraint and no fetch is active.\<close>

lemma enqueue_lrclib_fetch_coalesces:
  assumes "wf_db db" and "wf_db (itf db)" and "enqueue_lrclib_fetch uid itf r now db = (res, db')"
  shows "case res of
      Inl e \<Rightarrow> db' = itf db \<and> active_in (record_slot ''lrclib_fetch'' r) db' = []
    | Inr None \<Rightarrow> db' \<in> {db, itf db} \<and> length (active_in (record_slot ''lrclib_fetch'' r) db') = 1
    | Inr (Some j) \<Rightarrow> active_in (record_slot ''lrclib_fetch'' r) db = []
        \<and> active_in (record_slot ''lrclib_fetch'' r) db' = [j] \<and> jobs db' = jobs (itf db) @ [j]"
  using lf.outcome [OF assms] by (auto split: sum.splits option.splits)

text \<open>After a MusicBrainz refresh is requested exactly one refresh is active for the source, and with no
  concurrent writer it is the one for the confirmed identity: a refresh for another identity is
  superseded, not left beside it.\<close>

lemma enqueue_musicbrainz_refresh_current:
  assumes "wf_db db" and "\<And>d. wf_db d \<Longrightarrow> wf_db (itf d)"
    and "enqueue_musicbrainz_refresh uid itf src identity now db = (Inr x, db')"
  shows "length (active_in (source_slot ''musicbrainz_refresh'' src) db') = 1
    \<and> (itf = id \<longrightarrow> (\<forall>j \<in> set (active_in (source_slot ''musicbrainz_refresh'' src) db').
         expected_recording_id j = Some (recording_mbid identity)
         \<and> expected_release_id j = Some (release_mbid_of identity)))"
proof -
  let ?s = "source_slot ''musicbrainz_refresh'' src"
  have u: "unique_slot ?s" by (rule unique_slots)
  show ?thesis using assms(3)
  proof (cases rule: musicbrainz_insert)
    case (same a)
    have a: "a \<in> set (active_in ?s db)" using same(3) by (rule newest_active_Some)
    then have "active_in ?s db = [a]"
      using at_most_one_active [OF assms(1) u] by (cases "active_in ?s db") auto
    then show ?thesis using same by simp
  next
    case (insert j)
    have wf: "wf_db (superseded_first src db)" using wf_superseded_first assms(1) .
    note out = insert_or_coalesce_cases [OF assms(2) [OF wf] u insert(2-4,1)]
    show ?thesis
    proof (cases x)
      case (Some k)
      then show ?thesis using out insert(5,6) by simp
    next
      case None
      have "active_in ?s (superseded_first src db) = []"
      proof (cases "newest_active ?s db")
        case None
        then show ?thesis using newest_active_None [of ?s db] by (simp add: superseded_first_def)
      next
        case (Some a)
        have "a \<in> set (active_in ?s db)" using Some by (rule newest_active_Some)
        then have only: "k = a" if "k \<in> set (active_in ?s db)" for k
          using that at_most_one_active [OF assms(1) u] by (cases "active_in ?s db") auto
        show ?thesis using Some only
          by (auto simp: superseded_first_def active_in_def update_row_def filter_empty_conv supersede_write_def
              is_active_def source_slot_def split: if_splits)
      qed
      then show ?thesis using out None by auto
    qed
  qed
qed

text \<open>A claim whose MusicBrainz refresh was superseded meanwhile must not be retried: putting the job
  back into the queue beside its successor breaks the unique index, so the flush fails.\<close>

lemma superseded_retry_conflicts:
  assumes "wf_db db" and "newest_active (source_slot ''musicbrainz_refresh'' src) db = Some a"
    and "enqueue_musicbrainz_refresh uid id src identity now db = (Inr (Some j), db')"
    and "cl_job c = job_id a" and "cl_attempt c < mx"
  shows "flush (retry c later delay mx reason db') = Inl IntegrityError"
  using assms(3)
proof (cases rule: musicbrainz_insert)
  case same
  then show ?thesis by simp
next
  case (insert k)
  let ?s = "source_slot ''musicbrainz_refresh'' src"
  have wf: "wf_db (superseded_first src db)" using wf_superseded_first assms(1) .
  then have wf': "wf_db (id (superseded_first src db))" by simp
  note out = insert_or_coalesce_cases [OF wf' unique_slots(3) insert(2-4,1)]
  have k: "k = j" "jobs db' = jobs (superseded_first src db) @ [j]" and wfd: "wf_db db'" using out by auto
  have a: "a \<in> set (jobs db)" "?s a" using newest_active_Some [OF assms(2)] by (simp_all add: set_active_in)
  let ?a = "supersede_write a"
  have sa: "?a \<in> set (jobs (superseded_first src db))"
    using a(1) assms(2) by (auto simp: superseded_first_def update_row_def)
  have ida: "job_id ?a = job_id a" by (simp add: supersede_write_def)
  have "distinct (map job_id (jobs db'))" using wfd by (simp add: wf_db_def rows_ok_def)
  then have "job_id j \<notin> job_id ` set (jobs (superseded_first src db))" by (simp add: k(2))
  then have ne: "job_id a \<noteq> job_id j" using imageI [OF sa, of job_id] ida by metis
  let ?r = "retry_write (cl_attempt c) later delay mx reason ?a"
  let ?rows = "jobs (retry c later delay mx reason db')"
  have rows: "?rows = map (\<lambda>k. if job_id k = job_id a then retry_write (cl_attempt c) later delay mx reason k else k) (jobs db')"
    by (simp add: retry_def write_claimed_def update_row_def assms(4))
  have "?r \<in> set ?rows" unfolding rows set_map k(2) using sa ida by (force intro: rev_image_eqI [of ?a])
  moreover have "j \<in> set ?rows" unfolding rows set_map k(2) using ne by (force intro: rev_image_eqI [of j])
  moreover have "index_conflict ?r j"
  proof -
    have "index_key j = Some (''musicbrainz_refresh'', src)" "index_key ?r = Some (''musicbrainz_refresh'', src)"
      using insert(2,3) k(1) a(2) assms(5)
      by (simp_all add: index_key_def is_active_def source_slot_def retry_write_def supersede_write_def)
    then show ?thesis by (simp add: index_conflict_iff)
  qed
  moreover have "job_id ?r \<noteq> job_id j" using ne by (simp add: retry_write_def supersede_write_def)
  ultimately have "\<not> rows_ok ?rows" unfolding rows_ok_def by blast
  then show ?thesis by (simp add: flush_def)
qed

text \<open>A retried attempt is scheduled after its delay while attempts are left, and blocked with the
  reason recorded when they are used up; either way the attempt is closed.\<close>

lemma retry_bounded:
  assumes "wf_db db" and "find_row job_id (cl_job c) (jobs db) = Some j" and "cl_attempt c = length (attempts j)"
    and "attempts j \<noteq> []"
  shows "\<exists>j'. find_row job_id (cl_job c) (jobs (retry c now delay mx reason db)) = Some j'
    \<and> finished_at (last (attempts j')) = Some now \<and> at_state (last (attempts j')) \<noteq> ''running''
    \<and> (if length (attempts j) < mx
       then job_state j' = ''queued'' \<and> next_attempt_at j' = Some (now + delay)
         \<and> (\<forall>t lease src ks. claimable t lease src ks j' \<longrightarrow> now + delay \<le> t)
       else job_state j' = ''blocked_infrastructure'' \<and> failure_reason j' = Some reason
         \<and> (\<forall>t lease src ks. \<not> claimable t lease src ks j'))"
proof -
  let ?j = "retry_write (cl_attempt c) now delay mx reason j"
  have f: "find_row job_id (cl_job c) (jobs (retry c now delay mx reason db)) = Some ?j"
    using rw.find_update_same [where k = "cl_job c" and rows = "jobs db"] assms(2)
    by (simp add: retry_def write_claimed_def)
  have "j \<in> set (jobs db)" using find_row_Some [OF assms(2)] by simp
  then have "wf_attempts (attempts j)" using assms(1) by (simp add: wf_db_def wf_job_def)
  then have n: "attempt_number (last (attempts j)) = length (attempts j)"
    using assms(4) unfolding wf_attempts_def
    by (cases "attempts j" rule: rev_cases) simp_all
  have last: "last (end_attempt (length (attempts j)) st now (attempts j)) =
      (last (attempts j))\<lparr>at_state := st, finished_at := Some now\<rparr>" for st
    using n assms(3,4) by (simp add: end_attempt_def last_map)
  show ?thesis by (rule exI [of _ ?j]) (simp add: f retry_write_def last assms(3) claimable_def)
qed

lemma lrclib_fetch_append:
  assumes "wf_db db" and "enqueue_lrclib_fetch uid id r now db = (Inr x, db')"
  shows "wf_db db' \<and> length (active_in (record_slot ''lrclib_fetch'' r) db') = 1
    \<and> (case x of None \<Rightarrow> db' = db
       | Some j \<Rightarrow> jobs db' = jobs db @ [j] \<and> job_kind j = ''lrclib_fetch'' \<and> job_state j = ''queued'' \<and> created_at j = now)"
proof -
  have wf: "wf_db db'" using lf.preserves [where db = db and itf = id and uid = uid and now = now and r = r] assms by simp
  have "x = Some j \<Longrightarrow> job_kind j = ''lrclib_fetch'' \<and> job_state j = ''queued'' \<and> created_at j = now" for j
    using assms(2) by (auto simp: enqueue_lrclib_fetch_def insert_or_coalesce_def new_job_def
        split: if_splits sum.splits option.splits)
  then show ?thesis using lf.outcome [OF assms(1) _ assms(2)] assms(1) wf by (auto split: option.splits)
qed

lemma active_stays:
  assumes "length (active_in slot db) = 1" and "jobs db' = jobs db @ new" and "wf_db db'" and "unique_slot slot"
  shows "length (active_in slot db') = 1"
  using assms(1,2) at_most_one_active [OF assms(3,4)] by (simp add: active_in_def)

lemma recover_each_result:
  "recover_each uids now seen n bs db = (Inr m, db') \<Longrightarrow> wf_db db \<Longrightarrow>
   (\<forall>r \<in> set seen. length (active_in (record_slot ''lrclib_fetch'' r) db) = 1) \<Longrightarrow>
   \<exists>new. jobs db' = jobs db @ new \<and> m = n + length new \<and> length new \<le> length bs
     \<and> (\<forall>j \<in> set new. job_kind j = ''lrclib_fetch'' \<and> job_state j = ''queued'' \<and> created_at j = now)
     \<and> (\<forall>r. r \<in> set seen \<or> Some r \<in> library_record_id ` set bs \<longrightarrow>
          length (active_in (record_slot ''lrclib_fetch'' r) db') = 1)"
proof (induction bs arbitrary: seen n db)
  case Nil
  then show ?case by auto
next
  case (Cons b bs)
  show ?case
  proof (cases "library_record_id b = None \<or> (\<exists>r \<in> set seen. library_record_id b = Some r)")
    case True
    then have "recover_each uids now seen n bs db = (Inr m, db')" using Cons.prems(1) by (auto split: option.splits)
    from Cons.IH [OF this Cons.prems(2,3)] obtain new where n:
      "jobs db' = jobs db @ new" "m = n + length new" "length new \<le> length bs"
      "\<forall>j \<in> set new. job_kind j = ''lrclib_fetch'' \<and> job_state j = ''queued'' \<and> created_at j = now"
      "\<forall>r. r \<in> set seen \<or> Some r \<in> library_record_id ` set bs \<longrightarrow>
          length (active_in (record_slot ''lrclib_fetch'' r) db') = 1" by blast
    then show ?thesis using True by (intro exI [of _ new]) auto
  next
    case False
    then obtain r where r: "library_record_id b = Some r" "r \<notin> set seen" by auto
    obtain res d where e: "enqueue_lrclib_fetch (uids r) id r now db = (res, d)" by fastforce
    obtain x where x: "res = Inr x" using Cons.prems(1) r e by (cases res) auto
    note app = lrclib_fetch_append [OF Cons.prems(2) e [unfolded x]]
    obtain new1 where n1: "jobs d = jobs db @ new1" "length new1 \<le> 1" "length new1 = (if x = None then 0 else 1)"
      "\<forall>j \<in> set new1. job_kind j = ''lrclib_fetch'' \<and> job_state j = ''queued'' \<and> created_at j = now"
    proof (cases x)
      case None
      then show ?thesis using app that [of "[]"] by simp
    next
      case (Some j)
      then show ?thesis using app that [of "[j]"] by simp
    qed
    have rec: "recover_each uids now (r # seen) (n + length new1) bs d = (Inr m, db')"
      using Cons.prems(1) r e x n1(3) by (cases x) simp_all
    have seen: "\<forall>q \<in> set (r # seen). length (active_in (record_slot ''lrclib_fetch'' q) d) = 1"
      using app Cons.prems(3) active_stays [OF _ n1(1)] unique_slots(2) by auto
    from Cons.IH [OF rec _ seen] app obtain new where n:
      "jobs db' = jobs d @ new" "m = n + length new1 + length new" "length new \<le> length bs"
      "\<forall>j \<in> set new. job_kind j = ''lrclib_fetch'' \<and> job_state j = ''queued'' \<and> created_at j = now"
      "\<forall>q. q \<in> set (r # seen) \<or> Some q \<in> library_record_id ` set bs \<longrightarrow>
          length (active_in (record_slot ''lrclib_fetch'' q) db') = 1" by blast
    show ?thesis
      by (rule exI [of _ "new1 @ new"]) (use n n1 r in auto)
  qed
qed

text \<open>One recovery batch looks at no more blocked fetches than its limit, queues at most one new fetch for each,
  created now, leaves every job it found untouched, and afterwards exactly one fetch is active for
  every record of the batch.\<close>

lemma recover_blocked_bounded:
  assumes "wf_db db" and "recover_blocked_lrclib_fetches uids now limit db = (Inr rcv, db')"
  shows "selected rcv \<le> limit \<and> recovered rcv \<le> selected rcv
    \<and> (\<exists>new. jobs db' = jobs db @ new \<and> length new = recovered rcv
        \<and> (\<forall>j \<in> set new. job_kind j = ''lrclib_fetch'' \<and> job_state j = ''queued'' \<and> created_at j = now))
    \<and> (\<forall>b \<in> set (take limit (recoverable_blocked_lrclib_fetches_statement db)). \<forall>r.
         library_record_id b = Some r \<longrightarrow> length (active_in (record_slot ''lrclib_fetch'' r) db') = 1)"
proof -
  let ?b = "take limit (recoverable_blocked_lrclib_fetches_statement db)"
  obtain m where e: "recover_each uids now [] 0 ?b db = (Inr m, db')"
    and r: "rcv = \<lparr>selected = length ?b, recovered = m\<rparr>"
    using assms(2) by (auto simp: recover_blocked_lrclib_fetches_def Let_def split: prod.splits sum.splits)
  have im: "Some r \<in> library_record_id ` set ?b" if "b \<in> set ?b" "library_record_id b = Some r" for b r
    using that by (metis imageI)
  from recover_each_result [OF e assms(1)] obtain new where
    "jobs db' = jobs db @ new" "m = length new" "length new \<le> length ?b"
    "\<forall>j \<in> set new. job_kind j = ''lrclib_fetch'' \<and> job_state j = ''queued'' \<and> created_at j = now"
    "\<forall>r. Some r \<in> library_record_id ` set ?b \<longrightarrow> length (active_in (record_slot ''lrclib_fetch'' r) db') = 1"
    by auto
  then show ?thesis using r im by auto
qed

section \<open>Instances\<close>

text \<open>One source with a running MusicBrainz refresh, one record with a blocked lyric fetch.\<close>

definition sample_identity :: identity where
  "sample_identity = \<lparr>recording_mbid = ''rec2'', release_mbid_of = ''rel''\<rparr>"

definition sample_refresh :: job where
  "sample_refresh = (new_job ''m1'' ''musicbrainz_refresh'' 1)\<lparr>source_id := Some ''s'', job_state := ''running'',
     expected_recording_id := Some ''rec1'', expected_release_id := Some ''rel'',
     attempts := [\<lparr>attempt_number = 1, at_state = ''running'', started_at = 10, finished_at = None\<rparr>]\<rparr>"

definition sample_blocked :: job where
  "sample_blocked = (new_job ''l1'' ''lrclib_fetch'' 2)\<lparr>library_record_id := Some ''r'',
     job_state := ''blocked_infrastructure'', failure_reason := Some (''x; '' @ former_missing_adapter_reason)\<rparr>"

definition sample_db :: database where
  "sample_db = \<lparr>jobs = [sample_refresh, sample_blocked], sources = [(''s'', 3)], library_records = [''r''],
     metadata_revisions = []\<rparr>"

lemmas sample_simps = sample_db_def sample_refresh_def sample_blocked_def sample_identity_def new_job_def
  source_slot_def record_slot_def newest_active_def is_active_def first_min_def

lemma sample_wf: "wf_db sample_db"
  by (simp add: sample_simps wf_db_def rows_ok_def wf_job_def wf_attempts_def index_conflict_iff index_key_def
      ck_jobs_target_or_reconciliation_def ck_jobs_expected_musicbrainz_pair_def sql_trim_def)

definition sample_lease :: "claimed_job option \<times> database" where
  "sample_lease = claim_next (\<lambda>_. False) 100 20 None sample_db"

lemma sample_claimed:
  "sample_lease = (Some \<lparr>cl_job = ''m1'', cl_attempt = 2, cl_kind = ''musicbrainz_refresh'', reclaimed_stale = True\<rparr>,
     sample_db\<lparr>jobs := [claim_write 100 sample_refresh, sample_blocked]\<rparr>)"
  by (simp add: sample_lease_def claim_next_def claimable_statement_def claim_def sample_simps claimable_def
      update_row_def claim_write_def close_stale_def)

theorem queue_invariant_witness:
  "runs sample_db (snd sample_lease) \<and> length (active_in (source_slot ''musicbrainz_refresh'' ''s'') (snd sample_lease)) \<le> 1"
proof -
  have "runs sample_db (snd sample_lease)"
    unfolding sample_lease_def by (rule runs_claim [OF runs_refl, OF surjective_pairing])
  then show ?thesis using queue_invariant [OF _ sample_wf] by blast
qed

theorem claim_next_oldest_witness:
  "\<exists>j'. find_row job_id ''m1'' (jobs (snd sample_lease)) = Some j' \<and> taken 100 sample_refresh j'"
proof -
  have "claim_next (\<lambda>_. False) 100 20 None sample_db = (fst sample_lease, snd sample_lease)" by (simp add: sample_lease_def)
  from claim_next_oldest [OF sample_wf this] obtain j j' where
    "j \<in> set (jobs sample_db)" "job_id j = ''m1''" "find_row job_id (job_id j) (jobs (snd sample_lease)) = Some j'" "taken 100 j j'"
    by (auto simp: sample_claimed)
  then show ?thesis by (auto simp: sample_db_def sample_blocked_def new_job_def)
qed

text \<open>Another job is queued while the lease runs.\<close>

definition sample_meanwhile :: database where
  "sample_meanwhile = sample_db\<lparr>jobs := [claim_write 100 sample_refresh, sample_blocked,
     (new_job ''m2'' ''lrclib_fetch'' 110)\<lparr>library_record_id := Some ''r''\<rparr>]\<rparr>"

theorem claim_lease_exclusive_witness:
  "\<exists>cl. fst (claim_next (\<lambda>_. False) 119 20 None sample_meanwhile) = Some cl \<and> cl_job cl \<noteq> ''m1''"
proof -
  have f: "claim_next (\<lambda>_. False) 100 20 None sample_db
      = (Some \<lparr>cl_job = ''m1'', cl_attempt = 2, cl_kind = ''musicbrainz_refresh'', reclaimed_stale = True\<rparr>, snd sample_lease)"
    using sample_claimed by (simp add: sample_lease_def)
  have w: "wf_db sample_meanwhile"
    by (simp add: sample_meanwhile_def sample_simps wf_db_def rows_ok_def wf_job_def wf_attempts_def index_conflict_iff index_key_def
      ck_jobs_target_or_reconciliation_def ck_jobs_expected_musicbrainz_pair_def sql_trim_def claim_write_def close_stale_def)
  have same: "find_row job_id ''m1'' (jobs sample_meanwhile) = find_row job_id ''m1'' (jobs (snd sample_lease))"
    by (simp add: sample_claimed sample_meanwhile_def find_row_def sample_refresh_def claim_write_def new_job_def)
  obtain cl d where e: "claim_next (\<lambda>_. False) 119 20 None sample_meanwhile = (Some cl, d)"
    by (simp add: claim_next_def claimable_statement_def claim_def sample_simps claimable_def sample_meanwhile_def claim_write_def
        close_stale_def)
  have "cl_job cl \<noteq> ''m1''"
    using claim_lease_exclusive [OF sample_wf f w, of 119 20 "\<lambda>_. False" None cl d] same e by simp
  then show ?thesis using e by simp
qed

lemma sample_superseded:
  "\<exists>j db'. enqueue_musicbrainz_refresh ''u'' id ''s'' sample_identity 7 sample_db = (Inr (Some j), db')"
  by (simp add: enqueue_musicbrainz_refresh_def sample_simps insert_or_coalesce_def insert_job_def insert_ok_def
      ck_jobs_target_or_reconciliation_def ck_jobs_expected_musicbrainz_pair_def fk_ok_def index_conflict_iff
      index_key_def supersede_write_def update_row_def sql_trim_def)

end
