(* ===== verification/Worker.thy ===== *)
theory Worker imports JobQueue Bytes Json begin

text \<open>
  The processing worker: \<^verbatim>\<open>workers/worker.py\<close> with the outcomes of \<^verbatim>\<open>workers/support/outcomes.py\<close>
  and the result types of \<^verbatim>\<open>workers/execution.py\<close>.

  A handler is an argument: a function of the claim and the world that gives an outcome or raises.
  So are the operations of other services the outcomes call (the effective source decision, the
  intake of a changed source, storage maintenance). The savepoint is the world the handler started
  in, which every failure goes back to. A result \<^verbatim>\<open>Inl e\<close> of \<^verbatim>\<open>run_once\<close> is an exception that
  leaves it, upon which the caller's session is rolled back.
\<close>

section \<open>The world of a worker\<close>

record world =
  wdb :: database
  intake_states :: "string \<rightharpoonup> string" \<comment> \<open>the rows of \<open>source_records\<close>\<close>
  record_of :: "string \<rightharpoonup> string" \<comment> \<open>\<open>source.library_record\<close>\<close>
  replaced_by :: "string \<rightharpoonup> string"
  processing_states :: "string \<rightharpoonup> string \<times> timestamp" \<comment> \<open>\<open>processing_state\<close>, \<open>updated_at\<close> of a record\<close>
  events :: "event list"
  decoder_rows :: "(string \<times> tool_evidence \<times> timestamp) list"

text \<open>The exceptions \<open>run_once\<close> tells apart.\<close>

datatype exn_class =
    MetadataWriteError | ProcessingInfrastructureError | PipelineOutputFailure
  | MediaPipelineInfrastructureError | RemuxFailure | OSError | PublicationError
  | FlacSanitizationFailure | CalledProcessError | TimeoutExpiredError | ValueError
  | SourceAudioCorruptionError tool_evidence
  | DecoderValidationError "tool_evidence option"
  | SourceMetadataError
  | OtherException string

record exn =
  e_class :: exn_class
  e_name :: string \<comment> \<open>\<open>type(error).__name__\<close>\<close>
  e_text :: string \<comment> \<open>\<open>str(error)\<close>\<close>
  e_cause :: "(string \<times> string) option" \<comment> \<open>type name and text of \<open>__cause__\<close>\<close>

datatype outcome = QuarantineSource string string | ChangedSource string string

type_synonym handler = "claimed_job \<Rightarrow> world \<Rightarrow> (exn + outcome option) \<times> world"

record worker_env =
  handlers :: "string \<Rightarrow> handler option"
  max_attempts :: nat
  retry_delay :: duration
  lease_age :: duration
  clock :: timestamp \<comment> \<open>\<open>datetime.now(UTC)\<close> where a finished attempt is stamped\<close>
  fresh_uid :: string
  fresh_record :: string
  reevaluate :: "string \<Rightarrow> timestamp \<Rightarrow> world \<Rightarrow> world"
  intake_changed :: "string \<Rightarrow> string \<Rightarrow> string \<Rightarrow> timestamp \<Rightarrow> world \<Rightarrow> exn + (string \<times> bool \<times> world)"
  has_locations :: "string \<Rightarrow> world \<Rightarrow> bool"
  storage_state :: "string option"
  maintain_storage :: "world \<Rightarrow> world"
  reconcile_source :: "string \<Rightarrow> world \<Rightarrow> world"

definition infrastructure_error :: "string \<Rightarrow> exn" where
  "infrastructure_error msg = \<lparr>e_class = ProcessingInfrastructureError, e_name = ''ProcessingInfrastructureError'',
     e_text = msg, e_cause = None\<rparr>"

definition value_error :: "string \<Rightarrow> exn" where
  "value_error msg = \<lparr>e_class = ValueError, e_name = ''ValueError'', e_text = msg, e_cause = None\<rparr>"

definition integrity_exn :: exn where
  "integrity_exn = \<lparr>e_class = OtherException ''IntegrityError'', e_name = ''IntegrityError'', e_text = [], e_cause = None\<rparr>"

definition job_of :: "claimed_job \<Rightarrow> world \<Rightarrow> job option" where
  "job_of c w = find_row job_id (cl_job c) (jobs (wdb w))"

definition claimed_source :: "claimed_job \<Rightarrow> world \<Rightarrow> string option" where
  "claimed_source c w = (case job_of c w of None \<Rightarrow> None | Some j \<Rightarrow> source_id j)"

definition claimed_record :: "claimed_job \<Rightarrow> world \<Rightarrow> string option" where
  "claimed_record c w = (case job_of c w of None \<Rightarrow> None | Some j \<Rightarrow> library_record_id j)"

definition on_db :: "(database \<Rightarrow> database) \<Rightarrow> world \<Rightarrow> world" where
  "on_db f w = w\<lparr>wdb := f (wdb w)\<rparr>"

section \<open>Outcomes\<close>

definition history_reason :: "claimed_job \<Rightarrow> string option \<Rightarrow> string \<Rightarrow> exn option \<Rightarrow> string" where
  "history_reason c src reason err =
    (let error_name = (case err of None \<Rightarrow> ''InputValidationError'' | Some e \<Rightarrow> e_name e);
         source = (case src of Some s \<Rightarrow> (if s = [] then ''record-only'' else s) | None \<Rightarrow> ''record-only'');
         cause = (case err of None \<Rightarrow> [] | Some e \<Rightarrow> (case e_cause e of None \<Rightarrow> []
             | Some (n, t) \<Rightarrow> '' caused_by='' @ n @ '': '' @ t)) in
     ''job='' @ cl_job c @ '' attempt='' @ nat_digits (cl_attempt c) @ '' source='' @ source @ ''; ''
       @ error_name @ '': '' @ reason @ cause)"

text \<open>\<open>record_event\<close> of the library service; the \<open>LookupError\<close> for a missing record.\<close>

definition record_event ::
  "string \<Rightarrow> string \<Rightarrow> string \<Rightarrow> string option \<Rightarrow> timestamp \<Rightarrow> string option \<Rightarrow> world \<Rightarrow> exn + world" where
  "record_event r k st reason now src w =
     (if r \<notin> set (library_records (wdb w))
      then Inl \<lparr>e_class = OtherException ''LookupError'', e_name = ''LookupError'', e_text = r, e_cause = None\<rparr>
      else Inr (w\<lparr>processing_states := (processing_states w)(r \<mapsto> (st, now)),
        events := events w @ [\<lparr>ev_record = r, ev_source = src, ev_kind = k, ev_state = st, ev_reason = reason, ev_at = now\<rparr>]\<rparr>))"

definition ensure_source_record :: "worker_env \<Rightarrow> string \<Rightarrow> world \<Rightarrow> string \<times> world" where
  "ensure_source_record env src w = (case record_of w src of
     Some r \<Rightarrow> (r, w)
   | None \<Rightarrow> (fresh_record env, w\<lparr>record_of := (record_of w)(src \<mapsto> fresh_record env),
        wdb := (wdb w)\<lparr>library_records := library_records (wdb w) @ [fresh_record env]\<rparr>\<rparr>))"

definition set_failure_reason :: "string \<Rightarrow> job \<Rightarrow> job" where
  "set_failure_reason r j = j\<lparr>failure_reason := Some r\<rparr>"

definition retry_claim ::
  "worker_env \<Rightarrow> claimed_job \<Rightarrow> string \<Rightarrow> timestamp \<Rightarrow> exn option \<Rightarrow> world \<Rightarrow> exn + world" where
  "retry_claim env c reason0 now err w =
    (let reason = history_reason c (claimed_source c w) reason0 err;
         w1 = on_db (retry c (clock env) (retry_delay env) (max_attempts env) reason) w in
     case claimed_record c w1 of
       Some r \<Rightarrow> (if r \<notin> set (library_records (wdb w1)) then Inr w1
          else record_event r ''selection_refresh_retry'' ''retrying'' (Some reason) now None w1)
     | None \<Rightarrow> (case claimed_source c w1 of
         None \<Rightarrow> Inr w1
       | Some s \<Rightarrow> (if intake_states w1 s = None then Inr w1
           else (case ensure_source_record env s w1 of (r, w2) \<Rightarrow>
             (let blocked = (map_option job_state (job_of c w2) = Some ''blocked_infrastructure'') in
              record_event r (if blocked then ''processing_blocked'' else ''processing_retry'')
                (if blocked then ''blocked_infrastructure'' else ''retrying'') (Some reason) now (Some s) w2)))))"

text \<open>The common shape of \<open>quarantine\<close> and \<open>invalid_audio\<close>.\<close>

definition close_source ::
  "worker_env \<Rightarrow> claimed_job \<Rightarrow> string \<Rightarrow> string \<Rightarrow> string \<Rightarrow> string \<Rightarrow> timestamp \<Rightarrow> exn option \<Rightarrow> world \<Rightarrow> exn + world" where
  "close_source env c src st event_type reason0 now err w =
    (let reason = history_reason c (claimed_source c w) reason0 err;
         w1 = w\<lparr>intake_states := (intake_states w)(src \<mapsto> st),
                wdb := write_claimed c (set_failure_reason reason) (wdb w)\<rparr> in
     case ensure_source_record env src w1 of (r, w2) \<Rightarrow>
       (case record_event r event_type st (Some reason) now (Some src) (reevaluate env r now w2) of
          Inl e \<Rightarrow> Inl e
        | Inr w3 \<Rightarrow> Inr (on_db (quarantine c (clock env)) w3)))"

definition quarantine_outcome ::
  "worker_env \<Rightarrow> claimed_job \<Rightarrow> string \<Rightarrow> string \<Rightarrow> timestamp \<Rightarrow> exn option \<Rightarrow> world \<Rightarrow> exn + world" where
  "quarantine_outcome env c src reason now err w =
     close_source env c src ''quarantined''
       (if str_startswith reason ''root boundary:'' then ''root_boundary'' else ''processing_quarantined'')
       reason now err w"

definition invalid_audio_outcome ::
  "worker_env \<Rightarrow> claimed_job \<Rightarrow> string \<Rightarrow> string \<Rightarrow> timestamp \<Rightarrow> exn option \<Rightarrow> world \<Rightarrow> exn + world" where
  "invalid_audio_outcome env c src reason now err w =
     close_source env c src ''invalid_audio'' ''invalid_audio'' reason now err w"

text \<open>A claim that ends as \<open>superseded\<close>: its attempt succeeded, its job is out of the queue.\<close>

definition supersede_claim_write :: "nat \<Rightarrow> timestamp \<Rightarrow> job \<Rightarrow> job" where
  "supersede_claim_write n now j = j\<lparr>attempts := end_attempt n ''succeeded'' now (attempts j),
     job_state := ''superseded'', next_attempt_at := None\<rparr>"

definition supersede_claim :: "claimed_job \<Rightarrow> timestamp \<Rightarrow> database \<Rightarrow> database" where
  "supersede_claim c now = write_claimed c (supersede_claim_write (cl_attempt c) now)"

text \<open>An enqueue inside the transaction; a failing insert leaves as an exception.\<close>

definition enqueue_scan :: "worker_env \<Rightarrow> string \<Rightarrow> timestamp \<Rightarrow> world \<Rightarrow> exn + world" where
  "enqueue_scan env src now w = (case enqueue (fresh_uid env @ src) id src ''filesystem_scan'' now None (wdb w) of
     (Inl _, _) \<Rightarrow> Inl integrity_exn | (Inr _, db) \<Rightarrow> Inr (w\<lparr>wdb := db\<rparr>))"

definition requeue_changed_source ::
  "worker_env \<Rightarrow> claimed_job \<Rightarrow> string \<Rightarrow> string \<Rightarrow> timestamp \<Rightarrow> world \<Rightarrow> exn + world" where
  "requeue_changed_source env c src path now w =
    (case ensure_source_record env src w of (r, w1) \<Rightarrow>
      (case intake_changed env src path r now w1 of
         Inl e \<Rightarrow> Inl e
       | Inr (replacement, created, w2) \<Rightarrow>
         (let w3 = (if has_locations env src w2 then w2
                    else w2\<lparr>intake_states := (intake_states w2)(src \<mapsto> ''replaced''),
                            replaced_by := (replaced_by w2)(src \<mapsto> replacement)\<rparr>);
              w4 = on_db (supersede_claim c (clock env)) w3 in
          bindR (if has_locations env src w4 then enqueue_scan env src now w4 else Inr w4)
            (\<lambda>w5. if created then enqueue_scan env replacement now w5 else Inr w5))))"

fun apply_outcome :: "worker_env \<Rightarrow> claimed_job \<Rightarrow> outcome option \<Rightarrow> timestamp \<Rightarrow> world \<Rightarrow> exn + world" where
  "apply_outcome env c None now w = Inr w"
| "apply_outcome env c (Some (QuarantineSource src reason)) now w =
     (if intake_states w src = None then Inl (infrastructure_error ''processing outcome source is missing'')
      else quarantine_outcome env c src reason now None w)"
| "apply_outcome env c (Some (ChangedSource src path)) now w =
     (if intake_states w src = None then Inl (infrastructure_error ''processing outcome source is missing'')
      else requeue_changed_source env c src path now w)"

section \<open>One iteration\<close>

text \<open>\<open>_process\<close>: a job whose source was replaced, or has a newer metadata revision than the job was
  queued for, is superseded without running its handler.\<close>

definition outdated :: "claimed_job \<Rightarrow> world \<Rightarrow> bool" where
  "outdated c w = (case job_of c w of None \<Rightarrow> False | Some j \<Rightarrow>
     (case source_id j of None \<Rightarrow> False | Some s \<Rightarrow>
       (case (intake_states w s, map_of (sources (wdb w)) s) of
          (Some st, Some cur) \<Rightarrow> st = ''replaced''
            \<or> (case source_metadata_revision j of None \<Rightarrow> False | Some r \<Rightarrow> r \<noteq> cur)
        | _ \<Rightarrow> False)))"

definition process_claim :: "worker_env \<Rightarrow> claimed_job \<Rightarrow> timestamp \<Rightarrow> world \<Rightarrow> (exn + outcome option) \<times> world" where
  "process_claim env c now w =
     (if outdated c w then (Inr None, on_db (supersede_claim c now) w)
      else (case handlers env (cl_kind c) of
          Some h \<Rightarrow> h c w
        | None \<Rightarrow> (Inl (infrastructure_error (''unsupported processing job kind: '' @ cl_kind c)), w)))"

definition process_and_apply :: "worker_env \<Rightarrow> claimed_job \<Rightarrow> timestamp \<Rightarrow> world \<Rightarrow> exn + world" where
  "process_and_apply env c now w = (case process_claim env c now w of
     (Inl e, _) \<Rightarrow> Inl e | (Inr out, w1) \<Rightarrow> apply_outcome env c out now w1)"

text \<open>\<open>SourceAccess.source\<close>\<close>

definition source_access :: "claimed_job \<Rightarrow> world \<Rightarrow> exn + string" where
  "source_access c w = (case claimed_source c w of
     None \<Rightarrow> Inl (value_error ''processing job has no source'')
   | Some s \<Rightarrow> (if intake_states w s = None then Inl (value_error ''processing job source is missing'') else Inr s))"

definition record_decoder_evidence :: "string \<Rightarrow> tool_evidence \<Rightarrow> timestamp \<Rightarrow> world \<Rightarrow> world" where
  "record_decoder_evidence src ev now w = w\<lparr>decoder_rows := decoder_rows w @ [(src, ev, now)]\<rparr>"

text \<open>The exception to action table.\<close>

definition handle_failure :: "worker_env \<Rightarrow> claimed_job \<Rightarrow> exn \<Rightarrow> timestamp \<Rightarrow> world \<Rightarrow> exn + world" where
  "handle_failure env c e now w = (case e_class e of
     SourceAudioCorruptionError ev \<Rightarrow>
       bindR (source_access c w) (\<lambda>s. invalid_audio_outcome env c s (e_text e) now (Some e)
         (record_decoder_evidence s ev now w))
   | DecoderValidationError evidence \<Rightarrow>
       bindR (source_access c w) (\<lambda>s. quarantine_outcome env c s (e_text e) now (Some e)
         (case evidence of None \<Rightarrow> w | Some ev \<Rightarrow> record_decoder_evidence s ev now w))
   | SourceMetadataError \<Rightarrow>
       bindR (source_access c w) (\<lambda>s. quarantine_outcome env c s (e_text e) now (Some e) w)
   | OtherException _ \<Rightarrow> retry_claim env c (''unexpected processing error: '' @ e_text e) now (Some e) w
   | _ \<Rightarrow> retry_claim env c (e_text e) now (Some e) w)"

definition attempt_running :: "claimed_job \<Rightarrow> world \<Rightarrow> bool" where
  "attempt_running c w = (case job_of c w of None \<Rightarrow> False
     | Some j \<Rightarrow> \<exists>a \<in> set (attempts j). attempt_number a = cl_attempt c \<and> at_state a = ''running'')"

text \<open>\<open>finally\<close> and the commit.\<close>

definition finish_claim :: "worker_env \<Rightarrow> claimed_job \<Rightarrow> world \<Rightarrow> exn + world" where
  "finish_claim env c w =
    (let w1 = (if attempt_running c w then on_db (succeed c (clock env)) w else w) in
     case flush (wdb w1) of Inl _ \<Rightarrow> Inl integrity_exn | Inr _ \<Rightarrow> Inr w1)"

definition provider_kinds :: "string set" where
  "provider_kinds = {''acoustid_analysis'', ''musicbrainz_analysis'', ''musicbrainz_refresh''}"

definition run_claimed :: "worker_env \<Rightarrow> claimed_job \<Rightarrow> timestamp \<Rightarrow> world \<Rightarrow> exn + world" where
  "run_claimed env c now w =
     (if reclaimed_stale c \<and> cl_kind c \<in> provider_kinds \<and> cl_attempt c > max_attempts env
      then retry_claim env c ''provider job exceeded max attempts after stale worker lease'' now None w
      else (case process_and_apply env c now w of
          Inr w1 \<Rightarrow> finish_claim env c w1
        | Inl e \<Rightarrow> bindR (handle_failure env c e now w) (finish_claim env c)))"

text \<open>Whether the early return for an exhausted provider job was taken; it skips the maintenance.\<close>

definition run_once ::
  "worker_env \<Rightarrow> (string \<Rightarrow> bool) \<Rightarrow> timestamp \<Rightarrow> string set option \<Rightarrow> world \<Rightarrow> exn + (bool \<times> world)" where
  "run_once env locked now allowed_kinds w0 =
    (let w = (if allowed_kinds = None then maintain_storage env w0 else w0) in
     if storage_state env \<noteq> None \<and> storage_state env \<noteq> Some ''ready'' then Inr (False, w)
     else (case claim_next locked now (lease_age env) allowed_kinds (wdb w) of
         (None, _) \<Rightarrow> Inr (False, w)
       | (Some c, db) \<Rightarrow>
         bindR (run_claimed env c now (w\<lparr>wdb := db\<rparr>)) (\<lambda>w1.
           Inr (True,
             if reclaimed_stale c \<and> cl_kind c \<in> provider_kinds \<and> cl_attempt c > max_attempts env then w1
             else if allowed_kinds = None then maintain_storage env w1
             else (case claimed_source c w1 of
                 Some s \<Rightarrow> (if cl_kind c \<in> {''filesystem_scan'', ''final_publish''} then reconcile_source env s w1 else w1)
               | None \<Rightarrow> w1)))))"

section \<open>Lemmas\<close>

interpretation scw: row_write "supersede_claim_write n now"
  by unfold_locales (simp_all add: supersede_claim_write_def)

interpretation fw: row_write "set_failure_reason r"
  by unfold_locales (simp_all add: set_failure_reason_def)

lemma job_of_write:
  assumes "\<And>j. job_id (f j) = job_id j"
  shows "job_of c (on_db (write_claimed c f) w) = map_option f (job_of c w)"
proof -
  have "find_row job_id k (update_row job_id k f rows) = map_option f (find_row job_id k rows)" for k rows
    using assms by (induction rows) (auto simp: find_row_def update_row_def)
  then show ?thesis by (simp add: job_of_def on_db_def write_claimed_def)
qed

lemma end_attempt_state:
  assumes "a \<in> set (end_attempt n st now as)" and "attempt_number a = n"
  shows "at_state a = st"
proof -
  obtain x where x: "a = (if attempt_number x = n then x\<lparr>at_state := st, finished_at := Some now\<rparr> else x)"
    using assms(1) unfolding end_attempt_def set_map by blast
  then show ?thesis using assms(2) by (cases "attempt_number x = n") simp_all
qed

lemma attempt_running_job: "job_of c w = job_of c w' \<Longrightarrow> attempt_running c w = attempt_running c w'"
  by (simp add: attempt_running_def)

lemma succeed_closes: "\<not> attempt_running c (on_db (succeed c now) w)"
  unfolding succeed_def attempt_running_def
  by (subst job_of_write) (auto simp: succeed_write_def dest: end_attempt_state split: option.splits)

lemma retry_closes: "\<not> attempt_running c (on_db (retry c now delay mx reason) w)"
  unfolding retry_def attempt_running_def
  by (subst job_of_write) (auto simp: retry_write_def dest: end_attempt_state split: option.splits)

lemma finish_closes: "finish_claim env c w = Inr w' \<Longrightarrow> \<not> attempt_running c w'"
  using succeed_closes [of c "clock env" w]
  by (auto simp: finish_claim_def Let_def split: sum.splits if_splits)

lemma finish_idle: "finish_claim env c w = Inr w' \<Longrightarrow> \<not> attempt_running c w \<Longrightarrow> w' = w"
  by (simp add: finish_claim_def split: sum.splits)

lemma finish_flushed: "finish_claim env c w = Inr w' \<Longrightarrow> rows_ok (jobs (wdb w'))"
  unfolding finish_claim_def Let_def by (auto simp: flush_def split: sum.splits if_splits)

lemma record_event_jobs: "record_event r k st reason now src w = Inr w' \<Longrightarrow>
    wdb w' = wdb w \<and> intake_states w' = intake_states w \<and> decoder_rows w' = decoder_rows w
    \<and> events w' = events w @ [\<lparr>ev_record = r, ev_source = src, ev_kind = k, ev_state = st, ev_reason = reason, ev_at = now\<rparr>]"
  by (auto simp: record_event_def split: if_splits)

lemma ensure_source_record_frame: "ensure_source_record env s w = (r, w') \<Longrightarrow>
    jobs (wdb w') = jobs (wdb w) \<and> intake_states w' = intake_states w \<and> decoder_rows w' = decoder_rows w
    \<and> events w' = events w"
  by (auto simp: ensure_source_record_def split: option.splits)

lemma retry_claim_effect:
  assumes "retry_claim env c reason0 now err w = Inr w'"
  shows "jobs (wdb w') = jobs (retry c (clock env) (retry_delay env) (max_attempts env)
        (history_reason c (claimed_source c w) reason0 err) (wdb w))
    \<and> intake_states w' = intake_states w \<and> decoder_rows w' = decoder_rows w
    \<and> (\<exists>evs. events w' = events w @ evs \<and> length evs \<le> 1)"
proof -
  define w1 where "w1 = on_db (retry c (clock env) (retry_delay env) (max_attempts env)
        (history_reason c (claimed_source c w) reason0 err)) w"
  have w1: "jobs (wdb w1) = jobs (retry c (clock env) (retry_delay env) (max_attempts env)
        (history_reason c (claimed_source c w) reason0 err) (wdb w))"
      "intake_states w1 = intake_states w" "decoder_rows w1 = decoder_rows w" "events w1 = events w"
    by (simp_all add: w1_def on_db_def)
  have frame: "jobs (wdb w') = jobs (wdb w1) \<and> intake_states w' = intake_states w1 \<and> decoder_rows w' = decoder_rows w1
      \<and> (\<exists>evs. events w' = events w1 @ evs \<and> length evs \<le> 1)"
  proof (cases "claimed_record c w1")
    case (Some r)
    then show ?thesis using assms record_event_jobs [of r _ _ _ _ _ w1 w']
      by (auto simp: retry_claim_def Let_def w1_def [symmetric] split: if_splits)
  next
    case None
    show ?thesis
    proof (cases "claimed_source c w1 = None \<or> intake_states w1 (the (claimed_source c w1)) = None")
      case True
      then have "w' = w1" using assms None by (auto simp: retry_claim_def Let_def w1_def [symmetric] split: option.splits)
      then show ?thesis by simp
    next
      case False
      then obtain s where s: "claimed_source c w1 = Some s" "intake_states w1 s \<noteq> None" by auto
      obtain r w2 where e: "ensure_source_record env s w1 = (r, w2)" by fastforce
      then obtain k st reason where "record_event r k st reason now (Some s) w2 = Inr w'"
        using assms None s by (auto simp: retry_claim_def Let_def w1_def [symmetric])
      then show ?thesis using record_event_jobs [of r k st reason now "Some s" w2 w'] ensure_source_record_frame [OF e] by simp
    qed
  qed
  then show ?thesis using w1 by simp
qed

lemma job_of_jobs: "jobs (wdb w) = jobs (wdb w') \<Longrightarrow> job_of c w = job_of c w'"
  by (simp add: job_of_def)

lemma retry_claim_closes:
  assumes "retry_claim env c reason0 now err w = Inr w'"
  shows "\<not> attempt_running c w'"
proof -
  let ?r = "retry c (clock env) (retry_delay env) (max_attempts env) (history_reason c (claimed_source c w) reason0 err)"
  have "jobs (wdb w') = jobs (wdb (on_db ?r w))"
    using retry_claim_effect [OF assms] by (simp add: on_db_def)
  then show ?thesis using attempt_running_job [OF job_of_jobs, of w' "on_db ?r w" c] retry_closes by blast
qed

section \<open>What a claim keeps\<close>

text \<open>The worker still holds its claim and every job keeps its attempt history in order.\<close>

definition claim_ok :: "claimed_job \<Rightarrow> world \<Rightarrow> bool" where
  "claim_ok c w = ((\<forall>j \<in> set (jobs (wdb w)). wf_job j) \<and> cl_job c \<in> job_id ` set (jobs (wdb w)) \<and> holds_claim c (wdb w))"

definition env_safe :: "worker_env \<Rightarrow> claimed_job \<Rightarrow> bool" where
  "env_safe env c =
     ((\<forall>k h w out w'. handlers env k = Some h \<and> claim_ok c w \<and> h c w = (Inr out, w') \<longrightarrow> claim_ok c w')
      \<and> (\<forall>r t w. claim_ok c w \<longrightarrow> claim_ok c (reevaluate env r t w))
      \<and> (\<forall>s p r t w x b w'. claim_ok c w \<and> intake_changed env s p r t w = Inr (x, b, w') \<longrightarrow> claim_ok c w'))"

lemma claim_ok_jobs: "jobs (wdb w) = jobs (wdb w') \<Longrightarrow> claim_ok c w = claim_ok c w'"
  by (simp add: claim_ok_def holds_claim_def)

lemma claim_ok_cong: "claim_ok c w \<Longrightarrow> jobs (wdb w') = jobs (wdb w) \<Longrightarrow> claim_ok c w'"
  using claim_ok_jobs by blast

lemma claim_ok_write:
  assumes "claim_ok c w"
    and "\<And>j. wf_job j \<Longrightarrow> length (attempts j) = cl_attempt c \<Longrightarrow>
      wf_job (f j) \<and> length (attempts (f j)) = length (attempts j) \<and> job_id (f j) = job_id j"
  shows "claim_ok c (on_db (write_claimed c f) w)"
proof -
  let ?u = "\<lambda>j. if job_id j = cl_job c then f j else j"
  have rows: "jobs (wdb (on_db (write_claimed c f) w)) = map ?u (jobs (wdb w))"
    by (simp add: on_db_def write_claimed_def update_row_def)
  have row: "wf_job (?u j) \<and> length (attempts (?u j)) = length (attempts j) \<and> job_id (?u j) = job_id j"
    if "j \<in> set (jobs (wdb w))" for j
    using that assms(1) assms(2) [of j] by (auto simp: claim_ok_def holds_claim_def)
  have "\<forall>j \<in> set (map ?u (jobs (wdb w))). wf_job j" unfolding set_map using row by blast
  moreover have "cl_job c \<in> job_id ` set (map ?u (jobs (wdb w)))"
  proof -
    obtain j where j: "j \<in> set (jobs (wdb w))" "job_id j = cl_job c" using assms(1) by (auto simp: claim_ok_def)
    have "?u j \<in> set (map ?u (jobs (wdb w)))" using j(1) unfolding set_map by (rule imageI)
    moreover have "cl_job c = job_id (?u j)" using row [OF j(1)] j(2) by argo
    ultimately show ?thesis by (rule rev_image_eqI)
  qed
  moreover have "length (attempts k) = cl_attempt c" if k: "k \<in> set (map ?u (jobs (wdb w)))" "job_id k = cl_job c" for k
  proof -
    obtain j where j: "j \<in> set (jobs (wdb w))" "k = ?u j" using k(1) unfolding set_map by blast
    then show ?thesis using row [OF j(1)] k(2) assms(1) by (simp add: claim_ok_def holds_claim_def)
  qed
  ultimately show ?thesis unfolding claim_ok_def holds_claim_def rows by blast
qed

lemma length_end_attempt [simp]: "length (end_attempt n st now as) = length as"
  by (simp add: end_attempt_def)

lemma write_lengths:
  "length (attempts (succeed_write n now j)) = length (attempts j)"
  "length (attempts (quarantine_write n now j)) = length (attempts j)"
  "length (attempts (retry_write n now delay mx r j)) = length (attempts j)"
  "length (attempts (supersede_claim_write n now j)) = length (attempts j)"
  by (simp_all add: succeed_write_def quarantine_write_def retry_write_def supersede_claim_write_def)

lemma supersede_wf_job: "wf_job j \<Longrightarrow> wf_job (supersede_claim_write (length (attempts j)) now j)"
  by (rule wf_end_write [where st = "''succeeded''" and j = j and now = now]) (simp_all add: supersede_claim_write_def)

lemma claim_ok_succeed: "claim_ok c w \<Longrightarrow> claim_ok c (on_db (succeed c now) w)"
  unfolding succeed_def by (erule claim_ok_write) (metis succeed_wf_job sw.pk_wr write_lengths(1))

lemma claim_ok_quarantine: "claim_ok c w \<Longrightarrow> claim_ok c (on_db (quarantine c now) w)"
  unfolding quarantine_def by (erule claim_ok_write) (metis quarantine_wf_job qw.pk_wr write_lengths(2))

lemma claim_ok_retry: "claim_ok c w \<Longrightarrow> claim_ok c (on_db (retry c now delay mx r) w)"
  unfolding retry_def by (erule claim_ok_write) (metis retry_wf_job rw.pk_wr write_lengths(3))

lemma claim_ok_supersede: "claim_ok c w \<Longrightarrow> claim_ok c (on_db (supersede_claim c now) w)"
  unfolding supersede_claim_def by (erule claim_ok_write) (metis supersede_wf_job scw.pk_wr write_lengths(4))

lemma claim_ok_reason: "claim_ok c w \<Longrightarrow> claim_ok c (on_db (write_claimed c (set_failure_reason r)) w)"
  by (erule claim_ok_write) (simp add: set_failure_reason_def wf_job_def)

lemma claim_ok_ensure: "ensure_source_record env s w = (r, w') \<Longrightarrow> claim_ok c w \<Longrightarrow> claim_ok c w'"
  using claim_ok_jobs [of w w' c] ensure_source_record_frame [of env s w r w'] by simp

lemma claim_ok_retry_claim: "retry_claim env c reason now err w = Inr w' \<Longrightarrow> claim_ok c w \<Longrightarrow> claim_ok c w'"
proof -
  assume a: "retry_claim env c reason now err w = Inr w'" and ok: "claim_ok c w"
  let ?r = "retry c (clock env) (retry_delay env) (max_attempts env) (history_reason c (claimed_source c w) reason err)"
  have "jobs (wdb w') = jobs (wdb (on_db ?r w))" using retry_claim_effect [OF a] by (simp add: on_db_def)
  then show "claim_ok c w'" using claim_ok_jobs [of w' "on_db ?r w" c] claim_ok_retry [OF ok] by simp
qed

lemma close_source_effect:
  assumes "close_source env c src st k reason0 now err w = Inr w'"
  obtains r w2 w3 reason where
    "ensure_source_record env src (w\<lparr>intake_states := (intake_states w)(src \<mapsto> st),
        wdb := write_claimed c (set_failure_reason reason) (wdb w)\<rparr>) = (r, w2)"
    "record_event r k st (Some reason) now (Some src) (reevaluate env r now w2) = Inr w3"
    "w' = on_db (quarantine c (clock env)) w3"
  using assms by (auto simp: close_source_def Let_def split: prod.splits sum.splits)

lemma close_source_closes:
  assumes "close_source env c src st k reason0 now err w = Inr w'"
  shows "\<not> attempt_running c w'"
proof -
  have q: "\<not> attempt_running c (on_db (quarantine c now) w)" for now w
    unfolding quarantine_def attempt_running_def
    by (subst job_of_write) (auto simp: quarantine_write_def dest: end_attempt_state split: option.splits)
  show ?thesis by (rule close_source_effect [OF assms]) (simp add: q)
qed

lemma claim_ok_close_source:
  assumes "close_source env c src st k reason0 now err w = Inr w'" and "env_safe env c" and "claim_ok c w"
  shows "claim_ok c w'"
proof (rule close_source_effect [OF assms(1)])
  fix r w2 w3 reason
  let ?w1 = "w\<lparr>intake_states := (intake_states w)(src \<mapsto> st), wdb := write_claimed c (set_failure_reason reason) (wdb w)\<rparr>"
  assume e: "ensure_source_record env src ?w1 = (r, w2)"
    and ev: "record_event r k st (Some reason) now (Some src) (reevaluate env r now w2) = Inr w3"
    and w': "w' = on_db (quarantine c (clock env)) w3"
  have "claim_ok c ?w1"
    by (rule claim_ok_cong [OF claim_ok_reason [OF assms(3), of reason]]) (simp add: on_db_def)
  then have "claim_ok c w2" by (rule claim_ok_ensure [OF e])
  then have "claim_ok c (reevaluate env r now w2)" using assms(2) unfolding env_safe_def by blast
  then have "claim_ok c w3" by (rule claim_ok_cong) (use record_event_jobs [OF ev] in simp)
  then show "claim_ok c w'" unfolding w' by (rule claim_ok_quarantine)
qed

lemma claim_ok_scan: "enqueue_scan env src now w = Inr w' \<Longrightarrow> claim_ok c w \<Longrightarrow> claim_ok c w'"
proof -
  assume a: "enqueue_scan env src now w = Inr w'" and ok: "claim_ok c w"
  then obtain x db where e: "enqueue (fresh_uid env @ src) id src ''filesystem_scan'' now None (wdb w) = (Inr x, db)"
      and w': "w' = w\<lparr>wdb := db\<rparr>" by (auto simp: enqueue_scan_def split: prod.splits sum.splits)
  have "jobs db = jobs (wdb w) \<or> (\<exists>j. jobs db = jobs (wdb w) @ [j] \<and> wf_job j \<and> (\<forall>k \<in> set (jobs (wdb w)). job_id k \<noteq> job_id j))"
    using e by (auto simp: enqueue_def insert_plain_def insert_job_def insert_ok_def Let_def
        split: option.splits sum.splits if_splits)
  then show "claim_ok c w'"
  proof
    assume "jobs db = jobs (wdb w)"
    then show ?thesis using ok claim_ok_jobs [of w' w c] by (simp add: w')
  next
    assume "\<exists>j. jobs db = jobs (wdb w) @ [j] \<and> wf_job j \<and> (\<forall>k \<in> set (jobs (wdb w)). job_id k \<noteq> job_id j)"
    then obtain j where j: "jobs db = jobs (wdb w) @ [j]" "wf_job j" "\<forall>k \<in> set (jobs (wdb w)). job_id k \<noteq> job_id j"
      by blast
    obtain k where "k \<in> set (jobs (wdb w))" "job_id k = cl_job c" using ok by (auto simp: claim_ok_def)
    then have "job_id j \<noteq> cl_job c" using j(3) by metis
    then show ?thesis using ok j(2) by (simp add: w' j(1) claim_ok_def holds_claim_def)
  qed
qed

lemma claim_ok_requeue:
  assumes "requeue_changed_source env c src path now w = Inr w'" and "env_safe env c" and "claim_ok c w"
  shows "claim_ok c w'"
proof -
  obtain r w1 where e: "ensure_source_record env src w = (r, w1)" by fastforce
  obtain replacement created w2 where i: "intake_changed env src path r now w1 = Inr (replacement, created, w2)"
    using assms(1) e by (cases "intake_changed env src path r now w1") (auto simp: requeue_changed_source_def)
  define w3 where "w3 = (if has_locations env src w2 then w2
     else w2\<lparr>intake_states := (intake_states w2)(src \<mapsto> ''replaced''), replaced_by := (replaced_by w2)(src \<mapsto> replacement)\<rparr>)"
  define w4 where "w4 = on_db (supersede_claim c (clock env)) w3"
  have "claim_ok c w1" using claim_ok_ensure [OF e] assms(3) by simp
  then have "claim_ok c w2" using i assms(2) unfolding env_safe_def by blast
  then have "claim_ok c w3" using claim_ok_jobs [of w3 w2 c] by (simp add: w3_def)
  then have w4: "claim_ok c w4" unfolding w4_def by (rule claim_ok_supersede)
  have r: "bindR (if has_locations env src w4 then enqueue_scan env src now w4 else Inr w4)
     (\<lambda>w5. if created then enqueue_scan env replacement now w5 else Inr w5) = Inr w'"
    using assms(1) unfolding requeue_changed_source_def e i prod.case sum.case Let_def w4_def w3_def .
  then obtain w5 where w5: "(if has_locations env src w4 then enqueue_scan env src now w4 else Inr w4) = Inr w5"
      "(if created then enqueue_scan env replacement now w5 else Inr w5) = Inr w'" by (auto simp: bindR_Inr_iff)
  have "claim_ok c w5" using w5(1) w4 claim_ok_scan by (cases "has_locations env src w4") auto
  then show ?thesis using w5(2) claim_ok_scan by (cases created) auto
qed

lemma claim_ok_apply:
  assumes "apply_outcome env c out now w = Inr w'" and "env_safe env c" and "claim_ok c w"
  shows "claim_ok c w'"
  using assms
  by (cases "(env, c, out, now, w)" rule: apply_outcome.cases)
     (auto simp: quarantine_outcome_def split: if_splits intro: claim_ok_close_source claim_ok_requeue)

lemma claim_ok_process:
  assumes "process_and_apply env c now w = Inr w'" and "env_safe env c" and "claim_ok c w"
  shows "claim_ok c w'"
proof -
  obtain out w1 where p: "process_claim env c now w = (Inr out, w1)" and a: "apply_outcome env c out now w1 = Inr w'"
    using assms(1) by (auto simp: process_and_apply_def split: prod.splits sum.splits)
  have "claim_ok c w1"
  proof (cases "outdated c w")
    case True
    then show ?thesis using p assms(3) claim_ok_supersede by (auto simp: process_claim_def)
  next
    case False
    then obtain h where "handlers env (cl_kind c) = Some h" "h c w = (Inr out, w1)"
      using p by (auto simp: process_claim_def split: option.splits)
    then show ?thesis using assms(2,3) unfolding env_safe_def by blast
  qed
  then show ?thesis using claim_ok_apply [OF a assms(2)] by simp
qed

lemma claim_ok_failure:
  assumes "handle_failure env c e now w = Inr w'" and "env_safe env c" and "claim_ok c w"
  shows "claim_ok c w'"
proof -
  have rows: "claim_ok c (record_decoder_evidence s ev now w)" for s ev
    using assms(3) claim_ok_jobs [of "record_decoder_evidence s ev now w" w c] by (simp add: record_decoder_evidence_def)
  show ?thesis using assms(1) rows assms(3) claim_ok_close_source [OF _ assms(2)] claim_ok_retry_claim
    by (auto simp: handle_failure_def bindR_Inr_iff quarantine_outcome_def invalid_audio_outcome_def
        split: exn_class.splits option.splits)
qed

lemma failure_closes: "handle_failure env c e now w = Inr w' \<Longrightarrow> \<not> attempt_running c w'"
  using close_source_closes retry_claim_closes
  by (auto simp: handle_failure_def bindR_Inr_iff quarantine_outcome_def invalid_audio_outcome_def
      split: exn_class.splits)

lemma rows_ok_wf: "(\<forall>j \<in> set (jobs (wdb w)). wf_job j) \<Longrightarrow> rows_ok (jobs (wdb w)) \<Longrightarrow> wf_db (wdb w)"
  by (simp add: wf_db_def)

lemma claim_gives_claim_ok:
  assumes "wf_db (wdb w)" and "claim_next locked now lease ks (wdb w) = (Some c, db)"
  shows "wf_db db \<and> claim_ok c (w\<lparr>wdb := db\<rparr>)
    \<and> (\<forall>j \<in> set (jobs db). job_id j = cl_job c \<longrightarrow> is_active j)"
proof -
  have wf: "wf_db db" using claim_wf(1) [OF assms] .
  obtain j j' where j: "cl_job c = job_id j" "cl_attempt c = length (attempts j) + 1"
      "find_row job_id (job_id j) (jobs db) = Some j'" "taken now j j'"
    using claim_next_facts [OF assms] by auto
  have row: "j' \<in> set (jobs db)" "job_id j' = cl_job c"
    using find_row_Some [OF j(3)] j(1) by simp_all
  have only: "k = j'" if "k \<in> set (jobs db)" "job_id k = cl_job c" for k
    using same_id [OF wf that(1) row(1)] that(2) row(2) by simp
  have len: "length (attempts j') = cl_attempt c" using j(2,4) by (auto simp: taken_def)
  have "holds_claim c db" unfolding holds_claim_def using only len by metis
  moreover have "cl_job c \<in> job_id ` set (jobs db)" using row by (metis imageI)
  ultimately have "claim_ok c (w\<lparr>wdb := db\<rparr>)"
    using wf unfolding claim_ok_def by (simp add: wf_db_def)
  moreover have "is_active j'" using j(4) by (simp add: is_active_def taken_def)
  ultimately show ?thesis using wf only by blast
qed

definition exhausted_provider :: "worker_env \<Rightarrow> claimed_job \<Rightarrow> bool" where
  "exhausted_provider env c = (reclaimed_stale c \<and> cl_kind c \<in> provider_kinds \<and> cl_attempt c > max_attempts env)"

lemma run_claimed_live:
  "\<not> exhausted_provider env c \<Longrightarrow> run_claimed env c now w = (case process_and_apply env c now w of
     Inr w1 \<Rightarrow> finish_claim env c w1 | Inl e \<Rightarrow> bindR (handle_failure env c e now w) (finish_claim env c))"
  unfolding run_claimed_def exhausted_provider_def by (simp only: if_False)

lemma run_claimed_cases:
  assumes "run_claimed env c now w = Inr w'"
  obtains (exhausted) "exhausted_provider env c"
      "retry_claim env c ''provider job exceeded max attempts after stale worker lease'' now None w = Inr w'"
  | (completed) w1 where "\<not> exhausted_provider env c" "process_and_apply env c now w = Inr w1" "finish_claim env c w1 = Inr w'"
  | (failed) e where "\<not> exhausted_provider env c" "process_and_apply env c now w = Inl e"
      "handle_failure env c e now w = Inr w'" "rows_ok (jobs (wdb w'))"
proof -
  have idle: "w1 = w' \<and> rows_ok (jobs (wdb w'))"
    if "handle_failure env c e now w = Inr w1" "finish_claim env c w1 = Inr w'" for e w1
    using finish_idle [OF that(2) failure_closes [OF that(1)]] finish_flushed [OF that(2)] by simp
  show ?thesis
  proof (cases "exhausted_provider env c")
    case True
    then show ?thesis using assms exhausted by (simp add: run_claimed_def exhausted_provider_def)
  next
    case False
    then have r: "(case process_and_apply env c now w of Inr w1 \<Rightarrow> finish_claim env c w1
        | Inl e \<Rightarrow> bindR (handle_failure env c e now w) (finish_claim env c)) = Inr w'"
      using assms unfolding run_claimed_def exhausted_provider_def by (simp only: if_False)
    show ?thesis
    proof (cases "process_and_apply env c now w")
      case (Inr w1)
      then show ?thesis using r False completed by simp
    next
      case (Inl e)
      then obtain w1 where "handle_failure env c e now w = Inr w1" "finish_claim env c w1 = Inr w'"
        using r by (auto simp: bindR_Inr_iff)
      then show ?thesis using idle [of e w1] Inl False failed by simp
    qed
  qed
qed

section \<open>Properties\<close>

text \<open>C10. Whatever a handler does or raises, a claim that was run is ended: its attempt is not left running.\<close>

theorem run_claimed_closes:
  assumes "run_claimed env c now w = Inr w'"
  shows "\<not> attempt_running c w'"
  using assms by (cases rule: run_claimed_cases) (auto dest: retry_claim_closes finish_closes failure_closes)

text \<open>One iteration of the worker keeps the queue well formed, provided the handlers and the services
  respect the claim they work for and the services keep the queue well formed themselves.\<close>

lemma run_once_preserves:
  assumes "wf_db (wdb w)" and "run_once env locked now ks w = Inr (b, w')"
    and "\<And>c. env_safe env c"
    and "\<And>v. wf_db (wdb v) \<Longrightarrow> wf_db (wdb (maintain_storage env v))"
    and "\<And>s v. wf_db (wdb v) \<Longrightarrow> wf_db (wdb (reconcile_source env s v))"
  shows "wf_db (wdb w')"
proof -
  define w0 where "w0 = (if ks = None then maintain_storage env w else w)"
  have wf0: "wf_db (wdb w0)" using assms(1,4) by (simp add: w0_def)
  show ?thesis
  proof (cases "(storage_state env \<noteq> None \<and> storage_state env \<noteq> Some ''ready'')
      \<or> fst (claim_next locked now (lease_age env) ks (wdb w0)) = None")
    case True
    then have "w' = w0" using assms(2)
      by (auto simp: run_once_def Let_def w0_def [symmetric] split: prod.splits option.splits if_splits)
    then show ?thesis using wf0 by simp
  next
    case False
    then obtain c db where cl: "claim_next locked now (lease_age env) ks (wdb w0) = (Some c, db)"
      by (metis option.exhaust prod.collapse)
    let ?w = "w0\<lparr>wdb := db\<rparr>"
    have ok: "wf_db db" "claim_ok c ?w" "\<And>j. j \<in> set (jobs db) \<Longrightarrow> job_id j = cl_job c \<Longrightarrow> is_active j"
      using claim_gives_claim_ok [OF wf0 cl] by blast+
    obtain w1 where r: "run_claimed env c now ?w = Inr w1"
      and w': "w' = (if reclaimed_stale c \<and> cl_kind c \<in> provider_kinds \<and> cl_attempt c > max_attempts env then w1
             else if ks = None then maintain_storage env w1
             else (case claimed_source c w1 of
                 Some s \<Rightarrow> (if cl_kind c \<in> {''filesystem_scan'', ''final_publish''} then reconcile_source env s w1 else w1)
               | None \<Rightarrow> w1))"
      using assms(2) False cl by (auto simp: run_once_def Let_def w0_def [symmetric] bindR_Inr_iff)
    have "wf_db (wdb w1)" using r
    proof (cases rule: run_claimed_cases)
      case exhausted
      let ?r = "retry c (clock env) (retry_delay env) (max_attempts env)
        (history_reason c (claimed_source c ?w) ''provider job exceeded max attempts after stale worker lease'' None)"
      have "holds_claim c db" using ok(2) by (simp add: claim_ok_def)
      then have "wf_db (?r db)" unfolding retry_def write_claimed_def
        by (intro rw.wf_update [OF ok(1)]) (use ok(1,3) held retry_wf_job in \<open>auto simp: wf_db_def\<close>)
      then show ?thesis using retry_claim_effect [OF exhausted(2)] by (simp add: wf_db_def)
    next
      case (completed w2)
      have "claim_ok c w2" using claim_ok_process [OF completed(2) assms(3) ok(2)] .
      then have "claim_ok c w1" using completed(3) claim_ok_succeed
        by (auto simp: finish_claim_def Let_def split: sum.splits if_splits)
      then show ?thesis using finish_flushed [OF completed(3)] by (simp add: wf_db_def claim_ok_def)
    next
      case (failed e)
      then show ?thesis using claim_ok_failure [OF failed(3) assms(3) ok(2)] by (simp add: wf_db_def claim_ok_def)
    qed
    then show ?thesis unfolding w' using assms(4,5) by (simp split: option.splits)
  qed
qed

text \<open>What a retry may write besides the job: one event, with the processing state it names, of the
  record of the job or of its source; a source without a record is given a new one first.\<close>

definition retry_reported :: "worker_env \<Rightarrow> claimed_job \<Rightarrow> timestamp \<Rightarrow> world \<Rightarrow> world \<Rightarrow> world \<Rightarrow> bool" where
  "retry_reported env c now w retried w' \<longleftrightarrow> w' = retried
     \<or> (\<exists>r ev. (claimed_record c w = Some r \<or> (\<exists>s. claimed_source c w = Some s \<and> record_of w s = Some r))
          \<and> ev_record ev = r
          \<and> w' = retried\<lparr>processing_states := (processing_states w)(r \<mapsto> (ev_state ev, now)), events := events w @ [ev]\<rparr>)
     \<or> (\<exists>s r ev. claimed_source c w = Some s \<and> record_of w s = None \<and> r = fresh_record env \<and> ev_record ev = r
          \<and> w' = retried\<lparr>wdb := (wdb retried)\<lparr>library_records := library_records (wdb w) @ [r]\<rparr>,
                record_of := (record_of w)(s \<mapsto> r),
                processing_states := (processing_states w)(r \<mapsto> (ev_state ev, now)), events := events w @ [ev]\<rparr>)"

lemma record_event_world: "record_event r k st reason now src w = Inr w' \<Longrightarrow>
    \<exists>ev. ev_record ev = r \<and> w' = w\<lparr>processing_states := (processing_states w)(r \<mapsto> (ev_state ev, now)), events := events w @ [ev]\<rparr>"
  by (rule exI [of _ "\<lparr>ev_record = r, ev_source = src, ev_kind = k, ev_state = st, ev_reason = reason, ev_at = now\<rparr>"])
    (simp add: record_event_def split: if_splits)

lemma retry_claim_world:
  assumes "retry_claim env c reason0 now err w = Inr w'"
  shows "\<exists>reason. retry_reported env c now w
      (on_db (retry c (clock env) (retry_delay env) (max_attempts env) reason) w) w'"
proof -
  let ?reason = "history_reason c (claimed_source c w) reason0 err"
  define w1 where "w1 = on_db (retry c (clock env) (retry_delay env) (max_attempts env) ?reason) w"
  have job: "job_of c w1 = map_option (retry_write (cl_attempt c) (clock env) (retry_delay env) (max_attempts env) ?reason) (job_of c w)"
    unfolding w1_def retry_def by (rule job_of_write) (rule rw.pk_wr)
  then have claimed: "claimed_record c w1 = claimed_record c w" "claimed_source c w1 = claimed_source c w"
    by (cases "job_of c w"; simp add: claimed_record_def claimed_source_def rw.targets_wr)+
  have same: "processing_states w1 = processing_states w" "events w1 = events w" "record_of w1 = record_of w"
      "library_records (wdb w1) = library_records (wdb w)"
    by (simp_all add: w1_def on_db_def retry_def write_claimed_def)
  have "retry_reported env c now w w1 w'"
  proof (cases "claimed_record c w")
    case (Some r)
    then have "w' = w1 \<or> (\<exists>k st reason. record_event r k st reason now None w1 = Inr w')"
      using assms claimed unfolding retry_claim_def Let_def w1_def [symmetric] by (auto split: if_splits)
    then show ?thesis using Some record_event_world [of r _ _ _ now None w1 w'] same(1,2)
      unfolding retry_reported_def by auto
  next
    case None
    show ?thesis
    proof (cases "claimed_source c w")
      case none: None
      then have "w' = w1"
        using assms claimed None unfolding retry_claim_def Let_def w1_def [symmetric] by simp
      then show ?thesis by (simp add: retry_reported_def)
    next
      case (Some s)
      obtain r w2 where e: "ensure_source_record env s w1 = (r, w2)" by fastforce
      have "w' = w1 \<or> (\<exists>k st reason. record_event r k st reason now (Some s) w2 = Inr w')"
        using assms claimed None Some e unfolding retry_claim_def Let_def w1_def [symmetric] by (auto split: if_splits)
      then have "w' = w1 \<or> (\<exists>ev. ev_record ev = r
          \<and> w' = w2\<lparr>processing_states := (processing_states w2)(r \<mapsto> (ev_state ev, now)), events := events w2 @ [ev]\<rparr>)"
        using record_event_world by blast
      then show ?thesis
      proof
        assume "\<exists>ev. ev_record ev = r
          \<and> w' = w2\<lparr>processing_states := (processing_states w2)(r \<mapsto> (ev_state ev, now)), events := events w2 @ [ev]\<rparr>"
        then obtain ev where ev: "ev_record ev = r"
            "w' = w2\<lparr>processing_states := (processing_states w2)(r \<mapsto> (ev_state ev, now)), events := events w2 @ [ev]\<rparr>" by blast
        show ?thesis
        proof (cases "record_of w s")
          case None
          then have "r = fresh_record env" "w2 = w1\<lparr>record_of := (record_of w1)(s \<mapsto> r),
              wdb := (wdb w1)\<lparr>library_records := library_records (wdb w1) @ [r]\<rparr>\<rparr>"
            using e same by (auto simp: ensure_source_record_def)
          then show ?thesis using ev None Some same unfolding retry_reported_def
            by (intro disjI2 exI [of _ s] exI [of _ r] exI [of _ ev]) simp
        next
          case (Some r')
          then have "r' = r" "w2 = w1" using e same by (auto simp: ensure_source_record_def)
          then show ?thesis using ev Some \<open>claimed_source c w = Some s\<close> same unfolding retry_reported_def by auto
        qed
      qed (simp add: retry_reported_def)
    qed
  qed
  then show ?thesis unfolding w1_def by blast
qed

lemma retried_job:
  assumes "retry_reported env c now w (on_db (retry c t delay mx reason) w) w'"
  shows "i \<noteq> cl_job c \<Longrightarrow> find_row job_id i (jobs (wdb w')) = find_row job_id i (jobs (wdb w))"
    and "job_of c w = Some j \<Longrightarrow> \<exists>j'. job_of c w' = Some j'
      \<and> (if cl_attempt c < mx then job_state j' = ''queued'' \<and> next_attempt_at j' = Some (t + delay)
         else job_state j' = ''blocked_infrastructure'' \<and> next_attempt_at j' = None \<and> failure_reason j' = Some reason)"
proof -
  have rows: "jobs (wdb w') = update_row job_id (cl_job c) (retry_write (cl_attempt c) t delay mx reason) (jobs (wdb w))"
    using assms by (auto simp: retry_reported_def on_db_def retry_def write_claimed_def)
  show "i \<noteq> cl_job c \<Longrightarrow> find_row job_id i (jobs (wdb w')) = find_row job_id i (jobs (wdb w))"
    unfolding rows by (rule rw.find_update_other)
  assume "job_of c w = Some j"
  then have "job_of c w' = Some (retry_write (cl_attempt c) t delay mx reason j)"
    unfolding job_of_def rows by (simp add: rw.find_update_same)
  then show "\<exists>j'. job_of c w' = Some j'
      \<and> (if cl_attempt c < mx then job_state j' = ''queued'' \<and> next_attempt_at j' = Some (t + delay)
         else job_state j' = ''blocked_infrastructure'' \<and> next_attempt_at j' = None \<and> failure_reason j' = Some reason)"
    by (simp add: retry_write_def)
qed

text \<open>C11. Nothing a handler wrote before it failed with a retryable error remains: the world afterwards
  is the one the claim started from, with the job retried (queued again after the delay, or blocked when
  its attempts are used up) and no other job changed; beyond that at most one event is recorded, with the
  processing state it names, of the record of the job or of its source, which is created where a source
  has none. A provider job that was taken over with its attempts used up never reaches its handler and is
  not meant here.\<close>

theorem failed_handler_rolled_back:
  assumes "run_claimed env c now w = Inr w'" and "\<not> exhausted_provider env c"
    and "process_claim env c now w = (Inl e, w1)"
    and "\<And>ev. e_class e \<noteq> SourceAudioCorruptionError ev" and "\<And>ev. e_class e \<noteq> DecoderValidationError ev"
    and "e_class e \<noteq> SourceMetadataError"
  shows "\<exists>reason. retry_reported env c now w
      (on_db (retry c (clock env) (retry_delay env) (max_attempts env) reason) w) w'
    \<and> (\<forall>i. i \<noteq> cl_job c \<longrightarrow> find_row job_id i (jobs (wdb w')) = find_row job_id i (jobs (wdb w)))
    \<and> (\<forall>j. job_of c w = Some j \<longrightarrow> (\<exists>j'. job_of c w' = Some j'
        \<and> (if cl_attempt c < max_attempts env
           then job_state j' = ''queued'' \<and> next_attempt_at j' = Some (clock env + retry_delay env)
           else job_state j' = ''blocked_infrastructure'' \<and> next_attempt_at j' = None \<and> failure_reason j' = Some reason)))"
proof -
  have pa: "process_and_apply env c now w = Inl e" using assms(3) by (simp add: process_and_apply_def)
  have f: "handle_failure env c e now w = Inr w'"
    using assms(1) by (cases rule: run_claimed_cases) (use assms(2) pa in auto)
  obtain msg where "retry_claim env c msg now (Some e) w = Inr w'"
    using f assms(4-6) unfolding handle_failure_def by (cases "e_class e") auto
  then obtain reason where r: "retry_reported env c now w
      (on_db (retry c (clock env) (retry_delay env) (max_attempts env) reason) w) w'"
    using retry_claim_world by blast
  show ?thesis using r retried_job [OF r] by blast
qed

text \<open>A job whose source was replaced, or whose source has another metadata revision than the job was
  queued for, is superseded and its handler is not consulted.\<close>

lemma outdated_job_superseded:
  assumes "outdated c w" and "\<not> exhausted_provider env c" and "run_claimed env c now w = Inr w'"
  shows "w' = on_db (supersede_claim c now) w \<and> map_option job_state (job_of c w') = Some ''superseded''
    \<and> run_claimed (env\<lparr>handlers := hs\<rparr>) c now w = Inr w'"
proof -
  let ?w = "on_db (supersede_claim c now) w"
  have pa: "process_and_apply (env\<lparr>handlers := hs'\<rparr>) c now w = Inr ?w" for hs'
    using assms(1) by (simp add: process_and_apply_def process_claim_def)
  have j: "job_of c ?w = map_option (supersede_claim_write (cl_attempt c) now) (job_of c w)"
    unfolding supersede_claim_def by (rule job_of_write) (rule scw.pk_wr)
  obtain jb where jb: "job_of c w = Some jb" using assms(1) by (auto simp: outdated_def split: option.splits)
  have nr: "\<not> attempt_running c ?w"
    using jb j by (auto simp: attempt_running_def supersede_claim_write_def dest: end_attempt_state)
  have pa': "process_and_apply env c now w = Inr ?w"
    using assms(1) by (simp add: process_and_apply_def process_claim_def)
  have w': "w' = ?w"
    using assms(3) by (cases rule: run_claimed_cases) (use assms(2) pa' nr finish_idle in auto)
  have fin: "finish_claim (env\<lparr>handlers := hs\<rparr>) c ?w = finish_claim env c ?w" by (simp add: finish_claim_def)
  have "run_claimed (env\<lparr>handlers := hs\<rparr>) c now w = finish_claim env c ?w"
    using assms(2) pa [of hs] fin by (auto simp: run_claimed_def exhausted_provider_def)
  moreover have "run_claimed env c now w = finish_claim env c ?w"
    using assms(2) pa' by (auto simp: run_claimed_def exhausted_provider_def)
  ultimately show ?thesis using w' assms(3) j jb by (simp add: supersede_claim_write_def)
qed

text \<open>A job of a library record that has used up its attempts is blocked, yet the event recorded for the
  record, and its processing state, say that it is being retried.\<close>

lemma blocked_record_reported_retrying:
  assumes "job_of c w = Some j" and "library_record_id j = Some r" and "r \<in> set (library_records (wdb w))"
    and "cl_attempt c \<ge> max_attempts env"
  shows "\<exists>w'. retry_claim env c reason now err w = Inr w'
    \<and> map_option job_state (job_of c w') = Some ''blocked_infrastructure''
    \<and> map_option fst (processing_states w' r) = Some ''retrying''
    \<and> ev_state (last (events w')) = ''retrying''"
proof -
  define w1 where "w1 = on_db (retry c (clock env) (retry_delay env) (max_attempts env)
        (history_reason c (claimed_source c w) reason err)) w"
  have j: "job_of c w1 = Some (retry_write (cl_attempt c) (clock env) (retry_delay env) (max_attempts env)
        (history_reason c (claimed_source c w) reason err) j)"
    using assms(1) unfolding w1_def retry_def by (subst job_of_write) (simp_all add: rw.pk_wr)
  have r: "claimed_record c w1 = Some r" "r \<in> set (library_records (wdb w1))"
    using assms(2,3) j by (simp_all add: claimed_record_def rw.targets_wr w1_def on_db_def retry_def write_claimed_def)
  obtain w' where e: "record_event r ''selection_refresh_retry'' ''retrying''
      (Some (history_reason c (claimed_source c w) reason err)) now None w1 = Inr w'"
    using r(2) by (simp add: record_event_def)
  have "retry_claim env c reason now err w = Inr w'"
    using e r by (simp add: retry_claim_def Let_def w1_def [symmetric])
  moreover have "job_of c w' = job_of c w1" using record_event_jobs [OF e] by (simp add: job_of_def)
  moreover have "map_option fst (processing_states w' r) = Some ''retrying'' \<and> ev_state (last (events w')) = ''retrying''"
    using e r(2) by (auto simp: record_event_def)
  ultimately show ?thesis using j assms(4) by (simp add: retry_write_def)
qed

section \<open>Instances\<close>

text \<open>A worker whose one handler finds its provider down, and a world with a MusicBrainz refresh of a
  source and a lyric fetch of a record, both running.\<close>

definition sample_env :: worker_env where
  "sample_env = \<lparr>handlers = (\<lambda>k. if k = ''musicbrainz_refresh''
       then Some (\<lambda>c w. (Inl (infrastructure_error ''provider down''), w\<lparr>events := []\<rparr>)) else None),
     max_attempts = 3, retry_delay = 60, lease_age = 20, clock = 101, fresh_uid = ''u'', fresh_record = ''r9'',
     reevaluate = (\<lambda>r t w. w), intake_changed = (\<lambda>s p r t w. Inl (value_error p)), has_locations = (\<lambda>s w. False),
     storage_state = Some ''ready'', maintain_storage = (\<lambda>w. w), reconcile_source = (\<lambda>s w. w)\<rparr>"

definition sample_lyric :: job where
  "sample_lyric = (new_job ''l2'' ''lrclib_fetch'' 3)\<lparr>library_record_id := Some ''r'', job_state := ''running'',
     attempts := [\<lparr>attempt_number = 1, at_state = ''running'', started_at = 10, finished_at = None\<rparr>]\<rparr>"

definition sample_world :: world where
  "sample_world = \<lparr>wdb = \<lparr>jobs = [sample_refresh\<lparr>source_metadata_revision := Some 2\<rparr>, sample_lyric],
       sources = [(''s'', 3)], library_records = [''r''], metadata_revisions = []\<rparr>,
     intake_states = [''s'' \<mapsto> ''recorded''], record_of = [''s'' \<mapsto> ''r''], replaced_by = Map.empty,
     processing_states = Map.empty, events = [], decoder_rows = []\<rparr>"

definition sample_claim :: claimed_job where
  "sample_claim = \<lparr>cl_job = ''m1'', cl_attempt = 1, cl_kind = ''musicbrainz_refresh'', reclaimed_stale = False\<rparr>"

text \<open>The same world where the source still has the revision the job was queued for.\<close>

definition current_world :: world where
  "current_world = sample_world\<lparr>wdb := (wdb sample_world)\<lparr>sources := [(''s'', 2)]\<rparr>\<rparr>"

lemmas world_simps = sample_world_def current_world_def sample_claim_def sample_lyric_def sample_refresh_def new_job_def

lemma sample_env_safe: "env_safe sample_env c"
  by (auto simp: env_safe_def sample_env_def split: if_splits)

lemma sample_world_wf: "wf_db (wdb sample_world)"
  by (simp add: world_simps wf_db_def rows_ok_def wf_job_def wf_attempts_def index_conflict_iff index_key_def is_active_def
      ck_jobs_target_or_reconciliation_def ck_jobs_expected_musicbrainz_pair_def sql_trim_def)

lemma sample_outdated: "outdated sample_claim sample_world" "\<not> outdated sample_claim current_world"
  by (simp_all add: outdated_def job_of_def find_row_def world_simps)

lemma sample_not_exhausted: "\<not> exhausted_provider sample_env sample_claim"
  by (simp add: exhausted_provider_def sample_claim_def)

lemma sample_failed: "process_claim sample_env sample_claim 100 current_world
    = (Inl (infrastructure_error ''provider down''), current_world\<lparr>events := []\<rparr>)"
  using sample_outdated(2) by (simp add: process_claim_def sample_env_def sample_claim_def)

lemma sample_run: "\<exists>w'. run_claimed sample_env sample_claim 100 current_world = Inr w'"
proof -
  let ?e = "infrastructure_error ''provider down''"
  obtain w1 where w1: "handle_failure sample_env sample_claim ?e 100 current_world = Inr w1"
    by (simp add: handle_failure_def infrastructure_error_def retry_claim_def Let_def claimed_record_def claimed_source_def
        job_of_def find_row_def on_db_def retry_def write_claimed_def update_row_def retry_write_def
        ensure_source_record_def record_event_def world_simps sample_env_def)
  have nr: "\<not> attempt_running sample_claim w1" using failure_closes [OF w1] .
  have "jobs (wdb w1) = jobs (retry sample_claim 101 60 3 (history_reason sample_claim
      (claimed_source sample_claim current_world) ''provider down'' (Some ?e)) (wdb current_world))"
    using w1 retry_claim_effect [of sample_env sample_claim "''provider down''" 100 "Some ?e" current_world w1]
    by (simp add: handle_failure_def infrastructure_error_def sample_env_def)
  then have "rows_ok (jobs (wdb w1))"
    by (simp add: retry_def write_claimed_def update_row_def retry_write_def end_attempt_def world_simps rows_ok_def
        index_conflict_iff index_key_def is_active_def ck_jobs_target_or_reconciliation_def
        ck_jobs_expected_musicbrainz_pair_def sql_trim_def)
  then have "finish_claim sample_env sample_claim w1 = Inr w1"
    using nr by (simp add: finish_claim_def flush_def)
  moreover have "process_and_apply sample_env sample_claim 100 current_world = Inl ?e"
    by (simp add: process_and_apply_def sample_failed)
  ultimately have "run_claimed sample_env sample_claim 100 current_world = Inr w1"
    using w1 by (simp add: run_claimed_live [OF sample_not_exhausted])
  then show ?thesis by blast
qed

lemma sample_superseded_run: "\<exists>w'. run_claimed sample_env sample_claim 100 sample_world = Inr w'"
proof -
  let ?w = "on_db (supersede_claim sample_claim 100) sample_world"
  have nr: "\<not> attempt_running sample_claim ?w"
    by (simp add: attempt_running_def job_of_def find_row_def on_db_def supersede_claim_def write_claimed_def update_row_def
        supersede_claim_write_def end_attempt_def world_simps)
  have "rows_ok (jobs (wdb ?w))"
    by (simp add: on_db_def supersede_claim_def write_claimed_def update_row_def supersede_claim_write_def end_attempt_def
        world_simps rows_ok_def index_conflict_iff index_key_def is_active_def ck_jobs_target_or_reconciliation_def
        ck_jobs_expected_musicbrainz_pair_def sql_trim_def)
  then have "finish_claim sample_env sample_claim ?w = Inr ?w" using nr by (simp add: finish_claim_def flush_def)
  moreover have "process_and_apply sample_env sample_claim 100 sample_world = Inr ?w"
    using sample_outdated(1) by (simp add: process_and_apply_def process_claim_def)
  ultimately have "run_claimed sample_env sample_claim 100 sample_world = Inr ?w"
    by (simp add: run_claimed_live [OF sample_not_exhausted])
  then show ?thesis by blast
qed

theorem run_claimed_closes_witness:
  "\<exists>w'. run_claimed sample_env sample_claim 100 current_world = Inr w'
     \<and> attempt_running sample_claim current_world \<and> \<not> attempt_running sample_claim w'"
proof -
  obtain w' where w': "run_claimed sample_env sample_claim 100 current_world = Inr w'" using sample_run by blast
  have "attempt_running sample_claim current_world"
    by (simp add: attempt_running_def job_of_def find_row_def world_simps)
  then show ?thesis using run_claimed_closes [OF w'] w' by blast
qed

theorem failed_handler_rolled_back_witness:
  "\<exists>w' j. run_claimed sample_env sample_claim 100 current_world = Inr w'
     \<and> job_of sample_claim w' = Some j \<and> job_state j = ''queued'' \<and> next_attempt_at j = Some 161
     \<and> find_row job_id ''l2'' (jobs (wdb w')) = Some sample_lyric"
proof -
  obtain w' where w': "run_claimed sample_env sample_claim 100 current_world = Inr w'" using sample_run by blast
  have j: "job_of sample_claim current_world = Some (sample_refresh\<lparr>source_metadata_revision := Some 2\<rparr>)"
    and l: "find_row job_id ''l2'' (jobs (wdb current_world)) = Some sample_lyric"
    by (simp_all add: job_of_def find_row_def world_simps)
  have env: "max_attempts sample_env = 3" "clock sample_env + retry_delay sample_env = 161"
    and c: "cl_attempt sample_claim = 1" "cl_job sample_claim \<noteq> ''l2''"
    by (simp_all add: sample_env_def sample_claim_def)
  obtain reason where
    "\<forall>i. i \<noteq> cl_job sample_claim \<longrightarrow> find_row job_id i (jobs (wdb w')) = find_row job_id i (jobs (wdb current_world))"
    "\<forall>j. job_of sample_claim current_world = Some j \<longrightarrow> (\<exists>j'. job_of sample_claim w' = Some j'
        \<and> (if cl_attempt sample_claim < max_attempts sample_env
           then job_state j' = ''queued'' \<and> next_attempt_at j' = Some (clock sample_env + retry_delay sample_env)
           else job_state j' = ''blocked_infrastructure'' \<and> next_attempt_at j' = None \<and> failure_reason j' = Some reason))"
    using failed_handler_rolled_back [OF w' sample_not_exhausted sample_failed] by (auto simp: infrastructure_error_def)
  then show ?thesis using w' j l env c by auto
qed

end
