(* ===== verification/Publication.thy ===== *)
theory Publication imports JobQueue begin

text \<open>
  The publication journal: \<^verbatim>\<open>services/publication/attempts.py\<close> and
  \<^verbatim>\<open>services/publication/cleanup.py\<close>.

  The state is the file system (regular files by absolute path, directories being implied by their
  files), the journal of attempts, the publications, the library rows they concern, the events and
  the job tables. File operations take effect at once; database changes become durable with the
  commit, so a crash keeps the files and takes the tables back to the last commit. SHA-256, the
  JSON of the manifest, symbolic links and the storage configuration are arguments.
\<close>

section \<open>Paths\<close>

type_synonym path = "string list" \<comment> \<open>the components of an absolute path\<close>

text \<open>\<open>PurePath.suffix\<close> of a file name (Python 3.14): leading dots belong to the stem.\<close>

definition name_suffix :: "string \<Rightarrow> string" where
  "name_suffix n = (let rest = dropWhile (\<lambda>c. c = CHR ''.'') n in
     if CHR ''.'' \<in> set rest then CHR ''.'' # rev (takeWhile (\<lambda>c. c \<noteq> CHR ''.'') (rev rest)) else [])"

definition path_suffix :: "path \<Rightarrow> string" where
  "path_suffix p = (if p = [] then [] else name_suffix (last p))"

definition is_nfo :: "path \<Rightarrow> bool" where
  "is_nfo p = (str_casefold (path_suffix p) = ''.nfo'')"

fun is_relative_to :: "path \<Rightarrow> path \<Rightarrow> bool" where
  "is_relative_to p [] = True"
| "is_relative_to (c # p) (d # root) = (c = d \<and> is_relative_to p root)"
| "is_relative_to [] (d # root) = False"

section \<open>Tables and state\<close>

datatype manifest_value = MInt int | MStr string | MNull

type_synonym manifest = "(string \<times> manifest_value) list"

record pattempt =
  pa_id :: string
  pa_record :: string
  pa_source :: string
  pa_revision :: "int option"
  pa_state :: string
  target_directory :: path
  target_audio_name :: string
  staging_directory :: path
  backup_directory :: path
  output_sha256 :: "string option"
  manifest_sha256 :: "string option"
  pa_created :: timestamp
  exposed_at :: "timestamp option"
  finalized_at :: "timestamp option"
  cleaned_at :: "timestamp option"
  pa_failure :: "string option"
  completion_state :: string

record publication =
  pub_id :: string
  pub_record :: string
  pub_source :: string
  pub_path :: path
  pub_format :: string
  pub_sha256 :: "string option"
  pub_revision :: "int option"
  pub_state :: string
  pub_created :: timestamp

record library_row =
  lr_id :: string
  publication_state :: string
  lr_processing_state :: string
  lr_updated :: timestamp
  lyrics_status :: string
  lyrics_path :: "string option"
  lyrics_publication_id :: "string option"
  lyrics_sha256 :: "string option"
  lyrics_updated :: "timestamp option"

record pstate =
  files :: "path \<rightharpoonup> string"
  journal :: "pattempt list"
  pubs :: "publication list"
  recs :: "library_row list"
  pevents :: "event list"
  pdb :: database

record storage_row =
  st_state :: string
  output_root :: path

record penv =
  sha256 :: "string \<Rightarrow> string"
  dump_json :: "manifest \<Rightarrow> string"
  parse_json :: "string \<Rightarrow> (string \<rightharpoonup> manifest_value) option"
  is_link :: "path \<Rightarrow> bool"
  storage :: "storage_row option"
  uid :: string

datatype perror = PLookupError string | PValueError string | POSError | PIntegrityError | WithdrawalError string

definition target_of :: "pattempt \<Rightarrow> path" where
  "target_of a = target_directory a @ [target_audio_name a]"

definition backup_of :: "pattempt \<Rightarrow> path" where
  "backup_of a = backup_directory a @ [target_audio_name a]"

definition output_of :: "pattempt \<Rightarrow> path" where
  "output_of a = staging_directory a @ [target_audio_name a]"

definition manifest_path :: "pattempt \<Rightarrow> path" where
  "manifest_path a = staging_directory a @ [''manifest.json'']"

definition restore_of :: "pattempt \<Rightarrow> path" where
  "restore_of a = backup_directory a @ [target_audio_name a @ ''.restore'']"

definition manifest_values :: "pattempt \<Rightarrow> manifest" where
  "manifest_values a = [
     (''attempt_id'', MStr (pa_id a)),
     (''metadata_revision_id'', (case pa_revision a of None \<Rightarrow> MNull | Some r \<Rightarrow> MInt r)),
     (''output_sha256'', (case output_sha256 a of None \<Rightarrow> MNull | Some h \<Rightarrow> MStr h)),
     (''source_id'', MStr (pa_source a))]"

definition manifest_of :: "penv \<Rightarrow> pattempt \<Rightarrow> string" where
  "manifest_of env a = dump_json env (manifest_values a)"

definition put_attempt :: "pattempt \<Rightarrow> pstate \<Rightarrow> pstate" where
  "put_attempt a s = s\<lparr>journal := update_row pa_id (pa_id a) (\<lambda>_. a) (journal s)\<rparr>"

definition publish_event :: "pattempt \<Rightarrow> string \<Rightarrow> string \<Rightarrow> timestamp \<Rightarrow> pstate \<Rightarrow> pstate" where
  "publish_event a k st now s = s\<lparr>pevents := pevents s @ [\<lparr>ev_record = pa_record a, ev_source = Some (pa_source a),
     ev_kind = k, ev_state = st, ev_reason = Some (pa_id a), ev_at = now\<rparr>]\<rparr>"

definition pending_states :: "string set" where
  "pending_states = {''reserved'', ''staged'', ''prepared'', ''exposed''}"

section \<open>Reserving and staging\<close>

record reserve_request =
  rr_attempt_id :: string
  rr_record :: string
  rr_source :: string
  rr_revision :: "int option"
  rr_target_directory :: path
  rr_target_audio_name :: string
  rr_staging_directory :: path
  rr_backup_directory :: path
  rr_now :: timestamp
  rr_completion_state :: string

definition current_for :: "reserve_request \<Rightarrow> publication \<Rightarrow> bool" where
  "current_for r p = (pub_record p = rr_record r \<and> pub_source p = rr_source r \<and> pub_revision p = rr_revision r
     \<and> pub_path p = rr_target_directory r @ [rr_target_audio_name r] \<and> pub_state p = ''current'')"

definition pending_for :: "reserve_request \<Rightarrow> pattempt \<Rightarrow> bool" where
  "pending_for r a = (pa_record a = rr_record r \<and> pa_source a = rr_source r \<and> pa_revision a = rr_revision r
     \<and> target_directory a = rr_target_directory r \<and> target_audio_name a = rr_target_audio_name r
     \<and> pa_state a \<in> pending_states)"

definition new_attempt :: "reserve_request \<Rightarrow> pattempt" where
  "new_attempt r = \<lparr>pa_id = rr_attempt_id r, pa_record = rr_record r, pa_source = rr_source r, pa_revision = rr_revision r,
     pa_state = ''reserved'', target_directory = rr_target_directory r, target_audio_name = rr_target_audio_name r,
     staging_directory = rr_staging_directory r, backup_directory = rr_backup_directory r, output_sha256 = None,
     manifest_sha256 = None, pa_created = rr_now r, exposed_at = None, finalized_at = None, cleaned_at = None,
     pa_failure = None, completion_state = rr_completion_state r\<rparr>"

definition reserve_attempt :: "reserve_request \<Rightarrow> pstate \<Rightarrow> (perror + pattempt option) \<times> pstate" where
  "reserve_attempt r s =
     (if rr_record r \<notin> lr_id ` set (recs s) then (Inl (PLookupError (rr_record r)), s)
      else if (\<exists>p \<in> set (pubs s). current_for r p) \<or> (\<exists>a \<in> set (journal s). pending_for r a) then (Inr None, s)
      else (let a = new_attempt r in
        (Inr (Some a), publish_event a ''publication_attempt_reserved'' ''publishing'' (rr_now r)
           (s\<lparr>journal := journal s @ [a]\<rparr>))))"

definition mark_staged :: "penv \<Rightarrow> pattempt \<Rightarrow> timestamp \<Rightarrow> pstate \<Rightarrow> (perror + pattempt) \<times> pstate" where
  "mark_staged env a now s = (case files s (output_of a) of
     None \<Rightarrow> (Inl POSError, s)
   | Some content \<Rightarrow>
     (let a1 = a\<lparr>output_sha256 := Some (sha256 env content), pa_state := ''staged''\<rparr>;
          manifest = manifest_of env a1;
          a2 = a1\<lparr>manifest_sha256 := Some (sha256 env manifest)\<rparr>;
          s1 = s\<lparr>files := (files s)(manifest_path a \<mapsto> manifest)\<rparr> in
      (Inr a2, publish_event a2 ''publication_attempt_staged'' ''publishing'' now (put_attempt a2 s1))))"

section \<open>Exposing\<close>

text \<open>The file operations of \<open>expose_attempt\<close> in their order: the manifest, the old output out of the
  way, the new output in place. A crash leaves a prefix of them behind.\<close>

definition move_file :: "path \<Rightarrow> path \<Rightarrow> (path \<rightharpoonup> string) \<Rightarrow> path \<rightharpoonup> string" where
  "move_file src dst fs = fs(src := None, dst := fs src)"

definition expose_actions :: "penv \<Rightarrow> pattempt \<Rightarrow> ((path \<rightharpoonup> string) \<Rightarrow> path \<rightharpoonup> string) list" where
  "expose_actions env a =
     [\<lambda>fs. fs(manifest_path a \<mapsto> manifest_of env a),
      \<lambda>fs. if fs (target_of a) \<noteq> None then move_file (target_of a) (backup_of a) fs else fs,
      \<lambda>fs. move_file (output_of a) (target_of a) fs]"

definition run_actions :: "((path \<rightharpoonup> string) \<Rightarrow> path \<rightharpoonup> string) list \<Rightarrow> (path \<rightharpoonup> string) \<Rightarrow> path \<rightharpoonup> string" where
  "run_actions acts fs = foldl (\<lambda>fs act. act fs) fs acts"

text \<open>\<open>replace_ok\<close> is whether the last rename succeeds.\<close>

definition expose_attempt :: "penv \<Rightarrow> bool \<Rightarrow> pattempt \<Rightarrow> timestamp \<Rightarrow> pstate \<Rightarrow> (perror + pattempt) \<times> pstate" where
  "expose_attempt env replace_ok a now s =
     (if pa_state a \<notin> {''staged'', ''prepared''}
      then (Inl (PValueError ''publication attempt is not a valid staged output''), s)
      else (case files s (output_of a) of
        None \<Rightarrow> (Inl POSError, s)
      | Some content \<Rightarrow>
        if output_sha256 a \<noteq> Some (sha256 env content)
        then (Inl (PValueError ''publication attempt is not a valid staged output''), s)
        else (let fs1 = run_actions (take 1 (expose_actions env a)) (files s) in
          if fs1 (backup_of a) \<noteq> None \<and> fs1 (target_of a) \<noteq> None
          then (Inl (PValueError ''publication attempt backup and target both exist''), s\<lparr>files := fs1\<rparr>)
          else (let fs2 = run_actions (take 2 (expose_actions env a)) (files s) in
            if \<not> replace_ok
            then (Inl POSError, s\<lparr>files := if fs2 (backup_of a) \<noteq> None \<and> fs2 (target_of a) = None
                                       then move_file (backup_of a) (target_of a) fs2 else fs2\<rparr>)
            else (let a1 = a\<lparr>manifest_sha256 := Some (sha256 env (manifest_of env a)), pa_state := ''exposed'',
                             exposed_at := Some now\<rparr> in
              (Inr a1, publish_event a1 ''publication_attempt_exposed'' ''publishing'' now
                 (put_attempt a1 (s\<lparr>files := run_actions (expose_actions env a) (files s)\<rparr>))))))))"

section \<open>Finalizing\<close>

definition new_publication :: "pattempt \<Rightarrow> timestamp \<Rightarrow> publication" where
  "new_publication a now = \<lparr>pub_id = ''publication-'' @ pa_id a, pub_record = pa_record a, pub_source = pa_source a,
     pub_path = target_of a,
     pub_format = (let x = name_suffix (target_audio_name a) in if str_startswith x ''.'' then drop 1 x else x),
     pub_sha256 = output_sha256 a, pub_revision = pa_revision a, pub_state = ''current'', pub_created = now\<rparr>"

definition supersede_current :: "string \<Rightarrow> publication list \<Rightarrow> publication list" where
  "supersede_current r ps = map (\<lambda>p. if pub_record p = r \<and> pub_state p = ''current''
     then p\<lparr>pub_state := ''superseded''\<rparr> else p) ps"

text \<open>The primary key and the two partial unique indexes of the table.\<close>

definition publication_conflict :: "publication \<Rightarrow> publication list \<Rightarrow> bool" where
  "publication_conflict p ps = (\<exists>q \<in> set ps. pub_id q = pub_id p
     \<or> (pub_state q = ''current'' \<and> (pub_record q = pub_record p \<or> pub_path q = pub_path p)))"

definition finalized_row :: "pattempt \<Rightarrow> bool \<Rightarrow> timestamp \<Rightarrow> library_row \<Rightarrow> library_row" where
  "finalized_row a lrclib_enabled now r = r\<lparr>publication_state := ''current'', lr_processing_state := completion_state a,
     lr_updated := now, lyrics_status := (if lrclib_enabled then ''pending'' else ''none''), lyrics_path := None,
     lyrics_publication_id := None, lyrics_sha256 := None, lyrics_updated := Some now\<rparr>"

definition finalize_attempt ::
  "penv \<Rightarrow> bool \<Rightarrow> pattempt \<Rightarrow> timestamp \<Rightarrow> pstate \<Rightarrow> (perror + publication) \<times> pstate" where
  "finalize_attempt env lrclib_enabled a now s =
     (if pa_state a = ''finalized'' then
        (case find_row pub_id (''publication-'' @ pa_id a) (pubs s) of
           None \<Rightarrow> (Inl (PLookupError (pa_id a)), s) | Some p \<Rightarrow> (Inr p, s))
      else (case files s (manifest_path a) of
        None \<Rightarrow> (Inl POSError, s)
      | Some manifest \<Rightarrow>
        if pa_state a \<noteq> ''exposed'' \<or> manifest_sha256 a \<noteq> Some (sha256 env manifest)
        then (Inl (PValueError ''publication attempt manifest is invalid''), s)
        else (case parse_json env manifest of
          None \<Rightarrow> (Inl (PValueError ''manifest validation''), s)
        | Some parsed \<Rightarrow>
          if parsed \<noteq> map_of (manifest_values a)
          then (Inl (PValueError ''publication attempt output is invalid''), s)
          else (case files s (target_of a) of
            None \<Rightarrow> (Inl POSError, s)
          | Some content \<Rightarrow>
            if output_sha256 a \<noteq> Some (sha256 env content)
            then (Inl (PValueError ''publication attempt output is invalid''), s)
            else if pa_record a \<notin> lr_id ` set (recs s) then (Inl (PLookupError (pa_record a)), s)
            else if publication_conflict (new_publication a now) (supersede_current (pa_record a) (pubs s))
            then (Inl PIntegrityError, s)
            else (let p = new_publication a now;
                      a1 = a\<lparr>pa_state := ''finalized'', finalized_at := Some now\<rparr>;
                      s1 = s\<lparr>pubs := supersede_current (pa_record a) (pubs s) @ [p],
                             recs := update_row lr_id (pa_record a) (finalized_row a lrclib_enabled now) (recs s)\<rparr>;
                      s2 = publish_event a1 ''publication_attempt_finalized'' ''complete'' now (put_attempt a1 s1) in
              if lrclib_enabled
              then (case enqueue_lrclib_fetch (uid env) id (pa_record a) now (pdb s2) of
                  (Inl _, _) \<Rightarrow> (Inl PIntegrityError, s)
                | (Inr _, db) \<Rightarrow> (Inr p, s2\<lparr>pdb := db\<rparr>))
              else (Inr p, s2))))))"

section \<open>Cleanup\<close>

definition sha_of :: "penv \<Rightarrow> (path \<rightharpoonup> string) \<Rightarrow> path \<Rightarrow> string option" where
  "sha_of env fs p = map_option (sha256 env) (fs p)"

fun link_components :: "penv \<Rightarrow> path \<Rightarrow> path \<Rightarrow> bool" where
  "link_components env current [] = False"
| "link_components env current (c # cs) = (is_link env (current @ [c]) \<or> link_components env (current @ [c]) cs)"

definition has_symlink_component :: "penv \<Rightarrow> path \<Rightarrow> path \<Rightarrow> bool" where
  "has_symlink_component env p root = link_components env root (drop (length root) p)"

fun remove_names :: "path \<Rightarrow> string list \<Rightarrow> (path \<rightharpoonup> string) \<Rightarrow> path \<rightharpoonup> string" where
  "remove_names dir [] fs = fs"
| "remove_names dir (n # ns) fs = remove_names dir ns (if is_nfo (dir @ [n]) then fs else fs(dir @ [n] := None))"

definition cleanup_workspace :: "pattempt \<Rightarrow> (path \<rightharpoonup> string) \<Rightarrow> path \<rightharpoonup> string" where
  "cleanup_workspace a fs =
    (let names = [target_audio_name a, ''manifest.json'', target_audio_name a @ ''.restore''] in
     remove_names (backup_directory a) names (remove_names (staging_directory a) names fs))"

definition current_paths :: "pstate \<Rightarrow> path set" where
  "current_paths s = pub_path ` {p \<in> set (pubs s). pub_state p = ''current''}"

text \<open>Destinations another attempt has reserved. \<open>except\<close> is the attempt that does not count.\<close>

definition protected_paths :: "string option \<Rightarrow> pstate \<Rightarrow> path set" where
  "protected_paths except s =
     target_of ` {a \<in> set (journal s). Some (pa_id a) \<noteq> except \<and> cleaned_at a = None \<and> pa_state a \<in> pending_states}"

text \<open>The loop over the superseded publications; the flag says whether all could be dealt with.\<close>

fun remove_superseded ::
  "penv \<Rightarrow> path \<Rightarrow> path set \<Rightarrow> path set \<Rightarrow> publication list \<Rightarrow> bool \<Rightarrow> (path \<rightharpoonup> string) \<Rightarrow> bool \<times> (path \<rightharpoonup> string)" where
  "remove_superseded env root cur prot [] ok fs = (ok, fs)"
| "remove_superseded env root cur prot (p # ps) ok fs =
    (let pth = pub_path p in
     if \<not> is_relative_to pth root \<or> has_symlink_component env pth root then remove_superseded env root cur prot ps ok fs
     else if pth \<in> prot then remove_superseded env root cur prot ps False fs
     else if pth \<in> cur \<or> is_nfo pth then remove_superseded env root cur prot ps ok fs
     else if fs pth \<noteq> None \<and> sha_of env fs pth \<noteq> pub_sha256 p then remove_superseded env root cur prot ps ok fs
     else remove_superseded env root cur prot ps ok (fs(pth := None)))"

definition cleanup_attempt :: "penv \<Rightarrow> pattempt \<Rightarrow> pstate \<Rightarrow> (perror + bool) \<times> pstate" where
  "cleanup_attempt env a s =
    (let s1 = s\<lparr>files := cleanup_workspace a (files s)\<rparr> in
     if pa_state a \<noteq> ''finalized'' then (Inr True, s1)
     else (case storage env of
        None \<Rightarrow> (Inr True, s1)
      | Some st \<Rightarrow>
        if is_link env (output_root st)
        then (Inl (PValueError ''storage output root must not be a symbolic link''), s1)
        else (case remove_superseded env (output_root st) (current_paths s1) (protected_paths (Some (pa_id a)) s1)
                (filter (\<lambda>p. pub_record p = pa_record a \<and> pub_state p = ''superseded'') (pubs s1)) True (files s1) of
            (completed, fs) \<Rightarrow> (Inr completed, s1\<lparr>files := fs\<rparr>))))"

definition finalize_and_cleanup_attempt ::
  "penv \<Rightarrow> bool \<Rightarrow> pattempt \<Rightarrow> timestamp \<Rightarrow> pstate \<Rightarrow> (perror + publication) \<times> pstate" where
  "finalize_and_cleanup_attempt env lrclib_enabled a now s =
    (case finalize_attempt env lrclib_enabled a now s of
       (Inl e, s1) \<Rightarrow> (Inl e, s1)
     | (Inr p, s1) \<Rightarrow>
       (let a1 = a\<lparr>pa_state := ''finalized'', finalized_at := (if pa_state a = ''finalized'' then finalized_at a else Some now)\<rparr> in
        case cleanup_attempt env a1 s1 of
          (Inl e, s2) \<Rightarrow> (Inl e, s2)
        | (Inr completed, s2) \<Rightarrow>
            (Inr p, if completed then put_attempt (a1\<lparr>cleaned_at := Some now\<rparr>) s2 else s2)))"

section \<open>Recovery\<close>

definition restore_backup :: "pattempt \<Rightarrow> (path \<rightharpoonup> string) \<Rightarrow> path \<rightharpoonup> string" where
  "restore_backup a fs = (case fs (backup_of a) of
     None \<Rightarrow> fs
   | Some c \<Rightarrow> move_file (restore_of a) (target_of a) (fs(restore_of a \<mapsto> c)))"

definition exposed_output_is_recoverable :: "penv \<Rightarrow> pattempt \<Rightarrow> (path \<rightharpoonup> string) \<Rightarrow> bool" where
  "exposed_output_is_recoverable env a fs = (case (fs (target_of a), fs (manifest_path a)) of
     (Some content, Some manifest) \<Rightarrow>
       (case parse_json env manifest of None \<Rightarrow> False
        | Some parsed \<Rightarrow> parsed = map_of (manifest_values a)
            \<and> manifest_sha256 a = Some (sha256 env manifest) \<and> output_sha256 a = Some (sha256 env content))
   | _ \<Rightarrow> False)"

definition reservation_key :: "penv \<Rightarrow> (path \<rightharpoonup> string) \<Rightarrow> pattempt \<Rightarrow> nat \<times> timestamp \<times> string" where
  "reservation_key env fs a =
     (if pa_state a = ''exposed'' then 0 else if exposed_output_is_recoverable env a fs then 1 else 2, pa_created a, pa_id a)"

definition peers_of :: "pattempt \<Rightarrow> pstate \<Rightarrow> pattempt list" where
  "peers_of a s = filter (\<lambda>b. target_directory b = target_directory a \<and> target_audio_name b = target_audio_name a
     \<and> cleaned_at b = None \<and> pa_state b \<notin> {''finalized'', ''failed''} \<and> pa_id b \<noteq> pa_id a) (journal s)"

definition holds_reservation :: "penv \<Rightarrow> pattempt \<Rightarrow> pstate \<Rightarrow> bool" where
  "holds_reservation env a s =
     (map_option pa_id (first_min (reservation_key env (files s)) (a # peers_of a s)) = Some (pa_id a))"

definition fail_attempt :: "pattempt \<Rightarrow> string \<Rightarrow> timestamp \<Rightarrow> pstate \<Rightarrow> pstate" where
  "fail_attempt a reason now s =
    (let a1 = a\<lparr>pa_state := ''failed'', pa_failure := Some reason\<rparr> in
     publish_event a1 ''publication_attempt_recovered_failed'' ''retrying'' now
       (put_attempt a1 (s\<lparr>files := restore_backup a (files s)\<rparr>)))"

definition finalize_or_fail :: "penv \<Rightarrow> bool \<Rightarrow> pattempt \<Rightarrow> timestamp \<Rightarrow> pstate \<Rightarrow> (perror + bool) \<times> pstate" where
  "finalize_or_fail env lrclib_enabled a now s = (case finalize_attempt env lrclib_enabled a now s of
     (Inr p, s1) \<Rightarrow> (Inr True, s1)
   | (Inl (PValueError _), s1) \<Rightarrow> (Inr True, fail_attempt a ''exposed output failed manifest or hash recovery verification'' now s1)
   | (Inl POSError, s1) \<Rightarrow> (Inr True, fail_attempt a ''exposed output failed manifest or hash recovery verification'' now s1)
   | (Inl e, s1) \<Rightarrow> (Inl e, s1))"

text \<open>\<open>_reconcile_step\<close>: \<open>busy\<close> says that the record row or the storage lock is taken. The result tells
  whether the attempt is to be visited again.\<close>

definition reconcile_step ::
  "penv \<Rightarrow> bool \<Rightarrow> bool \<Rightarrow> bool \<Rightarrow> string \<Rightarrow> timestamp \<Rightarrow> pstate \<Rightarrow> (perror + bool) \<times> pstate" where
  "reconcile_step env busy replace_ok lrclib_enabled i now s = (case find_row pa_id i (journal s) of
     None \<Rightarrow> (Inr False, s)
   | Some a \<Rightarrow>
     if cleaned_at a \<noteq> None \<or> busy \<or> pa_record a \<notin> lr_id ` set (recs s) then (Inr False, s)
     else if pa_state a \<in> {''finalized'', ''failed''} then
       (case cleanup_attempt env a s of
          (Inl e, s1) \<Rightarrow> (Inl e, s1)
        | (Inr completed, s1) \<Rightarrow> (Inr False, if completed then put_attempt (a\<lparr>cleaned_at := Some now\<rparr>) s1 else s1))
     else if pa_state a \<in> {''reserved'', ''staged'', ''prepared''} \<and> \<not> holds_reservation env a s then (Inr False, s)
     else if pa_state a = ''prepared'' then
       (case find (\<lambda>p. pub_path p = target_of a \<and> pub_state p = ''current'') (pubs s) of
          Some p \<Rightarrow>
            (if pub_record p \<noteq> pa_record a
             then (Inr True, put_attempt (a\<lparr>pa_state := ''failed'',
                     pa_failure := Some ''destination belongs to another library record''\<rparr>) s)
             else if exposed_output_is_recoverable env a (files s)
             then (Inr True, put_attempt (a\<lparr>pa_state := ''exposed''\<rparr>) s)
             else (case expose_attempt env replace_ok a now s of (Inl e, s1) \<Rightarrow> (Inl e, s1) | (Inr _, s1) \<Rightarrow> (Inr True, s1)))
        | None \<Rightarrow>
            (if exposed_output_is_recoverable env a (files s)
             then (Inr True, put_attempt (a\<lparr>pa_state := ''exposed''\<rparr>) s)
             else (case expose_attempt env replace_ok a now s of (Inl e, s1) \<Rightarrow> (Inl e, s1) | (Inr _, s1) \<Rightarrow> (Inr True, s1))))
     else (let a1 = (if pa_state a = ''staged'' \<and> exposed_output_is_recoverable env a (files s)
                     then a\<lparr>pa_state := ''exposed''\<rparr> else a) in
       if pa_state a1 \<in> {''reserved'', ''staged''}
       then (Inr True, fail_attempt a1 ''worker restart before output exposure'' now s)
       else finalize_or_fail env lrclib_enabled a1 now s))"

text \<open>\<open>while _reconcile_step(...): pass\<close>, bounded by \<open>fuel\<close>; the flag says that it came to an end.\<close>

fun reconcile_loop ::
  "nat \<Rightarrow> penv \<Rightarrow> bool \<Rightarrow> bool \<Rightarrow> bool \<Rightarrow> string \<Rightarrow> timestamp \<Rightarrow> pstate \<Rightarrow> (perror + bool) \<times> pstate" where
  "reconcile_loop 0 env busy replace_ok lrclib i now s = (Inr False, s)"
| "reconcile_loop (Suc n) env busy replace_ok lrclib i now s =
    (case reconcile_step env busy replace_ok lrclib i now s of
       (Inl e, s1) \<Rightarrow> (Inl e, s1)
     | (Inr False, s1) \<Rightarrow> (Inr True, s1)
     | (Inr True, s1) \<Rightarrow> reconcile_loop n env busy replace_ok lrclib i now s1)"

section \<open>Withdrawing\<close>

definition media_root :: "penv \<Rightarrow> path option \<Rightarrow> bool \<Rightarrow> perror + path" where
  "media_root env fallback is_dir =
     (case storage env of
        Some st \<Rightarrow>
          (if st_state st \<noteq> ''ready'' then Inl (WithdrawalError ''output migration is active; retry after completion'')
           else if is_link env (output_root st)
           then Inl (WithdrawalError ''managed output root cannot be a symbolic link'')
           else if \<not> is_dir then Inl (WithdrawalError ''managed output root is unavailable'')
           else Inr (output_root st))
      | None \<Rightarrow> (case fallback of
            None \<Rightarrow> Inl (WithdrawalError ''managed output is not configured'')
          | Some p \<Rightarrow>
            (if is_link env p then Inl (WithdrawalError ''managed output root cannot be a symbolic link'')
             else if \<not> is_dir then Inl (WithdrawalError ''managed output root is unavailable'')
             else Inr p)))"

definition validate_managed_audio :: "penv \<Rightarrow> path \<Rightarrow> (path \<rightharpoonup> string) \<Rightarrow> publication \<Rightarrow> perror option" where
  "validate_managed_audio env root fs p =
     (if \<not> is_relative_to (pub_path p) root \<or> has_symlink_component env (pub_path p) root \<or> is_nfo (pub_path p)
      then Some (WithdrawalError ''publication path is outside managed output'')
      else if fs (pub_path p) = None then None
      else if sha_of env fs (pub_path p) \<noteq> pub_sha256 p
      then Some (WithdrawalError ''published file changed; refusing unsafe removal'')
      else None)"

fun first_error :: "('a \<Rightarrow> perror option) \<Rightarrow> 'a list \<Rightarrow> perror option" where
  "first_error f [] = None"
| "first_error f (x # xs) = (case f x of Some e \<Rightarrow> Some e | None \<Rightarrow> first_error f xs)"

definition withdrawn_row :: "string set \<Rightarrow> timestamp \<Rightarrow> library_row \<Rightarrow> library_row" where
  "withdrawn_row ids now r =
    (let r1 = r\<lparr>publication_state := ''absent'', lr_updated := now\<rparr> in
     case lyrics_publication_id r of
       None \<Rightarrow> r1
     | Some i \<Rightarrow> (if i \<in> ids
         then r1\<lparr>lyrics_status := ''none'', lyrics_path := None, lyrics_publication_id := None, lyrics_sha256 := None,
                 lyrics_updated := Some now\<rparr> else r1))"

definition withdraw_current_publication ::
  "penv \<Rightarrow> string \<Rightarrow> path option \<Rightarrow> bool \<Rightarrow> timestamp \<Rightarrow> pstate \<Rightarrow> (perror + bool) \<times> pstate" where
  "withdraw_current_publication env r fallback is_dir now s = (case media_root env fallback is_dir of
     Inl e \<Rightarrow> (Inl e, s)
   | Inr root \<Rightarrow>
     if r \<notin> lr_id ` set (recs s) then (Inl (PLookupError r), s)
     else if \<exists>a \<in> set (journal s). pa_record a = r \<and> pa_state a \<in> pending_states
     then (Inl (WithdrawalError ''publication is being updated; retry after processing completes''), s)
     else (let current = filter (\<lambda>p. pub_record p = r \<and> pub_state p = ''current'') (pubs s) in
       case first_error (validate_managed_audio env root (files s)) current of
         Some e \<Rightarrow> (Inl e, s)
       | None \<Rightarrow>
         if current = [] then (Inr False, s\<lparr>recs := update_row lr_id r (\<lambda>x. x\<lparr>publication_state := ''absent''\<rparr>) (recs s)\<rparr>)
         else (Inr True, s\<lparr>
            pubs := map (\<lambda>p. if pub_record p = r \<and> pub_state p = ''current'' then p\<lparr>pub_state := ''withdrawn''\<rparr> else p) (pubs s),
            recs := update_row lr_id r (withdrawn_row (pub_id ` set current) now) (recs s),
            pevents := pevents s @ [\<lparr>ev_record = r, ev_source = Some (pub_source (hd current)), ev_kind = ''publication_withdrawn'',
              ev_state = ''absent'', ev_reason = Some ''removed by operator'', ev_at = now\<rparr>]\<rparr>)))"

text \<open>The loop over the withdrawn publications; an unsafe file ends it with the error, after the files
  before it are gone.\<close>

fun remove_withdrawn ::
  "penv \<Rightarrow> path \<Rightarrow> path set \<Rightarrow> publication list \<Rightarrow> (path \<rightharpoonup> string) \<Rightarrow> (perror + unit) \<times> (path \<rightharpoonup> string)" where
  "remove_withdrawn env root kept [] fs = (Inr (), fs)"
| "remove_withdrawn env root kept (p # ps) fs =
     (if pub_path p \<in> kept then remove_withdrawn env root kept ps fs
      else (case validate_managed_audio env root fs p of
          Some e \<Rightarrow> (Inl e, fs)
        | None \<Rightarrow> remove_withdrawn env root kept ps (fs(pub_path p := None))))"

definition cleanup_withdrawn_publications ::
  "penv \<Rightarrow> string \<Rightarrow> path option \<Rightarrow> bool \<Rightarrow> pstate \<Rightarrow> (perror + unit) \<times> pstate" where
  "cleanup_withdrawn_publications env r fallback is_dir s = (case media_root env fallback is_dir of
     Inl e \<Rightarrow> (Inl e, s)
   | Inr root \<Rightarrow>
     (case remove_withdrawn env root (current_paths s \<union> protected_paths None s)
             (filter (\<lambda>p. pub_record p = r \<and> pub_state p = ''withdrawn'') (pubs s)) (files s) of
        (res, fs) \<Rightarrow> (res, s\<lparr>files := fs\<rparr>)))"

section \<open>Lemmas\<close>

interpretation pw: keyed_write pub_id "\<lambda>p. p\<lparr>pub_state := st\<rparr>"
  by unfold_locales simp

interpretation lw: keyed_write lr_id "finalized_row a e now"
  by unfold_locales (simp add: finalized_row_def)

interpretation ww: keyed_write lr_id "withdrawn_row ids now"
  by unfold_locales (simp add: withdrawn_row_def Let_def split: option.split)

definition current_of :: "string \<Rightarrow> pstate \<Rightarrow> publication list" where
  "current_of r s = filter (\<lambda>p. pub_record p = r \<and> pub_state p = ''current'') (pubs s)"

lemma put_attempt_simps [simp]:
  "files (put_attempt a s) = files s" "pubs (put_attempt a s) = pubs s" "recs (put_attempt a s) = recs s"
  "pdb (put_attempt a s) = pdb s" "pevents (put_attempt a s) = pevents s"
  by (simp_all add: put_attempt_def)

lemma publish_event_simps [simp]:
  "files (publish_event a k st now s) = files s" "pubs (publish_event a k st now s) = pubs s"
  "recs (publish_event a k st now s) = recs s" "pdb (publish_event a k st now s) = pdb s"
  "journal (publish_event a k st now s) = journal s"
  by (simp_all add: publish_event_def)

lemma find_put: "find_row pa_id i (journal s) = Some b \<Longrightarrow> pa_id a = i \<Longrightarrow> find_row pa_id i (journal (put_attempt a s)) = Some a"
proof -
  assume f: "find_row pa_id i (journal s) = Some b" and a: "pa_id a = i"
  have "find_row pa_id i rows = Some b \<Longrightarrow> find_row pa_id i (update_row pa_id i (\<lambda>_. a) rows) = Some a" for rows
    using a by (induction rows) (auto simp: find_row_def update_row_def split: if_splits)
  then show ?thesis using f a by (simp add: put_attempt_def)
qed

lemma no_publication_conflict:
  assumes "\<And>p. p \<in> set ps \<Longrightarrow> pub_path p = target_of a \<Longrightarrow> pub_state p = ''current'' \<Longrightarrow> pub_record p = pa_record a"
    and "\<And>p. p \<in> set ps \<Longrightarrow> pub_id p \<noteq> ''publication-'' @ pa_id a"
  shows "\<not> publication_conflict (new_publication a now) (supersede_current (pa_record a) ps)"
  using assms by (auto simp: publication_conflict_def supersede_current_def new_publication_def)

lemma filter_supersede_current:
  "filter (\<lambda>p. pub_record p = r \<and> pub_state p = ''current'') (supersede_current r ps) = []"
  by (induction ps) (simp_all add: supersede_current_def)

lemma finalize_facts:
  assumes "finalize_attempt env e a now s = (Inr p, s')" and "pa_state a \<noteq> ''finalized''"
  shows "p = new_publication a now \<and> pubs s' = supersede_current (pa_record a) (pubs s) @ [p]
    \<and> files s' = files s \<and> sha_of env (files s) (target_of a) = output_sha256 a
    \<and> recs s' = update_row lr_id (pa_record a) (finalized_row a e now) (recs s)
    \<and> pa_record a \<in> lr_id ` set (recs s)
    \<and> \<not> publication_conflict p (supersede_current (pa_record a) (pubs s))
    \<and> journal s' = update_row pa_id (pa_id a) (\<lambda>_. a\<lparr>pa_state := ''finalized'', finalized_at := Some now\<rparr>) (journal s)
    \<and> (if e then \<exists>x. enqueue_lrclib_fetch (uid env) id (pa_record a) now (pdb s) = (Inr x, pdb s') else pdb s' = pdb s)"
proof -
  obtain manifest parsed content where f: "files s (manifest_path a) = Some manifest" "files s (target_of a) = Some content"
      "\<not> (pa_state a \<noteq> ''exposed'' \<or> manifest_sha256 a \<noteq> Some (sha256 env manifest))"
      "parse_json env manifest = Some parsed" "\<not> parsed \<noteq> map_of (manifest_values a)"
      "\<not> output_sha256 a \<noteq> Some (sha256 env content)" "\<not> pa_record a \<notin> lr_id ` set (recs s)"
      "\<not> publication_conflict (new_publication a now) (supersede_current (pa_record a) (pubs s))"
    using assms by (simp add: finalize_attempt_def split: option.splits if_splits)
  define s2 where "s2 = publish_event (a\<lparr>pa_state := ''finalized'', finalized_at := Some now\<rparr>)
       ''publication_attempt_finalized'' ''complete'' now
       (put_attempt (a\<lparr>pa_state := ''finalized'', finalized_at := Some now\<rparr>)
         (s\<lparr>pubs := supersede_current (pa_record a) (pubs s) @ [new_publication a now],
            recs := update_row lr_id (pa_record a) (finalized_row a e now) (recs s)\<rparr>))"
  have r: "(if e then (case enqueue_lrclib_fetch (uid env) id (pa_record a) now (pdb s2) of
        (Inl _, _) \<Rightarrow> (Inl PIntegrityError, s) | (Inr _, db) \<Rightarrow> (Inr (new_publication a now), s2\<lparr>pdb := db\<rparr>))
      else (Inr (new_publication a now), s2)) = (Inr p, s')"
    using assms unfolding finalize_attempt_def f(1,2,4) option.case if_not_P [OF f(3)] if_not_P [OF f(5)]
      if_not_P [OF f(6)] if_not_P [OF f(7)] if_not_P [OF f(8)] Let_def s2_def by (simp only: if_False)
  have s2: "files s2 = files s" "pdb s2 = pdb s" "pubs s2 = supersede_current (pa_record a) (pubs s) @ [new_publication a now]"
      "recs s2 = update_row lr_id (pa_record a) (finalized_row a e now) (recs s)"
      "journal s2 = update_row pa_id (pa_id a) (\<lambda>_. a\<lparr>pa_state := ''finalized'', finalized_at := Some now\<rparr>) (journal s)"
    by (simp_all add: s2_def put_attempt_def)
  show ?thesis
  proof (cases e)
    case True
    obtain x db where x: "enqueue_lrclib_fetch (uid env) id (pa_record a) now (pdb s) = (Inr x, db)"
        "p = new_publication a now" "s' = s2\<lparr>pdb := db\<rparr>"
      using r True s2(2) by (auto split: prod.splits sum.splits)
    then show ?thesis using s2 f True by (simp add: sha_of_def)
  next
    case False
    then show ?thesis using r s2 f by (simp add: sha_of_def)
  qed
qed

text \<open>An exposed attempt whose output and manifest check out is finalized.\<close>

lemma finalize_ok:
  assumes "pa_state a = ''exposed''" and "exposed_output_is_recoverable env a (files s)"
    and "pa_record a \<in> lr_id ` set (recs s)"
    and "\<not> publication_conflict (new_publication a now) (supersede_current (pa_record a) (pubs s))"
    and "e \<longrightarrow> (\<exists>x d. enqueue_lrclib_fetch (uid env) id (pa_record a) now (pdb s) = (Inr x, d))"
  shows "\<exists>s'. finalize_attempt env e a now s = (Inr (new_publication a now), s')"
proof -
  obtain content manifest where f: "files s (target_of a) = Some content" "files s (manifest_path a) = Some manifest"
      "parse_json env manifest = Some (map_of (manifest_values a))" "manifest_sha256 a = Some (sha256 env manifest)"
      "output_sha256 a = Some (sha256 env content)"
    using assms(2) by (auto simp: exposed_output_is_recoverable_def split: option.splits)
  show ?thesis using assms f
    by (cases e) (auto simp: finalize_attempt_def Let_def split: prod.splits sum.splits)
qed

text \<open>Where the paths of an attempt are apart: the staged names do not coincide with the destination
  or the backup.\<close>

definition paths_apart :: "pattempt \<Rightarrow> bool" where
  "paths_apart a = distinct [manifest_path a, output_of a, backup_of a, target_of a]"

definition json_law :: "penv \<Rightarrow> bool" where
  "json_law env = (\<forall>a. parse_json env (dump_json env (manifest_values a)) = Some (map_of (manifest_values a)))"

lemma expose_files:
  assumes "paths_apart a"
  shows "run_actions (expose_actions env a) fs (target_of a) = fs (output_of a)"
    "run_actions (expose_actions env a) fs (manifest_path a) = Some (manifest_of env a)"
  using assms by (auto simp: run_actions_def expose_actions_def move_file_def paths_apart_def)

lemma crash_files:
  assumes "paths_apart a" and "fs (backup_of a) = None" and "k \<le> 2"
  shows "run_actions (take k (expose_actions env a)) fs (output_of a) = fs (output_of a)
    \<and> (run_actions (take k (expose_actions env a)) fs (backup_of a) = None
       \<or> run_actions (take k (expose_actions env a)) fs (target_of a) = None)"
proof -
  have "k = 0 \<or> k = 1 \<or> k = 2" using assms(3) by auto
  then show ?thesis using assms(1,2)
    by (elim disjE) (auto simp: run_actions_def expose_actions_def move_file_def paths_apart_def numeral_2_eq_2)
qed

lemma expose_ok:
  assumes "pa_state a = ''prepared''" and "files s (output_of a) = Some content"
    and "output_sha256 a = Some (sha256 env content)" and "paths_apart a"
    and "files s (backup_of a) = None \<or> files s (target_of a) = None"
  shows "\<exists>a1 s1. expose_attempt env True a now s = (Inr a1, s1)
    \<and> a1 = a\<lparr>manifest_sha256 := Some (sha256 env (manifest_of env a)), pa_state := ''exposed'', exposed_at := Some now\<rparr>
    \<and> files s1 = run_actions (expose_actions env a) (files s) \<and> pubs s1 = pubs s \<and> recs s1 = recs s \<and> pdb s1 = pdb s
    \<and> journal s1 = journal (put_attempt a1 s)"
proof -
  have "\<not> (run_actions (take 1 (expose_actions env a)) (files s) (backup_of a) \<noteq> None
      \<and> run_actions (take 1 (expose_actions env a)) (files s) (target_of a) \<noteq> None)"
    using assms(4,5) by (auto simp: run_actions_def expose_actions_def paths_apart_def)
  then show ?thesis using assms(1-3)
    by (simp add: expose_attempt_def Let_def put_attempt_def publish_event_def)
qed

lemma same_manifest: "manifest_values (a\<lparr>manifest_sha256 := m, pa_state := st, exposed_at := t\<rparr>) = manifest_values a"
  "manifest_values (a\<lparr>pa_state := st\<rparr>) = manifest_values a"
  by (simp_all add: manifest_values_def)

lemma same_paths:
  "target_of (a\<lparr>manifest_sha256 := m, pa_state := st, exposed_at := t\<rparr>) = target_of a"
  "manifest_path (a\<lparr>manifest_sha256 := m, pa_state := st, exposed_at := t\<rparr>) = manifest_path a"
  "target_of (a\<lparr>pa_state := st\<rparr>) = target_of a" "manifest_path (a\<lparr>pa_state := st\<rparr>) = manifest_path a"
  by (simp_all add: target_of_def manifest_path_def)

lemma same_hashes: "manifest_sha256 (a\<lparr>pa_state := st\<rparr>) = manifest_sha256 a"
  "output_sha256 (a\<lparr>pa_state := st\<rparr>) = output_sha256 a"
  by simp_all

lemma expose_recoverable:
  assumes "json_law env" and "paths_apart a" and "files s (output_of a) = Some content"
    and "output_sha256 a = Some (sha256 env content)"
    and "a1 = a\<lparr>manifest_sha256 := Some (sha256 env (manifest_of env a)), pa_state := ''exposed'', exposed_at := Some now\<rparr>"
    and "files s1 = run_actions (expose_actions env a) (files s)"
  shows "exposed_output_is_recoverable env a1 (files s1)"
  unfolding exposed_output_is_recoverable_def assms(5) same_paths assms(6) expose_files [OF assms(2)] same_manifest
  using assms(1,3,4) by (simp add: json_law_def manifest_of_def)

text \<open>From a prepared attempt that holds its destination: one step exposes it, the next finalizes it.\<close>

lemma prepared_recovers:
  assumes "find_row pa_id i (journal s) = Some a" and "pa_state a = ''prepared''" and "cleaned_at a = None"
    and "pa_record a \<in> lr_id ` set (recs s)" and "peers_of a s = []"
    and "\<And>p. p \<in> set (pubs s) \<Longrightarrow> pub_id p \<noteq> ''publication-'' @ i"
    and "\<And>p. p \<in> set (pubs s) \<Longrightarrow> pub_path p = target_of a \<Longrightarrow> pub_state p = ''current'' \<Longrightarrow> pub_record p = pa_record a"
    and "exposed_output_is_recoverable env a (files s)
      \<or> (json_law env \<and> paths_apart a \<and> (\<exists>content. files s (output_of a) = Some content
           \<and> output_sha256 a = Some (sha256 env content)) \<and> (files s (backup_of a) = None \<or> files s (target_of a) = None))"
    and "e \<longrightarrow> (\<exists>x d. enqueue_lrclib_fetch (uid env) id (pa_record a) now (pdb s) = (Inr x, d))"
  shows "\<exists>s1 s2 a1. reconcile_step env False True e i now s = (Inr True, s1)
    \<and> reconcile_step env False True e i now s1 = (Inr True, s2)
    \<and> finalize_attempt env e a1 now s1 = (Inr (new_publication a1 now), s2) \<and> pa_state a1 = ''exposed''
    \<and> pa_record a1 = pa_record a \<and> target_of a1 = target_of a \<and> output_sha256 a1 = output_sha256 a"
proof -
  have pid: "pa_id a = i" using find_row_Some [OF assms(1)] by simp
  have hold: "holds_reservation env a s" by (simp add: holds_reservation_def assms(5) first_min_def)
  have owner: "find (\<lambda>p. pub_path p = target_of a \<and> pub_state p = ''current'') (pubs s) = Some p \<Longrightarrow> pub_record p = pa_record a" for p
    using assms(7) by (auto simp: find_Some_iff)
  obtain a1 s1 where one: "reconcile_step env False True e i now s = (Inr True, s1)"
    "find_row pa_id i (journal s1) = Some a1" "pa_state a1 = ''exposed''" "cleaned_at a1 = None"
    "exposed_output_is_recoverable env a1 (files s1)" "recs s1 = recs s" "pdb s1 = pdb s" "pubs s1 = pubs s" "pa_id a1 = i"
    "pa_record a1 = pa_record a" "target_of a1 = target_of a" "output_sha256 a1 = output_sha256 a"
  proof (cases "exposed_output_is_recoverable env a (files s)")
    case True
    have "reconcile_step env False True e i now s = (Inr True, put_attempt (a\<lparr>pa_state := ''exposed''\<rparr>) s)"
      using assms(1-4) hold True owner
      by (cases "find (\<lambda>p. pub_path p = target_of a \<and> pub_state p = ''current'') (pubs s)") (auto simp: reconcile_step_def)
    moreover have "exposed_output_is_recoverable env (a\<lparr>pa_state := ''exposed''\<rparr>) (files s)"
      using True unfolding exposed_output_is_recoverable_def same_paths same_manifest same_hashes .
    ultimately show ?thesis using that [of "put_attempt (a\<lparr>pa_state := ''exposed''\<rparr>) s" "a\<lparr>pa_state := ''exposed''\<rparr>"]
        find_put [OF assms(1), of "a\<lparr>pa_state := ''exposed''\<rparr>"] pid assms(3) by (simp add: same_paths)
  next
    case False
    then obtain content where c: "json_law env" "paths_apart a" "files s (output_of a) = Some content"
        "output_sha256 a = Some (sha256 env content)" "files s (backup_of a) = None \<or> files s (target_of a) = None"
      using assms(8) by blast
    obtain a1 s1 where x: "expose_attempt env True a now s = (Inr a1, s1)"
      "a1 = a\<lparr>manifest_sha256 := Some (sha256 env (manifest_of env a)), pa_state := ''exposed'', exposed_at := Some now\<rparr>"
      "files s1 = run_actions (expose_actions env a) (files s)" "pubs s1 = pubs s" "recs s1 = recs s" "pdb s1 = pdb s"
      "journal s1 = journal (put_attempt a1 s)"
      using expose_ok [OF assms(2) c(3,4,2,5), of now] by blast
    have "reconcile_step env False True e i now s = (Inr True, s1)"
      using assms(1-4) hold False owner x(1)
      by (cases "find (\<lambda>p. pub_path p = target_of a \<and> pub_state p = ''current'') (pubs s)") (auto simp: reconcile_step_def)
    moreover have "pa_id a1 = i" using pid x(2) by simp
    moreover have "exposed_output_is_recoverable env a1 (files s1)" using expose_recoverable [OF c(1-4) x(2,3)] .
    ultimately show ?thesis using that [of s1 a1] find_put [OF assms(1), of a1] x(2,4-7) assms(3) pid
      by (simp add: same_paths)
  qed
  have rec: "pa_record a1 \<in> lr_id ` set (recs s1)" using one(6,10) assms(4) by simp
  have free: "\<not> publication_conflict (new_publication a1 now) (supersede_current (pa_record a1) (pubs s1))"
    using no_publication_conflict [of "pubs s1" a1] assms(6,7) one(8-11) by auto
  obtain s2 where f: "finalize_attempt env e a1 now s1 = (Inr (new_publication a1 now), s2)"
    using finalize_ok [OF one(3,5) rec free, of e] one(7,10) assms(9) by auto
  have "reconcile_step env False True e i now s1 = (Inr True, s2)"
    using one(2-4) rec f by (simp add: reconcile_step_def finalize_or_fail_def Let_def)
  then show ?thesis using one f by blast
qed

section \<open>Properties\<close>

text \<open>C12. Finalizing an exposed attempt makes it the one current publication of its record: the published
  file has the hash of the attempt's output, the previous publications of the record are superseded,
  those of other records are untouched, no other publication is current at that path, no file changes, and with the lyric provider enabled exactly
  one lyric fetch is active.\<close>

theorem finalize_publishes:
  assumes "finalize_attempt env e a now s = (Inr p, s')" and "pa_state a \<noteq> ''finalized''" and "wf_db (pdb s)"
  shows "current_of (pa_record a) s' = [p] \<and> (\<forall>q \<in> set (pubs s'). pub_state q = ''current'' \<and> pub_path q = target_of a \<longrightarrow> q = p)
    \<and> pub_path p = target_of a \<and> pub_sha256 p = output_sha256 a
    \<and> sha_of env (files s') (pub_path p) = pub_sha256 p \<and> files s' = files s
    \<and> (\<forall>r. r \<noteq> pa_record a \<longrightarrow> current_of r s' = current_of r s)
    \<and> (e \<longrightarrow> length (active_in (record_slot ''lrclib_fetch'' (pa_record a)) (pdb s')) = 1)"
proof -
  note f = finalize_facts [OF assms(1,2)]
  have p: "p = new_publication a now" using f by blast
  have other: "filter (\<lambda>p. pub_record p = r \<and> pub_state p = ''current'') (supersede_current (pa_record a) ps)
      = filter (\<lambda>p. pub_record p = r \<and> pub_state p = ''current'') ps" if "r \<noteq> pa_record a" for r ps
    using that by (induction ps) (simp_all add: supersede_current_def)
  have cur: "current_of (pa_record a) s' = [p]"
    using f by (simp add: current_of_def filter_supersede_current new_publication_def)
  have "\<forall>r. r \<noteq> pa_record a \<longrightarrow> current_of r s' = current_of r s"
    using f other by (simp add: current_of_def new_publication_def)
  moreover have "\<forall>q \<in> set (pubs s'). pub_state q = ''current'' \<and> pub_path q = target_of a \<longrightarrow> q = p"
    using f by (auto simp: publication_conflict_def p new_publication_def)
  moreover have "e \<longrightarrow> length (active_in (record_slot ''lrclib_fetch'' (pa_record a)) (pdb s')) = 1"
    using f lrclib_fetch_append [OF assms(3)] by auto
  ultimately show ?thesis using cur f by (simp add: p new_publication_def)
qed

text \<open>C13. Crash recovery of an exposure. A prepared attempt whose output is staged is exposed by three file
  operations followed by a commit. If the process dies after any number k of them, so that the
  files are changed and the tables are not, two recovery steps expose and finalize the attempt: the
  destination holds a file with the hash of the staged output, and it is the one current
  publication of the record.\<close>

theorem exposure_crash_recovered:
  assumes "json_law env" and "paths_apart a" and "k \<le> 3"
    and "find_row pa_id i (journal s) = Some a" and "pa_state a = ''prepared''" and "cleaned_at a = None"
    and "files s (output_of a) = Some content" and "output_sha256 a = Some (sha256 env content)"
    and "manifest_sha256 a = Some (sha256 env (manifest_of env a))" and "files s (backup_of a) = None"
    and "pa_record a \<in> lr_id ` set (recs s)" and "peers_of a s = []"
    and "\<And>p. p \<in> set (pubs s) \<Longrightarrow> pub_id p \<noteq> ''publication-'' @ i"
    and "\<And>p. p \<in> set (pubs s) \<Longrightarrow> pub_path p = target_of a \<Longrightarrow> pub_state p = ''current'' \<Longrightarrow> pub_record p = pa_record a"
    and "e \<longrightarrow> (\<exists>x d. enqueue_lrclib_fetch (uid env) id (pa_record a) now (pdb s) = (Inr x, d))"
    and crash: "sk = s\<lparr>files := run_actions (take k (expose_actions env a)) (files s)\<rparr>"
  shows "\<exists>s1 s2 p. reconcile_step env False True e i now sk = (Inr True, s1)
    \<and> reconcile_step env False True e i now s1 = (Inr True, s2)
    \<and> current_of (pa_record a) s2 = [p] \<and> pub_path p = target_of a
    \<and> sha_of env (files s2) (target_of a) = output_sha256 a"
proof -
  have ready: "exposed_output_is_recoverable env a (files sk)
      \<or> (json_law env \<and> paths_apart a \<and> (\<exists>content. files sk (output_of a) = Some content
           \<and> output_sha256 a = Some (sha256 env content)) \<and> (files sk (backup_of a) = None \<or> files sk (target_of a) = None))"
  proof (cases "k \<le> 2")
    case True
    then show ?thesis using crash_files [where fs = "files s" and env = env, OF assms(2,10) True] assms(1,2,7,8) by (simp add: crash)
  next
    case False
    then have "run_actions (take k (expose_actions env a)) (files s) = run_actions (expose_actions env a) (files s)"
      using assms(3) by (simp add: expose_actions_def)
    then have "files sk (target_of a) = Some content" "files sk (manifest_path a) = Some (manifest_of env a)"
      using expose_files [OF assms(2)] assms(7) by (simp_all add: crash)
    then have "exposed_output_is_recoverable env a (files sk)"
      using assms(1,8,9) by (simp add: exposed_output_is_recoverable_def json_law_def manifest_of_def)
    then show ?thesis by blast
  qed
  have same: "journal sk = journal s" "recs sk = recs s" "pubs sk = pubs s" "pdb sk = pdb s" "peers_of a sk = []"
    using assms(12) by (simp_all add: crash peers_of_def)
  have row: "find_row pa_id i (journal sk) = Some a" using same(1) assms(4) by simp
  have rec: "pa_record a \<in> lr_id ` set (recs sk)" using same(2) assms(11) by simp
  have fresh: "pub_id p \<noteq> ''publication-'' @ i" if "p \<in> set (pubs sk)" for p using that same(3) assms(13) by simp
  have own: "pub_record p = pa_record a" if "p \<in> set (pubs sk)" "pub_path p = target_of a" "pub_state p = ''current''" for p
    using that same(3) assms(14) by simp
  have lyr: "e \<longrightarrow> (\<exists>x d. enqueue_lrclib_fetch (uid env) id (pa_record a) now (pdb sk) = (Inr x, d))"
    using same(4) assms(15) by simp
  obtain s1 s2 a1 where st: "reconcile_step env False True e i now sk = (Inr True, s1)"
      "reconcile_step env False True e i now s1 = (Inr True, s2)"
      "finalize_attempt env e a1 now s1 = (Inr (new_publication a1 now), s2)" "pa_state a1 = ''exposed''"
      "pa_record a1 = pa_record a" "target_of a1 = target_of a" "output_sha256 a1 = output_sha256 a"
    using prepared_recovers [OF row assms(5,6) rec same(5) fresh own ready lyr] by blast
  have "pa_state a1 \<noteq> ''finalized''" using st(4) by simp
  note f = finalize_facts [OF st(3) this]
  have "current_of (pa_record a) s2 = [new_publication a1 now]"
    using f st(5) by (simp add: current_of_def filter_supersede_current new_publication_def)
  moreover have "sha_of env (files s2) (target_of a) = output_sha256 a" using f st(6,7) by simp
  moreover have "pub_path (new_publication a1 now) = target_of a" using st(6) by (simp add: new_publication_def)
  ultimately show ?thesis using st(1,2) by blast
qed

lemma find_update: "find_row pa_id i rows = Some b \<Longrightarrow> pa_id a = i \<Longrightarrow> find_row pa_id i (update_row pa_id i (\<lambda>_. a) rows) = Some a"
  by (induction rows) (auto simp: find_row_def update_row_def split: if_splits)

lemma fail_attempt_row:
  "find_row pa_id i (journal s) = Some b \<Longrightarrow> pa_id a = i \<Longrightarrow>
     \<exists>a1. find_row pa_id i (journal (fail_attempt a reason now s)) = Some a1 \<and> pa_state a1 = ''failed''"
  using find_update [of i "journal s" b "a\<lparr>pa_state := ''failed'', pa_failure := Some reason\<rparr>"]
  by (simp add: fail_attempt_def Let_def put_attempt_def)

lemma finalize_or_fail_row:
  assumes "finalize_or_fail env e a now s = (Inr True, s1)" and "find_row pa_id i (journal s) = Some b"
    and "pa_id a = i" and "pa_state a \<noteq> ''finalized''"
  shows "\<exists>a1. find_row pa_id i (journal s1) = Some a1 \<and> pa_state a1 \<in> {''finalized'', ''failed''}"
proof -
  obtain res s' where r: "finalize_attempt env e a now s = (res, s')" by fastforce
  show ?thesis
  proof (cases res)
    case (Inr p)
    then have "s1 = s'" "journal s' = update_row pa_id (pa_id a) (\<lambda>_. a\<lparr>pa_state := ''finalized'', finalized_at := Some now\<rparr>) (journal s)"
      using assms(1,4) r finalize_facts [of env e a now s p s'] by (simp_all add: finalize_or_fail_def)
    then show ?thesis using find_update [OF assms(2), of "a\<lparr>pa_state := ''finalized'', finalized_at := Some now\<rparr>"] assms(3) by simp
  next
    case (Inl er)
    have "s' = s" using r Inl
      by (auto simp: finalize_attempt_def Let_def split: if_splits option.splits sum.splits prod.splits)
    then obtain msg where "s1 = fail_attempt a msg now s" using assms(1) r Inl
      by (cases er) (auto simp: finalize_or_fail_def)
    then show ?thesis using fail_attempt_row [OF assms(2,3)] by fastforce
  qed
qed

lemma expose_row:
  assumes "expose_attempt env ok a now s = (Inr x, s1)" and "find_row pa_id i (journal s) = Some b" and "pa_id a = i"
  shows "\<exists>a1. find_row pa_id i (journal s1) = Some a1 \<and> pa_state a1 = ''exposed''"
proof -
  have "pa_id x = i" "pa_state x = ''exposed''" "journal s1 = journal (put_attempt x (s\<lparr>files := files s1\<rparr>))"
    using assms(1,3) by (auto simp: expose_attempt_def Let_def put_attempt_def split: if_splits option.splits)
  then show ?thesis using find_update [OF assms(2)] by (auto simp: put_attempt_def)
qed

lemma step_advances:
  assumes "reconcile_step env busy ok e i now s = (Inr True, s1)"
  shows "\<exists>a a1. find_row pa_id i (journal s) = Some a \<and> find_row pa_id i (journal s1) = Some a1
    \<and> pa_state a \<notin> {''finalized'', ''failed''}
    \<and> (pa_state a1 \<in> {''finalized'', ''failed''} \<or> pa_state a = ''prepared'' \<and> pa_state a1 = ''exposed'')"
proof -
  obtain a where a: "find_row pa_id i (journal s) = Some a"
    using assms by (cases "find_row pa_id i (journal s)") (simp_all add: reconcile_step_def)
  have pid: "pa_id a = i" using find_row_Some [OF a] by simp
  have notdone: "pa_state a \<notin> {''finalized'', ''failed''}"
    using assms a by (auto simp: reconcile_step_def split: sum.splits prod.splits if_splits)
  have put: "find_row pa_id i (journal (put_attempt b s)) = Some b" if "pa_id b = i" for b
    using find_put [OF a that] .
  show ?thesis
  proof (cases "pa_state a = ''prepared''")
    case True
    then consider b where "s1 = put_attempt b s" "pa_id b = i" "pa_state b \<in> {''failed'', ''exposed''}"
      | x where "expose_attempt env ok a now s = (Inr x, s1)"
      using assms a pid
      by (auto simp: reconcile_step_def split: option.splits sum.splits prod.splits if_splits)
    then show ?thesis
    proof cases
      case (1 b)
      then show ?thesis using put [OF 1(2)] a True by auto
    next
      case (2 x)
      then show ?thesis using expose_row [OF 2 a pid] a True by auto
    qed
  next
    case False
    have c1: "\<not> (cleaned_at a \<noteq> None \<or> busy \<or> pa_record a \<notin> lr_id ` set (recs s))"
      using assms unfolding reconcile_step_def a option.case by (auto split: if_split_asm)
    have c3: "\<not> (pa_state a \<in> {''reserved'', ''staged'', ''prepared''} \<and> \<not> holds_reservation env a s)"
      using assms unfolding reconcile_step_def a option.case if_not_P [OF c1] if_not_P [OF notdone]
      by (auto split: if_split_asm)
    define a1 where "a1 = (if pa_state a = ''staged'' \<and> exposed_output_is_recoverable env a (files s)
        then a\<lparr>pa_state := ''exposed''\<rparr> else a)"
    have a1: "pa_id a1 = i" "pa_state a1 \<noteq> ''finalized''" using pid notdone by (simp_all add: a1_def)
    have r: "(if pa_state a1 \<in> {''reserved'', ''staged''}
       then (Inr True, fail_attempt a1 ''worker restart before output exposure'' now s)
       else finalize_or_fail env e a1 now s) = (Inr True, s1)"
      using assms unfolding reconcile_step_def a option.case if_not_P [OF c1] if_not_P [OF notdone] if_not_P [OF c3]
        if_not_P [OF False] Let_def a1_def .
    show ?thesis
    proof (cases "pa_state a1 \<in> {''reserved'', ''staged''}")
      case True
      then have "s1 = fail_attempt a1 ''worker restart before output exposure'' now s"
        using r by (simp only: if_True prod.inject)
      then show ?thesis using fail_attempt_row [OF a a1(1)] a notdone by fastforce
    next
      case False
      then have "finalize_or_fail env e a1 now s = (Inr True, s1)" using r by (simp only: if_False)
      then show ?thesis using finalize_or_fail_row [OF _ a a1] a notdone by blast
    qed
  qed
qed

text \<open>C14. The recovery loop of one attempt always comes to an end: whatever state the journal names and
  whatever the files hold, the third visit at the latest asks for no further one.\<close>

theorem reconcile_loop_ends:
  "fst (reconcile_loop 3 env busy replace_ok e i now s) \<noteq> Inr False"
proof -
  define step where "step = reconcile_step env busy replace_ok e i now"
  have loop: "reconcile_loop (Suc n) env busy replace_ok e i now s = (case step s of
       (Inl e, s1) \<Rightarrow> (Inl e, s1) | (Inr False, s1) \<Rightarrow> (Inr True, s1)
     | (Inr True, s1) \<Rightarrow> reconcile_loop n env busy replace_ok e i now s1)" for n s
    by (simp add: step_def)
  have stop: "fst (reconcile_loop (Suc n) env busy replace_ok e i now t) \<noteq> Inr False"
    if "\<And>t'. step t \<noteq> (Inr True, t')" for n t
    using that unfolding loop by (cases "step t") (auto split: sum.splits bool.splits)
  have last: "fst (reconcile_loop (Suc n) env busy replace_ok e i now t) \<noteq> Inr False"
    if "find_row pa_id i (journal t) = Some a" "pa_state a \<in> {''finalized'', ''failed''}" for n t a
    by (rule stop) (use that step_advances [of env busy replace_ok e i now t] in \<open>auto simp: step_def\<close>)
  have two: "fst (reconcile_loop (Suc (Suc n)) env busy replace_ok e i now t) \<noteq> Inr False"
    if a: "find_row pa_id i (journal t) = Some a" "pa_state a = ''exposed''" for n t a
  proof (cases "\<exists>t'. step t = (Inr True, t')")
    case True
    then obtain t' where t': "step t = (Inr True, t')" by blast
    then obtain a1 where "find_row pa_id i (journal t') = Some a1" "pa_state a1 \<in> {''finalized'', ''failed''}"
      using step_advances [of env busy replace_ok e i now t t'] a by (auto simp: step_def)
    then show ?thesis using last unfolding loop [of "Suc n"] t' by simp
  qed (use stop in blast)
  show ?thesis
  proof (cases "\<exists>t'. step s = (Inr True, t')")
    case True
    then obtain t' where t': "step s = (Inr True, t')" by blast
    then obtain a1 where "find_row pa_id i (journal t') = Some a1" "pa_state a1 \<in> {''finalized'', ''failed'', ''exposed''}"
      using step_advances [of env busy replace_ok e i now s t'] by (auto simp: step_def)
    then show ?thesis using last two unfolding numeral_3_eq_3 loop [of "Suc (Suc 0)"] t' by auto
  qed (use stop in \<open>auto simp: numeral_3_eq_3\<close>)
qed

lemma remove_names_frame:
  "remove_names dir ns fs p \<noteq> fs p \<Longrightarrow> remove_names dir ns fs p = None \<and> \<not> is_nfo p \<and> (\<exists>n \<in> set ns. p = dir @ [n])"
proof (induction dir ns fs rule: remove_names.induct)
  case (2 dir n ns fs)
  let ?fs = "if is_nfo (dir @ [n]) then fs else fs(dir @ [n] := None)"
  show ?case
  proof (cases "remove_names dir ns ?fs p = ?fs p")
    case True
    then have "?fs p \<noteq> fs p" using 2(2) by simp
    then have "\<not> is_nfo (dir @ [n]) \<and> p = dir @ [n]" by (auto split: if_splits)
    then show ?thesis using True by simp
  next
    case False
    from "2.IH" [OF False] show ?thesis by auto
  qed
qed simp

definition workspace_file :: "pattempt \<Rightarrow> path \<Rightarrow> bool" where
  "workspace_file a p = (\<exists>n \<in> {target_audio_name a, ''manifest.json'', target_audio_name a @ ''.restore''}.
     p = staging_directory a @ [n] \<or> p = backup_directory a @ [n])"

lemma cleanup_workspace_frame:
  assumes "cleanup_workspace a fs p \<noteq> fs p"
  shows "cleanup_workspace a fs p = None \<and> \<not> is_nfo p \<and> workspace_file a p"
proof -
  let ?ns = "[target_audio_name a, ''manifest.json'', target_audio_name a @ ''.restore'']"
  let ?fs = "remove_names (staging_directory a) ?ns fs"
  have e: "cleanup_workspace a fs = remove_names (backup_directory a) ?ns ?fs" by (simp add: cleanup_workspace_def)
  show ?thesis
  proof (cases "remove_names (backup_directory a) ?ns ?fs p = ?fs p")
    case True
    then show ?thesis using assms remove_names_frame [of "staging_directory a" ?ns fs p]
      by (auto simp: e workspace_file_def)
  next
    case False
    then show ?thesis using remove_names_frame [OF False] by (auto simp: e workspace_file_def)
  qed
qed

definition removable :: "penv \<Rightarrow> path \<Rightarrow> path set \<Rightarrow> path set \<Rightarrow> (path \<rightharpoonup> string) \<Rightarrow> publication \<Rightarrow> path \<Rightarrow> bool" where
  "removable env root cur prot fs q p =
     (pub_path q = p \<and> is_relative_to p root \<and> \<not> has_symlink_component env p root \<and> p \<notin> prot \<and> p \<notin> cur
      \<and> \<not> is_nfo p \<and> sha_of env fs p = pub_sha256 q)"

lemma remove_superseded_frame:
  "remove_superseded env root cur prot ps ok fs = (b, fs') \<Longrightarrow> fs' p \<noteq> fs p \<Longrightarrow>
     fs' p = None \<and> (\<exists>q \<in> set ps. removable env root cur prot fs q p)"
proof (induction ps arbitrary: ok fs)
  case (Cons q ps)
  let ?pth = "pub_path q"
  show ?case
  proof (cases "\<exists>ok'. remove_superseded env root cur prot ps ok' fs = (b, fs')")
    case True
    then obtain ok' where "remove_superseded env root cur prot ps ok' fs = (b, fs')" by blast
    from Cons.IH [OF this Cons.prems(2)] show ?thesis by auto
  next
    case False
    with Cons.prems(1)
    have gone: "remove_superseded env root cur prot ps ok (fs(?pth := None)) = (b, fs')"
      "is_relative_to ?pth root" "\<not> has_symlink_component env ?pth root" "?pth \<notin> prot" "?pth \<notin> cur" "\<not> is_nfo ?pth"
      "fs ?pth = None \<or> sha_of env fs ?pth = pub_sha256 q"
      by (auto simp: Let_def split: if_split_asm)
    show ?thesis
    proof (cases "fs' p = (fs(?pth := None)) p")
      case True
      then have "p = ?pth" "fs' p = None" "fs p \<noteq> None" using Cons.prems(2) by (auto split: if_splits simp: eq_commute [of None])
      then show ?thesis using gone(2-7) by (auto simp: removable_def)
    next
      case False
      from Cons.IH [OF gone(1) False]
      have ih: "fs' p = None" "\<exists>q \<in> set ps. removable env root cur prot (fs(?pth := None)) q p" by blast+
      with False have "p \<noteq> ?pth" by auto
      then have "removable env root cur prot (fs(?pth := None)) r p = removable env root cur prot fs r p" for r
        by (simp add: removable_def sha_of_def)
      then show ?thesis using ih by auto
    qed
  qed
qed simp

text \<open>C15. Cleanup only removes what it may: every file that changes is gone, is no NFO file, and is either a
  workspace file of the attempt or the unmodified file of a superseded publication of its record,
  inside the media root and behind no symbolic link, that is neither the file of a current
  publication nor the destination another attempt has reserved.\<close>

theorem cleanup_removes_only:
  assumes "cleanup_attempt env a s = (res, s')" and "files s' p \<noteq> files s p"
  shows "files s' p = None \<and> \<not> is_nfo p
    \<and> (workspace_file a p
       \<or> (\<exists>st q. storage env = Some st \<and> q \<in> set (pubs s) \<and> pub_record q = pa_record a \<and> pub_state q = ''superseded''
            \<and> removable env (output_root st) (current_paths s) (protected_paths (Some (pa_id a)) s) (files s) q p))"
proof -
  define s1 where "s1 = s\<lparr>files := cleanup_workspace a (files s)\<rparr>"
  have s1: "pubs s1 = pubs s" "files s1 = cleanup_workspace a (files s)" "current_paths s1 = current_paths s"
      "protected_paths x s1 = protected_paths x s" for x
    by (simp_all add: s1_def current_paths_def protected_paths_def)
  show ?thesis
  proof (cases "files s' p = files s1 p")
    case True
    then show ?thesis using cleanup_workspace_frame [of a "files s" p] assms(2) s1(2) by simp
  next
    case False
    then obtain st b fs where st: "storage env = Some st" and r: "remove_superseded env (output_root st) (current_paths s)
          (protected_paths (Some (pa_id a)) s)
          (filter (\<lambda>q. pub_record q = pa_record a \<and> pub_state q = ''superseded'') (pubs s)) True (files s1) = (b, fs)"
        and fs: "files s' = fs"
      using assms(1) s1 by (auto simp: cleanup_attempt_def Let_def s1_def [symmetric] split: if_splits option.splits prod.splits)
    have "fs p \<noteq> files s1 p" using False fs by simp
    from remove_superseded_frame [OF r this] obtain q where q: "fs p = None" "q \<in> set (pubs s)" "pub_record q = pa_record a"
        "pub_state q = ''superseded''" "removable env (output_root st) (current_paths s)
           (protected_paths (Some (pa_id a)) s) (files s1) q p" by auto
    have "files s1 p \<noteq> None" using q(1) \<open>fs p \<noteq> files s1 p\<close> by simp
    then have "files s1 p = files s p" using cleanup_workspace_frame [of a "files s" p] unfolding s1(2) by metis
    then have "removable env (output_root st) (current_paths s) (protected_paths (Some (pa_id a)) s) (files s) q p"
      using q(5) by (simp add: removable_def sha_of_def)
    moreover have "\<not> is_nfo p" using q(5) by (simp add: removable_def)
    ultimately show ?thesis using q fs st by blast
  qed
qed

lemma first_error_None: "first_error f xs = None \<longleftrightarrow> (\<forall>x \<in> set xs. f x = None)"
  by (induction xs) (auto split: option.splits)

lemma withdraw_cases:
  assumes "withdraw_current_publication env r fallback is_dir now s = (Inr True, s')"
  obtains root where "media_root env fallback is_dir = Inr root" "r \<in> lr_id ` set (recs s)"
    "\<not> (\<exists>a \<in> set (journal s). pa_record a = r \<and> pa_state a \<in> pending_states)"
    "first_error (validate_managed_audio env root (files s)) (current_of r s) = None"
    "files s' = files s" "journal s' = journal s"
    "pubs s' = map (\<lambda>p. if pub_record p = r \<and> pub_state p = ''current'' then p\<lparr>pub_state := ''withdrawn''\<rparr> else p) (pubs s)"
    "recs s' = update_row lr_id r (withdrawn_row (pub_id ` set (current_of r s)) now) (recs s)"
  using assms
  by (auto simp: withdraw_current_publication_def Let_def current_of_def split: sum.splits option.splits if_split_asm)

text \<open>A withdrawal only happens while no attempt of the record is under way and every current file of
  the record is managed and unmodified; then the record has no current publication, other records
  keep theirs and no file is touched. A refused withdrawal changes nothing.\<close>

lemma withdraw_guarded:
  assumes "withdraw_current_publication env r fallback is_dir now s = (res, s')" and "res \<noteq> Inr False"
  shows "case res of
      Inl e \<Rightarrow> s' = s
    | Inr _ \<Rightarrow> current_of r s' = [] \<and> (\<forall>q. q \<noteq> r \<longrightarrow> current_of q s' = current_of q s) \<and> files s' = files s
        \<and> (\<forall>a \<in> set (journal s). pa_record a = r \<longrightarrow> pa_state a \<notin> pending_states)
        \<and> (\<forall>p \<in> set (current_of r s). files s (pub_path p) = None \<or> sha_of env (files s) (pub_path p) = pub_sha256 p)"
proof (cases res)
  case (Inl e)
  then show ?thesis using assms(1)
    by (auto simp: withdraw_current_publication_def Let_def split: sum.splits option.splits if_split_asm)
next
  case (Inr b)
  then have "b = True" using assms(2) by simp
  with Inr assms(1) have w: "withdraw_current_publication env r fallback is_dir now s = (Inr True, s')" by simp
  let ?f = "\<lambda>p. if pub_record p = r \<and> pub_state p = ''current'' then p\<lparr>pub_state := ''withdrawn''\<rparr> else p"
  obtain root where g: "\<not> (\<exists>a \<in> set (journal s). pa_record a = r \<and> pa_state a \<in> pending_states)"
    "first_error (validate_managed_audio env root (files s)) (current_of r s) = None"
    "files s' = files s" "pubs s' = map ?f (pubs s)"
    using w by (rule withdraw_cases) (rule that)
  have fl: "filter (\<lambda>p. pub_record p = q \<and> pub_state p = ''current'') (map ?f ps)
      = (if q = r then [] else filter (\<lambda>p. pub_record p = q \<and> pub_state p = ''current'') ps)" for q ps
    by (cases "q = r"; induction ps) auto
  have cur: "current_of q s' = (if q = r then [] else current_of q s)" for q unfolding current_of_def g(4) by (rule fl)
  have "\<forall>p \<in> set (current_of r s). files s (pub_path p) = None \<or> sha_of env (files s) (pub_path p) = pub_sha256 p"
    using g(2) unfolding first_error_None validate_managed_audio_def by (auto split: if_split_asm)
  then show ?thesis using cur g(1,3) Inr by auto
qed

text \<open>An output is reserved once: a reservation is granted only while the record exists and neither a
  current publication nor an attempt under way covers the same output, and once granted a second
  request for it is turned down.\<close>

lemma reserve_once:
  assumes "reserve_attempt r s = (Inr (Some a), s')"
    and "rr_record r' = rr_record r" "rr_source r' = rr_source r" "rr_revision r' = rr_revision r"
    and "rr_target_directory r' = rr_target_directory r" "rr_target_audio_name r' = rr_target_audio_name r"
  shows "reserve_attempt r' s' = (Inr None, s') \<and> pa_state a = ''reserved'' \<and> journal s' = journal s @ [a]
    \<and> files s' = files s \<and> \<not> (\<exists>p \<in> set (pubs s). current_for r p) \<and> \<not> (\<exists>b \<in> set (journal s). pending_for r b)"
proof -
  have g: "rr_record r \<in> lr_id ` set (recs s)" "\<not> (\<exists>p \<in> set (pubs s). current_for r p)"
      "\<not> (\<exists>b \<in> set (journal s). pending_for r b)" "a = new_attempt r"
      "s' = publish_event a ''publication_attempt_reserved'' ''publishing'' (rr_now r) (s\<lparr>journal := journal s @ [a]\<rparr>)"
    using assms(1) by (auto simp: reserve_attempt_def Let_def split: if_split_asm)
  have same: "pending_for r' = pending_for r" by (rule ext) (simp add: pending_for_def assms(2-6))
  have "pending_for r a" by (simp add: g(4) pending_for_def new_attempt_def pending_states_def)
  then have "\<exists>b \<in> set (journal s'). pending_for r' b" by (simp add: g(5) same)
  moreover have "rr_record r' \<in> lr_id ` set (recs s')" using g(1) by (simp add: g(5) assms(2))
  ultimately show ?thesis using g by (simp add: reserve_attempt_def) (simp add: new_attempt_def)
qed

section \<open>Instances\<close>

text \<open>A stand-in for the JSON of manifests: the values in order, each readable back from its text.\<close>

definition enc_str :: "string \<Rightarrow> string" where
  "enc_str s = concat (map (\<lambda>c. [CHR ''x'', c]) s) @ ''.''"

fun dec_str :: "string \<Rightarrow> (string \<times> string) option" where
  "dec_str [] = None"
| "dec_str [c] = (if c = CHR ''.'' then Some ([], []) else None)"
| "dec_str (c # d # r) = (if c = CHR ''.'' then Some ([], d # r)
     else map_option (\<lambda>(s, r'). (d # s, r')) (dec_str r))"

lemma dec_enc_str: "dec_str (enc_str s @ r) = Some (s, r)"
proof (induction s)
  case Nil
  then show ?case by (cases r) (simp_all add: enc_str_def)
qed (simp add: enc_str_def)

fun enc_val :: "manifest_value \<Rightarrow> string" where
  "enc_val MNull = ''n''"
| "enc_val (MStr t) = CHR ''s'' # enc_str t"
| "enc_val (MInt i) = (if i < 0 then CHR ''-'' # enc_str (replicate (nat (- i)) CHR ''1'')
     else CHR ''+'' # enc_str (replicate (nat i) CHR ''1''))"

definition dec_val :: "string \<Rightarrow> (manifest_value \<times> string) option" where
  "dec_val t = (case t of [] \<Rightarrow> None | c # r \<Rightarrow>
     if c = CHR ''n'' then Some (MNull, r)
     else (case dec_str r of None \<Rightarrow> None | Some (x, r') \<Rightarrow>
       Some (if c = CHR ''s'' then MStr x else if c = CHR ''-'' then MInt (- int (length x)) else MInt (int (length x)), r')))"

lemma dec_enc_val: "dec_val (enc_val v @ r) = Some (v, r)"
  by (cases v) (simp_all add: dec_val_def dec_enc_str)

lemma dec_enc_val_cases:
  "dec_val (enc_val v) = Some (v, [])" "dec_val (CHR ''s'' # enc_str t @ r) = Some (MStr t, r)"
  "dec_val (CHR ''s'' # enc_str t) = Some (MStr t, [])"
  using dec_enc_val [of v "[]"] dec_enc_val [of "MStr t" r] dec_enc_val [of "MStr t" "[]"] by simp_all

definition dec_manifest :: "string \<Rightarrow> (string \<rightharpoonup> manifest_value) option" where
  "dec_manifest t = (case dec_val t of None \<Rightarrow> None | Some (a, t1) \<Rightarrow>
     (case dec_val t1 of None \<Rightarrow> None | Some (b, t2) \<Rightarrow>
     (case dec_val t2 of None \<Rightarrow> None | Some (c, t3) \<Rightarrow>
     (case dec_val t3 of None \<Rightarrow> None | Some (d, _) \<Rightarrow>
       Some (map_of [(''attempt_id'', a), (''metadata_revision_id'', b), (''output_sha256'', c), (''source_id'', d)])))))"

definition sample_penv :: penv where
  "sample_penv = \<lparr>sha256 = (\<lambda>c. CHR ''#'' # c), dump_json = (\<lambda>v. concat (map (\<lambda>x. enc_val (snd x)) v)),
     parse_json = dec_manifest, is_link = (\<lambda>p. False),
     storage = Some \<lparr>st_state = ''ready'', output_root = [''media'']\<rparr>, uid = ''u''\<rparr>"

lemma sample_json: "json_law sample_penv"
  by (simp add: json_law_def sample_penv_def manifest_values_def dec_manifest_def dec_enc_val dec_enc_val_cases)

text \<open>A prepared attempt that replaces an earlier output, and what surrounds it.\<close>

definition sample_attempt :: pattempt where
  "sample_attempt = (let a = \<lparr>pa_id = ''a1'', pa_record = ''r'', pa_source = ''s'', pa_revision = Some 4, pa_state = ''prepared'',
     target_directory = [''media'', ''x''], target_audio_name = ''t.flac'', staging_directory = [''w'', ''a1'', ''staging''],
     backup_directory = [''w'', ''a1'', ''backup''], output_sha256 = Some ''#new'', manifest_sha256 = None, pa_created = 5,
     exposed_at = None, finalized_at = None, cleaned_at = None, pa_failure = None, completion_state = ''complete''\<rparr>
     in a\<lparr>manifest_sha256 := Some (sha256 sample_penv (manifest_of sample_penv a))\<rparr>)"

definition sample_row :: library_row where
  "sample_row = \<lparr>lr_id = ''r'', publication_state = ''current'', lr_processing_state = ''complete'', lr_updated = 1,
     lyrics_status = ''none'', lyrics_path = None, lyrics_publication_id = None, lyrics_sha256 = None, lyrics_updated = None\<rparr>"

definition sample_pub :: publication where
  "sample_pub = \<lparr>pub_id = ''p0'', pub_record = ''r'', pub_source = ''s'', pub_path = [''media'', ''x'', ''t.flac''],
     pub_format = ''flac'', pub_sha256 = Some ''#old'', pub_revision = Some 3, pub_state = ''current'', pub_created = 1\<rparr>"

definition sample_pstate :: pstate where
  "sample_pstate = \<lparr>files = [[''w'', ''a1'', ''staging'', ''t.flac''] \<mapsto> ''new'', [''media'', ''x'', ''t.flac''] \<mapsto> ''old'',
       [''w'', ''a1'', ''staging'', ''manifest.json''] \<mapsto> manifest_of sample_penv sample_attempt],
     journal = [sample_attempt], pubs = [sample_pub], recs = [sample_row], pevents = [],
     pdb = \<lparr>jobs = [], sources = [], library_records = [''r''], metadata_revisions = []\<rparr>\<rparr>"

lemmas penv_simps = sample_penv_def sample_attempt_def sample_row_def sample_pub_def sample_pstate_def
  target_of_def backup_of_def output_of_def manifest_path_def Let_def

theorem exposure_crash_recovered_witness:
  "\<exists>s1 s2 p. reconcile_step sample_penv False True False ''a1'' 9
       (sample_pstate\<lparr>files := run_actions (take 2 (expose_actions sample_penv sample_attempt)) (files sample_pstate)\<rparr>) = (Inr True, s1)
    \<and> reconcile_step sample_penv False True False ''a1'' 9 s1 = (Inr True, s2)
    \<and> current_of ''r'' s2 = [p] \<and> sha_of sample_penv (files s2) [''media'', ''x'', ''t.flac''] = Some ''#new''"
proof -
  have h: "paths_apart sample_attempt" "find_row pa_id ''a1'' (journal sample_pstate) = Some sample_attempt"
    "pa_state sample_attempt = ''prepared''" "cleaned_at sample_attempt = None"
    "files sample_pstate (output_of sample_attempt) = Some ''new''"
    "output_sha256 sample_attempt = Some (sha256 sample_penv ''new'')"
    "files sample_pstate (backup_of sample_attempt) = None"
    "pa_record sample_attempt \<in> lr_id ` set (recs sample_pstate)" "peers_of sample_attempt sample_pstate = []"
    "\<And>p. p \<in> set (pubs sample_pstate) \<Longrightarrow> pub_id p \<noteq> ''publication-'' @ ''a1''"
    by (simp_all add: penv_simps paths_apart_def find_row_def peers_of_def)
  have m: "manifest_sha256 sample_attempt = Some (sha256 sample_penv (manifest_of sample_penv sample_attempt))"
    by (simp add: sample_attempt_def Let_def manifest_of_def manifest_values_def)
  have own: "pub_record p = pa_record sample_attempt"
    if "p \<in> set (pubs sample_pstate)" "pub_path p = target_of sample_attempt" "pub_state p = ''current''" for p
    using that by (simp add: penv_simps)
  have t: "pa_record sample_attempt = ''r''" "target_of sample_attempt = [''media'', ''x'', ''t.flac'']"
    "output_sha256 sample_attempt = Some ''#new''" by (simp_all add: sample_attempt_def target_of_def Let_def)
  have "\<exists>s1 s2 p. reconcile_step sample_penv False True False ''a1'' 9
       (sample_pstate\<lparr>files := run_actions (take 2 (expose_actions sample_penv sample_attempt)) (files sample_pstate)\<rparr>) = (Inr True, s1)
    \<and> reconcile_step sample_penv False True False ''a1'' 9 s1 = (Inr True, s2)
    \<and> current_of (pa_record sample_attempt) s2 = [p] \<and> pub_path p = target_of sample_attempt
    \<and> sha_of sample_penv (files s2) (target_of sample_attempt) = output_sha256 sample_attempt"
    by (rule exposure_crash_recovered [OF sample_json h(1) _ h(2-6) m h(7-10) own]) simp_all
  then show ?thesis unfolding t by blast
qed

definition exposed_attempt :: pattempt where
  "exposed_attempt = sample_attempt\<lparr>pa_state := ''exposed''\<rparr>"

definition exposed_pstate :: pstate where
  "exposed_pstate = sample_pstate\<lparr>journal := [exposed_attempt],
     files := [[''media'', ''x'', ''t.flac''] \<mapsto> ''new'',
       [''w'', ''a1'', ''staging'', ''manifest.json''] \<mapsto> manifest_of sample_penv sample_attempt]\<rparr>"

lemma exposed_finalizes: "\<exists>p s'. finalize_attempt sample_penv False exposed_attempt 9 exposed_pstate = (Inr p, s')"
proof -
  have m: "manifest_values exposed_attempt = manifest_values sample_attempt"
    by (simp add: manifest_values_def exposed_attempt_def)
  have j: "parse_json sample_penv (manifest_of sample_penv sample_attempt) = Some (map_of (manifest_values sample_attempt))"
    using sample_json by (simp add: json_law_def manifest_of_def)
  have f: "files exposed_pstate (manifest_path exposed_attempt) = Some (manifest_of sample_penv sample_attempt)"
    "files exposed_pstate (target_of exposed_attempt) = Some ''new''"
    by (simp_all add: exposed_pstate_def exposed_attempt_def manifest_path_def target_of_def sample_attempt_def Let_def)
  have r: "pa_state exposed_attempt = ''exposed''" "output_sha256 exposed_attempt = Some (sha256 sample_penv ''new'')"
    "manifest_sha256 exposed_attempt = Some (sha256 sample_penv (manifest_of sample_penv sample_attempt))"
    "pa_record exposed_attempt \<in> lr_id ` set (recs exposed_pstate)"
    by (simp_all add: exposed_pstate_def sample_pstate_def sample_row_def exposed_attempt_def sample_attempt_def Let_def
        manifest_of_def manifest_values_def sample_penv_def)
  have c: "\<not> publication_conflict (new_publication exposed_attempt 9) (supersede_current (pa_record exposed_attempt) (pubs exposed_pstate))"
    by (rule no_publication_conflict) (simp_all add: exposed_pstate_def exposed_attempt_def penv_simps)
  show ?thesis by (simp add: finalize_attempt_def f r m j c Let_def)
qed

theorem finalize_publishes_witness:
  "\<exists>p s'. finalize_attempt sample_penv False exposed_attempt 9 exposed_pstate = (Inr p, s')
     \<and> current_of ''r'' s' = [p] \<and> sha_of sample_penv (files s') (pub_path p) = pub_sha256 p"
proof -
  obtain p s' where f: "finalize_attempt sample_penv False exposed_attempt 9 exposed_pstate = (Inr p, s')"
    using exposed_finalizes by blast
  have w: "pa_state exposed_attempt \<noteq> ''finalized''" "wf_db (pdb exposed_pstate)" "pa_record exposed_attempt = ''r''"
    by (simp_all add: exposed_attempt_def exposed_pstate_def sample_pstate_def sample_attempt_def Let_def wf_db_def rows_ok_def)
  from finalize_publishes [OF f w(1,2)] f show ?thesis unfolding w(3) by blast
qed

lemma sample_suffixes [simp]:
  "\<not> is_nfo [''w'', ''a1'', ''staging'', ''t.flac'']" "\<not> is_nfo [''w'', ''a1'', ''staging'', ''manifest.json'']"
  "\<not> is_nfo [''w'', ''a1'', ''staging'', ''t.flac.restore'']" "\<not> is_nfo [''media'', ''x'', ''t.flac'']"
  by code_simp+

theorem cleanup_removes_only_witness:
  "\<exists>res s'. cleanup_attempt sample_penv sample_attempt sample_pstate = (res, s')
     \<and> files s' [''w'', ''a1'', ''staging'', ''t.flac''] = None
     \<and> \<not> is_nfo [''w'', ''a1'', ''staging'', ''t.flac'']"
proof -
  obtain res s' where c: "cleanup_attempt sample_penv sample_attempt sample_pstate = (res, s')" by fastforce
  then have "files s' = cleanup_workspace sample_attempt (files sample_pstate)"
    by (auto simp: cleanup_attempt_def sample_attempt_def Let_def)
  then have "files s' [''w'', ''a1'', ''staging'', ''t.flac''] \<noteq> files sample_pstate [''w'', ''a1'', ''staging'', ''t.flac'']"
    by (simp add: cleanup_workspace_def sample_pstate_def sample_attempt_def Let_def)
  from cleanup_removes_only [OF c this] c show ?thesis by blast
qed

definition sample_request :: reserve_request where
  "sample_request = \<lparr>rr_attempt_id = ''a2'', rr_record = ''r'', rr_source = ''s'', rr_revision = Some 4,
     rr_target_directory = [''media'', ''y''], rr_target_audio_name = ''t.flac'',
     rr_staging_directory = [''w'', ''a2'', ''staging''], rr_backup_directory = [''w'', ''a2'', ''backup''],
     rr_now = 8, rr_completion_state = ''complete''\<rparr>"

end
