(* ===== verification/Library.thy ===== *)
theory Library imports QualityPolicy Publication begin

text \<open>
  The library service (\<^verbatim>\<open>services/library/service.py\<close>), its writing operations: stable records,
  attached sources, publications, metadata revisions and the persisted effective source decision,
  which is the source quality policy (\<^theory_text>\<open>QualityPolicy\<close>) applied to the rows of the database and
  stored as JSON (\<^theory_text>\<open>Json\<close>).

  The state is the tables the service reads and writes. An operation that raises leaves them as they
  were: the caller rolls back. Identifiers from \<open>uuid4\<close>, times and SHA-256 are arguments; a
  metadata revision gets the next integer key.
\<close>

section \<open>Tables\<close>

record lrecord =
  lb_id :: string
  lb_recording :: "string option"
  lb_release :: "string option"
  lb_source_state :: string
  lb_processing :: string
  lb_match :: string
  lb_publication :: string
  lb_metadata :: string
  lb_lyrics :: string
  lb_created :: timestamp
  lb_updated :: timestamp

record lsource =
  ls_id :: string
  ls_record :: "string option"
  ls_path :: string
  ls_intake :: string
  ls_disappeared :: "timestamp option"
  ls_codec :: "string option"
  ls_bit_depth :: "int option"
  ls_sample_rate :: "int option"
  ls_channels :: "int option"
  ls_bitrate :: "int option"

record stored_decision =
  sd_record :: string
  sd_source :: "string option"
  sd_baseline :: "string option"
  sd_policy_version :: string
  sd_tuple_json :: string
  sd_reason :: string
  sd_updated :: timestamp

record revision_row =
  rv_id :: int
  rv_record :: string
  rv_source :: "string option"
  rv_layer :: string
  rv_revision :: int
  rv_tags_json :: string
  rv_actor :: string
  rv_created :: timestamp

record levent =
  le_record :: string
  le_source :: "string option"
  le_kind :: string
  le_state :: string
  le_reason :: "string option"
  le_details :: string
  le_at :: timestamp

record tag_row =
  tg_source :: string
  tg_name :: string
  tg_value :: string
  tg_selected :: bool

record artwork_row =
  aw_release :: string
  aw_state :: string
  aw_path :: "string option"

record ldb =
  l_records :: "lrecord list"
  l_sources :: "lsource list"
  l_decisions :: "stored_decision list"
  l_pubs :: "publication list"
  l_revisions :: "revision_row list"
  l_events :: "levent list"
  l_consolidations :: "(string \<times> string) list" \<comment> \<open>retired and canonical record\<close>
  l_reviews :: "(string \<times> string) list" \<comment> \<open>source and review state\<close>
  l_tags :: "tag_row list"
  l_artwork :: "artwork_row list"

datatype lerror = LLookupError string | LValueError string | LPolicyError policy_error | LIntegrityError

definition add_event :: "levent \<Rightarrow> ldb \<Rightarrow> ldb" where
  "add_event e db = db\<lparr>l_events := l_events db @ [e]\<rparr>"

definition set_record :: "string \<Rightarrow> (lrecord \<Rightarrow> lrecord) \<Rightarrow> ldb \<Rightarrow> ldb" where
  "set_record k f db = db\<lparr>l_records := update_row lb_id k f (l_records db)\<rparr>"

section \<open>Records and publications\<close>

definition fresh_record :: "string \<Rightarrow> timestamp \<Rightarrow> lrecord" where
  "fresh_record u now = \<lparr>lb_id = ''record-'' @ u, lb_recording = None, lb_release = None,
     lb_source_state = ''present'', lb_processing = ''queued'', lb_match = ''unmatched'', lb_publication = ''absent'',
     lb_metadata = ''original'', lb_lyrics = ''none'', lb_created = now, lb_updated = now\<rparr>"

definition new_library_record :: "string \<Rightarrow> timestamp \<Rightarrow> ldb \<Rightarrow> lerror + (lrecord \<times> ldb)" where
  "new_library_record u now db = (let r = fresh_record u now in
     if lb_id r \<in> lb_id ` set (l_records db) then Inl LIntegrityError
     else Inr (r, db\<lparr>l_records := l_records db @ [r]\<rparr>))"

text \<open>\<open>json.dumps({'publication_id': ...}, sort_keys=True)\<close> with the default separators.\<close>

definition publication_details :: "string \<Rightarrow> string" where
  "publication_details i = dumps json_char '' '' (JObj [(''publication_id'', JStr i)])"

definition recorded_publication :: "string \<Rightarrow> string \<Rightarrow> string \<Rightarrow> path \<Rightarrow> string \<Rightarrow> int option \<Rightarrow> timestamp \<Rightarrow> publication" where
  "recorded_publication u r src pth sha rvn now = \<lparr>pub_id = ''publication-'' @ u, pub_record = r, pub_source = src,
     pub_path = pth,
     pub_format = (let x = path_suffix pth in if str_startswith x ''.'' then drop 1 x else x),
     pub_sha256 = Some sha, pub_revision = rvn, pub_state = ''current'', pub_created = now\<rparr>"

definition record_publication ::
  "string \<Rightarrow> string \<Rightarrow> string \<Rightarrow> path \<Rightarrow> string \<Rightarrow> int option \<Rightarrow> timestamp \<Rightarrow> ldb \<Rightarrow> lerror + (publication \<times> ldb)" where
  "record_publication u r src pth sha rvn now db =
     (if r \<notin> lb_id ` set (l_records db) then Inl (LLookupError r)
      else (let p = recorded_publication u r src pth sha rvn now; ps = supersede_current r (l_pubs db) in
        if publication_conflict p ps then Inl LIntegrityError
        else Inr (p, add_event \<lparr>le_record = r, le_source = Some src, le_kind = ''publication_created'', le_state = ''current'',
            le_reason = None, le_details = publication_details (pub_id p), le_at = now\<rparr>
          (set_record r (\<lambda>x. x\<lparr>lb_publication := ''current'', lb_processing := ''complete'', lb_updated := now\<rparr>)
            (db\<lparr>l_pubs := ps @ [p]\<rparr>)))))"

section \<open>Metadata revisions\<close>

text \<open>\<open>json.dumps(tags, ensure_ascii=False, sort_keys=True)\<close>.\<close>

definition tags_json :: "(string \<times> string) list \<Rightarrow> string" where
  "tags_json tags = dumps raw_char '' '' (JObj (map (\<lambda>(k, v). (k, JStr v)) (sort_key fst tags)))"

definition layer_revisions :: "string \<Rightarrow> string \<Rightarrow> ldb \<Rightarrow> revision_row list" where
  "layer_revisions r layer db = filter (\<lambda>v. rv_record v = r \<and> rv_layer v = layer) (l_revisions db)"

definition max_default :: "int \<Rightarrow> int list \<Rightarrow> int" where
  "max_default d xs = foldl max d xs"

definition next_revision :: "string \<Rightarrow> string \<Rightarrow> ldb \<Rightarrow> int" where
  "next_revision r layer db = (case map rv_revision (layer_revisions r layer db) of
     [] \<Rightarrow> 1 | x # xs \<Rightarrow> max_default x xs + 1)"

definition new_revision ::
  "string \<Rightarrow> string \<Rightarrow> string \<Rightarrow> (string \<times> string) list \<Rightarrow> string \<Rightarrow> timestamp \<Rightarrow> ldb \<Rightarrow> revision_row" where
  "new_revision r src layer tags actor now db =
     \<lparr>rv_id = max_default 0 (map rv_id (l_revisions db)) + 1, rv_record = r, rv_source = Some src, rv_layer = layer,
      rv_revision = next_revision r layer db, rv_tags_json = tags_json tags, rv_actor = actor, rv_created = now\<rparr>"

definition add_revision :: "revision_row \<Rightarrow> ldb \<Rightarrow> ldb" where
  "add_revision v db = db\<lparr>l_revisions := l_revisions db @ [v]\<rparr>"

text \<open>The loop over the layers. The revisions of a record are read before the loop and differ per
  layer, so reading them at each step, as here, gives the same numbers.\<close>

fun add_layers :: "string \<Rightarrow> string \<Rightarrow> timestamp \<Rightarrow> (string \<times> (string \<times> string) list) list \<Rightarrow> ldb \<Rightarrow> revision_row list \<times> ldb" where
  "add_layers r src now [] db = ([], db)"
| "add_layers r src now ((layer, tags) # ls) db =
     (let v = new_revision r src layer tags ''worker'' now db in
      case add_layers r src now ls (add_revision v db) of (vs, db') \<Rightarrow> (v # vs, db'))"

definition record_metadata_layers ::
  "string \<Rightarrow> string \<Rightarrow> (string \<times> string) list \<Rightarrow> (string \<times> string) list \<Rightarrow> (string \<times> string) list \<Rightarrow> timestamp
   \<Rightarrow> ldb \<Rightarrow> lerror + (revision_row list \<times> ldb)" where
  "record_metadata_layers r src original analyzed final now db =
     (if r \<notin> lb_id ` set (l_records db) then Inl (LLookupError r)
      else (case add_layers r src now [(''original'', original), (''analyzed'', analyzed), (''final'', final)] db of
        (vs, db') \<Rightarrow> Inr (vs, set_record r (\<lambda>x. x\<lparr>lb_metadata := ''final'', lb_updated := now\<rparr>) db')))"

definition append_metadata_revision ::
  "string \<Rightarrow> string \<Rightarrow> string \<Rightarrow> (string \<times> string) list \<Rightarrow> string \<Rightarrow> timestamp \<Rightarrow> bool \<Rightarrow> ldb
   \<Rightarrow> lerror + (revision_row \<times> ldb)" where
  "append_metadata_revision r src layer tags actor now revise_original db =
     (if r \<notin> lb_id ` set (l_records db) then Inl (LLookupError r)
      else (case (if layer = ''original'' \<and> \<not> revise_original
                  then first_min rv_revision (layer_revisions r layer db) else None) of
        Some existing \<Rightarrow> Inr (existing, db)
      | None \<Rightarrow>
        (let v = new_revision r src layer tags actor now db in
         Inr (v, set_record r (\<lambda>x. x\<lparr>lb_updated := now,
            lb_metadata := (if layer = ''final'' then ''final'' else lb_metadata x)\<rparr>) (add_revision v db)))))"

section \<open>The effective source decision\<close>

fun reason_value :: "decision_reason \<Rightarrow> string" where
  "reason_value INITIAL_SELECTION = ''initial_selection''"
| "reason_value MANUAL_BASELINE = ''manual_baseline''"
| "reason_value MANUAL_BASELINE_RETAINED = ''manual_baseline_retained''"
| "reason_value STRICTLY_BETTER_REPLACEMENT = ''strictly_better_replacement''"
| "reason_value CURRENT_SELECTION_RETAINED = ''current_selection_retained''"
| "reason_value INELIGIBLE_SOURCE_REPLACED = ''ineligible_source_replaced''"
| "reason_value POLICY_VERSION_REVIEW = ''policy_version_review''"
| "reason_value NO_ELIGIBLE_SOURCE = ''no_eligible_source''"

definition all_reasons :: "decision_reason list" where
  "all_reasons = [INITIAL_SELECTION, MANUAL_BASELINE, MANUAL_BASELINE_RETAINED, STRICTLY_BETTER_REPLACEMENT,
     CURRENT_SELECTION_RETAINED, INELIGIBLE_SOURCE_REPLACED, POLICY_VERSION_REVIEW, NO_ELIGIBLE_SOURCE]"

definition reason_of :: "string \<Rightarrow> decision_reason option" where
  "reason_of t = find (\<lambda>r. reason_value r = t) all_reasons"

definition tuple_json :: "quality_tuple option \<Rightarrow> string" where
  "tuple_json t = dumps json_char [] (JArr (case t of None \<Rightarrow> []
     | Some (a, b, c, d, e, f, g) \<Rightarrow> map JInt [a, b, c, d, e, f, g]))"

definition reason_json :: "quality_decision \<Rightarrow> string" where
  "reason_json d = dumps json_char [] (JObj [(''candidate_set_key'', JStr (d_candidate_set_key d)),
     (''code'', JStr (reason_value (d_reason d)))])"

definition store_decision :: "string \<Rightarrow> quality_decision \<Rightarrow> timestamp \<Rightarrow> stored_decision" where
  "store_decision r d now = \<lparr>sd_record = r, sd_source = d_source_id d, sd_baseline = d_baseline_source_id d,
     sd_policy_version = d_policy_version d, sd_tuple_json = tuple_json (d_quality_tuple d),
     sd_reason = reason_json d, sd_updated = now\<rparr>"

definition stored_ints :: "json list \<Rightarrow> int list option" where
  "stored_ints vs = (if list_all (\<lambda>v. case v of JInt i \<Rightarrow> True | _ \<Rightarrow> False) vs
     then Some (map (\<lambda>v. case v of JInt i \<Rightarrow> i | _ \<Rightarrow> 0) vs) else None)"

definition malformed_reason :: lerror where
  "malformed_reason = LValueError ''stored effective source decision reason is malformed''"

definition malformed_tuple :: lerror where
  "malformed_tuple = LValueError ''stored effective source decision tuple is malformed''"

definition stored_tuple :: "string option \<Rightarrow> json \<Rightarrow> lerror + quality_tuple option" where
  "stored_tuple src v = (case v of
     JArr vs \<Rightarrow> (if vs = [] \<and> src = None then Inr None
        else (case stored_ints vs of
          Some [a, b, c, d, e, f, g] \<Rightarrow> Inr (Some (a, b, c, d, e, f, g))
        | _ \<Rightarrow> Inl malformed_tuple))
   | _ \<Rightarrow> Inl malformed_tuple)"

definition stored_effective_source_decision :: "stored_decision option \<Rightarrow> lerror + quality_decision option" where
  "stored_effective_source_decision row = (case row of None \<Rightarrow> Inr None
   | Some r \<Rightarrow> (case loads (sd_reason r) of None \<Rightarrow> Inl (LValueError ''json'')
     | Some reason \<Rightarrow> (case loads (sd_tuple_json r) of None \<Rightarrow> Inl (LValueError ''json'')
       | Some values \<Rightarrow> (case (obj_get reason ''candidate_set_key'', obj_get reason ''code'') of
           (Some (JStr key), Some (JStr code)) \<Rightarrow>
             (case stored_tuple (sd_source r) values of Inl e \<Rightarrow> Inl e
              | Inr t \<Rightarrow> (case reason_of code of None \<Rightarrow> Inl (LValueError code)
                 | Some rn \<Rightarrow> Inr (Some \<lparr>d_source_id = sd_source r, d_baseline_source_id = sd_baseline r,
                     d_policy_version = sd_policy_version r, d_quality_tuple = t, d_reason = rn,
                     d_candidate_set_key = key\<rparr>)))
         | _ \<Rightarrow> Inl malformed_reason))))"

definition find_decision :: "string \<Rightarrow> ldb \<Rightarrow> stored_decision option" where
  "find_decision r db = find_row sd_record r (l_decisions db)"

definition put_decision :: "stored_decision \<Rightarrow> ldb \<Rightarrow> ldb" where
  "put_decision d db = db\<lparr>l_decisions :=
     (if find_decision (sd_record d) db = None then l_decisions db @ [d]
      else update_row sd_record (sd_record d) (\<lambda>_. d) (l_decisions db))\<rparr>"

definition record_sources :: "string \<Rightarrow> ldb \<Rightarrow> lsource list" where
  "record_sources r db = filter (\<lambda>x. ls_record x = Some r) (l_sources db)"

text \<open>The body of \<open>_persist_effective_source_decision\<close> for a record that exists.\<close>

definition persist_decision ::
  "(string \<Rightarrow> string) \<Rightarrow> string \<Rightarrow> quality_candidate list \<Rightarrow> timestamp \<Rightarrow> string option \<Rightarrow> string set \<Rightarrow> ldb
   \<Rightarrow> lerror + (quality_decision \<times> ldb)" where
  "persist_decision sha r cands now manual ids db =
     (if \<not> quality_candidate.source_id ` set cands \<subseteq> ids then Inl (LValueError ''quality candidates must belong to the library record'')
      else (case stored_effective_source_decision (find_decision r db) of
        Inl e \<Rightarrow> Inl e
      | Inr previous \<Rightarrow> (case evaluate sha cands previous manual None of
          Inl e \<Rightarrow> Inl (LPolicyError e)
        | Inr d \<Rightarrow>
          (let row = store_decision r d now;
               db1 = set_record r (\<lambda>x. x\<lparr>lb_updated := now\<rparr>) (put_decision row db) in
           Inr (d, if d_reason d = POLICY_VERSION_REVIEW
             then add_event \<lparr>le_record = r, le_source = d_source_id d, le_kind = ''quality_policy_review_needed'',
                 le_state = ''needs_review'', le_reason = Some ''effective source policy version changed'',
                 le_details = sd_reason row, le_at = now\<rparr> db1
             else db1)))))"

definition persist_effective_source_decision ::
  "(string \<Rightarrow> string) \<Rightarrow> string \<Rightarrow> quality_candidate list \<Rightarrow> timestamp \<Rightarrow> string option \<Rightarrow> ldb
   \<Rightarrow> lerror + (quality_decision \<times> ldb)" where
  "persist_effective_source_decision sha r cands now manual db =
     (if r \<notin> lb_id ` set (l_records db) then Inl (LLookupError r)
      else persist_decision sha r cands now manual (ls_id ` set (record_sources r db)) db)"

definition opt_int :: "int option \<Rightarrow> pyval" where
  "opt_int v = (case v of None \<Rightarrow> PNone | Some i \<Rightarrow> PInt i)"

definition candidate_of :: "ldb \<Rightarrow> lrecord \<Rightarrow> lsource \<Rightarrow> quality_candidate" where
  "candidate_of db r x = \<lparr>quality_candidate.source_id = ls_id x, codec = CodecText (case ls_codec x of None \<Rightarrow> [] | Some c \<Rightarrow> c),
     bit_depth = opt_int (ls_bit_depth x), sample_rate = opt_int (ls_sample_rate x),
     channels = opt_int (ls_channels x), bitrate = opt_int (ls_bitrate x),
     confirmed = (lb_recording r \<noteq> None \<or> (ls_id x, ''confirmed'') \<in> set (l_reviews db)),
     intake_state = ls_intake x, disappeared = (ls_disappeared x \<noteq> None)\<rparr>"

definition candidates_of :: "ldb \<Rightarrow> lrecord \<Rightarrow> quality_candidate list" where
  "candidates_of db r = map (candidate_of db r) (record_sources (lb_id r) db)"

text \<open>The loop over the records in the order of their identifiers; an error ends the batch.\<close>

fun reevaluate_loop ::
  "(string \<Rightarrow> string) \<Rightarrow> (string \<times> timestamp) list \<Rightarrow> (string \<Rightarrow> string option) \<Rightarrow> ldb
   \<Rightarrow> lerror + ((string \<times> quality_decision) list \<times> ldb)" where
  "reevaluate_loop sha [] manual db = Inr ([], db)"
| "reevaluate_loop sha ((r, now) # rs) manual db = (case find_row lb_id r (l_records db) of
     None \<Rightarrow> Inl (LLookupError r)
   | Some x \<Rightarrow> (case persist_decision sha r (candidates_of db x) now (manual r) (ls_id ` set (record_sources r db)) db of
       Inl e \<Rightarrow> Inl e
     | Inr (d, db1) \<Rightarrow> (case reevaluate_loop sha rs manual db1 of
         Inl e \<Rightarrow> Inl e | Inr (ds, db2) \<Rightarrow> Inr ((r, d) # ds, db2))))"

definition reevaluate_effective_source_decisions ::
  "(string \<Rightarrow> string) \<Rightarrow> (string \<times> timestamp) list \<Rightarrow> (string \<Rightarrow> string option) \<Rightarrow> ldb
   \<Rightarrow> lerror + ((string \<times> quality_decision) list \<times> ldb)" where
  "reevaluate_effective_source_decisions sha record_times manual db =
     (let rs = sort_key fst record_times in
      case find (\<lambda>r. fst r \<notin> lb_id ` set (l_records db)) rs of
        Some r \<Rightarrow> Inl (LLookupError (fst r)) | None \<Rightarrow> reevaluate_loop sha rs manual db)"

definition canonical_id :: "ldb \<Rightarrow> string \<Rightarrow> string" where
  "canonical_id db r = (case map_of (l_consolidations db) r of None \<Rightarrow> r | Some c \<Rightarrow> c)"

definition reevaluate_effective_source_decision ::
  "(string \<Rightarrow> string) \<Rightarrow> string \<Rightarrow> timestamp \<Rightarrow> string option \<Rightarrow> ldb \<Rightarrow> lerror + (quality_decision \<times> ldb)" where
  "reevaluate_effective_source_decision sha r now manual db = (let c = canonical_id db r in
     case reevaluate_effective_source_decisions sha [(c, now)] (\<lambda>_. manual) db of
       Inl e \<Rightarrow> Inl e
     | Inr (ds, db') \<Rightarrow> (case map_of ds c of None \<Rightarrow> Inl (LLookupError c) | Some d \<Rightarrow> Inr (d, db')))"

definition attach_source ::
  "(string \<Rightarrow> string) \<Rightarrow> string \<Rightarrow> string \<Rightarrow> string \<Rightarrow> timestamp \<Rightarrow> ldb \<Rightarrow> lerror + (lsource \<times> ldb)" where
  "attach_source sha src r reason now db = (case find_row ls_id src (l_sources db) of
     None \<Rightarrow> Inl (LLookupError src)
   | Some x \<Rightarrow>
     if r \<notin> lb_id ` set (l_records db) then Inl (LLookupError r)
     else (let x1 = x\<lparr>ls_record := Some r, ls_disappeared := None\<rparr>;
               db1 = add_event \<lparr>le_record = r, le_source = Some src,
                   le_kind = (if reason = ''source_replaced'' then ''source_replaced'' else ''source_attached''),
                   le_state = ''present'', le_reason = Some reason, le_details = ''{}'', le_at = now\<rparr>
                 (set_record r (\<lambda>y. y\<lparr>lb_source_state := ''present'', lb_updated := now\<rparr>)
                   (db\<lparr>l_sources := update_row ls_id src (\<lambda>_. x1) (l_sources db)\<rparr>)) in
       (case reevaluate_effective_source_decision sha r now None db1 of
          Inl e \<Rightarrow> Inl e | Inr (_, db2) \<Rightarrow> Inr (x1, db2))))"

section \<open>Views\<close>

text \<open>\<open>library_record_detail\<close> loads the record with its related rows; the relations are the filters
  over the tables.\<close>

definition library_record_detail :: "string \<Rightarrow> ldb \<Rightarrow> lerror + lrecord" where
  "library_record_detail r db = (case find_row lb_id (canonical_id db r) (l_records db) of
     None \<Rightarrow> Inl (LLookupError (canonical_id db r)) | Some x \<Rightarrow> Inr x)"

section \<open>Lemmas\<close>

lemma set_record_simps [simp]:
  "l_sources (set_record k f db) = l_sources db" "l_decisions (set_record k f db) = l_decisions db"
  "l_pubs (set_record k f db) = l_pubs db" "l_revisions (set_record k f db) = l_revisions db"
  "l_reviews (set_record k f db) = l_reviews db" "l_consolidations (set_record k f db) = l_consolidations db"
  "l_tags (set_record k f db) = l_tags db" "l_events (set_record k f db) = l_events db"
  by (simp_all add: set_record_def)

lemma add_event_simps [simp]:
  "l_records (add_event e db) = l_records db" "l_sources (add_event e db) = l_sources db"
  "l_decisions (add_event e db) = l_decisions db" "l_pubs (add_event e db) = l_pubs db"
  "l_revisions (add_event e db) = l_revisions db" "l_reviews (add_event e db) = l_reviews db"
  "l_consolidations (add_event e db) = l_consolidations db" "l_tags (add_event e db) = l_tags db"
  by (simp_all add: add_event_def)

lemma put_decision_simps [simp]:
  "l_records (put_decision d db) = l_records db" "l_sources (put_decision d db) = l_sources db"
  "l_pubs (put_decision d db) = l_pubs db" "l_revisions (put_decision d db) = l_revisions db"
  "l_reviews (put_decision d db) = l_reviews db" "l_consolidations (put_decision d db) = l_consolidations db"
  by (simp_all add: put_decision_def)

lemma put_decision_decisions:
  "l_decisions (put_decision d db) = (if find_row sd_record (sd_record d) (l_decisions db) = None then l_decisions db @ [d]
     else update_row sd_record (sd_record d) (\<lambda>_. d) (l_decisions db))"
  by (simp add: put_decision_def find_decision_def)

text \<open>Writes to one record keep the keys of the table.\<close>

interpretation tw: keyed_write lb_id "\<lambda>x. x\<lparr>lb_updated := now\<rparr>"
  by unfold_locales simp

interpretation sw: keyed_write lb_id "\<lambda>y. y\<lparr>lb_source_state := st, lb_updated := now\<rparr>"
  by unfold_locales simp

interpretation mw: keyed_write lb_id "\<lambda>x. x\<lparr>lb_updated := now, lb_metadata := (if layer = ''final'' then ''final'' else lb_metadata x)\<rparr>"
  by unfold_locales simp

lemma stored_ints_map: "stored_ints (map JInt xs) = Some xs"
  by (simp add: stored_ints_def list_all_iff comp_def)

lemma reason_roundtrip: "reason_of (reason_value r) = Some r"
  by (cases r) (simp_all add: reason_of_def all_reasons_def)

text \<open>A decision without a quality tuple selects no source; the tuple column tells the two apart.\<close>

definition wf_decision :: "quality_decision \<Rightarrow> bool" where
  "wf_decision d = (d_quality_tuple d = None \<longrightarrow> d_source_id d = None)"

lemma tuple_roundtrip:
  "(t = None \<longrightarrow> src = None) \<Longrightarrow> \<exists>v. loads (tuple_json t) = Some v \<and> stored_tuple src v = Inr t"
proof (cases t)
  case None
  assume "t = None \<longrightarrow> src = None"
  then have s: "src = None" using None by simp
  have "loads (tuple_json t) = Some (JArr [])" unfolding None tuple_json_def option.case by (rule loads_json(1)) simp
  moreover have "stored_tuple src (JArr []) = Inr t" by (simp add: stored_tuple_def s None)
  ultimately show ?thesis by blast
next
  case (Some x)
  obtain a b c d e f g where x: "x = (a, b, c, d, e, f, g)" by (cases x) auto
  have "loads (tuple_json t) = Some (JArr (map JInt [a, b, c, d, e, f, g]))"
    unfolding Some x tuple_json_def option.case prod.case by (rule loads_json(1)) (simp add: list_all_iff)
  moreover have "stored_tuple src (JArr (map JInt [a, b, c, d, e, f, g])) = Inr t"
    unfolding stored_tuple_def json.case stored_ints_map by (simp add: Some x)
  ultimately show ?thesis by blast
qed

lemma store_read:
  assumes "wf_decision d"
  shows "stored_effective_source_decision (Some (store_decision r d now)) = Inr (Some d)"
proof -
  obtain v where v: "loads (tuple_json (d_quality_tuple d)) = Some v" "stored_tuple (d_source_id d) v = Inr (d_quality_tuple d)"
    using tuple_roundtrip [of "d_quality_tuple d" "d_source_id d"] assms by (auto simp: wf_decision_def)
  have "loads (reason_json d) = Some (JObj [(''candidate_set_key'', JStr (d_candidate_set_key d)),
      (''code'', JStr (reason_value (d_reason d)))])"
    unfolding reason_json_def by (rule loads_json(1)) simp
  then show ?thesis using v by (simp add: stored_effective_source_decision_def store_decision_def reason_roundtrip)
qed

lemma find_put_decision: "find_decision (sd_record d) (put_decision d db) = Some d"
proof -
  have "find_row sd_record k rows \<noteq> None \<Longrightarrow> sd_record d = k \<Longrightarrow> find_row sd_record k (update_row sd_record k (\<lambda>_. d) rows) = Some d" for k rows
    by (induction rows) (auto simp: find_row_def update_row_def)
  moreover have "find_row sd_record k rows = None \<Longrightarrow> sd_record d = k \<Longrightarrow> find_row sd_record k (rows @ [d]) = Some d" for k rows
    by (induction rows) (auto simp: find_row_def split: if_splits)
  ultimately show ?thesis by (simp add: find_decision_def put_decision_decisions)
qed

lemma find_put_decision_other: "r \<noteq> sd_record d \<Longrightarrow> find_decision r (put_decision d db) = find_decision r db"
proof -
  assume a: "r \<noteq> sd_record d"
  have "find_row sd_record r (update_row sd_record (sd_record d) (\<lambda>_. d) rows) = find_row sd_record r rows" for rows
    using a by (induction rows) (auto simp: find_row_def update_row_def)
  moreover have "find_row sd_record r (rows @ [d]) = find_row sd_record r rows" for rows
    using a by (induction rows) (auto simp: find_row_def)
  ultimately show ?thesis by (simp add: find_decision_def put_decision_decisions)
qed

lemma evaluate_wf:
  assumes "evaluate sha cs previous manual key = Inr d" and "\<And>p. previous = Some p \<Longrightarrow> wf_decision p"
  shows "wf_decision d \<and> d_policy_version d = POLICY_VERSION"
proof -
  have mk: "wf_decision (mk_decision w b rs k)" if "w \<in> set (filter eligible cs)" for w b rs k
    using that by (auto simp: wf_decision_def mk_decision_def eligible_def)
  have kp: "wf_decision (keep_previous p rs k)" if "wf_decision p" for p rs k
    using that by (simp add: wf_decision_def keep_previous_def)
  have bst: "best (filter eligible cs) = Some w \<Longrightarrow> w \<in> set (filter eligible cs)" for w
    by (drule best_eligible) simp
  have byid: "by_id (filter eligible cs) m = Some w \<Longrightarrow> w \<in> set (filter eligible cs)" for m w
    by (drule by_id_Some) simp
  have emp: "wf_decision (empty_or_initial (best (filter eligible cs)) k)" for k
    using mk [OF bst] by (auto simp: empty_or_initial_def wf_decision_def split: option.splits)
  show ?thesis
  proof (cases manual)
    case (Some m)
    then obtain w where w: "by_id (filter eligible cs) m = Some w"
        "d = mk_decision w (Some (quality_candidate.source_id w)) MANUAL_BASELINE (resolved_set_key sha cs key)"
      using assms(1) by (auto simp: evaluate_def Let_def split: option.splits)
    then show ?thesis using mk [OF byid [OF w(1)]] by (simp add: mk_decision_def)
  next
    case None
    with assms(1) have "evaluate sha cs previous None key = Inr d" by simp
    then show ?thesis
    proof (cases rule: evaluate_auto_cases)
      case initial
      then show ?thesis using emp by (auto simp: empty_or_initial_def mk_decision_def split: option.splits)
    next
      case (review p)
      then show ?thesis using kp [OF assms(2) [OF review(1)]] by (simp add: keep_previous_def)
    next
      case (kept p)
      then show ?thesis using kp [OF assms(2) [OF kept(1)]] by (simp add: keep_previous_def)
    next
      case (replaced p x)
      then show ?thesis using mk [OF bst [OF replaced(2)]] by (simp add: mk_decision_def)
    qed
  qed
qed

text \<open>The stored decisions of a database can all be read back.\<close>

definition readable :: "stored_decision \<Rightarrow> bool" where
  "readable row = (\<exists>d. wf_decision d \<and> stored_effective_source_decision (Some row) = Inr (Some d)
     \<and> sd_policy_version row = d_policy_version d)"

definition decisions_ok :: "ldb \<Rightarrow> bool" where
  "decisions_ok db = (\<forall>row \<in> set (l_decisions db). readable row)"

lemma find_decision_ok:
  assumes "decisions_ok db" and "find_decision r db = Some row"
  obtains d where "wf_decision d" "stored_effective_source_decision (Some row) = Inr (Some d)"
    "sd_policy_version row = d_policy_version d"
  using assms find_row_Some [of sd_record r "l_decisions db" row]
  by (auto simp: find_decision_def decisions_ok_def readable_def)

lemma put_decision_ok:
  assumes "decisions_ok db" and "readable row"
  shows "decisions_ok (put_decision row db)"
proof -
  have "set (l_decisions (put_decision row db)) \<subseteq> insert row (set (l_decisions db))"
    by (auto simp: put_decision_decisions update_row_def)
  then show ?thesis using assms by (auto simp: decisions_ok_def)
qed

text \<open>What a successful persist does.\<close>

lemma persist_facts:
  assumes "persist_decision sha r cs now manual ids db = Inr (d, db')" and "decisions_ok db"
  obtains previous where "stored_effective_source_decision (find_decision r db) = Inr previous"
    "evaluate sha cs previous manual None = Inr d" "wf_decision d" "d_policy_version d = POLICY_VERSION"
    "find_decision r db' = Some (store_decision r d now)" "decisions_ok db'"
    "\<And>q. q \<noteq> r \<Longrightarrow> find_decision q db' = find_decision q db"
    "l_sources db' = l_sources db" "l_reviews db' = l_reviews db" "l_consolidations db' = l_consolidations db"
    "l_records db' = update_row lb_id r (\<lambda>x. x\<lparr>lb_updated := now\<rparr>) (l_records db)"
    "l_pubs db' = l_pubs db" "l_revisions db' = l_revisions db"
proof -
  from assms(1) obtain previous where p: "stored_effective_source_decision (find_decision r db) = Inr previous"
    "evaluate sha cs previous manual None = Inr d"
    by (auto simp: persist_decision_def Let_def split: sum.splits if_split_asm)
  define row where "row = store_decision r d now"
  define db1 where "db1 = set_record r (\<lambda>x. x\<lparr>lb_updated := now\<rparr>) (put_decision row db)"
  have db': "db' = db1 \<or> (\<exists>e. db' = add_event e db1)"
    using assms(1) p by (auto simp: persist_decision_def Let_def db1_def row_def split: if_split_asm)
  have prev: "wf_decision q" if "previous = Some q" for q
  proof (cases "find_decision r db")
    case (Some x)
    then show ?thesis using find_decision_ok [OF assms(2) Some] p(1) that by fastforce
  qed (use p(1) that in \<open>simp add: stored_effective_source_decision_def\<close>)
  have wf: "wf_decision d" "d_policy_version d = POLICY_VERSION" using evaluate_wf [OF p(2) prev] by auto
  have "readable row" using store_read [OF wf(1)] wf(1) by (auto simp: readable_def row_def store_decision_def)
  then have ok: "decisions_ok (put_decision row db)" by (rule put_decision_ok [OF assms(2)])
  have same: "l_decisions db' = l_decisions (put_decision row db)" "l_sources db' = l_sources db"
    "l_reviews db' = l_reviews db" "l_consolidations db' = l_consolidations db" "l_pubs db' = l_pubs db"
    "l_revisions db' = l_revisions db" "l_records db' = update_row lb_id r (\<lambda>x. x\<lparr>lb_updated := now\<rparr>) (l_records db)"
    using db' by (auto simp: db1_def set_record_def)
  have sd: "sd_record row = r" by (simp add: row_def store_decision_def)
  have "find_decision r db' = Some row" "\<And>q. q \<noteq> r \<Longrightarrow> find_decision q db' = find_decision q db"
    using find_put_decision [of row db] find_put_decision_other [of _ row db] sd
    by (simp_all add: find_decision_def same(1))
  moreover have "decisions_ok db'" using ok by (simp add: decisions_ok_def same(1))
  ultimately show thesis using that [OF p wf] same by (simp add: row_def)
qed

lemma find_record_keys:
  "find_row lb_id r (update_row lb_id k (\<lambda>x. x\<lparr>lb_updated := now\<rparr>) rows)
     = map_option (\<lambda>x. if lb_id x = k then x\<lparr>lb_updated := now\<rparr> else x) (find_row lb_id r rows)"
  by (induction rows) (auto simp: find_row_def update_row_def)

text \<open>A reevaluation of one record, with the persisted decision it reads and the one it leaves.\<close>

lemma reevaluate_facts:
  assumes "reevaluate_effective_source_decision sha r now manual db = Inr (d, db')" and "decisions_ok db"
  obtains x previous where "find_row lb_id (canonical_id db r) (l_records db) = Some x"
    "stored_effective_source_decision (find_decision (canonical_id db r) db) = Inr previous"
    "evaluate sha (candidates_of db x) previous manual None = Inr d"
    "wf_decision d" "d_policy_version d = POLICY_VERSION"
    "find_decision (canonical_id db r) db' = Some (store_decision (canonical_id db r) d now)" "decisions_ok db'"
    "\<And>q. q \<noteq> canonical_id db r \<Longrightarrow> find_decision q db' = find_decision q db"
    "l_sources db' = l_sources db" "l_reviews db' = l_reviews db" "l_consolidations db' = l_consolidations db"
    "l_records db' = update_row lb_id (canonical_id db r) (\<lambda>x. x\<lparr>lb_updated := now\<rparr>) (l_records db)"
proof -
  let ?c = "canonical_id db r"
  have f: "find (\<lambda>r. fst r \<notin> lb_id ` set (l_records db)) [(?c, now)] = None \<Longrightarrow> ?c \<in> lb_id ` set (l_records db)"
    by (simp split: if_splits)
  from assms(1) obtain x where x: "find_row lb_id ?c (l_records db) = Some x"
    "persist_decision sha ?c (candidates_of db x) now manual (ls_id ` set (record_sources ?c db)) db = Inr (d, db')"
    by (auto simp: reevaluate_effective_source_decision_def reevaluate_effective_source_decisions_def Let_def
        split: sum.splits option.splits if_split_asm)
  from persist_facts [OF x(2) assms(2)] show thesis using that [OF x(1)] by metis
qed

text \<open>It succeeds exactly when the canonical record exists and the policy accepts the manual choice.\<close>

lemma candidates_within: "quality_candidate.source_id ` set (candidates_of db x) \<subseteq> ls_id ` set (record_sources (lb_id x) db)"
  by (auto simp: candidates_of_def candidate_of_def)

lemma evaluate_automatic: "\<exists>d. evaluate sha cs previous None key = Inr d"
  by (auto simp: evaluate_def Let_def split: option.splits)

lemma reevaluate_automatic:
  assumes "decisions_ok db" and "find_row lb_id (canonical_id db r) (l_records db) = Some x"
  shows "\<exists>d db'. reevaluate_effective_source_decision sha r now None db = Inr (d, db')"
proof -
  let ?c = "canonical_id db r"
  have x: "lb_id x = ?c" "x \<in> set (l_records db)" using find_row_Some [OF assms(2)] by auto
  have sub: "quality_candidate.source_id ` set (candidates_of db x) \<subseteq> ls_id ` set (record_sources ?c db)"
    using candidates_within [of db x] x(1) by simp
  have "\<exists>previous. stored_effective_source_decision (find_decision ?c db) = Inr previous"
  proof (cases "find_decision ?c db")
    case (Some row)
    then show ?thesis by (metis find_decision_ok [OF assms(1)])
  qed (simp add: stored_effective_source_decision_def)
  then obtain previous where p: "stored_effective_source_decision (find_decision ?c db) = Inr previous" by blast
  obtain d where d: "evaluate sha (candidates_of db x) previous None None = Inr d" using evaluate_automatic by blast
  have "\<exists>db'. persist_decision sha ?c (candidates_of db x) now None (ls_id ` set (record_sources ?c db)) db = Inr (d, db')"
    using sub p d by (simp add: persist_decision_def Let_def)
  moreover have "?c \<in> lb_id ` set (l_records db)" using x by (metis imageI)
  ultimately show ?thesis using assms(2)
    by (auto simp: reevaluate_effective_source_decision_def reevaluate_effective_source_decisions_def Let_def)
qed

text \<open>Attaching: the rows it writes before the reevaluation.\<close>

definition attached :: "lsource \<Rightarrow> string \<Rightarrow> string \<Rightarrow> timestamp \<Rightarrow> ldb \<Rightarrow> ldb" where
  "attached x r reason now db =
     add_event \<lparr>le_record = r, le_source = Some (ls_id x),
         le_kind = (if reason = ''source_replaced'' then ''source_replaced'' else ''source_attached''),
         le_state = ''present'', le_reason = Some reason, le_details = ''{}'', le_at = now\<rparr>
       (set_record r (\<lambda>y. y\<lparr>lb_source_state := ''present'', lb_updated := now\<rparr>)
         (db\<lparr>l_sources := update_row ls_id (ls_id x) (\<lambda>_. x\<lparr>ls_record := Some r, ls_disappeared := None\<rparr>) (l_sources db)\<rparr>))"

lemma attach_source_eq:
  assumes "find_row ls_id src (l_sources db) = Some x" and "r \<in> lb_id ` set (l_records db)"
  shows "attach_source sha src r reason now db =
    (case reevaluate_effective_source_decision sha r now None (attached x r reason now db) of
       Inl e \<Rightarrow> Inl e | Inr (_, db2) \<Rightarrow> Inr (x\<lparr>ls_record := Some r, ls_disappeared := None\<rparr>, db2))"
  using assms find_row_Some [OF assms(1)] by (simp add: attach_source_def attached_def Let_def)

lemma attached_simps:
  "l_decisions (attached x r reason now db) = l_decisions db" "canonical_id (attached x r reason now db) = canonical_id db"
  "l_sources (attached x r reason now db) = update_row ls_id (ls_id x) (\<lambda>_. x\<lparr>ls_record := Some r, ls_disappeared := None\<rparr>) (l_sources db)"
  "l_records (attached x r reason now db) =
     update_row lb_id r (\<lambda>y. y\<lparr>lb_source_state := ''present'', lb_updated := now\<rparr>) (l_records db)"
  by (simp_all add: attached_def canonical_id_def set_record_def fun_eq_iff)

text \<open>The foreign key of the consolidations.\<close>

definition consolidations_ok :: "ldb \<Rightarrow> bool" where
  "consolidations_ok db = (\<forall>(a, c) \<in> set (l_consolidations db). c \<in> lb_id ` set (l_records db))"

lemma canonical_exists:
  assumes "consolidations_ok db" and "r \<in> lb_id ` set (l_records db)"
  shows "canonical_id db r \<in> lb_id ` set (l_records db)"
  using assms by (auto simp: canonical_id_def consolidations_ok_def split: option.splits dest!: map_of_SomeD)

lemma find_source_update:
  assumes "find_row ls_id src rows = Some x" and "ls_id y = src"
  shows "find_row ls_id src (update_row ls_id src (\<lambda>_. y) rows) = Some y"
    "q \<noteq> src \<Longrightarrow> find_row ls_id q (update_row ls_id src (\<lambda>_. y) rows) = find_row ls_id q rows"
proof -
  show "find_row ls_id src (update_row ls_id src (\<lambda>_. y) rows) = Some y"
    using assms by (induction rows) (auto simp: find_row_def update_row_def split: if_splits)
  show "q \<noteq> src \<Longrightarrow> find_row ls_id q (update_row ls_id src (\<lambda>_. y) rows) = find_row ls_id q rows"
    using assms(2) by (induction rows) (auto simp: find_row_def update_row_def)
qed

text \<open>The revisions of a layer are numbered from one.\<close>

definition revisions_numbered :: "ldb \<Rightarrow> bool" where
  "revisions_numbered db = (\<forall>r layer. map rv_revision (layer_revisions r layer db)
     = [1..int (length (layer_revisions r layer db))])"

lemma max_default_Max: "max_default x xs = Max (set (x # xs))"
proof -
  have "(\<lambda>x s. max s x) = (max :: int \<Rightarrow> int \<Rightarrow> int)" by (intro ext) (rule max.commute)
  then show ?thesis by (simp add: max_default_def foldl_conv_fold Max.set_eq_fold del: list.set)
qed

lemma next_revision_numbered:
  assumes "revisions_numbered db"
  shows "next_revision r layer db = int (length (layer_revisions r layer db)) + 1"
proof -
  let ?n = "int (length (layer_revisions r layer db))"
  have l: "map rv_revision (layer_revisions r layer db) = [1..?n]" using assms by (simp add: revisions_numbered_def)
  show ?thesis
  proof (cases "layer_revisions r layer db")
    case (Cons v vs)
    then have n: "1 \<le> ?n" by simp
    obtain x xs where x: "[1..?n] = x # xs" using n by (cases "[1..?n]") auto
    then have "max_default x xs = Max {1..?n}" by (metis max_default_Max set_upto)
    also have "\<dots> = ?n" using n by (intro Max_eqI) auto
    finally show ?thesis by (simp add: next_revision_def l x)
  qed (simp add: next_revision_def)
qed

lemma layer_add: "layer_revisions r layer (add_revision v db)
   = layer_revisions r layer db @ (if rv_record v = r \<and> rv_layer v = layer then [v] else [])"
  by (simp add: layer_revisions_def add_revision_def)

lemma new_revision_simps [simp]:
  "rv_record (new_revision r src layer tags actor now db) = r" "rv_layer (new_revision r src layer tags actor now db) = layer"
  "rv_revision (new_revision r src layer tags actor now db) = next_revision r layer db"
  by (simp_all add: new_revision_def)

lemma numbered_add:
  assumes "revisions_numbered db"
  shows "revisions_numbered (add_revision (new_revision r src layer tags actor now db) db)"
proof -
  let ?v = "new_revision r src layer tags actor now db"
  have "map rv_revision (layer_revisions q l (add_revision ?v db)) = [1..int (length (layer_revisions q l (add_revision ?v db)))]" for q l
  proof (cases "q = r \<and> l = layer")
    case True
    then show ?thesis using assms next_revision_numbered [OF assms, of r layer]
      by (simp add: layer_add revisions_numbered_def upto_rec2 [of 1 "1 + int _"] add.commute)
  qed (use assms in \<open>auto simp: layer_add revisions_numbered_def\<close>)
  then show ?thesis by (simp add: revisions_numbered_def)
qed

lemma numbered_layers:
  "revisions_numbered db \<Longrightarrow> add_layers r src now ls db = (vs, db') \<Longrightarrow> revisions_numbered db'"
  by (induction r src now ls db arbitrary: vs db' rule: add_layers.induct)
     (auto simp: Let_def numbered_add split: prod.splits)

lemma numbered_set_record [simp]: "revisions_numbered (set_record k f db) = revisions_numbered db"
  "layer_revisions r layer (set_record k f db) = layer_revisions r layer db"
  by (simp_all add: revisions_numbered_def layer_revisions_def)

section \<open>Properties\<close>

text \<open>C19. The effective source decision survives its storage: after a reevaluation the stored row reads back
  as exactly the decision that was made, every other record keeps its row, and all rows stay
  readable.\<close>

theorem decision_survives_storage:
  assumes "reevaluate_effective_source_decision sha r now manual db = Inr (d, db')" and "decisions_ok db"
  shows "stored_effective_source_decision (find_decision (canonical_id db r) db') = Inr (Some d)
    \<and> (\<forall>q. q \<noteq> canonical_id db r \<longrightarrow> find_decision q db' = find_decision q db) \<and> decisions_ok db'"
  using assms by (rule reevaluate_facts) (simp add: store_read)

text \<open>Reevaluating is idempotent: with the sources unchanged a second evaluation, at any later time,
  succeeds and keeps source, tuple and manual baseline.\<close>

lemma reevaluate_idempotent:
  assumes "reevaluate_effective_source_decision sha r now manual db = Inr (d, db1)" and "decisions_ok db"
    and "\<forall>row. find_decision (canonical_id db r) db = Some row \<longrightarrow> sd_policy_version row = POLICY_VERSION"
  shows "\<exists>d' db2. reevaluate_effective_source_decision sha r later None db1 = Inr (d', db2)
    \<and> d_source_id d' = d_source_id d \<and> d_quality_tuple d' = d_quality_tuple d
    \<and> d_baseline_source_id d' = d_baseline_source_id d"
  using assms(1,2)
proof (rule reevaluate_facts)
  let ?c = "canonical_id db r"
  fix x previous
  assume x: "find_row lb_id ?c (l_records db) = Some x"
    and p: "stored_effective_source_decision (find_decision ?c db) = Inr previous"
    and e: "evaluate sha (candidates_of db x) previous manual None = Inr d" and wf: "wf_decision d"
    and v: "d_policy_version d = POLICY_VERSION"
    and row: "find_decision ?c db1 = Some (store_decision ?c d now)" and ok: "decisions_ok db1"
    and same: "l_sources db1 = l_sources db" "l_reviews db1 = l_reviews db" "l_consolidations db1 = l_consolidations db"
      "l_records db1 = update_row lb_id ?c (\<lambda>x. x\<lparr>lb_updated := now\<rparr>) (l_records db)"
  have c: "canonical_id db1 r = ?c" by (simp add: canonical_id_def same(3))
  obtain y where y: "find_row lb_id ?c (l_records db1) = Some y" "lb_id y = lb_id x" "lb_recording y = lb_recording x"
    using x by (auto simp: same(4) find_record_keys)
  have cand: "candidates_of db1 y = candidates_of db x"
    by (simp add: candidates_of_def candidate_of_def record_sources_def same y(2,3))
  obtain d' db2 where again: "reevaluate_effective_source_decision sha r later None db1 = Inr (d', db2)"
    using reevaluate_automatic [OF ok] y(1) c by metis
  have "evaluate sha (candidates_of db x) (Some d) None None = Inr d'"
    using again ok
    by (rule reevaluate_facts) (use y(1) cand row wf in \<open>simp add: c store_read\<close>)
  moreover have "from_decision d POLICY_VERSION = d" using v by (simp add: from_decision_def)
  moreover have "\<forall>q. previous = Some q \<longrightarrow> d_policy_version q = POLICY_VERSION"
  proof (intro allI impI)
    fix q assume q: "previous = Some q"
    then obtain rw where rw: "find_decision ?c db = Some rw"
      using p by (cases "find_decision ?c db") (auto simp: stored_effective_source_decision_def)
    then have "sd_policy_version rw = POLICY_VERSION" using assms(3) by blast
    then show "d_policy_version q = POLICY_VERSION"
      using find_decision_ok [OF assms(2) rw] p q rw by (metis Inr_inject option.inject)
  qed
  ultimately show ?thesis using evaluate_stable_facts [OF e] again by metis
qed

text \<open>Attaching a source fails only when the source or the record does not exist, and names the one
  that is missing; otherwise the source, and no other, belongs to the record and is present, and the
  record that stands for it has a readable effective source decision.\<close>

lemma attach_source_outcome:
  assumes "decisions_ok db" and "consolidations_ok db"
  shows "case attach_source sha src r reason now db of
      Inl e \<Rightarrow> if src \<notin> ls_id ` set (l_sources db) then e = LLookupError src
              else r \<notin> lb_id ` set (l_records db) \<and> e = LLookupError r
    | Inr (x, db') \<Rightarrow> ls_record x = Some r \<and> ls_disappeared x = None \<and> find_row ls_id src (l_sources db') = Some x
        \<and> (\<forall>q. q \<noteq> src \<longrightarrow> find_row ls_id q (l_sources db') = find_row ls_id q (l_sources db))
        \<and> (\<exists>d. stored_effective_source_decision (find_decision (canonical_id db r) db') = Inr (Some d)) \<and> decisions_ok db'"
proof (cases "find_row ls_id src (l_sources db)")
  case None
  then have "src \<notin> ls_id ` set (l_sources db)" by (simp only: find_row_None not_False_eq_True)
  then show ?thesis using None by (simp add: attach_source_def)
next
  case (Some x)
  then have src: "src \<in> ls_id ` set (l_sources db)" "ls_id x = src" using find_row_Some [OF Some] by auto
  show ?thesis
  proof (cases "r \<in> lb_id ` set (l_records db)")
    case False
    then show ?thesis using Some src by (simp add: attach_source_def)
  next
    case True
    let ?a = "attached x r reason now db"
    have ok: "decisions_ok ?a" using assms(1) by (simp add: decisions_ok_def attached_simps)
    have "map lb_id (l_records ?a) = map lb_id (l_records db)" unfolding attached_simps by (rule sw.keys_update)
    then have k: "lb_id ` set (l_records ?a) = lb_id ` set (l_records db)" by (metis list.set_map)
    have "canonical_id ?a r \<in> lb_id ` set (l_records ?a)"
      unfolding k attached_simps(2) by (rule canonical_exists [OF assms(2) True])
    then obtain y where y: "find_row lb_id (canonical_id ?a r) (l_records ?a) = Some y"
      by (metis find_row_None option.exhaust)
    obtain d db' where d: "reevaluate_effective_source_decision sha r now None ?a = Inr (d, db')"
      using reevaluate_automatic [OF ok y] by blast
    have f: "l_sources db' = l_sources ?a \<and> decisions_ok db'
        \<and> stored_effective_source_decision (find_decision (canonical_id db r) db') = Inr (Some d)"
      using d ok by (rule reevaluate_facts) (simp add: store_read attached_simps)
    let ?x = "x\<lparr>ls_record := Some r, ls_disappeared := None\<rparr>"
    have e: "attach_source sha src r reason now db = Inr (?x, db')" unfolding attach_source_eq [OF Some True] d by simp
    have s: "l_sources db' = update_row ls_id src (\<lambda>_. ?x) (l_sources db)" using f src(2) by (simp add: attached_simps)
    have "ls_id ?x = src" using src(2) by simp
    note u = find_source_update [OF Some this]
    have "ls_record ?x = Some r \<and> ls_disappeared ?x = None" by simp
    then show ?thesis unfolding e sum.case prod.case s using u(1) u(2) f by blast
  qed
qed

text \<open>The decision of a record the source belonged to before is left as it was, even when it names the
  source that has moved away.\<close>

lemma attach_source_other_decisions:
  assumes "attach_source sha src r reason now db = Inr (x, db')" and "decisions_ok db" and "q \<noteq> canonical_id db r"
  shows "find_decision q db' = find_decision q db"
proof -
  obtain y where y: "find_row ls_id src (l_sources db) = Some y" "r \<in> lb_id ` set (l_records db)"
    using assms(1) by (auto simp: attach_source_def simp del: set_map split: option.splits if_split_asm)
  let ?a = "attached y r reason now db"
  have ok: "decisions_ok ?a" using assms(2) by (simp add: decisions_ok_def attached_simps)
  obtain d where d: "reevaluate_effective_source_decision sha r now None ?a = Inr (d, db')"
    using assms(1) unfolding attach_source_eq [OF y] by (auto split: sum.splits)
  show ?thesis
    using d ok by (rule reevaluate_facts) (use assms(3) in \<open>simp add: attached_simps find_decision_def\<close>)
qed

text \<open>C20. Metadata history: recording layers or appending a revision keeps every layer of every record
  numbered 1, 2, 3 and so on, so that the unique constraint on record, layer and revision is never
  violated; and capturing the original layer is idempotent: however often it is repeated, with
  whatever tags, the first capture is returned and nothing changes.\<close>

theorem revisions_stay_numbered:
  assumes "revisions_numbered db"
  shows "(\<forall>vs db'. record_metadata_layers r src orig analyzed final now db = Inr (vs, db') \<longrightarrow> revisions_numbered db')
    \<and> (\<forall>v db'. append_metadata_revision r src layer tags actor now revise db = Inr (v, db') \<longrightarrow> revisions_numbered db'
        \<and> (layer = ''original'' \<and> \<not> revise \<longrightarrow>
            append_metadata_revision r src' layer tags' actor' now' False db' = Inr (v, db')))"
proof (intro conjI allI impI)
  show "record_metadata_layers r src orig analyzed final now db = Inr (vs, db') \<Longrightarrow> revisions_numbered db'" for vs db'
    using numbered_layers [OF assms]
    by (auto simp: record_metadata_layers_def simp del: add_layers.simps split: if_split_asm prod.splits)
next
  fix v db' assume a: "append_metadata_revision r src layer tags actor now revise db = Inr (v, db')"
  then show "revisions_numbered db'" using assms
    by (auto simp: append_metadata_revision_def Let_def numbered_add split: if_split_asm option.splits)
  assume l: "layer = ''original'' \<and> \<not> revise"
  have r: "r \<in> lb_id ` set (l_records db)" using a by (auto simp: append_metadata_revision_def split: if_split_asm)
  show "append_metadata_revision r src' layer tags' actor' now' False db' = Inr (v, db')"
  proof (cases "first_min rv_revision (layer_revisions r layer db)")
    case (Some w)
    then show ?thesis using a l r by (simp add: append_metadata_revision_def)
  next
    case None
    then have "layer_revisions r layer db = []" by simp
    moreover from a l r None have "db' = set_record r (\<lambda>x. x\<lparr>lb_updated := now, lb_metadata := (if layer = ''final'' then ''final'' else lb_metadata x)\<rparr>)
        (add_revision v db)" "v = new_revision r src layer tags actor now db"
      by (auto simp: append_metadata_revision_def Let_def)
    ultimately have e: "layer_revisions r layer db = []" "db' = set_record r (\<lambda>x. x\<lparr>lb_updated := now, lb_metadata := (if layer = ''final'' then ''final'' else lb_metadata x)\<rparr>)
        (add_revision v db)" "v = new_revision r src layer tags actor now db" by blast+
    have "layer_revisions r layer db' = [v]" using e by (simp add: layer_add)
    moreover have "map lb_id (l_records db') = map lb_id (l_records db)"
      by (simp add: e set_record_def add_revision_def mw.keys_update)
    then have "lb_id ` set (l_records db') = lb_id ` set (l_records db)" by (metis list.set_map)
    ultimately show ?thesis using r l by (simp add: append_metadata_revision_def first_min_def)
  qed
qed

text \<open>One record with a confirmed FLAC source.\<close>

definition sample_ldb :: ldb where
  "sample_ldb = \<lparr>l_records = [fresh_record ''1'' 0],
     l_sources = [\<lparr>ls_id = ''s'', ls_record = Some ''record-1'', ls_path = ''/music/t.flac'', ls_intake = ''present'',
       ls_disappeared = None, ls_codec = Some ''flac'', ls_bit_depth = Some 16, ls_sample_rate = Some 44100,
       ls_channels = Some 2, ls_bitrate = None\<rparr>],
     l_decisions = [], l_pubs = [], l_revisions = [], l_events = [], l_consolidations = [],
     l_reviews = [(''s'', ''confirmed'')], l_tags = [], l_artwork = []\<rparr>"

lemma sample_ldb_ok: "decisions_ok sample_ldb" "consolidations_ok sample_ldb" "canonical_id sample_ldb r = r"
  "find_row lb_id ''record-1'' (l_records sample_ldb) = Some (fresh_record ''1'' 0)"
  "''s'' \<in> ls_id ` set (l_sources sample_ldb)" "''record-1'' \<in> lb_id ` set (l_records sample_ldb)"
  by (simp_all add: decisions_ok_def consolidations_ok_def canonical_id_def sample_ldb_def find_row_def fresh_record_def)

lemma sample_reevaluated: "\<exists>d db'. reevaluate_effective_source_decision id ''record-1'' 5 None sample_ldb = Inr (d, db')"
  by (rule reevaluate_automatic [OF sample_ldb_ok(1)]) (simp add: sample_ldb_ok)

theorem decision_survives_storage_witness:
  "\<exists>d db'. reevaluate_effective_source_decision id ''record-1'' 5 None sample_ldb = Inr (d, db')
     \<and> stored_effective_source_decision (find_decision ''record-1'' db') = Inr (Some d)"
proof -
  obtain d db' where r: "reevaluate_effective_source_decision id ''record-1'' 5 None sample_ldb = Inr (d, db')"
    using sample_reevaluated by blast
  from decision_survives_storage [OF r sample_ldb_ok(1)] r show ?thesis by (auto simp: sample_ldb_ok)
qed

theorem revisions_stay_numbered_witness:
  "\<exists>v db'. append_metadata_revision ''record-1'' ''s'' ''original'' [] ''worker'' 5 False sample_ldb = Inr (v, db')
     \<and> append_metadata_revision ''record-1'' ''s'' ''original'' [(''TITLE'', ''x'')] ''worker'' 6 False db' = Inr (v, db')"
proof -
  have n: "revisions_numbered sample_ldb" by (simp add: revisions_numbered_def layer_revisions_def sample_ldb_def)
  have "layer_revisions ''record-1'' ''original'' sample_ldb = []" by (simp add: layer_revisions_def sample_ldb_def)
  then obtain v db' where r: "append_metadata_revision ''record-1'' ''s'' ''original'' [] ''worker'' 5 False sample_ldb = Inr (v, db')"
    using sample_ldb_ok(6) by (simp add: append_metadata_revision_def Let_def first_min_def)
  with revisions_stay_numbered [OF n] show ?thesis by blast
qed

end
