(* ===== verification/Catalog.thy ===== *)
theory Catalog imports Library begin

text \<open>
  The catalog queries of the library service (\<^verbatim>\<open>services/library/service.py\<close>): status counts,
  records that need manual action, the tags shown for each source, and the artists, albums and
  tracks grouped from them. The queries read the tables of \<^theory_text>\<open>Library\<close> and change nothing. Rows come
  in the order of their table where the query does not order them; the grouped results are sorted by
  the code.
\<close>

section \<open>Status and manual actions\<close>

definition retired :: "ldb \<Rightarrow> string \<Rightarrow> bool" where
  "retired db r = (r \<in> fst ` set (l_consolidations db))"

definition present_source :: "ldb \<Rightarrow> string \<Rightarrow> bool" where
  "present_source db r = list_ex (\<lambda>x. ls_record x = Some r \<and> ls_intake x = ''present'') (l_sources db)"

definition current_publication :: "ldb \<Rightarrow> string \<Rightarrow> bool" where
  "current_publication db r = list_ex (\<lambda>p. pub_record p = r \<and> pub_state p = ''current'') (l_pubs db)"

definition active_record :: "ldb \<Rightarrow> lrecord \<Rightarrow> bool" where
  "active_record db r = ((present_source db (lb_id r) \<or> current_publication db (lb_id r)) \<and> \<not> retired db (lb_id r))"

record library_status_view =
  total_track_count :: nat
  has_analysis :: bool

definition library_status :: "ldb \<Rightarrow> library_status_view" where
  "library_status db = (let act = filter (active_record db) (l_records db) in
     \<lparr>total_track_count = length act, has_analysis = length (filter (\<lambda>r. lb_processing r \<noteq> ''complete'') act) > 0\<rparr>)"

definition published_filter :: "bool option \<Rightarrow> lrecord \<Rightarrow> bool" where
  "published_filter published r = (case published of None \<Rightarrow> True
     | Some p \<Rightarrow> if p then lb_publication r = ''current'' else lb_publication r \<noteq> ''current'')"

definition library_active_record_count :: "bool option \<Rightarrow> ldb \<Rightarrow> nat" where
  "library_active_record_count published db =
     length (filter (\<lambda>r. active_record db r \<and> published_filter published r) (l_records db))"

datatype manual_action = AnalysisError | NeedsReview

definition manual_action_predicate :: "manual_action \<Rightarrow> ldb \<Rightarrow> lrecord \<Rightarrow> bool" where
  "manual_action_predicate act db r =
     (list_ex (\<lambda>x. ls_record x = Some (lb_id r) \<and> ls_intake x \<noteq> ''replaced'') (l_sources db) \<and>
      (case act of
         AnalysisError \<Rightarrow> lb_processing r \<in> {''retrying'', ''blocked_infrastructure'', ''quarantined''}
           \<or> lb_publication r = ''failed''
           \<or> list_ex (\<lambda>x. ls_record x = Some (lb_id r) \<and> ls_intake x = ''invalid_audio'') (l_sources db)
       | NeedsReview \<Rightarrow> lb_processing r = ''needs_review'' \<or> lb_match r = ''needs_review''))"

definition library_manual_action_records :: "manual_action \<Rightarrow> ldb \<Rightarrow> lrecord list" where
  "library_manual_action_records act db =
     filter (\<lambda>r. \<not> retired db (lb_id r) \<and> manual_action_predicate act db r) (l_records db)"

definition library_manual_action_counts :: "ldb \<Rightarrow> nat \<times> nat" where
  "library_manual_action_counts db =
     (length (library_manual_action_records AnalysisError db), length (library_manual_action_records NeedsReview db))"

section \<open>Tags of the sources\<close>

type_synonym tags = "(string \<times> string) list"

text \<open>\<open>s.split(';')\<close>.\<close>

fun split_on :: "char \<Rightarrow> string \<Rightarrow> string list" where
  "split_on c [] = [[]]"
| "split_on c (x # s) = (if x = c then [] # split_on c s
     else (case split_on c s of [] \<Rightarrow> [[x]] | p # ps \<Rightarrow> (x # p) # ps))"

definition get_or_empty :: "tags \<Rightarrow> string \<Rightarrow> string" where
  "get_or_empty tags k = (case map_of tags k of None \<Rightarrow> [] | Some v \<Rightarrow> v)"

definition catalog_artists :: "tags \<Rightarrow> string option list" where
  "catalog_artists tags =
     (let value = (if get_or_empty tags ''ALBUMARTIST'' \<noteq> [] then get_or_empty tags ''ALBUMARTIST''
                   else get_or_empty tags ''ARTIST'');
          artists = dedup (filter (\<lambda>n. n \<noteq> []) (map str_strip (split_on (CHR '';'') value))) in
      if artists = [] then [None] else map Some artists)"

record album_track_selector =
  sel_artist_name :: "string option"
  sel_artist_missing :: bool
  sel_album_id :: "string option"
  sel_album_name :: "string option"
  sel_album_missing :: bool

definition album_track_selector_matches :: "album_track_selector \<Rightarrow> string option \<Rightarrow> tags \<Rightarrow> bool" where
  "album_track_selector_matches sel release tags =
     (let artists = catalog_artists tags; album = get_or_empty tags ''ALBUM'' in
      (\<not> sel_artist_missing sel \<or> None \<in> set artists)
      \<and> (sel_artist_name sel = None \<or> sel_artist_name sel \<in> set artists)
      \<and> (sel_album_id sel = None \<or> release = sel_album_id sel)
      \<and> (\<not> sel_album_missing sel \<or> (release = None \<and> album = []))
      \<and> (sel_album_name sel = None \<or> (release = None \<and> Some album = sel_album_name sel)))"

record catalog_source =
  cs_record :: string
  cs_source :: string
  cs_path :: string
  cs_release :: "string option"
  cs_source_state :: string
  cs_processing :: string
  cs_match :: string
  cs_publication :: string
  cs_tags :: tags
  cs_lyrics :: string

text \<open>\<open>json.loads\<close> of a stored layer. The service writes objects of strings only; anything else is
  taken as malformed.\<close>

definition str_member :: "string \<times> json \<Rightarrow> (string \<times> string) option" where
  "str_member kv = (case snd kv of JStr v \<Rightarrow> Some (fst kv, v) | _ \<Rightarrow> None)"

definition decode_tags :: "string \<Rightarrow> lerror + tags" where
  "decode_tags t = (case loads t of
     Some (JObj kvs) \<Rightarrow> (case those (map str_member kvs) of Some tags \<Rightarrow> Inr tags | None \<Rightarrow> Inl (LValueError t))
   | _ \<Rightarrow> Inl (LValueError t))"

definition listed :: "ldb \<Rightarrow> bool option \<Rightarrow> lrecord \<Rightarrow> bool" where
  "listed db published r = (\<not> retired db (lb_id r) \<and> published_filter published r)"

text \<open>The revision rows: the joins, the layers, newest first.\<close>

definition joined :: "ldb \<Rightarrow> bool option \<Rightarrow> revision_row \<Rightarrow> bool" where
  "joined db published v = (rv_layer v \<in> {''final'', ''original''}
     \<and> (case find_row lb_id (rv_record v) (l_records db) of None \<Rightarrow> False
        | Some r \<Rightarrow> listed db published r \<and>
            list_ex (\<lambda>x. Some (ls_id x) = rv_source v \<and> ls_record x = Some (lb_id r)) (l_sources db)))"

definition revision_rows :: "ldb \<Rightarrow> bool option \<Rightarrow> revision_row list" where
  "revision_rows db published =
     sort_key (\<lambda>v. (- rv_revision v, - rv_id v)) (filter (joined db published) (l_revisions db))"

definition row_key :: "revision_row \<Rightarrow> string \<times> string option" where
  "row_key v = (rv_record v, rv_source v)"

fun tags_by_source ::
  "revision_row list \<Rightarrow> (string \<times> string option \<rightharpoonup> string \<times> tags) \<Rightarrow> lerror + (string \<times> string option \<rightharpoonup> string \<times> tags)" where
  "tags_by_source [] d = Inr d"
| "tags_by_source (v # vs) d =
     (if d (row_key v) = None \<or> (map_option fst (d (row_key v)) = Some ''original'' \<and> rv_layer v = ''final'')
      then bindR (decode_tags (rv_tags_json v)) (\<lambda>t. tags_by_source vs (d(row_key v \<mapsto> (rv_layer v, t))))
      else tags_by_source vs d)"

fun raw_tags :: "tag_row list \<Rightarrow> tags \<Rightarrow> tags" where
  "raw_tags [] d = d"
| "raw_tags (t # ts) d = raw_tags ts (dict_set (tg_name t)
     (case map_of d (tg_name t) of Some old \<Rightarrow> old @ ''; '' @ tg_value t | None \<Rightarrow> tg_value t) d)"

definition selected_tags :: "ldb \<Rightarrow> string \<Rightarrow> tag_row list" where
  "selected_tags db src = filter (\<lambda>t. tg_source t = src \<and> tg_selected t) (l_tags db)"

definition catalog_row :: "ldb \<Rightarrow> (string \<times> string option \<rightharpoonup> string \<times> tags) \<Rightarrow> lrecord \<Rightarrow> lsource \<Rightarrow> catalog_source" where
  "catalog_row db d r x = \<lparr>cs_record = lb_id r, cs_source = ls_id x, cs_path = ls_path x, cs_release = lb_release r,
     cs_source_state = ls_intake x, cs_processing = lb_processing r, cs_match = lb_match r,
     cs_publication = lb_publication r,
     cs_tags = (case d (lb_id r, Some (ls_id x)) of Some (_, t) \<Rightarrow> t | None \<Rightarrow> raw_tags (selected_tags db (ls_id x)) []),
     cs_lyrics = lb_lyrics r\<rparr>"

definition listed_record :: "ldb \<Rightarrow> bool option \<Rightarrow> lsource \<Rightarrow> lrecord option" where
  "listed_record db published x = (case ls_record x of None \<Rightarrow> None
     | Some r \<Rightarrow> (case find_row lb_id r (l_records db) of None \<Rightarrow> None
        | Some y \<Rightarrow> if listed db published y then Some y else None))"

definition catalog_source_tags :: "ldb \<Rightarrow> bool option \<Rightarrow> lerror + catalog_source list" where
  "catalog_source_tags db published = bindR (tags_by_source (revision_rows db published) Map.empty)
     (\<lambda>d. Inr (List.map_filter (\<lambda>x. map_option (\<lambda>r. catalog_row db d r x) (listed_record db published x)) (l_sources db)))"

section \<open>Artists, albums and tracks\<close>

text \<open>\<open>counts.setdefault(key, set()).add(record_id)\<close>: groups in the order of first appearance.\<close>

definition add_group :: "'k \<Rightarrow> string \<Rightarrow> ('k \<times> string list) list \<Rightarrow> ('k \<times> string list) list" where
  "add_group k r d = dict_set k (case map_of d k of None \<Rightarrow> [r] | Some rs \<Rightarrow> if r \<in> set rs then rs else rs @ [r]) d"

fun group_by :: "('k \<times> string) list \<Rightarrow> ('k \<times> string list) list \<Rightarrow> ('k \<times> string list) list" where
  "group_by [] d = d"
| "group_by ((k, r) # ps) d = group_by ps (add_group k r d)"

definition opt_str :: "string option \<Rightarrow> string" where
  "opt_str v = (case v of None \<Rightarrow> [] | Some s \<Rightarrow> s)"

record catalog_artist =
  ca_name :: "string option"
  ca_track_count :: nat

definition artist_pairs :: "catalog_source list \<Rightarrow> (string option \<times> string) list" where
  "artist_pairs cs = concat (map (\<lambda>c. map (\<lambda>a. (a, cs_record c)) (catalog_artists (cs_tags c))) cs)"

definition library_artist_names :: "bool option \<Rightarrow> ldb \<Rightarrow> lerror + catalog_artist list" where
  "library_artist_names published db = bindR (catalog_source_tags db published) (\<lambda>cs.
     Inr (map (\<lambda>(name, rs). \<lparr>ca_name = name, ca_track_count = length rs\<rparr>)
       (sort_key (\<lambda>g. (fst g \<noteq> None, opt_str (fst g))) (group_by (artist_pairs cs) []))))"

record catalog_album =
  al_id :: "string option"
  al_name :: "string option"
  al_track_count :: nat
  al_artwork_url :: "string option"

definition artwork_url :: "ldb \<Rightarrow> string option \<Rightarrow> string option" where
  "artwork_url db album = (case album of None \<Rightarrow> None | Some m \<Rightarrow>
     if list_ex (\<lambda>a. aw_release a = m \<and> aw_state a = ''ready'' \<and> aw_path a \<noteq> None) (l_artwork db)
     then Some (''/api/library/release-artwork/'' @ m) else None)"

definition album_pairs :: "string option \<Rightarrow> bool \<Rightarrow> catalog_source list \<Rightarrow> ((string option \<times> string option) \<times> string) list" where
  "album_pairs artist missing cs = map (\<lambda>c. ((cs_release c, map_of (cs_tags c) ''ALBUM''), cs_record c))
     (filter (\<lambda>c. \<not> (missing \<and> None \<notin> set (catalog_artists (cs_tags c)))
        \<and> \<not> (artist \<noteq> None \<and> artist \<notin> set (catalog_artists (cs_tags c)))) cs)"

definition library_artist_albums :: "string option \<Rightarrow> bool \<Rightarrow> bool option \<Rightarrow> ldb \<Rightarrow> lerror + catalog_album list" where
  "library_artist_albums artist missing published db = bindR (catalog_source_tags db published) (\<lambda>cs.
     Inr (map (\<lambda>((i, n), rs). \<lparr>al_id = i, al_name = n, al_track_count = length rs, al_artwork_url = artwork_url db i\<rparr>)
       (sort_key (\<lambda>g. (snd (fst g) \<noteq> None, opt_str (snd (fst g)), opt_str (fst (fst g))))
         (group_by (album_pairs artist missing cs) []))))"

record catalog_track =
  ct_record :: string
  ct_source :: string
  ct_path :: string
  ct_release :: "string option"
  ct_source_state :: string
  ct_processing :: string
  ct_match :: string
  ct_publication :: string
  ct_artist_name :: "string option"
  ct_album_name :: "string option"
  ct_title :: string
  ct_track_number :: "string option"
  ct_lyrics :: string

text \<open>The source shown for a record: its effective one, else the one of its current publication, else
  the one with the least identifier, among the listed sources of the record.\<close>

definition source_with :: "catalog_source list \<Rightarrow> string option \<Rightarrow> catalog_source option" where
  "source_with cs i = (case i of None \<Rightarrow> None | Some s \<Rightarrow> find (\<lambda>c. cs_source c = s) cs)"

definition effective_source_id :: "ldb \<Rightarrow> string \<Rightarrow> string option" where
  "effective_source_id db r = (case find_decision r db of None \<Rightarrow> None | Some d \<Rightarrow> sd_source d)"

definition publication_source_id :: "ldb \<Rightarrow> string \<Rightarrow> string option" where
  "publication_source_id db r =
     map_option pub_source (find (\<lambda>p. pub_record p = r \<and> pub_state p = ''current'') (l_pubs db))"

definition shown_source :: "ldb \<Rightarrow> string \<Rightarrow> catalog_source list \<Rightarrow> catalog_source option" where
  "shown_source db r cs = (case source_with cs (effective_source_id db r) of
     Some c \<Rightarrow> Some c
   | None \<Rightarrow> (case source_with cs (publication_source_id db r) of
       Some c \<Rightarrow> Some c | None \<Rightarrow> first_min cs_source cs))"

definition track_of :: "string option \<Rightarrow> catalog_source \<Rightarrow> catalog_track" where
  "track_of artist c = (let album = get_or_empty (cs_tags c) ''ALBUM'' in
     \<lparr>ct_record = cs_record c, ct_source = cs_source c, ct_path = cs_path c, ct_release = cs_release c,
      ct_source_state = cs_source_state c, ct_processing = cs_processing c, ct_match = cs_match c,
      ct_publication = cs_publication c,
      ct_artist_name = (if artist \<noteq> None then artist else hd (catalog_artists (cs_tags c))),
      ct_album_name = (if album = [] then None else Some album), ct_title = get_or_empty (cs_tags c) ''TITLE'',
      ct_track_number = map_of (cs_tags c) ''TRACKNUMBER'', ct_lyrics = cs_lyrics c\<rparr>)"

definition matching_records :: "album_track_selector \<Rightarrow> catalog_source list \<Rightarrow> string list" where
  "matching_records sel cs =
     dedup (map cs_record (filter (\<lambda>c. album_track_selector_matches sel (cs_release c) (cs_tags c)) cs))"

definition library_album_tracks :: "album_track_selector \<Rightarrow> bool option \<Rightarrow> ldb \<Rightarrow> lerror + catalog_track list" where
  "library_album_tracks sel published db = bindR (catalog_source_tags db published) (\<lambda>cs.
     Inr (List.map_filter (\<lambda>r. map_option (track_of (sel_artist_name sel))
        (shown_source db r (filter (\<lambda>c. cs_record c = r) cs))) (matching_records sel cs)))"

section \<open>Lemmas\<close>

lemma find_filter: "find P xs = (case filter P xs of [] \<Rightarrow> None | x # _ \<Rightarrow> Some x)"
  by (induction xs) auto

lemma first_min_Cons: "first_min f (x # xs) = (case first_min f xs of None \<Rightarrow> Some x
    | Some m \<Rightarrow> if f x \<le> f m then Some x else Some m)"
  by (cases xs) (simp_all add: first_min_def Let_def)

lemma insort_head: "(case insort_key f x ys of [] \<Rightarrow> None | z # _ \<Rightarrow> Some z)
    = (case ys of [] \<Rightarrow> Some x | y # _ \<Rightarrow> if f x \<le> f y then Some x else Some y)"
  by (cases ys) auto

lemma sort_head: "(case sort_key f xs of [] \<Rightarrow> None | x # _ \<Rightarrow> Some x) = first_min f xs"
proof (induction xs)
  case (Cons x xs)
  show ?case unfolding first_min_Cons Cons.IH [symmetric] by (auto simp: insort_head split: list.splits)
qed simp

text \<open>The first row of a key and layer among the sorted rows is the newest one.\<close>

definition newest :: "ldb \<Rightarrow> bool option \<Rightarrow> string \<times> string option \<Rightarrow> string \<Rightarrow> revision_row option" where
  "newest db published k layer = first_min (\<lambda>v. (- rv_revision v, - rv_id v))
     (filter (\<lambda>v. joined db published v \<and> row_key v = k \<and> rv_layer v = layer) (l_revisions db))"

lemma find_newest:
  "find (\<lambda>v. row_key v = k \<and> rv_layer v = layer) (revision_rows db published) = newest db published k layer"
  unfolding find_filter revision_rows_def filter_sort newest_def sort_head [symmetric]
  by (simp add: conj_commute conj_left_commute conj_assoc)

definition decoded :: "revision_row \<Rightarrow> string \<times> tags \<Rightarrow> bool" where
  "decoded v e = (fst e = rv_layer v \<and> decode_tags (rv_tags_json v) = Inr (snd e))"

lemma tags_by_source_spec:
  assumes "tags_by_source vs d = Inr d'" and "\<forall>v \<in> set vs. rv_layer v \<in> {''final'', ''original''}"
  shows "(case find (\<lambda>v. row_key v = k \<and> rv_layer v = ''final'') vs of
      Some v \<Rightarrow> (if d k = None \<or> map_option fst (d k) = Some ''original'' then \<exists>e. d' k = Some e \<and> decoded v e else d' k = d k)
    | None \<Rightarrow> (case d k of Some e \<Rightarrow> d' k = Some e
        | None \<Rightarrow> (case find (\<lambda>v. row_key v = k \<and> rv_layer v = ''original'') vs of
            Some v \<Rightarrow> \<exists>e. d' k = Some e \<and> decoded v e | None \<Rightarrow> d' k = None)))"
  using assms
proof (induction vs d rule: tags_by_source.induct)
  case (2 v vs d)
  have lay: "rv_layer v \<in> {''final'', ''original''}" using "2.prems"(2) by simp
  show ?case
  proof (cases "d (row_key v) = None \<or> (map_option fst (d (row_key v)) = Some ''original'' \<and> rv_layer v = ''final'')")
    case True
    then obtain t where t: "decode_tags (rv_tags_json v) = Inr t"
      "tags_by_source vs (d(row_key v \<mapsto> (rv_layer v, t))) = Inr d'"
      using "2.prems"(1) by (auto simp: bindR_Inr_iff)
    note ih = "2.IH"(1) [OF True t(2)]
    show ?thesis using ih "2.prems"(2) True t(1) lay
      by (cases "row_key v = k") (auto simp: decoded_def split: option.splits if_split_asm)
  next
    case False
    then have "tags_by_source vs d = Inr d'" using "2.prems"(1) by (simp only: tags_by_source.simps if_False)
    note ih = "2.IH"(2) [OF False this]
    show ?thesis using ih "2.prems"(2) False lay
      by (cases "row_key v = k") (auto split: option.splits if_split_asm)
  qed
qed (simp split: option.splits)

lemma revision_rows_layers: "\<forall>v \<in> set (revision_rows db published). rv_layer v \<in> {''final'', ''original''}"
  by (auto simp: revision_rows_def joined_def)

text \<open>The tags of a listed source.\<close>

lemma catalog_source_cases:
  assumes "catalog_source_tags db published = Inr cs" and "c \<in> set cs"
  obtains d r x where "tags_by_source (revision_rows db published) Map.empty = Inr d" "x \<in> set (l_sources db)"
    "listed_record db published x = Some r" "c = catalog_row db d r x"
  using assms by (auto simp: catalog_source_tags_def bindR_Inr_iff List.map_filter_def)

lemma latest_tags_facts:
  assumes "catalog_source_tags db published = Inr cs" and "c \<in> set cs"
  shows "case newest db published (cs_record c, Some (cs_source c)) ''final'' of
      Some v \<Rightarrow> decode_tags (rv_tags_json v) = Inr (cs_tags c)
    | None \<Rightarrow> (case newest db published (cs_record c, Some (cs_source c)) ''original'' of
        Some v \<Rightarrow> decode_tags (rv_tags_json v) = Inr (cs_tags c)
      | None \<Rightarrow> cs_tags c = raw_tags (selected_tags db (cs_source c)) [])"
proof -
  obtain d r x where d: "tags_by_source (revision_rows db published) Map.empty = Inr d" and c: "c = catalog_row db d r x"
    using catalog_source_cases [OF assms] by metis
  let ?k = "(cs_record c, Some (cs_source c))"
  have t: "cs_tags c = (case d ?k of Some (_, t) \<Rightarrow> t | None \<Rightarrow> raw_tags (selected_tags db (cs_source c)) [])"
    unfolding c by (simp add: catalog_row_def split: option.split)
  from tags_by_source_spec [OF d revision_rows_layers, of ?k]
  show ?thesis unfolding find_newest t by (auto simp: decoded_def split: option.splits prod.splits)
qed

lemma str_members: "those (map str_member (map (\<lambda>(k, v). (k, JStr v)) tags)) = Some tags"
  by (induction tags) (auto simp: str_member_def)

lemma decode_tags_json:
  assumes "distinct (map fst t)"
  shows "decode_tags (tags_json t) = Inr (sort_key fst t)"
proof -
  let ?o = "map (\<lambda>(k, v). (k, JStr v)) (sort_key fst t)"
  have "mset (map fst (sort_key fst t)) = mset (map fst t)" by simp
  then have "distinct (map fst (sort_key fst t))" using assms by (metis mset_eq_imp_distinct_iff)
  then have "distinct (map fst ?o)" by (simp add: comp_def case_prod_unfold)
  then have "json_ok (JObj ?o)" by (auto simp: list_all_iff)
  then have "loads (tags_json t) = Some (JObj ?o)" unfolding tags_json_def by (intro loads_json(2)) (simp_all add: blank_def)
  then show ?thesis by (simp add: decode_tags_def str_members del: map_map)
qed

text \<open>Grouping: the keys are those of the pairs, each once, with the records of the key, each once.\<close>

lemma map_of_dict_set: "map_of (dict_set k v d) = (map_of d)(k \<mapsto> v)"
  by simp

lemma add_group_get: "map_of (add_group k r d) q = (if q = k then Some (case map_of d k of None \<Rightarrow> [r]
    | Some rs \<Rightarrow> if r \<in> set rs then rs else rs @ [r]) else map_of d q)"
  by (simp add: add_group_def)

definition group_at :: "('k \<times> string list) list \<Rightarrow> ('k \<times> string) set \<Rightarrow> 'k \<Rightarrow> bool" where
  "group_at d P k = ((map_of d k = None \<and> {r. (k, r) \<in> P} = {})
     \<or> (\<exists>rs. map_of d k = Some rs \<and> distinct rs \<and> rs \<noteq> [] \<and> set rs = {r. (k, r) \<in> P}))"

definition groups_ok :: "('k \<times> string list) list \<Rightarrow> ('k \<times> string) set \<Rightarrow> bool" where
  "groups_ok d P = (distinct (map fst d) \<and> (\<forall>k. group_at d P k))"

lemma groups_ok_at: "groups_ok d P \<Longrightarrow> group_at d P k"
  by (simp add: groups_ok_def)

lemma group_at_add:
  assumes "group_at d P q"
  shows "group_at (add_group k r d) (insert (k, r) P) q"
proof (cases "q = k")
  case False
  then have "{r'. (q, r') \<in> insert (k, r) P} = {r'. (q, r') \<in> P}" by auto
  then show ?thesis using assms False by (simp add: group_at_def add_group_get)
next
  case True
  have ins: "{r'. (q, r') \<in> insert (k, r) P} = insert r {r'. (q, r') \<in> P}" using True by auto
  show ?thesis
  proof (cases "map_of d k")
    case None
    then have 1: "map_of d k = None" "{r'. (q, r') \<in> P} = {}" using assms True by (simp_all add: group_at_def)
    have "map_of (add_group k r d) q = Some [r]" by (simp add: add_group_get True 1(1))
    then show ?thesis unfolding group_at_def ins 1(2) by simp
  next
    case (Some rs)
    then have 2: "map_of d k = Some rs" "distinct rs" "rs \<noteq> []" "set rs = {r'. (q, r') \<in> P}"
      using assms True by (simp_all add: group_at_def)
    let ?rs = "if r \<in> set rs then rs else rs @ [r]"
    have "map_of (add_group k r d) q = Some ?rs" by (simp add: add_group_get True 2(1))
    moreover have "distinct ?rs" "?rs \<noteq> []" using 2(2,3) by simp_all
    moreover have "set ?rs = insert r {r'. (q, r') \<in> P}" unfolding 2(4) [symmetric] by auto
    ultimately show ?thesis unfolding group_at_def ins by blast
  qed
qed

lemma groups_ok_add: "groups_ok d P \<Longrightarrow> groups_ok (add_group k r d) (insert (k, r) P)"
proof -
  assume ok: "groups_ok d P"
  have "distinct (map fst (add_group k r d))" using ok by (simp add: groups_ok_def add_group_def dict_set_distinct)
  moreover have "group_at (add_group k r d) (insert (k, r) P) q" for q
    by (rule group_at_add) (use ok in \<open>simp add: groups_ok_def\<close>)
  ultimately show ?thesis unfolding groups_ok_def by blast
qed

lemma group_by_ok: "groups_ok d P \<Longrightarrow> groups_ok (group_by ps d) (P \<union> set ps)"
proof (induction ps d arbitrary: P rule: group_by.induct)
  case (2 k r ps d)
  then show ?case using groups_ok_add [OF "2.prems", of k r] "2.IH" [of "insert (k, r) P"] by simp
qed simp

lemma group_by_groups: "groups_ok (group_by ps []) (set ps)"
proof -
  have "groups_ok [] {}" by (simp add: groups_ok_def group_at_def)
  from group_by_ok [OF this, of ps] show ?thesis by simp
qed

lemma group_by_facts:
  assumes "(k, rs) \<in> set (group_by ps [])"
  shows "distinct rs" "rs \<noteq> []" "set rs = {r. (k, r) \<in> set ps}"
proof -
  have "map_of (group_by ps []) k = Some rs"
    using assms group_by_groups [of ps] by (simp add: groups_ok_def)
  then show "distinct rs" "rs \<noteq> []" "set rs = {r. (k, r) \<in> set ps}"
    using groups_ok_at [OF group_by_groups [of ps], of k] by (auto simp: group_at_def)
qed

lemma group_by_keys: "distinct (map fst (group_by ps []))" "fst ` set (group_by ps []) = fst ` set ps"
proof -
  show "distinct (map fst (group_by ps []))" using group_by_groups [of ps] by (simp add: groups_ok_def)
  have "k \<in> fst ` set (group_by ps []) \<longleftrightarrow> {r. (k, r) \<in> set ps} \<noteq> {}" for k
  proof -
    have "k \<in> fst ` set (group_by ps []) \<longleftrightarrow> map_of (group_by ps []) k \<noteq> None" by (simp add: map_of_eq_None_iff)
    also have "\<dots> \<longleftrightarrow> {r. (k, r) \<in> set ps} \<noteq> {}"
      using groups_ok_at [OF group_by_groups [of ps], of k] by (auto simp: group_at_def simp flip: set_empty)
    finally show ?thesis .
  qed
  then show "fst ` set (group_by ps []) = fst ` set ps" by (intro set_eqI) force
qed

text \<open>Which source of a record may be shown.\<close>

definition preferred :: "ldb \<Rightarrow> string \<Rightarrow> catalog_source list \<Rightarrow> catalog_source \<Rightarrow> bool" where
  "preferred db r cs c = (if \<exists>x \<in> set cs. cs_record x = r \<and> Some (cs_source x) = effective_source_id db r
     then Some (cs_source c) = effective_source_id db r
     else if \<exists>x \<in> set cs. cs_record x = r \<and> Some (cs_source x) = publication_source_id db r
     then Some (cs_source c) = publication_source_id db r
     else \<forall>x \<in> set cs. cs_record x = r \<longrightarrow> cs_source c \<le> cs_source x)"

lemma source_with_own:
  "source_with (filter (\<lambda>c. cs_record c = r) cs) i = Some c \<Longrightarrow> c \<in> set cs \<and> cs_record c = r \<and> Some (cs_source c) = i"
  "source_with (filter (\<lambda>c. cs_record c = r) cs) i = None \<longleftrightarrow> \<not> (\<exists>x \<in> set cs. cs_record x = r \<and> Some (cs_source x) = i)"
  by (auto simp: source_with_def find_Some_iff find_None_iff split: option.splits dest!: nth_mem)

lemma shown_preferred:
  assumes "r \<in> cs_record ` set cs"
  shows "\<exists>c. shown_source db r (filter (\<lambda>c. cs_record c = r) cs) = Some c \<and> c \<in> set cs \<and> cs_record c = r
    \<and> preferred db r cs c"
proof -
  let ?own = "filter (\<lambda>c. cs_record c = r) cs"
  have "?own \<noteq> []" using assms by (auto simp: filter_empty_conv)
  then obtain m where m: "first_min cs_source ?own = Some m" by (cases "first_min cs_source ?own") auto
  have mm: "m \<in> set cs \<and> cs_record m = r \<and> (\<forall>x \<in> set cs. cs_record x = r \<longrightarrow> cs_source m \<le> cs_source x)"
    using first_min_in [OF m] first_min_le [OF m] by auto
  show ?thesis
  proof (cases "source_with ?own (effective_source_id db r)")
    case (Some c)
    have e: "\<exists>x \<in> set cs. cs_record x = r \<and> Some (cs_source x) = effective_source_id db r"
      using source_with_own(1) [OF Some] by blast
    show ?thesis unfolding preferred_def if_P [OF e] using Some source_with_own(1) [OF Some] by (simp add: shown_source_def)
  next
    case no_eff: None
    then have ne: "\<not> (\<exists>x \<in> set cs. cs_record x = r \<and> Some (cs_source x) = effective_source_id db r)"
      by (simp only: source_with_own(2) not_False_eq_True)
    show ?thesis
    proof (cases "source_with ?own (publication_source_id db r)")
      case (Some c)
      have e: "\<exists>x \<in> set cs. cs_record x = r \<and> Some (cs_source x) = publication_source_id db r"
        using source_with_own(1) [OF Some] by blast
      show ?thesis unfolding preferred_def if_not_P [OF ne] if_P [OF e]
        using Some no_eff source_with_own(1) [OF Some] by (simp add: shown_source_def)
    next
      case None
      then have np: "\<not> (\<exists>x \<in> set cs. cs_record x = r \<and> Some (cs_source x) = publication_source_id db r)"
        by (simp only: source_with_own(2) not_False_eq_True)
      show ?thesis unfolding preferred_def if_not_P [OF ne] if_not_P [OF np]
        using None no_eff m mm by (simp add: shown_source_def)
    qed
  qed
qed

section \<open>Properties\<close>

text \<open>The tags the catalog shows for a source are those of the newest final layer of its record, else of
  the newest original layer, else the selected observations joined; a stored layer is never mixed with
  another.\<close>

lemma catalog_latest_tags:
  assumes "catalog_source_tags db published = Inr cs" and "c \<in> set cs"
  shows "case newest db published (cs_record c, Some (cs_source c)) ''final'' of
      Some v \<Rightarrow> decode_tags (rv_tags_json v) = Inr (cs_tags c)
    | None \<Rightarrow> (case newest db published (cs_record c, Some (cs_source c)) ''original'' of
        Some v \<Rightarrow> decode_tags (rv_tags_json v) = Inr (cs_tags c)
      | None \<Rightarrow> cs_tags c = raw_tags (selected_tags db (cs_source c)) [])"
  by (rule latest_tags_facts [OF assms])

text \<open>Artists are listed once each, sorted with the missing artist first, exactly those some listed source
  has, and the count is the number of different records with a source of that artist.\<close>

lemma artist_names_counted:
  assumes "library_artist_names published db = Inr artists" and "catalog_source_tags db published = Inr cs"
  shows "distinct (map ca_name artists) \<and> sorted (map (\<lambda>a. (ca_name a \<noteq> None, opt_str (ca_name a))) artists)
    \<and> set (map ca_name artists) = (\<Union>c \<in> set cs. set (catalog_artists (cs_tags c)))
    \<and> (\<forall>a \<in> set artists. ca_track_count a = card {cs_record c | c. c \<in> set cs \<and> ca_name a \<in> set (catalog_artists (cs_tags c))})"
proof -
  let ?f = "\<lambda>(name, rs). \<lparr>ca_name = name, ca_track_count = length rs\<rparr>"
  let ?k = "\<lambda>g :: string option \<times> string list. (fst g \<noteq> None, opt_str (fst g))"
  let ?g = "group_by (artist_pairs cs) []"
  have a: "artists = map ?f (sort_key ?k ?g)" using assms by (simp add: library_artist_names_def)
  have n: "map ca_name artists = map fst (sort_key ?k ?g)" by (simp add: a comp_def case_prod_unfold)
  have pairs: "set (artist_pairs cs) = {(n, cs_record c) | n c. c \<in> set cs \<and> n \<in> set (catalog_artists (cs_tags c))}"
    by (auto simp: artist_pairs_def)
  have me: "mset (map fst (sort_key ?k ?g)) = mset (map fst ?g)" by simp
  have d: "distinct (map ca_name artists)" unfolding n
    using mset_eq_imp_distinct_iff [OF me] group_by_keys(1) by blast
  have ks: "map (\<lambda>a. (ca_name a \<noteq> None, opt_str (ca_name a))) artists = map ?k (sort_key ?k ?g)"
    by (simp add: a comp_def case_prod_unfold)
  have srt: "sorted (map (\<lambda>a. (ca_name a \<noteq> None, opt_str (ca_name a))) artists)"
    unfolding ks by (rule sorted_sort_key)
  have "set (map ca_name artists) = fst ` set (artist_pairs cs)"
    unfolding n set_map set_sort by (rule group_by_keys(2))
  moreover have "fst ` set (artist_pairs cs) = (\<Union>c \<in> set cs. set (catalog_artists (cs_tags c)))"
    by (simp add: artist_pairs_def image_UN image_image)
  ultimately have names: "set (map ca_name artists) = (\<Union>c \<in> set cs. set (catalog_artists (cs_tags c)))" by (rule trans)
  have count: "ca_track_count x = card {cs_record c | c. c \<in> set cs \<and> ca_name x \<in> set (catalog_artists (cs_tags c))}"
    if "x \<in> set artists" for x
  proof -
    obtain nm rs where x: "(nm, rs) \<in> set ?g" "x = ?f (nm, rs)" using \<open>x \<in> set artists\<close> by (auto simp: a)
    have "set rs = {cs_record c | c. c \<in> set cs \<and> nm \<in> set (catalog_artists (cs_tags c))}"
      unfolding group_by_facts(3) [OF x(1)] pairs by auto
    then show ?thesis using distinct_card [OF group_by_facts(1) [OF x(1)]] x(2) by simp
  qed
  show ?thesis using d srt names count by blast
qed

text \<open>A track list has one track for each record with a matching source, in the order of the sources. The
  track shows the effective source of the record when that is listed, else the source of the current
  publication when that is listed, else the listed source with the least identifier.\<close>

lemma album_tracks_per_record:
  assumes "library_album_tracks sel published db = Inr ts" and "catalog_source_tags db published = Inr cs"
  shows "map ct_record ts = matching_records sel cs
    \<and> (\<forall>t \<in> set ts. \<exists>c \<in> set cs. t = track_of (sel_artist_name sel) c \<and> preferred db (ct_record t) cs c)"
proof -
  let ?s = "\<lambda>r. shown_source db r (filter (\<lambda>c. cs_record c = r) cs)"
  let ?f = "\<lambda>r. map_option (track_of (sel_artist_name sel)) (?s r)"
  have rec: "ct_record (track_of a c) = cs_record c" for a c by (simp add: track_of_def Let_def)
  have sub: "set (matching_records sel cs) \<subseteq> cs_record ` set cs" by (auto simp: matching_records_def)
  have ts: "ts = List.map_filter ?f (matching_records sel cs)" using assms by (simp add: library_album_tracks_def)
  have "map ct_record (List.map_filter ?f rs) = rs
      \<and> (\<forall>t \<in> set (List.map_filter ?f rs). \<exists>c \<in> set cs. t = track_of (sel_artist_name sel) c \<and> preferred db (ct_record t) cs c)"
    if "set rs \<subseteq> cs_record ` set cs" for rs
    using that
  proof (induction rs)
    case (Cons r rs)
    then obtain c where c: "?s r = Some c" "c \<in> set cs" "cs_record c = r" "preferred db r cs c"
      using shown_preferred [of r cs db] by auto
    then show ?case using Cons by (auto simp: List.map_filter_simps rec)
  qed (simp add: List.map_filter_simps)
  from this [OF sub] show ?thesis unfolding ts .
qed

text \<open>C21. What the worker records is what the catalog shows: after the metadata layers of a source have been
  recorded, the tags shown for it are the final ones, whatever had been recorded before.\<close>

theorem recorded_final_shown:
  assumes "revisions_numbered db" and "distinct (map fst final)"
    and "record_metadata_layers r src original analyzed final now db = Inr (vs, db')"
    and "catalog_source_tags db' published = Inr cs" and "c \<in> set cs" and "cs_record c = r" and "cs_source c = src"
  shows "cs_tags c = sort_key fst final"
proof -
  define db1 where "db1 = add_revision (new_revision r src ''original'' original ''worker'' now db) db"
  define db2 where "db2 = add_revision (new_revision r src ''analyzed'' analyzed ''worker'' now db1) db1"
  define v where "v = new_revision r src ''final'' final ''worker'' now db2"
  have db': "l_revisions db' = l_revisions (add_revision v db2)"
    using assms(3) by (auto simp: record_metadata_layers_def Let_def db1_def db2_def v_def split: if_split_asm)
  have num: "revisions_numbered db2" by (simp add: db2_def db1_def numbered_add assms(1))
  have vf: "rv_record v = r" "rv_layer v = ''final''" "rv_source v = Some src" "rv_tags_json v = tags_json final"
    by (simp_all add: v_def new_revision_def)
  have "layer_revisions r ''final'' db' = layer_revisions r ''final'' (add_revision v db2)"
    by (simp add: layer_revisions_def db')
  then have fin: "layer_revisions r ''final'' db' = layer_revisions r ''final'' db2 @ [v]" by (simp add: layer_add vf)
  have last: "rv_revision w < rv_revision v" if "w \<in> set (layer_revisions r ''final'' db2)" for w
  proof -
    have m: "map rv_revision (layer_revisions r ''final'' db2) = [1..int (length (layer_revisions r ''final'' db2))]"
      using num unfolding revisions_numbered_def by blast
    have "rv_revision w \<in> set (map rv_revision (layer_revisions r ''final'' db2))" using that by simp
    then have "rv_revision w \<le> int (length (layer_revisions r ''final'' db2))" unfolding m by simp
    moreover have "rv_revision v = int (length (layer_revisions r ''final'' db2)) + 1"
      using next_revision_numbered [OF num] by (simp add: v_def)
    ultimately show ?thesis by simp
  qed
  obtain d y x where x: "x \<in> set (l_sources db')" "listed_record db' published x = Some y" "c = catalog_row db' d y x"
    using catalog_source_cases [OF assms(4,5)] by metis
  have ids: "lb_id y = r" "ls_id x = src" using assms(6,7) by (simp_all add: x(3) catalog_row_def)
  have lst: "ls_record x = Some r" "find_row lb_id r (l_records db') = Some y" "listed db' published y"
    using x(2) find_row_Some ids(1) by (fastforce simp: listed_record_def split: option.splits if_split_asm)+
  let ?rows = "filter (\<lambda>w. joined db' published w \<and> row_key w = (r, Some src) \<and> rv_layer w = ''final'') (l_revisions db')"
  have "joined db' published v" using lst x(1) ids vf by (auto simp: joined_def list_ex_iff)
  then have mem: "v \<in> set ?rows" using vf by (simp add: db' add_revision_def row_key_def)
  then have "?rows \<noteq> []" by (metis empty_iff list.set(1))
  then have "newest db' published (r, Some src) ''final'' \<noteq> None" unfolding newest_def first_min_None .
  then obtain w where w: "newest db' published (r, Some src) ''final'' = Some w" by blast
  have fm: "first_min (\<lambda>v. (- rv_revision v, - rv_id v)) ?rows = Some w" using w unfolding newest_def .
  have "w \<in> set ?rows" "(- rv_revision w, - rv_id w) \<le> (- rv_revision v, - rv_id v)"
    using first_min_in [OF fm] first_min_le [OF fm mem] by blast+
  then have "w \<in> set (layer_revisions r ''final'' db')" "rv_revision v \<le> rv_revision w"
    by (auto simp: layer_revisions_def row_key_def less_eq_prod_def)
  then have "w = v" using last [of w] by (auto simp: fin)
  then have "decode_tags (rv_tags_json v) = Inr (cs_tags c)"
    using latest_tags_facts [OF assms(4,5)] w by (simp add: assms(6,7))
  then show ?thesis using decode_tags_json [OF assms(2)] by (simp add: vf)
qed

text \<open>The sample database with its layers recorded, and what the catalog makes of it.\<close>

definition sample_final :: "(string \<times> string) list" where
  "sample_final = [(''TITLE'', ''T''), (''ARTIST'', ''B;A;B'')]"

definition recorded_ldb :: ldb where
  "recorded_ldb = (case record_metadata_layers ''record-1'' ''s'' [(''TITLE'', ''t'')] [] sample_final 7 sample_ldb of
     Inr (_, db) \<Rightarrow> db | Inl _ \<Rightarrow> sample_ldb)"

lemma sample_recorded: "\<exists>vs. record_metadata_layers ''record-1'' ''s'' [(''TITLE'', ''t'')] [] sample_final 7 sample_ldb = Inr (vs, recorded_ldb)"
  by (simp add: recorded_ldb_def record_metadata_layers_def sample_ldb_def fresh_record_def Let_def)

lemma recorded_revisions:
  "l_revisions recorded_ldb =
    [\<lparr>rv_id = 1, rv_record = ''record-1'', rv_source = Some ''s'', rv_layer = ''original'', rv_revision = 1,
       rv_tags_json = tags_json [(''TITLE'', ''t'')], rv_actor = ''worker'', rv_created = 7\<rparr>,
     \<lparr>rv_id = 2, rv_record = ''record-1'', rv_source = Some ''s'', rv_layer = ''analyzed'', rv_revision = 1,
       rv_tags_json = tags_json [], rv_actor = ''worker'', rv_created = 7\<rparr>,
     \<lparr>rv_id = 3, rv_record = ''record-1'', rv_source = Some ''s'', rv_layer = ''final'', rv_revision = 1,
       rv_tags_json = tags_json sample_final, rv_actor = ''worker'', rv_created = 7\<rparr>]"
  by (simp add: recorded_ldb_def record_metadata_layers_def sample_ldb_def fresh_record_def Let_def new_revision_def next_revision_def
      layer_revisions_def add_revision_def max_default_def)

lemma recorded_tables:
  "l_sources recorded_ldb = l_sources sample_ldb" "l_consolidations recorded_ldb = []" "l_decisions recorded_ldb = []"
  "l_pubs recorded_ldb = []" "\<exists>r. l_records recorded_ldb = [r] \<and> lb_id r = ''record-1'' \<and> lb_publication r = ''absent''"
  by (simp_all add: recorded_ldb_def record_metadata_layers_def sample_ldb_def fresh_record_def Let_def add_revision_def set_record_def
      update_row_def)

lemma sample_catalog:
  "\<exists>c. catalog_source_tags recorded_ldb None = Inr [c] \<and> cs_record c = ''record-1'' \<and> cs_source c = ''s''"
proof -
  obtain r where r: "l_records recorded_ldb = [r]" "lb_id r = ''record-1''" using recorded_tables(5) by blast
  have lst: "listed recorded_ldb None r" by (simp add: listed_def retired_def recorded_tables published_filter_def)
  have "decode_tags (tags_json [(''TITLE'', ''t'')]) = Inr (sort_key fst [(''TITLE'', ''t'')])"
    "decode_tags (tags_json sample_final) = Inr (sort_key fst sample_final)"
    by (rule decode_tags_json; simp add: sample_final_def)+
  then obtain d where d: "tags_by_source (revision_rows recorded_ldb None) Map.empty = Inr d"
    by (auto simp: revision_rows_def joined_def recorded_revisions recorded_tables find_row_def r lst sample_ldb_def fresh_record_def row_key_def)
  show ?thesis
    by (simp add: catalog_source_tags_def d recorded_tables sample_ldb_def fresh_record_def listed_record_def find_row_def r lst
        List.map_filter_simps catalog_row_def)
qed

theorem recorded_final_shown_witness:
  "\<exists>c. catalog_source_tags recorded_ldb None = Inr [c] \<and> cs_tags c = sort_key fst sample_final"
proof -
  obtain c where c: "catalog_source_tags recorded_ldb None = Inr [c]" "cs_record c = ''record-1''" "cs_source c = ''s''"
    using sample_catalog by blast
  obtain vs where vs: "record_metadata_layers ''record-1'' ''s'' [(''TITLE'', ''t'')] [] sample_final 7 sample_ldb = Inr (vs, recorded_ldb)"
    using sample_recorded by blast
  have n: "revisions_numbered sample_ldb" "distinct (map fst sample_final)" "c \<in> set [c]"
    by (simp_all add: revisions_numbered_def layer_revisions_def sample_ldb_def fresh_record_def sample_final_def)
  from recorded_final_shown [OF n(1,2) vs c(1) n(3) c(2,3)] show ?thesis using c(1) by blast
qed

end
