(* ===== verification/Scoring.thy ===== *)
theory Scoring imports Complex_Main Prelude begin

text \<open>
  \<^bold>\<open>Matching score\<close> (\<open>services/matching/scoring.py\<close>, the candidate data of
  \<open>services/matching/providers.py\<close>): how similar a MusicBrainz candidate is to the tags of a
  source. A score is a weighted average of the factors both sides have a value for; the
  reported components are the parts of that average.

  The program's floats are real numbers here, so the arithmetic is exact and the bounds leave
  out rounding. The text tools of the third-party packages (\<open>unidecode\<close>, rapidfuzz's
  \<open>default_process\<close> and \<open>fuzz.token_set_ratio\<close>) are the argument \<open>T\<close>; the only fact used
  of them is that a ratio is a percentage.
\<close>

section \<open>Text similarity\<close>

record text_tools =
  unidecode :: "string \<Rightarrow> string"
  default_process :: "string \<Rightarrow> string"
  token_set_ratio :: "string \<Rightarrow> string \<Rightarrow> real"

definition percentages :: "text_tools \<Rightarrow> bool" where
  "percentages T \<longleftrightarrow> (\<forall>a b. 0 \<le> token_set_ratio T a b \<and> token_set_ratio T a b \<le> 100)"

text \<open>\<open>s.split()\<close>: the maximal runs of characters that are not white space.\<close>

fun split_words :: "string \<Rightarrow> string \<Rightarrow> string list" where
  "split_words w [] = (if w = [] then [] else [rev w])"
| "split_words w (c # s) =
     (if is_space c then (if w = [] then split_words [] s else rev w # split_words [] s)
      else split_words (c # w) s)"

definition str_split :: "string \<Rightarrow> string list" where
  "str_split s = split_words [] s"

definition len_ratio :: "'a list \<Rightarrow> 'b list \<Rightarrow> real" where
  "len_ratio xs ys = real (min (length xs) (length ys)) / real (max (length xs) (length ys))"

definition soft_token_ratio :: "text_tools \<Rightarrow> string \<Rightarrow> string \<Rightarrow> real" where
  "soft_token_ratio T left right =
     (let left_tokens = str_split (default_process T left);
          right_tokens = str_split (default_process T right) in
      if left_tokens = [] \<or> right_tokens = [] then 0 else
      let normalized_left = str_join '' '' left_tokens;
          normalized_right = str_join '' '' right_tokens;
          token_coverage = len_ratio left_tokens right_tokens;
          character_coverage = len_ratio normalized_left normalized_right;
          coverage_penalty = 0.6 + 0.4 * ((token_coverage + character_coverage) / 2) in
      token_set_ratio T normalized_left normalized_right / 100 * coverage_penalty)"

definition text_similarity :: "text_tools \<Rightarrow> string \<Rightarrow> string \<Rightarrow> real" where
  "text_similarity T left right =
     (if left = [] \<or> right = [] then 0
      else max (soft_token_ratio T left right)
               (soft_token_ratio T (unidecode T left) (unidecode T right)))"

lemma len_ratio_bounds: "0 \<le> len_ratio xs ys" "len_ratio xs ys \<le> 1"
  by (auto simp: len_ratio_def divide_le_eq le_max_iff_disj)

lemma soft_token_ratio_bounds:
  assumes "percentages T"
  shows "0 \<le> soft_token_ratio T l r \<and> soft_token_ratio T l r \<le> 1"
proof -
  have b: "0 \<le> t / 100 * (0.6 + 0.4 * ((a + b) / 2)) \<and> t / 100 * (0.6 + 0.4 * ((a + b) / 2)) \<le> 1"
    if "0 \<le> t" "t \<le> 100" "0 \<le> a" "a \<le> 1" "0 \<le> b" "b \<le> 1" for t a b :: real
  proof -
    have "0.6 + 0.4 * ((a + b) / 2) \<le> 1" "0 \<le> 0.6 + 0.4 * ((a + b) / 2)" using that by (simp_all add: field_simps)
    then show ?thesis using that mult_le_one [of "t / 100" "0.6 + 0.4 * ((a + b) / 2)"] by simp
  qed
  show ?thesis using b assms
    by (simp add: soft_token_ratio_def Let_def percentages_def len_ratio_bounds del: times_divide_eq_left)
qed

lemma text_similarity_bounds:
  "percentages T \<Longrightarrow> 0 \<le> text_similarity T l r \<and> text_similarity T l r \<le> 1"
  using soft_token_ratio_bounds [of T] by (auto simp: text_similarity_def le_max_iff_disj)

section \<open>Factors and weights\<close>

datatype score_weight = ARTIST_SIMILARITY | RELEASE_TITLE_SIMILARITY | RECORDING_TITLE_SIMILARITY
  | DURATION_SIMILARITY | MUSICBRAINZ_SEARCH | ACOUSTID_FINGERPRINT | W_TRACK_NUMBER | W_DISC_NUMBER
  | W_TRACK_TOTAL | W_DISC_TOTAL

fun weight_value :: "score_weight \<Rightarrow> nat" where
  "weight_value ARTIST_SIMILARITY = 4"
| "weight_value RELEASE_TITLE_SIMILARITY = 4"
| "weight_value RECORDING_TITLE_SIMILARITY = 4"
| "weight_value DURATION_SIMILARITY = 2"
| "weight_value MUSICBRAINZ_SEARCH = 2"
| "weight_value ACOUSTID_FINGERPRINT = 4"
| "weight_value W_TRACK_NUMBER = 2"
| "weight_value W_DISC_NUMBER = 1"
| "weight_value W_TRACK_TOTAL = 1"
| "weight_value W_DISC_TOTAL = 1"

datatype score_component = ARTIST | RECORDING_ARTIST | RELEASE_ARTIST | RELEASE | DURATION | TITLE | TRACK
  | MUSICBRAINZ | ACOUSTID | TRACK_NUMBER | TRACK_TOTAL | DISC_NUMBER | DISC_TOTAL

record score_factor =
  sf_component :: score_component
  sf_value :: real
  sf_weight :: score_weight
  sf_available :: bool

definition score_factor_of :: "score_component \<Rightarrow> real \<Rightarrow> score_weight \<Rightarrow> bool \<Rightarrow> score_factor" where
  "score_factor_of c v w a = \<lparr>sf_component = c, sf_value = v, sf_weight = w, sf_available = a\<rparr>"

definition position_components :: "score_component list" where
  "position_components = [TRACK_NUMBER, TRACK_TOTAL, DISC_NUMBER, DISC_TOTAL]"

definition components_for :: "score_component \<Rightarrow> score_component list" where
  "components_for c = (if c = TRACK then position_components
     else if c = ARTIST then [RECORDING_ARTIST, RELEASE_ARTIST] else [c])"

abbreviation fw :: "score_factor \<Rightarrow> nat" where
  "fw f \<equiv> weight_value (sf_weight f)"

definition total_weight :: "score_factor list \<Rightarrow> nat" where
  "total_weight fs = sum_list (map fw fs)"

definition weighted_sum :: "score_factor list \<Rightarrow> real" where
  "weighted_sum fs = sum_list (map (\<lambda>f. sf_value f * real (fw f)) fs)"

definition weighted_average :: "score_factor list \<Rightarrow> real option" where
  "weighted_average fs =
     (if total_weight fs \<noteq> 0 then Some (weighted_sum fs / real (total_weight fs)) else None)"

definition available :: "score_factor list \<Rightarrow> score_factor list" where
  "available fs = filter sf_available fs"

definition weighted_score :: "score_factor list \<Rightarrow> real \<times> nat" where
  "weighted_score fs =
     ((case weighted_average (available fs) of Some a \<Rightarrow> max 0 a | None \<Rightarrow> 0), total_weight (available fs))"

definition matching_factors :: "score_factor list \<Rightarrow> score_component \<Rightarrow> score_factor list" where
  "matching_factors fs c = filter (\<lambda>f. sf_available f \<and> sf_component f \<in> set (components_for c)) fs"

definition component_score :: "score_factor list \<Rightarrow> score_component \<Rightarrow> nat \<Rightarrow> real" where
  "component_score fs c weight =
     (if weight = 0 then 0 else weighted_sum (matching_factors fs c) / real weight)"

definition component_match :: "score_factor list \<Rightarrow> score_component \<Rightarrow> real option" where
  "component_match fs c = weighted_average (matching_factors fs c)"

section \<open>Requests, candidates and scores\<close>

record explicit_ids =
  ei_release :: "string option"
  ei_recording :: "string option"
  ei_track :: "string option"

record matching_request =
  mr_artist :: string
  mr_release_title :: string
  mr_duration :: "int option"
  mr_explicit :: explicit_ids
  mr_recording_title :: string
  mr_track_number :: "int option"
  mr_track_total :: "int option"
  mr_disc_number :: "int option"
  mr_disc_total :: "int option"
  mr_source_path :: string
  mr_album_artist :: string

text \<open>\<open>ReleaseCandidate\<close>: the facts of one release for one recording, and the projections of a
  release that several recordings matched.\<close>

record candidate_facts =
  c_release_mbid :: string
  c_release_title :: string
  c_artist_name :: string
  c_duration :: "int option"
  c_recording_mbids :: "string list"
  c_track_mbids :: "string list"
  c_recording_title :: "string option"
  c_date :: "string option"
  c_original_date :: "string option"
  c_country :: "string option"
  c_track_number :: "int option"
  c_track_total :: "int option"
  c_disc_number :: "int option"
  c_disc_total :: "int option"
  c_genres :: "string list"
  c_release_group :: "string option"
  c_isrcs :: "string list"
  c_performers :: "string list"
  c_release_artist :: "string option"
  c_recording_artists :: "string list"
  c_release_artists :: "string list"
  c_recording_artist_mbids :: "string list"
  c_release_artist_mbids :: "string list"
  c_catalog_numbers :: "string list"
  c_disambiguation :: "string option"
  c_musicbrainz_score :: "real option"

datatype release_candidate =
  ReleaseCandidate (facts: candidate_facts) (recording_candidates: "release_candidate list")

record candidate_score =
  cs_candidate_mbid :: "string option"
  cs_score :: real
  cs_artist :: real
  cs_release :: real
  cs_duration :: real
  cs_title :: real
  cs_track :: real
  cs_weight :: nat
  cs_track_number :: "real option"
  cs_track_total :: "real option"
  cs_disc_number :: "real option"
  cs_disc_total :: "real option"
  cs_musicbrainz :: "real option"
  cs_acoustid :: "real option"
  cs_artist_match :: "real option"
  cs_release_match :: "real option"
  cs_duration_match :: "real option"
  cs_title_match :: "real option"
  cs_track_number_match :: "real option"
  cs_track_total_match :: "real option"
  cs_disc_number_match :: "real option"
  cs_disc_total_match :: "real option"
  cs_musicbrainz_match :: "real option"
  cs_acoustid_match :: "real option"
  cs_recording_artist :: "real option"
  cs_release_artist :: "real option"
  cs_recording_artist_match :: "real option"
  cs_release_artist_match :: "real option"

text \<open>\<open>CandidateScore(mbid, score)\<close>: every other field at its default.\<close>

definition plain_score :: "string option \<Rightarrow> real \<Rightarrow> candidate_score" where
  "plain_score mbid s = \<lparr>cs_candidate_mbid = mbid, cs_score = s, cs_artist = 0, cs_release = 0,
     cs_duration = 0, cs_title = 0, cs_track = 0, cs_weight = 0,
     cs_track_number = None, cs_track_total = None, cs_disc_number = None, cs_disc_total = None,
     cs_musicbrainz = None, cs_acoustid = None, cs_artist_match = None, cs_release_match = None,
     cs_duration_match = None, cs_title_match = None, cs_track_number_match = None,
     cs_track_total_match = None, cs_disc_number_match = None, cs_disc_total_match = None,
     cs_musicbrainz_match = None, cs_acoustid_match = None, cs_recording_artist = None,
     cs_release_artist = None, cs_recording_artist_match = None, cs_release_artist_match = None\<rparr>"

definition score_factors :: "string option \<Rightarrow> score_factor list \<Rightarrow> candidate_score" where
  "score_factors mbid fs = (case weighted_score fs of (score, weight) \<Rightarrow>
     \<lparr>cs_candidate_mbid = mbid, cs_score = score,
      cs_artist = component_score fs ARTIST weight, cs_release = component_score fs RELEASE weight,
      cs_duration = component_score fs DURATION weight, cs_title = component_score fs TITLE weight,
      cs_track = component_score fs TRACK weight, cs_weight = weight,
      cs_track_number = Some (component_score fs TRACK_NUMBER weight),
      cs_track_total = Some (component_score fs TRACK_TOTAL weight),
      cs_disc_number = Some (component_score fs DISC_NUMBER weight),
      cs_disc_total = Some (component_score fs DISC_TOTAL weight),
      cs_musicbrainz = Some (component_score fs MUSICBRAINZ weight),
      cs_acoustid = Some (component_score fs ACOUSTID weight),
      cs_artist_match = component_match fs ARTIST, cs_release_match = component_match fs RELEASE,
      cs_duration_match = component_match fs DURATION, cs_title_match = component_match fs TITLE,
      cs_track_number_match = component_match fs TRACK_NUMBER,
      cs_track_total_match = component_match fs TRACK_TOTAL,
      cs_disc_number_match = component_match fs DISC_NUMBER,
      cs_disc_total_match = component_match fs DISC_TOTAL,
      cs_musicbrainz_match = component_match fs MUSICBRAINZ,
      cs_acoustid_match = component_match fs ACOUSTID,
      cs_recording_artist = Some (component_score fs RECORDING_ARTIST weight),
      cs_release_artist = Some (component_score fs RELEASE_ARTIST weight),
      cs_recording_artist_match = component_match fs RECORDING_ARTIST,
      cs_release_artist_match = component_match fs RELEASE_ARTIST\<rparr>)"

section \<open>Scoring one candidate\<close>

text \<open>\<open>x or default\<close> on strings.\<close>

definition str_or :: "string option \<Rightarrow> string \<Rightarrow> string" where
  "str_or x d = (if str_truthy x then the x else d)"

definition release_display_title :: "candidate_facts \<Rightarrow> string" where
  "release_display_title c =
     (let disambiguation = str_strip (str_or (c_disambiguation c) []) in
      if disambiguation \<noteq> [] then c_release_title c @ '' ('' @ disambiguation @ '')'' else c_release_title c)"

definition release_artist_name :: "candidate_facts \<Rightarrow> string" where
  "release_artist_name c = str_or (c_release_artist c) (c_artist_name c)"

definition recording_artist_name :: "candidate_facts \<Rightarrow> string" where
  "recording_artist_name c =
     (let joined = str_join ''; '' (c_recording_artists c) in
      if joined \<noteq> [] then joined else release_artist_name c)"

definition album_artist_name :: "matching_request \<Rightarrow> string" where
  "album_artist_name q = (if mr_album_artist q \<noteq> [] then mr_album_artist q else mr_artist q)"

definition duration_score :: "int option \<Rightarrow> int option \<Rightarrow> real" where
  "duration_score expected actual = (case (expected, actual) of
     (Some e, Some a) \<Rightarrow>
       (if e \<le> 0 \<or> a \<le> 0 then 0 else
        let difference = \<bar>e - a\<bar>;
            local_similarity = (max 0 (1 - real_of_int difference / 20)) powr 2.2;
            duration_ratio = real_of_int (max e a) / real_of_int (min e a) in
        local_similarity - log 2 duration_ratio)
   | _ \<Rightarrow> 0)"

definition provider_factors :: "candidate_facts \<Rightarrow> score_factor list" where
  "provider_factors c = (case c_musicbrainz_score c of None \<Rightarrow> []
     | Some s \<Rightarrow> [score_factor_of MUSICBRAINZ (s / 100) MUSICBRAINZ_SEARCH True])"

definition duration_factor :: "int option \<Rightarrow> candidate_facts \<Rightarrow> score_factor" where
  "duration_factor d c = score_factor_of DURATION (duration_score d (c_duration c)) DURATION_SIMILARITY
     (d \<noteq> None \<and> c_duration c \<noteq> None)"

definition text_factor ::
  "text_tools \<Rightarrow> score_component \<Rightarrow> score_weight \<Rightarrow> string \<Rightarrow> string \<Rightarrow> score_factor" where
  "text_factor T cmp w expected actual = score_factor_of cmp (text_similarity T expected actual) w
     (str_strip expected \<noteq> [] \<and> str_strip actual \<noteq> [])"

definition recording_factors ::
  "text_tools \<Rightarrow> matching_request \<Rightarrow> candidate_facts \<Rightarrow> real option \<Rightarrow> score_factor list" where
  "recording_factors T q c acoustid =
     [text_factor T TITLE RECORDING_TITLE_SIMILARITY (mr_recording_title q) (str_or (c_recording_title c) []),
      text_factor T RECORDING_ARTIST ARTIST_SIMILARITY (mr_artist q) (recording_artist_name c),
      duration_factor (mr_duration q) c]
     @ provider_factors c
     @ (case acoustid of None \<Rightarrow> [] | Some s \<Rightarrow> [score_factor_of ACOUSTID s ACOUSTID_FINGERPRINT True])"

definition release_factors ::
  "text_tools \<Rightarrow> string \<Rightarrow> string \<Rightarrow> int option \<Rightarrow> candidate_facts \<Rightarrow> score_factor list" where
  "release_factors T artist title d c =
     [text_factor T RELEASE_ARTIST ARTIST_SIMILARITY artist (release_artist_name c),
      text_factor T RELEASE RELEASE_TITLE_SIMILARITY title (release_display_title c),
      duration_factor d c]
     @ provider_factors c"

definition position_factor :: "int option \<Rightarrow> int option \<Rightarrow> score_weight \<Rightarrow> score_component \<Rightarrow> score_factor" where
  "position_factor expected actual w cmp =
     (let comparable = (case (expected, actual) of (Some e, Some a) \<Rightarrow> e > 0 \<and> a > 0 | _ \<Rightarrow> False) in
      score_factor_of cmp (if comparable \<and> expected = actual then 1 else 0) w comparable)"

definition position_factors :: "matching_request \<Rightarrow> candidate_facts \<Rightarrow> score_factor list" where
  "position_factors q c =
     [position_factor (mr_track_number q) (c_track_number c) W_TRACK_NUMBER TRACK_NUMBER,
      position_factor (mr_disc_number q) (c_disc_number c) W_DISC_NUMBER DISC_NUMBER,
      position_factor (mr_track_total q) (c_track_total c) W_TRACK_TOTAL TRACK_TOTAL,
      position_factor (mr_disc_total q) (c_disc_total c) W_DISC_TOTAL DISC_TOTAL]"

text \<open>\<open>None == str\<close> and \<open>None in tuple[str]\<close> are false.\<close>

definition candidate_matches_explicit_ids :: "explicit_ids \<Rightarrow> candidate_facts \<Rightarrow> bool" where
  "candidate_matches_explicit_ids ids c \<longleftrightarrow>
     ei_release ids = Some (c_release_mbid c)
     \<or> (case ei_recording ids of Some m \<Rightarrow> m \<in> set (c_recording_mbids c) | None \<Rightarrow> False)
     \<or> (case ei_track ids of Some m \<Rightarrow> m \<in> set (c_track_mbids c) | None \<Rightarrow> False)"

definition score_recording_candidate ::
  "text_tools \<Rightarrow> matching_request \<Rightarrow> candidate_facts \<Rightarrow> real option \<Rightarrow> candidate_score" where
  "score_recording_candidate T q c acoustid =
     (case c_recording_mbids c of [] \<Rightarrow> plain_score None 0
      | m # _ \<Rightarrow> score_factors (Some m) (recording_factors T q c acoustid))"

definition score_recording_release_candidate ::
  "text_tools \<Rightarrow> matching_request \<Rightarrow> candidate_facts \<Rightarrow> real option \<Rightarrow> candidate_score" where
  "score_recording_release_candidate T q c acoustid =
     (case c_recording_mbids c of [] \<Rightarrow> plain_score None 0
      | m # _ \<Rightarrow>
        if candidate_matches_explicit_ids (mr_explicit q) c then plain_score (Some m) 1
        else score_factors (Some m) (recording_factors T q c acoustid
          @ release_factors T (album_artist_name q) (mr_release_title q) (mr_duration q) c
          @ position_factors q c))"

definition score_release_candidate :: "text_tools \<Rightarrow> matching_request \<Rightarrow> candidate_facts \<Rightarrow> candidate_score" where
  "score_release_candidate T q c =
     (if candidate_matches_explicit_ids (mr_explicit q) c then plain_score (Some (c_release_mbid c)) 1
      else score_factors (Some (c_release_mbid c))
        (release_factors T (album_artist_name q) (mr_release_title q) (mr_duration q) c @ position_factors q c))"

section \<open>The release shared by a folder\<close>

definition candidates_above :: "real \<Rightarrow> candidate_score list \<Rightarrow> candidate_score list" where
  "candidates_above threshold g = filter (\<lambda>s. cs_candidate_mbid s \<noteq> None \<and> cs_score s \<ge> threshold) g"

definition group_mbids :: "candidate_score list \<Rightarrow> string list" where
  "group_mbids g = map (\<lambda>s. the (cs_candidate_mbid s)) (filter (\<lambda>s. cs_candidate_mbid s \<noteq> None) g)"

definition mbid_total :: "candidate_score list list \<Rightarrow> string \<Rightarrow> real" where
  "mbid_total gs m = sum_list (map cs_score (filter (\<lambda>s. cs_candidate_mbid s = Some m) (concat gs)))"

definition select_folder_release :: "candidate_score list list \<Rightarrow> real \<Rightarrow> string option" where
  "select_folder_release scores threshold =
     (let gs = map (candidates_above threshold) scores in
      if gs = [] \<or> (\<exists>g\<in>set gs. g = []) then None else
      let shared = filter (\<lambda>m. \<forall>g\<in>set (tl gs). m \<in> set (group_mbids g)) (dedup (group_mbids (hd gs))) in
      if shared = [] then None else first_min (\<lambda>m. (- mbid_total gs m, m)) shared)"

section \<open>Bounds of the score\<close>

definition factor_ok :: "score_factor \<Rightarrow> bool" where
  "factor_ok f \<longleftrightarrow> sf_value f \<le> 1 \<and> (sf_component f \<noteq> DURATION \<longrightarrow> 0 \<le> sf_value f)"

lemma factor_ok_of [simp]: "factor_ok (score_factor_of c v w a) \<longleftrightarrow> v \<le> 1 \<and> (c \<noteq> DURATION \<longrightarrow> 0 \<le> v)"
  by (simp add: factor_ok_def score_factor_of_def)

lemma weight_pos [simp]: "0 < weight_value w"
  by (cases w) simp_all

lemma weighted_sum_le: "\<forall>f\<in>set fs. factor_ok f \<Longrightarrow> weighted_sum fs \<le> real (total_weight fs)"
proof (induction fs)
  case (Cons f fs)
  have "sf_value f * real (fw f) \<le> real (fw f)" using Cons.prems by (simp add: factor_ok_def)
  moreover have "weighted_sum fs \<le> real (total_weight fs)" using Cons by simp
  ultimately show ?case
    by (simp add: weighted_sum_def total_weight_def add_mono del: mult_le_cancel_right2)
qed (simp add: weighted_sum_def)

lemma weighted_score_bounds:
  assumes "\<forall>f\<in>set fs. factor_ok f"
  shows "0 \<le> fst (weighted_score fs) \<and> fst (weighted_score fs) \<le> 1"
proof -
  have "weighted_sum (available fs) \<le> real (total_weight (available fs))"
    by (rule weighted_sum_le) (use assms in \<open>simp add: available_def\<close>)
  then show ?thesis by (auto simp: weighted_score_def weighted_average_def divide_le_eq)
qed

lemma duration_score_le: "duration_score e a \<le> 1"
proof (cases "\<exists>x y. e = Some x \<and> a = Some y \<and> 0 < x \<and> 0 < y")
  case True
  then obtain x y where v: "e = Some x" "a = Some y" "0 < x" "0 < y" by blast
  have "max 0 (1 - real_of_int \<bar>x - y\<bar> / 20) \<le> 1" by simp
  then have p: "max 0 (1 - real_of_int \<bar>x - y\<bar> / 20) powr 2.2 \<le> 1 powr 2.2" by (intro powr_mono2) simp_all
  have "1 \<le> real_of_int (max x y) / real_of_int (min x y)" using v by (simp add: le_divide_eq)
  then have "0 \<le> log 2 (real_of_int (max x y) / real_of_int (min x y))" by (simp add: zero_le_log_cancel_iff)
  moreover have "duration_score e a = max 0 (1 - real_of_int \<bar>x - y\<bar> / 20) powr 2.2
      - log 2 (real_of_int (max x y) / real_of_int (min x y))"
    using v by (simp add: duration_score_def Let_def)
  ultimately show ?thesis using p by simp
next
  case False
  then show ?thesis by (auto simp: duration_score_def Let_def not_less split: option.split)
qed

definition provider_ok :: "candidate_facts \<Rightarrow> bool" where
  "provider_ok c \<longleftrightarrow> (\<forall>s. c_musicbrainz_score c = Some s \<longrightarrow> 0 \<le> s \<and> s \<le> 100)"

lemma text_factor_ok: "percentages T \<Longrightarrow> factor_ok (text_factor T cmp w e a)"
  using text_similarity_bounds [of T e a] by (simp add: text_factor_def)

lemma duration_factor_ok: "factor_ok (duration_factor d c)"
  by (simp add: duration_factor_def duration_score_le)

lemma provider_factors_ok: "provider_ok c \<Longrightarrow> f \<in> set (provider_factors c) \<Longrightarrow> factor_ok f"
  by (auto simp: provider_factors_def provider_ok_def split: option.splits)

lemma position_factor_ok: "factor_ok (position_factor e a w cmp)"
  by (simp add: position_factor_def Let_def)

lemma recording_factors_ok:
  assumes "percentages T" "provider_ok c" "\<forall>s. acoustid = Some s \<longrightarrow> 0 \<le> s \<and> s \<le> 1"
  shows "\<forall>f\<in>set (recording_factors T q c acoustid). factor_ok f"
  using assms by (auto simp: recording_factors_def text_factor_ok duration_factor_ok
      dest: provider_factors_ok split: option.splits)

lemma release_factors_ok:
  assumes "percentages T" "provider_ok c"
  shows "\<forall>f\<in>set (release_factors T artist title d c). factor_ok f"
  using assms by (auto simp: release_factors_def text_factor_ok duration_factor_ok dest: provider_factors_ok)

lemma position_factors_ok: "\<forall>f\<in>set (position_factors q c). factor_ok f"
  by (simp add: position_factors_def position_factor_ok)

lemma score_factors_bounds:
  "\<forall>f\<in>set fs. factor_ok f \<Longrightarrow> 0 \<le> cs_score (score_factors m fs) \<and> cs_score (score_factors m fs) \<le> 1"
  using weighted_score_bounds [of fs] by (cases "weighted_score fs") (simp add: score_factors_def)

lemma plain_score_simps [simp]:
  "cs_score (plain_score m s) = s" "cs_candidate_mbid (plain_score m s) = m"
  by (simp_all add: plain_score_def)

text \<open>C26. Whatever the tags and the candidate, each of the three scores lies between 0 and 1, as
  long as the text comparison yields percentages and the provider scores lie in their documented
  ranges; a negative duration factor cannot push a score below 0.\<close>

theorem scores_bounded:
  assumes "percentages T" and "provider_ok c" and "\<forall>s. acoustid = Some s \<longrightarrow> 0 \<le> s \<and> s \<le> 1"
  shows "0 \<le> cs_score (score_recording_candidate T q c acoustid)
    \<and> cs_score (score_recording_candidate T q c acoustid) \<le> 1
    \<and> 0 \<le> cs_score (score_recording_release_candidate T q c acoustid)
    \<and> cs_score (score_recording_release_candidate T q c acoustid) \<le> 1
    \<and> 0 \<le> cs_score (score_release_candidate T q c) \<and> cs_score (score_release_candidate T q c) \<le> 1"
proof -
  note ok = recording_factors_ok [OF assms] release_factors_ok [OF assms(1,2)] position_factors_ok
  have "0 \<le> cs_score (score_recording_candidate T q c acoustid)
    \<and> cs_score (score_recording_candidate T q c acoustid) \<le> 1"
    by (cases "c_recording_mbids c") (simp_all add: score_recording_candidate_def score_factors_bounds ball_Un ok)
  moreover have "0 \<le> cs_score (score_recording_release_candidate T q c acoustid)
    \<and> cs_score (score_recording_release_candidate T q c acoustid) \<le> 1"
    by (cases "c_recording_mbids c") (simp_all add: score_recording_release_candidate_def score_factors_bounds ball_Un ok)
  moreover have "0 \<le> cs_score (score_release_candidate T q c) \<and> cs_score (score_release_candidate T q c) \<le> 1"
    by (simp add: score_release_candidate_def score_factors_bounds ball_Un ok)
  ultimately show ?thesis by blast
qed

section \<open>The components add up\<close>

text \<open>The components a factor can carry, each reported once; \<open>TRACK\<close> and \<open>ARTIST\<close> sum up others.\<close>

definition leaf_components :: "score_component list" where
  "leaf_components = [RECORDING_ARTIST, RELEASE_ARTIST, RELEASE, DURATION, TITLE, MUSICBRAINZ, ACOUSTID,
     TRACK_NUMBER, TRACK_TOTAL, DISC_NUMBER, DISC_TOTAL]"

lemma weighted_sum_Cons [simp]: "weighted_sum (f # fs) = sf_value f * real (fw f) + weighted_sum fs"
  by (simp add: weighted_sum_def)

lemma matching_Cons [simp]: "matching_factors (f # fs) c =
  (if sf_available f \<and> sf_component f \<in> set (components_for c) then f # matching_factors fs c
   else matching_factors fs c)"
  by (simp add: matching_factors_def)

lemma available_Cons [simp]:
  "available (f # fs) = (if sf_available f then f # available fs else available fs)"
  by (simp add: available_def)

lemma weighted_sum_split:
  assumes "\<forall>f\<in>set fs. sf_component f \<in> set leaf_components"
  shows "weighted_sum (available fs) = (\<Sum>c\<leftarrow>leaf_components. weighted_sum (matching_factors fs c))"
  using assms
proof (induction fs)
  case Nil
  show ?case by (simp add: available_def matching_factors_def weighted_sum_def leaf_components_def)
next
  case (Cons f fs)
  have "sf_component f \<in> set leaf_components" using Cons.prems by simp
  then show ?case using Cons
    by (cases "sf_component f") (auto simp: leaf_components_def components_for_def)
qed

lemma matching_combined:
  "weighted_sum (matching_factors fs ARTIST)
     = weighted_sum (matching_factors fs RECORDING_ARTIST) + weighted_sum (matching_factors fs RELEASE_ARTIST)"
  "weighted_sum (matching_factors fs TRACK)
     = weighted_sum (matching_factors fs TRACK_NUMBER) + weighted_sum (matching_factors fs TRACK_TOTAL)
     + weighted_sum (matching_factors fs DISC_NUMBER) + weighted_sum (matching_factors fs DISC_TOTAL)"
  by (induction fs) (auto simp: components_for_def position_components_def matching_factors_def weighted_sum_def)

lemma recording_leaf: "f \<in> set (recording_factors T q c acoustid) \<Longrightarrow> sf_component f \<in> set leaf_components"
  by (auto simp: recording_factors_def text_factor_def duration_factor_def provider_factors_def
      score_factor_of_def leaf_components_def split: option.splits)

lemma release_leaf: "f \<in> set (release_factors T a b d c) \<Longrightarrow> sf_component f \<in> set leaf_components"
  by (auto simp: release_factors_def text_factor_def duration_factor_def provider_factors_def
      score_factor_of_def leaf_components_def split: option.splits)

lemma position_leaf: "f \<in> set (position_factors q c) \<Longrightarrow> sf_component f \<in> set leaf_components"
  by (auto simp: position_factors_def position_factor_def score_factor_of_def leaf_components_def Let_def)

lemma score_decomposed:
  assumes "\<forall>f\<in>set fs. sf_component f \<in> set leaf_components" and s_def: "s = score_factors m fs"
  shows "cs_score s = max 0 (cs_artist s + cs_release s + cs_duration s + cs_title s + cs_track s
      + the (cs_musicbrainz s) + the (cs_acoustid s))
    \<and> cs_artist s = the (cs_recording_artist s) + the (cs_release_artist s)
    \<and> cs_track s = the (cs_track_number s) + the (cs_track_total s) + the (cs_disc_number s) + the (cs_disc_total s)"
proof (cases "total_weight (available fs) = 0")
  case True
  then show ?thesis by (simp add: s_def score_factors_def weighted_score_def weighted_average_def component_score_def)
next
  case False
  have sum: "weighted_sum (available fs) = (\<Sum>c\<leftarrow>leaf_components. weighted_sum (matching_factors fs c))"
    by (rule weighted_sum_split [OF assms(1)])
  show ?thesis using False
    by (simp add: s_def score_factors_def weighted_score_def weighted_average_def component_score_def
        matching_combined sum leaf_components_def add_divide_distrib)
qed

text \<open>The components reported with a scored candidate add up to its score (or below zero, where
  the score is cut off): the artist component is the sum of its two kinds of artist, the track
  component that of the four positions.\<close>

lemma components_add_up:
  assumes "c_recording_mbids c = m # ms" and "\<not> candidate_matches_explicit_ids (mr_explicit q) c"
  shows "let s = score_recording_release_candidate T q c acoustid in cs_candidate_mbid s = Some m
    \<and> cs_score s = max 0 (cs_artist s + cs_release s + cs_duration s + cs_title s + cs_track s
      + the (cs_musicbrainz s) + the (cs_acoustid s))
    \<and> cs_artist s = the (cs_recording_artist s) + the (cs_release_artist s)
    \<and> cs_track s = the (cs_track_number s) + the (cs_track_total s) + the (cs_disc_number s) + the (cs_disc_total s)"
proof -
  let ?fs = "recording_factors T q c acoustid
    @ release_factors T (album_artist_name q) (mr_release_title q) (mr_duration q) c @ position_factors q c"
  obtain s where r: "score_recording_release_candidate T q c acoustid = s" and s: "s = score_factors (Some m) ?fs"
    using assms by (simp add: score_recording_release_candidate_def)
  have "\<forall>f\<in>set ?fs. sf_component f \<in> set leaf_components"
    using recording_leaf release_leaf position_leaf by fastforce
  from score_decomposed [OF this s] show ?thesis
    by (cases "weighted_score ?fs") (simp add: r s score_factors_def)
qed

section \<open>The selected folder release\<close>

definition shared_release :: "candidate_score list list \<Rightarrow> real \<Rightarrow> string \<Rightarrow> bool" where
  "shared_release scores threshold m \<longleftrightarrow> scores \<noteq> []
     \<and> (\<forall>g\<in>set scores. \<exists>s\<in>set g. cs_candidate_mbid s = Some m \<and> threshold \<le> cs_score s)"

lemma group_mbids_set: "m \<in> set (group_mbids g) \<longleftrightarrow> (\<exists>s\<in>set g. cs_candidate_mbid s = Some m)"
  by (force simp: group_mbids_def)

lemma group_mbids_qualified:
  "m \<in> set (group_mbids (candidates_above t g)) \<longleftrightarrow> (\<exists>s\<in>set g. cs_candidate_mbid s = Some m \<and> t \<le> cs_score s)"
  by (auto simp: group_mbids_set candidates_above_def)

lemma shared_iff:
  "shared_release scores t m \<longleftrightarrow> scores \<noteq> [] \<and> m \<in> set (group_mbids (hd (map (candidates_above t) scores)))
     \<and> (\<forall>g\<in>set (tl (map (candidates_above t) scores)). m \<in> set (group_mbids g))"
  by (cases scores) (auto simp: shared_release_def group_mbids_qualified)

lemma select_folder_release_eq:
  "select_folder_release scores t =
     first_min (\<lambda>m. (- mbid_total (map (candidates_above t) scores) m, m))
       (if scores = [] then [] else
        filter (\<lambda>m. \<forall>g\<in>set (tl (map (candidates_above t) scores)). m \<in> set (group_mbids g))
          (dedup (group_mbids (hd (map (candidates_above t) scores)))))" (is "_ = first_min ?key ?shared")
proof -
  have e: "?shared = []" if "g \<in> set (map (candidates_above t) scores)" "g = []" for g
  proof -
    have "\<not> shared_release scores t m" for m
      using that by (fastforce simp: shared_release_def candidates_above_def filter_empty_conv eq_commute [of "[]"])
    then have "set ?shared = {}" by (auto simp: shared_iff)
    then show ?thesis by simp
  qed
  show ?thesis
  proof (cases "scores = [] \<or> (\<exists>g\<in>set (map (candidates_above t) scores). g = [])")
    case True
    then have "?shared = []" using e by fastforce
    then show ?thesis using True by (auto simp: select_folder_release_def Let_def)
  next
    case False
    then show ?thesis by (auto simp: select_folder_release_def Let_def)
  qed
qed

text \<open>C27. The release chosen for a folder is shared by every group with a score at the threshold or
  above, no shared release has a larger sum of qualified scores, and of equal sums the least
  identifier wins; there is no choice exactly when nothing is shared.\<close>

theorem select_folder_release_best:
  "(select_folder_release scores t = None \<longleftrightarrow> (\<nexists>m. shared_release scores t m))
   \<and> (select_folder_release scores t = Some m \<longleftrightarrow> shared_release scores t m
       \<and> (\<nexists>m'. shared_release scores t m'
            \<and> (mbid_total (map (candidates_above t) scores) m, m') < (mbid_total (map (candidates_above t) scores) m', m)))"
proof -
  let ?t = "mbid_total (map (candidates_above t) scores)"
  let ?k = "\<lambda>m. (- ?t m, m)"
  obtain sh where sh: "select_folder_release scores t = first_min ?k sh"
    and set: "\<And>m. m \<in> set sh \<longleftrightarrow> shared_release scores t m"
    unfolding select_folder_release_eq by (auto simp: shared_iff)
  have inj: "inj_on ?k (set sh)" by (simp add: inj_on_def)
  have le: "?k m \<le> ?k m' \<longleftrightarrow> \<not> (?t m, m') < (?t m', m)" for m m'
    by (auto simp: less_eq_prod_def less_prod_def not_less)
  have "select_folder_release scores t = None \<longleftrightarrow> set sh = {}" by (simp add: sh)
  then have none: "select_folder_release scores t = None \<longleftrightarrow> (\<nexists>m. shared_release scores t m)"
    by (simp add: set_eq_iff set del: set_empty)
  show ?thesis
  proof (rule conjI [OF none], rule iffI)
    assume "select_folder_release scores t = Some m"
    then have "first_min ?k sh = Some m" by (simp add: sh)
    then have "m \<in> set sh \<and> (\<forall>m'\<in>set sh. ?k m \<le> ?k m')" using first_min_in first_min_le by fast
    then show "shared_release scores t m \<and> (\<nexists>m'. shared_release scores t m' \<and> (?t m, m') < (?t m', m))"
      unfolding set [symmetric] le by blast
  next
    assume "shared_release scores t m \<and> (\<nexists>m'. shared_release scores t m' \<and> (?t m, m') < (?t m', m))"
    then have "m \<in> set sh" "\<And>m'. m' \<in> set sh \<Longrightarrow> ?k m \<le> ?k m'" unfolding set [symmetric] le by blast+
    then show "select_folder_release scores t = Some m" unfolding sh by (rule first_min_unique [OF inj])
  qed
qed

section \<open>Witnesses\<close>

definition sample_tools :: text_tools where
  "sample_tools = \<lparr>unidecode = id, default_process = str_casefold,
     token_set_ratio = (\<lambda>a b. if a = b then 100 else 0)\<rparr>"

definition sample_matching :: matching_request where
  "sample_matching = \<lparr>mr_artist = ''Beck'', mr_release_title = ''Odelay'', mr_duration = Some 200,
     mr_explicit = \<lparr>ei_release = None, ei_recording = None, ei_track = None\<rparr>,
     mr_recording_title = ''Jack'', mr_track_number = Some 3, mr_track_total = None, mr_disc_number = None,
     mr_disc_total = None, mr_source_path = [], mr_album_artist = []\<rparr>"

definition sample_facts :: candidate_facts where
  "sample_facts = \<lparr>c_release_mbid = ''r'', c_release_title = ''Odelay'', c_artist_name = ''Beck'',
     c_duration = Some 500, c_recording_mbids = [''m''], c_track_mbids = [], c_recording_title = Some ''Jack'',
     c_date = None, c_original_date = None, c_country = None, c_track_number = Some 3, c_track_total = None,
     c_disc_number = None, c_disc_total = None, c_genres = [], c_release_group = None, c_isrcs = [],
     c_performers = [], c_release_artist = None, c_recording_artists = [], c_release_artists = [],
     c_recording_artist_mbids = [], c_release_artist_mbids = [], c_catalog_numbers = [],
     c_disambiguation = None, c_musicbrainz_score = Some 90\<rparr>"

lemma sample_percentages: "percentages sample_tools"
  by (simp add: percentages_def sample_tools_def)

lemma sample_provider_ok: "provider_ok sample_facts"
  by (simp add: provider_ok_def sample_facts_def)

theorem scores_bounded_witness:
  "cs_score (score_recording_release_candidate sample_tools sample_matching sample_facts (Some 0.5)) \<le> 1"
  using scores_bounded [OF sample_percentages sample_provider_ok, of "Some 0.5"] by simp

end
