(* ===== verification/Base64.thy ===== *)
theory Base64 imports Prelude begin

text \<open>
  The standard library's \<^verbatim>\<open>base64.b64encode\<close> and \<open>b64decode(validate=True)\<close>, and \<open>str.encode\<close>.

  Octets are natural numbers below 256. A string is UTF-8 encoded from its code points, which
  are below 256 here, so every character takes one or two octets. The strict decoder refuses a
  character outside the alphabet, a text whose length is not a multiple of four and padding
  anywhere but at the end; like the library it does not look at the unused bits of a padded group.
\<close>

type_synonym octets = "nat list"

definition octets_ok :: "octets \<Rightarrow> bool" where
  "octets_ok bs \<longleftrightarrow> (\<forall>b\<in>set bs. b < 256)"

definition str_encode :: "string \<Rightarrow> octets" where
  "str_encode s = concat (map (\<lambda>c. let n = (of_char c :: nat) in
     if n < 128 then [n] else [192 + n div 64, 128 + n mod 64]) s)"

definition b64_alphabet :: string where
  "b64_alphabet = ''ABCDEFGHIJKLMNOPQRSTUVWXYZabcdefghijklmnopqrstuvwxyz0123456789+/''"

definition b64_char :: "nat \<Rightarrow> char" where
  "b64_char n = b64_alphabet ! (n mod 64)"

definition b64_value :: "char \<Rightarrow> nat option" where
  "b64_value c = (let n = (of_char c :: nat) in
     if 65 \<le> n \<and> n \<le> 90 then Some (n - 65) else if 97 \<le> n \<and> n \<le> 122 then Some (n - 71)
     else if 48 \<le> n \<and> n \<le> 57 then Some (n + 4) else if c = CHR ''+'' then Some 62
     else if c = CHR ''/'' then Some 63 else None)"

text \<open>The four sextets of three octets, and back.\<close>

definition sextet1 :: "nat \<Rightarrow> nat" where "sextet1 a = a div 4"
definition sextet2 :: "nat \<Rightarrow> nat \<Rightarrow> nat" where "sextet2 a b = a mod 4 * 16 + b div 16"
definition sextet3 :: "nat \<Rightarrow> nat \<Rightarrow> nat" where "sextet3 b c = b mod 16 * 4 + c div 64"
definition sextet4 :: "nat \<Rightarrow> nat" where "sextet4 c = c mod 64"

definition octet1 :: "nat \<Rightarrow> nat \<Rightarrow> nat" where "octet1 x y = x * 4 + y div 16"
definition octet2 :: "nat \<Rightarrow> nat \<Rightarrow> nat" where "octet2 y z = y mod 16 * 16 + z div 4"
definition octet3 :: "nat \<Rightarrow> nat \<Rightarrow> nat" where "octet3 z w = z mod 4 * 64 + w"

fun b64encode :: "octets \<Rightarrow> string" where
  "b64encode [] = []"
| "b64encode [a] = [b64_char (sextet1 a), b64_char (sextet2 a 0), CHR ''='', CHR ''='']"
| "b64encode [a, b] = [b64_char (sextet1 a), b64_char (sextet2 a b), b64_char (sextet3 b 0), CHR ''='']"
| "b64encode (a # b # c # r) = b64_char (sextet1 a) # b64_char (sextet2 a b)
     # b64_char (sextet3 b c) # b64_char (sextet4 c) # b64encode r"

fun b64decode :: "string \<Rightarrow> octets option" where
  "b64decode [] = Some []"
| "b64decode (p # q # u # v # r) =
     (case (b64_value p, b64_value q) of
        (Some x, Some y) \<Rightarrow>
          (case b64_value u of
             None \<Rightarrow> if u = CHR ''='' \<and> v = CHR ''='' \<and> r = [] then Some [octet1 x y] else None
           | Some z \<Rightarrow>
             (case b64_value v of
                None \<Rightarrow> if v = CHR ''='' \<and> r = [] then Some [octet1 x y, octet2 y z] else None
              | Some w \<Rightarrow> map_option (\<lambda>bs. octet1 x y # octet2 y z # octet3 z w # bs) (b64decode r)))
      | _ \<Rightarrow> None)"
| "b64decode _ = None"

lemma b64_value_table: "map b64_value b64_alphabet = map Some [0..<64]"
  by (simp add: b64_value_def b64_alphabet_def Let_def upt_rec)

lemma b64_value_char: "n < 64 \<Longrightarrow> b64_value (b64_char n) = Some n"
proof -
  assume n: "n < 64"
  have l: "length b64_alphabet = 64" by (simp add: b64_alphabet_def)
  have "map b64_value b64_alphabet ! n = map Some [0..<64] ! n" by (simp only: b64_value_table)
  then show ?thesis using n l by (simp add: b64_char_def)
qed

lemma b64_value_pad: "b64_value (CHR ''='') = None"
  by (simp add: b64_value_def Let_def)

lemma sextet_bounds:
  assumes "a < 256" "b < 256"
  shows "sextet1 a < 64" "sextet2 a b < 64" "sextet3 a b < 64" "sextet4 a < 64"
proof -
  have "a mod 4 \<le> 3" "b div 16 \<le> 15" "a mod 16 \<le> 15" "b div 64 \<le> 3" using assms by auto
  then show "sextet2 a b < 64" "sextet3 a b < 64" by (simp_all add: sextet2_def sextet3_def)
qed (use assms in \<open>auto simp: sextet1_def sextet4_def\<close>)

lemma octets_of_sextets:
  assumes "a < 256" "b < 256" "c < 256"
  shows "octet1 (sextet1 a) (sextet2 a b) = a" "octet2 (sextet2 a b) (sextet3 b c) = b"
    "octet3 (sextet3 b c) (sextet4 c) = c"
proof -
  have b: "b div 16 < 16" and c: "c div 64 < 4" using assms by auto
  show "octet1 (sextet1 a) (sextet2 a b) = a"
    using b by (simp add: octet1_def sextet1_def sextet2_def)
  have "(a mod 4 * 16 + b div 16) mod 16 = b div 16" using b by simp
  moreover have "(b mod 16 * 4 + c div 64) div 4 = b mod 16" using c by simp
  ultimately show "octet2 (sextet2 a b) (sextet3 b c) = b"
    by (simp add: octet2_def sextet2_def sextet3_def del: mod_mult_self3)
  have "(b mod 16 * 4 + c div 64) mod 4 = c div 64" using c by simp
  then show "octet3 (sextet3 b c) (sextet4 c) = c" by (simp add: octet3_def sextet3_def sextet4_def)
qed

lemma b64_round_trip: "octets_ok bs \<Longrightarrow> b64decode (b64encode bs) = Some bs"
proof (induction bs rule: b64encode.induct)
  case (2 a)
  then show ?case using sextet_bounds [of a 0] octets_of_sextets [of a 0 0]
    by (simp add: octets_ok_def b64_value_char b64_value_pad)
next
  case (3 a b)
  then show ?case using sextet_bounds [of a b] sextet_bounds [of b 0] octets_of_sextets [of a b 0]
    by (simp add: octets_ok_def b64_value_char b64_value_pad)
next
  case (4 a b c r)
  then show ?case using sextet_bounds [of a b] sextet_bounds [of b c] sextet_bounds [of c 0] octets_of_sextets [of a b c]
    by (simp add: octets_ok_def b64_value_char)
qed simp

end
