(* ===== verification/Evidence.thy ===== *)
theory Evidence imports Scoring Base64 begin

text \<open>
  \<^bold>\<open>Provider evidence\<close>: the results of the providers and their provenance
  (\<open>services/matching/providers.py\<close>), the snapshots and the request schedule that persist them
  (\<open>ProviderPersistenceRepository\<close> in \<open>repositories/persistence.py\<close>, \<open>DatabaseRequestRateLimiter\<close>)
  and the lookup that answers from a snapshot younger than a day before it asks the provider
  (\<open>services/matching/evidence.py\<close>).

  The providers and SHA-256 are arguments; pydantic's \<open>model_dump_json\<close> and
  \<open>model_validate_json\<close> are the argument \<open>C\<close>, used only with the hypothesis that what was dumped
  validates to the same payload. \<open>FixtureProvenance\<close>, which only the tests construct, is left
  out, and so are the callback that sleeps before a request and the commit or flush after a
  write, which do not change a value here. The requests made are recorded in the state.
\<close>

section \<open>Results and provenance\<close>

datatype evidence_error = InvalidProvenance string string | EvValueError string | EvLookupError string

datatype fixture_case = SUCCESS | NO_MATCH | AMBIGUOUS | TIMEOUT | MALFORMED | RATE_LIMITED | UNAVAILABLE | DISABLED

definition fixture_cases :: "(string \<times> fixture_case) list" where
  "fixture_cases = [(''success'', SUCCESS), (''no_match'', NO_MATCH), (''ambiguous'', AMBIGUOUS),
     (''timeout'', TIMEOUT), (''malformed'', MALFORMED), (''rate_limited'', RATE_LIMITED),
     (''unavailable'', UNAVAILABLE), (''disabled'', DISABLED)]"

text \<open>\<open>FixtureCase(value)\<close>.\<close>

definition fixture_case_of :: "string \<Rightarrow> evidence_error + fixture_case" where
  "fixture_case_of s = (case map_of fixture_cases s of Some c \<Rightarrow> Inr c | None \<Rightarrow> Inl (EvValueError s))"

record live_provenance =
  lp_provider :: string
  lp_request_hash :: string
  lp_sha256 :: string
  lp_http_status :: "int option"
  lp_captured :: timestamp
  lp_state :: string
  lp_body :: octets

definition is_sha256_hex :: "string \<Rightarrow> bool" where
  "is_sha256_hex s \<longleftrightarrow> length s = 64
     \<and> (\<forall>c\<in>set s. (CHR ''0'' \<le> c \<and> c \<le> CHR ''9'') \<or> (CHR ''a'' \<le> c \<and> c \<le> CHR ''f''))"

text \<open>\<open>LiveProvenance(...)\<close> with its \<open>__post_init__\<close>; the checks of the field types hold by typing.\<close>

definition live_provenance_of ::
  "string \<Rightarrow> string \<Rightarrow> string \<Rightarrow> int option \<Rightarrow> timestamp \<Rightarrow> string \<Rightarrow> octets \<Rightarrow> evidence_error + live_provenance" where
  "live_provenance_of name request_hash sha http_status captured state body =
     (if name \<notin> {''musicbrainz'', ''acoustid''}
      then Inl (InvalidProvenance ''provider_name'' ''not an allowlisted provider identity'')
      else if state \<notin> {''fresh'', ''cached'', ''stale''}
      then Inl (InvalidProvenance ''state'' ''not a supported cache-origin state'')
      else if \<not> is_sha256_hex request_hash
      then Inl (InvalidProvenance ''request_hash'' ''not a 64-character lowercase SHA-256 digest'')
      else if \<not> is_sha256_hex sha
      then Inl (InvalidProvenance ''sha256'' ''not a 64-character lowercase SHA-256 digest'')
      else if (case http_status of None \<Rightarrow> False | Some v \<Rightarrow> v < 100 \<or> 599 < v)
      then Inl (InvalidProvenance ''http_status'' ''outside the valid HTTP response range'')
      else Inr \<lparr>lp_provider = name, lp_request_hash = request_hash, lp_sha256 = sha,
        lp_http_status = http_status, lp_captured = captured, lp_state = state, lp_body = body\<rparr>)"

record recording_candidate =
  rc_mbid :: string
  rc_score :: real

record recording_evidence =
  re_mbid :: string
  re_score :: real
  re_candidates :: "recording_candidate list"

datatype 'a lookup_result =
    Match live_provenance 'a
  | NoMatch live_provenance
  | Ambiguous live_provenance "release_candidate list"
  | Timeout live_provenance
  | Malformed live_provenance
  | RateLimited live_provenance
  | Unavailable live_provenance
  | Disabled live_provenance

type_synonym musicbrainz_result = "release_candidate lookup_result"
type_synonym acoustid_result = "recording_evidence lookup_result"

fun provenance_of :: "'a lookup_result \<Rightarrow> live_provenance" where
  "provenance_of (Match p _) = p"
| "provenance_of (NoMatch p) = p"
| "provenance_of (Ambiguous p _) = p"
| "provenance_of (Timeout p) = p"
| "provenance_of (Malformed p) = p"
| "provenance_of (RateLimited p) = p"
| "provenance_of (Unavailable p) = p"
| "provenance_of (Disabled p) = p"

fun outcome_of :: "'a lookup_result \<Rightarrow> string" where
  "outcome_of (Match _ _) = ''success''"
| "outcome_of (NoMatch _) = ''no_match''"
| "outcome_of (Ambiguous _ _) = ''ambiguous''"
| "outcome_of (Timeout _) = ''timeout''"
| "outcome_of (Malformed _) = ''malformed''"
| "outcome_of (RateLimited _) = ''rate_limited''"
| "outcome_of (Unavailable _) = ''unavailable''"
| "outcome_of (Disabled _) = ''disabled''"

fun with_musicbrainz_provenance :: "live_provenance \<Rightarrow> musicbrainz_result \<Rightarrow> musicbrainz_result" where
  "with_musicbrainz_provenance p (Match _ c) = Match p c"
| "with_musicbrainz_provenance p (NoMatch _) = NoMatch p"
| "with_musicbrainz_provenance p (Ambiguous _ cs) = Ambiguous p cs"
| "with_musicbrainz_provenance p (Timeout _) = Timeout p"
| "with_musicbrainz_provenance p (Malformed _) = Malformed p"
| "with_musicbrainz_provenance p (RateLimited _) = RateLimited p"
| "with_musicbrainz_provenance p (Unavailable _) = Unavailable p"
| "with_musicbrainz_provenance p (Disabled _) = Disabled p"

fun with_acoustid_provenance :: "live_provenance \<Rightarrow> acoustid_result \<Rightarrow> acoustid_result" where
  "with_acoustid_provenance p (Match _ e) = Match p e"
| "with_acoustid_provenance p (NoMatch _) = NoMatch p"
| "with_acoustid_provenance p (Ambiguous _ _) = Ambiguous p []"
| "with_acoustid_provenance p (Timeout _) = Timeout p"
| "with_acoustid_provenance p (Malformed _) = Malformed p"
| "with_acoustid_provenance p (RateLimited _) = RateLimited p"
| "with_acoustid_provenance p (Unavailable _) = Unavailable p"
| "with_acoustid_provenance p (Disabled _) = Disabled p"

fun failed :: "fixture_case \<Rightarrow> live_provenance \<Rightarrow> 'a lookup_result" where
  "failed NO_MATCH p = NoMatch p"
| "failed AMBIGUOUS p = Ambiguous p []"
| "failed TIMEOUT p = Timeout p"
| "failed MALFORMED p = Malformed p"
| "failed RATE_LIMITED p = RateLimited p"
| "failed UNAVAILABLE p = Unavailable p"
| "failed DISABLED p = Disabled p"
| "failed SUCCESS p = Malformed p"

section \<open>Snapshots\<close>

record snapshot_row =
  sn_id :: int
  sn_provider :: string
  sn_request_hash :: string
  sn_descriptor :: string
  sn_sha256 :: string
  sn_body :: "octets option"
  sn_captured :: timestamp
  sn_outcome :: string
  sn_state :: string
  sn_age_seconds :: "int option"
  sn_http_status :: "int option"

record schedule_row =
  sch_provider :: string
  sch_next_start :: timestamp
  sch_lease_until :: "timestamp option"
  sch_lease_token :: "string option"

record musicbrainz_request =
  mq_query :: string
  mq_recording :: "string option"
  mq_release_title :: "string option"
  mq_artist :: "string option"
  mq_release :: "string option"
  mq_recording_title :: "string option"
  mq_duration :: "int option"
  mq_track_number :: "int option"
  mq_recordings :: "string list"

record evidence_db =
  ev_snapshots :: "snapshot_row list"
  ev_schedules :: "schedule_row list"
  ev_musicbrainz_calls :: "musicbrainz_request list"
  ev_acoustid_calls :: "string list"

text \<open>The words \<open>_FORBIDDEN_DESCRIPTOR_RE\<close> looks for, whatever their case.\<close>

definition forbidden_words :: "string list" where
  "forbidden_words = (let seps = [[], ''-'', ''_'', '' ''] in
     map (\<lambda>s. ''user'' @ s @ ''agent'') seps @ [''contact'']
     @ map (\<lambda>s. ''acoustid'' @ s @ ''key'') seps @ map (\<lambda>s. ''acoustid'' @ s @ ''api'') seps
     @ [''fingerprint'', ''exception'', ''authorization''] @ map (\<lambda>s. ''api'' @ s @ ''key'') seps)"

fun contains_str :: "string \<Rightarrow> string \<Rightarrow> bool" where
  "contains_str p [] = (p = [])"
| "contains_str p (c # s) = (str_startswith (c # s) p \<or> contains_str p s)"

definition descriptor_allowed :: "string \<Rightarrow> bool" where
  "descriptor_allowed d \<longleftrightarrow> \<not> (\<exists>w\<in>set forbidden_words. contains_str w (str_casefold d))
     \<and> \<not> (contains_str ''://'' d \<and> contains_str ''@'' d)"

definition next_snapshot_id :: "snapshot_row list \<Rightarrow> int" where
  "next_snapshot_id rows = 1 + Max (insert 0 (sn_id ` set rows))"

text \<open>\<open>append_snapshot\<close>; the row comes without its primary key, which the database assigns.\<close>

definition append_snapshot :: "snapshot_row \<Rightarrow> evidence_db \<Rightarrow> evidence_error + evidence_db" where
  "append_snapshot row db =
     (if sn_provider row = [] \<or> sn_outcome row = [] \<or> sn_state row = [] \<or> sn_descriptor row = []
      then Inl (EvValueError ''provider name, descriptor, outcome, and state are required'')
      else if \<not> is_sha256_hex (sn_request_hash row) \<or> \<not> is_sha256_hex (sn_sha256 row)
      then Inl (EvValueError ''request and response hashes must be lowercase SHA-256 hex'')
      else if \<not> descriptor_allowed (sn_descriptor row)
      then Inl (EvValueError ''request descriptor contains forbidden sensitive data'')
      else if (case sn_http_status row of None \<Rightarrow> False | Some v \<Rightarrow> v < 100 \<or> 599 < v)
      then Inl (EvValueError ''HTTP status must be between 100 and 599'')
      else if (case sn_age_seconds row of None \<Rightarrow> False | Some v \<Rightarrow> v < 0)
      then Inl (EvValueError ''age seconds must be non-negative'')
      else Inr (db\<lparr>ev_snapshots := ev_snapshots db @ [row\<lparr>sn_id := next_snapshot_id (ev_snapshots db)\<rparr>]\<rparr>))"

definition newest_relevant :: "string \<Rightarrow> string \<Rightarrow> evidence_db \<Rightarrow> snapshot_row option" where
  "newest_relevant name h db = first_min (\<lambda>s. (- sn_captured s, - sn_id s))
     (filter (\<lambda>s. sn_provider s = name \<and> sn_request_hash s = h) (ev_snapshots db))"

definition freshness :: duration where "freshness = 86400000000"

text \<open>\<open>int(age.total_seconds())\<close>, which rounds towards zero.\<close>

definition whole_seconds :: "duration \<Rightarrow> int" where
  "whole_seconds d = (if 0 \<le> d then d div 1000000 else - ((- d) div 1000000))"

definition fresh_snapshot ::
  "string \<Rightarrow> string \<Rightarrow> timestamp \<Rightarrow> evidence_db \<Rightarrow> evidence_error + (snapshot_row option \<times> evidence_db)" where
  "fresh_snapshot name h now db = (case newest_relevant name h db of
     None \<Rightarrow> Inr (None, db)
   | Some s \<Rightarrow>
     (let age = now - sn_captured s in
      if age < freshness \<and> sn_body s \<noteq> None \<and> sn_body s \<noteq> Some [] then Inr (Some s, db)
      else bindR (append_snapshot \<lparr>sn_id = 0, sn_provider = name, sn_request_hash = h,
              sn_descriptor = ''cached provider response expired'', sn_sha256 = sn_sha256 s, sn_body = None,
              sn_captured = now, sn_outcome = sn_outcome s, sn_state = ''stale'',
              sn_age_seconds = Some (whole_seconds age), sn_http_status = sn_http_status s\<rparr> db)
            (\<lambda>db'. Inr (None, db'))))"

section \<open>Payloads\<close>

record musicbrainz_payload =
  mp_version :: int
  mp_outcome :: string
  mp_response_body :: string
  mp_candidates :: "release_candidate list"

record acoustid_payload =
  ap_version :: int
  ap_outcome :: string
  ap_response_body :: string
  ap_recording :: "string option"
  ap_score :: "real option"
  ap_candidates :: "recording_candidate list"

record fixture_payload =
  fx_outcome :: string
  fx_release_mbid :: "string option"
  fx_release_title :: "string option"
  fx_artist_name :: "string option"
  fx_recording_mbid :: "string option"
  fx_score :: "real option"

record codec =
  dump_musicbrainz :: "musicbrainz_payload \<Rightarrow> octets"
  validate_musicbrainz :: "octets \<Rightarrow> musicbrainz_payload option"
  dump_acoustid :: "acoustid_payload \<Rightarrow> octets"
  validate_acoustid :: "octets \<Rightarrow> acoustid_payload option"
  validate_fixture :: "octets \<Rightarrow> fixture_payload option"

fun result_candidates :: "musicbrainz_result \<Rightarrow> release_candidate list" where
  "result_candidates (Match _ c) = [c]"
| "result_candidates (Ambiguous _ cs) = cs"
| "result_candidates _ = []"

definition musicbrainz_payload_of :: "musicbrainz_result \<Rightarrow> musicbrainz_payload" where
  "musicbrainz_payload_of r = \<lparr>mp_version = 1, mp_outcome = outcome_of r,
     mp_response_body = b64encode (lp_body (provenance_of r)), mp_candidates = result_candidates r\<rparr>"

definition serialize_musicbrainz_snapshot :: "codec \<Rightarrow> musicbrainz_result \<Rightarrow> octets" where
  "serialize_musicbrainz_snapshot C r = dump_musicbrainz C (musicbrainz_payload_of r)"

text \<open>The parsed snapshot: outcome, response body and candidates.\<close>

definition parse_musicbrainz_snapshot ::
  "codec \<Rightarrow> octets option \<Rightarrow> (string \<times> octets \<times> release_candidate list) option" where
  "parse_musicbrainz_snapshot C raw =
     (case validate_musicbrainz C (case raw of None \<Rightarrow> [] | Some b \<Rightarrow> b) of
        None \<Rightarrow> None
      | Some p \<Rightarrow> if mp_version p \<noteq> 1 then None
          else (case b64decode (mp_response_body p) of None \<Rightarrow> None
            | Some body \<Rightarrow> Some (mp_outcome p, body, mp_candidates p)))"

fun result_evidence :: "acoustid_result \<Rightarrow> recording_evidence option" where
  "result_evidence (Match _ e) = Some e"
| "result_evidence _ = None"

definition acoustid_payload_of :: "acoustid_result \<Rightarrow> acoustid_payload" where
  "acoustid_payload_of r = (let e = result_evidence r in
     \<lparr>ap_version = 1, ap_outcome = outcome_of r, ap_response_body = b64encode (lp_body (provenance_of r)),
      ap_recording = map_option re_mbid e, ap_score = map_option re_score e,
      ap_candidates = (case e of None \<Rightarrow> [] | Some x \<Rightarrow> re_candidates x)\<rparr>)"

definition serialize_acoustid_snapshot :: "codec \<Rightarrow> acoustid_result \<Rightarrow> octets" where
  "serialize_acoustid_snapshot C r = dump_acoustid C (acoustid_payload_of r)"

definition parse_acoustid_snapshot ::
  "codec \<Rightarrow> octets option \<Rightarrow> (string \<times> octets \<times> recording_evidence option) option" where
  "parse_acoustid_snapshot C raw =
     (case validate_acoustid C (case raw of None \<Rightarrow> [] | Some b \<Rightarrow> b) of
        None \<Rightarrow> None
      | Some p \<Rightarrow> if ap_version p \<noteq> 1 then None
          else (case b64decode (ap_response_body p) of None \<Rightarrow> None
            | Some body \<Rightarrow> Some (ap_outcome p, body,
                (case (ap_recording p, ap_score p) of
                   (Some m, Some s) \<Rightarrow> Some \<lparr>re_mbid = m, re_score = s, re_candidates = ap_candidates p\<rparr>
                 | _ \<Rightarrow> None))))"

definition provenance ::
  "(octets \<Rightarrow> string) \<Rightarrow> string \<Rightarrow> string \<Rightarrow> octets \<Rightarrow> int option \<Rightarrow> timestamp \<Rightarrow> string
   \<Rightarrow> evidence_error + live_provenance" where
  "provenance sha name h raw http_status captured state =
     live_provenance_of name h (sha raw) http_status captured state raw"

text \<open>A release candidate with only the fields a fixture names.\<close>

definition named_candidate :: "string \<Rightarrow> string \<Rightarrow> string \<Rightarrow> release_candidate" where
  "named_candidate mbid title artist = ReleaseCandidate
     \<lparr>c_release_mbid = mbid, c_release_title = title, c_artist_name = artist, c_duration = None,
      c_recording_mbids = [], c_track_mbids = [], c_recording_title = None, c_date = None,
      c_original_date = None, c_country = None, c_track_number = None, c_track_total = None,
      c_disc_number = None, c_disc_total = None, c_genres = [], c_release_group = None, c_isrcs = [],
      c_performers = [], c_release_artist = None, c_recording_artists = [], c_release_artists = [],
      c_recording_artist_mbids = [], c_release_artist_mbids = [], c_catalog_numbers = [],
      c_disambiguation = None, c_musicbrainz_score = None\<rparr> []"

definition decode_musicbrainz ::
  "codec \<Rightarrow> (octets \<Rightarrow> string) \<Rightarrow> snapshot_row \<Rightarrow> string \<Rightarrow> evidence_error + musicbrainz_result" where
  "decode_musicbrainz C sha s state = (case parse_musicbrainz_snapshot C (sn_body s) of
     Some (outcome, body, candidates) \<Rightarrow>
       bindR (provenance sha ''musicbrainz'' (sn_request_hash s) body (sn_http_status s) (sn_captured s) state)
         (\<lambda>p. if outcome = ''success'' then
                Inr (case candidates of [c] \<Rightarrow> Match p c | [] \<Rightarrow> Malformed p | _ \<Rightarrow> Ambiguous p candidates)
              else bindR (fixture_case_of outcome) (\<lambda>k. Inr (failed k p)))
   | None \<Rightarrow>
       (let raw = (case sn_body s of None \<Rightarrow> [] | Some b \<Rightarrow> b) in
        bindR (provenance sha ''musicbrainz'' (sn_request_hash s) raw (sn_http_status s) (sn_captured s) state)
         (\<lambda>p. case validate_fixture C raw of
            None \<Rightarrow> Inr (Malformed p)
          | Some f \<Rightarrow>
            (case (fx_outcome f = ''success'', fx_release_mbid f, fx_release_title f, fx_artist_name f) of
               (True, Some m, Some t, Some a) \<Rightarrow> Inr (Match p (named_candidate m t a))
             | _ \<Rightarrow> bindR (fixture_case_of (fx_outcome f)) (\<lambda>k. Inr (failed k p))))))"

definition decode_acoustid ::
  "codec \<Rightarrow> (octets \<Rightarrow> string) \<Rightarrow> snapshot_row \<Rightarrow> string \<Rightarrow> evidence_error + acoustid_result" where
  "decode_acoustid C sha s state = (case parse_acoustid_snapshot C (sn_body s) of
     Some (outcome, body, evidence) \<Rightarrow>
       bindR (provenance sha ''acoustid'' (sn_request_hash s) body (sn_http_status s) (sn_captured s) state)
         (\<lambda>p. case (outcome = ''success'', evidence) of
              (True, Some e) \<Rightarrow> Inr (Match p e)
            | _ \<Rightarrow> bindR (fixture_case_of outcome) (\<lambda>k. Inr (failed k p)))
   | None \<Rightarrow>
       (let raw = (case sn_body s of None \<Rightarrow> [] | Some b \<Rightarrow> b) in
        bindR (provenance sha ''acoustid'' (sn_request_hash s) raw (sn_http_status s) (sn_captured s) state)
         (\<lambda>p. case validate_fixture C raw of
            None \<Rightarrow> Inr (Malformed p)
          | Some f \<Rightarrow>
            (case (fx_outcome f = ''success'', fx_recording_mbid f, fx_score f) of
               (True, Some m, Some v) \<Rightarrow> Inr (Match p \<lparr>re_mbid = m, re_score = v, re_candidates = []\<rparr>)
             | _ \<Rightarrow> bindR (fixture_case_of (fx_outcome f)) (\<lambda>k. Inr (failed k p))))))"

section \<open>Lookups\<close>

definition store_result ::
  "(octets \<Rightarrow> string) \<Rightarrow> string \<Rightarrow> string \<Rightarrow> string \<Rightarrow> octets \<Rightarrow> 'a lookup_result \<Rightarrow> timestamp \<Rightarrow> evidence_db
   \<Rightarrow> evidence_error + (live_provenance \<times> evidence_db)" where
  "store_result sha name descriptor h raw r now db =
     bindR (provenance sha name h raw (lp_http_status (provenance_of r)) now ''fresh'')
       (\<lambda>p. bindR (append_snapshot \<lparr>sn_id = 0, sn_provider = name, sn_request_hash = h,
              sn_descriptor = descriptor, sn_sha256 = lp_sha256 p, sn_body = Some raw, sn_captured = now,
              sn_outcome = outcome_of r, sn_state = ''fresh'', sn_age_seconds = None,
              sn_http_status = lp_http_status p\<rparr> db)
            (\<lambda>db'. Inr (p, db')))"

definition persist_musicbrainz ::
  "codec \<Rightarrow> (octets \<Rightarrow> string) \<Rightarrow> musicbrainz_result \<Rightarrow> string \<Rightarrow> timestamp \<Rightarrow> evidence_db
   \<Rightarrow> evidence_error + (musicbrainz_result \<times> evidence_db)" where
  "persist_musicbrainz C sha r h now db =
     bindR (store_result sha ''musicbrainz'' ''musicbrainz v2 lookup'' h (serialize_musicbrainz_snapshot C r) r now db)
       (\<lambda>(p, db'). Inr (with_musicbrainz_provenance p r, db'))"

definition persist_acoustid ::
  "codec \<Rightarrow> (octets \<Rightarrow> string) \<Rightarrow> acoustid_result \<Rightarrow> string \<Rightarrow> timestamp \<Rightarrow> evidence_db
   \<Rightarrow> evidence_error + (acoustid_result \<times> evidence_db)" where
  "persist_acoustid C sha r h now db =
     bindR (store_result sha ''acoustid'' ''acoustid recording evidence lookup'' h (serialize_acoustid_snapshot C r) r now db)
       (\<lambda>(p, db'). Inr (with_acoustid_provenance p r, db'))"

type_synonym musicbrainz_provider = "musicbrainz_request \<Rightarrow> timestamp \<Rightarrow> musicbrainz_result"
type_synonym acoustid_provider = "string \<Rightarrow> real \<Rightarrow> timestamp \<Rightarrow> acoustid_result"

definition cached_snapshot ::
  "bool \<Rightarrow> string \<Rightarrow> string \<Rightarrow> timestamp \<Rightarrow> evidence_db \<Rightarrow> evidence_error + (snapshot_row option \<times> evidence_db)" where
  "cached_snapshot force name h now db = (if force then Inr (None, db) else fresh_snapshot name h now db)"

definition lookup_musicbrainz_request ::
  "codec \<Rightarrow> (octets \<Rightarrow> string) \<Rightarrow> musicbrainz_provider option \<Rightarrow> bool \<Rightarrow> musicbrainz_request \<Rightarrow> string \<Rightarrow> timestamp
   \<Rightarrow> evidence_db \<Rightarrow> evidence_error + (musicbrainz_result \<times> evidence_db)" where
  "lookup_musicbrainz_request C sha provider force q h now db =
     bindR (cached_snapshot force ''musicbrainz'' h now db) (\<lambda>(cached, db).
       case cached of
         Some s \<Rightarrow> bindR (decode_musicbrainz C sha s ''cached'') (\<lambda>r. Inr (r, db))
       | None \<Rightarrow>
         (case provider of
            None \<Rightarrow> bindR (provenance sha ''musicbrainz'' h [] None now ''fresh'') (\<lambda>p. Inr (Disabled p, db))
          | Some lookup \<Rightarrow> persist_musicbrainz C sha (lookup q now) h now
              (db\<lparr>ev_musicbrainz_calls := ev_musicbrainz_calls db @ [q]\<rparr>)))"

record evidence_request =
  er_query :: string
  er_fingerprint :: "string option"
  er_acoustid_case :: "fixture_case option"
  er_duration :: "real option"
  er_force :: bool
  er_release_title :: "string option"
  er_recording_title :: "string option"
  er_track_number :: "int option"
  er_artist :: "string option"
  er_recording :: "string option"
  er_recordings :: "string list"
  er_release :: "string option"
  er_run_acoustid :: bool
  er_run_musicbrainz :: bool

text \<open>\<open>round(x)\<close>: half to even.\<close>

definition py_round :: "real \<Rightarrow> int" where
  "py_round x = (let f = \<lfloor>x\<rfloor>; d = x - of_int f in
     if d < 1 / 2 then f else if d > 1 / 2 then f + 1 else if even f then f else f + 1)"

definition disabled_hash :: "(octets \<Rightarrow> string) \<Rightarrow> string" where
  "disabled_hash sha = sha (str_encode ''acoustid-disabled'')"

definition musicbrainz_request_hash :: "(octets \<Rightarrow> string) \<Rightarrow> string \<Rightarrow> string list \<Rightarrow> string" where
  "musicbrainz_request_hash sha query mbids = sha (str_encode (str_join [CHR 0x00] (query # mbids)))"

definition disabled_result ::
  "(octets \<Rightarrow> string) \<Rightarrow> string \<Rightarrow> timestamp \<Rightarrow> evidence_db \<Rightarrow> evidence_error + ('a lookup_result \<times> evidence_db)" where
  "disabled_result sha name now db =
     bindR (provenance sha name (disabled_hash sha) [] None now ''fresh'') (\<lambda>p. Inr (Disabled p, db))"

text \<open>The \<open>MusicBrainzLookupRequest\<close> all branches share; they differ in the identifiers.\<close>

definition musicbrainz_request_of ::
  "evidence_request \<Rightarrow> string option \<Rightarrow> string option \<Rightarrow> string list \<Rightarrow> musicbrainz_request" where
  "musicbrainz_request_of e recording release recordings =
     \<lparr>mq_query = er_query e, mq_recording = recording, mq_release_title = er_release_title e,
      mq_artist = er_artist e, mq_release = release, mq_recording_title = er_recording_title e,
      mq_duration = map_option py_round (er_duration e), mq_track_number = er_track_number e,
      mq_recordings = recordings\<rparr>"

definition merge_release_candidate ::
  "(string \<times> release_candidate) list \<Rightarrow> release_candidate \<Rightarrow> (string \<times> release_candidate) list" where
  "merge_release_candidate d c = dict_set (c_release_mbid (facts c))
     (case dict_get d (c_release_mbid (facts c)) of
        None \<Rightarrow> c
      | Some existing \<Rightarrow> ReleaseCandidate
          (facts existing\<lparr>c_recording_mbids := dedup (c_recording_mbids (facts existing) @ c_recording_mbids (facts c))\<rparr>)
          (recording_candidates existing)) d"

fun merge_result ::
  "(string \<times> release_candidate) list \<times> live_provenance option \<Rightarrow> musicbrainz_result
   \<Rightarrow> (string \<times> release_candidate) list \<times> live_provenance option" where
  "merge_result (d, _) (Match p c) = (merge_release_candidate d c, Some p)"
| "merge_result (d, _) (Ambiguous p cs) = (foldl merge_release_candidate d cs, Some p)"
| "merge_result (d, p) _ = (d, p)"

fun lookup_each ::
  "(string \<Rightarrow> evidence_db \<Rightarrow> evidence_error + (musicbrainz_result \<times> evidence_db)) \<Rightarrow> string list \<Rightarrow> evidence_db
   \<Rightarrow> evidence_error + (musicbrainz_result list \<times> evidence_db)" where
  "lookup_each f [] db = Inr ([], db)"
| "lookup_each f (m # ms) db = bindR (f m db) (\<lambda>(r, db).
     bindR (lookup_each f ms db) (\<lambda>(rs, db). Inr (r # rs, db)))"

definition combine_results :: "musicbrainz_result list \<Rightarrow> musicbrainz_result" where
  "combine_results rs = (case foldl merge_result ([], None) rs of
     (d, Some p) \<Rightarrow> (case map snd d of [] \<Rightarrow> hd rs | [c] \<Rightarrow> Match p c | cs \<Rightarrow> Ambiguous p cs)
   | (d, None) \<Rightarrow> hd rs)"

definition lookup_musicbrainz_recordings ::
  "codec \<Rightarrow> (octets \<Rightarrow> string) \<Rightarrow> musicbrainz_provider option \<Rightarrow> evidence_request \<Rightarrow> string list \<Rightarrow> timestamp
   \<Rightarrow> evidence_db \<Rightarrow> evidence_error + (musicbrainz_result \<times> evidence_db)" where
  "lookup_musicbrainz_recordings C sha provider e mbids now db =
     bindR (lookup_each (\<lambda>m. lookup_musicbrainz_request C sha provider (er_force e)
              (musicbrainz_request_of e (Some m) None []) (sha (str_encode (''recording:'' @ m))) now) mbids db)
       (\<lambda>(rs, db). Inr (combine_results rs, db))"

definition lookup_musicbrainz ::
  "codec \<Rightarrow> (octets \<Rightarrow> string) \<Rightarrow> musicbrainz_provider option \<Rightarrow> evidence_request \<Rightarrow> acoustid_result \<Rightarrow> timestamp
   \<Rightarrow> evidence_db \<Rightarrow> evidence_error + (musicbrainz_result \<times> evidence_db)" where
  "lookup_musicbrainz C sha provider e acoustid now db =
     (let run = (\<lambda>q h. lookup_musicbrainz_request C sha provider (er_force e) q h now db);
          with_recordings = (\<lambda>recording mbids. run (musicbrainz_request_of e recording None mbids)
            (musicbrainz_request_hash sha (er_query e) mbids));
          by_query = run (musicbrainz_request_of e None None []) (musicbrainz_request_hash sha (er_query e) []) in
      if \<not> er_run_musicbrainz e \<or> provider = None
         \<or> (er_query e = [] \<and> er_recording e = None \<and> er_recordings e = [] \<and> er_release e = None)
      then disabled_result sha ''musicbrainz'' now db
      else case (er_release e, er_recording e) of
        (Some release, Some recording) \<Rightarrow>
          run (musicbrainz_request_of e (Some recording) (Some release) []) (sha (str_encode (''release:'' @ release)))
      | (Some _, None) \<Rightarrow> by_query
      | (None, recording) \<Rightarrow>
          if er_recordings e \<noteq> [] then with_recordings None (er_recordings e)
          else (case recording of
            Some m \<Rightarrow> if er_query e = [] then lookup_musicbrainz_recordings C sha provider e [m] now db
              else with_recordings (Some m) [m]
          | None \<Rightarrow> (case acoustid of
              Match _ v \<Rightarrow> with_recordings None
                (dedup (if re_candidates v \<noteq> [] then map rc_mbid (re_candidates v) else [re_mbid v]))
            | _ \<Rightarrow> by_query)))"

definition lookup_acoustid ::
  "codec \<Rightarrow> (octets \<Rightarrow> string) \<Rightarrow> acoustid_provider option \<Rightarrow> evidence_request \<Rightarrow> timestamp \<Rightarrow> evidence_db
   \<Rightarrow> evidence_error + (acoustid_result \<times> evidence_db)" where
  "lookup_acoustid C sha provider e now db =
     (case (er_run_acoustid e, er_duration e, er_fingerprint e, er_acoustid_case e, provider) of
        (True, Some d, Some fp, Some _, Some lookup) \<Rightarrow>
          (let h = sha (str_encode (''acoustid:v2:'' @ fp)) in
           bindR (cached_snapshot (er_force e) ''acoustid'' h now db) (\<lambda>(cached, db).
             case cached of
               Some s \<Rightarrow> bindR (decode_acoustid C sha s ''cached'') (\<lambda>r. Inr (r, db))
             | None \<Rightarrow> persist_acoustid C sha (lookup fp d now) h now
                 (db\<lparr>ev_acoustid_calls := ev_acoustid_calls db @ [fp]\<rparr>)))
      | _ \<Rightarrow> disabled_result sha ''acoustid'' now db)"

definition lookup_evidence ::
  "codec \<Rightarrow> (octets \<Rightarrow> string) \<Rightarrow> musicbrainz_provider option \<Rightarrow> acoustid_provider option \<Rightarrow> evidence_request
   \<Rightarrow> timestamp \<Rightarrow> evidence_db \<Rightarrow> evidence_error + ((musicbrainz_result \<times> acoustid_result) \<times> evidence_db)" where
  "lookup_evidence C sha musicbrainz acoustid e now db =
     bindR (lookup_acoustid C sha acoustid e now db) (\<lambda>(a, db).
       bindR (lookup_musicbrainz C sha musicbrainz e a now db) (\<lambda>(m, db). Inr ((m, a), db)))"

section \<open>The request schedule\<close>

record reservation =
  rs_start :: timestamp
  rs_token :: string
  rs_lease_until :: timestamp

text \<open>\<open>reserve_next_start\<close> with the random token as an argument. The row is read for update, so the
  reservations of one provider follow each other.\<close>

definition reserve_next_start ::
  "string \<Rightarrow> timestamp \<Rightarrow> duration \<Rightarrow> duration \<Rightarrow> string \<Rightarrow> evidence_db \<Rightarrow> evidence_error + (reservation \<times> evidence_db)" where
  "reserve_next_start name now interval lease token db =
     (if interval \<le> 0 \<or> lease \<le> 0 then Inl (EvValueError ''interval and lease duration must be positive'')
      else case find_row sch_provider name (ev_schedules db) of
        None \<Rightarrow> Inl (EvLookupError (''provider schedule is not seeded: '' @ name))
      | Some s \<Rightarrow>
        (let reserved = max (sch_next_start s) now in
         Inr (\<lparr>rs_start = reserved, rs_token = token, rs_lease_until = now + lease\<rparr>,
           db\<lparr>ev_schedules := update_row sch_provider name (\<lambda>x. x\<lparr>sch_next_start := reserved + interval,
              sch_lease_until := Some (now + lease), sch_lease_token := Some token\<rparr>) (ev_schedules db)\<rparr>)))"

definition validate_lease :: "string \<Rightarrow> string \<Rightarrow> timestamp \<Rightarrow> evidence_db \<Rightarrow> bool" where
  "validate_lease name token now db = (case find_row sch_provider name (ev_schedules db) of
     None \<Rightarrow> False
   | Some s \<Rightarrow> (case (sch_lease_token s, sch_lease_until s) of
       (Some t, Some u) \<Rightarrow> t = token \<and> now < u | _ \<Rightarrow> False))"

fun ensure_provider_schedules :: "string list \<Rightarrow> timestamp \<Rightarrow> evidence_db \<Rightarrow> evidence_db" where
  "ensure_provider_schedules [] start db = db"
| "ensure_provider_schedules (name # names) start db =
     (if find_row sch_provider name (ev_schedules db) \<noteq> None then ensure_provider_schedules names start db
      else ensure_provider_schedules names start (db\<lparr>ev_schedules := ev_schedules db
        @ [\<lparr>sch_provider = name, sch_next_start = start, sch_lease_until = None, sch_lease_token = None\<rparr>]\<rparr>))"

definition default_request_intervals :: "(string \<times> duration) list" where
  "default_request_intervals = [(''musicbrainz'', 1500000), (''acoustid'', 333333)]"

text \<open>\<open>DatabaseRequestRateLimiter.wait\<close> up to its sleep: the delay, or none. \<open>fixed\<close> is the interval
  given to the limiter, \<open>stored\<close> the one read from the runtime settings, \<open>now'\<close> the clock after the
  reservation was committed.\<close>

definition limiter_wait ::
  "string list \<Rightarrow> duration option \<Rightarrow> (string \<Rightarrow> duration option) \<Rightarrow> string \<Rightarrow> timestamp \<Rightarrow> timestamp \<Rightarrow> string
   \<Rightarrow> evidence_db \<Rightarrow> evidence_error + (duration option \<times> evidence_db)" where
  "limiter_wait disabled fixed stored name now now' token db =
     (if name \<in> set disabled \<or> (case fixed of Some i \<Rightarrow> i \<le> 0 | None \<Rightarrow> False) then Inr (None, db)
      else bindR (case fixed of Some i \<Rightarrow> Inr i
          | None \<Rightarrow> (case stored name of Some i \<Rightarrow> Inr i
            | None \<Rightarrow> (case map_of default_request_intervals name of Some i \<Rightarrow> Inr i
                | None \<Rightarrow> Inl (EvValueError name))))
        (\<lambda>interval. if interval \<le> 0 then Inr (None, db)
           else bindR (reserve_next_start name now interval 60000000 token db) (\<lambda>(r, db').
             Inr (if rs_start r - now' > 0 then Some (rs_start r - now') else None, db'))))"

text \<open>A run of reservations: provider, clock and interval of each request, and the starts granted.\<close>

fun reserve_all ::
  "(string \<times> timestamp \<times> duration) list \<Rightarrow> evidence_db \<Rightarrow> evidence_error + ((string \<times> timestamp \<times> duration) list \<times> evidence_db)" where
  "reserve_all [] db = Inr ([], db)"
| "reserve_all ((name, now, interval) # rest) db =
     bindR (reserve_next_start name now interval 60000000 [] db) (\<lambda>(r, db).
       bindR (reserve_all rest db) (\<lambda>(starts, db). Inr ((name, rs_start r, interval) # starts, db)))"

interpretation sched: keyed_write sch_provider
    "\<lambda>x. x\<lparr>sch_next_start := n, sch_lease_until := u, sch_lease_token := t\<rparr>" for n u t
  by unfold_locales simp

lemma reserve_Inr:
  assumes "reserve_next_start name now interval lease token db = Inr (r, db')"
  obtains s where "0 < interval" "find_row sch_provider name (ev_schedules db) = Some s"
    "rs_start r = max (sch_next_start s) now"
    "\<forall>n. find_row sch_provider n (ev_schedules db') =
       (if n = name then Some (s\<lparr>sch_next_start := rs_start r + interval,
          sch_lease_until := Some (now + lease), sch_lease_token := Some token\<rparr>)
        else find_row sch_provider n (ev_schedules db))"
proof -
  have pos: "\<not> (interval \<le> 0 \<or> lease \<le> 0)" using assms by (auto simp: reserve_next_start_def split: if_split_asm)
  then obtain s where s: "find_row sch_provider name (ev_schedules db) = Some s"
    using assms by (auto simp: reserve_next_start_def split: option.splits)
  show ?thesis
    by (rule that [of s]) (use assms pos s in \<open>auto simp: reserve_next_start_def Let_def sched.find_update_same sched.find_update_other\<close>)
qed

definition next_start_after :: "string \<Rightarrow> timestamp \<Rightarrow> evidence_db \<Rightarrow> bool" where
  "next_start_after name t db \<longleftrightarrow> (\<exists>s. find_row sch_provider name (ev_schedules db) = Some s \<and> t \<le> sch_next_start s)"

lemma reserve_all_after:
  assumes "reserve_all rs db = Inr (starts, db')" and "next_start_after name t db"
  shows "\<forall>(n, s, i)\<in>set starts. n = name \<longrightarrow> t \<le> s"
  using assms
proof (induction rs db arbitrary: starts db' rule: reserve_all.induct)
  case (2 name' now interval rest db)
  from "2.prems"(1) obtain r db1 starts1 where a: "reserve_next_start name' now interval 60000000 [] db = Inr (r, db1)"
    "reserve_all rest db1 = Inr (starts1, db')" "starts = (name', rs_start r, interval) # starts1"
    by (auto simp: bindR_Inr_iff)
  obtain s where s: "0 < interval" "find_row sch_provider name' (ev_schedules db) = Some s"
    "rs_start r = max (sch_next_start s) now"
    "\<forall>n. find_row sch_provider n (ev_schedules db1) =
       (if n = name' then Some (s\<lparr>sch_next_start := rs_start r + interval,
          sch_lease_until := Some (now + 60000000), sch_lease_token := Some []\<rparr>)
        else find_row sch_provider n (ev_schedules db))"
    by (rule reserve_Inr [OF a(1)])
  have "next_start_after name t db1" "name' = name \<Longrightarrow> t \<le> rs_start r"
    using "2.prems"(2) s by (auto simp: next_start_after_def)
  moreover from this have "\<forall>(n, s, i)\<in>set starts1. n = name \<longrightarrow> t \<le> s" using "2.IH" a by fastforce
  ultimately show ?case using a(3) by auto
qed auto

lemma reserve_all_spaced:
  "reserve_all rs db = Inr (starts, db') \<Longrightarrow>
   sorted_wrt (\<lambda>(n, s, i) (n', s', _). n = n' \<longrightarrow> s + i \<le> s') starts
   \<and> list_all2 (\<lambda>(n, now, i) (n', s, i'). n = n' \<and> now \<le> s \<and> i = i') rs starts"
proof (induction rs db arbitrary: starts db' rule: reserve_all.induct)
  case (2 name now interval rest db)
  from "2.prems" obtain r db1 starts1 where a: "reserve_next_start name now interval 60000000 [] db = Inr (r, db1)"
    "reserve_all rest db1 = Inr (starts1, db')" "starts = (name, rs_start r, interval) # starts1"
    by (auto simp: bindR_Inr_iff)
  have "next_start_after name (rs_start r + interval) db1" "now \<le> rs_start r"
    by (rule reserve_Inr [OF a(1)]; simp add: next_start_after_def)+
  moreover from this have "\<forall>(n, s, i)\<in>set starts1. n = name \<longrightarrow> rs_start r + interval \<le> s"
    using reserve_all_after [OF a(2)] by blast
  ultimately show ?case using "2.IH" [OF a(2)] a(3) by auto
qed auto

text \<open>C29. However the requests of the worker slots and the clock readings come, the starts granted to
  one provider keep the interval asked for by the earlier request, and no start lies before the
  clock of its own request.\<close>

theorem reservations_spaced:
  assumes "reserve_all rs db = Inr (starts, db')"
  shows "sorted_wrt (\<lambda>(n, s, i) (n', s', _). n = n' \<longrightarrow> s + i \<le> s') starts
    \<and> list_all2 (\<lambda>(n, now, i) (n', s, i'). n = n' \<and> now \<le> s \<and> i = i') rs starts"
  using assms by (rule reserve_all_spaced)

section \<open>Answers from the cache\<close>

lemma first_min_strict:
  assumes "x \<in> set xs" and "\<And>y. y \<in> set xs \<Longrightarrow> y \<noteq> x \<Longrightarrow> f x < f y"
  shows "first_min f xs = Some x"
proof -
  obtain z where z: "first_min f xs = Some z" using assms(1) by (cases "first_min f xs") auto
  have "f z \<le> f x" using first_min_le [OF z assms(1)] .
  then have "z = x" using assms(2) [OF first_min_in [OF z]] by fastforce
  then show ?thesis using z by simp
qed

lemma next_snapshot_id_greater:
  assumes "s \<in> set rows"
  shows "sn_id s < next_snapshot_id rows"
proof -
  have "sn_id s \<le> Max (insert 0 (sn_id ` set rows))" by (rule Max_ge) (use assms in auto)
  then show ?thesis by (simp add: next_snapshot_id_def)
qed

lemma append_snapshot_Inr:
  assumes "append_snapshot row db = Inr db'"
  shows "db' = db\<lparr>ev_snapshots := ev_snapshots db @ [row\<lparr>sn_id := next_snapshot_id (ev_snapshots db)\<rparr>]\<rparr>"
    and "is_sha256_hex (sn_request_hash row)"
  using assms by (auto simp: append_snapshot_def split: if_split_asm)

definition past_snapshots :: "timestamp \<Rightarrow> evidence_db \<Rightarrow> bool" where
  "past_snapshots now db \<longleftrightarrow> (\<forall>s\<in>set (ev_snapshots db). sn_captured s \<le> now)"

lemma fresh_snapshot_frame:
  assumes "fresh_snapshot name h now db = Inr (x, db')" "past_snapshots now db"
  shows "past_snapshots now db'" "ev_musicbrainz_calls db' = ev_musicbrainz_calls db"
  using assms by (auto simp: fresh_snapshot_def past_snapshots_def Let_def bindR_Inr_iff
      dest!: append_snapshot_Inr(1) split: option.splits if_split_asm)

lemma newest_appended:
  assumes "past_snapshots now db" "sn_captured row = now"
  defines "row' \<equiv> row\<lparr>sn_id := next_snapshot_id (ev_snapshots db)\<rparr>"
  shows "newest_relevant (sn_provider row) (sn_request_hash row) (db\<lparr>ev_snapshots := ev_snapshots db @ [row']\<rparr>) = Some row'"
  unfolding newest_relevant_def
proof (rule first_min_strict)
  fix y assume "y \<in> set (filter (\<lambda>s. sn_provider s = sn_provider row \<and> sn_request_hash s = sn_request_hash row)
      (ev_snapshots (db\<lparr>ev_snapshots := ev_snapshots db @ [row']\<rparr>)))" "y \<noteq> row'"
  then have y: "y \<in> set (ev_snapshots db)" by (auto split: if_split_asm)
  then have "sn_captured y \<le> now" "sn_id y < sn_id row'"
    using assms by (auto simp: past_snapshots_def next_snapshot_id_greater)
  then show "(- sn_captured row', - sn_id row') < (- sn_captured y, - sn_id y)"
    using assms(2) by (auto simp: row'_def less_prod_def)
qed (simp add: row'_def)

text \<open>What a lookup answers from the snapshot of the provider's result \<open>a\<close>.\<close>

definition replayed :: "(octets \<Rightarrow> string) \<Rightarrow> string \<Rightarrow> timestamp \<Rightarrow> musicbrainz_result \<Rightarrow> musicbrainz_result" where
  "replayed sha h now a = with_musicbrainz_provenance
     \<lparr>lp_provider = ''musicbrainz'', lp_request_hash = h, lp_sha256 = sha (lp_body (provenance_of a)),
      lp_http_status = lp_http_status (provenance_of a), lp_captured = now, lp_state = ''cached'',
      lp_body = lp_body (provenance_of a)\<rparr>
     (case a of Ambiguous p _ \<Rightarrow> Ambiguous p [] | _ \<Rightarrow> a)"

definition codec_keeps :: "codec \<Rightarrow> musicbrainz_payload \<Rightarrow> bool" where
  "codec_keeps C p \<longleftrightarrow> dump_musicbrainz C p \<noteq> [] \<and> validate_musicbrainz C (dump_musicbrainz C p) = Some p"

lemma decode_stored:
  assumes "codec_keeps C (musicbrainz_payload_of a)" "octets_ok (lp_body (provenance_of a))"
    and "sn_body s = Some (serialize_musicbrainz_snapshot C a)" "sn_request_hash s = h" "sn_captured s = now"
    and "sn_http_status s = lp_http_status (provenance_of a)"
    and p: "provenance sha ''musicbrainz'' h (lp_body (provenance_of a)) (lp_http_status (provenance_of a)) now ''cached'' = Inr p"
  shows "decode_musicbrainz C sha s ''cached'' = Inr (replayed sha h now a)"
proof -
  have parse: "parse_musicbrainz_snapshot C (sn_body s)
      = Some (outcome_of a, lp_body (provenance_of a), result_candidates a)"
    using assms by (simp add: parse_musicbrainz_snapshot_def codec_keeps_def serialize_musicbrainz_snapshot_def
        musicbrainz_payload_of_def b64_round_trip)
  have p': "p = \<lparr>lp_provider = ''musicbrainz'', lp_request_hash = h, lp_sha256 = sha (lp_body (provenance_of a)),
      lp_http_status = lp_http_status (provenance_of a), lp_captured = now, lp_state = ''cached'',
      lp_body = lp_body (provenance_of a)\<rparr>"
    using p by (auto simp: provenance_def live_provenance_of_def split: if_split_asm)
  show ?thesis
    unfolding decode_musicbrainz_def assms(4-6) parse using p
    by (cases a) (simp_all add: p' replayed_def fixture_case_of_def fixture_cases_def)
qed

lemma store_result_Inr:
  assumes "store_result sha name descriptor h raw a now db = Inr (p, db')"
  defines "row \<equiv> \<lparr>sn_id = next_snapshot_id (ev_snapshots db), sn_provider = name, sn_request_hash = h,
      sn_descriptor = descriptor, sn_sha256 = sha raw, sn_body = Some raw, sn_captured = now,
      sn_outcome = outcome_of a, sn_state = ''fresh'', sn_age_seconds = None,
      sn_http_status = lp_http_status (provenance_of a)\<rparr>"
  shows "provenance sha name h raw (lp_http_status (provenance_of a)) now ''fresh'' = Inr p"
    and "db' = db\<lparr>ev_snapshots := ev_snapshots db @ [row]\<rparr>"
proof -
  obtain q where q: "provenance sha name h raw (lp_http_status (provenance_of a)) now ''fresh'' = Inr q"
    using assms(1) by (auto simp: store_result_def bindR_Inr_iff)
  then have f: "lp_sha256 q = sha raw" "lp_http_status q = lp_http_status (provenance_of a)"
    by (auto simp: provenance_def live_provenance_of_def split: if_split_asm)
  show "provenance sha name h raw (lp_http_status (provenance_of a)) now ''fresh'' = Inr p"
    using assms(1) q by (auto simp: store_result_def bindR_Inr_iff)
  show "db' = db\<lparr>ev_snapshots := ev_snapshots db @ [row]\<rparr>"
    using assms(1) q f by (auto simp: store_result_def bindR_Inr_iff row_def dest!: append_snapshot_Inr(1))
qed

lemma asked_provider:
  assumes "lookup_musicbrainz_request C sha (Some provider) force q h now db = Inr (r, db')"
    and "ev_musicbrainz_calls db' = ev_musicbrainz_calls db @ [q]" and "past_snapshots now db"
  obtains db1 where "past_snapshots now db1" "persist_musicbrainz C sha (provider q now) h now db1 = Inr (r, db')"
proof -
  obtain cached db1 where c: "cached_snapshot force ''musicbrainz'' h now db = Inr (cached, db1)"
    using assms(1) by (auto simp: lookup_musicbrainz_request_def bindR_Inr_iff)
  have f: "past_snapshots now db1" "ev_musicbrainz_calls db1 = ev_musicbrainz_calls db"
    using c assms(3) by (auto simp: cached_snapshot_def dest: fresh_snapshot_frame split: if_split_asm)
  have "cached = None"
  proof (cases cached)
    case (Some s)
    then have "db' = db1" using assms(1) c by (auto simp: lookup_musicbrainz_request_def bindR_Inr_iff)
    then show ?thesis using f assms(2) by simp
  qed
  then have "persist_musicbrainz C sha (provider q now) h now
      (db1\<lparr>ev_musicbrainz_calls := ev_musicbrainz_calls db1 @ [q]\<rparr>) = Inr (r, db')"
    using assms(1) c by (simp add: lookup_musicbrainz_request_def)
  moreover have "past_snapshots now (db1\<lparr>ev_musicbrainz_calls := ev_musicbrainz_calls db1 @ [q]\<rparr>)"
    using f by (simp add: past_snapshots_def)
  ultimately show ?thesis by (rule that [rotated])
qed

text \<open>C28. Once the provider was asked, the same request is answered for a day from the snapshot alone:
  with the same outcome, response and capture time as the provider's result, whatever provider is
  configured then. This holds for failures too; and an ambiguous result comes back without its
  candidates, which the first answer still had.\<close>

theorem cached_answer_replayed:
  assumes asked: "lookup_musicbrainz_request C sha (Some provider) force q h now db = Inr (r, db')"
      "ev_musicbrainz_calls db' = ev_musicbrainz_calls db @ [q]"
    and past: "past_snapshots now db"
    and codec: "codec_keeps C (musicbrainz_payload_of (provider q now))"
    and body: "octets_ok (lp_body (provenance_of (provider q now)))"
    and sha: "\<forall>b. is_sha256_hex (sha b)"
    and later: "now' < now + freshness"
  shows "lookup_musicbrainz_request C sha provider' False q' h now' db' = Inr (replayed sha h now (provider q now), db')
    \<and> result_candidates r = result_candidates (provider q now)
    \<and> result_candidates (replayed sha h now (provider q now))
        = (case provider q now of Match _ c \<Rightarrow> [c] | _ \<Rightarrow> [])"
proof -
  let ?a = "provider q now"
  let ?raw = "serialize_musicbrainz_snapshot C ?a"
  obtain db1 where db1: "past_snapshots now db1" "persist_musicbrainz C sha ?a h now db1 = Inr (r, db')"
    using asked_provider [OF asked past] .
  then obtain p where p: "store_result sha ''musicbrainz'' ''musicbrainz v2 lookup'' h ?raw ?a now db1 = Inr (p, db')"
    and r: "r = with_musicbrainz_provenance p ?a"
    by (auto simp: persist_musicbrainz_def bindR_Inr_iff)
  note s = store_result_Inr [OF p]
  obtain row where row: "newest_relevant ''musicbrainz'' h db' = Some row" "sn_body row = Some ?raw"
    "sn_request_hash row = h" "sn_captured row = now" "sn_http_status row = lp_http_status (provenance_of ?a)"
    using newest_appended [OF db1(1), where row = "\<lparr>sn_id = next_snapshot_id (ev_snapshots db1), sn_provider = ''musicbrainz'',
      sn_request_hash = h, sn_descriptor = ''musicbrainz v2 lookup'', sn_sha256 = sha ?raw, sn_body = Some ?raw,
      sn_captured = now, sn_outcome = outcome_of ?a, sn_state = ''fresh'', sn_age_seconds = None,
      sn_http_status = lp_http_status (provenance_of ?a)\<rparr>"] s(2) by simp
  have ne: "?raw \<noteq> []" using codec by (simp add: codec_keeps_def serialize_musicbrainz_snapshot_def)
  obtain p' where p': "provenance sha ''musicbrainz'' h (lp_body (provenance_of ?a))
      (lp_http_status (provenance_of ?a)) now ''cached'' = Inr p'"
    using s(1) sha by (auto simp: provenance_def live_provenance_of_def split: if_split_asm)
  have "fresh_snapshot ''musicbrainz'' h now' db' = Inr (Some row, db')"
    using row ne later by (simp add: fresh_snapshot_def)
  then have "lookup_musicbrainz_request C sha provider' False q' h now' db' = Inr (replayed sha h now ?a, db')"
    using decode_stored [OF codec body row(2-5) p']
    by (simp add: lookup_musicbrainz_request_def cached_snapshot_def)
  moreover have "result_candidates r = result_candidates ?a" by (cases ?a) (simp_all add: r)
  moreover have "result_candidates (replayed sha h now ?a) = (case ?a of Match _ c \<Rightarrow> [c] | _ \<Rightarrow> [])"
    by (cases ?a) (simp_all add: replayed_def)
  ultimately show ?thesis by blast
qed

section \<open>Witnesses\<close>

definition scheduled_db :: evidence_db where
  "scheduled_db = ensure_provider_schedules [''musicbrainz'', ''acoustid''] 0
     \<lparr>ev_snapshots = [], ev_schedules = [], ev_musicbrainz_calls = [], ev_acoustid_calls = []\<rparr>"

text \<open>Two slots ask for MusicBrainz, the second with an earlier clock, and one for AcoustID in between.\<close>

definition slot_requests :: "(string \<times> timestamp \<times> timestamp) list" where
  "slot_requests = [(''musicbrainz'', 100, 1500000), (''acoustid'', 50, 400000), (''musicbrainz'', 7, 1500000)]"

lemma slots_granted: "\<exists>db'. reserve_all slot_requests scheduled_db =
    Inr ([(''musicbrainz'', 100, 1500000), (''acoustid'', 50, 400000), (''musicbrainz'', 1500100, 1500000)], db')"
  by (simp add: slot_requests_def scheduled_db_def reserve_next_start_def find_row_def update_row_def Let_def)

theorem reservations_spaced_witness:
  "\<exists>starts db'. reserve_all slot_requests scheduled_db = Inr (starts, db')
     \<and> starts = [(''musicbrainz'', 100, 1500000), (''acoustid'', 50, 400000), (''musicbrainz'', 1500100, 1500000)]
     \<and> sorted_wrt (\<lambda>(n, s, i) (n', s', _). n = n' \<longrightarrow> s + i \<le> s') starts
     \<and> list_all2 (\<lambda>(n, now, i) (n', s, i'). n = n' \<and> now \<le> s \<and> i = i') slot_requests starts"
proof -
  obtain db' where db': "reserve_all slot_requests scheduled_db =
      Inr ([(''musicbrainz'', 100, 1500000), (''acoustid'', 50, 400000), (''musicbrainz'', 1500100, 1500000)], db')"
    using slots_granted by blast
  then show ?thesis using reservations_spaced [OF db'] by blast
qed

definition sample_sha :: "octets \<Rightarrow> string" where
  "sample_sha b = replicate 64 (CHR ''a'')"

definition sample_ambiguous :: musicbrainz_result where
  "sample_ambiguous = Ambiguous \<lparr>lp_provider = ''musicbrainz'', lp_request_hash = replicate 64 (CHR ''a''),
     lp_sha256 = replicate 64 (CHR ''a''), lp_http_status = Some 200, lp_captured = 0, lp_state = ''fresh'',
     lp_body = [123, 125]\<rparr> [named_candidate ''r1'' ''Odelay'' ''Beck'', named_candidate ''r2'' ''Odelay'' ''Beck'']"

definition sample_codec :: codec where
  "sample_codec = \<lparr>dump_musicbrainz = \<lambda>p. [1], validate_musicbrainz = \<lambda>b. Some (musicbrainz_payload_of sample_ambiguous),
     dump_acoustid = \<lambda>p. [1], validate_acoustid = \<lambda>b. None, validate_fixture = \<lambda>b. None\<rparr>"

definition sample_musicbrainz_request :: musicbrainz_request where
  "sample_musicbrainz_request = \<lparr>mq_query = ''q'', mq_recording = None, mq_release_title = None, mq_artist = None,
     mq_release = None, mq_recording_title = None, mq_duration = None, mq_track_number = None, mq_recordings = []\<rparr>"

definition empty_evidence :: evidence_db where
  "empty_evidence = \<lparr>ev_snapshots = [], ev_schedules = [], ev_musicbrainz_calls = [], ev_acoustid_calls = []\<rparr>"

lemma sample_sha_hex: "is_sha256_hex (sample_sha b)"
  by (simp add: sample_sha_def is_sha256_hex_def)

lemma sample_descriptor: "descriptor_allowed ''musicbrainz v2 lookup''"
  by code_simp

lemma sample_asked:
  "\<exists>r db'. lookup_musicbrainz_request sample_codec sample_sha (Some (\<lambda>q now. sample_ambiguous)) False
     sample_musicbrainz_request (replicate 64 (CHR ''a'')) 5 empty_evidence = Inr (r, db')
     \<and> ev_musicbrainz_calls db' = ev_musicbrainz_calls empty_evidence @ [sample_musicbrainz_request]"
  using sample_sha_hex sample_descriptor
  by (simp add: lookup_musicbrainz_request_def cached_snapshot_def fresh_snapshot_def newest_relevant_def
      empty_evidence_def persist_musicbrainz_def store_result_def provenance_def live_provenance_of_def
      append_snapshot_def is_sha256_hex_def sample_ambiguous_def)

theorem cached_answer_replayed_witness:
  "\<exists>r db'. lookup_musicbrainz_request sample_codec sample_sha (Some (\<lambda>q now. sample_ambiguous)) False
       sample_musicbrainz_request (replicate 64 (CHR ''a'')) 5 empty_evidence = Inr (r, db')
     \<and> lookup_musicbrainz_request sample_codec sample_sha None False
       sample_musicbrainz_request (replicate 64 (CHR ''a'')) 3600000000 db'
         = Inr (replayed sample_sha (replicate 64 (CHR ''a'')) 5 sample_ambiguous, db')
     \<and> length (result_candidates r) = 2
     \<and> result_candidates (replayed sample_sha (replicate 64 (CHR ''a'')) 5 sample_ambiguous) = []"
proof -
  obtain r db' where a: "lookup_musicbrainz_request sample_codec sample_sha (Some (\<lambda>q now. sample_ambiguous)) False
      sample_musicbrainz_request (replicate 64 (CHR ''a'')) 5 empty_evidence = Inr (r, db')"
    "ev_musicbrainz_calls db' = ev_musicbrainz_calls empty_evidence @ [sample_musicbrainz_request]"
    using sample_asked by blast
  have p: "past_snapshots 5 empty_evidence" by (simp add: past_snapshots_def empty_evidence_def)
  have c: "codec_keeps sample_codec (musicbrainz_payload_of sample_ambiguous)"
    by (simp add: codec_keeps_def sample_codec_def)
  have b: "octets_ok (lp_body (provenance_of sample_ambiguous))" by (simp add: octets_ok_def sample_ambiguous_def)
  have l: "3600000000 < 5 + freshness" by (simp add: freshness_def)
  from cached_answer_replayed [OF a p c b, of "3600000000" None] sample_sha_hex l a(1)
  show ?thesis by (simp add: sample_ambiguous_def)
qed

end
