(* ===== verification/Lrc.thy ===== *)
theory Lrc imports Base64 "HOL-Library.Sublist" begin

text \<open>
  \<^bold>\<open>Synced lyrics\<close> (\<open>services/lyrics/validate.py\<close>): validation of an LRC text against the
  duration of the published audio, the path of the sidecar and its atomic replacement.

  Lyric text is a list of Unicode code points, since it comes from outside; the decimal digits and
  white space are those of Unicode 16, which the regular expression \<^verbatim>\<open>\d\<close>, \<open>int\<close> and \<open>strip\<close> use.
  A timestamp is counted in milliseconds. The program computes it as a float of seconds; the
  comparisons agree for durations below \<open>2^40\<close> seconds. \<open>int\<close> refuses more than 4300 digits and a
  fraction is added in floating point, which overflows for huge minutes: both raise, and both are
  modelled.
\<close>

section \<open>Code points\<close>

type_synonym codepoints = "nat list"

definition decimal_zeros :: "nat list" where
  "decimal_zeros =
    [48, 1632, 1776, 1984, 2406, 2534, 2662, 2790, 2918, 3046, 3174, 3302,
     3430, 3558, 3664, 3792, 3872, 4160, 4240, 6112, 6160, 6470, 6608, 6784,
     6800, 6992, 7088, 7232, 7248, 42528, 43216, 43264, 43472, 43504, 43600, 44016,
     65296, 66720, 68912, 68928, 69734, 69872, 69942, 70096, 70384, 70736, 70864, 71248,
     71360, 71376, 71386, 71472, 71904, 72016, 72688, 72784, 73040, 73120, 73552, 90416,
     92768, 92864, 93008, 93552, 118000, 120782, 120792, 120802, 120812, 120822, 123200, 123632,
     124144, 124401, 125264, 130032]"

definition decimal_value :: "nat \<Rightarrow> nat option" where
  "decimal_value c = map_option (\<lambda>z. c - z) (find (\<lambda>z. z \<le> c \<and> c < z + 10) decimal_zeros)"

definition is_decimal :: "nat \<Rightarrow> bool" where
  "is_decimal c \<longleftrightarrow> decimal_value c \<noteq> None"

definition cp_space :: "nat \<Rightarrow> bool" where
  "cp_space c \<longleftrightarrow> (9 \<le> c \<and> c \<le> 13) \<or> (28 \<le> c \<and> c \<le> 32) \<or> (8192 \<le> c \<and> c \<le> 8202)
     \<or> c \<in> {133, 160, 5760, 8232, 8233, 8239, 8287, 12288}"

definition cp_strip :: "codepoints \<Rightarrow> codepoints" where
  "cp_strip s = rev (dropWhile cp_space (rev (dropWhile cp_space s)))"

definition line_break :: "nat \<Rightarrow> bool" where
  "line_break c \<longleftrightarrow> (10 \<le> c \<and> c \<le> 13) \<or> (28 \<le> c \<and> c \<le> 30) \<or> c \<in> {133, 8232, 8233}"

text \<open>\<open>s.splitlines()\<close>; a carriage return and line feed are one break, and a final break opens no
  further line. \<open>w\<close> holds the reversed current line.\<close>

fun split_lines :: "codepoints \<Rightarrow> codepoints \<Rightarrow> codepoints list" where
  "split_lines w [] = (if w = [] then [] else [rev w])"
| "split_lines w (c # s) =
     (if line_break c then rev w # split_lines [] (if c = 13 \<and> take 1 s = [10] then tl s else s)
      else split_lines (c # w) s)"

definition cp_splitlines :: "codepoints \<Rightarrow> codepoints list" where
  "cp_splitlines s = split_lines [] s"

section \<open>UTF-8\<close>

definition surrogate :: "nat \<Rightarrow> bool" where
  "surrogate n \<longleftrightarrow> 55296 \<le> n \<and> n \<le> 57343"

definition utf8_encode_point :: "nat \<Rightarrow> octets option" where
  "utf8_encode_point n =
     (if n < 128 then Some [n]
      else if n < 2048 then Some [192 + n div 64, 128 + n mod 64]
      else if surrogate n then None
      else if n < 65536 then Some [224 + n div 4096, 128 + n div 64 mod 64, 128 + n mod 64]
      else Some [240 + n div 262144, 128 + n div 4096 mod 64, 128 + n div 64 mod 64, 128 + n mod 64])"

fun utf8_encode :: "codepoints \<Rightarrow> octets option" where
  "utf8_encode [] = Some []"
| "utf8_encode (n # s) = (case (utf8_encode_point n, utf8_encode s) of
     (Some a, Some b) \<Rightarrow> Some (a @ b) | _ \<Rightarrow> None)"

definition cont :: "nat \<Rightarrow> bool" where
  "cont b \<longleftrightarrow> 128 \<le> b \<and> b < 192"

text \<open>The first code point of a strict decoder: no overlong form, no surrogate, nothing above
  \<open>U+10FFFF\<close>.\<close>

fun utf8_two :: "nat \<Rightarrow> octets \<Rightarrow> (nat \<times> octets) option" where
  "utf8_two a (b # r) = (if cont b then Some ((a - 192) * 64 + (b - 128), r) else None)"
| "utf8_two a _ = None"

fun utf8_three :: "nat \<Rightarrow> octets \<Rightarrow> (nat \<times> octets) option" where
  "utf8_three a (b # c # r) = (let n = (a - 224) * 4096 + (b - 128) * 64 + (c - 128) in
     if cont b \<and> cont c \<and> 2048 \<le> n \<and> \<not> surrogate n then Some (n, r) else None)"
| "utf8_three a _ = None"

fun utf8_four :: "nat \<Rightarrow> octets \<Rightarrow> (nat \<times> octets) option" where
  "utf8_four a (b # c # d # r) =
     (let n = (a - 240) * 262144 + (b - 128) * 4096 + (c - 128) * 64 + (d - 128) in
      if cont b \<and> cont c \<and> cont d \<and> 65536 \<le> n \<and> n < 1114112 then Some (n, r) else None)"
| "utf8_four a _ = None"

fun utf8_point :: "octets \<Rightarrow> (nat \<times> octets) option" where
  "utf8_point [] = None"
| "utf8_point (a # r) =
     (if a < 128 then Some (a, r)
      else if 194 \<le> a \<and> a < 224 then utf8_two a r
      else if 224 \<le> a \<and> a < 240 then utf8_three a r
      else if 240 \<le> a \<and> a < 245 then utf8_four a r
      else None)"

lemma some_if_tail: "(if P then Some (x, y) else None) = Some (n, r) \<Longrightarrow> y = r"
  by (simp split: if_split_asm)

lemma utf8_two_tail:
  assumes "utf8_two a bs = Some (n, r)"
  shows "\<exists>b. bs = b # r"
proof (cases bs)
  case (Cons b s)
  have "s = r" by (rule some_if_tail [OF assms [unfolded Cons utf8_two.simps]])
  then show ?thesis using Cons by blast
qed (use assms in simp)

lemma utf8_three_tail:
  assumes "utf8_three a bs = Some (n, r)"
  shows "\<exists>b c. bs = b # c # r"
proof (cases "(a, bs)" rule: utf8_three.cases)
  case (1 a' b c s)
  then have e: "bs = b # c # s" by simp
  have "s = r" by (rule some_if_tail [OF assms [unfolded e utf8_three.simps Let_def]])
  then show ?thesis using e by blast
qed (use assms in simp_all)

lemma utf8_four_tail:
  assumes "utf8_four a bs = Some (n, r)"
  shows "\<exists>b c d. bs = b # c # d # r"
proof (cases "(a, bs)" rule: utf8_four.cases)
  case (1 a' b c d s)
  then have e: "bs = b # c # d # s" by simp
  have "s = r" by (rule some_if_tail [OF assms [unfolded e utf8_four.simps Let_def]])
  then show ?thesis using e by blast
qed (use assms in simp_all)

lemma utf8_point_shorter: "utf8_point bs = Some (n, r) \<Longrightarrow> length r < length bs"
  by (cases bs) (auto dest!: utf8_two_tail utf8_three_tail utf8_four_tail split: if_split_asm)

function utf8_decode :: "octets \<Rightarrow> codepoints option" where
  "utf8_decode bs = (if bs = [] then Some [] else
     case utf8_point bs of None \<Rightarrow> None | Some (n, r) \<Rightarrow> map_option ((#) n) (utf8_decode r))"
  by pat_completeness auto

termination utf8_decode
  by (relation "measure length") (auto dest: utf8_point_shorter)

declare utf8_decode.simps [simp del]

definition scalar :: "nat \<Rightarrow> bool" where
  "scalar n \<longleftrightarrow> n < 1114112 \<and> \<not> surrogate n"

lemma split64: "(n::nat) div 64 * 64 + n mod 64 = n" "n div 4096 = n div 64 div 64" "n div 262144 = n div 64 div 64 div 64"
  by (simp_all add: div_mult2_eq [symmetric])

lemma utf8_point_encoded:
  assumes "scalar n" and "utf8_encode_point n = Some a"
  shows "utf8_point (a @ r) = Some (n, r)"
proof -
  have b: "cont (128 + m mod 64)" for m by (simp add: cont_def)
  have m: "n div 64 div 64 * 4096 + n div 64 mod 64 * 64 + n mod 64 = n"
    using split64(1) [of n] split64(1) [of "n div 64"] by linarith
  have l: "n div 64 div 64 div 64 * 262144 + n div 64 div 64 mod 64 * 4096 + n div 64 mod 64 * 64 + n mod 64 = n"
    using split64(1) [of n] split64(1) [of "n div 64"] split64(1) [of "n div 64 div 64"] by linarith
  consider "n < 128" | "128 \<le> n" "n < 2048" | "2048 \<le> n" "n < 65536" | "65536 \<le> n" by linarith
  then show ?thesis
  proof cases
    case 1
    then show ?thesis using assms by (auto simp: utf8_encode_point_def)
  next
    case 2
    then have "192 + n div 64 < 224" "194 \<le> 192 + n div 64" by auto
    then show ?thesis using 2 assms b [of n] split64(1) [of n] by (auto simp: utf8_encode_point_def)
  next
    case 3
    then have "n div 64 div 64 < 16" by (simp add: div_mult2_eq [symmetric])
    then show ?thesis using 3 assms b m by (auto simp: utf8_encode_point_def split64 scalar_def Let_def)
  next
    case 4
    then have "n div 64 div 64 div 64 < 5" using assms
      by (simp add: scalar_def div_mult2_eq [symmetric] div_less_iff_less_mult)
    then show ?thesis using 4 assms b l by (auto simp: utf8_encode_point_def split64 scalar_def Let_def)
  qed
qed

lemma utf8_encode_point_nonempty: "utf8_encode_point n = Some a \<Longrightarrow> a \<noteq> []"
  by (auto simp: utf8_encode_point_def split: if_split_asm)

lemma utf8_round_trip:
  "\<forall>n\<in>set s. n < 1114112 \<Longrightarrow> utf8_encode s = Some bs \<Longrightarrow> utf8_decode bs = Some s"
proof (induction s arbitrary: bs)
  case (Cons n s)
  from Cons.prems(2) obtain a b where a: "utf8_encode_point n = Some a" "utf8_encode s = Some b" "bs = a @ b"
    by (auto split: option.splits)
  moreover have "scalar n" using Cons.prems(1) a(1)
    by (auto simp: scalar_def utf8_encode_point_def surrogate_def split: if_split_asm)
  ultimately have "utf8_point bs = Some (n, b)" "bs \<noteq> []"
    using utf8_point_encoded utf8_encode_point_nonempty by auto
  then show ?case using Cons.IH [of b] Cons.prems(1) a by (subst utf8_decode.simps) auto
qed (simp add: utf8_decode.simps)

section \<open>Lines of an LRC text\<close>

datatype lrc_error = ValueError | OverflowError

definition expect :: "nat \<Rightarrow> codepoints \<Rightarrow> codepoints option" where
  "expect c s = (case s of [] \<Rightarrow> None | x # r \<Rightarrow> if x = c then Some r else None)"

definition ascii_alpha :: "nat \<Rightarrow> bool" where
  "ascii_alpha c \<longleftrightarrow> (65 \<le> c \<and> c \<le> 90) \<or> (97 \<le> c \<and> c \<le> 122)"

text \<open>\<open>_METADATA_LINE\<close>: \<^verbatim>\<open>[name:anything without a bracket]\<close>.\<close>

definition metadata_line :: "codepoints \<Rightarrow> bool" where
  "metadata_line s = (case expect 91 s of None \<Rightarrow> False | Some r \<Rightarrow>
     (case r of [] \<Rightarrow> False | c # r \<Rightarrow> ascii_alpha c
        \<and> (let name_char = (\<lambda>x. ascii_alpha x \<or> (48 \<le> x \<and> x \<le> 57) \<or> x = 95) in
           case expect 58 (dropWhile name_char r) of None \<Rightarrow> False
           | Some body \<Rightarrow> body \<noteq> [] \<and> last body = 93 \<and> 93 \<notin> set (butlast body))))"

text \<open>One match of \<open>_TIMESTAMP\<close>: sign, minutes, the two seconds digits and the fraction, as text.\<close>

record stamp =
  st_negative :: bool
  st_minutes :: codepoints
  st_seconds :: codepoints
  st_fraction :: codepoints

definition scan_seconds :: "codepoints \<Rightarrow> (codepoints \<times> codepoints) option" where
  "scan_seconds s = (case s of a # b # r \<Rightarrow>
     if 48 \<le> a \<and> a \<le> 53 \<and> is_decimal b then Some ([a, b], r) else None | _ \<Rightarrow> None)"

definition scan_fraction :: "codepoints \<Rightarrow> (codepoints \<times> codepoints) option" where
  "scan_fraction s = (case s of [] \<Rightarrow> None | c # r \<Rightarrow>
     if c = 93 then Some ([], r)
     else if c = 46 \<or> c = 58 then
       (let ds = takeWhile is_decimal r in
        if 1 \<le> length ds \<and> length ds \<le> 3
        then map_option (\<lambda>r. (ds, r)) (expect 93 (dropWhile is_decimal r)) else None)
     else None)"

definition scan_time :: "bool \<Rightarrow> codepoints \<Rightarrow> (stamp \<times> codepoints) option" where
  "scan_time negative s = (let minutes = takeWhile is_decimal s in
     if length minutes < 2 then None else
     case expect 58 (dropWhile is_decimal s) of None \<Rightarrow> None | Some r \<Rightarrow>
       (case scan_seconds r of None \<Rightarrow> None | Some (seconds, r) \<Rightarrow>
         (case scan_fraction r of None \<Rightarrow> None | Some (fraction, r) \<Rightarrow>
            Some (\<lparr>st_negative = negative, st_minutes = minutes, st_seconds = seconds, st_fraction = fraction\<rparr>, r))))"

definition scan_stamp :: "codepoints \<Rightarrow> (stamp \<times> codepoints) option" where
  "scan_stamp s = (case expect 91 s of None \<Rightarrow> None
     | Some r \<Rightarrow> (case expect 45 r of Some r' \<Rightarrow> scan_time True r' | None \<Rightarrow> scan_time False r))"

lemma expect_shorter: "expect c s = Some r \<Longrightarrow> length r < length s"
  by (auto simp: expect_def split: list.splits if_split_asm)

lemma scan_seconds_shorter: "scan_seconds s = Some (x, r) \<Longrightarrow> length r < length s"
  by (auto simp: scan_seconds_def split: list.splits if_split_asm)

lemma scan_fraction_shorter:
  assumes "scan_fraction s = Some (x, r)"
  shows "length r < length s"
proof (cases s)
  case (Cons c q)
  have "length r < length s" if e: "expect 93 (dropWhile is_decimal q) = Some r"
    using expect_shorter [OF e] length_dropWhile_le [of is_decimal q] Cons by simp
  then show ?thesis using assms Cons by (auto simp: scan_fraction_def Let_def split: if_split_asm)
qed (use assms in \<open>simp add: scan_fraction_def\<close>)

lemma scan_time_shorter:
  assumes "scan_time negative s = Some (t, r)"
  shows "length r < length s"
proof -
  obtain r1 where 1: "expect 58 (dropWhile is_decimal s) = Some r1"
    using assms by (cases "expect 58 (dropWhile is_decimal s)") (simp_all add: scan_time_def Let_def split: if_split_asm)
  obtain x r2 where 2: "scan_seconds r1 = Some (x, r2)"
    using assms 1 by (cases "scan_seconds r1") (auto simp: scan_time_def Let_def split: if_split_asm)
  obtain y where 3: "scan_fraction r2 = Some (y, r)"
    using assms 1 2 by (cases "scan_fraction r2") (auto simp add: scan_time_def Let_def split: if_split_asm)
  show ?thesis
    using expect_shorter [OF 1] scan_seconds_shorter [OF 2] scan_fraction_shorter [OF 3]
      length_dropWhile_le [of is_decimal s] by linarith
qed

lemma scan_stamp_shorter: "scan_stamp s = Some (t, r) \<Longrightarrow> length r < length s"
  by (auto simp: scan_stamp_def dest!: expect_shorter scan_time_shorter split: option.splits)

text \<open>The stamps at the start of a line and the text behind them: \<open>_TIMED_LINE\<close> with
  \<open>_TIMESTAMP.finditer\<close> over its first group.\<close>

function scan_stamps :: "codepoints \<Rightarrow> stamp list \<times> codepoints" where
  "scan_stamps s = (case scan_stamp s of None \<Rightarrow> ([], s)
     | Some (t, r) \<Rightarrow> (case scan_stamps r of (ts, rest) \<Rightarrow> (t # ts, rest)))"
  by pat_completeness auto

termination scan_stamps
  by (relation "measure length") (auto dest: scan_stamp_shorter)

declare scan_stamps.simps [simp del]

definition digits_value :: "codepoints \<Rightarrow> int" where
  "digits_value ds = foldl (\<lambda>v d. v * 10 + int (the (decimal_value d))) 0 ds"

text \<open>\<open>int(text)\<close> with the default limit on the number of digits.\<close>

definition py_int :: "codepoints \<Rightarrow> lrc_error + int" where
  "py_int ds = (if 4300 < length ds then Inl ValueError else Inr (digits_value ds))"

text \<open>The least integer that does not round to a float.\<close>

definition float_limit :: int where
  "float_limit = 2 ^ 1024 - 2 ^ 970"

definition stamp_ms :: "stamp \<Rightarrow> lrc_error + int" where
  "stamp_ms t = bindR (py_int (st_minutes t)) (\<lambda>m.
     let seconds = m * 60 + digits_value (st_seconds t); fr = st_fraction t;
         sign = (\<lambda>ms. if st_negative t then - ms else ms) in
     if fr = [] then Inr (sign (seconds * 1000))
     else if float_limit \<le> seconds then Inl OverflowError
     else Inr (sign (seconds * 1000 + digits_value fr * 10 ^ (3 - length fr))))"

fun mapR :: "('a \<Rightarrow> 'e + 'b) \<Rightarrow> 'a list \<Rightarrow> 'e + 'b list" where
  "mapR f [] = Inr []"
| "mapR f (x # xs) = bindR (f x) (\<lambda>y. bindR (mapR f xs) (\<lambda>ys. Inr (y # ys)))"

definition timestamps :: "stamp list \<Rightarrow> lrc_error + int list" where
  "timestamps ts = mapR stamp_ms ts"

section \<open>Validation\<close>

datatype lyrics_validation =
    SyncedLyricsValid (lv_text: codepoints) (lv_count: nat) (lv_last: int)
  | SyncedLyricsInvalid string

definition r_invalid_utf8 :: string where "r_invalid_utf8 = ''synced lyrics are not valid UTF-8''"
definition r_unsupported :: string where
  "r_unsupported = ''lyric sidecar contains a line without a leading timestamp''"
definition r_no_timed :: string where
  "r_no_timed = ''lyric sidecar must contain at least two timed lyric lines''"
definition r_outside :: string where
  "r_outside = ''lyric timestamp is outside the published audio duration''"
definition r_not_monotonic :: string where
  "r_not_monotonic = ''lyric timestamps must not move backwards between lines''"

text \<open>The loop of \<open>validate_synced_text\<close> over the lines left, with the count, the last timestamp and
  the lead of the previous timed line.\<close>

fun validate_lines ::
  "int \<Rightarrow> codepoints list \<Rightarrow> nat \<Rightarrow> int \<Rightarrow> int option \<Rightarrow> lrc_error + (string + nat \<times> int)" where
  "validate_lines d [] n l prev = Inr (Inr (n, l))"
| "validate_lines d (line # ls) n l prev =
     (let stripped = cp_strip line in
      if stripped = [] \<or> metadata_line stripped then validate_lines d ls n l prev
      else case scan_stamps stripped of (stamps, rest) \<Rightarrow>
        if stamps = [] then Inr (Inl r_unsupported)
        else if cp_strip rest = [] then validate_lines d ls n l prev
        else bindR (timestamps stamps) (\<lambda>ts.
          if \<exists>t\<in>set ts. t < 0 \<or> d < t then Inr (Inl r_outside)
          else if (case prev of Some p \<Rightarrow> hd ts < p | None \<Rightarrow> False) then Inr (Inl r_not_monotonic)
          else validate_lines d ls (n + 1) (foldl max l ts) (Some (hd ts))))"

definition validate_synced_text :: "codepoints \<Rightarrow> int \<Rightarrow> lrc_error + lyrics_validation" where
  "validate_synced_text lyrics d = bindR (validate_lines d (cp_splitlines lyrics) 0 0 None) (\<lambda>r.
     case r of Inl reason \<Rightarrow> Inr (SyncedLyricsInvalid reason)
     | Inr (n, l) \<Rightarrow> Inr (if n < 2 then SyncedLyricsInvalid r_no_timed else SyncedLyricsValid lyrics n l))"

definition validate_synced_lyrics :: "octets \<Rightarrow> int \<Rightarrow> lrc_error + lyrics_validation" where
  "validate_synced_lyrics payload d = (case utf8_decode payload of
     None \<Rightarrow> Inr (SyncedLyricsInvalid r_invalid_utf8)
   | Some lyrics \<Rightarrow> validate_synced_text lyrics d)"

section \<open>What a valid text is\<close>

datatype line_kind = Ignored | Unsupported | Cue "stamp list"

definition line_kind :: "codepoints \<Rightarrow> line_kind" where
  "line_kind line = (let s = cp_strip line; (stamps, rest) = scan_stamps s in
     if s = [] \<or> metadata_line s then Ignored
     else if stamps = [] then Unsupported
     else if cp_strip rest = [] then Ignored else Cue stamps)"

fun cue_stamps :: "line_kind \<Rightarrow> stamp list list" where
  "cue_stamps (Cue ts) = [ts]"
| "cue_stamps _ = []"

definition text_cues :: "codepoints list \<Rightarrow> stamp list list" where
  "text_cues ls = concat (map (\<lambda>l. cue_stamps (line_kind l)) ls)"

text \<open>The cue times are readable, lie within the duration and their leads, after the one given, do
  not move backwards.\<close>

definition cues_ok :: "int \<Rightarrow> int option \<Rightarrow> stamp list list \<Rightarrow> int list list \<Rightarrow> bool" where
  "cues_ok d prev cues cs \<longleftrightarrow> map timestamps cues = map Inr cs
     \<and> (\<forall>c\<in>set cs. \<forall>t\<in>set c. 0 \<le> t \<and> t \<le> d)
     \<and> sorted ((case prev of None \<Rightarrow> [] | Some p \<Rightarrow> [p]) @ map hd cs)"

lemma foldl_max: "foldl max (l::int) ts = Max (insert l (set ts))"
proof (induction ts arbitrary: l)
  case (Cons t ts)
  show ?case using Cons [of "max l t"]
    by (cases "ts = []") (simp_all add: max.assoc)
qed simp

lemma validate_lines_Cons: "validate_lines d (line # ls) n l prev = (case line_kind line of
     Ignored \<Rightarrow> validate_lines d ls n l prev
   | Unsupported \<Rightarrow> Inr (Inl r_unsupported)
   | Cue stamps \<Rightarrow> bindR (timestamps stamps) (\<lambda>ts.
       if \<exists>t\<in>set ts. t < 0 \<or> d < t then Inr (Inl r_outside)
       else if (case prev of Some p \<Rightarrow> hd ts < p | None \<Rightarrow> False) then Inr (Inl r_not_monotonic)
       else validate_lines d ls (n + 1) (foldl max l ts) (Some (hd ts))))"
  by (cases "scan_stamps (cp_strip line)") (simp add: line_kind_def Let_def)

declare validate_lines.simps(2) [simp del]

lemma cues_ok_Cons: "cues_ok d prev (stamps # cues) cs \<longleftrightarrow> (\<exists>c cs'. cs = c # cs' \<and> timestamps stamps = Inr c
   \<and> (\<forall>t\<in>set c. 0 \<le> t \<and> t \<le> d) \<and> (case prev of None \<Rightarrow> True | Some p \<Rightarrow> p \<le> hd c)
   \<and> cues_ok d (Some (hd c)) cues cs')"
  by (cases cs) (auto simp: cues_ok_def sorted2 simp del: sorted_wrt.simps split: option.split)

lemma validate_lines_valid:
  "validate_lines d ls n l prev = Inr (Inr (n', l')) \<longleftrightarrow>
     Unsupported \<notin> line_kind ` set ls
     \<and> (\<exists>cs. cues_ok d prev (text_cues ls) cs \<and> n' = n + length cs \<and> l' = foldl max l (concat cs))"
proof (induction ls arbitrary: n l prev)
  case Nil
  show ?case by (cases prev) (auto simp: text_cues_def cues_ok_def)
next
  case (Cons line ls)
  show ?case
  proof (cases "line_kind line")
    case (Cue stamps)
    have c: "text_cues (line # ls) = stamps # text_cues ls" using Cue by (simp add: text_cues_def)
    show ?thesis
    proof (cases "timestamps stamps")
      case (Inl e)
      then show ?thesis using Cue by (simp add: validate_lines_Cons c cues_ok_Cons)
    next
      case (Inr ts)
      consider (outside) "\<exists>t\<in>set ts. t < 0 \<or> d < t" | (backwards) "case prev of Some p \<Rightarrow> hd ts < p | None \<Rightarrow> False"
        | (ok) "\<not> (\<exists>t\<in>set ts. t < 0 \<or> d < t)" "\<not> (case prev of Some p \<Rightarrow> hd ts < p | None \<Rightarrow> False)" by blast
      then show ?thesis
      proof cases
        case outside
        then have "\<not> (\<forall>t\<in>set ts. 0 \<le> t \<and> t \<le> d)" by (meson not_less)
        then show ?thesis using outside Cue Inr by (simp add: validate_lines_Cons c cues_ok_Cons)
      next
        case backwards
        then show ?thesis using Cue Inr by (auto simp: validate_lines_Cons c cues_ok_Cons split: option.splits)
      next
        case ok
        then show ?thesis using Cue Inr Cons.IH
          by (auto simp: validate_lines_Cons c cues_ok_Cons not_less split: option.splits)
      qed
    qed
  qed (simp_all add: validate_lines_Cons Cons.IH text_cues_def)
qed

lemma validate_text_valid:
  "validate_synced_text lyrics d = Inr (SyncedLyricsValid text' n l) \<longleftrightarrow> text' = lyrics
     \<and> Unsupported \<notin> line_kind ` set (cp_splitlines lyrics)
     \<and> (\<exists>cs. cues_ok d None (text_cues (cp_splitlines lyrics)) cs \<and> 2 \<le> length cs
         \<and> n = length cs \<and> l = foldl max 0 (concat cs))"
proof -
  let ?ls = "cp_splitlines lyrics"
  have "validate_synced_text lyrics d = Inr (SyncedLyricsValid text' n l) \<longleftrightarrow>
      text' = lyrics \<and> 2 \<le> n \<and> validate_lines d ?ls 0 0 None = Inr (Inr (n, l))"
  proof (cases "validate_lines d ?ls 0 0 None")
    case (Inr r)
    then show ?thesis by (cases r) (auto simp: validate_synced_text_def split: if_split_asm)
  qed (simp add: validate_synced_text_def)
  then show ?thesis by (auto simp: validate_lines_valid)
qed

lemma cues_nonempty: "\<forall>ts\<in>set (text_cues ls). ts \<noteq> []"
  by (auto simp: text_cues_def line_kind_def Let_def split: if_split_asm prod.splits)

lemma mapR_length: "mapR f xs = Inr ys \<Longrightarrow> length ys = length xs"
  by (induction xs arbitrary: ys) (auto simp: bindR_Inr_iff)

lemma cues_ok_nonempty:
  assumes "cues_ok d prev (text_cues ls) cs" "c \<in> set cs"
  shows "c \<noteq> []"
proof -
  have "Inr c \<in> set (map timestamps (text_cues ls))" using assms by (simp add: cues_ok_def)
  then obtain ts where "ts \<in> set (text_cues ls)" "timestamps ts = Inr c" by auto
  then show ?thesis using cues_nonempty mapR_length [of stamp_ms ts c] by (auto simp: timestamps_def)
qed

lemma foldl_max_cues:
  assumes "cues_ok d None (text_cues ls) cs" "2 \<le> length cs"
  shows "foldl max 0 (concat cs) = Max (set (concat cs))"
proof -
  have ne: "concat cs \<noteq> []" using assms cues_ok_nonempty [OF assms(1)] by (cases cs) auto
  have "\<forall>t\<in>set (concat cs). 0 \<le> t" using assms(1) by (auto simp: cues_ok_def)
  then have "0 \<le> Max (set (concat cs))" using ne by (metis Max_in List.finite_set set_empty)
  then show ?thesis using ne by (simp add: foldl_max Max_insert del: set_concat)
qed

text \<open>C33. A text is accepted exactly when every line is blank, a metadata tag, a stamped line without
  words or a cue, all cue timestamps lie between 0 and the duration, the leading timestamps of the
  cues do not move backwards, and there are at least two cues; the result carries the text
  unchanged, the number of cues and the latest timestamp.\<close>

theorem synced_text_accepted:
  "validate_synced_text lyrics d = Inr (SyncedLyricsValid text' n l) \<longleftrightarrow>
     (\<exists>cs. map timestamps (text_cues (cp_splitlines lyrics)) = map Inr cs
        \<and> Unsupported \<notin> line_kind ` set (cp_splitlines lyrics)
        \<and> set (concat cs) \<subseteq> {0..d} \<and> sorted (map hd cs) \<and> 2 \<le> length cs
        \<and> text' = lyrics \<and> n = length cs \<and> l = Max (set (concat cs)))"
proof -
  let ?ls = "cp_splitlines lyrics"
  have e: "cues_ok d None cues cs \<longleftrightarrow> map timestamps cues = map Inr cs \<and> set (concat cs) \<subseteq> {0..d} \<and> sorted (map hd cs)"
    for cues cs by (auto simp: cues_ok_def)
  show ?thesis
  proof
    assume "validate_synced_text lyrics d = Inr (SyncedLyricsValid text' n l)"
    then obtain cs where c: "cues_ok d None (text_cues ?ls) cs" "2 \<le> length cs" "text' = lyrics"
      "Unsupported \<notin> line_kind ` set ?ls" "n = length cs" "l = foldl max 0 (concat cs)"
      unfolding validate_text_valid by blast
    show "\<exists>cs. map timestamps (text_cues ?ls) = map Inr cs \<and> Unsupported \<notin> line_kind ` set ?ls
        \<and> set (concat cs) \<subseteq> {0..d} \<and> sorted (map hd cs) \<and> 2 \<le> length cs
        \<and> text' = lyrics \<and> n = length cs \<and> l = Max (set (concat cs))"
      using c foldl_max_cues [OF c(1,2)] unfolding e by blast
  next
    assume "\<exists>cs. map timestamps (text_cues ?ls) = map Inr cs \<and> Unsupported \<notin> line_kind ` set ?ls
        \<and> set (concat cs) \<subseteq> {0..d} \<and> sorted (map hd cs) \<and> 2 \<le> length cs
        \<and> text' = lyrics \<and> n = length cs \<and> l = Max (set (concat cs))"
    then obtain cs where c: "cues_ok d None (text_cues ?ls) cs" "2 \<le> length cs" "text' = lyrics"
      "Unsupported \<notin> line_kind ` set ?ls" "n = length cs" "l = Max (set (concat cs))"
      unfolding e by blast
    then show "validate_synced_text lyrics d = Inr (SyncedLyricsValid text' n l)"
      using foldl_max_cues [OF c(1,2)] unfolding validate_text_valid by auto
  qed
qed

section \<open>Timestamps that cannot be read\<close>

definition ascii_digits :: "codepoints \<Rightarrow> bool" where
  "ascii_digits ds \<longleftrightarrow> (\<forall>c\<in>set ds. 48 \<le> c \<and> c \<le> 57)"

lemma ascii_digit_decimal: "48 \<le> c \<Longrightarrow> c \<le> 57 \<Longrightarrow> is_decimal c"
  by (simp add: is_decimal_def decimal_value_def decimal_zeros_def)

lemma colon_not_decimal: "\<not> is_decimal 58"
  by (simp add: is_decimal_def decimal_value_def decimal_zeros_def)

lemma split_lines_plain: "\<forall>c\<in>set s. \<not> line_break c \<Longrightarrow> s \<noteq> [] \<or> w \<noteq> [] \<Longrightarrow> split_lines w s = [rev w @ s]"
  by (induction s arbitrary: w) auto

lemma cp_strip_plain: "s \<noteq> [] \<Longrightarrow> \<not> cp_space (hd s) \<Longrightarrow> \<not> cp_space (last s) \<Longrightarrow> cp_strip s = s"
  by (simp add: cp_strip_def dropWhile_eq_self_iff [THEN iffD2] hd_rev)

lemma takeWhile_digits: "\<forall>c\<in>set ds. P c \<Longrightarrow> \<not> P x \<Longrightarrow> takeWhile P (ds @ x # r) = ds \<and> dropWhile P (ds @ x # r) = x # r"
  by (induction ds) auto

text \<open>A stamped line whose minutes have more than 4300 digits is not rejected: the validation
  raises an exception, which its callers do not expect of a text.\<close>

lemma long_minutes_raise:
  assumes "ascii_digits ds" and "4300 < length ds"
  shows "validate_synced_text ([91] @ ds @ [58, 48, 48, 93, 120]) d = Inl ValueError"
proof -
  let ?s = "[91] @ ds @ [58, 48, 48, 93, 120]"
  let ?stamp = "\<lparr>st_negative = False, st_minutes = ds, st_seconds = [48, 48], st_fraction = []\<rparr>"
  have dig: "\<forall>c\<in>set ds. 48 \<le> c \<and> c \<le> 57" using assms by (simp add: ascii_digits_def)
  have lines: "cp_splitlines ?s = [?s]"
    using split_lines_plain [of ?s "[]"] dig by (fastforce simp: cp_splitlines_def line_break_def)
  have strip: "cp_strip ?s = ?s" by (rule cp_strip_plain) (simp_all add: cp_space_def)
  obtain c ds' where c: "ds = c # ds'" "48 \<le> c" "c \<le> 57" using assms dig by (cases ds) auto
  have meta: "\<not> metadata_line ?s" using c by (simp add: metadata_line_def expect_def ascii_alpha_def)
  have tw: "takeWhile is_decimal (ds @ 58 # r) = ds" "dropWhile is_decimal (ds @ 58 # r) = 58 # r" for r
    using takeWhile_digits [of ds is_decimal 58 r] dig ascii_digit_decimal colon_not_decimal by auto
  have sign: "expect 45 (ds @ r) = None" for r using c by (simp add: expect_def)
  have "scan_stamp ?s = Some (?stamp, [120])"
    using assms(2) by (simp add: scan_stamp_def expect_def [of 91] sign scan_time_def tw Let_def)
      (simp add: expect_def scan_seconds_def scan_fraction_def ascii_digit_decimal)
  moreover have "scan_stamp [120] = None" by (simp add: scan_stamp_def expect_def)
  ultimately have "scan_stamps ?s = ([?stamp], [120])" by (simp add: scan_stamps.simps)
  then have kind: "line_kind ?s = Cue [?stamp]"
    using strip meta by (simp add: line_kind_def cp_strip_plain cp_space_def)
  have "timestamps [?stamp] = Inl ValueError"
    using assms(2) by (simp add: timestamps_def stamp_ms_def py_int_def)
  then show ?thesis
    unfolding validate_synced_text_def lines using kind by (simp add: validate_lines_Cons)
qed

section \<open>The sidecar\<close>

text \<open>A path is the list of its components below the root directory. Symbolic links are the
  business of \<open>resolve\<close>, an argument.\<close>

type_synonym parts = "string list"

text \<open>\<open>os.path.splitext\<close> on one name: leading dots belong to the stem.\<close>

definition splitext :: "string \<Rightarrow> string \<times> string" where
  "splitext name = (let rest = dropWhile (\<lambda>c. c = CHR ''.'') name in
     if CHR ''.'' \<in> set rest then
       (let suffix = CHR ''.'' # rev (takeWhile (\<lambda>c. c \<noteq> CHR ''.'') (rev rest)) in
        (take (length name - length suffix) name, suffix))
     else (name, []))"

definition path_name :: "parts \<Rightarrow> string" where
  "path_name p = (if p = [] then [] else last p)"

text \<open>\<open>Path(component).name\<close> of a component without a separator.\<close>

definition component_name :: "string \<Rightarrow> string" where
  "component_name c = (if c = ''.'' then [] else c)"

definition path_parents :: "parts \<Rightarrow> parts list" where
  "path_parents p = map (\<lambda>k. take k p) [0..<length p]"

definition lrc_output_path :: "(parts \<Rightarrow> parts) \<Rightarrow> parts \<Rightarrow> parts \<Rightarrow> string + parts" where
  "lrc_output_path resolve root audio_path =
     (let audio = resolve audio_path; (stem, suffix) = splitext (path_name audio) in
      if butlast audio = root \<or> root \<notin> set (path_parents audio)
      then Inl ''published audio is outside the managed media root''
      else if stem = [] \<or> component_name stem \<noteq> stem \<or> path_name audio \<noteq> stem @ suffix
      then Inl ''published audio name is not a safe filename''
      else Inr (butlast audio @ [stem @ ''.lrc'']))"

type_synonym disk = "parts \<Rightarrow> octets option"

text \<open>Where an \<open>OSError\<close> interrupts the write, if anywhere.\<close>

datatype write_fault = NoFault | CreateFails | WriteFails nat | SyncFails | ReplaceFails | DirSyncFails

record lrc_written =
  lw_path :: parts
  lw_relative :: string
  lw_sha256 :: string

datatype lrc_write_result = LrcWritten lrc_written | LrcWriteRejected string

definition could_not_write :: "string \<Rightarrow> lrc_write_result" where
  "could_not_write err = LrcWriteRejected (''lyric sidecar could not be written: '' @ err)"

text \<open>The result and the contents of the disk after each file operation, the last one final. \<open>tmp\<close>
  is the fresh name of the temporary file.\<close>

definition replace_file ::
  "parts \<Rightarrow> parts \<Rightarrow> octets \<Rightarrow> write_fault \<Rightarrow> string \<Rightarrow> lrc_written \<Rightarrow> disk \<Rightarrow> lrc_write_result \<times> disk list" where
  "replace_file tmp out payload fault err written d =
     (let created = d(tmp := Some []); full = d(tmp := Some payload); gone = d(tmp := None);
          replaced = d(tmp := None, out := Some payload) in
      case fault of
        CreateFails \<Rightarrow> (could_not_write err, [d])
      | WriteFails n \<Rightarrow> (could_not_write err, [created, d(tmp := Some (take n payload)), gone])
      | SyncFails \<Rightarrow> (could_not_write err, [created, full, gone])
      | ReplaceFails \<Rightarrow> (could_not_write err, [created, full, gone])
      | DirSyncFails \<Rightarrow> (could_not_write err, [created, full, replaced])
      | NoFault \<Rightarrow> (LrcWritten written, [created, full, replaced]))"

definition temporary_name :: "string \<Rightarrow> string \<Rightarrow> string" where
  "temporary_name name token = ''.'' @ name @ ''.'' @ token @ ''.tmp''"

definition write_lrc_atomically ::
  "(octets \<Rightarrow> string) \<Rightarrow> string + parts \<Rightarrow> (parts \<Rightarrow> parts) \<Rightarrow> parts \<Rightarrow> codepoints \<Rightarrow> string \<Rightarrow> write_fault \<Rightarrow> string
   \<Rightarrow> disk \<Rightarrow> lrc_error + (lrc_write_result \<times> disk list)" where
  "write_lrc_atomically sha root resolve audio_path text token fault err d = (case root of
     Inl e \<Rightarrow> Inr (LrcWriteRejected (''managed media root is unavailable: '' @ e), [d])
   | Inr directory \<Rightarrow> (case lrc_output_path resolve directory audio_path of
       Inl e \<Rightarrow> Inr (LrcWriteRejected e, [d])
     | Inr out \<Rightarrow> (case utf8_encode text of
         None \<Rightarrow> Inl ValueError
       | Some payload \<Rightarrow> Inr (replace_file (butlast out @ [temporary_name (path_name out) token]) out payload fault err
            \<lparr>lw_path = out, lw_relative = str_join ''/'' (drop (length directory) out), lw_sha256 = sha payload\<rparr> d))))"

lemma output_path_shape:
  assumes "lrc_output_path resolve root audio_path = Inr out"
  obtains stem where "out = butlast (resolve audio_path) @ [stem @ ''.lrc'']" "stem \<noteq> []"
    "strict_prefix root (butlast (resolve audio_path))"
proof -
  let ?a = "resolve audio_path"
  obtain stem suffix where s: "splitext (path_name ?a) = (stem, suffix)" by (cases "splitext (path_name ?a)")
  then have o: "out = butlast ?a @ [stem @ ''.lrc'']" "stem \<noteq> []" "butlast ?a \<noteq> root" "root \<in> set (path_parents ?a)"
    using assms by (auto simp: lrc_output_path_def Let_def split: if_split_asm)
  from o(4) obtain k where k: "root = take k ?a" "k < length ?a" by (auto simp: path_parents_def)
  then have "root = take k (butlast ?a)" by (simp add: take_butlast)
  then have "prefix root (butlast ?a)" by (metis take_is_prefix)
  with o show ?thesis by (intro that) auto
qed

lemma temporary_differs: "temporary_name name token \<noteq> name"
  by (simp add: temporary_name_def)

text \<open>C34. Wherever the write of a sidecar is interrupted, at every moment the sidecar is the old one
  or the complete new one and every other file but the temporary is untouched; the temporary
  file is gone in the end, and a reported success means the new text is there, below the media
  root, under the audio file's name.\<close>

theorem sidecar_write_atomic:
  assumes "write_lrc_atomically sha (Inr root) resolve audio text token fault err d = Inr (result, states)"
    and "lrc_output_path resolve root audio = Inr out" and "utf8_encode text = Some payload"
    and "d (butlast out @ [temporary_name (path_name out) token]) = None"
  shows "(\<forall>s\<in>set states. s out \<in> {d out, Some payload}
        \<and> (\<forall>p. p \<noteq> out \<and> p \<noteq> butlast out @ [temporary_name (path_name out) token] \<longrightarrow> s p = d p))
    \<and> last states (butlast out @ [temporary_name (path_name out) token]) = None
    \<and> (\<forall>w. result = LrcWritten w \<longrightarrow> last states out = Some payload \<and> lw_path w = out \<and> lw_sha256 w = sha payload
        \<and> strict_prefix root (butlast out) \<and> butlast out = butlast (resolve audio))"
proof -
  obtain stem where o: "out = butlast (resolve audio) @ [stem @ ''.lrc'']" "strict_prefix root (butlast (resolve audio))"
    using output_path_shape [OF assms(2)] by metis
  let ?tmp = "butlast out @ [temporary_name (path_name out) token]"
  have ne: "?tmp \<noteq> out" using o temporary_differs [of "path_name out" token]
    by (metis append_butlast_last_id last_snoc path_name_def snoc_eq_iff_butlast)
  have "(result, states) = replace_file ?tmp out payload fault err
      \<lparr>lw_path = out, lw_relative = str_join ''/'' (drop (length root) out), lw_sha256 = sha payload\<rparr> d"
    using assms(1-3) by (simp add: write_lrc_atomically_def)
  then show ?thesis using ne ne [symmetric] assms(4) o
    by (cases fault) (auto simp: replace_file_def could_not_write_def Let_def)
qed

definition sample_audio :: parts where
  "sample_audio = [''media'', ''Beck'', ''01.flac'']"

lemma sample_parent: "[''media''] \<in> set (path_parents [''media'', ''Beck'', ''01.flac''])"
  by (auto simp: path_parents_def intro!: image_eqI [of _ _ 1])

theorem sidecar_write_atomic_witness:
  "\<exists>result states. write_lrc_atomically (\<lambda>b. ''h'') (Inr [''media'']) id sample_audio [91, 93] ''x1'' ReplaceFails ''disk full''
       (\<lambda>p. if p = [''media'', ''Beck'', ''01.lrc''] then Some [1] else None) = Inr (result, states)
     \<and> last states [''media'', ''Beck'', ''01.lrc''] = Some [1]"
proof -
  let ?d = "\<lambda>p. if p = [''media'', ''Beck'', ''01.lrc''] then Some [1] else None :: octets option"
  let ?w = "write_lrc_atomically (\<lambda>b. ''h'') (Inr [''media'']) id sample_audio [91, 93] ''x1'' ReplaceFails ''disk full'' ?d"
  have o: "lrc_output_path id [''media''] sample_audio = Inr [''media'', ''Beck'', ''01.lrc'']"
    using sample_parent by (simp add: lrc_output_path_def sample_audio_def path_name_def splitext_def component_name_def Let_def)
  have u: "utf8_encode [91, 93] = Some [91, 93]" by (simp add: utf8_encode_point_def)
  obtain result states where w: "?w = Inr (result, states)"
    using o u by (simp add: write_lrc_atomically_def replace_file_def Let_def)
  have "states \<noteq> []" "\<forall>p. last states p = ?d p" using w o u
    by (auto simp: write_lrc_atomically_def replace_file_def Let_def path_name_def temporary_name_def)
  moreover from sidecar_write_atomic [OF w o u] have "last states [''media'', ''Beck'', ''01.lrc''] \<in> {Some [1], Some [91, 93]}"
    using \<open>states \<noteq> []\<close> by (simp add: path_name_def temporary_name_def)
  ultimately show ?thesis using w by simp
qed

end
