(* ===== verification/Lrclib.thy ===== *)
theory Lrclib imports Lrc Evidence Json begin

text \<open>
  \<^bold>\<open>The LRCLIB adapter\<close> (\<open>adapters/external/lrclib.py\<close>): the search request, the choice among the
  candidates of an answer, and the transport that paces, retries and bounds the requests.

  SHA-256, the validation of the answer into \<open>RecordPayload\<close>s and the text tools are arguments.
  Times are real seconds. The clock advances by what \<open>wake\<close> and the HTTP client say: a sleep until
  \<open>t\<close> ends at \<open>wake t\<close>, a request started at \<open>t\<close> ends when its answer says. A \<open>Retry-After\<close>
  or \<open>Content-Length\<close> header is given as the number it parses to, if it does. One transport serves
  one request at a time, under its request lock; the HTTP clients per thread are not modelled.
\<close>

section \<open>Requests and settings\<close>

record lrclib_request =
  lq_track :: string
  lq_artist :: string
  lq_duration :: int
  lq_album :: "string option"

record lrclib_settings =
  ls_enabled :: bool
  ls_host :: string
  ls_user_agent :: string
  ls_timeout :: real
  ls_max_attempts :: nat
  ls_request_delay :: real
  ls_max_bytes :: nat
  ls_threshold :: real

definition search_path :: string where "search_path = ''/api/search''"

definition lrclib_endpoint :: "lrclib_settings \<Rightarrow> string" where
  "lrclib_endpoint s = ls_host s @ search_path"

definition retry_budget :: "lrclib_settings \<Rightarrow> real" where
  "retry_budget s = ls_timeout s * real (ls_max_attempts s)"

text \<open>\<open>urllib.parse.urlencode\<close>: \<open>quote_plus\<close> on names and values.\<close>

definition url_safe :: "nat \<Rightarrow> bool" where
  "url_safe n \<longleftrightarrow> (48 \<le> n \<and> n \<le> 57) \<or> (65 \<le> n \<and> n \<le> 90) \<or> (97 \<le> n \<and> n \<le> 122) \<or> n \<in> {45, 46, 95, 126}"

definition quote_plus :: "string \<Rightarrow> string" where
  "quote_plus s = concat (map (\<lambda>b. if b = 32 then ''+'' else if url_safe b then [char_of b]
     else CHR ''%'' # map char_upper [hex_digit (b div 16), hex_digit b]) (str_encode s))"

definition urlencode :: "(string \<times> string) list \<Rightarrow> string" where
  "urlencode ps = str_join ''&'' (map (\<lambda>(k, v). quote_plus k @ ''='' @ quote_plus v) ps)"

definition lookup_url :: "lrclib_request \<Rightarrow> string \<Rightarrow> string" where
  "lookup_url q host =
     (let album = str_strip (str_or (lq_album q) []);
          parameters = [(''artist_name'', lq_artist q), (''track_name'', lq_track q)]
            @ (if album \<noteq> [] then [(''album_name'', album)] else []) in
      host @ search_path @ ''?'' @ urlencode parameters)"

section \<open>Choosing a candidate\<close>

datatype py_float = Finite real | NonFinite

record record_payload =
  rp_id :: "int option"
  rp_track :: "string option"
  rp_artist :: "string option"
  rp_album :: "string option"
  rp_duration :: "py_float option"
  rp_synced :: "codepoints option"

record lrclib_provenance =
  lp_req_hash :: string
  lp_response_sha :: string
  lp_provider_name :: string
  lp_endpoint :: string
  lp_status :: "int option"
  lp_captured_at :: timestamp
  lp_record_id :: "int option"

datatype lrclib_result =
    LrclibSynced lrclib_provenance codepoints
  | LrclibNoCandidate lrclib_provenance string
  | LrclibProviderError lrclib_provenance string

record http_response =
  hr_status :: "int option"
  hr_body :: octets
  hr_truncated :: bool

definition candidate_similarity :: "text_tools \<Rightarrow> lrclib_request \<Rightarrow> record_payload \<Rightarrow> real" where
  "candidate_similarity T q p =
     (let album = str_or (lq_album q) []; factors =
        [text_similarity T (lq_track q) (str_or (rp_track p) []), text_similarity T (lq_artist q) (str_or (rp_artist p) [])]
        @ (if str_strip album \<noteq> [] \<and> str_strip (str_or (rp_album p) []) \<noteq> []
           then [text_similarity T album (str_or (rp_album p) [])] else []) in
      sum_list factors / real (length factors))"

definition duration_matches :: "int \<Rightarrow> py_float option \<Rightarrow> bool" where
  "duration_matches expected d = (case d of Some (Finite x) \<Rightarrow> \<bar>x - of_int expected\<bar> \<le> 2 | _ \<Rightarrow> False)"

definition acceptable :: "lrclib_request \<Rightarrow> record_payload \<Rightarrow> bool" where
  "acceptable q p \<longleftrightarrow> (case rp_id p of None \<Rightarrow> False | Some i \<Rightarrow> 0 < i)
     \<and> (case rp_synced p of None \<Rightarrow> False | Some t \<Rightarrow> cp_strip t \<noteq> []) \<and> duration_matches (lq_duration q) (rp_duration p)"

text \<open>\<open>min(..., key=lambda scored: (-scored[0], scored[1].id or 0))\<close>.\<close>

definition best_scored :: "text_tools \<Rightarrow> lrclib_request \<Rightarrow> record_payload list \<Rightarrow> (real \<times> record_payload) option" where
  "best_scored T q cs = first_min (\<lambda>(s, p). (- s, case rp_id p of None \<Rightarrow> 0 | Some i \<Rightarrow> i))
     (map (\<lambda>p. (candidate_similarity T q p, p)) cs)"

definition r_no_response :: string where "r_no_response = ''lrclib request failed before a response was received''"
definition r_no_lyrics :: string where "r_no_lyrics = ''lrclib has no lyrics for this track''"
definition r_rate_limited :: string where "r_rate_limited = ''lrclib rate limited the request''"
definition r_oversized :: string where "r_oversized = ''lrclib response body exceeded the managed size bound''"
definition r_malformed :: string where "r_malformed = ''lrclib response was malformed''"
definition r_no_identity :: string where
  "r_no_identity = ''lrclib response did not carry a usable record identity''"
definition r_no_synced :: string where
  "r_no_synced = ''lrclib search returned no synced candidate matching the published duration''"
definition r_confidence :: string where
  "r_confidence = ''best lrclib synced candidate is below the managed match confidence threshold''"

definition choose_candidate ::
  "text_tools \<Rightarrow> lrclib_settings \<Rightarrow> lrclib_request \<Rightarrow> lrclib_provenance \<Rightarrow> record_payload list \<Rightarrow> lrclib_result" where
  "choose_candidate T settings q p payloads = (case best_scored T q (filter (acceptable q) payloads) of
     None \<Rightarrow> LrclibNoCandidate p r_no_synced
   | Some (best_score, best) \<Rightarrow>
     if best_score < ls_threshold settings then LrclibNoCandidate p r_confidence
     else (case (rp_id best, rp_synced best) of
       (Some i, Some t) \<Rightarrow> LrclibSynced (p\<lparr>lp_record_id := Some i\<rparr>) t
     | _ \<Rightarrow> LrclibProviderError p r_no_identity))"

text \<open>\<open>LrclibAdapter.lookup\<close> on the response the transport gave.\<close>

definition lrclib_lookup ::
  "text_tools \<Rightarrow> (octets \<Rightarrow> string) \<Rightarrow> (octets \<Rightarrow> record_payload list option) \<Rightarrow> lrclib_settings \<Rightarrow> lrclib_request
   \<Rightarrow> timestamp \<Rightarrow> http_response \<Rightarrow> lrclib_result" where
  "lrclib_lookup T sha validate settings q now response =
     (let p = \<lparr>lp_req_hash = sha (str_encode (lookup_url q (ls_host settings))), lp_response_sha = sha (hr_body response),
          lp_provider_name = ''lrclib'', lp_endpoint = lrclib_endpoint settings, lp_status = hr_status response,
          lp_captured_at = now, lp_record_id = None\<rparr> in
      case hr_status response of
        None \<Rightarrow> LrclibProviderError p r_no_response
      | Some status \<Rightarrow>
        if status = 404 then LrclibNoCandidate p r_no_lyrics
        else if status = 429 then LrclibProviderError p r_rate_limited
        else if status \<noteq> 200 then LrclibProviderError p (''lrclib returned unexpected status '' @ json_int status)
        else if hr_truncated response \<or> ls_max_bytes settings < length (hr_body response)
        then LrclibProviderError p r_oversized
        else (case validate (hr_body response) of None \<Rightarrow> LrclibProviderError p r_malformed
          | Some payloads \<Rightarrow> choose_candidate T settings q p payloads))"

text \<open>C35. A well-formed answer of acceptable size yields the synced lyrics of an acceptable candidate
  (positive identity, lyrics that are not blank, a duration within two seconds) that reaches the
  threshold, that no acceptable candidate exceeds in similarity, and that has the least identity
  among the equals; it yields none exactly when no acceptable candidate reaches the threshold.\<close>

theorem lookup_best_candidate:
  assumes "hr_status response = Some 200" "\<not> hr_truncated response" "length (hr_body response) \<le> ls_max_bytes settings"
    and "validate (hr_body response) = Some payloads"
  shows "case lrclib_lookup T sha validate settings q now response of
      LrclibSynced p t \<Rightarrow> (\<exists>c\<in>set payloads. acceptable q c \<and> rp_id c = lp_record_id p \<and> rp_synced c = Some t
        \<and> ls_threshold settings \<le> candidate_similarity T q c
        \<and> (\<forall>c'\<in>set payloads. acceptable q c' \<longrightarrow> candidate_similarity T q c' < candidate_similarity T q c
            \<or> (candidate_similarity T q c' = candidate_similarity T q c \<and> the (rp_id c) \<le> the (rp_id c'))))
    | LrclibNoCandidate p r \<Rightarrow> (\<forall>c\<in>set payloads. acceptable q c \<longrightarrow> candidate_similarity T q c < ls_threshold settings)
    | LrclibProviderError p r \<Rightarrow> False"
proof -
  let ?cs = "filter (acceptable q) payloads"
  let ?key = "\<lambda>(s, p). (- s, case rp_id p of None \<Rightarrow> 0 | Some i \<Rightarrow> i)"
  obtain p where l: "lrclib_lookup T sha validate settings q now response = choose_candidate T settings q p payloads"
    using assms by (simp add: lrclib_lookup_def Let_def)
  show ?thesis
  proof (cases "best_scored T q ?cs")
    case None
    then have "?cs = []" by (simp add: best_scored_def)
    then show ?thesis using None by (auto simp: l choose_candidate_def filter_empty_conv)
  next
    case (Some sb)
    then obtain b where b: "sb = (candidate_similarity T q b, b)" "b \<in> set payloads" "acceptable q b"
      using first_min_in [of ?key _ sb] by (fastforce simp: best_scored_def)
    have least: "?key sb \<le> ?key (candidate_similarity T q c, c)" if "c \<in> set payloads" "acceptable q c" for c
      using Some that by (intro first_min_le [of ?key "map (\<lambda>p. (candidate_similarity T q p, p)) ?cs"])
        (auto simp: best_scored_def)
    obtain i t where i: "rp_id b = Some i" "rp_synced b = Some t"
      using b(3) by (auto simp: acceptable_def split: option.splits)
    have best: "candidate_similarity T q c < candidate_similarity T q b
        \<or> (candidate_similarity T q c = candidate_similarity T q b \<and> i \<le> the (rp_id c))"
      if c: "c \<in> set payloads" "acceptable q c" for c
    proof -
      obtain j where "rp_id c = Some j" using c(2) by (auto simp: acceptable_def split: option.splits)
      then show ?thesis using least [OF c] b(1) i by (auto simp: less_eq_prod_def)
    qed
    show ?thesis
    proof (cases "candidate_similarity T q b < ls_threshold settings")
      case True
      then show ?thesis using Some b best by (fastforce simp: l choose_candidate_def)
    next
      case False
      then have r: "lrclib_lookup T sha validate settings q now response = LrclibSynced (p\<lparr>lp_record_id := Some i\<rparr>) t"
        using Some b i by (simp add: l choose_candidate_def)
      have opt: "\<forall>c'\<in>set payloads. acceptable q c' \<longrightarrow> candidate_similarity T q c' < candidate_similarity T q b
          \<or> (candidate_similarity T q c' = candidate_similarity T q b \<and> the (rp_id b) \<le> the (rp_id c'))"
        using best i by simp
      then show ?thesis unfolding r lrclib_result.case using False
        by (intro bexI [OF _ b(2)] conjI opt b(3)) (simp_all add: i)
    qed
  qed
qed

section \<open>The transport\<close>

text \<open>What a lookup may raise: an exception of the client that is not retried, one while the body is read
  (outside of the \<open>try\<close>), or the \<open>ValueError\<close> of a sleep for NaN seconds.\<close>

datatype transport_error = ClientError | BodyError | SleepError

text \<open>\<open>_read_bounded_body\<close> over the chunks of the body, with what was retained; \<open>None\<close> is a read that
  raises.\<close>

fun read_bounded_body :: "nat \<Rightarrow> octets \<Rightarrow> octets option list \<Rightarrow> transport_error + octets \<times> bool" where
  "read_bounded_body limit kept [] = Inr (kept, False)"
| "read_bounded_body limit kept (None # chunks) = Inl BodyError"
| "read_bounded_body limit kept (Some chunk # chunks) =
     (if chunk = [] then read_bounded_body limit kept chunks
      else let remaining = limit - length kept in
        if remaining < length chunk then Inr (kept @ take remaining chunk, True)
        else read_bounded_body limit (kept @ take remaining chunk) chunks)"

text \<open>A number of seconds as \<open>float\<close> reads it; \<open>-inf\<close> behaves as any other negative number.\<close>

datatype seconds = Seconds real | InfiniteSeconds | NaNSeconds

record raw_response =
  rr_status :: int
  rr_retry_after :: "seconds option" \<comment> \<open>none when the header is absent or no number\<close>
  rr_content_length :: "int option"
  rr_chunks :: "octets option list"

definition bounded_response :: "raw_response \<Rightarrow> nat \<Rightarrow> transport_error + http_response" where
  "bounded_response r limit =
     (if (case rr_content_length r of None \<Rightarrow> False | Some n \<Rightarrow> int limit < n)
      then Inr \<lparr>hr_status = Some (rr_status r), hr_body = [], hr_truncated = True\<rparr>
      else bindR (read_bounded_body limit [] (rr_chunks r)) (\<lambda>(body, truncated).
        Inr \<lparr>hr_status = Some (rr_status r), hr_body = body, hr_truncated = truncated\<rparr>))"

text \<open>\<open>max(x, 0.0)\<close> and \<open>min(x, r)\<close> are NaN for NaN.\<close>

definition not_negative :: "seconds \<Rightarrow> seconds" where
  "not_negative x = (case x of Seconds s \<Rightarrow> Seconds (max s 0) | _ \<Rightarrow> x)"

definition at_most :: "real \<Rightarrow> seconds \<Rightarrow> seconds" where
  "at_most r x = (case x of Seconds s \<Rightarrow> Seconds (min s r) | InfiniteSeconds \<Rightarrow> Seconds r | NaNSeconds \<Rightarrow> NaNSeconds)"

definition retry_after_seconds :: "raw_response \<Rightarrow> seconds" where
  "retry_after_seconds r = (case rr_retry_after r of None \<Rightarrow> Seconds 1 | Some s \<Rightarrow> not_negative s)"

text \<open>The clock, the pacer's next start, the end of the last request, and the requests made: their
  start, their timeout.\<close>

record transport_state =
  tr_clock :: real
  tr_next_start :: "real option"
  tr_last_completed :: "real option"
  tr_requests :: "(real \<times> real) list"

text \<open>What the world does: when a sleep until a time ends, how the \<open>n\<close>-th request of the transport,
  started at a time with a timeout, is answered (or fails with a retryable exception or another one)
  and when, and when the body of the latest request, begun at a time, has been read.\<close>

datatype http_answer = Answered raw_response | RequestFailed | ClientRaised

record world =
  wake :: "real \<Rightarrow> real"
  answer :: "nat \<Rightarrow> real \<Rightarrow> real \<Rightarrow> http_answer \<times> real"
  body_end :: "nat \<Rightarrow> real \<Rightarrow> real"

definition sleep_for :: "world \<Rightarrow> real \<Rightarrow> transport_state \<Rightarrow> transport_state" where
  "sleep_for w d st = (if d > 0 then st\<lparr>tr_clock := wake w (tr_clock st + d)\<rparr> else st)"

definition pacer_wait :: "world \<Rightarrow> real \<Rightarrow> transport_state \<Rightarrow> transport_state" where
  "pacer_wait w minimum st =
     (let interval = max minimum 0; now = tr_clock st;
          start_at = (case tr_next_start st of None \<Rightarrow> now | Some n \<Rightarrow> max now n) in
      sleep_for w (start_at - now) (st\<lparr>tr_next_start := Some (start_at + interval)\<rparr>))"

definition wait_for_turn :: "world \<Rightarrow> real \<Rightarrow> real \<Rightarrow> transport_state \<Rightarrow> bool \<times> transport_state" where
  "wait_for_turn w deadline delay st =
     (if deadline \<le> tr_clock st then (False, st)
      else let st = pacer_wait w delay st in (tr_clock st < deadline, st))"

text \<open>\<open>time.sleep\<close> of nothing is no sleep.\<close>

definition sleep_within_budget :: "world \<Rightarrow> seconds \<Rightarrow> real \<Rightarrow> transport_state
   \<Rightarrow> (transport_error + bool) \<times> transport_state" where
  "sleep_within_budget w delay deadline st =
     (let remaining = deadline - tr_clock st in
      if remaining \<le> 0 then (Inr False, st)
      else (case at_most remaining (not_negative delay) of
          Seconds d \<Rightarrow> (let st = sleep_for w d st in (Inr (tr_clock st < deadline), st))
        | _ \<Rightarrow> (Inl SleepError, st)))"

definition retry_statuses :: "int list" where
  "retry_statuses = [429, 500, 502, 503, 504]"

definition make_request :: "world \<Rightarrow> real \<Rightarrow> transport_state \<Rightarrow> http_answer \<times> transport_state" where
  "make_request w timeout st =
     (case answer w (length (tr_requests st)) (tr_clock st) timeout of (r, end_time) \<Rightarrow>
       (r, st\<lparr>tr_clock := end_time, tr_requests := tr_requests st @ [(tr_clock st, timeout)]\<rparr>))"

definition min_timeout :: real where "min_timeout = 0.001"

definition request_timeout :: "lrclib_settings \<Rightarrow> real \<Rightarrow> transport_state \<Rightarrow> real" where
  "request_timeout s deadline st = max (min (ls_timeout s) (deadline - tr_clock st)) min_timeout"

definition read_body :: "world \<Rightarrow> transport_state \<Rightarrow> transport_state" where
  "read_body w st = st\<lparr>tr_clock := body_end w (length (tr_requests st)) (tr_clock st)\<rparr>"

definition status_only :: "int option \<Rightarrow> http_response" where
  "status_only status = \<lparr>hr_status = status, hr_body = [], hr_truncated = False\<rparr>"

text \<open>The attempts of \<open>_get_serialized\<close> with \<open>n\<close> of them left.\<close>

fun attempts :: "world \<Rightarrow> lrclib_settings \<Rightarrow> real \<Rightarrow> nat \<Rightarrow> http_response \<Rightarrow> transport_state
   \<Rightarrow> (transport_error + http_response) \<times> transport_state" where
  "attempts w s deadline 0 last_response st = (Inr last_response, st)"
| "attempts w s deadline (Suc n) last_response st =
     (case wait_for_turn w deadline (ls_request_delay s) st of (turn, st) \<Rightarrow>
      if \<not> turn then (Inr last_response, st) else
      case make_request w (request_timeout s deadline st) st of (r, st) \<Rightarrow>
      (case r of
         ClientRaised \<Rightarrow> (Inl ClientError, st)
       | Answered response \<Rightarrow>
           if rr_status response \<notin> set retry_statuses \<or> n = 0
           then (bounded_response response (ls_max_bytes s), read_body w st)
           else let last_response = status_only (Some (rr_status response)) in
             (case sleep_within_budget w (retry_after_seconds response) deadline st of (go, st) \<Rightarrow>
               (case go of Inl e \<Rightarrow> (Inl e, st) | Inr go \<Rightarrow>
                 if go then attempts w s deadline n last_response st else (Inr last_response, st)))
       | RequestFailed \<Rightarrow>
           let last_response = status_only None in
           if n = 0 then (Inr last_response, st)
           else (case sleep_within_budget w (Seconds 1) deadline st of (go, st) \<Rightarrow>
               (case go of Inl e \<Rightarrow> (Inl e, st) | Inr go \<Rightarrow>
                 if go then attempts w s deadline n last_response st else (Inr last_response, st)))))"

definition get_serialized :: "world \<Rightarrow> lrclib_settings \<Rightarrow> transport_state \<Rightarrow> (transport_error + http_response) \<times> transport_state" where
  "get_serialized w s st = attempts w s (tr_clock st + retry_budget s) (ls_max_attempts s) (status_only None) st"

definition completion_gap :: "world \<Rightarrow> lrclib_settings \<Rightarrow> transport_state \<Rightarrow> transport_state" where
  "completion_gap w s st = (case tr_last_completed st of None \<Rightarrow> st
     | Some t \<Rightarrow> sleep_for w (t + ls_request_delay s - tr_clock st) st)"

text \<open>The end of the lookup is noted also when it raises.\<close>

definition transport_get :: "world \<Rightarrow> lrclib_settings \<Rightarrow> transport_state \<Rightarrow> (transport_error + http_response) \<times> transport_state" where
  "transport_get w s st = (case get_serialized w s (completion_gap w s st) of (r, st) \<Rightarrow>
     (r, st\<lparr>tr_last_completed := Some (tr_clock st)\<rparr>))"

section \<open>Bounds of one lookup\<close>

lemma read_bounded_prefix:
  assumes "length kept \<le> limit"
  shows "read_bounded_body limit kept (map Some chunks)
    = Inr (take limit (kept @ concat chunks), limit < length (kept @ concat chunks))"
  using assms
proof (induction chunks arbitrary: kept)
  case (Cons chunk chunks)
  show ?case
  proof (cases "chunk = [] \<or> limit - length kept < length chunk")
    case True
    then show ?thesis using Cons by (auto simp: Let_def)
  next
    case False
    then have "take (limit - length kept) chunk = chunk" "length (kept @ chunk) \<le> limit" using Cons.prems by auto
    then show ?thesis using False Cons.IH by (simp add: Let_def add.assoc)
  qed
qed simp

lemma read_bounded_length:
  "read_bounded_body limit kept chunks = Inr (body, t) \<Longrightarrow> length kept \<le> limit \<Longrightarrow> length body \<le> limit"
  by (induction limit kept chunks rule: read_bounded_body.induct) (auto simp: Let_def split: if_split_asm)

definition honest :: "world \<Rightarrow> bool" where
  "honest w \<longleftrightarrow> (\<forall>t. t \<le> wake w t) \<and> (\<forall>n t d. t \<le> snd (answer w n t d)) \<and> (\<forall>n t. t \<le> body_end w n t)"

lemma sleep_for_frame:
  assumes "honest w"
  shows "tr_clock st \<le> tr_clock (sleep_for w d st)" "tr_clock st + d \<le> tr_clock (sleep_for w d st)"
    "tr_requests (sleep_for w d st) = tr_requests st" "tr_last_completed (sleep_for w d st) = tr_last_completed st"
proof -
  have w: "tr_clock st + d \<le> wake w (tr_clock st + d)" using assms by (simp add: honest_def)
  show "tr_clock st \<le> tr_clock (sleep_for w d st)" "tr_clock st + d \<le> tr_clock (sleep_for w d st)"
    using w by (simp_all add: sleep_for_def)
qed (simp_all add: sleep_for_def)

lemma pacer_wait_frame:
  assumes "honest w"
  shows "tr_clock st \<le> tr_clock (pacer_wait w d st)"
    "tr_requests (pacer_wait w d st) = tr_requests st" "tr_last_completed (pacer_wait w d st) = tr_last_completed st"
  using sleep_for_frame [OF assms, where st = "st\<lparr>tr_next_start := n\<rparr>" for n]
  by (simp_all add: pacer_wait_def Let_def)

text \<open>The requests a step added to the log.\<close>

definition new_requests :: "transport_state \<Rightarrow> transport_state \<Rightarrow> (real \<times> real) list" where
  "new_requests st st' = drop (length (tr_requests st)) (tr_requests st')"

definition extends :: "nat \<Rightarrow> real \<Rightarrow> lrclib_settings \<Rightarrow> transport_state \<Rightarrow> transport_state \<Rightarrow> bool" where
  "extends n deadline s st st' \<longleftrightarrow> (\<exists>new. tr_requests st' = tr_requests st @ new \<and> length new \<le> n
     \<and> (\<forall>(a, t)\<in>set new. tr_clock st \<le> a \<and> a < deadline \<and> 0 < t \<and> t \<le> max (ls_timeout s) min_timeout))
     \<and> tr_clock st \<le> tr_clock st'"

lemma extends_refl: "extends n deadline s st st"
  by (simp add: extends_def)

lemma extends_trans:
  assumes "extends m deadline s st st1" "extends n deadline s st1 st2"
  shows "extends (m + n) deadline s st st2"
proof -
  obtain new1 where 1: "tr_requests st1 = tr_requests st @ new1" "length new1 \<le> m"
    "\<forall>(a, t)\<in>set new1. tr_clock st \<le> a \<and> a < deadline \<and> 0 < t \<and> t \<le> max (ls_timeout s) min_timeout" "tr_clock st \<le> tr_clock st1"
    using assms(1) by (auto simp: extends_def)
  obtain new2 where 2: "tr_requests st2 = tr_requests st1 @ new2" "length new2 \<le> n"
    "\<forall>(a, t)\<in>set new2. tr_clock st1 \<le> a \<and> a < deadline \<and> 0 < t \<and> t \<le> max (ls_timeout s) min_timeout" "tr_clock st1 \<le> tr_clock st2"
    using assms(2) by (auto simp: extends_def)
  have "\<forall>(a, t)\<in>set (new1 @ new2). tr_clock st \<le> a \<and> a < deadline \<and> 0 < t \<and> t \<le> max (ls_timeout s) min_timeout"
    using 1(3,4) 2(3) by fastforce
  moreover have "tr_requests st2 = tr_requests st @ (new1 @ new2)" "length (new1 @ new2) \<le> m + n" "tr_clock st \<le> tr_clock st2"
    using 1 2 by simp_all
  ultimately show ?thesis unfolding extends_def by blast
qed

lemma extends_mono: "extends m deadline s st st' \<Longrightarrow> m \<le> n \<Longrightarrow> extends n deadline s st st'"
  unfolding extends_def by (meson le_trans)

lemma make_request_extends:
  assumes "honest w" "tr_clock st < deadline"
  shows "extends 1 deadline s st (snd (make_request w (request_timeout s deadline st) st))"
proof -
  let ?t = "request_timeout s deadline st"
  obtain r e where a: "answer w (length (tr_requests st)) (tr_clock st) ?t = (r, e)"
    by (cases "answer w (length (tr_requests st)) (tr_clock st) ?t")
  have "tr_clock st \<le> e" using assms(1) a by (metis honest_def snd_conv)
  moreover have "0 < ?t" "?t \<le> max (ls_timeout s) min_timeout"
    by (auto simp: request_timeout_def min_timeout_def)
  ultimately show ?thesis using assms(2) by (auto simp: extends_def make_request_def a)
qed

lemma wait_for_turn_extends:
  assumes "honest w" "wait_for_turn w deadline delay st = (turn, st')"
  shows "extends 0 deadline s st st'" "turn \<Longrightarrow> tr_clock st' < deadline"
  using assms pacer_wait_frame [OF assms(1), where st = st and d = delay]
  by (auto simp: wait_for_turn_def extends_def Let_def split: if_split_asm)

lemma make_request_logged: "length (tr_requests (snd (make_request w t st))) = Suc (length (tr_requests st))"
  by (simp add: make_request_def split: prod.split)

lemma read_body_extends: "honest w \<Longrightarrow> extends 0 deadline s st (read_body w st)"
  by (simp add: extends_def read_body_def honest_def)

lemma extends_logged: "extends n deadline s st st' \<Longrightarrow> length (tr_requests st) \<le> length (tr_requests st')"
  by (auto simp: extends_def)

lemma sleep_within_extends:
  assumes "honest w" "sleep_within_budget w delay deadline st = (go, st')"
  shows "extends 0 deadline s st st'"
  using assms(2) sleep_for_frame [OF assms(1), where st = st]
  by (auto simp: sleep_within_budget_def extends_def Let_def split: if_split_asm seconds.splits)

text \<open>What is returned keeps the bound; what is raised has been asked for.\<close>

definition fits :: "lrclib_settings \<Rightarrow> transport_error + http_response \<Rightarrow> transport_state \<Rightarrow> transport_state \<Rightarrow> bool" where
  "fits s r st st' \<longleftrightarrow> (case r of Inr x \<Rightarrow> length (hr_body x) \<le> ls_max_bytes s
     | Inl e \<Rightarrow> length (tr_requests st) < length (tr_requests st'))"

lemma bounded_body: "bounded_response r limit = Inr x \<Longrightarrow> length (hr_body x) \<le> limit"
  by (auto simp: bounded_response_def bindR_Inr_iff dest: read_bounded_length split: if_split_asm)

lemma attempts_extends:
  assumes "honest w"
  shows "length (hr_body l) \<le> ls_max_bytes s \<Longrightarrow> attempts w s deadline n l st = (r, st') \<Longrightarrow>
    extends n deadline s st st' \<and> fits s r st st'"
proof (induction n arbitrary: l st)
  case 0
  then show ?case by (auto simp: extends_refl fits_def)
next
  case (Suc n)
  obtain turn st1 where w1: "wait_for_turn w deadline (ls_request_delay s) st = (turn, st1)"
    by (cases "wait_for_turn w deadline (ls_request_delay s) st")
  note e1 = wait_for_turn_extends [OF assms w1]
  show ?case
  proof (cases turn)
    case False
    then have "st' = st1" "r = Inr l" using Suc.prems(2) w1 by simp_all
    then show ?thesis using Suc.prems(1) extends_mono [OF e1(1) [where s = s]] by (simp add: fits_def)
  next
    case True
    let ?t = "request_timeout s deadline st1"
    obtain a st2 where w2: "make_request w ?t st1 = (a, st2)" by (cases "make_request w ?t st1")
    have e2: "extends 1 deadline s st st2"
      using extends_trans [OF e1(1) [where s = s] make_request_extends [where s = s, OF assms e1(2) [OF True]]] w2 by simp
    have l2: "length (tr_requests st) < length (tr_requests st2)"
      using extends_logged [OF e1(1)] make_request_logged [of w ?t st1] w2 by simp
    have stop: "extends (Suc n) deadline s st st2" by (rule extends_mono [OF e2]) simp
    have go: "extends (Suc n) deadline s st st' \<and> fits s r st st'"
      if "(case sleep_within_budget w d deadline st2 of (go, st3) \<Rightarrow>
             (case go of Inl e \<Rightarrow> (Inl e, st3) | Inr go \<Rightarrow>
               if go then attempts w s deadline n (status_only c) st3 else (Inr (status_only c), st3))) = (r, st')" for d c
    proof -
      obtain g st3 where w3: "sleep_within_budget w d deadline st2 = (g, st3)" by (cases "sleep_within_budget w d deadline st2")
      note s3 = sleep_within_extends [where s = s, OF assms w3]
      have e3: "extends 1 deadline s st st3" using extends_trans [OF e2 s3] by simp
      have l3: "length (tr_requests st) < length (tr_requests st3)" using l2 extends_logged [OF s3] by simp
      show ?thesis
      proof (cases "g = Inr True")
        case True
        then have "extends n deadline s st3 st' \<and> fits s r st3 st'"
          using that w3 by (intro Suc.IH [of "status_only c"]) (simp_all add: status_only_def)
        then show ?thesis using extends_trans [OF e3, of n st'] l3 by (auto simp: fits_def split: sum.splits)
      next
        case False
        then have "st' = st3" "fits s r st st'" using that w3 l3 by (auto simp: fits_def status_only_def split: sum.splits if_split_asm)
        then show ?thesis using extends_mono [OF e3, of "Suc n"] by simp
      qed
    qed
    show ?thesis
    proof (cases a)
      case ClientRaised
      then show ?thesis using Suc.prems(2) \<open>turn\<close> w1 w2 stop l2 by (auto simp: fits_def)
    next
      case RequestFailed
      show ?thesis
      proof (cases "n = 0")
        case True
        then show ?thesis using Suc.prems(2) \<open>turn\<close> w1 w2 RequestFailed stop by (auto simp: fits_def status_only_def)
      next
        case False
        show ?thesis by (rule go [where d = "Seconds 1" and c = None])
          (use Suc.prems(2) \<open>turn\<close> w1 w2 RequestFailed False in \<open>simp_all add: Let_def\<close>)
      qed
    next
      case (Answered resp)
      show ?thesis
      proof (cases "rr_status resp \<notin> set retry_statuses \<or> n = 0")
        case True
        then have r: "r = bounded_response resp (ls_max_bytes s)" "st' = read_body w st2"
          using Suc.prems(2) \<open>turn\<close> w1 w2 Answered by (auto simp: Let_def)
        have "length (tr_requests st) < length (tr_requests st')"
          using l2 by (simp add: r(2) read_body_def)
        then have "fits s r st st'" by (auto simp: fits_def r(1) bounded_body split: sum.splits)
        moreover have "extends (Suc n) deadline s st st'"
          using extends_trans [OF stop read_body_extends [OF assms, of deadline s st2]] r(2) by simp
        ultimately show ?thesis by blast
      next
        case False
        show ?thesis by (rule go [where d = "retry_after_seconds resp" and c = "Some (rr_status resp)"])
          (use Suc.prems(2) \<open>turn\<close> w1 w2 Answered False in \<open>simp_all add: Let_def\<close>)
      qed
    qed
  qed
qed

text \<open>C36. One lookup makes at most the configured number of requests, all started inside one retry
  budget counted from its first turn, each with a positive timeout within the configured one; the
  first turn comes no earlier than the request delay after the previous lookup ended; and it never
  keeps more of a body than the configured bound. It can only raise after a request was made, and
  its end is noted also then.\<close>

theorem transport_bounded:
  assumes "honest w" and "transport_get w s st = (r, st')"
  shows "\<exists>begun new. tr_requests st' = tr_requests st @ new \<and> length new \<le> ls_max_attempts s
     \<and> (\<forall>(a, t)\<in>set new. begun \<le> a \<and> a < begun + retry_budget s \<and> 0 < t \<and> t \<le> max (ls_timeout s) min_timeout)
     \<and> (\<forall>last_end. tr_last_completed st = Some last_end \<longrightarrow> last_end + ls_request_delay s \<le> begun)
     \<and> (case r of Inr x \<Rightarrow> length (hr_body x) \<le> ls_max_bytes s | Inl e \<Rightarrow> new \<noteq> [])
     \<and> tr_last_completed st' = Some (tr_clock st')"
proof -
  define st0 where "st0 = completion_gap w s st"
  have f: "tr_requests st0 = tr_requests st"
    "\<forall>e. tr_last_completed st = Some e \<longrightarrow> e + ls_request_delay s \<le> tr_clock st0"
    using sleep_for_frame [OF assms(1), where st = st] by (auto simp: st0_def completion_gap_def split: option.splits)
      (metis add.commute diff_add_cancel)
  obtain st1 where a: "attempts w s (tr_clock st0 + retry_budget s) (ls_max_attempts s) (status_only None) st0 = (r, st1)"
    "st' = st1\<lparr>tr_last_completed := Some (tr_clock st1)\<rparr>"
    using assms(2) by (auto simp: transport_get_def get_serialized_def st0_def split: prod.splits)
  have "extends (ls_max_attempts s) (tr_clock st0 + retry_budget s) s st0 st1 \<and> fits s r st0 st1"
    by (rule attempts_extends [OF assms(1) _ a(1)]) (simp add: status_only_def)
  then show ?thesis using f a(2) by (auto simp: extends_def fits_def split: sum.splits)
qed

section \<open>Witnesses\<close>

definition sample_settings :: lrclib_settings where
  "sample_settings = \<lparr>ls_enabled = True, ls_host = ''https://lrclib.net'', ls_user_agent = ''u'', ls_timeout = 15,
     ls_max_attempts = 3, ls_request_delay = 0.3, ls_max_bytes = 4194304, ls_threshold = 0.7\<rparr>"

definition sample_lookup :: lrclib_request where
  "sample_lookup = \<lparr>lq_track = ''Jack'', lq_artist = ''Beck'', lq_duration = 200, lq_album = None\<rparr>"

definition sample_payload :: record_payload where
  "sample_payload = \<lparr>rp_id = Some 7, rp_track = Some ''Jack'', rp_artist = Some ''Beck'', rp_album = None,
     rp_duration = Some (Finite 201), rp_synced = Some [91, 93]\<rparr>"

theorem lookup_best_candidate_witness:
  "case lrclib_lookup sample_tools (\<lambda>b. ''h'') (\<lambda>b. Some [sample_payload]) sample_settings sample_lookup 0
      \<lparr>hr_status = Some 200, hr_body = [91, 93], hr_truncated = False\<rparr> of
     LrclibProviderError p r \<Rightarrow> False | _ \<Rightarrow> True"
proof -
  let ?r = "\<lparr>hr_status = Some 200, hr_body = [91, 93], hr_truncated = False\<rparr>"
  have "hr_status ?r = Some 200" "\<not> hr_truncated ?r" "length (hr_body ?r) \<le> ls_max_bytes sample_settings"
    "(\<lambda>b. Some [sample_payload]) (hr_body ?r) = Some [sample_payload]"
    by (simp_all add: sample_settings_def)
  from lookup_best_candidate [OF this, where T = sample_tools and sha = "\<lambda>b. ''h''" and q = sample_lookup and now = 0]
  show ?thesis by (simp split: lrclib_result.splits)
qed

definition lrclib_world :: world where
  "lrclib_world = \<lparr>wake = (\<lambda>t. t), answer = (\<lambda>n t d. (RequestFailed, t + 1)), body_end = (\<lambda>n t. t)\<rparr>"

theorem transport_bounded_witness:
  "\<exists>new. tr_requests (snd (transport_get lrclib_world sample_settings
       \<lparr>tr_clock = 0, tr_next_start = None, tr_last_completed = None, tr_requests = []\<rparr>)) = new \<and> length new \<le> 3"
proof -
  obtain r st' where g: "transport_get lrclib_world sample_settings
      \<lparr>tr_clock = 0, tr_next_start = None, tr_last_completed = None, tr_requests = []\<rparr> = (r, st')"
    by (cases "transport_get lrclib_world sample_settings
      \<lparr>tr_clock = 0, tr_next_start = None, tr_last_completed = None, tr_requests = []\<rparr>")
  have "honest lrclib_world" by (simp add: honest_def lrclib_world_def)
  from transport_bounded [OF this g] have "length (tr_requests st') \<le> 3" by (auto simp: sample_settings_def)
  then show ?thesis by (simp add: g)
qed

end
