(* ===== verification/LyricFetch.thy ===== *)
theory LyricFetch imports Lrclib begin

text \<open>
  \<^bold>\<open>The lyric fetch\<close>: the reuse of earlier evidence (\<open>services/lyrics/reuse.py\<close>) and the job handler
  that binds synced lyrics to the current publication of a record
  (\<open>workers/handlers/lrclib.py\<close>).

  The database is the tables the handler reads and writes. The adapter's lookup, SHA-256, the JSON
  codec of the evidence, \<open>repr\<close> of a float and what the operating system says about paths are
  fields of the environment. A raised error carries the disk, since the caller rolls back the
  tables only. Durations are whole seconds, a thousand milliseconds each.
\<close>

section \<open>Tables\<close>

record lyric_record =
  ly_id :: string
  ly_match_state :: string
  ly_recording :: "string option"
  ly_release :: "string option"
  ly_status :: string
  ly_path :: "string option"
  ly_publication :: "string option"
  ly_sha256 :: "string option"
  ly_lyrics_updated :: "timestamp option"
  ly_updated :: timestamp
  ly_evidence :: "string option"

record lyric_publication =
  lpb_id :: string
  lpb_record :: string
  lpb_source :: "string option"
  lpb_state :: string
  lpb_path :: parts
  lpb_revision :: "int option"
  lpb_created :: timestamp

record lyric_revision =
  lrv_id :: int
  lrv_record :: string
  lrv_layer :: string
  lrv_tags :: "(string \<times> string) list option"
  lrv_created :: timestamp

record lyric_source =
  lsr_id :: string
  lsr_record :: "string option"
  lsr_sha256 :: string
  lsr_duration :: "int option"
  lsr_fingerprints :: "real option list"

record assignment_row =
  as_id :: int
  as_source :: string
  as_record :: "string option"
  as_state :: string

record lyric_event =
  lye_record :: string
  lye_source :: "string option"
  lye_kind :: string
  lye_state :: string
  lye_reason :: string
  lye_details :: string
  lye_at :: timestamp

record lyric_db =
  ld_records :: "lyric_record list"
  ld_publications :: "lyric_publication list"
  ld_revisions :: "lyric_revision list"
  ld_sources :: "lyric_source list"
  ld_assignments :: "assignment_row list"
  ld_events :: "lyric_event list"
  ld_disk :: disk
  ld_lookups :: "lrclib_request list"

record lyric_evidence =
  lev_input_hash :: string
  lev_publication :: string
  lev_outcome :: string
  lev_provenance :: lrclib_provenance
  lev_reason :: string
  lev_path :: "string option"
  lev_sha256 :: "string option"
  lev_expires :: "(timestamp \<times> bool) option" \<comment> \<open>with whether it carries a time zone\<close>

datatype lyric_error = LyInfrastructure string | LyNotConfigured string | LyTagsInvalid | LyText lrc_error
  | LyTransport transport_error

record lyric_env =
  le_configured :: bool
  le_settings :: lrclib_settings
  le_settings_after :: lrclib_settings
  le_lookup :: "lrclib_request \<Rightarrow> timestamp \<Rightarrow> transport_error + lrclib_result"
  le_now :: timestamp
  le_root :: "string + parts"
  le_resolve :: "parts \<Rightarrow> parts"
  le_resolve_strict :: "parts \<Rightarrow> parts option"
  le_symlink :: "parts \<Rightarrow> bool"
  le_token :: string
  le_fault :: write_fault
  le_fault_text :: string
  le_sha :: "octets \<Rightarrow> string"
  le_float :: "real \<Rightarrow> string"
  le_dump :: "lyric_evidence \<Rightarrow> string"
  le_parse :: "string \<Rightarrow> lyric_evidence option"

section \<open>Reuse of evidence\<close>

text \<open>The row of the greatest key: \<open>ORDER BY key DESC LIMIT 1\<close>.\<close>

definition greatest :: "('r \<Rightarrow> 'k::linorder) \<Rightarrow> 'r list \<Rightarrow> 'r option" where
  "greatest f rs = find (\<lambda>r. \<forall>x\<in>set rs. f x \<le> f r) rs"

definition optional_str :: "string option \<Rightarrow> json" where
  "optional_str x = (case x of None \<Rightarrow> JNull | Some s \<Rightarrow> JStr s)"

definition settings_json :: "(real \<Rightarrow> string) \<Rightarrow> lrclib_settings \<Rightarrow> json" where
  "settings_json fl s = JObj [(''enabled'', JBool (ls_enabled s)), (''host'', JStr (ls_host s)),
     (''match_confidence_threshold'', JReal (fl (ls_threshold s))), (''max_attempts'', JInt (int (ls_max_attempts s))),
     (''max_response_bytes'', JInt (int (ls_max_bytes s))), (''request_delay_seconds'', JReal (fl (ls_request_delay s))),
     (''timeout_seconds'', JReal (fl (ls_timeout s))), (''user_agent'', JStr (ls_user_agent s))]"

definition lookup_json :: "lrclib_request \<Rightarrow> json" where
  "lookup_json q = JObj [(''album_name'', optional_str (lq_album q)), (''artist_name'', JStr (lq_artist q)),
     (''duration_seconds'', JInt (lq_duration q)), (''track_name'', JStr (lq_track q))]"

definition verified_encoding :: "lyric_db \<Rightarrow> lyric_record \<Rightarrow> lyric_source \<Rightarrow> bool" where
  "verified_encoding db r s \<longleftrightarrow> ly_match_state r = ''matched'' \<and> ly_recording r \<noteq> None \<and> lsr_record s = Some (ly_id r)
     \<and> (case greatest as_id (filter (\<lambda>a. as_source a = lsr_id s) (ld_assignments db)) of None \<Rightarrow> False
        | Some a \<Rightarrow> as_record a = Some (ly_id r) \<and> as_state a = ''automatic_verified'')"

definition reuse_key :: "lyric_env \<Rightarrow> lyric_db \<Rightarrow> lyric_record \<Rightarrow> lyric_source \<Rightarrow> lrclib_request \<Rightarrow> lrclib_settings \<Rightarrow> string" where
  "reuse_key e db r s q settings = le_sha e (str_encode (dumps json_char []
     (JObj [(''identity'', JObj ([(''recording'', optional_str (ly_recording r)), (''release'', optional_str (ly_release r))]
              @ (if verified_encoding db r s then [] else [(''source_sha256'', JStr (lsr_sha256 s))]))),
            (''lookup'', lookup_json q), (''policy'', JInt 1), (''settings'', settings_json (le_float e) settings)])))"

text \<open>\<open>Path(text)\<close>: its components, and whether it is absolute.\<close>

fun split_path :: "string \<Rightarrow> string \<Rightarrow> string list" where
  "split_path w [] = [rev w]"
| "split_path w (c # s) = (if c = CHR ''/'' then rev w # split_path [] s else split_path (c # w) s)"

definition path_parts :: "string \<Rightarrow> parts" where
  "path_parts s = filter (\<lambda>p. p \<noteq> [] \<and> p \<noteq> ''.'') (split_path [] s)"

definition path_absolute :: "string \<Rightarrow> bool" where
  "path_absolute s = str_startswith s ''/''"

definition max_sidecar :: nat where "max_sidecar = 4194304"

text \<open>\<open>read_validated_sidecar\<close>: \<open>ValueError\<close> is a miss, \<open>OverflowError\<close> is not caught.\<close>

definition read_validated_sidecar :: "lyric_env \<Rightarrow> lyric_evidence \<Rightarrow> int \<Rightarrow> disk \<Rightarrow> lrc_error + codepoints option" where
  "read_validated_sidecar e ev d disk = (case (lev_path ev, lev_sha256 ev, le_root e) of
     (Some p, Some h, Inr media) \<Rightarrow>
       (if path_absolute p \<or> ''..'' \<in> set (path_parts p) then Inr None else
        let path = media @ path_parts p in
        if \<exists>q\<in>set (path # path_parents path). le_symlink e q then Inr None else
        (case le_resolve_strict e path of None \<Rightarrow> Inr None | Some real_path \<Rightarrow>
          if media \<notin> set (path_parents real_path) then Inr None else
          (case disk path of None \<Rightarrow> Inr None | Some content \<Rightarrow>
            (let payload = take (max_sidecar + 1) content in
             if max_sidecar < length payload \<or> le_sha e payload \<noteq> h then Inr None
             else (case validate_synced_lyrics payload (d * 1000) of
                 Inr (SyncedLyricsValid text _ _) \<Rightarrow> Inr (Some text)
               | Inr (SyncedLyricsInvalid _) \<Rightarrow> Inr None
               | Inl OverflowError \<Rightarrow> Inl OverflowError
               | Inl ValueError \<Rightarrow> Inr None)))))
   | _ \<Rightarrow> Inr None)"

section \<open>Settling a fetch\<close>

definition event_kind :: "string \<Rightarrow> string" where
  "event_kind outcome = (if outcome = ''none'' then ''lrclib_fetch_skipped'' else ''lrclib_fetch_'' @ outcome)"

definition details_json ::
  "string \<Rightarrow> string option \<Rightarrow> lrclib_provenance option \<Rightarrow> lrc_written option \<Rightarrow> string option \<Rightarrow> string" where
  "details_json outcome publication p sidecar validation_reason = dumps json_char [] (JObj (
     (case p of None \<Rightarrow> [] | Some x \<Rightarrow> [(''endpoint'', JStr (lp_endpoint x))]
        @ (case lp_status x of None \<Rightarrow> [] | Some s \<Rightarrow> [(''http_status'', JInt s)]))
     @ [(''outcome'', JStr outcome)]
     @ (case p of None \<Rightarrow> [] | Some x \<Rightarrow> [(''provider'', JStr (lp_provider_name x))])
     @ (case publication of None \<Rightarrow> [] | Some i \<Rightarrow> [(''publication_id'', JStr i)])
     @ (case p of None \<Rightarrow> [] | Some x \<Rightarrow>
          (case lp_record_id x of None \<Rightarrow> [] | Some i \<Rightarrow> [(''record_id'', JInt i)])
          @ [(''request_hash'', JStr (lp_req_hash x)), (''response_sha256'', JStr (lp_response_sha x))])
     @ (case sidecar of None \<Rightarrow> [] | Some w \<Rightarrow>
          [(''sidecar_path'', JStr (lw_relative w)), (''sidecar_sha256'', JStr (lw_sha256 w))])
     @ (case validation_reason of None \<Rightarrow> [] | Some r \<Rightarrow> [(''validation_reason'', JStr r)])))"

definition change_record :: "string \<Rightarrow> (lyric_record \<Rightarrow> lyric_record) \<Rightarrow> lyric_db \<Rightarrow> lyric_db" where
  "change_record i f db = db\<lparr>ld_records := update_row ly_id i f (ld_records db)\<rparr>"

definition settled_row ::
  "timestamp \<Rightarrow> string option \<Rightarrow> string \<Rightarrow> lrc_written option \<Rightarrow> lyric_record \<Rightarrow> lyric_record" where
  "settled_row now publication outcome sidecar r = r\<lparr>ly_status := outcome, ly_path := map_option lw_relative sidecar,
     ly_publication := (if sidecar = None then None else publication), ly_sha256 := map_option lw_sha256 sidecar,
     ly_lyrics_updated := Some now, ly_updated := now\<rparr>"

definition settle ::
  "lyric_env \<Rightarrow> string \<Rightarrow> lyric_publication option \<Rightarrow> string \<Rightarrow> string \<Rightarrow> lrclib_provenance option \<Rightarrow> lrc_written option
   \<Rightarrow> string option \<Rightarrow> lyric_db \<Rightarrow> lyric_db" where
  "settle e i publication outcome reason p sidecar validation_reason db =
     (let pid = map_option lpb_id publication;
          db = change_record i (settled_row (le_now e) pid outcome sidecar) db in
      db\<lparr>ld_events := ld_events db @ [\<lparr>lye_record = i, lye_source = Option.bind publication lpb_source,
        lye_kind = event_kind outcome, lye_state = outcome, lye_reason = reason,
        lye_details = details_json outcome pid p sidecar validation_reason, lye_at = le_now e\<rparr>]\<rparr>)"

definition accept_lyrics ::
  "lyric_env \<Rightarrow> string \<Rightarrow> lyric_publication \<Rightarrow> lrclib_provenance \<Rightarrow> codepoints \<Rightarrow> int \<Rightarrow> string option \<Rightarrow> lyric_db
   \<Rightarrow> (lyric_error \<times> disk) + lyric_db" where
  "accept_lyrics e i pub p lyrics d reused_from db = (case utf8_encode lyrics of
     None \<Rightarrow> Inr (settle e i (Some pub) ''validation_rejected'' r_invalid_utf8 (Some p) None (Some r_invalid_utf8) db)
   | Some payload \<Rightarrow> (case validate_synced_lyrics payload (d * 1000) of
       Inl err \<Rightarrow> Inl (LyText err, ld_disk db)
     | Inr (SyncedLyricsInvalid reason) \<Rightarrow>
         Inr (settle e i (Some pub) ''validation_rejected'' reason (Some p) None (Some reason) db)
     | Inr (SyncedLyricsValid text _ _) \<Rightarrow>
         (case write_lrc_atomically (le_sha e) (le_root e) (le_resolve e) (lpb_path pub) text (le_token e) (le_fault e)
             (le_fault_text e) (ld_disk db) of
            Inl err \<Rightarrow> Inl (LyText err, ld_disk db)
          | Inr (LrcWriteRejected reason, states) \<Rightarrow>
              Inl (LyInfrastructure (''lyric sidecar was not written: '' @ reason), last states)
          | Inr (LrcWritten w, states) \<Rightarrow>
              Inr (settle e i (Some pub) ''synced'' (''validated synced lyrics written to '' @ lw_relative w
                  @ (case reused_from of None \<Rightarrow> [] | Some x \<Rightarrow> '' (reused from '' @ x @ '')'')) (Some p) (Some w) None
                (db\<lparr>ld_disk := last states\<rparr>)))))"

definition skip_disabled :: "lyric_env \<Rightarrow> lyric_record \<Rightarrow> lyric_db \<Rightarrow> lyric_db" where
  "skip_disabled e r db = (if ly_status r = ''synced'' then db
     else settle e (ly_id r) None ''none'' ''lrclib provider is disabled in runtime settings'' None None None db)"

section \<open>The handler\<close>

definition current_publication :: "lyric_db \<Rightarrow> string \<Rightarrow> lyric_publication option" where
  "current_publication db i = greatest (\<lambda>p. (lpb_created p, lpb_id p))
     (filter (\<lambda>p. lpb_record p = i \<and> lpb_state p = ''current'') (ld_publications db))"

definition final_revision :: "lyric_db \<Rightarrow> lyric_publication \<Rightarrow> lyric_revision option" where
  "final_revision db p =
     (let bound = (case lpb_revision p of None \<Rightarrow> None | Some i \<Rightarrow> find_row lrv_id i (ld_revisions db)) in
      case bound of
        Some v \<Rightarrow> if lrv_layer v = ''final'' then Some v
          else greatest (\<lambda>v. (lrv_created v, lrv_id v))
            (filter (\<lambda>v. lrv_record v = lpb_record p \<and> lrv_layer v = ''final'') (ld_revisions db))
      | None \<Rightarrow> greatest (\<lambda>v. (lrv_created v, lrv_id v))
            (filter (\<lambda>v. lrv_record v = lpb_record p \<and> lrv_layer v = ''final'') (ld_revisions db)))"

definition publication_tags :: "lyric_db \<Rightarrow> lyric_publication \<Rightarrow> (string \<times> string) list option" where
  "publication_tags db p = (case final_revision db p of None \<Rightarrow> Some [] | Some v \<Rightarrow> lrv_tags v)"

definition tag_text :: "(string \<times> string) list \<Rightarrow> string \<Rightarrow> string" where
  "tag_text tags name = str_strip (str_or (dict_get tags name) [])"

definition persisted_duration_seconds :: "lyric_source \<Rightarrow> int option" where
  "persisted_duration_seconds s = (case lsr_duration s of Some d \<Rightarrow> Some d
     | None \<Rightarrow> if lsr_fingerprints s = [] then None else map_option py_round (last (lsr_fingerprints s)))"

text \<open>A publication whose source is gone has none.\<close>

definition publication_source :: "lyric_db \<Rightarrow> lyric_publication \<Rightarrow> lyric_source option" where
  "publication_source db p = Option.bind (lpb_source p) (\<lambda>i. find_row lsr_id i (ld_sources db))"

text \<open>Stored evidence that does not parse is a miss.\<close>

definition stored_evidence :: "lyric_env \<Rightarrow> lyric_record \<Rightarrow> lyric_evidence option" where
  "stored_evidence e r = Option.bind (ly_evidence r) (le_parse e)"

definition set_evidence :: "lyric_env \<Rightarrow> string \<Rightarrow> lyric_evidence \<Rightarrow> lyric_db \<Rightarrow> lyric_db" where
  "set_evidence e i ev = change_record i (\<lambda>r. r\<lparr>ly_evidence := Some (le_dump e ev)\<rparr>)"

text \<open>The reuse of a validated sidecar: its text, or none.\<close>

definition reusable_text :: "lyric_env \<Rightarrow> lyric_evidence option \<Rightarrow> string \<Rightarrow> int \<Rightarrow> disk \<Rightarrow> lrc_error + (lyric_evidence \<times> codepoints) option" where
  "reusable_text e ev key d disk = (case ev of
     Some x \<Rightarrow> if lev_input_hash x = key \<and> lev_outcome x = ''synced''
       then bindR (read_validated_sidecar e x d disk) (\<lambda>t. Inr (map_option (\<lambda>t. (x, t)) t)) else Inr None
   | None \<Rightarrow> Inr None)"

definition reusable_absence :: "lyric_env \<Rightarrow> lyric_evidence option \<Rightarrow> string \<Rightarrow> lyric_publication \<Rightarrow> lyric_evidence option" where
  "reusable_absence e ev key pub = (case ev of
     Some x \<Rightarrow> if lev_input_hash x = key \<and> lev_outcome x = ''no_candidate'' \<and> lev_publication x \<noteq> lpb_id pub
         \<and> (case lev_expires x of Some (t, True) \<Rightarrow> le_now e < t | _ \<Rightarrow> False) then Some x else None
   | None \<Rightarrow> None)"

definition fetch_fresh ::
  "lyric_env \<Rightarrow> string \<Rightarrow> lyric_publication \<Rightarrow> lrclib_request \<Rightarrow> string \<Rightarrow> int \<Rightarrow> lyric_db \<Rightarrow> (lyric_error \<times> disk) + lyric_db" where
  "fetch_fresh e i pub q key d db0 =
     (let db = db0\<lparr>ld_lookups := ld_lookups db0 @ [q]\<rparr>; unchanged = (le_settings_after e = le_settings e) in
      case le_lookup e q (le_now e) of
        Inl err \<Rightarrow> Inl (LyTransport err, ld_disk db)
      | Inr (LrclibSynced p lyrics) \<Rightarrow> bindR (accept_lyrics e i pub p lyrics d None db) (\<lambda>db'.
          (case find_row ly_id i (ld_records db') of
             Some r \<Rightarrow> Inr (if ly_status r = ''synced'' \<and> unchanged
               then set_evidence e i \<lparr>lev_input_hash = key, lev_publication = lpb_id pub, lev_outcome = ''synced'',
                   lev_provenance = p, lev_reason = ''validated synced lyrics'', lev_path = ly_path r,
                   lev_sha256 = ly_sha256 r, lev_expires = None\<rparr> db'
               else db')
           | None \<Rightarrow> Inr db'))
      | Inr (LrclibNoCandidate p reason) \<Rightarrow>
          (let db' = settle e i (Some pub) ''no_candidate'' reason (Some p) None None db in
           Inr (if unchanged then set_evidence e i \<lparr>lev_input_hash = key, lev_publication = lpb_id pub,
                lev_outcome = ''no_candidate'', lev_provenance = p, lev_reason = reason, lev_path = None,
                lev_sha256 = None, lev_expires = Some (le_now e + 86400000000, True)\<rparr> db' else db'))
      | Inr (LrclibProviderError p reason) \<Rightarrow> Inr (settle e i (Some pub) ''error'' reason (Some p) None None db))"

definition fetch_for ::
  "lyric_env \<Rightarrow> lyric_record \<Rightarrow> lyric_publication \<Rightarrow> lyric_source \<Rightarrow> lrclib_request \<Rightarrow> int \<Rightarrow> lyric_db
   \<Rightarrow> (lyric_error \<times> disk) + lyric_db" where
  "fetch_for e r pub s q d db =
     (let i = ly_id r; key = reuse_key e db r s q (le_settings e); ev = stored_evidence e r in
      case reusable_text e ev key d (ld_disk db) of
        Inl err \<Rightarrow> Inl (LyText err, ld_disk db)
      | Inr (Some (x, text)) \<Rightarrow> accept_lyrics e i pub (lev_provenance x) text d (Some (lev_publication x)) db
      | Inr None \<Rightarrow> (case reusable_absence e ev key pub of
          Some x \<Rightarrow> Inr (set_evidence e i (x\<lparr>lev_publication := lpb_id pub\<rparr>)
            (settle e i (Some pub) ''no_candidate'' (''cached absence: '' @ lev_reason x) (Some (lev_provenance x)) None None db))
        | None \<Rightarrow> fetch_fresh e i pub q key d db))"

definition handle_lrclib :: "lyric_env \<Rightarrow> string option \<Rightarrow> lyric_db \<Rightarrow> (lyric_error \<times> disk) + lyric_db" where
  "handle_lrclib e target db = (case target of
     None \<Rightarrow> Inl (LyInfrastructure ''lrclib fetch requires a library record target'', ld_disk db)
   | Some i \<Rightarrow> (case find_row ly_id i (ld_records db) of
       None \<Rightarrow> Inl (LyInfrastructure ''lrclib fetch library record is missing'', ld_disk db)
     | Some r \<Rightarrow>
       if \<not> le_configured e then Inl (LyNotConfigured ''lrclib provider is not configured for the runtime'', ld_disk db)
       else if \<not> ls_enabled (le_settings e) then Inr (skip_disabled e r db)
       else (case current_publication db i of
         None \<Rightarrow> Inr (settle e i None ''error'' ''no current publication to bind synced lyrics to'' None None None db)
       | Some pub \<Rightarrow> (case publication_tags db pub of
           None \<Rightarrow> Inl (LyTagsInvalid, ld_disk db)
         | Some tags \<Rightarrow>
           (let track = tag_text tags ''TITLE''; artist = tag_text tags ''ARTIST''; album = tag_text tags ''ALBUM'';
                fail = (\<lambda>reason. Inr (settle e i (Some pub) ''error'' reason None None None db)) in
            if track = [] \<or> artist = [] then fail ''published final metadata has no track title and artist''
            else (case publication_source db pub of
                None \<Rightarrow> fail ''published audio duration is unknown''
              | Some s \<Rightarrow> (case persisted_duration_seconds s of
                  None \<Rightarrow> fail ''published audio duration is unknown''
                | Some d \<Rightarrow> fetch_for e r pub s \<lparr>lq_track = track, lq_artist = artist, lq_duration = d,
                    lq_album = (if album = [] then None else Some album)\<rparr> d db)))))))"

section \<open>What a fetch leaves behind\<close>

definition lyric_fields_ok :: "lyric_record \<Rightarrow> bool" where
  "lyric_fields_ok r \<longleftrightarrow> (if ly_status r = ''synced''
     then ly_path r \<noteq> None \<and> ly_publication r \<noteq> None \<and> ly_sha256 r \<noteq> None
     else ly_path r = None \<and> ly_publication r = None \<and> ly_sha256 r = None)"

definition records_ok :: "lyric_db \<Rightarrow> bool" where
  "records_ok db \<longleftrightarrow> (\<forall>r\<in>set (ld_records db). lyric_fields_ok r)"

text \<open>The temporary names of the writer are fresh, as \<open>NamedTemporaryFile\<close> chooses them.\<close>

definition fresh_token :: "lyric_env \<Rightarrow> disk \<Rightarrow> bool" where
  "fresh_token e d \<longleftrightarrow> (\<forall>directory name. d (directory @ [temporary_name name (le_token e)]) = None)"

text \<open>The file that binds lyrics to the current publication of a record: the sidecar of the published audio,
  holding a text that is valid for its duration.\<close>

definition valid_sidecar :: "lyric_env \<Rightarrow> lyric_db \<Rightarrow> string \<Rightarrow> lyric_publication \<Rightarrow> parts \<Rightarrow> octets \<Rightarrow> bool" where
  "valid_sidecar e db i pub out payload \<longleftrightarrow> current_publication db i = Some pub
     \<and> (\<exists>media s len text n l. le_root e = Inr media \<and> lrc_output_path (le_resolve e) media (lpb_path pub) = Inr out
       \<and> publication_source db pub = Some s \<and> persisted_duration_seconds s = Some len
       \<and> utf8_encode text = Some payload \<and> validate_synced_text text (len * 1000) = Inr (SyncedLyricsValid text n l))"

definition bound_to :: "lyric_env \<Rightarrow> lyric_publication \<Rightarrow> parts \<Rightarrow> octets \<Rightarrow> lyric_record \<Rightarrow> bool" where
  "bound_to e pub out payload r \<longleftrightarrow> ly_status r = ''synced'' \<and> ly_publication r = Some (lpb_id pub)
     \<and> ly_sha256 r = Some (le_sha e payload)
     \<and> (\<exists>media. le_root e = Inr media \<and> ly_path r = Some (str_join ''/'' (drop (length media) out)))"

text \<open>The database after a fetch for a record: unchanged; or the record settled without lyrics; or bound to the
  sidecar that was written.\<close>

definition settled :: "lyric_env \<Rightarrow> lyric_db \<Rightarrow> string \<Rightarrow> lyric_db \<Rightarrow> bool" where
  "settled e db i db' \<longleftrightarrow> records_ok db' \<and> (\<forall>j. j \<noteq> i \<longrightarrow> find_row ly_id j (ld_records db') = find_row ly_id j (ld_records db))
     \<and> (\<exists>r. find_row ly_id i (ld_records db') = Some r \<and> ly_id r = i
       \<and> (ly_status r \<noteq> ''synced'' \<and> ld_disk db' = ld_disk db
        \<or> (\<exists>pub out payload. valid_sidecar e db i pub out payload \<and> bound_to e pub out payload r
            \<and> ld_disk db' = (ld_disk db)(out := Some payload))))"

text \<open>What a run that raises may leave: nothing, or the valid sidecar itself when only the synchronisation of its
  directory failed.\<close>

definition raised_disk :: "lyric_env \<Rightarrow> lyric_db \<Rightarrow> string \<Rightarrow> disk \<Rightarrow> bool" where
  "raised_disk e db i d \<longleftrightarrow> d = ld_disk db
     \<or> le_fault e = DirSyncFails \<and> (\<exists>pub out payload. valid_sidecar e db i pub out payload \<and> d = (ld_disk db)(out := Some payload))"

definition fetch_left :: "lyric_env \<Rightarrow> lyric_db \<Rightarrow> string \<Rightarrow> (lyric_error \<times> disk) + lyric_db \<Rightarrow> bool" where
  "fetch_left e db i res \<longleftrightarrow> (case res of Inl (err, d) \<Rightarrow> raised_disk e db i d | Inr db' \<Rightarrow> settled e db i db')"

lemma fetch_left_error [simp]: "fetch_left e db i (Inl (err, ld_disk db))"
  by (simp add: fetch_left_def raised_disk_def)

interpretation settle_write: keyed_write ly_id "settled_row now publication outcome sidecar" for now publication outcome sidecar
  by unfold_locales (simp add: settled_row_def)

interpretation evidence_write: keyed_write ly_id "\<lambda>r. r\<lparr>ly_evidence := x\<rparr>" for x
  by unfold_locales simp

lemmas row_updates = settle_write.find_update_same settle_write.find_update_other
  evidence_write.find_update_same evidence_write.find_update_other

lemma settle_records:
  "ld_records (settle e i publication outcome reason p sidecar v db)
    = update_row ly_id i (settled_row (le_now e) (map_option lpb_id publication) outcome sidecar) (ld_records db)"
  by (simp add: settle_def Let_def change_record_def)

lemma settle_disk: "ld_disk (settle e i publication outcome reason p sidecar v db) = ld_disk db"
  by (simp add: settle_def Let_def change_record_def)

lemma update_records_ok:
  assumes "\<forall>r\<in>set rs. lyric_fields_ok r" "\<And>r. lyric_fields_ok r \<Longrightarrow> lyric_fields_ok (f r)"
  shows "\<forall>r\<in>set (update_row ly_id i f rs). lyric_fields_ok r"
  using assms by (auto simp: update_row_def)

text \<open>A fetch that settles without lyrics, on tables that may have logged a lookup.\<close>

lemma settle_without:
  assumes "records_ok db" "find_row ly_id i (ld_records db) = Some r" "outcome \<noteq> ''synced''"
    and "ld_records db1 = ld_records db" "ld_disk db1 = ld_disk db"
  shows "settled e db i (settle e i publication outcome reason p None v db1)"
proof -
  let ?f = "settled_row (le_now e) (map_option lpb_id publication) outcome None"
    and ?db = "settle e i publication outcome reason p None v db1"
  have "\<forall>r\<in>set (update_row ly_id i ?f (ld_records db)). lyric_fields_ok r"
    by (rule update_records_ok) (use assms(1,3) in \<open>auto simp: records_ok_def lyric_fields_ok_def settled_row_def\<close>)
  then have ok: "records_ok ?db" using assms(4) by (simp add: records_ok_def settle_records)
  have f: "find_row ly_id i (ld_records ?db) = Some (?f r)"
    and n: "j \<noteq> i \<Longrightarrow> find_row ly_id j (ld_records ?db) = find_row ly_id j (ld_records db)" for j
    using assms(2,4) by (simp_all add: settle_records row_updates)
  have r: "ly_id (?f r) = i" "ly_status (?f r) \<noteq> ''synced''"
    using find_row_Some [OF assms(2)] assms(3) by (simp_all add: settled_row_def)
  have d: "ld_disk ?db = ld_disk db" using assms(5) by (simp add: settle_disk)
  show ?thesis unfolding settled_def f d using ok n r by blast
qed

lemma bound_evidence [simp]: "bound_to e pub out payload (r\<lparr>ly_evidence := x\<rparr>) = bound_to e pub out payload r"
  by (simp add: bound_to_def)

lemma settled_evidence:
  assumes "settled e db i db1"
  shows "settled e db i (set_evidence e i ev db1)"
proof -
  let ?f = "\<lambda>r. r\<lparr>ly_evidence := Some (le_dump e ev)\<rparr>"
  note a = assms [unfolded settled_def]
  have "\<forall>r\<in>set (update_row ly_id i ?f (ld_records db1)). lyric_fields_ok r"
    by (rule update_records_ok) (use a in \<open>auto simp: records_ok_def lyric_fields_ok_def\<close>)
  then have ok: "records_ok (set_evidence e i ev db1)" by (simp add: records_ok_def set_evidence_def change_record_def)
  have d: "ld_disk (set_evidence e i ev db1) = ld_disk db1"
    and f: "find_row ly_id i (ld_records (set_evidence e i ev db1)) = map_option ?f (find_row ly_id i (ld_records db1))"
    and n: "j \<noteq> i \<Longrightarrow> find_row ly_id j (ld_records (set_evidence e i ev db1)) = find_row ly_id j (ld_records db1)" for j
    by (simp_all add: set_evidence_def change_record_def row_updates)
  obtain r where r: "find_row ly_id i (ld_records db1) = Some r" "ly_id r = i"
    "ly_status r \<noteq> ''synced'' \<and> ld_disk db1 = ld_disk db
      \<or> (\<exists>pub out payload. valid_sidecar e db i pub out payload \<and> bound_to e pub out payload r
          \<and> ld_disk db1 = (ld_disk db)(out := Some payload))" using a by blast
  then show ?thesis using a ok n unfolding settled_def d f by simp
qed

text \<open>The write of a valid text.\<close>

lemma written_disk:
  assumes "write_lrc_atomically sha (Inr media) rs audio text token fault err d = Inr (LrcWritten w, states)"
    and "\<forall>directory name. d (directory @ [temporary_name name token]) = None"
  shows "\<exists>out payload. lrc_output_path rs media audio = Inr out \<and> utf8_encode text = Some payload
    \<and> last states = d(out := Some payload) \<and> lw_relative w = str_join ''/'' (drop (length media) out) \<and> lw_sha256 w = sha payload"
proof -
  have n: "d(butlast out @ [temporary_name (path_name out) token] := None) = d" for out
    by (rule fun_upd_idem) (use assms(2) in blast)
  show ?thesis using assms(1) unfolding write_lrc_atomically_def
    by (cases fault) (auto simp: replace_file_def could_not_write_def Let_def n split: sum.splits option.splits)
qed

lemma rejected_disk:
  assumes "write_lrc_atomically sha media_dir rs audio text token fault err d = Inr (LrcWriteRejected reason, states)"
    and "\<forall>directory name. d (directory @ [temporary_name name token]) = None"
  shows "last states = d \<or> fault = DirSyncFails \<and> (\<exists>media out payload. media_dir = Inr media \<and> lrc_output_path rs media audio = Inr out
    \<and> utf8_encode text = Some payload \<and> last states = d(out := Some payload))"
proof -
  have n: "d(butlast out @ [temporary_name (path_name out) token] := None) = d" for out
    by (rule fun_upd_idem) (use assms(2) in blast)
  show ?thesis using assms(1) unfolding write_lrc_atomically_def
    by (cases fault) (auto simp: replace_file_def could_not_write_def Let_def n split: sum.splits option.splits)
qed

lemma written_root:
  "write_lrc_atomically sha media_dir rs audio text token fault err d = Inr (LrcWritten w, states) \<Longrightarrow> \<exists>media. media_dir = Inr media"
  by (auto simp: write_lrc_atomically_def split: sum.splits)

lemma settle_bound:
  assumes "\<forall>r\<in>set (update_row ly_id i (settled_row (le_now e) (Some (lpb_id pub)) ''synced'' (Some sc)) (ld_records db)). lyric_fields_ok r"
    and "find_row ly_id i (ld_records db) = Some r" and "ld_records db1 = ld_records db"
    and "valid_sidecar e db i pub out payload" and "ld_disk db1 = (ld_disk db)(out := Some payload)"
    and "bound_to e pub out payload (settled_row (le_now e) (Some (lpb_id pub)) ''synced'' (Some sc) r)"
  shows "settled e db i (settle e i (Some pub) ''synced'' reason p (Some sc) v db1)"
proof -
  let ?f = "settled_row (le_now e) (Some (lpb_id pub)) ''synced'' (Some sc)" and ?db = "settle e i (Some pub) ''synced'' reason p (Some sc) v db1"
  have ok: "records_ok ?db" using assms(1,3) by (simp add: records_ok_def settle_records)
  have f: "find_row ly_id i (ld_records ?db) = Some (?f r)"
    and n: "j \<noteq> i \<Longrightarrow> find_row ly_id j (ld_records ?db) = find_row ly_id j (ld_records db)" for j
    using assms(2,3) by (simp_all add: settle_records row_updates)
  have r: "ly_id (?f r) = i" using find_row_Some [OF assms(2)] by (simp add: settled_row_def)
  have d: "ld_disk ?db = (ld_disk db)(out := Some payload)" using assms(5) by (simp add: settle_disk)
  show ?thesis unfolding settled_def f d using ok n r assms(4,6) by blast
qed

text \<open>The publication and duration a fetch works with, and tables that may have logged a lookup.\<close>

definition working :: "lyric_env \<Rightarrow> lyric_db \<Rightarrow> string \<Rightarrow> lyric_publication \<Rightarrow> int \<Rightarrow> lyric_db \<Rightarrow> bool" where
  "working e db i pub len db1 \<longleftrightarrow> records_ok db \<and> fresh_token e (ld_disk db) \<and> find_row ly_id i (ld_records db) \<noteq> None
     \<and> current_publication db i = Some pub \<and> (\<exists>s. publication_source db pub = Some s \<and> persisted_duration_seconds s = Some len)
     \<and> ld_records db1 = ld_records db \<and> ld_disk db1 = ld_disk db"

lemma valid_from_payload:
  assumes "working e db i pub len db1" "validate_synced_lyrics bytes (len * 1000) = Inr (SyncedLyricsValid text n l)"
    "le_root e = Inr media" "lrc_output_path (le_resolve e) media (lpb_path pub) = Inr out" "utf8_encode text = Some payload"
  shows "valid_sidecar e db i pub out payload"
proof -
  obtain t where t: "validate_synced_text t (len * 1000) = Inr (SyncedLyricsValid text n l)"
    using assms(2) by (auto simp: validate_synced_lyrics_def split: option.splits)
  then have "t = text" by (auto simp: validate_text_valid)
  then have "utf8_encode text = Some payload \<and> validate_synced_text text (len * 1000) = Inr (SyncedLyricsValid text n l)"
    using t assms(5) by simp
  then show ?thesis using assms(1,3,4) unfolding valid_sidecar_def working_def by blast
qed

lemma accept_lyrics_left:
  assumes "working e db i pub len db1"
  shows "fetch_left e db i (accept_lyrics e i pub p lyrics len reused db1)"
proof -
  note w = assms [unfolded working_def]
  obtain r where r: "find_row ly_id i (ld_records db) = Some r" using w by blast
  have fr: "\<forall>directory name. ld_disk db1 (directory @ [temporary_name name (le_token e)]) = None"
    using w by (simp add: fresh_token_def)
  have no: "settled e db i (settle e i (Some pub) ''validation_rejected'' reason (Some p) None v db1)" for reason v
    by (rule settle_without [OF _ r]) (use w in simp_all)
  show ?thesis
  proof (cases "utf8_encode lyrics")
    case None
    then show ?thesis using no by (simp add: accept_lyrics_def fetch_left_def)
  next
    case enc: (Some bytes)
    show ?thesis
    proof (cases "validate_synced_lyrics bytes (len * 1000)")
      case (Inl err)
      then show ?thesis using w by (simp add: accept_lyrics_def enc fetch_left_def raised_disk_def)
    next
      case (Inr v)
      show ?thesis
      proof (cases v)
        case (SyncedLyricsInvalid reason)
        then show ?thesis using no Inr by (simp add: accept_lyrics_def enc fetch_left_def)
      next
        case (SyncedLyricsValid lyr n l)
        note val = Inr [unfolded SyncedLyricsValid]
        let ?w = "write_lrc_atomically (le_sha e) (le_root e) (le_resolve e) (lpb_path pub) lyr (le_token e) (le_fault e)
             (le_fault_text e) (ld_disk db1)"
        show ?thesis
        proof (cases ?w)
          case (Inl err)
          then show ?thesis using w by (simp add: accept_lyrics_def enc val fetch_left_def raised_disk_def)
        next
          case (Inr x)
          obtain wr states where x: "x = (wr, states)" by fastforce
          note wrote = Inr [unfolded x]
          show ?thesis
          proof (cases wr)
            case (LrcWriteRejected reason)
            have "raised_disk e db i (last states)"
              using rejected_disk [OF wrote [unfolded LrcWriteRejected] fr] valid_from_payload [OF assms val] w
              by (fastforce simp: raised_disk_def)
            then show ?thesis by (simp add: accept_lyrics_def enc val wrote LrcWriteRejected fetch_left_def)
          next
            case (LrcWritten sc)
            obtain media where media: "le_root e = Inr media" using written_root [OF wrote [unfolded LrcWritten]] by blast
            obtain out payload where o: "lrc_output_path (le_resolve e) media (lpb_path pub) = Inr out" "utf8_encode lyr = Some payload"
              "last states = (ld_disk db1)(out := Some payload)" "lw_relative sc = str_join ''/'' (drop (length media) out)"
              "lw_sha256 sc = le_sha e payload"
              using written_disk [OF wrote [unfolded LrcWritten media] fr] by blast
            have ok: "valid_sidecar e db i pub out payload" by (rule valid_from_payload [OF assms val media o(1,2)])
            have "\<forall>r\<in>set (update_row ly_id i (settled_row (le_now e) (Some (lpb_id pub)) ''synced'' (Some sc)) (ld_records db)).
                lyric_fields_ok r"
              by (rule update_records_ok) (use w in \<open>auto simp: records_ok_def lyric_fields_ok_def settled_row_def\<close>)
            then have "settled e db i (settle e i (Some pub) ''synced'' reason (Some p) (Some sc) None (db1\<lparr>ld_disk := last states\<rparr>))" for reason
              by (intro settle_bound [OF _ r _ ok]) (use w o media in \<open>simp_all add: bound_to_def settled_row_def\<close>)
            then show ?thesis by (simp add: accept_lyrics_def enc val wrote LrcWritten fetch_left_def)
          qed
        qed
      qed
    qed
  qed
qed

lemma fetch_left_evidence:
  assumes "fetch_left e db i (Inr db1)"
  shows "fetch_left e db i (Inr (set_evidence e i ev db1))"
  using assms settled_evidence by (simp add: fetch_left_def)

lemma fetch_fresh_left:
  assumes "working e db i pub len db"
  shows "fetch_left e db i (fetch_fresh e i pub q key len db)"
proof -
  let ?db = "db\<lparr>ld_lookups := ld_lookups db @ [q]\<rparr>"
  have w: "working e db i pub len ?db" using assms by (simp add: working_def)
  obtain r where r: "find_row ly_id i (ld_records db) = Some r" using assms by (auto simp: working_def)
  have no: "fetch_left e db i (Inr (settle e i (Some pub) outcome reason p None v ?db))" if "outcome \<noteq> ''synced''" for outcome reason p v
    unfolding fetch_left_def sum.case by (rule settle_without [OF _ r]) (use assms that in \<open>simp_all add: working_def\<close>)
  show ?thesis
  proof (cases "le_lookup e q (le_now e)")
    case (Inl err)
    then show ?thesis by (simp add: fetch_fresh_def Let_def)
  next
    case (Inr a)
    show ?thesis
    proof (cases a)
      case (LrclibSynced p lyrics)
      note left = accept_lyrics_left [OF w, of p lyrics None]
      show ?thesis
      proof (cases "accept_lyrics e i pub p lyrics len None ?db")
        case (Inl x)
        then show ?thesis using left Inr LrclibSynced by (simp add: fetch_fresh_def)
      next
        case (Inr db1)
        then show ?thesis using left \<open>le_lookup e q (le_now e) = Inr a\<close> LrclibSynced fetch_left_evidence
          by (simp add: fetch_fresh_def Let_def split: option.split)
      qed
    next
      case (LrclibNoCandidate p reason)
      then show ?thesis using no [of "''no_candidate''"] Inr fetch_left_evidence by (simp add: fetch_fresh_def Let_def)
    next
      case (LrclibProviderError p reason)
      then show ?thesis using no [of "''error''"] Inr by (simp add: fetch_fresh_def Let_def)
    qed
  qed
qed

lemma fetch_for_left:
  assumes "working e db (ly_id r) pub len db"
  shows "fetch_left e db (ly_id r) (fetch_for e r pub s q len db)"
proof -
  let ?i = "ly_id r"
  let ?key = "reuse_key e db r s q (le_settings e)" and ?ev = "stored_evidence e r"
  obtain r0 where r0: "find_row ly_id ?i (ld_records db) = Some r0" using assms by (auto simp: working_def)
  have no: "fetch_left e db ?i (Inr (settle e ?i (Some pub) ''no_candidate'' reason p None v db))" for reason p v
    unfolding fetch_left_def sum.case by (rule settle_without [OF _ r0]) (use assms in \<open>simp_all add: working_def\<close>)
  show ?thesis
  proof (cases "reusable_text e ?ev ?key len (ld_disk db)")
    case (Inl err)
    then show ?thesis by (simp add: fetch_for_def Let_def)
  next
    case (Inr x)
    show ?thesis
    proof (cases x)
      case None
      then show ?thesis using Inr fetch_fresh_left [OF assms] no fetch_left_evidence
        by (simp add: fetch_for_def Let_def split: option.split)
    next
      case (Some y)
      then show ?thesis using Inr accept_lyrics_left [OF assms] by (cases y) (simp add: fetch_for_def Let_def)
    qed
  qed
qed

lemma handle_lrclib_left:
  assumes "records_ok db" "fresh_token e (ld_disk db)"
  shows "case handle_lrclib e (Some i) db of
      Inl (err, d) \<Rightarrow> raised_disk e db i d
    | Inr db' \<Rightarrow> settled e db i db' \<or> db' = db \<and> \<not> ls_enabled (le_settings e)"
proof (cases "find_row ly_id i (ld_records db)")
  case None
  then show ?thesis by (simp add: handle_lrclib_def raised_disk_def)
next
  case (Some r)
  have id: "ly_id r = i" using find_row_Some [OF Some] by simp
  have no: "settled e db i (settle e i publication outcome reason p None v db)" if "outcome \<noteq> ''synced''"
    for publication outcome reason p v by (rule settle_without [OF assms(1) Some that]) simp_all
  show ?thesis
  proof (cases "le_configured e \<and> ls_enabled (le_settings e)")
    case False
    show ?thesis
    proof (cases "le_configured e \<and> ly_status r \<noteq> ''synced''")
      case True
      then have "handle_lrclib e (Some i) db
          = Inr (settle e i None ''none'' ''lrclib provider is disabled in runtime settings'' None None None db)"
        using False id by (simp add: handle_lrclib_def Some skip_disabled_def)
      then show ?thesis using no [of "''none''"] by simp
    next
      case no_change: False
      then show ?thesis using False by (auto simp: handle_lrclib_def Some skip_disabled_def raised_disk_def)
    qed
  next
    case True
    have left: "fetch_left e db i (handle_lrclib e (Some i) db)"
    proof (cases "current_publication db i")
      case None
      then show ?thesis using True no by (simp add: handle_lrclib_def Some fetch_left_def)
    next
      case pub: (Some pub)
      show ?thesis
      proof (cases "publication_tags db pub")
        case None
        then show ?thesis using True pub by (simp add: handle_lrclib_def Some)
      next
        case tags: (Some tags)
        show ?thesis
        proof (cases "\<exists>s len. publication_source db pub = Some s \<and> persisted_duration_seconds s = Some len
            \<and> tag_text tags ''TITLE'' \<noteq> [] \<and> tag_text tags ''ARTIST'' \<noteq> []")
          case False
          then show ?thesis using True pub tags no
            by (auto simp: handle_lrclib_def Some fetch_left_def Let_def split: option.split)
        next
          case ok: True
          then obtain s len where s: "publication_source db pub = Some s" "persisted_duration_seconds s = Some len" by blast
          have "working e db (ly_id r) pub len db" using assms Some pub s id by (simp add: working_def)
          from fetch_for_left [OF this] show ?thesis using True pub tags ok s id
            by (simp add: handle_lrclib_def Some Let_def)
        qed
      qed
    qed
    then show ?thesis by (auto simp: fetch_left_def split: sum.splits)
  qed
qed

text \<open>C37. Whatever a fetch for a record meets, the lyric fields of every record stay together (path, publication
  and hash are set exactly for the synced state) and other records are not touched. The record is bound to
  lyrics only when a text that is valid for the duration of its current publication was written to the sidecar
  of that publication, under the hash of the file; otherwise it is settled without lyrics and no file changed,
  or nothing changed at all because the provider is disabled. A fetch that raises changed no file, except that
  the valid sidecar is in place when only the synchronisation of its directory failed. The name of the
  temporary file is fresh.\<close>

theorem fetch_keeps_lyrics_valid:
  assumes "records_ok db" and "fresh_token e (ld_disk db)"
  shows "case handle_lrclib e (Some i) db of
      Inl (err, d) \<Rightarrow> raised_disk e db i d
    | Inr db' \<Rightarrow> settled e db i db' \<or> db' = db \<and> \<not> ls_enabled (le_settings e)"
  using assms by (rule handle_lrclib_left)

section \<open>Witnesses\<close>

definition sample_lyric_record :: lyric_record where
  "sample_lyric_record = \<lparr>ly_id = ''record-1'', ly_match_state = ''unmatched'', ly_recording = None, ly_release = None,
     ly_status = ''pending'', ly_path = None, ly_publication = None, ly_sha256 = None, ly_lyrics_updated = None,
     ly_updated = 0, ly_evidence = None\<rparr>"

definition sample_lyric_publication :: lyric_publication where
  "sample_lyric_publication = \<lparr>lpb_id = ''p'', lpb_record = ''record-1'', lpb_source = Some ''s'', lpb_state = ''current'',
     lpb_path = sample_audio, lpb_revision = Some 1, lpb_created = 0\<rparr>"

definition sample_lyric_db :: lyric_db where
  "sample_lyric_db = \<lparr>ld_records = [sample_lyric_record], ld_publications = [sample_lyric_publication],
     ld_revisions = [\<lparr>lrv_id = 1, lrv_record = ''record-1'', lrv_layer = ''final'',
       lrv_tags = Some [(''TITLE'', ''Jack''), (''ARTIST'', ''Beck'')], lrv_created = 0\<rparr>],
     ld_sources = [\<lparr>lsr_id = ''s'', lsr_record = Some ''record-1'', lsr_sha256 = ''x'', lsr_duration = Some 200, lsr_fingerprints = []\<rparr>],
     ld_assignments = [], ld_events = [], ld_disk = (\<lambda>p. None), ld_lookups = []\<rparr>"

definition sample_provenance :: lrclib_provenance where
  "sample_provenance = \<lparr>lp_req_hash = ''a'', lp_response_sha = ''b'', lp_provider_name = ''lrclib'', lp_endpoint = ''e'',
     lp_status = Some 200, lp_captured_at = 0, lp_record_id = Some 7\<rparr>"

text \<open>Two lines, \<^verbatim>\<open>[00:01]a\<close> and \<^verbatim>\<open>[00:02]b\<close>.\<close>

definition sample_lyrics :: codepoints where
  "sample_lyrics = [91, 48, 48, 58, 48, 49, 93, 97, 10, 91, 48, 48, 58, 48, 50, 93, 98]"

definition sample_lyric_env :: "write_fault \<Rightarrow> lyric_env" where
  "sample_lyric_env fault = \<lparr>le_configured = True, le_settings = sample_settings, le_settings_after = sample_settings,
     le_lookup = (\<lambda>q now. Inr (LrclibSynced sample_provenance sample_lyrics)), le_now = 9, le_root = Inr [''media''],
     le_resolve = id, le_resolve_strict = Some, le_symlink = (\<lambda>p. False), le_token = ''t'', le_fault = fault,
     le_fault_text = [], le_sha = (\<lambda>b. ''h''), le_float = (\<lambda>x. ''0.5''), le_dump = (\<lambda>ev. ''json''), le_parse = (\<lambda>s. None)\<rparr>"

lemma sample_lyrics_encoded: "utf8_encode sample_lyrics = Some sample_lyrics" "utf8_decode sample_lyrics = Some sample_lyrics"
  by (simp_all add: sample_lyrics_def utf8_encode_point_def utf8_decode.simps)

lemma sample_decimals: "decimal_value 48 = Some 0" "decimal_value 49 = Some 1" "decimal_value 50 = Some 2"
  "decimal_value 58 = None" "decimal_value 93 = None"
  by (simp_all add: decimal_value_def decimal_zeros_def)

lemma sample_lines: "cp_splitlines sample_lyrics = [[91, 48, 48, 58, 48, 49, 93, 97], [91, 48, 48, 58, 48, 50, 93, 98]]"
  by (simp add: cp_splitlines_def sample_lyrics_def line_break_def)

definition sample_stamp :: "nat \<Rightarrow> stamp" where
  "sample_stamp second = \<lparr>st_negative = False, st_minutes = [48, 48], st_seconds = [48, second], st_fraction = []\<rparr>"

lemma sample_kinds: "line_kind [91, 48, 48, 58, 48, 49, 93, 97] = Cue [sample_stamp 49]"
    "line_kind [91, 48, 48, 58, 48, 50, 93, 98] = Cue [sample_stamp 50]"
  by (simp_all add: line_kind_def cp_strip_def cp_space_def metadata_line_def expect_def ascii_alpha_def scan_stamps.simps scan_stamp_def
      scan_time_def scan_seconds_def scan_fraction_def is_decimal_def sample_decimals sample_stamp_def)

lemma sample_timestamps: "timestamps [sample_stamp 49] = Inr [1000]" "timestamps [sample_stamp 50] = Inr [2000]"
  by (simp_all add: timestamps_def stamp_ms_def py_int_def Lrc.digits_value_def sample_stamp_def sample_decimals)

lemma sample_lyrics_valid: "validate_synced_lyrics sample_lyrics 200000 = Inr (SyncedLyricsValid sample_lyrics 2 2000)"
  by (simp add: validate_synced_lyrics_def sample_lyrics_encoded validate_synced_text_def sample_lines validate_lines_Cons sample_kinds
      sample_timestamps)

lemma sample_fresh: "fresh_token (sample_lyric_env fault) (ld_disk sample_lyric_db)" "records_ok sample_lyric_db"
  by (simp_all add: fresh_token_def records_ok_def lyric_fields_ok_def sample_lyric_db_def sample_lyric_record_def)

lemma sample_output: "lrc_output_path id [''media''] sample_audio = Inr [''media'', ''Beck'', ''01.lrc'']"
  using sample_parent by (simp add: lrc_output_path_def sample_audio_def path_name_def splitext_def component_name_def Let_def)

lemma sample_handled: "handle_lrclib (sample_lyric_env fault) (Some ''record-1'') sample_lyric_db =
  fetch_fresh (sample_lyric_env fault) ''record-1'' sample_lyric_publication
    \<lparr>lq_track = ''Jack'', lq_artist = ''Beck'', lq_duration = 200, lq_album = None\<rparr>
    (reuse_key (sample_lyric_env fault) sample_lyric_db sample_lyric_record
      \<lparr>lsr_id = ''s'', lsr_record = Some ''record-1'', lsr_sha256 = ''x'', lsr_duration = Some 200, lsr_fingerprints = []\<rparr>
      \<lparr>lq_track = ''Jack'', lq_artist = ''Beck'', lq_duration = 200, lq_album = None\<rparr> sample_settings) 200 sample_lyric_db"
  by (simp add: handle_lrclib_def sample_lyric_env_def sample_lyric_db_def sample_lyric_record_def sample_lyric_publication_def
      find_row_def sample_settings_def current_publication_def greatest_def publication_tags_def final_revision_def tag_text_def
      str_or_def str_strip_def is_space_def publication_source_def persisted_duration_seconds_def fetch_for_def stored_evidence_def
      reusable_text_def reusable_absence_def Let_def)

text \<open>A fetch that writes the lyrics, and one whose directory cannot be synchronised.\<close>

theorem fetch_keeps_lyrics_valid_witness:
  "(\<exists>db'. handle_lrclib (sample_lyric_env NoFault) (Some ''record-1'') sample_lyric_db = Inr db'
      \<and> settled (sample_lyric_env NoFault) sample_lyric_db ''record-1'' db'
      \<and> ld_disk db' [''media'', ''Beck'', ''01.lrc''] = Some sample_lyrics)
   \<and> (\<exists>err d. handle_lrclib (sample_lyric_env DirSyncFails) (Some ''record-1'') sample_lyric_db = Inl (err, d)
      \<and> raised_disk (sample_lyric_env DirSyncFails) sample_lyric_db ''record-1'' d
      \<and> d [''media'', ''Beck'', ''01.lrc''] = Some sample_lyrics)"
proof -
  have w: "write_lrc_atomically (\<lambda>b. ''h'') (Inr [''media'']) id sample_audio sample_lyrics ''t'' fault [] (\<lambda>p. None) =
      Inr (replace_file [''media'', ''Beck'', temporary_name ''01.lrc'' ''t''] [''media'', ''Beck'', ''01.lrc''] sample_lyrics fault []
        \<lparr>lw_path = [''media'', ''Beck'', ''01.lrc''], lw_relative = ''Beck/01.lrc'', lw_sha256 = ''h''\<rparr> (\<lambda>p. None))" for fault
    by (simp add: write_lrc_atomically_def sample_output sample_lyrics_encoded path_name_def)
  note run = fetch_fresh_def Let_def sample_lyric_env_def accept_lyrics_def sample_lyrics_encoded sample_lyrics_valid w
    sample_lyric_publication_def sample_lyric_db_def replace_file_def could_not_write_def settle_disk set_evidence_def change_record_def
  let ?h = "\<lambda>fault. handle_lrclib (sample_lyric_env fault) (Some ''record-1'') sample_lyric_db"
  have "\<exists>db'. ?h NoFault = Inr db' \<and> ld_disk db' [''media'', ''Beck'', ''01.lrc''] = Some sample_lyrics"
    unfolding sample_handled by (auto simp: run split: option.split)
  then obtain db' where db': "?h NoFault = Inr db'" "ld_disk db' [''media'', ''Beck'', ''01.lrc''] = Some sample_lyrics"
    by blast
  obtain err d where d: "?h DirSyncFails = Inl (err, d)" "d [''media'', ''Beck'', ''01.lrc''] = Some sample_lyrics"
    unfolding sample_handled by (simp add: run)
  have "ls_enabled (le_settings (sample_lyric_env NoFault))" by (simp add: sample_lyric_env_def sample_settings_def)
  then have "settled (sample_lyric_env NoFault) sample_lyric_db ''record-1'' db'"
    using fetch_keeps_lyrics_valid [OF sample_fresh(2,1), of NoFault "''record-1''"] db' by simp
  moreover have "raised_disk (sample_lyric_env DirSyncFails) sample_lyric_db ''record-1'' d"
    using fetch_keeps_lyrics_valid [OF sample_fresh(2,1), of DirSyncFails "''record-1''"] d by simp
  ultimately show ?thesis using db' d by blast
qed

end
