(* ===== verification/MusicBrainz.thy ===== *)
theory MusicBrainz imports Lrclib begin

text \<open>
  \<^bold>\<open>The MusicBrainz and AcoustID adapters\<close>: the resources of the web service
  (\<open>contracts/api.py\<close>), the client that pages, retries and fans out its requests
  (\<open>adapters/external/musicbrainz.py\<close>), the projection of a release onto a candidate
  (\<open>services/matching/musicbrainz_mapping.py\<close>), the lookup that resolves a request into one of the
  provider results (\<open>services/matching/musicbrainz.py\<close>) and the AcoustID lookup
  (\<open>adapters/external/acoustid.py\<close>).

  The server and pydantic's validation are arguments. An answer may depend on everything that was
  requested before: the state is the list of requests and sleeps so far. The tasks of a fan-out run
  whole, one after the other, in any order the argument \<open>mbc_schedule\<close> picks. A loop that asks for
  pages until the server's count is reached may never end, so it is a partial function: \<open>None\<close>
  stands for not returning. Lengths in milliseconds are divided exactly, where Python divides floats.
\<close>

section \<open>Resources\<close>

text \<open>\<open>Genre\<close> holds only a name.\<close>

record mb_artist =
  ma_id :: string
  ma_name :: string
  ma_genres :: "string list"

record mb_relation =
  mr_type :: string
  mr_target_type :: string
  mr_related_artist :: "mb_artist option"

record mb_credit =
  mc_name :: string
  mc_joinphrase :: string
  mc_artist :: "mb_artist option"
  mc_genres :: "string list"

record mb_release_group =
  mg_id :: string
  mg_first_release_date :: "string option"

record mb_recording =
  mrec_id :: string
  mrec_title :: string
  mrec_credit :: "mb_credit list"
  mrec_genres :: "string list"
  mrec_isrcs :: "string list"
  mrec_relations :: "mb_relation list"

record mb_track =
  mt_id :: "string option"
  mt_position :: int
  mt_title :: string
  mt_length :: "int option"
  mt_recording :: mb_recording

record mb_medium =
  mm_position :: "int option"
  mm_track_count :: "int option"
  mm_pregap :: "mb_track option"
  mm_tracks :: "mb_track list"
  mm_data_tracks :: "mb_track list"

record mb_release =
  mrel_id :: string
  mrel_title :: string
  mrel_disambiguation :: "string option"
  mrel_status :: "string option"
  mrel_credit :: "mb_credit list"
  mrel_date :: "string option"
  mrel_country :: "string option"
  mrel_barcode :: "string option"
  mrel_catalog_numbers :: "string option list"
  mrel_genres :: "string list"
  mrel_group :: "mb_release_group option"
  mrel_media :: "mb_medium list"

record mb_browse_page =
  bp_releases :: "mb_release list"
  bp_count :: nat
  bp_offset :: nat

record mb_search_result =
  ms_id :: string
  ms_score :: "real option"
  ms_title :: string
  ms_credit :: "mb_credit list"

section \<open>A release as a candidate\<close>

definition select_genres :: "string list \<Rightarrow> string list \<Rightarrow> string list \<Rightarrow> string list" where
  "select_genres track album artist =
     (let selected = (\<lambda>gs. dedup (map str_strip (filter (\<lambda>g. str_strip g \<noteq> []) gs))) in
      if selected track \<noteq> [] then selected track
      else if selected album \<noteq> [] then selected album else selected artist)"

definition catalog_numbers :: "mb_release \<Rightarrow> string list" where
  "catalog_numbers r = map (\<lambda>n. str_or n []) (filter str_truthy (mrel_barcode r # mrel_catalog_numbers r))"

definition credit_name :: "mb_credit \<Rightarrow> string" where
  "credit_name c = (case mc_artist c of Some a \<Rightarrow> ma_name a | None \<Rightarrow> mc_name c)"

text \<open>The artists' identifiers, if every credit has its artist.\<close>

definition credit_mbids :: "mb_credit list \<Rightarrow> string list" where
  "credit_mbids cs = (if list_ex (\<lambda>c. mc_artist c = None) cs then []
     else map (\<lambda>c. case mc_artist c of Some a \<Rightarrow> ma_id a | None \<Rightarrow> []) cs)"

definition performer_types :: "string list" where
  "performer_types = [''performer'', ''vocal'', ''instrument'']"

definition performer_names :: "mb_recording \<Rightarrow> string list" where
  "performer_names r = concat (map (\<lambda>x. case mr_related_artist x of Some a \<Rightarrow> [ma_name a] | None \<Rightarrow> [])
     (filter (\<lambda>x. mr_target_type x = ''artist'' \<and> mr_type x \<in> set performer_types) (mrec_relations r)))"

definition release_track :: "mb_release \<Rightarrow> string \<Rightarrow> mb_track option" where
  "release_track r mbid = find (\<lambda>t. mrec_id (mt_recording t) = mbid) (concat (map mm_tracks (mrel_media r)))"

definition on_data_track :: "mb_release \<Rightarrow> string \<Rightarrow> bool" where
  "on_data_track r mbid \<longleftrightarrow> mbid \<in> set (concat (map (map (mrec_id \<circ> mt_recording) \<circ> mm_data_tracks) (mrel_media r)))"

definition release_medium :: "mb_release \<Rightarrow> mb_track option \<Rightarrow> mb_medium option" where
  "release_medium r track = (case track of None \<Rightarrow> None
     | Some t \<Rightarrow> find (\<lambda>m. t \<in> set (mm_tracks m)) (mrel_media r))"

definition medium_track_total :: "mb_medium option \<Rightarrow> int option" where
  "medium_track_total m = (case m of None \<Rightarrow> None
     | Some x \<Rightarrow> (case mm_track_count x of Some n \<Rightarrow> Some n | None \<Rightarrow> Some (int (length (mm_tracks x)))))"

definition credited_artist :: "mb_release \<Rightarrow> string" where
  "credited_artist r = concat (map (\<lambda>c. credit_name c @ mc_joinphrase c) (mrel_credit r))"

definition candidate_artist :: "mb_release \<Rightarrow> mb_track option \<Rightarrow> string option \<Rightarrow> string" where
  "candidate_artist r track artist_name =
     (let artist = (if str_truthy artist_name then str_or artist_name [] else credited_artist r) in
      if artist \<noteq> [] then artist else case track of None \<Rightarrow> []
      | Some t \<Rightarrow> concat (map (\<lambda>c. mc_name c @ mc_joinphrase c) (mrec_credit (mt_recording t))))"

definition percent_score :: "real \<Rightarrow> real" where
  "percent_score s = (if 0 \<le> s \<and> s \<le> 1 then s * 100 else s)"

definition candidate_for_release ::
  "mb_release \<Rightarrow> string \<Rightarrow> string option \<Rightarrow> real option \<Rightarrow> release_candidate option" where
  "candidate_for_release r mbid artist_name score =
     (let track = release_track r mbid; medium = release_medium r track;
          rec = map_option mt_recording track in
      if track = None \<and> on_data_track r mbid then None
      else Some (ReleaseCandidate
        \<lparr>c_release_mbid = mrel_id r, c_release_title = mrel_title r,
         c_artist_name = candidate_artist r track artist_name,
         c_duration = Option.bind track (\<lambda>t. map_option (\<lambda>l. py_round (of_int l / 1000)) (mt_length t)),
         c_recording_mbids = [mbid], c_track_mbids = [],
         c_recording_title = map_option (\<lambda>t. if mt_title t \<noteq> [] then mt_title t else mrec_title (mt_recording t)) track,
         c_date = mrel_date r, c_original_date = Option.bind (mrel_group r) mg_first_release_date,
         c_country = mrel_country r, c_track_number = map_option mt_position track,
         c_track_total = medium_track_total medium, c_disc_number = Option.bind medium mm_position,
         c_disc_total = (if mrel_media r \<noteq> [] then Some (int (length (mrel_media r))) else None),
         c_genres = select_genres (case rec of None \<Rightarrow> [] | Some x \<Rightarrow> mrec_genres x) (mrel_genres r)
           (concat (map (\<lambda>c. case mc_artist c of None \<Rightarrow> [] | Some a \<Rightarrow> ma_genres a) (mrel_credit r))),
         c_release_group = map_option mg_id (mrel_group r),
         c_isrcs = (case rec of None \<Rightarrow> [] | Some x \<Rightarrow> mrec_isrcs x),
         c_performers = (case rec of None \<Rightarrow> [] | Some x \<Rightarrow> performer_names x),
         c_release_artist = (if credited_artist r \<noteq> [] then Some (credited_artist r) else None),
         c_recording_artists = (case rec of None \<Rightarrow> [] | Some x \<Rightarrow> map credit_name (mrec_credit x)),
         c_release_artists = map credit_name (mrel_credit r),
         c_recording_artist_mbids = (case rec of None \<Rightarrow> [] | Some x \<Rightarrow> credit_mbids (mrec_credit x)),
         c_release_artist_mbids = credit_mbids (mrel_credit r), c_catalog_numbers = catalog_numbers r,
         c_disambiguation = mrel_disambiguation r,
         c_musicbrainz_score = map_option percent_score score\<rparr> []))"

definition projections :: "release_candidate \<Rightarrow> release_candidate list" where
  "projections c = (if recording_candidates c \<noteq> [] then recording_candidates c else [c])"

definition merge_recording_candidate :: "release_candidate \<Rightarrow> release_candidate \<Rightarrow> release_candidate" where
  "merge_recording_candidate old new = ReleaseCandidate
     (facts old\<lparr>c_recording_mbids := dedup (c_recording_mbids (facts old) @ c_recording_mbids (facts new))\<rparr>)
     (dedup (projections old @ projections new))"

section \<open>The client\<close>

datatype client_event = Requested string "(string \<times> string) list" | Slept real | Waited string

type_synonym events = "client_event list"

record mb_http =
  mh_status :: "int option"
  mh_body :: octets

record 'a mb_response =
  mp_status :: "int option"
  mp_body :: octets
  mp_payload :: "'a option"

record mb_client =
  mbc_transport :: "events \<Rightarrow> string \<Rightarrow> mb_http"
  mbc_user_agent :: string
  mbc_host :: string
  mbc_retry_delay :: "real option"
  mbc_schedule :: "string list \<Rightarrow> string list"

text \<open>pydantic's \<open>model_validate_json\<close>: \<open>None\<close> for a \<open>ValidationError\<close>.\<close>

record mb_parsers =
  parse_search :: "octets \<Rightarrow> mb_search_result list option"
  parse_browse :: "octets \<Rightarrow> mb_browse_page option"
  parse_release :: "octets \<Rightarrow> mb_release option"

fun decimal :: "nat \<Rightarrow> string" where
  "decimal n = (if n < 10 then [char_of (n + 48)] else decimal (n div 10) @ [char_of (n mod 10 + 48)])"

declare decimal.simps [simp del]

text \<open>\<open>urllib.parse.quote(s, safe='')\<close>.\<close>

definition quote_all :: "string \<Rightarrow> string" where
  "quote_all s = concat (map (\<lambda>b. if url_safe b then [char_of b]
     else CHR ''%'' # map char_upper [hex_digit (b div 16), hex_digit b]) (str_encode s))"

definition client_request :: "mb_client \<Rightarrow> string \<Rightarrow> (string \<times> string) list \<Rightarrow> events \<Rightarrow> mb_http \<times> events" where
  "client_request C url headers st = (mbc_transport C st url, st @ [Requested url headers])"

definition client_retry_statuses :: "int list" where
  "client_retry_statuses = [429, 500, 502, 503, 504]"

text \<open>The last argument but one counts the attempts left after this one.\<close>

fun get_attempts ::
  "mb_client \<Rightarrow> string \<Rightarrow> (string \<times> string) list \<Rightarrow> real \<Rightarrow> nat \<Rightarrow> events \<Rightarrow> mb_http \<times> events" where
  "get_attempts C url headers delay left st =
     (let (r, st) = client_request C url headers st in
      if mh_status r \<notin> Some ` set client_retry_statuses then (r, st)
      else case left of 0 \<Rightarrow> (r, st) | Suc n \<Rightarrow> get_attempts C url headers delay n (st @ [Slept delay]))"

declare get_attempts.simps [simp del]

definition client_url :: "mb_client \<Rightarrow> string \<Rightarrow> (string \<times> string) list \<Rightarrow> string" where
  "client_url C path params =
     rev (dropWhile (\<lambda>c. c = CHR ''/'') (rev (mbc_host C))) @ path @ ''?'' @ urlencode params"

definition client_get :: "mb_client \<Rightarrow> string \<Rightarrow> (string \<times> string) list \<Rightarrow> events \<Rightarrow> mb_http \<times> events" where
  "client_get C path params st =
     (let url = client_url C path params;
          headers = [(''User-Agent'', mbc_user_agent C), (''Accept'', ''application/json'')] in
      case mbc_retry_delay C of None \<Rightarrow> client_request C url headers st
      | Some delay \<Rightarrow> get_attempts C url headers delay 2 st)"

definition parse_response :: "mb_http \<Rightarrow> (octets \<Rightarrow> 'a option) \<Rightarrow> 'a mb_response" where
  "parse_response r parser = \<lparr>mp_status = mh_status r, mp_body = mh_body r,
     mp_payload = (if mh_status r \<noteq> Some 200 then None else parser (mh_body r))\<rparr>"

definition search_recordings ::
  "mb_client \<Rightarrow> mb_parsers \<Rightarrow> string \<Rightarrow> events \<Rightarrow> mb_search_result list mb_response \<times> events" where
  "search_recordings C P q st =
     (let (r, st) = client_get C ''/ws/2/recording/'' [(''query'', q), (''fmt'', ''json''), (''limit'', ''25'')] st in
      (parse_response r (parse_search P), st))"

definition search_releases ::
  "mb_client \<Rightarrow> (octets \<Rightarrow> mb_release list option) \<Rightarrow> string \<Rightarrow> events \<Rightarrow> mb_release list mb_response \<times> events" where
  "search_releases C parser q st =
     (let (r, st) = client_get C ''/ws/2/release/'' [(''query'', q), (''fmt'', ''json''), (''limit'', ''25'')] st in
      (parse_response r parser, st))"

text \<open>\<open>recording_detail\<close>: the pages of the releases of a recording, until as many releases as the
  last page counts are there. The bodies are joined by line feeds.\<close>

fun join_bodies :: "octets list \<Rightarrow> octets" where
  "join_bodies [] = []"
| "join_bodies [b] = b"
| "join_bodies (b # c # bs) = b @ 10 # join_bodies (c # bs)"

definition browse_params :: "string \<Rightarrow> nat \<Rightarrow> (string \<times> string) list" where
  "browse_params mbid offset =
     [(''recording'', mbid), (''fmt'', ''json''), (''limit'', ''100''), (''offset'', decimal offset)]"

definition browse_page :: "mb_client \<Rightarrow> mb_parsers \<Rightarrow> string \<Rightarrow> nat \<Rightarrow> events \<Rightarrow> mb_browse_page mb_response \<times> events" where
  "browse_page C P mbid offset st =
     (let (r, st) = client_get C ''/ws/2/release/'' (browse_params mbid offset) st in
      (parse_response r (parse_browse P), st))"

partial_function (option) browse_loop ::
  "mb_client \<Rightarrow> mb_parsers \<Rightarrow> string \<Rightarrow> nat \<Rightarrow> mb_release list \<Rightarrow> octets list \<Rightarrow> events
   \<Rightarrow> (mb_release list mb_response \<times> events) option" where
  "browse_loop C P mbid offset releases bodies st =
     (let r = fst (browse_page C P mbid offset st); st' = snd (browse_page C P mbid offset st);
          bodies' = bodies @ [mp_body r];
          answer = (\<lambda>p. Some (\<lparr>mp_status = mp_status r, mp_body = join_bodies bodies', mp_payload = p\<rparr>, st')) in
      case mp_payload r of None \<Rightarrow> answer None
      | Some page \<Rightarrow>
          if bp_count page \<le> length (releases @ bp_releases page) then answer (Some (releases @ bp_releases page))
          else if bp_releases page = [] then answer None
          else browse_loop C P mbid (offset + length (bp_releases page)) (releases @ bp_releases page) bodies' st')"

definition recording_detail ::
  "mb_client \<Rightarrow> mb_parsers \<Rightarrow> string \<Rightarrow> events \<Rightarrow> (mb_release list mb_response \<times> events) option" where
  "recording_detail C P mbid st = browse_loop C P mbid 0 [] [] st"

definition release_includes :: string where
  "release_includes = ''artist-credits+media+recordings+release-groups+genres+isrcs+artist-rels+labels''"

definition release_detail :: "mb_client \<Rightarrow> mb_parsers \<Rightarrow> string \<Rightarrow> events \<Rightarrow> (mb_release mb_response \<times> events) option" where
  "release_detail C P mbid st =
     (let (r, st) = client_get C (''/ws/2/release/'' @ quote_all mbid) [(''inc'', release_includes), (''fmt'', ''json'')] st in
      Some (parse_response r (parse_release P), st))"

text \<open>The tasks of a group in the order they run, each storing its result; then the results in
  the order of the identifiers.\<close>

fun bounded_fan_out ::
  "(string \<Rightarrow> events \<Rightarrow> ('a \<times> events) option) \<Rightarrow> string list \<Rightarrow> (string \<times> 'a) list \<Rightarrow> events
   \<Rightarrow> ((string \<times> 'a) list \<times> events) option" where
  "bounded_fan_out f [] results st = Some (results, st)"
| "bounded_fan_out f (v # vs) results st =
     Option.bind (f v st) (\<lambda>(d, st). bounded_fan_out f vs (dict_set v d results) st)"

definition details ::
  "mb_client \<Rightarrow> (string \<Rightarrow> events \<Rightarrow> ('a \<times> events) option) \<Rightarrow> string list \<Rightarrow> events
   \<Rightarrow> ((string \<times> 'a) list \<times> events) option" where
  "details C f ids st =
     Option.bind (bounded_fan_out f (mbc_schedule C (dedup ids)) [] st) (\<lambda>(results, st).
       Some (concat (map (\<lambda>i. case dict_get results i of Some d \<Rightarrow> [(i, d)] | None \<Rightarrow> []) (dedup ids)), st))"

definition recording_details ::
  "mb_client \<Rightarrow> mb_parsers \<Rightarrow> string list \<Rightarrow> events \<Rightarrow> ((string \<times> mb_release list mb_response) list \<times> events) option" where
  "recording_details C P ids st = details C (recording_detail C P) ids st"

definition release_details ::
  "mb_client \<Rightarrow> mb_parsers \<Rightarrow> string list \<Rightarrow> events \<Rightarrow> ((string \<times> mb_release mb_response) list \<times> events) option" where
  "release_details C P ids st = details C (release_detail C P) ids st"

section \<open>Looking up a request\<close>

text \<open>\<open>MusicBrainzProviderAdapter\<close>; an invalid provenance raises.\<close>

definition mb_provenance ::
  "(octets \<Rightarrow> string) \<Rightarrow> string \<Rightarrow> 'a mb_response \<Rightarrow> timestamp \<Rightarrow> evidence_error + live_provenance" where
  "mb_provenance sha key r captured = live_provenance_of ''musicbrainz'' (sha (str_encode key)) (sha (mp_body r))
     (mp_status r) captured ''fresh'' (mp_body r)"

definition empty_provenance :: "(octets \<Rightarrow> string) \<Rightarrow> string \<Rightarrow> timestamp \<Rightarrow> evidence_error + live_provenance" where
  "empty_provenance sha key captured =
     live_provenance_of ''musicbrainz'' (sha (str_encode key)) (sha []) None captured ''fresh'' []"

definition append_provenance ::
  "(octets \<Rightarrow> string) \<Rightarrow> live_provenance \<Rightarrow> 'a mb_response \<Rightarrow> evidence_error + live_provenance" where
  "append_provenance sha p r = (let body = lp_body p @ 10 # mp_body r in
     live_provenance_of (lp_provider p) (lp_request_hash p) (sha body) (mp_status r) (lp_captured p) (lp_state p) body)"

definition response_outcome :: "'a mb_response \<Rightarrow> live_provenance \<Rightarrow> musicbrainz_result option" where
  "response_outcome r p = (case mp_status r of
     None \<Rightarrow> Some (Unavailable p)
   | Some s \<Rightarrow> if s = 429 then Some (RateLimited p) else if 500 \<le> s then Some (Unavailable p)
       else if s \<noteq> 200 \<or> mp_payload r = None then Some (Malformed p) else None)"

definition candidates_result :: "release_candidate list \<Rightarrow> live_provenance \<Rightarrow> musicbrainz_result" where
  "candidates_result cs p = (case cs of [] \<Rightarrow> NoMatch p | [c] \<Rightarrow> Match p c | _ \<Rightarrow> Ambiguous p cs)"

text \<open>\<open>dict(pairs)\<close>: a later pair overwrites an earlier one.\<close>

definition dict_of :: "('k \<times> 'v) list \<Rightarrow> ('k \<times> 'v) list" where
  "dict_of ps = foldl (\<lambda>d (k, v). dict_set k v d) [] ps"

definition admitted_status :: "mb_release \<Rightarrow> bool" where
  "admitted_status r = (case mrel_status r of None \<Rightarrow> True
     | Some s \<Rightarrow> str_casefold s \<in> {''official'', ''promotion''})"

record gathered =
  gt_provenance :: live_provenance
  gt_releases :: "(string \<times> mb_release) list"
  gt_recordings :: "(string \<times> string list) list"

definition gather_release :: "string \<Rightarrow> gathered \<Rightarrow> mb_release \<Rightarrow> gathered" where
  "gather_release mbid g r = (if \<not> admitted_status r then g else
     g\<lparr>gt_releases := (if dict_get (gt_releases g) (mrel_id r) = None
          then dict_set (mrel_id r) r (gt_releases g) else gt_releases g),
       gt_recordings := dict_set (mrel_id r)
          ((case dict_get (gt_recordings g) (mrel_id r) of None \<Rightarrow> [] | Some l \<Rightarrow> l) @ [mbid]) (gt_recordings g)\<rparr>)"

text \<open>The releases of the recordings; the first failed detail is the result of the lookup.\<close>

fun gather ::
  "(octets \<Rightarrow> string) \<Rightarrow> timestamp \<Rightarrow> (string \<times> mb_release list mb_response) list \<Rightarrow> gathered
   \<Rightarrow> evidence_error + (musicbrainz_result + gathered)" where
  "gather sha now [] g = Inr (Inr g)"
| "gather sha now ((mbid, r) # ds) g =
     bindR (mb_provenance sha (''recording:'' @ mbid) r now) (\<lambda>p.
       case response_outcome r p of Some outcome \<Rightarrow> Inr (Inl outcome)
       | None \<Rightarrow> (case mp_payload r of None \<Rightarrow> gather sha now ds g
           | Some rels \<Rightarrow> gather sha now ds (foldl (gather_release mbid) (g\<lparr>gt_provenance := p\<rparr>) rels)))"

text \<open>The details that came replace the releases of the pages; their bodies join the provenance.\<close>

fun enrich ::
  "(octets \<Rightarrow> string) \<Rightarrow> (string \<times> mb_release mb_response) list \<Rightarrow> (string \<times> mb_release) list \<times> live_provenance
   \<Rightarrow> evidence_error + ((string \<times> mb_release) list \<times> live_provenance)" where
  "enrich sha [] dp = Inr dp"
| "enrich sha ((mbid, r) # ds) (d, p) =
     (case mp_payload r of None \<Rightarrow> enrich sha ds (d, p)
      | Some rel \<Rightarrow> bindR (append_provenance sha p r) (\<lambda>p'. enrich sha ds (dict_set mbid rel d, p')))"

definition add_candidate ::
  "string option \<Rightarrow> (string \<times> real) list \<Rightarrow> mb_release \<Rightarrow> string \<Rightarrow> (string \<times> release_candidate) list \<Rightarrow> string
   \<Rightarrow> (string \<times> release_candidate) list" where
  "add_candidate artist scores r release_id d mbid =
     (case candidate_for_release r mbid artist (dict_get scores mbid) of
        None \<Rightarrow> d
      | Some c \<Rightarrow> dict_set release_id
          (case dict_get d release_id of None \<Rightarrow> c | Some old \<Rightarrow> merge_recording_candidate old c) d)"

definition build_candidates ::
  "string option \<Rightarrow> (string \<times> real) list \<Rightarrow> (string \<times> mb_release) list \<Rightarrow> (string \<times> string list) list
   \<Rightarrow> (string \<times> release_candidate) list" where
  "build_candidates artist scores enriched recordings =
     foldl (\<lambda>d (release_id, mbids). case dict_get enriched release_id of None \<Rightarrow> d
        | Some r \<Rightarrow> foldl (add_candidate artist scores r release_id) d (dedup mbids)) [] recordings"

text \<open>A computation that may raise, or not return, inside the client's state.\<close>

fun raising :: "events \<Rightarrow> 'e + 'a \<Rightarrow> ('a \<Rightarrow> (('e + 'b) \<times> events) option) \<Rightarrow> (('e + 'b) \<times> events) option" where
  "raising st (Inl e) f = Some (Inl e, st)"
| "raising st (Inr x) f = f x"

definition finish_recordings ::
  "mb_client \<Rightarrow> mb_parsers \<Rightarrow> (octets \<Rightarrow> string) \<Rightarrow> string option \<Rightarrow> (string \<times> real) list \<Rightarrow> gathered \<Rightarrow> events
   \<Rightarrow> ((evidence_error + musicbrainz_result) \<times> events) option" where
  "finish_recordings C P sha artist scores g st =
     (if gt_releases g = [] then Some (Inr (NoMatch (gt_provenance g)), st)
      else Option.bind (release_details C P (map fst (gt_releases g)) st) (\<lambda>(ds, st).
        raising st (enrich sha ds (gt_releases g, gt_provenance g)) (\<lambda>(enriched, p).
          Some (Inr (candidates_result
            (map snd (build_candidates artist (dict_of scores) enriched (gt_recordings g))) p), st))))"

definition resolve_recordings ::
  "mb_client \<Rightarrow> mb_parsers \<Rightarrow> (octets \<Rightarrow> string) \<Rightarrow> string list \<Rightarrow> musicbrainz_request \<Rightarrow> timestamp \<Rightarrow> string
   \<Rightarrow> live_provenance option \<Rightarrow> (string \<times> real) list \<Rightarrow> events
   \<Rightarrow> ((evidence_error + musicbrainz_result) \<times> events) option" where
  "resolve_recordings C P sha mbids q now key initial scores st =
     (if mbids = [] then raising st
        (case initial of Some p \<Rightarrow> Inr p | None \<Rightarrow> empty_provenance sha key now) (\<lambda>p. Some (Inr (NoMatch p), st))
      else Option.bind (recording_details C P mbids st) (\<lambda>(ds, st).
        raising st (case initial of Some p \<Rightarrow> Inr p | None \<Rightarrow> mb_provenance sha key (snd (hd ds)) now) (\<lambda>p.
          raising st (gather sha now ds \<lparr>gt_provenance = p, gt_releases = [], gt_recordings = []\<rparr>) (\<lambda>res.
            case res of Inl outcome \<Rightarrow> Some (Inr outcome, st)
            | Inr g \<Rightarrow> finish_recordings C P sha (mq_artist q) scores g st))))"

definition lookup_release ::
  "mb_client \<Rightarrow> mb_parsers \<Rightarrow> (octets \<Rightarrow> string) \<Rightarrow> musicbrainz_request \<Rightarrow> string \<Rightarrow> timestamp \<Rightarrow> events
   \<Rightarrow> ((evidence_error + musicbrainz_result) \<times> events) option" where
  "lookup_release C P sha q mbid now st =
     Option.bind (release_detail C P mbid st) (\<lambda>(r, st).
       raising st (mb_provenance sha (''release:'' @ mbid) r now) (\<lambda>p.
         Some (Inr (case response_outcome r p of Some outcome \<Rightarrow> outcome
           | None \<Rightarrow> (case mq_recording q of None \<Rightarrow> NoMatch p
               | Some rec \<Rightarrow> (case mp_payload r of None \<Rightarrow> Malformed p
                   | Some rel \<Rightarrow> (case candidate_for_release rel rec (mq_artist q) None of
                       None \<Rightarrow> NoMatch p | Some c \<Rightarrow> Match p c)))), st)))"

definition found_ids :: "mb_search_result list mb_response \<Rightarrow> string list" where
  "found_ids r = (case mp_payload r of None \<Rightarrow> [] | Some found \<Rightarrow> map ms_id found)"

definition found_scores :: "mb_search_result list mb_response \<Rightarrow> (string \<times> real) list" where
  "found_scores r = (case mp_payload r of None \<Rightarrow> [] | Some found \<Rightarrow>
     concat (map (\<lambda>x. case ms_score x of None \<Rightarrow> [] | Some s \<Rightarrow> [(ms_id x, s)]) found))"

definition mb_lookup ::
  "mb_client \<Rightarrow> mb_parsers \<Rightarrow> (octets \<Rightarrow> string) \<Rightarrow> musicbrainz_request \<Rightarrow> timestamp \<Rightarrow> events
   \<Rightarrow> ((evidence_error + musicbrainz_result) \<times> events) option" where
  "mb_lookup C P sha q now st =
     (case mq_release q of
        Some release \<Rightarrow> lookup_release C P sha q release now st
      | None \<Rightarrow> (case mq_recording q of
          Some rec \<Rightarrow> resolve_recordings C P sha [rec] q now (''recording:'' @ rec) None [] st
        | None \<Rightarrow>
          (let (r, st) = search_recordings C P (mq_query q) st; key = ''query:'' @ mq_query q in
           raising st (mb_provenance sha key r now) (\<lambda>p.
             if mp_status r \<noteq> Some 200
             then Some (Inr (case response_outcome r p of Some outcome \<Rightarrow> outcome | None \<Rightarrow> Malformed p), st)
             else resolve_recordings C P sha
               (if mq_recordings q \<noteq> [] then dedup (mq_recordings q @ found_ids r) else found_ids r)
               q now key (Some p) (found_scores r) st))))"

text \<open>The front cover of a release from the Cover Art Archive.\<close>

datatype artwork_format = Jpeg | Webp

record artwork_candidate =
  ac_release :: string
  ac_format :: artwork_format
  ac_content :: octets

definition image_format :: "octets \<Rightarrow> artwork_format option" where
  "image_format b =
     (if take 3 b = [255, 216, 255] \<and> 2 \<le> length b \<and> drop (length b - 2) b = [255, 217] then Some Jpeg
      else if 12 \<le> length b \<and> take 4 b = str_encode ''RIFF'' \<and> take 4 (drop 8 b) = str_encode ''WEBP'' then Some Webp
      else None)"

definition fetch_artwork :: "mb_client \<Rightarrow> string \<Rightarrow> events \<Rightarrow> artwork_candidate option \<times> events" where
  "fetch_artwork C release_id st =
     (let (r, st) = client_request C (''https://coverartarchive.org/release/'' @ quote_all release_id @ ''/front-500'')
            [(''User-Agent'', mbc_user_agent C), (''Accept'', ''image/jpeg,image/webp'')] st in
      (if mh_status r \<noteq> Some 200 then None
       else map_option (\<lambda>f. \<lparr>ac_release = release_id, ac_format = f, ac_content = mh_body r\<rparr>) (image_format (mh_body r)), st))"

section \<open>AcoustID\<close>

record acoustid_found =
  af_score :: real
  af_recordings :: "string list"

record acoustid_response =
  ar_status :: string
  ar_results :: "acoustid_found list"

definition acoustid_endpoint :: string where "acoustid_endpoint = ''https://api.acoustid.org/v2/lookup''"

definition acoustid_url :: "string \<Rightarrow> string \<Rightarrow> nat \<Rightarrow> string" where
  "acoustid_url key fingerprint seconds = acoustid_endpoint @ ''?'' @ urlencode [(''client'', key),
     (''duration'', decimal seconds), (''fingerprint'', fingerprint), (''format'', ''json''), (''meta'', ''recordingids'')]"

definition acoustid_candidates :: "acoustid_response \<Rightarrow> recording_candidate list" where
  "acoustid_candidates a = concat (map (\<lambda>f. map (\<lambda>m. \<lparr>rc_mbid = m, rc_score = af_score f\<rparr>) (af_recordings f)) (ar_results a))"

definition acoustid_outcome ::
  "(octets \<Rightarrow> acoustid_response option) \<Rightarrow> mb_http \<Rightarrow> live_provenance \<Rightarrow> acoustid_result" where
  "acoustid_outcome parser r p = (case mh_status r of
     None \<Rightarrow> Unavailable p
   | Some s \<Rightarrow> if s = 429 then RateLimited p else if 500 \<le> s then Unavailable p else if s \<noteq> 200 then Malformed p
       else (case parser (mh_body r) of None \<Rightarrow> Malformed p
         | Some a \<Rightarrow> if ar_status a \<noteq> ''ok'' then Malformed p
             else (case acoustid_candidates a of [] \<Rightarrow> NoMatch p
               | c # cs \<Rightarrow> Match p \<lparr>re_mbid = rc_mbid c, re_score = rc_score c, re_candidates = c # cs\<rparr>)))"

definition acoustid_lookup ::
  "(events \<Rightarrow> string \<Rightarrow> mb_http) \<Rightarrow> string \<Rightarrow> (octets \<Rightarrow> acoustid_response option) \<Rightarrow> (octets \<Rightarrow> string) \<Rightarrow> string \<Rightarrow> real
   \<Rightarrow> timestamp \<Rightarrow> events \<Rightarrow> (evidence_error + acoustid_result) \<times> events" where
  "acoustid_lookup T key parser sha fingerprint seconds now st =
     (let url = acoustid_url key fingerprint (nat (py_round seconds)); r = T st url in
      (bindR (live_provenance_of ''acoustid'' (sha (str_encode fingerprint)) (sha (mh_body r)) (mh_status r) now ''fresh'' (mh_body r))
         (\<lambda>p. Inr (acoustid_outcome parser r p)), st @ [Requested url [(''Accept'', ''application/json'')]]))"

section \<open>The live transport\<close>

text \<open>\<open>LiveTransport.get\<close> (\<open>services/matching/providers.py\<close>). The HTTP client answers with a
  response or fails with a \<open>RequestException\<close>; a \<open>Retry-After\<close> header is given as the float it
  parses to, if it does. \<open>max(nan, 0.0)\<close> is \<open>nan\<close>, whose sleep raises the \<open>ValueError\<close> that is
  suppressed; a sleep too long for a 64-bit number of nanoseconds raises an \<open>OverflowError\<close>,
  which is not. The host of a URL is read without the brackets of an IPv6 literal.\<close>

datatype retry_after = RetrySeconds real | RetryInf | RetryNegInf | RetryNan

record raw_http =
  rh_status :: int
  rh_content :: octets
  rh_retry_after :: "retry_after option"

definition sleep_limit :: real where "sleep_limit = 9223372036.854775807"

definition slept_for :: "retry_after \<Rightarrow> real option option" where
  "slept_for a = (case a of RetrySeconds s \<Rightarrow> if max s 0 > sleep_limit then None else Some (Some (max s 0))
     | RetryInf \<Rightarrow> None | RetryNegInf \<Rightarrow> Some (Some 0) | RetryNan \<Rightarrow> Some None)"

definition url_hostname :: "string \<Rightarrow> string" where
  "url_hostname url =
     (let rest = drop 2 (dropWhile (\<lambda>c. c \<noteq> CHR ''/'') url);
          netloc = takeWhile (\<lambda>c. c \<notin> set ''/?#'') rest;
          host = (if CHR ''@'' \<in> set netloc then rev (takeWhile (\<lambda>c. c \<noteq> CHR ''@'') (rev netloc)) else netloc) in
      map char_lower (takeWhile (\<lambda>c. c \<noteq> CHR '':'') host))"

definition acoustid_host :: string where "acoustid_host = ''api.acoustid.org''"

definition provider_name_for_url :: "string \<Rightarrow> string \<Rightarrow> string option" where
  "provider_name_for_url url musicbrainz_host =
     (if url_hostname url = url_hostname musicbrainz_host then Some ''musicbrainz''
      else if url_hostname url = acoustid_host then Some ''acoustid'' else None)"

record live_transport =
  lt_client :: "events \<Rightarrow> string \<Rightarrow> raw_http option"
  lt_limited :: bool
  lt_musicbrainz_host :: string

text \<open>One request after another, at most \<open>left\<close> more; a failed sleep raises.\<close>

fun live_attempts ::
  "live_transport \<Rightarrow> string \<Rightarrow> (string \<times> string) list \<Rightarrow> nat \<Rightarrow> events \<Rightarrow> (string + mb_http) \<times> events" where
  "live_attempts L url headers left st =
     (let st = st @ (case provider_name_for_url url (lt_musicbrainz_host L) of
            Some name \<Rightarrow> if lt_limited L then [Waited name] else [] | None \<Rightarrow> []);
          answer = lt_client L st url; st = st @ [Requested url headers] in
      case answer of
        None \<Rightarrow> (Inr \<lparr>mh_status = None, mh_body = []\<rparr>, st)
      | Some r \<Rightarrow>
          if rh_status r \<notin> set client_retry_statuses
          then (Inr \<lparr>mh_status = Some (rh_status r), mh_body = rh_content r\<rparr>, st)
          else (case left of
            0 \<Rightarrow> (Inr \<lparr>mh_status = Some (rh_status r), mh_body = rh_content r\<rparr>, st)
          | Suc n \<Rightarrow> (case rh_retry_after r of
              None \<Rightarrow> live_attempts L url headers n st
            | Some a \<Rightarrow> (case slept_for a of
                None \<Rightarrow> (Inl ''OverflowError'', st)
              | Some None \<Rightarrow> live_attempts L url headers n st
              | Some (Some d) \<Rightarrow> live_attempts L url headers n (st @ [Slept d])))))"

declare live_attempts.simps [simp del]

definition live_get :: "live_transport \<Rightarrow> string \<Rightarrow> (string \<times> string) list \<Rightarrow> events \<Rightarrow> (string + mb_http) \<times> events" where
  "live_get L url headers st = live_attempts L url headers 2 st"

section \<open>The paged catalogue\<close>

text \<open>A server that holds \<open>rels\<close> for a recording: at every offset within it, whatever was asked
  before, it answers with some of the releases from there on, at least one if there is one.\<close>

definition page_at :: "mb_client \<Rightarrow> mb_parsers \<Rightarrow> string \<Rightarrow> mb_release list \<Rightarrow> events \<Rightarrow> nat \<Rightarrow> nat \<Rightarrow> bool" where
  "page_at C P mbid rels h k n \<longleftrightarrow>
     (let r = mbc_transport C h (client_url C ''/ws/2/release/'' (browse_params mbid k)) in
      mh_status r = Some 200
      \<and> parse_browse P (mh_body r) = Some \<lparr>bp_releases = take n (drop k rels), bp_count = length rels, bp_offset = k\<rparr>)"

definition serves :: "mb_client \<Rightarrow> mb_parsers \<Rightarrow> string \<Rightarrow> mb_release list \<Rightarrow> bool" where
  "serves C P mbid rels \<longleftrightarrow> (\<forall>h. \<forall>k\<le>length rels. \<exists>n. page_at C P mbid rels h k n \<and> (k < length rels \<longrightarrow> 0 < n))"

lemma client_get_ok:
  assumes "mh_status (mbc_transport C st (client_url C path params)) = Some 200"
  shows "fst (client_get C path params st) = mbc_transport C st (client_url C path params)"
  using assms
  by (simp add: client_get_def client_request_def get_attempts.simps [of C _ _ _ 2] client_retry_statuses_def
      Let_def image_iff split: option.splits)

lemma browse_page_ok:
  assumes "page_at C P mbid rels st k n"
  shows "mp_status (fst (browse_page C P mbid k st)) = Some 200 \<and> mp_payload (fst (browse_page C P mbid k st))
    = Some \<lparr>bp_releases = take n (drop k rels), bp_count = length rels, bp_offset = k\<rparr>"
proof -
  let ?u = "client_url C ''/ws/2/release/'' (browse_params mbid k)"
  have "fst (client_get C ''/ws/2/release/'' (browse_params mbid k) st) = mbc_transport C st ?u"
    by (rule client_get_ok) (use assms in \<open>simp add: page_at_def Let_def\<close>)
  then show ?thesis using assms by (simp add: browse_page_def parse_response_def page_at_def split_beta Let_def)
qed

lemma browse_loop_serves:
  assumes "serves C P mbid rels" and "k \<le> length rels"
  shows "\<exists>body st'. browse_loop C P mbid k (take k rels) bodies st
    = Some (\<lparr>mp_status = Some 200, mp_body = body, mp_payload = Some rels\<rparr>, st')"
  using assms(2)
proof (induction "length rels - k" arbitrary: k bodies st rule: less_induct)
  case less
  obtain n where n: "page_at C P mbid rels st k n" "k < length rels \<Longrightarrow> 0 < n"
    using assms(1) less.prems unfolding serves_def by metis
  note page = browse_page_ok [OF n(1)]
  have glue: "take k rels @ take n (drop k rels) = take (k + n) rels" by (simp add: take_add)
  show ?case
  proof (cases "length rels \<le> k + n")
    case True
    then show ?thesis
      using page less.prems by (subst browse_loop.simps) (simp add: Let_def glue min_def)
  next
    case False
    then have m: "0 < n" "k + n < length rels" using n(2) by auto
    have "\<exists>body st'. browse_loop C P mbid (k + n) (take (k + n) rels)
        (bodies @ [mp_body (fst (browse_page C P mbid k st))]) (snd (browse_page C P mbid k st))
      = Some (\<lparr>mp_status = Some 200, mp_body = body, mp_payload = Some rels\<rparr>, st')"
      by (rule less.hyps) (use m in auto)
    then show ?thesis
      using page m by (subst browse_loop.simps) (auto simp add: Let_def glue min_def)
  qed
qed

text \<open>Without such a server the loop still ends when the counts it reports are bounded.\<close>

lemma browse_loop_ends:
  assumes "\<And>h k page. mp_payload (fst (browse_page C P mbid k h)) = Some page \<Longrightarrow> bp_count page \<le> N"
  shows "\<exists>r. browse_loop C P mbid k rels bodies st = Some r"
proof (induction "N - length rels" arbitrary: k rels bodies st rule: less_induct)
  case less
  let ?r = "fst (browse_page C P mbid k st)"
  show ?case
  proof (cases "mp_payload ?r")
    case None
    then show ?thesis by (subst browse_loop.simps) (simp add: Let_def)
  next
    case (Some page)
    show ?thesis
    proof (cases "bp_count page \<le> length (rels @ bp_releases page) \<or> bp_releases page = []")
      case True
      then show ?thesis using Some by (subst browse_loop.simps) (auto simp add: Let_def)
    next
      case False
      then have "length rels < length (rels @ bp_releases page)" "length rels < N"
        using assms [OF Some] by auto
      then have "\<exists>r. browse_loop C P mbid (k + length (bp_releases page)) (rels @ bp_releases page)
          (bodies @ [mp_body ?r]) (snd (browse_page C P mbid k st)) = Some r"
        by (intro less.hyps diff_less_mono2) simp_all
      then show ?thesis using Some False by (subst browse_loop.simps) (simp add: Let_def)
    qed
  qed
qed

section \<open>Every lookup answers\<close>

definition good_status :: "int option \<Rightarrow> bool" where
  "good_status s = (case s of None \<Rightarrow> True | Some v \<Rightarrow> 100 \<le> v \<and> v \<le> 599)"

text \<open>SHA-256 gives hexadecimal digests, an answer has an HTTP status, the reported counts are
  bounded and a fan-out starts all its tasks.\<close>

definition sound_service :: "mb_client \<Rightarrow> mb_parsers \<Rightarrow> (octets \<Rightarrow> string) \<Rightarrow> nat \<Rightarrow> bool" where
  "sound_service C P sha N \<longleftrightarrow> (\<forall>b. is_sha256_hex (sha b))
     \<and> (\<forall>h u. good_status (mh_status (mbc_transport C h u)))
     \<and> (\<forall>b page. parse_browse P b = Some page \<longrightarrow> bp_count page \<le> N)
     \<and> (\<forall>ids. set (mbc_schedule C ids) = set ids)"

text \<open>A well-typed provenance of a lookup made at \<open>now\<close>: it describes the body it carries.\<close>

definition valid_provenance :: "(octets \<Rightarrow> string) \<Rightarrow> timestamp \<Rightarrow> live_provenance \<Rightarrow> bool" where
  "valid_provenance sha now p \<longleftrightarrow> lp_provider p = ''musicbrainz'' \<and> is_sha256_hex (lp_request_hash p)
     \<and> lp_sha256 p = sha (lp_body p) \<and> is_sha256_hex (lp_sha256 p) \<and> good_status (lp_http_status p)
     \<and> lp_captured p = now \<and> lp_state p = ''fresh''"

lemma live_provenance_ok:
  assumes "is_sha256_hex h" "\<And>b. is_sha256_hex (sha b)" "good_status s"
  shows "\<exists>p. live_provenance_of ''musicbrainz'' h (sha body) s now ''fresh'' body = Inr p \<and> valid_provenance sha now p"
  using assms by (cases s) (auto simp: live_provenance_of_def valid_provenance_def good_status_def)

lemma mb_provenance_ok:
  assumes "sound_service C P sha N" "good_status (mp_status r)"
  obtains p where "mb_provenance sha key r now = Inr p" "valid_provenance sha now p"
  using live_provenance_ok [of "sha (str_encode key)" sha "mp_status r" "mp_body r" now] assms
  by (auto simp: mb_provenance_def sound_service_def)

lemma append_provenance_ok:
  assumes "sound_service C P sha N" "good_status (mp_status r)" "valid_provenance sha now p"
  obtains p' where "append_provenance sha p r = Inr p'" "valid_provenance sha now p'"
  using live_provenance_ok [of "lp_request_hash p" sha "mp_status r" "lp_body p @ 10 # mp_body r" now] assms
  by (auto simp: append_provenance_def sound_service_def valid_provenance_def Let_def)

lemma get_attempts_status:
  assumes "\<And>h u. good_status (mh_status (mbc_transport C h u))"
  shows "good_status (mh_status (fst (get_attempts C url hs d n st)))"
proof (induction n arbitrary: st)
  case 0
  then show ?case using assms by (subst get_attempts.simps) (simp add: client_request_def)
next
  case (Suc n)
  then show ?case using assms by (subst get_attempts.simps) (simp add: client_request_def Let_def)
qed

lemma client_get_status:
  "sound_service C P sha N \<Longrightarrow> good_status (mh_status (fst (client_get C path params st)))"
  by (simp add: client_get_def Let_def sound_service_def get_attempts_status client_request_def split: option.splits)

lemma browse_loop_status:
  assumes "sound_service C P sha N"
  shows "browse_loop C P mbid k rels bodies st = Some (r, st') \<Longrightarrow> good_status (mp_status r)"
proof (induction "N - length rels" arbitrary: k rels bodies st rule: less_induct)
  case less
  let ?r = "fst (browse_page C P mbid k st)"
  have s: "good_status (mp_status ?r)"
    using client_get_status [OF assms] by (simp add: browse_page_def parse_response_def split_beta)
  show ?case
  proof (cases "mp_payload ?r")
    case None
    then show ?thesis using s less.prems by (subst (asm) browse_loop.simps) (auto simp: Let_def)
  next
    case (Some page)
    then have n: "bp_count page \<le> N"
      using assms by (auto simp: browse_page_def parse_response_def sound_service_def split_beta split: if_splits)
    show ?thesis
    proof (cases "bp_count page \<le> length (rels @ bp_releases page) \<or> bp_releases page = []")
      case True
      then show ?thesis
        using s Some less.prems by (subst (asm) browse_loop.simps) (auto simp: Let_def split: if_splits)
    next
      case False
      then have "length rels < length (rels @ bp_releases page)" "length rels < N" using n by auto
      moreover have "browse_loop C P mbid (k + length (bp_releases page)) (rels @ bp_releases page)
          (bodies @ [mp_body ?r]) (snd (browse_page C P mbid k st)) = Some (r, st')"
        using Some False less.prems by (subst (asm) browse_loop.simps) (simp add: Let_def)
      ultimately show ?thesis using less.hyps [OF diff_less_mono2] by blast
    qed
  qed
qed

definition returns_good :: "(string \<Rightarrow> events \<Rightarrow> ('a mb_response \<times> events) option) \<Rightarrow> bool" where
  "returns_good f \<longleftrightarrow> (\<forall>v st. \<exists>r st'. f v st = Some (r, st') \<and> good_status (mp_status r))"

lemma recording_detail_good: "sound_service C P sha N \<Longrightarrow> returns_good (recording_detail C P)"
  unfolding returns_good_def recording_detail_def
proof (intro allI)
  fix v st assume a: "sound_service C P sha N"
  have "\<exists>r. browse_loop C P v 0 [] [] st = Some r"
    by (rule browse_loop_ends)
       (use a in \<open>auto simp: browse_page_def parse_response_def sound_service_def split_beta split: if_splits\<close>)
  then show "\<exists>r st'. browse_loop C P v 0 [] [] st = Some (r, st') \<and> good_status (mp_status r)"
    using browse_loop_status [OF a] by (metis surj_pair)
qed

lemma release_detail_good: "sound_service C P sha N \<Longrightarrow> returns_good (release_detail C P)"
  by (auto simp: returns_good_def release_detail_def parse_response_def split_beta client_get_status)

lemma bounded_fan_out_good:
  assumes "returns_good f" "\<forall>d\<in>snd ` set results. good_status (mp_status d)"
  shows "\<exists>results' st'. bounded_fan_out f vs results st = Some (results', st')
    \<and> (\<forall>v. dict_get results' v \<noteq> None \<longleftrightarrow> v \<in> set vs \<or> dict_get results v \<noteq> None)
    \<and> (\<forall>d\<in>snd ` set results'. good_status (mp_status d))"
  using assms(2)
proof (induction vs arbitrary: results st)
  case Nil
  then show ?case by auto
next
  case (Cons v vs)
  obtain r st1 where r: "f v st = Some (r, st1)" "good_status (mp_status r)"
    using assms(1) unfolding returns_good_def by blast
  have "d \<in> snd ` set (dict_set v r results) \<Longrightarrow> d = r \<or> d \<in> snd ` set results" for d
    by (induction v r results rule: dict_set.induct) (auto split: if_splits)
  then have "\<forall>d\<in>snd ` set (dict_set v r results). good_status (mp_status d)"
    using r(2) Cons.prems by blast
  from Cons.IH [where st = st1, OF this] show ?case using r(1) by (auto split: if_splits)
qed

lemma details_good:
  assumes "sound_service C P sha N" "returns_good f"
  shows "\<exists>ds st'. details C f ids st = Some (ds, st') \<and> map fst ds = dedup ids
    \<and> (\<forall>(i, d)\<in>set ds. good_status (mp_status d))"
proof -
  obtain results st' where r: "bounded_fan_out f (mbc_schedule C (dedup ids)) [] st = Some (results, st')"
      "\<And>v. dict_get results v \<noteq> None \<longleftrightarrow> v \<in> set ids" "\<forall>d\<in>snd ` set results. good_status (mp_status d)"
    using bounded_fan_out_good [OF assms(2), of "[]" "mbc_schedule C (dedup ids)" st] assms(1)
    by (simp add: sound_service_def) blast
  let ?read = "\<lambda>is. concat (map (\<lambda>i. case dict_get results i of Some d \<Rightarrow> [(i, d)] | None \<Rightarrow> []) is)"
  have "map fst (?read is) = is" if "set is \<subseteq> set ids" for "is"
    using that r(2) by (induction "is") (auto split: option.splits)
  then have "map fst (?read (dedup ids)) = dedup ids" by simp
  moreover have "(i, d) \<in> set (?read is) \<Longrightarrow> d \<in> snd ` set results" for i d "is"
    by (auto split: option.splits dest!: map_of_SomeD [OF sym] intro!: image_eqI [where x = "(i, d)"])
  ultimately show ?thesis using r(1,3) by (auto simp: details_def)
qed

lemma gather_good:
  assumes "sound_service C P sha N" and "\<forall>(i, d)\<in>set ds. good_status (mp_status d)"
    and "valid_provenance sha now (gt_provenance g)"
  shows "\<exists>x. gather sha now ds g = Inr x \<and> (case x of Inl outcome \<Rightarrow> valid_provenance sha now (provenance_of outcome)
    | Inr g' \<Rightarrow> valid_provenance sha now (gt_provenance g'))"
  using assms(2,3)
proof (induction ds arbitrary: g)
  case Nil
  then show ?case by simp
next
  case (Cons e ds)
  obtain i r where e: "e = (i, r)" by (cases e)
  obtain p where p: "mb_provenance sha (''recording:'' @ i) r now = Inr p" "valid_provenance sha now p"
    using mb_provenance_ok [OF assms(1), of r] Cons.prems(1) e by auto
  show ?case
  proof (cases "response_outcome r p")
    case (Some outcome)
    then have "provenance_of outcome = p" by (auto simp: response_outcome_def split: option.splits if_splits)
    then show ?thesis using p Some e by simp
  next
    case None
    have "gt_provenance (foldl (gather_release i) h rels) = gt_provenance h" for h rels
      by (induction rels arbitrary: h) (auto simp: gather_release_def)
    then show ?thesis using p None e Cons.prems Cons.IH by (cases "mp_payload r") simp_all
  qed
qed

lemma enrich_good:
  assumes "sound_service C P sha N" and "\<forall>(i, d)\<in>set ds. good_status (mp_status d)"
    and "valid_provenance sha now p"
  shows "\<exists>d' p'. enrich sha ds (d, p) = Inr (d', p') \<and> valid_provenance sha now p'"
  using assms(2,3)
proof (induction ds arbitrary: d p)
  case Nil
  then show ?case by simp
next
  case (Cons e ds)
  obtain i r where e: "e = (i, r)" by (cases e)
  obtain p' where p: "append_provenance sha p r = Inr p'" "valid_provenance sha now p'"
    using append_provenance_ok [OF assms(1), of r] Cons.prems e by auto
  show ?case using p e Cons.prems Cons.IH by (cases "mp_payload r") simp_all
qed

definition answers_validly ::
  "(octets \<Rightarrow> string) \<Rightarrow> timestamp \<Rightarrow> ((evidence_error + musicbrainz_result) \<times> events) option \<Rightarrow> bool" where
  "answers_validly sha now out \<longleftrightarrow>
     (\<exists>r st'. out = Some (Inr r, st') \<and> valid_provenance sha now (provenance_of r))"

lemma finish_recordings_good:
  assumes "sound_service C P sha N" "valid_provenance sha now (gt_provenance g)"
  shows "answers_validly sha now (finish_recordings C P sha artist scores g st)"
proof (cases "gt_releases g = []")
  case True
  then show ?thesis using assms(2) by (simp add: finish_recordings_def answers_validly_def)
next
  case False
  obtain ds st1 where d: "release_details C P (map fst (gt_releases g)) st = Some (ds, st1)"
      "\<forall>(i, d)\<in>set ds. good_status (mp_status d)"
    using details_good [OF assms(1) release_detail_good [OF assms(1)]] unfolding release_details_def by blast
  obtain e p' where e: "enrich sha ds (gt_releases g, gt_provenance g) = Inr (e, p')" "valid_provenance sha now p'"
    using enrich_good [OF assms(1) d(2) assms(2)] by blast
  have "provenance_of (candidates_result cs p') = p'" for cs
    by (simp add: candidates_result_def split: list.splits)
  then show ?thesis using False d(1) e by (simp add: finish_recordings_def answers_validly_def)
qed

lemma resolve_recordings_good:
  assumes "sound_service C P sha N" "\<And>p. initial = Some p \<Longrightarrow> valid_provenance sha now p"
  shows "answers_validly sha now (resolve_recordings C P sha mbids q now key initial scores st)"
proof (cases "mbids = []")
  case True
  obtain p where "empty_provenance sha key now = Inr p \<and> valid_provenance sha now p"
    using live_provenance_ok [of "sha (str_encode key)" sha None "[]" now] assms(1)
    by (auto simp: empty_provenance_def sound_service_def good_status_def)
  then show ?thesis using True assms(2)
    by (auto simp: resolve_recordings_def answers_validly_def split: option.splits)
next
  case False
  obtain ds st1 where d: "recording_details C P mbids st = Some (ds, st1)" "map fst ds = dedup mbids"
      "\<forall>(i, d)\<in>set ds. good_status (mp_status d)"
    using details_good [OF assms(1) recording_detail_good [OF assms(1)]] unfolding recording_details_def by blast
  have "dedup mbids \<noteq> []" using False by (metis set_dedup set_empty)
  then have "hd ds \<in> set ds" using d(2) by (cases ds) auto
  then have h: "good_status (mp_status (snd (hd ds)))" using d(3) by (auto simp: split_beta)
  obtain p0 where p0: "mb_provenance sha key (snd (hd ds)) now = Inr p0" "valid_provenance sha now p0"
    using mb_provenance_ok [OF assms(1) h] by blast
  obtain p where p: "(case initial of Some p \<Rightarrow> Inr p | None \<Rightarrow> mb_provenance sha key (snd (hd ds)) now) = Inr p"
      "valid_provenance sha now p"
    by (cases initial) (use p0 assms(2) in auto)
  obtain x where x: "gather sha now ds \<lparr>gt_provenance = p, gt_releases = [], gt_recordings = []\<rparr> = Inr x"
      "case x of Inl outcome \<Rightarrow> valid_provenance sha now (provenance_of outcome)
        | Inr g' \<Rightarrow> valid_provenance sha now (gt_provenance g')"
    using gather_good [OF assms(1) d(3), of now "\<lparr>gt_provenance = p, gt_releases = [], gt_recordings = []\<rparr>"] p(2)
    by auto
  have eq: "resolve_recordings C P sha mbids q now key initial scores st = (case x of Inl outcome \<Rightarrow> Some (Inr outcome, st1)
      | Inr g \<Rightarrow> finish_recordings C P sha (mq_artist q) scores g st1)"
    using False d(1) p(1) x(1) by (simp add: resolve_recordings_def)
  show ?thesis
  proof (cases x)
    case (Inl outcome)
    then show ?thesis using x(2) eq by (simp add: answers_validly_def)
  next
    case (Inr g)
    then show ?thesis using x(2) eq finish_recordings_good [OF assms(1)] by simp
  qed
qed

lemma lookup_release_good:
  assumes "sound_service C P sha N"
  shows "answers_validly sha now (lookup_release C P sha q mbid now st)"
proof -
  obtain r st1 where r: "release_detail C P mbid st = Some (r, st1)" "good_status (mp_status r)"
    using release_detail_good [OF assms] unfolding returns_good_def by blast
  obtain p where p: "mb_provenance sha (''release:'' @ mbid) r now = Inr p" "valid_provenance sha now p"
    using mb_provenance_ok [OF assms r(2)] by blast
  have "provenance_of outcome = p" if "response_outcome r p = Some outcome" for outcome
    using that by (auto simp: response_outcome_def split: option.splits if_splits)
  then show ?thesis using r(1) p
    by (auto simp: lookup_release_def answers_validly_def split: option.splits)
qed

lemma fan_out_results:
  assumes f: "\<forall>v\<in>set vs. \<forall>st. \<exists>r st'. f v st = Some (r, st') \<and> Q v r"
    and "\<forall>v r. dict_get results v = Some r \<longrightarrow> Q v r"
  shows "\<exists>results' st'. bounded_fan_out f vs results st = Some (results', st')
    \<and> (\<forall>v. dict_get results' v \<noteq> None \<longleftrightarrow> v \<in> set vs \<or> dict_get results v \<noteq> None)
    \<and> (\<forall>v r. dict_get results' v = Some r \<longrightarrow> Q v r)"
  using assms
proof (induction vs arbitrary: results st)
  case Nil
  then show ?case by simp
next
  case (Cons v vs)
  obtain r st1 where r: "f v st = Some (r, st1)" "Q v r" using Cons.prems(1) by force
  have f: "\<forall>v\<in>set vs. \<forall>st. \<exists>r st'. f v st = Some (r, st') \<and> Q v r" using Cons.prems(1) by simp
  have q: "\<forall>w d. dict_get (dict_set v r results) w = Some d \<longrightarrow> Q w d" using Cons.prems(2) r(2) by simp
  show ?case using Cons.IH [where st = st1, OF f q] r(1) by (auto split: if_splits)
qed

text \<open>Whatever order the tasks run in, the details read back are those of the identifiers.\<close>

lemma details_results:
  assumes "set (mbc_schedule C (dedup ids)) = set ids"
    and "\<forall>v\<in>set ids. \<forall>st. \<exists>r st'. f v st = Some (r, st') \<and> Q v r"
  shows "\<exists>ds st'. details C f ids st = Some (ds, st') \<and> map fst ds = dedup ids \<and> (\<forall>(i, r)\<in>set ds. Q i r)"
proof -
  have f: "\<forall>v\<in>set (mbc_schedule C (dedup ids)). \<forall>st. \<exists>r st'. f v st = Some (r, st') \<and> Q v r"
    using assms by simp
  obtain results st' where r: "bounded_fan_out f (mbc_schedule C (dedup ids)) [] st = Some (results, st')"
      "\<forall>v. dict_get results v \<noteq> None \<longleftrightarrow> v \<in> set ids" "\<forall>v r. dict_get results v = Some r \<longrightarrow> Q v r"
    using fan_out_results [OF f, of "[]" st] assms(1) by auto
  let ?read = "\<lambda>is. concat (map (\<lambda>i. case dict_get results i of Some d \<Rightarrow> [(i, d)] | None \<Rightarrow> []) is)"
  have "map fst (?read is) = is" if "set is \<subseteq> set ids" for "is"
    using that r(2) by (induction "is") (auto split: option.splits)
  then have "map fst (?read (dedup ids)) = dedup ids" by simp
  moreover have "\<forall>(i, d)\<in>set (?read is). Q i d" for "is" using r(3) by (auto split: option.splits)
  ultimately show ?thesis using r(1) by (auto simp: details_def)
qed

section \<open>Properties\<close>

definition sample_release :: "string \<Rightarrow> mb_release" where
  "sample_release i = \<lparr>mrel_id = i, mrel_title = ''Title'', mrel_disambiguation = None, mrel_status = Some ''Official'',
     mrel_credit = [], mrel_date = None, mrel_country = None, mrel_barcode = None, mrel_catalog_numbers = [],
     mrel_genres = [], mrel_group = None, mrel_media = []\<rparr>"

definition sample_browse :: "octets \<Rightarrow> mb_browse_page option" where
  "sample_browse b = (case b of [k] \<Rightarrow> Some \<lparr>bp_releases = take 1 (drop k [sample_release ''r1'', sample_release ''r2'']),
     bp_count = 2, bp_offset = k\<rparr> | _ \<Rightarrow> None)"

definition sample_parsers :: mb_parsers where
  "sample_parsers = \<lparr>parse_search = Map.empty, parse_browse = sample_browse, parse_release = Map.empty\<rparr>"

text \<open>A server that gives one release a page; its last URL character is the offset.\<close>

definition paging_client :: mb_client where
  "paging_client = \<lparr>mbc_transport = (\<lambda>h url. \<lparr>mh_status = Some 200, mh_body = [of_char (last url) - 48]\<rparr>),
     mbc_user_agent = ''agent'', mbc_host = ''https://musicbrainz.org/'', mbc_retry_delay = None, mbc_schedule = rev\<rparr>"

definition sample_digest :: "octets \<Rightarrow> string" where
  "sample_digest b = replicate 64 (CHR ''0'')"

lemma sample_serves: "serves paging_client sample_parsers mbid [sample_release ''r1'', sample_release ''r2'']"
proof -
  have d: "decimal 0 = ''0''" "decimal 1 = ''1''" "decimal 2 = ''2''" by code_simp+
  have l: "last (client_url paging_client path (browse_params mbid k)) = last (decimal k)"
    if "k \<in> {0, 1, 2}" for path k
  proof -
    have q: "quote_plus (decimal k) = decimal k" "decimal k \<noteq> []" using that d by auto code_simp+
    show ?thesis using q
      by (simp add: client_url_def browse_params_def urlencode_def)
  qed
  have "page_at paging_client sample_parsers mbid [sample_release ''r1'', sample_release ''r2''] h k 1"
    if "k \<in> {0, 1, 2}" for h k
    using l [OF that] d that
    by (auto simp: page_at_def paging_client_def sample_parsers_def sample_browse_def Let_def)
  moreover have "k \<le> 2 \<Longrightarrow> k \<in> {0, 1, 2}" for k :: nat by auto
  ultimately show ?thesis by (auto simp: serves_def intro!: exI [of _ 1])
qed

text \<open>C30. Refinement of the paged catalogue: when the server holds a list of releases for each of
  the recordings and hands them out in pages of any positive length, the client returns exactly
  these lists, one per identifier in the order given, whatever was requested before, however often
  a page is cut short and in whatever order the concurrent tasks run.\<close>

theorem recording_details_refine_catalogue:
  assumes "\<forall>i\<in>set ids. serves C P i (catalogue i)"
    and "set (mbc_schedule C (dedup ids)) = set ids"
  shows "\<exists>ds st'. recording_details C P ids st = Some (ds, st')
    \<and> map (\<lambda>(i, r). (i, mp_status r, mp_payload r)) ds = map (\<lambda>i. (i, Some 200, Some (catalogue i))) (dedup ids)"
proof -
  let ?Q = "\<lambda>i r. mp_status r = Some 200 \<and> mp_payload r = Some (catalogue i)"
  have "\<exists>r st'. recording_detail C P i h = Some (r, st') \<and> ?Q i r" if "i \<in> set ids" for i h
    using browse_loop_serves [of C P i "catalogue i" 0 "[]" h] assms(1) that by (auto simp: recording_detail_def)
  then obtain ds st' where d: "recording_details C P ids st = Some (ds, st')" "map fst ds = dedup ids"
      "\<forall>(i, r)\<in>set ds. ?Q i r"
    using details_results [OF assms(2), of "recording_detail C P" ?Q st] unfolding recording_details_def by blast
  have "map (\<lambda>(i, r). (i, mp_status r, mp_payload r)) ds = map (\<lambda>i. (i, Some 200, Some (catalogue i))) (map fst ds)"
    using d(3) by auto
  then show ?thesis using d(1,2) by auto
qed

lemma recording_details_refine_catalogue_witness:
  "\<exists>ds st'. recording_details paging_client sample_parsers [''a'', ''b''] [] = Some (ds, st')
    \<and> map (\<lambda>(i, r). (i, mp_status r, mp_payload r)) ds
      = map (\<lambda>i. (i, Some 200, Some [sample_release ''r1'', sample_release ''r2''])) [''a'', ''b'']"
proof -
  have s: "set (mbc_schedule paging_client (dedup [''a'', ''b''])) = set [''a'', ''b'']"
    by (simp add: paging_client_def)
  have "dedup [''a'', ''b''] = [''a'', ''b'']" by (rule dedup_id) simp
  then show ?thesis
    using recording_details_refine_catalogue
      [of "[''a'', ''b'']" paging_client sample_parsers "\<lambda>i. [sample_release ''r1'', sample_release ''r2'']" "[]", OF _ s]
      sample_serves by simp
qed

text \<open>C31. Type of a lookup: against any server whose answers carry HTTP statuses and whose reported
  counts are bounded, a lookup returns, does not raise, and its result carries a well-formed
  provenance: MusicBrainz, fresh, captured now, with digests that are hexadecimal and the digest of
  the body it holds.\<close>

theorem mb_lookup_well_typed:
  assumes "sound_service C P sha N"
  shows "\<exists>r st'. mb_lookup C P sha q now st = Some (Inr r, st') \<and> valid_provenance sha now (provenance_of r)"
proof -
  have "answers_validly sha now (mb_lookup C P sha q now st)"
  proof (cases "mq_release q")
    case (Some m)
    then show ?thesis using lookup_release_good [OF assms] by (simp add: mb_lookup_def)
  next
    case none: None
    show ?thesis
    proof (cases "mq_recording q")
      case (Some m)
      then show ?thesis using none resolve_recordings_good [OF assms, of None] by (simp add: mb_lookup_def)
    next
      case None
      obtain r st1 where s: "search_recordings C P (mq_query q) st = (r, st1)" by force
      then have "good_status (mp_status r)"
        using client_get_status [OF assms] by (auto simp: search_recordings_def parse_response_def split_beta)
      then obtain p where p: "mb_provenance sha (''query:'' @ mq_query q) r now = Inr p" "valid_provenance sha now p"
        using mb_provenance_ok [OF assms] by blast
      have "provenance_of outcome = p" if "response_outcome r p = Some outcome" for outcome
        using that by (auto simp: response_outcome_def split: option.splits if_splits)
      then have "answers_validly sha now
          (Some (Inr (case response_outcome r p of Some outcome \<Rightarrow> outcome | None \<Rightarrow> Malformed p), st1))"
        using p(2) by (auto simp: answers_validly_def split: option.splits)
      then show ?thesis
        using none None s p resolve_recordings_good [OF assms, of "Some p"] by (simp add: mb_lookup_def Let_def)
    qed
  qed
  then show ?thesis by (simp add: answers_validly_def)
qed

lemma mb_lookup_well_typed_witness:
  "\<exists>r st'. mb_lookup paging_client sample_parsers sample_digest sample_musicbrainz_request 0 [] = Some (Inr r, st')
    \<and> valid_provenance sample_digest 0 (provenance_of r)"
proof (rule mb_lookup_well_typed [of _ _ _ 2])
  have "is_sha256_hex (sample_digest b)" for b by (simp add: sample_digest_def is_sha256_hex_def)
  then show "sound_service paging_client sample_parsers sample_digest 2"
    by (auto simp: sound_service_def paging_client_def sample_parsers_def sample_browse_def good_status_def
        split: list.splits)
qed

end
