(* ===== verification/Genres.thy ===== *)
theory Genres imports MusicBrainz "HOL-Library.Sublist" begin

text \<open>
  \<^bold>\<open>Genres\<close>: the synchronisation of MusicBrainz' genre catalogue (\<open>services/matching/genres.py\<close>) and
  its table (\<open>services/matching/genre_catalog.py\<close>), the names and keys of genres
  (\<open>services/normalize/genre_names.py\<close>) and the mapping of provider genres onto the policy
  (\<open>services/normalize/genres.py\<close>).

  Names are strings of Latin-1 characters, case mapping is that of ASCII. The synchronisation may
  ask for pages without end, so it is a partial function as the client's own paging is.
\<close>

section \<open>Names and keys\<close>

definition special_labels :: "(string \<times> string) list" where
  "special_labels = [(''dnb'', ''DnB''), (''edm'', ''EDM''), (''idm'', ''IDM''), (''j-pop'', ''J-Pop''),
     (''k-pop'', ''K-Pop''), (''r&b'', ''R&B'')]"

text \<open>\<open>[word for word in re.split(r'[\s-]+', s) if word]\<close>.\<close>

fun name_words :: "string \<Rightarrow> string \<Rightarrow> string list" where
  "name_words w [] = (if w = [] then [] else [rev w])"
| "name_words w (c # s) =
     (if is_space c \<or> c = CHR ''-'' then (if w = [] then name_words [] s else rev w # name_words [] s)
      else name_words (c # w) s)"

definition capitalized :: "string \<Rightarrow> string" where
  "capitalized w = str_upper (take 1 w) @ drop 1 w"

definition display_genre_name :: "string \<Rightarrow> string" where
  "display_genre_name s = (case map_of special_labels (str_casefold s) of
     Some label \<Rightarrow> label | None \<Rightarrow> str_join '' '' (map capitalized (name_words [] (str_strip s))))"

text \<open>The characters \<open>\w\<close> matches.\<close>

definition is_word_char :: "char \<Rightarrow> bool" where
  "is_word_char c = (let n = (of_char c :: nat) in
     (48 \<le> n \<and> n \<le> 57) \<or> (65 \<le> n \<and> n \<le> 90) \<or> n = 95 \<or> (97 \<le> n \<and> n \<le> 122)
     \<or> n \<in> {170, 178, 179, 181, 185, 186, 188, 189, 190} \<or> (192 \<le> n \<and> n \<noteq> 215 \<and> n \<noteq> 247))"

text \<open>\<open>_GENRE_TEXT.sub(' ', s)\<close>: each run of other characters becomes one blank.\<close>

fun blank_runs :: "bool \<Rightarrow> string \<Rightarrow> string" where
  "blank_runs in_run [] = []"
| "blank_runs in_run (c # s) =
     (if is_word_char c then c # blank_runs False s
      else if in_run then blank_runs True s else CHR '' '' # blank_runs True s)"

definition genre_key :: "string \<Rightarrow> string" where
  "genre_key s = str_strip (blank_runs False (str_casefold s))"

section \<open>Synchronising the catalogue\<close>

record genre_payload =
  gp_id :: string
  gp_name :: string

record genre_catalogue_page =
  gpg_count :: nat
  gpg_offset :: nat
  gpg_genres :: "genre_payload list"

record genre_entry =
  ge_id :: string
  ge_source_name :: string
  ge_display_name :: string

definition page_size :: nat where "page_size = 100"

definition genre_params :: "nat \<Rightarrow> (string \<times> string) list" where
  "genre_params offset = [(''fmt'', ''json''), (''limit'', decimal page_size), (''offset'', decimal offset)]"

definition genre_page ::
  "mb_client \<Rightarrow> (octets \<Rightarrow> genre_catalogue_page option) \<Rightarrow> nat \<Rightarrow> events \<Rightarrow> genre_catalogue_page mb_response \<times> events" where
  "genre_page C parser offset st =
     (let (r, st) = client_get C ''/ws/2/genre/all'' (genre_params offset) st in (parse_response r parser, st))"

definition entry_of :: "genre_payload \<Rightarrow> genre_entry" where
  "entry_of g = \<lparr>ge_id = gp_id g, ge_source_name = gp_name g, ge_display_name = display_genre_name (gp_name g)\<rparr>"

text \<open>\<open>GenreCatalogSyncError\<close>.\<close>

datatype genre_sync_error = HttpStatus "int option" | InconsistentOffset | EndedEarly | ExceededCount
  | TruncatedPage | DuplicateEntries

definition duplicates :: "genre_entry list \<Rightarrow> genre_payload list \<Rightarrow> bool" where
  "duplicates entries gs \<longleftrightarrow> \<not> distinct (map gp_id gs) \<or> \<not> distinct (map gp_name gs)
     \<or> list_ex (\<lambda>g. gp_id g \<in> ge_id ` set entries \<or> gp_name g \<in> ge_source_name ` set entries) gs"

definition page_error :: "genre_entry list \<Rightarrow> nat \<Rightarrow> genre_catalogue_page \<Rightarrow> genre_sync_error option" where
  "page_error entries offset page =
     (let n = length (gpg_genres page) in
      if gpg_offset page \<noteq> offset then Some InconsistentOffset
      else if offset < gpg_count page \<and> gpg_genres page = [] then Some EndedEarly
      else if gpg_count page < offset + n then Some ExceededCount
      else if offset + n < gpg_count page \<and> n \<noteq> page_size then Some TruncatedPage
      else if duplicates entries (gpg_genres page) then Some DuplicateEntries else None)"

partial_function (option) sync_loop ::
  "mb_client \<Rightarrow> (octets \<Rightarrow> genre_catalogue_page option) \<Rightarrow> genre_entry list \<Rightarrow> nat \<Rightarrow> events
   \<Rightarrow> ((genre_sync_error + genre_entry list) \<times> events) option" where
  "sync_loop C parser entries offset st =
     (let r = fst (genre_page C parser offset st); st' = snd (genre_page C parser offset st) in
      case mp_payload r of
        None \<Rightarrow> Some (Inl (HttpStatus (mp_status r)), st')
      | Some page \<Rightarrow>
          if mp_status r \<noteq> Some 200 then Some (Inl (HttpStatus (mp_status r)), st')
          else (case page_error entries offset page of
            Some e \<Rightarrow> Some (Inl e, st')
          | None \<Rightarrow>
              if gpg_genres page = [] \<or> gpg_count page \<le> offset + length (gpg_genres page)
              then Some (Inr (entries @ map entry_of (gpg_genres page)), st')
              else sync_loop C parser (entries @ map entry_of (gpg_genres page))
                     (offset + length (gpg_genres page)) st'))"

definition genre_sort_key :: "genre_entry \<Rightarrow> string" where
  "genre_sort_key e = str_casefold (ge_source_name e)"

definition sync_genres ::
  "mb_client \<Rightarrow> (octets \<Rightarrow> genre_catalogue_page option) \<Rightarrow> events \<Rightarrow> ((genre_sync_error + genre_entry list) \<times> events) option" where
  "sync_genres C parser st = map_option (\<lambda>(r, st).
     (case r of Inl e \<Rightarrow> Inl e | Inr entries \<Rightarrow> Inr (sort_key genre_sort_key entries), st)) (sync_loop C parser [] 0 st)"

section \<open>The genre table\<close>

record genre_row =
  gr_id :: string
  gr_source_name :: string
  gr_display_name :: string
  gr_key :: string
  gr_synced :: timestamp

definition genre_row_of :: "timestamp \<Rightarrow> genre_entry \<Rightarrow> genre_row" where
  "genre_row_of now e = \<lparr>gr_id = ge_id e, gr_source_name = ge_source_name e, gr_display_name = ge_display_name e,
     gr_key = genre_key (ge_source_name e), gr_synced = now\<rparr>"

text \<open>The primary key and the unique source name of the table.\<close>

definition genre_table_ok :: "genre_row list \<Rightarrow> bool" where
  "genre_table_ok rows \<longleftrightarrow> distinct (map gr_id rows) \<and> distinct (map gr_source_name rows)"

text \<open>All rows are deleted, then the entries added; a constraint fails the transaction.\<close>

definition replace_genre_catalog :: "genre_entry list \<Rightarrow> timestamp \<Rightarrow> genre_row list \<Rightarrow> string + genre_row list" where
  "replace_genre_catalog entries now rows =
     (let added = map (genre_row_of now) entries in
      if genre_table_ok added then Inr added else Inl ''IntegrityError'')"

definition load_genre_catalog :: "genre_row list \<Rightarrow> genre_row list" where
  "load_genre_catalog rows = sort_key gr_display_name rows"

section \<open>Normalising to the policy\<close>

record genre_policy =
  gpol_canonical :: "string list"
  gpol_aliases :: "(string \<times> string list) list"

definition alias_target :: "genre_policy \<Rightarrow> string \<Rightarrow> string list option" where
  "alias_target pol value =
     (let aliases = dict_of (map (\<lambda>(n, t). (genre_key n, t)) (gpol_aliases pol));
          canonical = dict_of (map (\<lambda>n. (genre_key n, [n])) (gpol_canonical pol)) in
      case dict_get aliases (genre_key value) of Some t \<Rightarrow> Some t | None \<Rightarrow> dict_get canonical (genre_key value))"

fun resolve_genres :: "genre_policy \<Rightarrow> string list \<Rightarrow> string list \<Rightarrow> string + string list" where
  "resolve_genres pol [] resolved = Inr resolved"
| "resolve_genres pol (v # vs) resolved = (case alias_target pol v of
     None \<Rightarrow> Inl v | Some t \<Rightarrow> resolve_genres pol vs (resolved @ t))"

definition normalize_genres :: "string list \<Rightarrow> genre_policy \<Rightarrow> string + string list" where
  "normalize_genres values pol = bindR (resolve_genres pol values []) (\<lambda>resolved.
     Inr (filter (\<lambda>g. g \<in> set resolved) (gpol_canonical pol)))"

section \<open>A consistent server\<close>

text \<open>The whole catalogue in pages of a hundred, whatever was asked before.\<close>

definition serves_genres :: "mb_client \<Rightarrow> (octets \<Rightarrow> genre_catalogue_page option) \<Rightarrow> genre_payload list \<Rightarrow> bool" where
  "serves_genres C parser gs \<longleftrightarrow> distinct (map gp_id gs) \<and> distinct (map gp_name gs)
     \<and> (\<forall>h. \<forall>k\<le>length gs. let r = mbc_transport C h (client_url C ''/ws/2/genre/all'' (genre_params k)) in
          mh_status r = Some 200 \<and> parser (mh_body r)
            = Some \<lparr>gpg_count = length gs, gpg_offset = k, gpg_genres = take page_size (drop k gs)\<rparr>)"

lemma genre_page_ok:
  assumes "serves_genres C parser gs" "k \<le> length gs"
  shows "mp_status (fst (genre_page C parser k st)) = Some 200 \<and> mp_payload (fst (genre_page C parser k st))
    = Some \<lparr>gpg_count = length gs, gpg_offset = k, gpg_genres = take page_size (drop k gs)\<rparr>"
proof -
  let ?u = "client_url C ''/ws/2/genre/all'' (genre_params k)"
  have r: "mh_status (mbc_transport C st ?u) = Some 200" "parser (mh_body (mbc_transport C st ?u))
      = Some \<lparr>gpg_count = length gs, gpg_offset = k, gpg_genres = take page_size (drop k gs)\<rparr>"
    using assms by (simp_all add: serves_genres_def Let_def)
  have "fst (client_get C ''/ws/2/genre/all'' (genre_params k) st) = mbc_transport C st ?u"
    by (rule client_get_ok) (rule r(1))
  then show ?thesis using r by (simp add: genre_page_def parse_response_def split_beta Let_def)
qed

lemma no_duplicates:
  assumes "distinct (map gp_id gs)" "distinct (map gp_name gs)"
  shows "\<not> duplicates (map entry_of (take k gs)) (take n (drop k gs))"
proof -
  have "map f gs = map f (take k gs) @ map f (take n (drop k gs)) @ map f (drop n (drop k gs))" for f :: "genre_payload \<Rightarrow> string"
    by (metis append_take_drop_id map_append)
  then have "distinct (map f (take k gs) @ map f (take n (drop k gs)))" if "distinct (map f gs)" for f :: "genre_payload \<Rightarrow> string"
    using that by (metis append_assoc distinct_append)
  from this [OF assms(1)] this [OF assms(2)] show ?thesis
    by (auto simp: duplicates_def entry_of_def list_ex_iff image_iff)
qed

lemma sync_loop_serves:
  assumes "serves_genres C parser gs" "k \<le> length gs"
  shows "\<exists>st'. sync_loop C parser (map entry_of (take k gs)) k st = Some (Inr (map entry_of gs), st')"
  using assms(2)
proof (induction "length gs - k" arbitrary: k st rule: less_induct)
  case less
  note page = genre_page_ok [OF assms(1) less.prems, of st]
  let ?n = "length (take page_size (drop k gs))"
  have d: "\<not> duplicates (map entry_of (take k gs)) (take page_size (drop k gs))"
    using assms(1) by (intro no_duplicates) (auto simp: serves_genres_def)
  have e: "page_error (map entry_of (take k gs)) k \<lparr>gpg_count = length gs, gpg_offset = k, gpg_genres = take page_size (drop k gs)\<rparr> = None"
    using d less.prems by (auto simp: page_error_def Let_def page_size_def)
  have glue: "map entry_of (take k gs) @ map entry_of (take page_size (drop k gs)) = map entry_of (take (k + page_size) gs)"
    by (metis map_append take_add)
  show ?case
  proof (cases "length gs \<le> k + page_size")
    case True
    then show ?thesis
      using page e less.prems glue by (subst sync_loop.simps) (auto simp: Let_def)
  next
    case False
    then have n: "?n = page_size" "take page_size (drop k gs) \<noteq> []" "k + page_size < length gs" "0 < page_size"
      by (auto simp: page_size_def)
    have "\<exists>st'. sync_loop C parser (map entry_of (take (k + page_size) gs)) (k + page_size) (snd (genre_page C parser k st))
        = Some (Inr (map entry_of gs), st')"
      by (rule less.hyps) (use n in linarith)+
    then show ?thesis
      using page e n glue by (subst sync_loop.simps) (auto simp: Let_def)
  qed
qed

text \<open>Whatever the server answers, what the loop returns has distinct identifiers and names.\<close>

definition entries_distinct :: "genre_entry list \<Rightarrow> bool" where
  "entries_distinct es \<longleftrightarrow> distinct (map ge_id es) \<and> distinct (map ge_source_name es)"

lemma entries_distinct_page:
  assumes "entries_distinct es" "\<not> duplicates es gs"
  shows "entries_distinct (es @ map entry_of gs)"
  using assms by (auto simp: entries_distinct_def duplicates_def list_ex_iff entry_of_def comp_def image_iff) metis+

definition keeps_distinct :: "genre_entry list \<Rightarrow> (genre_sync_error + genre_entry list) \<times> events \<Rightarrow> bool" where
  "keeps_distinct entries y \<longleftrightarrow> (entries_distinct entries \<longrightarrow> (\<forall>out. fst y = Inr out \<longrightarrow> entries_distinct out))"

lemma sync_loop_distinct:
  assumes "sync_loop C parser entries k st = Some y"
  shows "keeps_distinct entries y"
proof (rule sync_loop.raw_induct [OF _ assms])
  fix self C parser entries k st y
  assume ih: "\<And>C parser entries k st y. self C parser entries k st = Some y \<Longrightarrow> keeps_distinct entries y"
    and body: "(let r = fst (genre_page C parser k st); st' = snd (genre_page C parser k st) in
      case mp_payload r of
        None \<Rightarrow> Some (Inl (HttpStatus (mp_status r)), st')
      | Some page \<Rightarrow>
          if mp_status r \<noteq> Some 200 then Some (Inl (HttpStatus (mp_status r)), st')
          else (case page_error entries k page of
            Some e \<Rightarrow> Some (Inl e, st')
          | None \<Rightarrow>
              if gpg_genres page = [] \<or> gpg_count page \<le> k + length (gpg_genres page)
              then Some (Inr (entries @ map entry_of (gpg_genres page)), st')
              else self C parser (entries @ map entry_of (gpg_genres page))
                     (k + length (gpg_genres page)) st')) = Some y"
  let ?r = "fst (genre_page C parser k st)"
  let ?st = "snd (genre_page C parser k st)"
  show "keeps_distinct entries y" unfolding keeps_distinct_def
  proof (intro impI allI)
    fix out assume es: "entries_distinct entries" and out: "fst y = Inr out"
    obtain page where page: "mp_payload ?r = Some page" "mp_status ?r = Some 200" "page_error entries k page = None"
      using body out by (auto simp: Let_def split: option.splits if_splits)
    have "\<not> duplicates entries (gpg_genres page)"
      using page(3) by (auto simp: page_error_def Let_def split: if_splits)
    then have d: "entries_distinct (entries @ map entry_of (gpg_genres page))"
      using entries_distinct_page es by blast
    show "entries_distinct out"
    proof (cases "gpg_genres page = [] \<or> gpg_count page \<le> k + length (gpg_genres page)")
      case True
      then show ?thesis using body out page d by (auto simp: Let_def)
    next
      case False
      then have "self C parser (entries @ map entry_of (gpg_genres page)) (k + length (gpg_genres page)) ?st = Some y"
        using body page by (simp add: Let_def)
      then show ?thesis using ih d out unfolding keeps_distinct_def by blast
    qed
  qed
qed

section \<open>Properties\<close>

definition one_genre_client :: mb_client where
  "one_genre_client = paging_client\<lparr>mbc_retry_delay := Some 0.25\<rparr>"

definition some_genres :: "genre_payload list" where
  "some_genres = [\<lparr>gp_id = ''g2'', gp_name = ''trip-hop''\<rparr>, \<lparr>gp_id = ''g1'', gp_name = ''Dub''\<rparr>]"

definition some_genre_parser :: "octets \<Rightarrow> genre_catalogue_page option" where
  "some_genre_parser b = (case b of [k] \<Rightarrow> Some \<lparr>gpg_count = 2, gpg_offset = k, gpg_genres = take page_size (drop k some_genres)\<rparr>
     | _ \<Rightarrow> None)"

lemma some_genres_served: "serves_genres one_genre_client some_genre_parser some_genres"
proof -
  have "last (client_url one_genre_client path (genre_params k)) = last (decimal k)"
    "k = of_char (last (decimal k)) - (48 :: nat)" if "k \<in> {0, 1, 2}" for path k
  proof -
    have "quote_plus (decimal k) = decimal k" "decimal k \<noteq> []" using that by auto code_simp+
    then show "last (client_url one_genre_client path (genre_params k)) = last (decimal k)"
      by (simp add: client_url_def genre_params_def urlencode_def)
    show "k = of_char (last (decimal k)) - (48 :: nat)" using that by auto code_simp+
  qed
  moreover have "k \<le> 2 \<Longrightarrow> k \<in> {0, 1, 2}" for k :: nat by auto
  ultimately show ?thesis
    by (auto simp: serves_genres_def Let_def one_genre_client_def paging_client_def some_genre_parser_def some_genres_def)
qed

text \<open>C32. Refinement of the genre catalogue: against a server that holds a list of genres with
  distinct identifiers and names and gives it out in pages of a hundred, the synchronisation ends
  and returns exactly these genres with their display names, ordered by their folded names; a
  following replacement stores each of them under its key.\<close>

theorem sync_genres_refines_catalogue:
  assumes "serves_genres C parser gs"
  shows "\<exists>st'. sync_genres C parser st = Some (Inr (sort_key genre_sort_key (map entry_of gs)), st')
    \<and> (\<exists>stored. replace_genre_catalog (sort_key genre_sort_key (map entry_of gs)) now rows = Inr stored
        \<and> mset (map gr_source_name stored) = mset (map gp_name gs)
        \<and> (\<forall>r\<in>set stored. gr_key r = genre_key (gr_source_name r) \<and> gr_display_name r = display_genre_name (gr_source_name r)))"
proof -
  obtain st' where "sync_loop C parser [] 0 st = Some (Inr (map entry_of gs), st')"
    using sync_loop_serves [OF assms, of 0 st] by auto
  then have s: "sync_genres C parser st = Some (Inr (sort_key genre_sort_key (map entry_of gs)), st')"
    by (simp add: sync_genres_def)
  let ?es = "sort_key genre_sort_key (map entry_of gs)"
  have d: "distinct (map gp_id gs)" "distinct (map gp_name gs)" using assms by (simp_all add: serves_genres_def)
  have m: "mset (map f ?es) = mset (map f (map entry_of gs))" for f :: "genre_entry \<Rightarrow> string"
    by (simp add: multiset.map_comp)
  have "distinct (map ge_id ?es)" "distinct (map ge_source_name ?es)"
    using d m [of ge_id] m [of ge_source_name] by (simp_all add: entry_of_def comp_def mset_eq_imp_distinct_iff [OF m])
  then have "genre_table_ok (map (genre_row_of now) ?es)" by (simp add: genre_table_ok_def genre_row_of_def comp_def)
  moreover have "mset (map gr_source_name (map (genre_row_of now) ?es)) = mset (map gp_name gs)"
    using m [of ge_source_name] by (simp add: genre_row_of_def entry_of_def comp_def)
  moreover have "\<forall>r\<in>set (map (genre_row_of now) ?es). gr_key r = genre_key (gr_source_name r)
      \<and> gr_display_name r = display_genre_name (gr_source_name r)"
    by (auto simp: genre_row_of_def entry_of_def)
  ultimately show ?thesis using s unfolding replace_genre_catalog_def Let_def by (metis (no_types))
qed

lemma sync_genres_refines_catalogue_witness:
  "\<exists>st'. sync_genres one_genre_client some_genre_parser []
      = Some (Inr (sort_key genre_sort_key (map entry_of some_genres)), st')"
  using sync_genres_refines_catalogue [OF some_genres_served, of "[]" 0 "[]"] by blast

text \<open>Whatever the server answers, a synchronisation that succeeds gives entries the table accepts.\<close>

lemma synced_entries_storable:
  assumes "sync_genres C parser st = Some (Inr es, st')"
  shows "replace_genre_catalog es now rows = Inr (map (genre_row_of now) es)"
proof -
  obtain raw where l: "sync_loop C parser [] 0 st = Some (Inr raw, st')" and es: "es = sort_key genre_sort_key raw"
    using assms by (auto simp: sync_genres_def split: sum.splits) (metis obj_sumE)
  have "entries_distinct raw" using sync_loop_distinct [OF l] by (simp add: keeps_distinct_def entries_distinct_def)
  moreover have "mset (map f es) = mset (map f raw)" for f :: "genre_entry \<Rightarrow> string" by (simp add: es)
  ultimately have "distinct (map ge_id es) \<and> distinct (map ge_source_name es)"
    unfolding entries_distinct_def by (metis mset_eq_imp_distinct_iff)
  then show ?thesis by (simp add: replace_genre_catalog_def genre_table_ok_def genre_row_of_def comp_def)
qed

text \<open>Normalised genres are policy genres in the order of the policy.\<close>

lemma normalize_genres_in_policy:
  "normalize_genres values pol = Inr gs \<Longrightarrow> subseq gs (gpol_canonical pol)"
  by (auto simp: normalize_genres_def bindR_Inr_iff)

lemma normalize_genres_unapproved:
  "normalize_genres values pol = Inl v \<Longrightarrow> v \<in> set values \<and> alias_target pol v = None"
proof -
  have "resolve_genres pol vs resolved = Inl v \<Longrightarrow> v \<in> set vs \<and> alias_target pol v = None" for vs resolved
    by (induction vs arbitrary: resolved) (auto split: option.splits)
  then show "normalize_genres values pol = Inl v \<Longrightarrow> v \<in> set values \<and> alias_target pol v = None"
    by (auto simp: normalize_genres_def bindR_Inl_iff)
qed

end
