(* ===== verification/Association.thy ===== *)
theory Association imports Catalog MusicBrainz begin

text \<open>
  \<^bold>\<open>Recording association\<close> (\<open>services/association/service.py\<close>): moving a source to the library record
  of a MusicBrainz recording and release, by a reviewer or by confident provider evidence, one by
  one and in batches, with the review of what is not confident enough.

  The state joins the library tables (\<^theory_text>\<open>Library\<close>), the job queue (\<^theory_text>\<open>JobQueue\<close>), the states of the
  publication attempts, the assignment history and the operator overrides. A review decision keeps
  its source and state; its rationale is the reason of the event written with it. An operation
  that raises changes nothing, the caller rolls back. Identifiers of \<open>uuid4\<close> are arguments, and so
  is \<open>raced\<close>: the records other transactions commit between the read of a target and its insert.
\<close>

section \<open>State and requests\<close>

record assignment_row =
  as_source :: string
  as_record :: string
  as_state :: string
  as_actor :: string
  as_rationale :: "string option"
  as_evidence :: string
  as_created :: timestamp

record override_row =
  ov_source :: string
  ov_recording :: string
  ov_actor :: string
  ov_rationale :: string
  ov_created :: timestamp
  ov_cleared :: "timestamp option"

record adb =
  ad_library :: ldb
  ad_queue :: database
  ad_attempts :: "(string \<times> string) list" \<comment> \<open>record and state of the publication attempts\<close>
  ad_assignments :: "assignment_row list"
  ad_overrides :: "override_row list"

record automatic_request =
  aq_source :: string
  aq_recording :: string
  aq_score :: real
  aq_threshold :: real
  aq_evidence :: string
  aq_now :: timestamp
  aq_release :: "string option"

record manual_request =
  mn_source :: string
  mn_recording :: string
  mn_now :: timestamp
  mn_release :: "string option"
  mn_actor :: string
  mn_track :: "string option"

record association_result =
  ar_record :: string
  ar_moved_from :: string
  ar_refresh_queued :: bool

datatype association_error = ALibrary lerror | ALookup string | AIntegrity | AUnavailable string | AStopIteration

text \<open>What the environment supplies: SHA-256, the hexadecimal texts of \<open>uuid4\<close> for a new record and
  for the job of a record, and what other transactions do meanwhile.\<close>

record association_env =
  ae_sha :: "string \<Rightarrow> string"
  ae_record_uid :: "string \<times> string \<Rightarrow> string"
  ae_job_uid :: "string \<Rightarrow> string"
  ae_raced :: "string \<times> string \<Rightarrow> lrecord list"
  ae_itf :: "string \<Rightarrow> database \<Rightarrow> database"

definition manual_rationale :: string where
  "manual_rationale = ''MusicBrainz recording selected manually''"

definition below_threshold :: string where
  "below_threshold = ''automatic recording score is below the configured confidence threshold''"

definition release_required :: string where
  "release_required = ''a MusicBrainz release must be selected with the recording''"

fun lift_library :: "lerror + 'a \<Rightarrow> association_error + 'a" where
  "lift_library (Inl e) = Inl (ALibrary e)"
| "lift_library (Inr x) = Inr x"

section \<open>The target record\<close>

definition has_pair :: "string \<Rightarrow> string \<Rightarrow> lrecord \<Rightarrow> bool" where
  "has_pair rec rel r \<longleftrightarrow> lb_recording r = Some rec \<and> lb_release r = Some rel"

definition find_pair :: "string \<Rightarrow> string \<Rightarrow> ldb \<Rightarrow> lrecord option" where
  "find_pair rec rel db = find (has_pair rec rel) (l_records db)"

text \<open>The new record with its pair, flushed in a savepoint: the primary key, the unique pair and the
  check that neither part is blank. A conflict rolls the savepoint back and reads the pair again.\<close>

definition matched_record :: "string \<Rightarrow> string \<Rightarrow> string \<Rightarrow> timestamp \<Rightarrow> lrecord" where
  "matched_record u rec rel now =
     (fresh_record u now)\<lparr>lb_recording := Some rec, lb_release := Some rel, lb_match := ''matched''\<rparr>"

definition pair_insertable :: "lrecord \<Rightarrow> string \<Rightarrow> string \<Rightarrow> ldb \<Rightarrow> bool" where
  "pair_insertable r rec rel db \<longleftrightarrow> lb_id r \<notin> lb_id ` set (l_records db)
     \<and> find_pair rec rel db = None \<and> sql_trim rec \<noteq> [] \<and> sql_trim rel \<noteq> []"

definition create_target ::
  "association_env \<Rightarrow> string \<Rightarrow> string \<Rightarrow> timestamp \<Rightarrow> ldb \<Rightarrow> association_error + (string \<times> ldb)" where
  "create_target env rec rel now db =
     (let db1 = db\<lparr>l_records := l_records db @ ae_raced env (rec, rel)\<rparr>;
          r = matched_record (ae_record_uid env (rec, rel)) rec rel now in
      if pair_insertable r rec rel db1 then Inr (lb_id r, db1\<lparr>l_records := l_records db1 @ [r]\<rparr>)
      else (case find_pair rec rel db1 of None \<Rightarrow> Inl AIntegrity | Some t \<Rightarrow> Inr (lb_id t, db1)))"

definition ensure_target ::
  "association_env \<Rightarrow> string \<Rightarrow> string \<Rightarrow> timestamp \<Rightarrow> ldb \<Rightarrow> association_error + (string \<times> ldb)" where
  "ensure_target env rec rel now db = (case find_pair rec rel db of
     Some t \<Rightarrow> Inr (lb_id t, db) | None \<Rightarrow> create_target env rec rel now db)"

section \<open>Moving a source\<close>

text \<open>The relationship's order of the revisions of a record.\<close>

definition record_revisions :: "string \<Rightarrow> ldb \<Rightarrow> revision_row list" where
  "record_revisions r db = sort_key (\<lambda>v. (rv_created v, rv_revision v, rv_id v)) (filter (\<lambda>v. rv_record v = r) (l_revisions db))"

definition previous_final :: "string \<Rightarrow> string \<Rightarrow> ldb \<Rightarrow> revision_row option" where
  "previous_final src r db =
     find (\<lambda>v. rv_source v = Some src \<and> rv_layer v = ''final'') (rev (record_revisions r db))"

definition provider_final :: "string \<Rightarrow> ldb \<Rightarrow> revision_row option" where
  "provider_final r db =
     find (\<lambda>v. rv_layer v = ''final'' \<and> rv_actor v = ''provider'') (rev (record_revisions r db))"

definition inherited_final :: "string \<Rightarrow> string \<Rightarrow> string \<Rightarrow> ldb \<Rightarrow> revision_row option" where
  "inherited_final src prev target db = (case provider_final target db of
     Some v \<Rightarrow> Some v | None \<Rightarrow> previous_final src prev db)"

definition move_source :: "string \<Rightarrow> string \<Rightarrow> timestamp \<Rightarrow> ldb \<Rightarrow> ldb" where
  "move_source src target now db =
     set_record target (\<lambda>y. y\<lparr>lb_source_state := ''present'', lb_updated := now\<rparr>)
       (db\<lparr>l_sources := update_row ls_id src (\<lambda>x. x\<lparr>ls_record := Some target, ls_disappeared := None\<rparr>) (l_sources db)\<rparr>)"

definition json_str :: "string option \<Rightarrow> json" where
  "json_str v = (case v of None \<Rightarrow> JNull | Some s \<Rightarrow> JStr s)"

definition assignment_evidence :: "string \<Rightarrow> string \<Rightarrow> string \<Rightarrow> string" where
  "assignment_evidence target prev evidence = dumps json_char '' '' (JObj [(''after_record_id'', JStr target),
     (''before_record_id'', JStr prev), (''evidence'', JStr evidence)])"

definition reassignment_details :: "string \<Rightarrow> string \<Rightarrow> string \<Rightarrow> string \<Rightarrow> string \<Rightarrow> string" where
  "reassignment_details actor target prev rec rel = dumps json_char '' '' (JObj [(''actor'', JStr actor),
     (''after_record_id'', JStr target), (''before_record_id'', JStr prev), (''recording_mbid'', JStr rec),
     (''release_mbid'', JStr rel)])"

definition reassigned_event ::
  "string \<Rightarrow> string \<Rightarrow> string \<Rightarrow> string \<Rightarrow> string \<Rightarrow> string \<Rightarrow> string option \<Rightarrow> timestamp \<Rightarrow> string \<Rightarrow> levent" where
  "reassigned_event actor src target prev rec rel rationale now r =
     \<lparr>le_record = r, le_source = Some src, le_kind = ''source_recording_reassigned'',
      le_state = (if r = target then ''matched'' else ''needs_review''),
      le_reason = Some (if str_truthy rationale then str_or rationale [] else ''confidence-qualified provider recording evidence''),
      le_details = reassignment_details actor target prev rec rel, le_at = now\<rparr>"

definition add_events :: "levent list \<Rightarrow> ldb \<Rightarrow> ldb" where
  "add_events es db = db\<lparr>l_events := l_events db @ es\<rparr>"

text \<open>Whether a record has something to publish or to withdraw.\<close>

definition open_attempt_states :: "string list" where
  "open_attempt_states = [''reserved'', ''staged'', ''prepared'', ''exposed'']"

definition needs_refresh :: "adb \<Rightarrow> string \<Rightarrow> bool" where
  "needs_refresh d r \<longleftrightarrow> r \<in> lb_id ` set (l_records (ad_library d))
     \<and> (list_ex (\<lambda>x. ls_record x = Some r) (l_sources (ad_library d))
        \<or> list_ex (\<lambda>p. pub_record p = r \<and> pub_state p = ''current'') (l_pubs (ad_library d))
        \<or> list_ex (\<lambda>(q, st). q = r \<and> st \<in> set open_attempt_states) (ad_attempts d))"

text \<open>The queue sees the records of the library.\<close>

definition queue_of :: "adb \<Rightarrow> database" where
  "queue_of d = (ad_queue d)\<lparr>library_records := map lb_id (l_records (ad_library d))\<rparr>"

fun refresh_records ::
  "association_env \<Rightarrow> string \<Rightarrow> timestamp \<Rightarrow> string list \<Rightarrow> adb \<times> bool \<Rightarrow> association_error + (adb \<times> bool)" where
  "refresh_records env target now [] (d, queued) = Inr (d, queued)"
| "refresh_records env target now (r # rs) (d, queued) =
     (case reevaluate_effective_source_decision (ae_sha env) r now None (ad_library d) of
        Inl e \<Rightarrow> Inl (ALibrary e)
      | Inr (_, lib) \<Rightarrow> (let d = d\<lparr>ad_library := lib\<rparr> in
          if r = target \<or> needs_refresh d r
          then (case enqueue_selection_refresh (ae_job_uid env r) (ae_itf env r) r now (queue_of d) of
              (Inl e, _) \<Rightarrow> Inl AIntegrity
            | (Inr j, q) \<Rightarrow> refresh_records env target now rs (d\<lparr>ad_queue := q\<rparr>, j \<noteq> None \<or> queued))
          else refresh_records env target now rs (d, queued)))"

definition new_assignment ::
  "string \<Rightarrow> string \<Rightarrow> string \<Rightarrow> string \<Rightarrow> string option \<Rightarrow> string \<Rightarrow> timestamp \<Rightarrow> assignment_row" where
  "new_assignment src target prev actor rationale evidence now =
     \<lparr>as_source = src, as_record = target,
      as_state = (if rationale \<noteq> None then ''manual_override'' else ''automatic_verified''), as_actor = actor,
      as_rationale = rationale, as_evidence = assignment_evidence target prev evidence, as_created = now\<rparr>"

definition inherit_final ::
  "string \<Rightarrow> string \<Rightarrow> string \<Rightarrow> timestamp \<Rightarrow> ldb \<Rightarrow> ldb \<Rightarrow> lerror + ldb" where
  "inherit_final src prev target now before db = (case inherited_final src prev target before of
     None \<Rightarrow> Inr db
   | Some v \<Rightarrow> if prev = target then Inr db
       else bindR (decode_tags (rv_tags_json v)) (\<lambda>tags.
         bindR (append_metadata_revision target src ''final'' tags ''reassociation'' now False db) (\<lambda>(_, db'). Inr db')))"

text \<open>\<open>_associate\<close>, once the source and its previous record are read.\<close>

definition associate_from ::
  "association_env \<Rightarrow> string \<Rightarrow> string \<Rightarrow> string \<Rightarrow> string \<Rightarrow> string option \<Rightarrow> string \<Rightarrow> timestamp \<Rightarrow> string \<Rightarrow> adb
   \<Rightarrow> association_error + (association_result \<times> adb)" where
  "associate_from env src prev rec actor rationale evidence now rel d =
     bindR (ensure_target env rec rel now (ad_library d)) (\<lambda>(target, lib).
       if prev \<notin> lb_id ` set (l_records lib) then Inl AStopIteration
       else (let locked = sort (dedup [prev, target]) in
         bindR (lift_library (inherit_final src prev target now lib (move_source src target now lib))) (\<lambda>lib'.
           let d' = d\<lparr>ad_library := add_events (map (reassigned_event actor src target prev rec rel rationale now) locked) lib',
                      ad_assignments := ad_assignments d @ [new_assignment src target prev actor rationale evidence now]\<rparr> in
           bindR (refresh_records env target now locked (d', False)) (\<lambda>(d'', queued).
             Inr (\<lparr>ar_record = target, ar_moved_from = prev, ar_refresh_queued = queued\<rparr>, d'')))))"

definition read_source :: "string \<Rightarrow> adb \<Rightarrow> association_error + lsource" where
  "read_source src d = (case find_row ls_id src (l_sources (ad_library d)) of
     None \<Rightarrow> Inl (ALookup src) | Some x \<Rightarrow> Inr x)"

definition associate ::
  "association_env \<Rightarrow> string \<Rightarrow> string \<Rightarrow> string \<Rightarrow> string option \<Rightarrow> string \<Rightarrow> timestamp \<Rightarrow> string \<Rightarrow> adb
   \<Rightarrow> association_error + (association_result \<times> adb)" where
  "associate env src rec actor rationale evidence now rel d =
     bindR (read_source src d) (\<lambda>x. case ls_record x of
       None \<Rightarrow> Inl (ALookup src)
     | Some prev \<Rightarrow> associate_from env src prev rec actor rationale evidence now rel d)"

section \<open>Review\<close>

definition mark_review :: "string \<Rightarrow> string \<Rightarrow> string \<Rightarrow> timestamp \<Rightarrow> ldb \<Rightarrow> ldb" where
  "mark_review src r rationale now db =
     add_event \<lparr>le_record = r, le_source = Some src, le_kind = ''recording_association_review_required'',
         le_state = ''needs_review'', le_reason = Some rationale, le_details = ''{}'', le_at = now\<rparr>
       (set_record r (\<lambda>x. x\<lparr>lb_processing := ''needs_review'', lb_match := ''needs_review'', lb_updated := now\<rparr>)
         (db\<lparr>l_reviews := l_reviews db @ [(src, ''association_review_required'')]\<rparr>))"

definition record_review :: "string \<Rightarrow> string \<Rightarrow> timestamp \<Rightarrow> adb \<Rightarrow> association_error + adb" where
  "record_review src rationale now d =
     bindR (read_source src d) (\<lambda>x. case ls_record x of
       None \<Rightarrow> Inl (ALookup src)
     | Some r \<Rightarrow> if r \<notin> lb_id ` set (l_records (ad_library d)) then Inl (ALookup r)
         else Inr (d\<lparr>ad_library := mark_review src r rationale now (ad_library d)\<rparr>))"

definition confident :: "automatic_request \<Rightarrow> bool" where
  "confident q \<longleftrightarrow> aq_threshold q \<le> aq_score q \<and> aq_release q \<noteq> None"

definition associate_automatic ::
  "association_env \<Rightarrow> automatic_request \<Rightarrow> adb \<Rightarrow> association_error + (association_result option \<times> adb)" where
  "associate_automatic env q d = (case aq_release q of
     Some rel \<Rightarrow> if aq_score q < aq_threshold q
       then bindR (record_review (aq_source q) below_threshold (aq_now q) d) (\<lambda>d. Inr (None, d))
       else bindR (associate env (aq_source q) (aq_recording q) ''automatic'' None (aq_evidence q) (aq_now q) rel d)
              (\<lambda>(r, d). Inr (Some r, d))
   | None \<Rightarrow> bindR (record_review (aq_source q) below_threshold (aq_now q) d) (\<lambda>d. Inr (None, d)))"

section \<open>Manual association\<close>

definition manual_evidence :: "manual_request \<Rightarrow> string" where
  "manual_evidence q = dumps json_char '' '' (JObj [(''recording_mbid'', JStr (mn_recording q)),
     (''track_mbid'', json_str (mn_track q))])"

definition put_override :: "manual_request \<Rightarrow> adb \<Rightarrow> adb" where
  "put_override q d = (let row = \<lparr>ov_source = mn_source q, ov_recording = mn_recording q, ov_actor = mn_actor q,
       ov_rationale = manual_rationale, ov_created = mn_now q, ov_cleared = None\<rparr> in
     d\<lparr>ad_overrides := (if find_row ov_source (mn_source q) (ad_overrides d) = None then ad_overrides d @ [row]
        else update_row ov_source (mn_source q) (\<lambda>_. row) (ad_overrides d))\<rparr>)"

definition associate_verified_manual ::
  "association_env \<Rightarrow> manual_request \<Rightarrow> adb \<Rightarrow> association_error + (association_result \<times> adb)" where
  "associate_verified_manual env q d =
     bindR (read_source (mn_source q) d) (\<lambda>x.
       bindR (case mn_release q of
           None \<Rightarrow> (case ls_record x of None \<Rightarrow> Inl (ALookup (ls_id x))
             | Some r \<Rightarrow> bindR (record_review (ls_id x) release_required (mn_now q) d) (\<lambda>d.
                 Inr (\<lparr>ar_record = r, ar_moved_from = r, ar_refresh_queued = False\<rparr>, d)))
         | Some rel \<Rightarrow> associate env (mn_source q) (mn_recording q) (mn_actor q) (Some manual_rationale)
             (manual_evidence q) (mn_now q) rel d)
         (\<lambda>(r, d). Inr (r, put_override q d)))"

definition verifies :: "string \<Rightarrow> musicbrainz_result \<Rightarrow> bool" where
  "verifies mbid res = (case res of
     Match _ c \<Rightarrow> mbid \<in> set (c_recording_mbids (facts c))
   | Ambiguous _ cs \<Rightarrow> cs \<noteq> [] \<and> list_all (\<lambda>c. mbid \<in> set (c_recording_mbids (facts c))) cs
   | _ \<Rightarrow> False)"

definition associate_manual ::
  "association_env \<Rightarrow> (string \<Rightarrow> timestamp \<Rightarrow> musicbrainz_result) option \<Rightarrow> manual_request \<Rightarrow> adb
   \<Rightarrow> association_error + (association_result \<times> adb)" where
  "associate_manual env provider q d = (case provider of
     None \<Rightarrow> Inl (AUnavailable (mn_recording q))
   | Some lookup \<Rightarrow> if verifies (mn_recording q) (lookup (mn_recording q) (mn_now q))
       then associate_verified_manual env q d else Inl (AUnavailable (mn_recording q)))"

section \<open>Batches\<close>

text \<open>\<open>associate_automatic_batch\<close>: the pairs of the confident requests in order, each with its
  earliest time, found or created; then the requests in the order of their sources, divided into
  reviews, unchanged sources and moves; last one reevaluation and one refresh of the touched records.\<close>

definition pair_of :: "automatic_request \<Rightarrow> string \<times> string" where
  "pair_of q = (aq_recording q, str_or (aq_release q) [])"

definition target_pairs :: "automatic_request list \<Rightarrow> (string \<times> string) list" where
  "target_pairs qs = sort (dedup (map pair_of (filter confident qs)))"

definition target_time :: "automatic_request list \<Rightarrow> string \<times> string \<Rightarrow> timestamp" where
  "target_time qs p = min_list (map aq_now (filter (\<lambda>q. confident q \<and> pair_of q = p) qs))"

text \<open>\<open>before\<close> is the library the existing targets were read from.\<close>

fun batch_targets ::
  "association_env \<Rightarrow> automatic_request list \<Rightarrow> ldb \<Rightarrow> (string \<times> string) list \<Rightarrow> ldb
   \<Rightarrow> association_error + (((string \<times> string) \<times> string) list \<times> ldb)" where
  "batch_targets env qs before [] db = Inr ([], db)"
| "batch_targets env qs before (p # ps) db =
     bindR (case find_pair (fst p) (snd p) before of Some t \<Rightarrow> Inr (lb_id t, db)
        | None \<Rightarrow> create_target env (fst p) (snd p) (target_time qs p) db) (\<lambda>(target, db').
       bindR (batch_targets env qs before ps db') (\<lambda>(ts, db''). Inr ((p, target) # ts, db'')))"

datatype batch_item =
    Review nat automatic_request string
  | Unchanged nat automatic_request string
  | Move nat automatic_request string string \<comment> \<open>target and previous record\<close>

definition classify ::
  "((string \<times> string) \<times> string) list \<Rightarrow> ldb \<Rightarrow> nat \<times> automatic_request \<Rightarrow> association_error + batch_item" where
  "classify targets db = (\<lambda>(i, q). case Option.bind (find_row ls_id (aq_source q) (l_sources db)) ls_record of
     None \<Rightarrow> Inl (ALookup (aq_source q))
   | Some prev \<Rightarrow>
       if \<not> confident q then Inr (Review i q prev)
       else (case map_of targets (pair_of q) of None \<Rightarrow> Inl AStopIteration
         | Some target \<Rightarrow> if prev = target then Inr (Unchanged i q target) else Inr (Move i q target prev)))"

definition sorted_items :: "automatic_request list \<Rightarrow> (nat \<times> automatic_request) list" where
  "sorted_items qs = sort_key (aq_source \<circ> snd) (List.enumerate 0 qs)"

fun affected_records :: "batch_item \<Rightarrow> string list" where
  "affected_records (Review i q prev) = [prev]"
| "affected_records (Unchanged i q target) = [target]"
| "affected_records (Move i q target prev) = [prev, target]"

record batch_state =
  bs_library :: ldb
  bs_assignments :: "assignment_row list"
  bs_results :: "association_result option list"
  bs_times :: "(string \<times> timestamp) list"
  bs_finals :: "string \<Rightarrow> int"

definition unchanged_item :: "batch_item \<Rightarrow> batch_state \<Rightarrow> batch_state" where
  "unchanged_item b s = (case b of
     Unchanged i q target \<Rightarrow> s\<lparr>bs_results := (bs_results s)[i := Some \<lparr>ar_record = target, ar_moved_from = target, ar_refresh_queued = False\<rparr>],
       bs_times := dict_set target (aq_now q) (bs_times s)\<rparr>
   | _ \<Rightarrow> s)"

definition review_item :: "batch_item \<Rightarrow> batch_state \<Rightarrow> batch_state" where
  "review_item b s = (case b of
     Review i q prev \<Rightarrow> s\<lparr>bs_library := mark_review (aq_source q) prev below_threshold (aq_now q) (bs_library s),
       bs_results := (bs_results s)[i := None]\<rparr>
   | _ \<Rightarrow> s)"

definition inherited_row :: "string \<Rightarrow> string \<Rightarrow> int \<Rightarrow> (string \<times> string) list \<Rightarrow> timestamp \<Rightarrow> ldb \<Rightarrow> revision_row" where
  "inherited_row src target n tags now db = \<lparr>rv_id = max_default 0 (map rv_id (l_revisions db)) + 1, rv_record = target,
     rv_source = Some src, rv_layer = ''final'', rv_revision = n, rv_tags_json = tags_json tags,
     rv_actor = ''reassociation'', rv_created = now\<rparr>"

text \<open>One move; \<open>locked\<close> is the library as it was read with its locks.\<close>

definition move_item :: "ldb \<Rightarrow> batch_item \<Rightarrow> batch_state \<Rightarrow> association_error + batch_state" where
  "move_item locked b s = (case b of
     Move i q target prev \<Rightarrow>
       (let src = aq_source q; now = aq_now q; rel = str_or (aq_release q) [];
            lib = move_source src target now (bs_library s);
            finish = (\<lambda>lib finals. s\<lparr>bs_library := add_events
                (map (reassigned_event ''automatic'' src target prev (aq_recording q) rel None now) [prev, target]) lib,
              bs_assignments := bs_assignments s @ [new_assignment src target prev ''automatic'' None (aq_evidence q) now],
              bs_results := (bs_results s)[i := Some \<lparr>ar_record = target, ar_moved_from = prev, ar_refresh_queued = False\<rparr>],
              bs_times := dict_set target now (dict_set prev now (bs_times s)), bs_finals := finals\<rparr>) in
        (case inherited_final src prev target locked of
           None \<Rightarrow> Inr (finish lib (bs_finals s))
         | Some v \<Rightarrow> bindR (lift_library (decode_tags (rv_tags_json v))) (\<lambda>tags.
             let n = bs_finals s target + 1 in
             Inr (finish (set_record target (\<lambda>x. x\<lparr>lb_metadata := ''final''\<rparr>)
                 (add_revision (inherited_row src target n tags now lib) lib)) ((bs_finals s)(target := n))))))
   | _ \<Rightarrow> Inr s)"

fun foldR :: "('a \<Rightarrow> 's \<Rightarrow> 'e + 's) \<Rightarrow> 'a list \<Rightarrow> 's \<Rightarrow> 'e + 's" where
  "foldR f [] s = Inr s"
| "foldR f (x # xs) s = bindR (f x s) (foldR f xs)"

fun collectR :: "('a \<Rightarrow> 'e + 'b) \<Rightarrow> 'a list \<Rightarrow> 'e + 'b list" where
  "collectR f [] = Inr []"
| "collectR f (x # xs) = bindR (f x) (\<lambda>y. bindR (collectR f xs) (\<lambda>ys. Inr (y # ys)))"

definition final_revisions :: "ldb \<Rightarrow> string \<Rightarrow> int" where
  "final_revisions db r = max_default 0 (map rv_revision (layer_revisions r ''final'' db))"

definition postprocess ::
  "association_env \<Rightarrow> batch_state \<Rightarrow> adb \<Rightarrow> association_error + adb" where
  "postprocess env s d =
     (let times = sort_key fst (bs_times s) in
      bindR (lift_library (reevaluate_effective_source_decisions (ae_sha env) times (\<lambda>_. None) (bs_library s))) (\<lambda>(_, lib).
        let d1 = d\<lparr>ad_library := lib, ad_assignments := bs_assignments s\<rparr>;
            refreshed = filter (\<lambda>(r, _). needs_refresh d1 r) times in
        (case enqueue_selection_refreshes (ae_job_uid env) (ae_itf env) refreshed (queue_of d1) of
           (Inl e, _) \<Rightarrow> Inl AIntegrity
         | (Inr _, queue) \<Rightarrow> Inr (d1\<lparr>ad_queue := queue\<rparr>))))"

text \<open>Everything up to the flush.\<close>

definition run_batch :: "association_env \<Rightarrow> automatic_request list \<Rightarrow> adb \<Rightarrow> association_error + batch_state" where
  "run_batch env qs d = (case find (\<lambda>q. aq_source q \<notin> ls_id ` set (l_sources (ad_library d))) qs of
     Some q \<Rightarrow> Inl (ALookup (aq_source q))
   | None \<Rightarrow>
     bindR (batch_targets env qs (ad_library d) (target_pairs qs) (ad_library d)) (\<lambda>(targets, lib).
     bindR (collectR (classify targets lib) (sorted_items qs)) (\<lambda>items.
       if \<not> set (concat (map affected_records items)) \<subseteq> lb_id ` set (l_records lib) then Inl AStopIteration
       else foldR (move_item lib) items (fold review_item items (fold unchanged_item items
         \<lparr>bs_library = lib, bs_assignments = ad_assignments d, bs_results = replicate (length qs) None,
          bs_times = [], bs_finals = final_revisions lib\<rparr>)))))"

definition associate_automatic_batch ::
  "association_env \<Rightarrow> automatic_request list \<Rightarrow> adb \<Rightarrow> association_error + (association_result option list \<times> adb)" where
  "associate_automatic_batch env qs d =
     (if qs = [] then Inr ([], d)
      else bindR (run_batch env qs d) (\<lambda>s. bindR (postprocess env s d) (\<lambda>d'. Inr (bs_results s, d'))))"

section \<open>What the operations leave alone\<close>

text \<open>The identities of the records: everything a source is associated by.\<close>

definition record_keys :: "ldb \<Rightarrow> (string \<times> string option \<times> string option) list" where
  "record_keys db = map (\<lambda>r. (lb_id r, lb_recording r, lb_release r)) (l_records db)"

locale identity_write =
  fixes wr :: "lrecord \<Rightarrow> lrecord"
  assumes keeps: "lb_id (wr r) = lb_id r" "lb_recording (wr r) = lb_recording r" "lb_release (wr r) = lb_release r"
begin

lemma keys_set_record: "record_keys (set_record k wr db) = record_keys db"
  by (simp add: record_keys_def set_record_def update_row_def keeps comp_def if_distrib cong: if_cong)

end

interpretation touched: identity_write "\<lambda>x. x\<lparr>lb_updated := now\<rparr>" by unfold_locales simp_all
interpretation present: identity_write "\<lambda>y. y\<lparr>lb_source_state := ''present'', lb_updated := now\<rparr>" by unfold_locales simp_all
interpretation finished: identity_write "\<lambda>x. x\<lparr>lb_metadata := ''final''\<rparr>" by unfold_locales simp_all
interpretation layered: identity_write "\<lambda>x. x\<lparr>lb_updated := now, lb_metadata := (if layer = ''final'' then ''final'' else lb_metadata x)\<rparr>"
  by unfold_locales simp_all
interpretation reviewed: identity_write
  "\<lambda>x. x\<lparr>lb_processing := ''needs_review'', lb_match := ''needs_review'', lb_updated := now\<rparr>" by unfold_locales simp_all

lemma keys_by_records: "l_records a = l_records b \<Longrightarrow> record_keys a = record_keys b"
  by (simp add: record_keys_def)

lemma keys_add [simp]:
  "record_keys (add_event e db) = record_keys db" "record_keys (add_events es db) = record_keys db"
  "record_keys (add_revision v db) = record_keys db" "record_keys (put_decision dn db) = record_keys db"
  "l_sources (add_events es db) = l_sources db" "l_sources (add_revision v db) = l_sources db"
  "record_keys (db\<lparr>l_sources := ss\<rparr>) = record_keys db" "record_keys (db\<lparr>l_reviews := rs\<rparr>) = record_keys db"
  by (simp_all add: record_keys_def add_events_def add_revision_def)

definition same_identities :: "ldb \<Rightarrow> ldb \<Rightarrow> bool" where
  "same_identities a b \<longleftrightarrow> record_keys b = record_keys a \<and> l_sources b = l_sources a"

lemma persist_identities:
  "persist_decision sha r cs now manual ids db = Inr (d, db') \<Longrightarrow> same_identities db db'"
  by (auto simp: persist_decision_def same_identities_def Let_def touched.keys_set_record split: sum.splits if_splits)

lemma reevaluate_loop_identities:
  "reevaluate_loop sha rs manual db = Inr (ds, db') \<Longrightarrow> same_identities db db'"
proof (induction rs arbitrary: db ds)
  case Nil
  then show ?case by (simp add: same_identities_def)
next
  case (Cons e rs)
  obtain r now where e: "e = (r, now)" by (cases e)
  obtain x dn db1 ds' where p: "persist_decision sha r (candidates_of db x) now (manual r) (ls_id ` set (record_sources r db)) db = Inr (dn, db1)"
      and l: "reevaluate_loop sha rs manual db1 = Inr (ds', db')"
    using Cons.prems by (auto simp: e split: option.splits sum.splits)
  show ?case using persist_identities [OF p] Cons.IH [OF l] by (simp add: same_identities_def)
qed

lemma reevaluate_all_identities:
  "reevaluate_effective_source_decisions sha rs manual db = Inr (ds, db') \<Longrightarrow> same_identities db db'"
  by (auto simp: reevaluate_effective_source_decisions_def Let_def split: option.splits dest: reevaluate_loop_identities)

lemma reevaluate_identities:
  "reevaluate_effective_source_decision sha r now manual db = Inr (x, db') \<Longrightarrow> same_identities db db'"
  by (auto simp: reevaluate_effective_source_decision_def Let_def split: sum.splits option.splits
      dest: reevaluate_all_identities)

lemma mark_review_identities: "same_identities db (mark_review src r rationale now db)"
  by (simp add: same_identities_def mark_review_def reviewed.keys_set_record)

lemma move_source_keys:
  "record_keys (move_source src target now db) = record_keys db"
  "l_sources (move_source src target now db)
    = update_row ls_id src (\<lambda>x. x\<lparr>ls_record := Some target, ls_disappeared := None\<rparr>) (l_sources db)"
  by (simp_all add: move_source_def present.keys_set_record)

lemma append_revision_identities:
  "append_metadata_revision r src layer tags actor now ro db = Inr (v, db') \<Longrightarrow> same_identities db db'"
  by (auto simp: append_metadata_revision_def same_identities_def Let_def layered.keys_set_record touched.keys_set_record
      split: if_splits option.splits)

lemma inherit_identities: "inherit_final src prev target now before db = Inr db' \<Longrightarrow> same_identities db db'"
  by (auto simp: inherit_final_def bindR_Inr_iff same_identities_def split: option.splits if_splits
      dest!: append_revision_identities)

section \<open>Targets\<close>

lemma find_pair_key: "find_pair rec rel db = Some t \<Longrightarrow> (lb_id t, Some rec, Some rel) \<in> set (record_keys db)"
  by (auto simp: find_pair_def find_Some_iff has_pair_def record_keys_def intro!: image_eqI [of _ _ t])

lemma create_target_key:
  assumes "create_target env rec rel now db = Inr (t, db')"
  shows "(t, Some rec, Some rel) \<in> set (record_keys db') \<and> set (record_keys db) \<subseteq> set (record_keys db')
    \<and> l_sources db' = l_sources db"
  using assms find_pair_key [of rec rel "db\<lparr>l_records := l_records db @ ae_raced env (rec, rel)\<rparr>"]
  by (auto simp: create_target_def Let_def record_keys_def matched_record_def split: if_splits option.splits)

lemma ensure_target_key:
  assumes "ensure_target env rec rel now db = Inr (t, db')"
  shows "(t, Some rec, Some rel) \<in> set (record_keys db') \<and> set (record_keys db) \<subseteq> set (record_keys db')
    \<and> l_sources db' = l_sources db"
  using assms find_pair_key [of rec rel db] create_target_key [of env rec rel now db]
  by (auto simp: ensure_target_def split: option.splits)

lemma batch_targets_keys:
  "batch_targets env qs before ps db = Inr (ts, db') \<Longrightarrow> set (record_keys before) \<subseteq> set (record_keys db) \<Longrightarrow>
   map fst ts = ps \<and> (\<forall>(p, t) \<in> set ts. (t, Some (fst p), Some (snd p)) \<in> set (record_keys db'))
   \<and> set (record_keys db) \<subseteq> set (record_keys db') \<and> l_sources db' = l_sources db"
proof (induction ps arbitrary: db ts)
  case Nil
  then show ?case by simp
next
  case (Cons p ps)
  obtain t db1 ts' where t: "(case find_pair (fst p) (snd p) before of Some t \<Rightarrow> Inr (lb_id t, db)
        | None \<Rightarrow> create_target env (fst p) (snd p) (target_time qs p) db) = Inr (t, db1)"
      and r: "batch_targets env qs before ps db1 = Inr (ts', db')" and ts: "ts = (p, t) # ts'"
    using Cons.prems(1) by (auto simp: bindR_Inr_iff)
  have k: "(t, Some (fst p), Some (snd p)) \<in> set (record_keys db1) \<and> set (record_keys db) \<subseteq> set (record_keys db1)
      \<and> l_sources db1 = l_sources db"
    using t create_target_key [of env "fst p" "snd p" "target_time qs p" db t db1] find_pair_key [of "fst p" "snd p" before]
      Cons.prems(2)
    by (auto split: option.splits)
  show ?case using Cons.IH [OF r] k Cons.prems(2) ts by auto
qed

section \<open>Where a source ends up\<close>

definition source_record :: "string \<Rightarrow> ldb \<Rightarrow> string option" where
  "source_record src db = Option.bind (find_row ls_id src (l_sources db)) ls_record"

definition moved :: "string \<Rightarrow> lsource \<Rightarrow> lsource" where
  "moved target x = x\<lparr>ls_record := Some target, ls_disappeared := None\<rparr>"

interpretation mvd: keyed_write ls_id "moved target" by unfold_locales (simp add: moved_def)

lemma source_record_moved:
  "source_record src (db\<lparr>l_sources := update_row ls_id src (moved target) ss\<rparr>)
     = (if find_row ls_id src ss = None then None else Some target)"
  by (cases "find_row ls_id src ss") (simp_all add: source_record_def mvd.find_update_same, simp add: moved_def)

lemma refresh_records_identities:
  "refresh_records env target now rs (d, b) = Inr (d', b') \<Longrightarrow> same_identities (ad_library d) (ad_library d')
     \<and> ad_assignments d' = ad_assignments d \<and> ad_overrides d' = ad_overrides d"
proof (induction rs arbitrary: d b)
  case Nil
  then show ?case by (simp add: same_identities_def)
next
  case (Cons r rs)
  obtain x lib where l: "reevaluate_effective_source_decision (ae_sha env) r now None (ad_library d) = Inr (x, lib)"
    using Cons.prems by (auto split: sum.splits)
  let ?d = "d\<lparr>ad_library := lib\<rparr>"
  obtain q b1 where "refresh_records env target now rs (?d\<lparr>ad_queue := q\<rparr>, b1) = Inr (d', b')
      \<or> refresh_records env target now rs (?d, b) = Inr (d', b')"
    using Cons.prems l by (auto simp: Let_def split: if_splits prod.splits sum.splits)
  then have "same_identities lib (ad_library d') \<and> ad_assignments d' = ad_assignments d \<and> ad_overrides d' = ad_overrides d"
    using Cons.IH [of "?d\<lparr>ad_queue := q\<rparr>" b1] Cons.IH [of ?d b] by auto
  then show ?case using reevaluate_identities [OF l] by (simp add: same_identities_def)
qed

lemma associate_facts:
  assumes "associate env src rec actor rationale evidence now rel d = Inr (res, d')"
  shows "(ar_record res, Some rec, Some rel) \<in> set (record_keys (ad_library d'))
    \<and> source_record src (ad_library d) = Some (ar_moved_from res)
    \<and> l_sources (ad_library d') = update_row ls_id src (moved (ar_record res)) (l_sources (ad_library d))
    \<and> ad_assignments d' = ad_assignments d @ [new_assignment src (ar_record res) (ar_moved_from res) actor rationale evidence now]
    \<and> ad_overrides d' = ad_overrides d"
proof -
  obtain x prev where x: "find_row ls_id src (l_sources (ad_library d)) = Some x" "ls_record x = Some prev"
      and a: "associate_from env src prev rec actor rationale evidence now rel d = Inr (res, d')"
    using assms by (auto simp: associate_def read_source_def bindR_Inr_iff split: option.splits)
  obtain target lib lib' q where t: "ensure_target env rec rel now (ad_library d) = Inr (target, lib)"
      and i: "inherit_final src prev target now lib (move_source src target now lib) = Inr lib'"
      and r: "refresh_records env target now (sort (dedup [prev, target]))
        (d\<lparr>ad_library := add_events (map (reassigned_event actor src target prev rec rel rationale now) (sort (dedup [prev, target]))) lib',
           ad_assignments := ad_assignments d @ [new_assignment src target prev actor rationale evidence now]\<rparr>, False) = Inr (d', q)"
      and res: "res = \<lparr>ar_record = target, ar_moved_from = prev, ar_refresh_queued = q\<rparr>"
  proof -
    have lift: "lift_library m = Inr y \<longleftrightarrow> m = Inr y" for m :: "lerror + ldb" and y by (cases m) simp_all
    show thesis using a that by (auto simp: associate_from_def bindR_Inr_iff Let_def lift split: if_splits)
  qed
  note k = ensure_target_key [OF t] and m = inherit_identities [OF i] and e = refresh_records_identities [OF r]
  have "moved target = (\<lambda>x. x\<lparr>ls_record := Some target, ls_disappeared := None\<rparr>)" by (simp add: moved_def fun_eq_iff)
  then show ?thesis using x k m e by (simp add: res same_identities_def move_source_keys source_record_def)
qed

lemma record_review_facts:
  assumes "record_review src rationale now d = Inr d'"
  shows "same_identities (ad_library d) (ad_library d') \<and> ad_assignments d' = ad_assignments d
    \<and> ad_overrides d' = ad_overrides d \<and> (src, ''association_review_required'') \<in> set (l_reviews (ad_library d'))
    \<and> (\<exists>r x. source_record src (ad_library d) = Some r \<and> find_row lb_id r (l_records (ad_library d')) = Some x
        \<and> lb_match x = ''needs_review'' \<and> lb_processing x = ''needs_review'')"
proof -
  obtain x r where x: "find_row ls_id src (l_sources (ad_library d)) = Some x" "ls_record x = Some r"
      "r \<in> lb_id ` set (l_records (ad_library d))" "d' = d\<lparr>ad_library := mark_review src r rationale now (ad_library d)\<rparr>"
    using assms by (auto simp: record_review_def read_source_def bindR_Inr_iff split: option.splits if_splits)
  let ?w = "\<lambda>x. x\<lparr>lb_processing := ''needs_review'', lb_match := ''needs_review'', lb_updated := now\<rparr> :: lrecord"
  have f: "find_row lb_id r (update_row lb_id r ?w rows) = map_option ?w (find_row lb_id r rows)" for rows
    by (induction rows) (auto simp: find_row_def update_row_def)
  obtain y where "find_row lb_id r (l_records (ad_library d)) = Some y"
    using x(3) find_row_None [of lb_id r] by (cases "find_row lb_id r (l_records (ad_library d))") auto
  then have "find_row lb_id r (l_records (ad_library d')) = Some (?w y)"
    using x(4) f by (simp add: mark_review_def set_record_def)
  moreover have "(src, ''association_review_required'') \<in> set (l_reviews (ad_library d'))"
    using x(4) by (simp add: mark_review_def add_event_def)
  ultimately show ?thesis using x(1,2,4) mark_review_identities [of "ad_library d"] by (auto simp: source_record_def)
qed

section \<open>The passes of a batch\<close>

fun item_index :: "batch_item \<Rightarrow> nat" where
  "item_index (Review i q prev) = i" | "item_index (Unchanged i q target) = i" | "item_index (Move i q target prev) = i"

fun item_request :: "batch_item \<Rightarrow> automatic_request" where
  "item_request (Review i q prev) = q" | "item_request (Unchanged i q target) = q" | "item_request (Move i q target prev) = q"

fun item_result :: "batch_item \<Rightarrow> association_result option" where
  "item_result (Review i q prev) = None"
| "item_result (Unchanged i q target) = Some \<lparr>ar_record = target, ar_moved_from = target, ar_refresh_queued = False\<rparr>"
| "item_result (Move i q target prev) = Some \<lparr>ar_record = target, ar_moved_from = prev, ar_refresh_queued = False\<rparr>"

fun is_move :: "batch_item \<Rightarrow> bool" where
  "is_move (Move i q target prev) = True" | "is_move _ = False"

fun item_target :: "batch_item \<Rightarrow> string" where
  "item_target (Review i q prev) = prev" | "item_target (Unchanged i q target) = target" | "item_target (Move i q target prev) = target"

text \<open>A write of the result of an item; each pass writes the items of one kind.\<close>

definition write_result :: "(batch_item \<Rightarrow> bool) \<Rightarrow> batch_item \<Rightarrow> association_result option list \<Rightarrow> association_result option list" where
  "write_result K b rs = (if K b then rs[item_index b := item_result b] else rs)"

lemma write_result_length [simp]: "length (fold (write_result K) bs rs) = length rs"
  by (induction bs arbitrary: rs) (simp_all add: write_result_def)

lemma write_results:
  assumes "distinct (map item_index bs)" "\<forall>b\<in>set bs. item_index b < length rs"
  shows "b \<in> set bs \<Longrightarrow> fold (write_result K) bs rs ! item_index b = (if K b then item_result b else rs ! item_index b)"
    and "j \<notin> item_index ` set bs \<Longrightarrow> fold (write_result K) bs rs ! j = rs ! j"
proof -
  have other: "j \<notin> item_index ` set bs \<Longrightarrow> fold (write_result K) bs rs ! j = rs ! j" for bs rs j
    by (induction bs arbitrary: rs) (simp_all add: write_result_def)
  then show "j \<notin> item_index ` set bs \<Longrightarrow> fold (write_result K) bs rs ! j = rs ! j" .
  show "b \<in> set bs \<Longrightarrow> fold (write_result K) bs rs ! item_index b = (if K b then item_result b else rs ! item_index b)"
    using assms
  proof (induction bs arbitrary: rs)
    case (Cons c bs)
    show ?case
    proof (cases "b = c")
      case True
      have "write_result K c rs ! item_index c = (if K c then item_result c else rs ! item_index c)"
        using Cons.prems(3) by (simp add: write_result_def)
      then show ?thesis using True Cons.prems(2) other [of "item_index c" bs "write_result K c rs"] by simp
    next
      case False
      then have b: "b \<in> set bs" using Cons.prems(1) by simp
      then have ne: "item_index b \<noteq> item_index c" using Cons.prems(2) by (metis distinct.simps(2) image_eqI list.set_map list.simps(9))
      have "fold (write_result K) bs (write_result K c rs) ! item_index b
          = (if K b then item_result b else write_result K c rs ! item_index b)"
        by (rule Cons.IH [OF b]) (use Cons.prems in \<open>simp_all add: write_result_def\<close>)
      moreover have "write_result K c rs ! item_index b = rs ! item_index b" using ne by (simp add: write_result_def)
      ultimately show ?thesis by simp
    qed
  qed simp
qed

definition is_unchanged :: "batch_item \<Rightarrow> bool" where
  "is_unchanged b \<longleftrightarrow> (case b of Unchanged i q t \<Rightarrow> True | _ \<Rightarrow> False)"

definition is_review :: "batch_item \<Rightarrow> bool" where
  "is_review b \<longleftrightarrow> (case b of Review i q t \<Rightarrow> True | _ \<Rightarrow> False)"

lemma item_kinds: "is_unchanged b \<or> is_review b \<or> is_move b"
  by (cases b) (simp_all add: is_unchanged_def is_review_def)

text \<open>What a batch pass keeps.\<close>

lemma unchanged_pass:
  "bs_library (fold unchanged_item bs s) = bs_library s \<and> bs_assignments (fold unchanged_item bs s) = bs_assignments s
   \<and> bs_results (fold unchanged_item bs s) = fold (write_result is_unchanged) bs (bs_results s)"
  by (induction bs arbitrary: s) (simp_all add: unchanged_item_def write_result_def is_unchanged_def split: batch_item.splits)

lemma review_pass:
  "same_identities (bs_library s) (bs_library (fold review_item bs s))
   \<and> bs_results (fold review_item bs s) = fold (write_result is_review) bs (bs_results s)"
proof (induction bs arbitrary: s)
  case Nil
  then show ?case by (simp add: same_identities_def)
next
  case (Cons b bs)
  have "same_identities (bs_library s) (bs_library (review_item b s))
      \<and> bs_results (review_item b s) = write_result is_review b (bs_results s)"
    using mark_review_identities [of "bs_library s"]
    by (auto simp: review_item_def write_result_def is_review_def same_identities_def split: batch_item.splits)
  then show ?case using Cons.IH [of "review_item b s"] by (simp add: same_identities_def)
qed

definition move_row :: "batch_item \<Rightarrow> lsource list \<Rightarrow> lsource list" where
  "move_row b ss = (if is_move b then update_row ls_id (aq_source (item_request b)) (moved (item_target b)) ss else ss)"

lemma move_item_facts:
  assumes "move_item locked b s = Inr s'"
  shows "record_keys (bs_library s') = record_keys (bs_library s)
    \<and> l_sources (bs_library s') = move_row b (l_sources (bs_library s))
    \<and> bs_results s' = write_result is_move b (bs_results s)"
proof -
  have lift: "lift_library m = Inr y \<longleftrightarrow> m = Inr y" for m :: "lerror + tags" and y by (cases m) simp_all
  have "moved target = (\<lambda>x. x\<lparr>ls_record := Some target, ls_disappeared := None\<rparr>)" for target
    by (simp add: moved_def fun_eq_iff)
  then show ?thesis using assms
    by (auto simp: move_item_def Let_def bindR_Inr_iff lift move_row_def write_result_def move_source_keys finished.keys_set_record
        split: batch_item.splits option.splits)
qed

lemma move_pass:
  "foldR (move_item locked) bs s = Inr s' \<Longrightarrow> record_keys (bs_library s') = record_keys (bs_library s)
    \<and> l_sources (bs_library s') = fold move_row bs (l_sources (bs_library s))
    \<and> bs_results s' = fold (write_result is_move) bs (bs_results s)"
proof (induction bs arbitrary: s)
  case (Cons b bs)
  obtain s1 where "move_item locked b s = Inr s1" "foldR (move_item locked) bs s1 = Inr s'"
    using Cons.prems by (auto simp: bindR_Inr_iff)
  then show ?case using move_item_facts [of locked b s s1] Cons.IH [of s1] by simp
qed simp

lemma move_rows_other:
  assumes "src \<notin> (aq_source \<circ> item_request) ` set bs"
  shows "find_row ls_id src (fold move_row bs ss) = find_row ls_id src ss"
  using assms
proof (induction bs arbitrary: ss)
  case (Cons b bs)
  have "find_row ls_id src (move_row b ss) = find_row ls_id src ss"
    using Cons.prems by (simp add: move_row_def mvd.find_update_other)
  then show ?case using Cons.IH [of "move_row b ss"] Cons.prems by simp
qed simp

lemma move_rows_at:
  assumes "b \<in> set bs" "distinct (map (aq_source \<circ> item_request) bs)"
    and "find_row ls_id (aq_source (item_request b)) ss = Some x"
  shows "find_row ls_id (aq_source (item_request b)) (fold move_row bs ss) = Some (if is_move b then moved (item_target b) x else x)"
  using assms
proof (induction bs arbitrary: ss)
  case (Cons c bs)
  let ?k = "aq_source (item_request b)"
  show ?case
  proof (cases "b = c")
    case True
    then have "?k \<notin> (aq_source \<circ> item_request) ` set bs" using Cons.prems(2) by simp
    moreover have "find_row ls_id ?k (move_row c ss) = Some (if is_move b then moved (item_target b) x else x)"
      using True Cons.prems(3) by (simp add: move_row_def mvd.find_update_same)
    ultimately show ?thesis using True move_rows_other [of ?k bs "move_row c ss"] by simp
  next
    case False
    then have b: "b \<in> set bs" using Cons.prems(1) by simp
    then have "?k \<noteq> aq_source (item_request c)"
    proof -
      have "aq_source (item_request c) \<notin> (\<lambda>b. aq_source (item_request b)) ` set bs"
        using Cons.prems(2) by (simp add: comp_def)
      moreover have "?k \<in> (\<lambda>b. aq_source (item_request b)) ` set bs" using b by (rule imageI)
      ultimately show ?thesis by metis
    qed
    then have "find_row ls_id ?k (move_row c ss) = Some x"
      using Cons.prems(3) by (simp add: move_row_def mvd.find_update_other)
    then show ?thesis using Cons.IH [OF b, of "move_row c ss"] Cons.prems(2) by simp
  qed
qed simp

lemma collectR_facts:
  "collectR f xs = Inr ys \<Longrightarrow> length ys = length xs \<and> (\<forall>i<length xs. f (xs ! i) = Inr (ys ! i))"
proof (induction xs arbitrary: ys)
  case (Cons x xs)
  then obtain z zs where "f x = Inr z" "collectR f xs = Inr zs" "ys = z # zs" by (auto simp: bindR_Inr_iff)
  then show ?case using Cons.IH [of zs] by (auto simp: nth_Cons split: nat.splits)
qed simp

lemma classify_facts:
  assumes "classify targets db (i, q) = Inr b"
  shows "item_index b = i \<and> item_request b = q
    \<and> (if confident q then \<not> is_review b \<and> map_of targets (pair_of q) = Some (item_target b)
         \<and> item_result b = Some \<lparr>ar_record = item_target b, ar_moved_from = the (source_record (aq_source q) db), ar_refresh_queued = False\<rparr>
         \<and> (\<not> is_move b \<longrightarrow> source_record (aq_source q) db = Some (item_target b))
       else is_review b \<and> item_result b = None \<and> \<not> is_move b)"
  using assms by (auto simp: classify_def is_review_def source_record_def split: option.splits if_splits)

lemma sorted_items_index:
  "map fst (sorted_items qs) \<in> {is. distinct is \<and> set is = {..<length qs}}"
  "(i, q) \<in> set (sorted_items qs) \<longleftrightarrow> i < length qs \<and> q = qs ! i"
proof -
  have "mset (map fst (sorted_items qs)) = mset (map fst (List.enumerate 0 qs))"
    unfolding sorted_items_def mset_map mset_sort by (rule refl)
  then have m: "mset (map fst (sorted_items qs)) = mset [0..<length qs]" by (simp add: map_fst_enumerate)
  show "map fst (sorted_items qs) \<in> {is. distinct is \<and> set is = {..<length qs}}"
    using m mset_eq_imp_distinct_iff [of "map fst (sorted_items qs)" "[0..<length qs]"]
      mset_eq_setD [of "map fst (sorted_items qs)" "[0..<length qs]"] by (simp add: atLeast_upt)
  show "(i, q) \<in> set (sorted_items qs) \<longleftrightarrow> i < length qs \<and> q = qs ! i"
    by (auto simp: sorted_items_def in_set_enumerate_eq)
qed

lemma postprocess_identities:
  assumes "postprocess env s d = Inr d'"
  shows "same_identities (bs_library s) (ad_library d')"
proof -
  let ?reev = "reevaluate_effective_source_decisions (ae_sha env) (sort_key fst (bs_times s)) (\<lambda>_. None) (bs_library s)"
  obtain ds lib where r: "?reev = Inr (ds, lib)" using assms by (cases ?reev) (auto simp: postprocess_def)
  let ?d = "d\<lparr>ad_library := lib, ad_assignments := bs_assignments s\<rparr>"
  let ?enq = "enqueue_selection_refreshes (ae_job_uid env) (ae_itf env)
    (filter (\<lambda>(r, _). needs_refresh ?d r) (sort_key fst (bs_times s))) (queue_of ?d)"
  obtain e q where e: "?enq = (e, q)" by (cases ?enq)
  have "d' = ?d\<lparr>ad_queue := q\<rparr>" using assms r e by (cases e) (simp_all add: postprocess_def Let_def)
  then show ?thesis using reevaluate_all_identities [OF r] by simp
qed

section \<open>Properties\<close>

text \<open>C38. A batch of automatic associations follows the confidence of each request: the result of a
  request is a record exactly if it reaches its threshold and names a release; that record then has
  the requested recording and release, and the source belongs to it. A source whose request is not
  confident stays where it was. This holds whatever records other transactions create meanwhile.\<close>

theorem batch_follows_confidence:
  assumes "associate_automatic_batch env qs d = Inr (res, d')" and "distinct (map aq_source qs)" and "i < length qs"
  shows "length res = length qs
    \<and> (if confident (qs ! i)
       then \<exists>r. res ! i = Some r \<and> source_record (aq_source (qs ! i)) (ad_library d') = Some (ar_record r)
         \<and> (ar_record r, Some (aq_recording (qs ! i)), aq_release (qs ! i)) \<in> set (record_keys (ad_library d'))
       else res ! i = None
         \<and> source_record (aq_source (qs ! i)) (ad_library d') = source_record (aq_source (qs ! i)) (ad_library d))"
proof -
  obtain s2 where run: "run_batch env qs d = Inr s2" and post: "postprocess env s2 d = Inr d'" and res: "res = bs_results s2"
    using assms(1,3) by (auto simp: associate_automatic_batch_def bindR_Inr_iff split: if_splits)
  obtain targets lib items where
      sources: "\<forall>q\<in>set qs. aq_source q \<in> ls_id ` set (l_sources (ad_library d))"
      and t: "batch_targets env qs (ad_library d) (target_pairs qs) (ad_library d) = Inr (targets, lib)"
      and c: "collectR (classify targets lib) (sorted_items qs) = Inr items"
      and moves: "foldR (move_item lib) items (fold review_item items (fold unchanged_item items
         \<lparr>bs_library = lib, bs_assignments = ad_assignments d, bs_results = replicate (length qs) None,
          bs_times = [], bs_finals = final_revisions lib\<rparr>)) = Inr s2"
    using run by (auto simp: run_batch_def bindR_Inr_iff find_None_iff split: option.splits if_splits)
  define s0 where "s0 = \<lparr>bs_library = lib, bs_assignments = ad_assignments d, bs_results = replicate (length qs) None,
    bs_times = [], bs_finals = final_revisions lib\<rparr>"
  define s1 where "s1 = fold review_item items (fold unchanged_item items s0)"
  have s2: "foldR (move_item lib) items s1 = Inr s2" "postprocess env s2 d = Inr d'" "res = bs_results s2"
    using moves post res by (simp_all add: s1_def s0_def)
  note keys = batch_targets_keys [OF t subset_refl]
  have lib1: "same_identities lib (bs_library s1)"
    using review_pass [of "fold unchanged_item items s0" items] unchanged_pass [of items s0] by (simp add: s1_def s0_def)
  have results: "bs_results s2 = fold (write_result is_move) items (fold (write_result is_review) items
      (fold (write_result is_unchanged) items (replicate (length qs) None)))"
    using move_pass [OF s2(1)] review_pass [of "fold unchanged_item items s0" items] unchanged_pass [of items s0]
    by (simp add: s1_def s0_def)
  note fin = postprocess_identities [OF s2(2)]
  note items = collectR_facts [OF c]
  have len: "length (sorted_items qs) = length qs" by (simp add: sorted_items_def)
  have nth: "item_index (items ! j) = fst (sorted_items qs ! j) \<and> item_request (items ! j) = snd (sorted_items qs ! j)"
    if "j < length qs" for j
    using items len that classify_facts [of targets lib "fst (sorted_items qs ! j)" "snd (sorted_items qs ! j)" "items ! j"]
    by simp
  have "map item_index items = map fst (sorted_items qs)"
    by (rule nth_equalityI) (use nth items len in auto)
  then have idx: "distinct (map item_index items)" "set (map item_index items) = {..<length qs}"
    using sorted_items_index(1) [of qs] by auto
  have reqs: "map (aq_source \<circ> item_request) items = map (aq_source \<circ> snd) (sorted_items qs)"
    by (rule nth_equalityI) (use nth items len in auto)
  have "mset (map (aq_source \<circ> snd) (sorted_items qs)) = mset (map (aq_source \<circ> snd) (List.enumerate 0 qs))"
    unfolding sorted_items_def mset_map mset_sort by (rule refl)
  then have "mset (map (aq_source \<circ> snd) (sorted_items qs)) = mset (map aq_source qs)"
    by (simp only: map_map [symmetric] map_snd_enumerate)
  then have dsrc: "distinct (map (aq_source \<circ> item_request) items)"
    unfolding reqs using assms(2) by (metis mset_eq_imp_distinct_iff)
  obtain k where k: "k < length qs" "sorted_items qs ! k = (i, qs ! i)"
    using sorted_items_index(2) [of i "qs ! i" qs] assms(3) len by (auto simp: in_set_conv_nth)
  define b where "b = items ! k"
  have b: "b \<in> set items" "classify targets lib (i, qs ! i) = Inr b" using items k len by (auto simp: b_def)
  note f = classify_facts [OF b(2)]
  have len_res: "length res = length qs" using results s2(3) by simp
  have ri: "res ! i = (if is_review b then None else item_result b)"
  proof -
    have lt: "\<forall>b\<in>set items. item_index b < length qs" using idx(2) by auto
    have "res ! item_index b = (if is_move b then item_result b else if is_review b then item_result b
        else if is_unchanged b then item_result b else None)"
      using write_results(1) [OF idx(1) _ b(1)] lt assms(3) f by (simp add: s2(3) results)
    then show ?thesis using f item_kinds [of b] by (cases b) (auto simp: is_review_def is_unchanged_def)
  qed
  obtain x where x: "find_row ls_id (aq_source (qs ! i)) (l_sources (ad_library d)) = Some x"
    using sources assms(3) find_row_None [of ls_id "aq_source (qs ! i)" "l_sources (ad_library d)"]
    by (cases "find_row ls_id (aq_source (qs ! i)) (l_sources (ad_library d))") auto
  have src: "l_sources (ad_library d') = fold move_row items (l_sources (ad_library d))"
    using fin move_pass [OF s2(1)] lib1 keys by (simp add: same_identities_def)
  have moved_to: "find_row ls_id (aq_source (qs ! i)) (l_sources (ad_library d'))
      = Some (if is_move b then moved (item_target b) x else x)"
    using move_rows_at [OF b(1) dsrc, of "l_sources (ad_library d)" x] x f by (simp add: src)
  have same: "source_record (aq_source (qs ! i)) lib = source_record (aq_source (qs ! i)) (ad_library d)"
    using keys by (simp add: source_record_def)
  show ?thesis
  proof (cases "confident (qs ! i)")
    case True
    then have m: "map_of targets (pair_of (qs ! i)) = Some (item_target b)" using f by simp
    then have "(item_target b, Some (fst (pair_of (qs ! i))), Some (snd (pair_of (qs ! i)))) \<in> set (record_keys lib)"
      using keys by (auto dest!: map_of_SomeD)
    then have "(item_target b, Some (aq_recording (qs ! i)), aq_release (qs ! i)) \<in> set (record_keys (ad_library d'))"
      using True fin move_pass [OF s2(1)] lib1 by (auto simp: pair_of_def confident_def same_identities_def str_or_def split: if_splits)
    moreover have "source_record (aq_source (qs ! i)) (ad_library d') = Some (item_target b)"
    proof (cases "is_move b")
      case True
      then show ?thesis using moved_to by (simp add: source_record_def moved_def)
    next
      case False
      then show ?thesis using moved_to f \<open>confident (qs ! i)\<close> same x by (simp add: source_record_def)
    qed
    ultimately show ?thesis using True ri f len_res by simp
  next
    case False
    then show ?thesis using ri f len_res moved_to x by (simp add: source_record_def)
  qed
qed

definition sample_association_env :: association_env where
  "sample_association_env = \<lparr>ae_sha = id, ae_record_uid = (\<lambda>p. fst p), ae_job_uid = id, ae_raced = (\<lambda>_. []), ae_itf = (\<lambda>_. id)\<rparr>"

definition sample_intake :: "string \<Rightarrow> lsource" where
  "sample_intake i = \<lparr>ls_id = i, ls_record = Some ''record-1'', ls_path = [], ls_intake = ''accepted'', ls_disappeared = None,
     ls_codec = Some ''flac'', ls_bit_depth = Some 16, ls_sample_rate = Some 44100, ls_channels = Some 2, ls_bitrate = None\<rparr>"

definition sample_library :: ldb where
  "sample_library = \<lparr>l_records = [fresh_record ''1'' 0], l_sources = [sample_intake ''a'', sample_intake ''b''], l_decisions = [],
     l_pubs = [], l_revisions = [], l_events = [], l_consolidations = [], l_reviews = [], l_tags = [], l_artwork = []\<rparr>"

definition sample_adb :: adb where
  "sample_adb = \<lparr>ad_library = sample_library, ad_queue = \<lparr>jobs = [], sources = [], library_records = [], metadata_revisions = []\<rparr>,
     ad_attempts = [], ad_assignments = [], ad_overrides = []\<rparr>"

definition sample_requests :: "automatic_request list" where
  "sample_requests = [\<lparr>aq_source = ''b'', aq_recording = ''m'', aq_score = 1, aq_threshold = 0, aq_evidence = ''{}'', aq_now = 5, aq_release = Some ''n''\<rparr>,
     \<lparr>aq_source = ''a'', aq_recording = ''m'', aq_score = 0, aq_threshold = 1, aq_evidence = ''{}'', aq_now = 5, aq_release = Some ''n''\<rparr>]"

lemma reevaluate_loop_succeeds:
  "decisions_ok db \<Longrightarrow> fst ` set rs \<subseteq> lb_id ` set (l_records db) \<Longrightarrow>
   \<exists>ds db'. reevaluate_loop sha rs (\<lambda>_. None) db = Inr (ds, db') \<and> l_pubs db' = l_pubs db"
proof (induction rs arbitrary: db)
  case (Cons e rs)
  obtain r now where e: "e = (r, now)" by (cases e)
  obtain x where x: "find_row lb_id r (l_records db) = Some x"
    using Cons.prems(2) find_row_None [of lb_id r "l_records db"] by (cases "find_row lb_id r (l_records db)") (auto simp: e)
  let ?persist = "persist_decision sha r (candidates_of db x) now None (ls_id ` set (record_sources r db)) db"
  have id: "lb_id x = r" using find_row_Some [OF x] by simp
  obtain previous where p: "stored_effective_source_decision (find_decision r db) = Inr previous"
  proof (cases "find_decision r db")
    case (Some row)
    then show thesis using find_decision_ok [OF Cons.prems(1) Some] that by metis
  qed (use that in \<open>simp add: stored_effective_source_decision_def\<close>)
  obtain dn where "evaluate sha (candidates_of db x) previous None None = Inr dn" using evaluate_automatic by blast
  then obtain db1 where d1: "?persist = Inr (dn, db1)"
    using candidates_within [of db x] p by (simp add: persist_decision_def id Let_def)
  have f: "decisions_ok db1 \<and> l_pubs db1 = l_pubs db" using persist_facts [OF d1 Cons.prems(1)] by metis
  have k: "lb_id ` set (l_records db1) = lb_id ` set (l_records db)"
  proof -
    have "map fst (record_keys db1) = map fst (record_keys db)"
      using persist_identities [OF d1] by (simp add: same_identities_def)
    then have "map lb_id (l_records db1) = map lb_id (l_records db)" by (simp add: record_keys_def comp_def)
    then show ?thesis by (metis list.set_map)
  qed
  obtain ds db' where "reevaluate_loop sha rs (\<lambda>_. None) db1 = Inr (ds, db')" "l_pubs db' = l_pubs db1"
    using Cons.IH [of db1] f k Cons.prems(2) by auto
  then show ?case using x d1 f by (simp add: e)
qed simp

lemma reevaluate_all_succeeds:
  assumes "decisions_ok db" "fst ` set rs \<subseteq> lb_id ` set (l_records db)"
  shows "\<exists>ds db'. reevaluate_effective_source_decisions sha rs (\<lambda>_. None) db = Inr (ds, db') \<and> l_pubs db' = l_pubs db"
proof -
  have "find (\<lambda>r. fst r \<notin> lb_id ` set (l_records db)) (sort_key fst rs) = None"
    using assms(2) by (auto simp: find_None_iff)
  then show ?thesis using reevaluate_loop_succeeds [OF assms(1), of "sort_key fst rs"] assms(2)
    by (simp add: reevaluate_effective_source_decisions_def)
qed

lemma sample_batch_run:
  "\<exists>s. run_batch sample_association_env sample_requests sample_adb = Inr s \<and> l_decisions (bs_library s) = []
     \<and> sort_key fst (bs_times s) = [(''record-1'', 5), (''record-m'', 5)] \<and> l_pubs (bs_library s) = []
     \<and> map lb_id (l_records (bs_library s)) = [''record-1'', ''record-m'']
     \<and> map ls_record (l_sources (bs_library s)) = [Some ''record-1'', Some ''record-m'']"
proof -
  have "(case run_batch sample_association_env sample_requests sample_adb of Inl e \<Rightarrow> False
     | Inr s \<Rightarrow> l_decisions (bs_library s) = []
     \<and> sort_key fst (bs_times s) = [(''record-1'', 5), (''record-m'', 5)] \<and> l_pubs (bs_library s) = []
     \<and> map lb_id (l_records (bs_library s)) = [''record-1'', ''record-m'']
     \<and> map ls_record (l_sources (bs_library s)) = [Some ''record-1'', Some ''record-m''])"
    by code_simp
  then show ?thesis by (auto split: sum.splits)
qed

lemma needs_refresh_attached:
  assumes "r \<in> lb_id ` set (l_records (ad_library d))" "Some r \<in> set (map ls_record (l_sources (ad_library d)))"
  shows "needs_refresh d r"
proof -
  obtain x where x: "x \<in> set (l_sources (ad_library d))" "Some r = ls_record x" using assms(2) by auto
  then have "list_ex (\<lambda>x. ls_record x = Some r) (l_sources (ad_library d))" by (auto simp: list_ex_iff)
  then show ?thesis using assms(1) by (simp add: needs_refresh_def)
qed

lemma sample_batch: "\<exists>res d'. associate_automatic_batch sample_association_env sample_requests sample_adb = Inr (res, d')"
proof -
  obtain s where s: "run_batch sample_association_env sample_requests sample_adb = Inr s" "l_decisions (bs_library s) = []"
      "sort_key fst (bs_times s) = [(''record-1'', 5), (''record-m'', 5)]" "l_pubs (bs_library s) = []"
      "map lb_id (l_records (bs_library s)) = [''record-1'', ''record-m'']"
      "map ls_record (l_sources (bs_library s)) = [Some ''record-1'', Some ''record-m'']"
    using sample_batch_run by (elim exE conjE)
  have ids: "lb_id ` set (l_records (bs_library s)) = {''record-1'', ''record-m''}"
    using s(5) by (metis list.set_map list.set(1) list.set(2))
  have "decisions_ok (bs_library s)" using s(2) by (simp add: decisions_ok_def)
  then obtain ds lib where lib: "reevaluate_effective_source_decisions id [(''record-1'', 5), (''record-m'', 5)] (\<lambda>_. None) (bs_library s)
      = Inr (ds, lib)" "l_pubs lib = l_pubs (bs_library s)"
    using reevaluate_all_succeeds [of "bs_library s" "[(''record-1'', 5), (''record-m'', 5)]" id] ids by auto
  have same: "same_identities (bs_library s) lib" using lib(1) by (rule reevaluate_all_identities)
  have "map fst (record_keys lib) = [''record-1'', ''record-m'']"
    using same s(5) by (simp add: same_identities_def record_keys_def comp_def)
  then have keys: "map lb_id (l_records lib) = [''record-1'', ''record-m'']" by (simp add: record_keys_def comp_def)
  then have ids': "lb_id ` set (l_records lib) = {''record-1'', ''record-m''}"
    by (metis list.set_map list.set(1) list.set(2))
  let ?d = "sample_adb\<lparr>ad_library := lib, ad_assignments := bs_assignments s\<rparr>"
  have src: "Some r \<in> set (map ls_record (l_sources lib))" if "r = ''record-1'' \<or> r = ''record-m''" for r
    using same s(6) that by (auto simp: same_identities_def)
  have need: "needs_refresh ?d ''record-1''" "needs_refresh ?d ''record-m''"
    by (rule needs_refresh_attached; simp add: ids' src del: set_map)+
  have q: "queue_of ?d = \<lparr>jobs = [], sources = [], library_records = [''record-1'', ''record-m''], metadata_revisions = []\<rparr>"
    by (simp add: queue_of_def keys sample_adb_def)
  let ?enq = "enqueue_selection_refreshes id (\<lambda>_. id) [(''record-1'', 5), (''record-m'', 5)]
      \<lparr>jobs = [], sources = [], library_records = [''record-1'', ''record-m''], metadata_revisions = []\<rparr>"
  have ok: "case ?enq of (Inl e, _) \<Rightarrow> False | (Inr x, _) \<Rightarrow> True" by code_simp
  obtain r queue where e: "?enq = (r, queue)" by (rule prod.exhaust)
  obtain js where js: "r = Inr js" using ok unfolding e by (cases r) simp_all
  have "enqueue_selection_refreshes id (\<lambda>_. id) [(''record-1'', 5), (''record-m'', 5)] (queue_of ?d) = (Inr js, queue)"
    unfolding q e js by (rule refl)
  then have "postprocess sample_association_env s sample_adb = Inr (?d\<lparr>ad_queue := queue\<rparr>)"
    using lib(1) s(3) need by (simp add: postprocess_def Let_def sample_association_env_def)
  then show ?thesis using s(1) by (simp add: associate_automatic_batch_def sample_requests_def)
qed

theorem batch_follows_confidence_witness:
  "\<exists>res d'. associate_automatic_batch sample_association_env sample_requests sample_adb = Inr (res, d')
    \<and> (\<exists>r. res ! 0 = Some r \<and> source_record ''b'' (ad_library d') = Some (ar_record r)
        \<and> (ar_record r, Some ''m'', Some ''n'') \<in> set (record_keys (ad_library d')))
    \<and> res ! 1 = None \<and> source_record ''a'' (ad_library d') = Some ''record-1''"
proof -
  obtain res d' where b: "associate_automatic_batch sample_association_env sample_requests sample_adb = Inr (res, d')"
    using sample_batch by blast
  have q: "distinct (map aq_source sample_requests)" "0 < length sample_requests" "1 < length sample_requests"
      "confident (sample_requests ! 0)" "\<not> confident (sample_requests ! 1)"
      "aq_source (sample_requests ! 0) = ''b''" "aq_source (sample_requests ! 1) = ''a''"
      "aq_recording (sample_requests ! 0) = ''m''" "aq_release (sample_requests ! 0) = Some ''n''"
      "source_record ''a'' (ad_library sample_adb) = Some ''record-1''"
    by (simp_all add: sample_requests_def confident_def sample_adb_def sample_library_def sample_intake_def source_record_def find_row_def)
  have "\<exists>r. res ! 0 = Some r \<and> source_record ''b'' (ad_library d') = Some (ar_record r)
      \<and> (ar_record r, Some ''m'', Some ''n'') \<in> set (record_keys (ad_library d'))"
    using batch_follows_confidence [OF b q(1,2)] by (simp only: q if_True)
  moreover have "res ! 1 = None \<and> source_record ''a'' (ad_library d') = Some ''record-1''"
    using batch_follows_confidence [OF b q(1,3)] by (simp only: q if_False)
  ultimately show ?thesis using b by blast
qed

text \<open>C39. A manual association is verified and remembered: it succeeds only when the provider finds the
  recording, in its match or in every candidate; then the operator's override names the recording,
  and with a release the source belongs to the record of the pair with a manual assignment that
  says where it came from, while without one it stays, marked for review.\<close>

theorem manual_association_verified:
  assumes "associate_manual env provider q d = Inr (res, d')"
  shows "(\<exists>lookup. provider = Some lookup \<and> verifies (mn_recording q) (lookup (mn_recording q) (mn_now q)))
    \<and> (\<exists>w. find_row ov_source (mn_source q) (ad_overrides d') = Some w \<and> ov_recording w = mn_recording q \<and> ov_cleared w = None)
    \<and> source_record (mn_source q) (ad_library d') = Some (ar_record res)
    \<and> (case mn_release q of
         Some rel \<Rightarrow> (ar_record res, Some (mn_recording q), Some rel) \<in> set (record_keys (ad_library d'))
           \<and> (\<exists>a. ad_assignments d' = ad_assignments d @ [a] \<and> as_state a = ''manual_override''
                \<and> as_record a = ar_record res \<and> source_record (mn_source q) (ad_library d) = Some (ar_moved_from res))
       | None \<Rightarrow> source_record (mn_source q) (ad_library d) = Some (ar_record res)
           \<and> (mn_source q, ''association_review_required'') \<in> set (l_reviews (ad_library d')))"
proof -
  obtain lookup where l: "provider = Some lookup" "verifies (mn_recording q) (lookup (mn_recording q) (mn_now q))"
      "associate_verified_manual env q d = Inr (res, d')"
    using assms by (auto simp: associate_manual_def split: option.splits if_splits)
  obtain x d1 where x: "find_row ls_id (mn_source q) (l_sources (ad_library d)) = Some x" and d1: "d' = put_override q d1"
      and step: "(case mn_release q of
           None \<Rightarrow> (case ls_record x of None \<Rightarrow> Inl (ALookup (ls_id x))
             | Some r \<Rightarrow> bindR (record_review (ls_id x) release_required (mn_now q) d) (\<lambda>d.
                 Inr (\<lparr>ar_record = r, ar_moved_from = r, ar_refresh_queued = False\<rparr>, d)))
         | Some rel \<Rightarrow> associate env (mn_source q) (mn_recording q) (mn_actor q) (Some manual_rationale)
             (manual_evidence q) (mn_now q) rel d) = Inr (res, d1)"
    using l(3) by (auto simp: associate_verified_manual_def read_source_def bindR_Inr_iff split: option.splits)
  have id: "ls_id x = mn_source q" using find_row_Some [OF x] by simp
  have ovr: "\<exists>w. find_row ov_source (mn_source q) (ad_overrides d') = Some w \<and> ov_recording w = mn_recording q \<and> ov_cleared w = None"
  proof -
    let ?row = "\<lparr>ov_source = mn_source q, ov_recording = mn_recording q, ov_actor = mn_actor q,
      ov_rationale = manual_rationale, ov_created = mn_now q, ov_cleared = None\<rparr>"
    have "find_row ov_source (mn_source q) rows = None \<Longrightarrow> find_row ov_source (mn_source q) (rows @ [?row]) = Some ?row" for rows
      by (induction rows) (auto simp: find_row_def split: if_splits)
    moreover have "find_row ov_source (mn_source q) rows \<noteq> None \<Longrightarrow>
      find_row ov_source (mn_source q) (update_row ov_source (mn_source q) (\<lambda>_. ?row) rows) = Some ?row" for rows
      by (induction rows) (auto simp: find_row_def update_row_def split: if_splits)
    ultimately show ?thesis by (simp add: d1 put_override_def Let_def)
  qed
  have put: "ad_library d' = ad_library d1" "ad_assignments d' = ad_assignments d1" by (simp_all add: d1 put_override_def Let_def)
  show ?thesis
  proof (cases "mn_release q")
    case (Some rel)
    then have a: "associate env (mn_source q) (mn_recording q) (mn_actor q) (Some manual_rationale) (manual_evidence q) (mn_now q) rel d
        = Inr (res, d1)" using step by simp
    note f = associate_facts [OF a]
    have "source_record (mn_source q) (ad_library d1) = Some (ar_record res)"
      using f x by (simp add: source_record_def mvd.find_update_same) (simp add: moved_def)
    moreover have "\<exists>a. ad_assignments d' = ad_assignments d @ [a] \<and> as_state a = ''manual_override'' \<and> as_record a = ar_record res"
      using f by (simp add: put new_assignment_def)
    ultimately show ?thesis using l ovr f put Some by auto
  next
    case None
    then obtain r where r: "ls_record x = Some r" "record_review (mn_source q) release_required (mn_now q) d = Inr d1" "ar_record res = r"
      using step by (auto simp: bindR_Inr_iff id split: option.splits)
    note f = record_review_facts [OF r(2)]
    have "source_record (mn_source q) (ad_library d) = Some r" using x r(1) by (simp add: source_record_def)
    moreover have "source_record (mn_source q) (ad_library d1) = source_record (mn_source q) (ad_library d)"
      using f by (simp add: source_record_def same_identities_def)
    ultimately show ?thesis using l ovr f put None r(3) by simp
  qed
qed

definition sample_manual :: manual_request where
  "sample_manual = \<lparr>mn_source = ''a'', mn_recording = ''m'', mn_now = 7, mn_release = None, mn_actor = ''manual'', mn_track = None\<rparr>"

definition sample_provenance :: live_provenance where
  "sample_provenance = \<lparr>lp_provider = ''musicbrainz'', lp_request_hash = [], lp_sha256 = [], lp_http_status = None, lp_captured = 0,
     lp_state = ''fresh'', lp_body = []\<rparr>"

definition sample_verifier :: "string \<Rightarrow> timestamp \<Rightarrow> musicbrainz_result" where
  "sample_verifier mbid now = Match sample_provenance
     (ReleaseCandidate (facts (named_candidate ''n'' ''t'' ''a'')\<lparr>c_recording_mbids := [mbid]\<rparr>) [])"

theorem manual_association_verified_witness:
  "\<exists>res d'. associate_manual sample_association_env (Some sample_verifier) sample_manual sample_adb = Inr (res, d')
    \<and> (\<exists>w. find_row ov_source ''a'' (ad_overrides d') = Some w \<and> ov_recording w = ''m'')
    \<and> source_record ''a'' (ad_library d') = Some ''record-1''"
proof -
  have "(case associate_manual sample_association_env (Some sample_verifier) sample_manual sample_adb of Inl e \<Rightarrow> False | Inr x \<Rightarrow> True)"
    by code_simp
  then obtain res d' where m: "associate_manual sample_association_env (Some sample_verifier) sample_manual sample_adb = Inr (res, d')"
    by (auto split: sum.splits)
  have q: "mn_source sample_manual = ''a''" "mn_recording sample_manual = ''m''" "mn_release sample_manual = None"
    "source_record ''a'' (ad_library sample_adb) = Some ''record-1''"
    by (simp_all add: sample_manual_def sample_adb_def sample_library_def sample_intake_def source_record_def find_row_def)
  show ?thesis using manual_association_verified [OF m] m unfolding q by auto
qed

end
