(* ===== verification/Deletion.thy ===== *)
theory Deletion imports JobQueue begin

text \<open>
  \<^bold>\<open>Deleting sources and records\<close> (\<open>services/reconciliation.py\<close>): the tables that refer to sources,
  library records, jobs and publications, the deletion of sources with everything that depends on
  them, the cleanup of what no file and no publication needs any more, and the disappearance of one
  source.

  Every statement runs against the tables and is refused with an \<open>IntegrityError\<close> if it leaves a
  reference without its row, as the database's immediate foreign keys do. A table the program only
  deletes from is kept as its references. The locks taken by the cleanup do not change the tables;
  its loop, which re-reads the targets until it has locked them all, reads the same targets again
  when no other transaction interferes.
\<close>

section \<open>Tables\<close>

record root_row =
  rt_id :: string
  rt_path :: string
  rt_enabled :: bool
  rt_state :: string
  rt_updated :: timestamp

record record_row =
  rr_id :: string
  rr_source_state :: string
  rr_processing :: string
  rr_lyrics_publication :: "string option"
  rr_created :: timestamp
  rr_updated :: timestamp

record source_row =
  sr_id :: string
  sr_key :: string
  sr_root :: string
  sr_path :: string
  sr_device :: int
  sr_inode :: int
  sr_size :: int
  sr_mtime :: int
  sr_sha256 :: string
  sr_origin :: string
  sr_state :: string
  sr_record :: "string option"
  sr_replaced_by :: "string option"
  sr_disappeared :: "timestamp option"

record location_row =
  lo_id :: int
  lo_source :: string
  lo_root :: string
  lo_path :: string

record pub_row =
  pb_id :: string
  pb_record :: string
  pb_source :: "string option"
  pb_revision :: "int option"
  pb_state :: string

record attempt_row =
  ap_record :: string
  ap_source :: string
  ap_revision :: "int option"

record decision_row =
  dc_record :: string
  dc_source :: "string option"
  dc_baseline :: "string option"

record revision_of_record =
  rv_id :: int
  rv_record :: string
  rv_source :: "string option"

text \<open>The tables whose rows belong to a source and refer to nothing else.\<close>

datatype child_table = Overrides | Tags | Artwork | ProviderAttempts | Reviews | Fingerprints | DecoderEvidence

record rdb =
  rd_roots :: "root_row list"
  rd_records :: "record_row list"
  rd_sources :: "source_row list"
  rd_locations :: "location_row list"
  rd_pubs :: "pub_row list"
  rd_attempts :: "attempt_row list"
  rd_jobs :: "job list"
  rd_receipts :: "string option list" \<comment> \<open>job of the webhook receipts\<close>
  rd_children :: "(child_table \<times> string) list"
  rd_assignments :: "(string \<times> string option) list" \<comment> \<open>source and record\<close>
  rd_runs :: "(int \<times> string) list"
  rd_candidates :: "(string \<times> int option) list" \<comment> \<open>source and run\<close>
  rd_decisions :: "decision_row list"
  rd_revisions :: "revision_of_record list"
  rd_events :: "event list"
  rd_consolidations :: "(string \<times> string) list" \<comment> \<open>retired and canonical record\<close>

section \<open>Foreign keys\<close>

definition source_ids :: "rdb \<Rightarrow> string set" where "source_ids d = sr_id ` set (rd_sources d)"
definition record_ids :: "rdb \<Rightarrow> string set" where "record_ids d = rr_id ` set (rd_records d)"
definition root_ids :: "rdb \<Rightarrow> string set" where "root_ids d = rt_id ` set (rd_roots d)"
definition job_ids :: "rdb \<Rightarrow> string set" where "job_ids d = job_id ` set (rd_jobs d)"

definition opt_in :: "'a option \<Rightarrow> 'a set \<Rightarrow> bool" where
  "opt_in v A \<longleftrightarrow> (case v of None \<Rightarrow> True | Some x \<Rightarrow> x \<in> A)"

definition source_refs_ok :: "rdb \<Rightarrow> bool" where
  "source_refs_ok d \<longleftrightarrow> (let S = source_ids d in
     (\<forall>x\<in>set (rd_sources d). opt_in (sr_replaced_by x) S) \<and> (\<forall>x\<in>set (rd_locations d). lo_source x \<in> S)
     \<and> (\<forall>x\<in>set (rd_pubs d). opt_in (pb_source x) S) \<and> (\<forall>x\<in>set (rd_attempts d). ap_source x \<in> S)
     \<and> (\<forall>x\<in>set (rd_jobs d). opt_in (source_id x) S) \<and> (\<forall>x\<in>set (rd_children d). snd x \<in> S)
     \<and> (\<forall>x\<in>set (rd_assignments d). fst x \<in> S) \<and> (\<forall>x\<in>set (rd_runs d). snd x \<in> S)
     \<and> (\<forall>x\<in>set (rd_candidates d). fst x \<in> S)
     \<and> (\<forall>x\<in>set (rd_decisions d). opt_in (dc_source x) S \<and> opt_in (dc_baseline x) S)
     \<and> (\<forall>x\<in>set (rd_revisions d). opt_in (rv_source x) S) \<and> (\<forall>x\<in>set (rd_events d). opt_in (ev_source x) S))"

definition record_refs_ok :: "rdb \<Rightarrow> bool" where
  "record_refs_ok d \<longleftrightarrow> (let R = record_ids d in
     (\<forall>x\<in>set (rd_sources d). opt_in (sr_record x) R) \<and> (\<forall>x\<in>set (rd_pubs d). pb_record x \<in> R)
     \<and> (\<forall>x\<in>set (rd_attempts d). ap_record x \<in> R) \<and> (\<forall>x\<in>set (rd_jobs d). opt_in (library_record_id x) R)
     \<and> (\<forall>x\<in>set (rd_assignments d). opt_in (snd x) R) \<and> (\<forall>x\<in>set (rd_decisions d). dc_record x \<in> R)
     \<and> (\<forall>x\<in>set (rd_revisions d). rv_record x \<in> R) \<and> (\<forall>x\<in>set (rd_events d). ev_record x \<in> R)
     \<and> (\<forall>x\<in>set (rd_consolidations d). fst x \<in> R \<and> snd x \<in> R))"

definition revision_refs_ok :: "rdb \<Rightarrow> bool" where
  "revision_refs_ok d \<longleftrightarrow> (let V = rv_id ` set (rd_revisions d) in
     (\<forall>x\<in>set (rd_pubs d). opt_in (pb_revision x) V) \<and> (\<forall>x\<in>set (rd_attempts d). opt_in (ap_revision x) V)
     \<and> (\<forall>x\<in>set (rd_jobs d). opt_in (metadata_revision_id x) V))"

definition other_refs_ok :: "rdb \<Rightarrow> bool" where
  "other_refs_ok d \<longleftrightarrow> (\<forall>x\<in>set (rd_receipts d). opt_in x (job_ids d))
     \<and> (\<forall>x\<in>set (rd_records d). opt_in (rr_lyrics_publication x) (pb_id ` set (rd_pubs d)))
     \<and> (\<forall>x\<in>set (rd_candidates d). opt_in (snd x) (fst ` set (rd_runs d)))
     \<and> (\<forall>x\<in>set (rd_sources d). sr_root x \<in> root_ids d) \<and> (\<forall>x\<in>set (rd_locations d). lo_root x \<in> root_ids d)"

text \<open>The unique keys; those of the jobs, with the checks on their columns, are \<^const>\<open>rows_ok\<close>.\<close>

definition keys_ok :: "rdb \<Rightarrow> bool" where
  "keys_ok d \<longleftrightarrow> distinct (map sr_id (rd_sources d)) \<and> distinct (map rr_id (rd_records d))
     \<and> distinct (map rv_id (rd_revisions d))
     \<and> distinct (map lo_id (rd_locations d)) \<and> distinct (map (\<lambda>l. (lo_root l, lo_path l)) (rd_locations d))
     \<and> rows_ok (rd_jobs d)"

definition refs_ok :: "rdb \<Rightarrow> bool" where
  "refs_ok d \<longleftrightarrow> source_refs_ok d \<and> record_refs_ok d \<and> revision_refs_ok d \<and> other_refs_ok d \<and> keys_ok d"

section \<open>Statements\<close>

definition execute :: "(rdb \<Rightarrow> rdb) \<Rightarrow> rdb \<Rightarrow> db_error + rdb" where
  "execute f d = (if refs_ok (f d) then Inr (f d) else Inl IntegrityError)"

fun execute_all :: "(rdb \<Rightarrow> rdb) list \<Rightarrow> rdb \<Rightarrow> db_error + rdb" where
  "execute_all [] d = Inr d"
| "execute_all (f # fs) d = bindR (execute f d) (execute_all fs)"

text \<open>\<open>value in ids\<close> on a nullable column, and its update to null.\<close>

definition ref_in :: "'a option \<Rightarrow> 'a set \<Rightarrow> bool" where
  "ref_in v ids \<longleftrightarrow> (case v of None \<Rightarrow> False | Some x \<Rightarrow> x \<in> ids)"

definition nulled :: "'a set \<Rightarrow> 'a option \<Rightarrow> 'a option" where
  "nulled ids v = (if ref_in v ids then None else v)"

text \<open>Deleting jobs whose attempts are still there violates the foreign key of the attempts.\<close>

definition delete_jobs :: "(job \<Rightarrow> bool) \<Rightarrow> rdb \<Rightarrow> db_error + rdb" where
  "delete_jobs p d = (if list_ex (\<lambda>j. p j \<and> attempts j \<noteq> []) (rd_jobs d) then Inl IntegrityError
     else execute (\<lambda>d. d\<lparr>rd_jobs := filter (\<lambda>j. \<not> p j) (rd_jobs d)\<rparr>) d)"

definition forgotten :: "string set \<Rightarrow> job \<Rightarrow> job" where
  "forgotten js j = (if job_id j \<in> js then j\<lparr>attempts := []\<rparr> else j)"

definition forget_job_rows :: "string set \<Rightarrow> (rdb \<Rightarrow> rdb) list" where
  "forget_job_rows js = [\<lambda>d. d\<lparr>rd_receipts := map (nulled js) (rd_receipts d)\<rparr>,
     \<lambda>d. d\<lparr>rd_jobs := map (forgotten js) (rd_jobs d)\<rparr>]"

definition before_jobs :: "string set \<Rightarrow> (rdb \<Rightarrow> rdb) list" where
  "before_jobs ids =
    [\<lambda>d. d\<lparr>rd_pubs := filter (\<lambda>p. \<not> (ref_in (pb_source p) ids \<and> pb_state p \<noteq> ''current'')) (rd_pubs d)\<rparr>,
     \<lambda>d. d\<lparr>rd_pubs := map (\<lambda>p. p\<lparr>pb_source := nulled ids (pb_source p)\<rparr>) (rd_pubs d)\<rparr>,
     \<lambda>d. d\<lparr>rd_attempts := filter (\<lambda>x. ap_source x \<notin> ids) (rd_attempts d)\<rparr>]"

definition delete_children :: "child_table \<Rightarrow> string set \<Rightarrow> rdb \<Rightarrow> rdb" where
  "delete_children t ids d = d\<lparr>rd_children := filter (\<lambda>x. \<not> (fst x = t \<and> snd x \<in> ids)) (rd_children d)\<rparr>"

definition clear_candidates :: "string set \<Rightarrow> (rdb \<Rightarrow> rdb) list" where
  "clear_candidates ids =
    [delete_children Overrides ids,
     \<lambda>d. d\<lparr>rd_assignments := filter (\<lambda>x. fst x \<notin> ids) (rd_assignments d)\<rparr>,
     delete_children Tags ids, delete_children Artwork ids, delete_children ProviderAttempts ids,
     \<lambda>d. d\<lparr>rd_candidates := filter (\<lambda>x. fst x \<notin> ids) (rd_candidates d)\<rparr>]"

definition delete_runs :: "string set \<Rightarrow> rdb \<Rightarrow> rdb" where
  "delete_runs ids d = d\<lparr>rd_runs := filter (\<lambda>x. snd x \<notin> ids) (rd_runs d)\<rparr>"

definition clear_sources :: "string set \<Rightarrow> (rdb \<Rightarrow> rdb) list" where
  "clear_sources ids =
    [delete_children Reviews ids, delete_children Fingerprints ids, delete_children DecoderEvidence ids,
     \<lambda>d. d\<lparr>rd_locations := filter (\<lambda>x. lo_source x \<notin> ids) (rd_locations d)\<rparr>,
     \<lambda>d. d\<lparr>rd_decisions := map (\<lambda>x. x\<lparr>dc_source := nulled ids (dc_source x)\<rparr>) (rd_decisions d)\<rparr>,
     \<lambda>d. d\<lparr>rd_decisions := map (\<lambda>x. x\<lparr>dc_baseline := nulled ids (dc_baseline x)\<rparr>) (rd_decisions d)\<rparr>,
     \<lambda>d. d\<lparr>rd_revisions := map (\<lambda>x. x\<lparr>rv_source := nulled ids (rv_source x)\<rparr>) (rd_revisions d)\<rparr>,
     \<lambda>d. d\<lparr>rd_events := map (\<lambda>x. x\<lparr>ev_source := nulled ids (ev_source x)\<rparr>) (rd_events d)\<rparr>,
     \<lambda>d. d\<lparr>rd_sources := map (\<lambda>x. x\<lparr>sr_replaced_by := nulled ids (sr_replaced_by x)\<rparr>) (rd_sources d)\<rparr>]"

definition delete_sources :: "string set \<Rightarrow> rdb \<Rightarrow> rdb" where
  "delete_sources ids d = d\<lparr>rd_sources := filter (\<lambda>x. sr_id x \<notin> ids) (rd_sources d)\<rparr>"

definition after_jobs :: "string set \<Rightarrow> (rdb \<Rightarrow> rdb) list" where
  "after_jobs ids = clear_candidates ids @ delete_runs ids # clear_sources ids @ [delete_sources ids]"

definition delete_source_records :: "string list \<Rightarrow> string list \<Rightarrow> rdb \<Rightarrow> db_error + rdb" where
  "delete_source_records sids jids d =
     (if sids = [] then Inr d
      else (let ids = set sids in
        bindR (execute_all (before_jobs ids) d) (\<lambda>d.
        bindR (if jids = [] then Inr d else execute_all (forget_job_rows (set jids)) d) (\<lambda>d.
        bindR (delete_jobs (\<lambda>j. ref_in (source_id j) ids) d) (execute_all (after_jobs ids))))))"

section \<open>Cleanup of the current state\<close>

definition unlocated_sources :: "rdb \<Rightarrow> string list" where
  "unlocated_sources d = sort (map sr_id (filter (\<lambda>x. sr_id x \<notin> lo_source ` set (rd_locations d)) (rd_sources d)))"

definition deletable_record :: "string list \<Rightarrow> rdb \<Rightarrow> string \<Rightarrow> bool" where
  "deletable_record sids d r \<longleftrightarrow>
     \<not> list_ex (\<lambda>x. sr_record x = Some r \<and> sr_id x \<notin> set sids) (rd_sources d)
     \<and> \<not> list_ex (\<lambda>p. pb_record p = r \<and> pb_state p = ''current'') (rd_pubs d)"

definition candidate_records :: "string list \<Rightarrow> rdb \<Rightarrow> string list" where
  "candidate_records sids d = filter (deletable_record sids d) (map rr_id (rd_records d))"

definition canonical_predecessors :: "rdb \<Rightarrow> string \<Rightarrow> string list" where
  "canonical_predecessors d r = map fst (filter (\<lambda>(retired, canonical). canonical = r) (rd_consolidations d))"

text \<open>The loop adds every candidate whose retired predecessors are all added, until nothing is added.\<close>

function closure_loop :: "string list \<Rightarrow> (string \<Rightarrow> string list) \<Rightarrow> string list \<Rightarrow> string list" where
  "closure_loop cands preds chosen =
     (let additions = filter (\<lambda>r. r \<notin> set chosen \<and> set (preds r) \<subseteq> set chosen) cands in
      if additions = [] then chosen else closure_loop cands preds (chosen @ additions))"
  by pat_completeness auto
termination
proof (relation "measure (\<lambda>(cands, preds, chosen). length (filter (\<lambda>r. r \<notin> set chosen) cands))")
  fix cands chosen additions :: "string list" and preds :: "string \<Rightarrow> string list"
  assume a: "additions = filter (\<lambda>r. r \<notin> set chosen \<and> set (preds r) \<subseteq> set chosen) cands" "additions \<noteq> []"
  have h: "hd additions \<in> set additions" using a(2) by simp
  then have r: "hd additions \<in> set cands" "hd additions \<notin> set chosen" using a(1) by auto
  have "length (filter (\<lambda>r. r \<notin> set (chosen @ additions)) cands) < length (filter (\<lambda>r. r \<notin> set chosen) cands)"
    using h r length_filter_less [of "hd additions" "filter (\<lambda>r. r \<notin> set chosen) cands" "\<lambda>r. r \<notin> set additions"]
    by (simp add: conj_commute)
  then show "((cands, preds, chosen @ additions), (cands, preds, chosen))
      \<in> measure (\<lambda>(cands, preds, chosen). length (filter (\<lambda>r. r \<notin> set chosen) cands))" by simp
qed simp

declare closure_loop.simps [simp del]

definition cleanup_targets :: "rdb \<Rightarrow> string list \<times> string list" where
  "cleanup_targets d = (let sids = unlocated_sources d in
     (sids, sort (closure_loop (candidate_records sids d) (canonical_predecessors d) [])))"

definition unbound :: "string set \<Rightarrow> record_row \<Rightarrow> record_row" where
  "unbound rs x = (if rr_id x \<in> rs then x\<lparr>rr_lyrics_publication := None\<rparr> else x)"

definition unbind_lyrics :: "string set \<Rightarrow> rdb \<Rightarrow> rdb" where
  "unbind_lyrics rs d = d\<lparr>rd_records := map (unbound rs) (rd_records d)\<rparr>"

definition delete_attempts :: "string set \<Rightarrow> rdb \<Rightarrow> rdb" where
  "delete_attempts rs d = d\<lparr>rd_attempts := filter (\<lambda>x. ap_record x \<notin> rs) (rd_attempts d)\<rparr>"

definition delete_publications :: "string set \<Rightarrow> rdb \<Rightarrow> rdb" where
  "delete_publications rs d = d\<lparr>rd_pubs := filter (\<lambda>x. pb_record x \<notin> rs) (rd_pubs d)\<rparr>"

definition delete_revisions :: "string set \<Rightarrow> rdb \<Rightarrow> rdb" where
  "delete_revisions rs d = d\<lparr>rd_revisions := filter (\<lambda>x. rv_record x \<notin> rs) (rd_revisions d)\<rparr>"

definition clear_records :: "string set \<Rightarrow> (rdb \<Rightarrow> rdb) list" where
  "clear_records rs =
    [\<lambda>d. d\<lparr>rd_events := filter (\<lambda>x. ev_record x \<notin> rs) (rd_events d)\<rparr>,
     \<lambda>d. d\<lparr>rd_decisions := filter (\<lambda>x. dc_record x \<notin> rs) (rd_decisions d)\<rparr>,
     \<lambda>d. d\<lparr>rd_assignments := filter (\<lambda>x. \<not> ref_in (snd x) rs) (rd_assignments d)\<rparr>,
     \<lambda>d. d\<lparr>rd_consolidations := filter (\<lambda>x. \<not> (fst x \<in> rs \<or> snd x \<in> rs)) (rd_consolidations d)\<rparr>]"

definition delete_records :: "string set \<Rightarrow> rdb \<Rightarrow> rdb" where
  "delete_records rs d = d\<lparr>rd_records := filter (\<lambda>x. rr_id x \<notin> rs) (rd_records d)\<rparr>"

definition record_deletions :: "string set \<Rightarrow> (rdb \<Rightarrow> rdb) list" where
  "record_deletions rs = [unbind_lyrics rs, delete_attempts rs, delete_publications rs, delete_revisions rs]
     @ clear_records rs @ [delete_records rs]"

definition delete_library_records :: "string list \<Rightarrow> rdb \<Rightarrow> db_error + rdb" where
  "delete_library_records rids d =
     (if rids = [] then Inr d
      else (let rs = set rids;
                jids = map job_id (filter (\<lambda>j. ref_in (library_record_id j) rs) (rd_jobs d)) in
        bindR (if jids = [] then Inr d
               else bindR (execute_all (forget_job_rows (set jids)) d) (delete_jobs (\<lambda>j. job_id j \<in> set jids)))
          (execute_all (record_deletions rs))))"

record cleanup_report =
  cu_sources :: "string list"
  cu_records :: "string list"
  cu_applied :: bool

definition current_state_cleanup :: "bool \<Rightarrow> rdb \<Rightarrow> db_error + (cleanup_report \<times> rdb)" where
  "current_state_cleanup apply_it d =
     (case cleanup_targets d of (sids, rids) \<Rightarrow>
        if \<not> apply_it then Inr (\<lparr>cu_sources = sids, cu_records = rids, cu_applied = False\<rparr>, d)
        else (let jids = map job_id (filter (\<lambda>j. ref_in (source_id j) (set sids)) (rd_jobs d)) in
          bindR (delete_source_records sids jids d) (\<lambda>d.
          bindR (delete_library_records rids d) (\<lambda>d.
            Inr (\<lparr>cu_sources = sids, cu_records = rids, cu_applied = True\<rparr>, d)))))"

section \<open>One source that disappeared\<close>

definition rdb_queue :: "rdb \<Rightarrow> database" where
  "rdb_queue d = \<lparr>jobs = rd_jobs d, sources = [], library_records = map rr_id (rd_records d),
     metadata_revisions = map rv_id (rd_revisions d)\<rparr>"

definition disappeared_event :: "string \<Rightarrow> string \<Rightarrow> string \<Rightarrow> timestamp \<Rightarrow> event" where
  "disappeared_event r s st now = \<lparr>ev_record = r, ev_source = Some s, ev_kind = ''source_disappeared'',
     ev_state = st, ev_reason = Some ''filesystem_scan_removed'', ev_at = now\<rparr>"

definition mark_record_disappeared :: "string \<Rightarrow> timestamp \<Rightarrow> rdb \<Rightarrow> rdb" where
  "mark_record_disappeared r now d = d\<lparr>rd_records := map (\<lambda>x. if rr_id x = r
     then x\<lparr>rr_source_state := ''disappeared'', rr_updated := now\<rparr> else x) (rd_records d)\<rparr>"

definition mark_source_disappeared :: "string \<Rightarrow> timestamp \<Rightarrow> rdb \<Rightarrow> rdb" where
  "mark_source_disappeared s now d = d\<lparr>rd_sources := map (\<lambda>x. if sr_id x = s
     then x\<lparr>sr_state := ''disappeared'', sr_disappeared := Some now\<rparr> else x) (rd_sources d)\<rparr>"

text \<open>\<open>uid\<close> is the new job's \<open>uuid4().hex\<close>.\<close>

definition mark_disappeared_source :: "string \<Rightarrow> timestamp \<Rightarrow> source_row \<Rightarrow> rdb \<Rightarrow> db_error + rdb" where
  "mark_disappeared_source uuid now src d =
     (if \<not> list_ex (\<lambda>p. pb_source p = Some (sr_id src) \<and> pb_state p = ''current'') (rd_pubs d)
      then delete_source_records [sr_id src] (map job_id (filter (\<lambda>j. source_id j = Some (sr_id src)) (rd_jobs d))) d
      else (let d1 = mark_source_disappeared (sr_id src) now d in
        case sr_record src of
          None \<Rightarrow> Inr d1
        | Some r \<Rightarrow>
            (case find (\<lambda>x. rr_id x = r) (rd_records d1) of
               None \<Rightarrow> Inr d1
             | Some row \<Rightarrow>
                 bindR (execute (mark_record_disappeared r now) d1) (\<lambda>d2.
                 bindR (execute (\<lambda>d. d\<lparr>rd_events := rd_events d
                          @ [disappeared_event r (sr_id src) (rr_processing row) now]\<rparr>) d2) (\<lambda>d3.
                   (case enqueue_selection_refresh uuid (\<lambda>q. q) r now (rdb_queue d3) of
                      (Inl e, _) \<Rightarrow> Inl e
                    | (Inr _, q) \<Rightarrow> Inr (d3\<lparr>rd_jobs := jobs q\<rparr>)))))))"

section \<open>Deleting sources is never refused\<close>

text \<open>What the rest of the program keeps besides the foreign keys: the lyrics of a record belong to its
  current publication, a candidate's run to its source, a published revision to the published record, and
  the revision a job of a source publishes to the record of that source. The last one holds until the
  source is associated with another record.\<close>

definition lyrics_owned :: "rdb \<Rightarrow> bool" where
  "lyrics_owned d \<longleftrightarrow> (\<forall>x\<in>set (rd_records d). \<forall>p\<in>set (rd_pubs d).
     rr_lyrics_publication x = Some (pb_id p) \<longrightarrow> pb_state p = ''current'' \<and> pb_record p = rr_id x)"

definition runs_owned :: "rdb \<Rightarrow> bool" where
  "runs_owned d \<longleftrightarrow> (\<forall>x\<in>set (rd_candidates d). \<forall>r\<in>set (rd_runs d). snd x = Some (fst r) \<longrightarrow> snd r = fst x)"

definition revisions_owned :: "rdb \<Rightarrow> bool" where
  "revisions_owned d \<longleftrightarrow> (\<forall>v\<in>set (rd_revisions d).
     (\<forall>p\<in>set (rd_pubs d). pb_revision p = Some (rv_id v) \<longrightarrow> rv_record v = pb_record p)
     \<and> (\<forall>p\<in>set (rd_attempts d). ap_revision p = Some (rv_id v) \<longrightarrow> rv_record v = ap_record p))"

definition wf_rdb :: "rdb \<Rightarrow> bool" where
  "wf_rdb d \<longleftrightarrow> refs_ok d \<and> lyrics_owned d \<and> runs_owned d \<and> revisions_owned d"

lemmas wf_defs = wf_rdb_def refs_ok_def source_refs_ok_def record_refs_ok_def revision_refs_ok_def other_refs_ok_def
  keys_ok_def lyrics_owned_def runs_owned_def revisions_owned_def source_ids_def record_ids_def root_ids_def
  job_ids_def Let_def

lemma execute_all_append: "execute_all (fs @ gs) d = bindR (execute_all fs d) (execute_all gs)"
  by (induction fs arbitrary: d) (auto simp: execute_def)

lemma execute_all_keeps:
  assumes "\<And>f d. f \<in> set fs \<Longrightarrow> P d \<Longrightarrow> P (f d)" "\<And>d. P d \<Longrightarrow> refs_ok d" "P d"
  shows "execute_all fs d = Inr (fold (\<lambda>f. f) fs d) \<and> P (fold (\<lambda>f. f) fs d)"
  using assms by (induction fs arbitrary: d) (simp_all add: execute_def)

lemma opt_in_simps [simp]: "opt_in None A" "opt_in (Some x) A \<longleftrightarrow> x \<in> A"
  by (simp_all add: opt_in_def)

lemma ref_in_simps [simp]: "\<not> ref_in None A" "ref_in (Some x) A \<longleftrightarrow> x \<in> A"
  by (simp_all add: ref_in_def)

lemma ref_in_empty [simp]: "\<not> ref_in v {}" "nulled {} v = v"
  by (cases v; simp add: nulled_def)+

lemma opt_in_nulled [intro]: "opt_in v A \<Longrightarrow> opt_in (nulled ids v) A"
  by (simp add: nulled_def)

lemma opt_in_nulled_diff: "opt_in v A \<Longrightarrow> opt_in (nulled ids v) (A - ids)"
  by (cases v) (auto simp: nulled_def)

lemma rows_ok_filter [intro]: "rows_ok js \<Longrightarrow> rows_ok (filter P js)"
  by (simp add: rows_ok_def distinct_map_filter)

lemma forgotten_fields [simp]: "job_id (forgotten js j) = job_id j" "source_id (forgotten js j) = source_id j"
  "library_record_id (forgotten js j) = library_record_id j" "metadata_revision_id (forgotten js j) = metadata_revision_id j"
  "release_mbid (forgotten js j) = release_mbid j" "folder_path (forgotten js j) = folder_path j"
  "expected_recording_id (forgotten js j) = expected_recording_id j" "expected_release_id (forgotten js j) = expected_release_id j"
  "job_kind (forgotten js j) = job_kind j" "job_state (forgotten js j) = job_state j"
  by (simp_all add: forgotten_def)

lemma forgotten_empty [simp]: "forgotten {} = (\<lambda>j. j)"
  by (simp add: forgotten_def fun_eq_iff)

lemma rows_ok_forget: "rows_ok js \<Longrightarrow> rows_ok (map (forgotten ids) js)"
proof -
  assume r: "rows_ok js"
  have i: "ck_jobs_target_or_reconciliation (forgotten ids j) = ck_jobs_target_or_reconciliation j"
    "ck_jobs_expected_musicbrainz_pair (forgotten ids j) = ck_jobs_expected_musicbrainz_pair j" for j
    by (simp_all add: ck_jobs_target_or_reconciliation_def ck_jobs_expected_musicbrainz_pair_def)
  have c: "index_conflict (forgotten ids j) (forgotten ids k) = index_conflict j k" for j k
    by (simp add: forgotten_def index_conflict_def uq_active_by_def uq_active_kind_def is_active_def)
  have a: "distinct (map attempt_number (attempts j)) \<Longrightarrow> distinct (map attempt_number (attempts (forgotten ids j)))" for j
    by (simp add: forgotten_def)
  have m: "map job_id (map (forgotten ids) js) = map job_id js" by (simp add: comp_def)
  show ?thesis using r unfolding rows_ok_def m by (simp only: set_map ball_simps i c forgotten_fields) (blast intro: a)
qed

text \<open>Every statement that empties or shrinks a table nobody refers to, or clears a reference.\<close>

lemma opt_in_iff: "opt_in v A \<longleftrightarrow> (\<forall>x. v = Some x \<longrightarrow> x \<in> A)"
  by (cases v) auto

lemma lyrics_kept:
  assumes "wf_rdb d" "x \<in> set (rd_records d)"
    "\<And>p. p \<in> set (rd_pubs d) \<Longrightarrow> pb_state p = ''current'' \<Longrightarrow> pb_record p = rr_id x \<Longrightarrow> p \<in> A"
  shows "opt_in (rr_lyrics_publication x) (pb_id ` A)"
  unfolding opt_in_iff
proof (intro allI impI)
  fix i
  assume i: "rr_lyrics_publication x = Some i"
  have "\<forall>x\<in>set (rd_records d). opt_in (rr_lyrics_publication x) (pb_id ` set (rd_pubs d))" and o: "lyrics_owned d"
    using assms(1) by (simp_all add: wf_rdb_def refs_ok_def other_refs_ok_def)
  then have "i \<in> pb_id ` set (rd_pubs d)" using assms(2) i by auto
  then obtain p where p: "p \<in> set (rd_pubs d)" "i = pb_id p" by blast
  have "pb_state p = ''current'' \<and> pb_record p = rr_id x" using o assms(2) p i by (simp add: lyrics_owned_def)
  then show "i \<in> pb_id ` A" using assms(3) [OF p(1)] p(2) by simp
qed

lemma before_jobs_keep:
  assumes "f \<in> set (before_jobs ids)" "wf_rdb d"
  shows "wf_rdb (f d)"
proof -
  consider "f = hd (before_jobs ids)" | "f = before_jobs ids ! 1" | "f = before_jobs ids ! 2"
    using assms(1) by (auto simp: before_jobs_def)
  then show ?thesis
  proof cases
    case 1
    have "opt_in (rr_lyrics_publication x) (pb_id ` set (rd_pubs (f d)))" if x: "x \<in> set (rd_records d)" for x
      by (rule lyrics_kept [OF assms(2) x]) (simp add: 1 before_jobs_def)
    then show ?thesis using assms(2) unfolding 1 by (simp add: before_jobs_def wf_defs)
  next
    case 2
    show ?thesis using assms(2) unfolding 2 by (auto simp: before_jobs_def wf_defs image_image)
  next
    case 3
    show ?thesis using assms(2) unfolding 3 by (auto simp: before_jobs_def wf_defs)
  qed
qed

lemma delete_children_keep: "wf_rdb d \<Longrightarrow> wf_rdb (delete_children t ids d)"
  by (simp add: delete_children_def wf_defs del: split_paired_All)

lemma clear_candidates_keep: "f \<in> set (clear_candidates ids) \<Longrightarrow> wf_rdb d \<Longrightarrow> wf_rdb (f d)"
  by (simp only: clear_candidates_def list.set insert_iff empty_iff simp_thms)
    (elim disjE; simp add: delete_children_keep; simp add: wf_defs del: split_paired_All)

lemma delete_runs_keep:
  assumes "wf_rdb d" "\<forall>c\<in>set (rd_candidates d). fst c \<notin> ids"
  shows "wf_rdb (delete_runs ids d)"
proof -
  have "opt_in (snd c) (fst ` {r \<in> set (rd_runs d). snd r \<notin> ids})" if c: "c \<in> set (rd_candidates d)" for c
    unfolding opt_in_iff
  proof (intro allI impI)
    fix i
    assume i: "snd c = Some i"
    have "\<forall>c\<in>set (rd_candidates d). opt_in (snd c) (fst ` set (rd_runs d))" and o: "runs_owned d"
      using assms(1) by (simp_all add: wf_rdb_def refs_ok_def other_refs_ok_def)
    then have "i \<in> fst ` set (rd_runs d)" using c i by auto
    then obtain r where r: "r \<in> set (rd_runs d)" "i = fst r" by blast
    have "snd r = fst c" using o c r i by (simp add: runs_owned_def)
    then show "i \<in> fst ` {r \<in> set (rd_runs d). snd r \<notin> ids}" using r assms(2) c by (intro image_eqI [of _ _ r]) auto
  qed
  then show ?thesis using assms(1) by (simp add: delete_runs_def wf_defs del: split_paired_All)
qed

lemma clear_sources_keep: "f \<in> set (clear_sources ids) \<Longrightarrow> wf_rdb d \<Longrightarrow> wf_rdb (f d)"
  by (simp only: clear_sources_def list.set insert_iff empty_iff simp_thms)
    (elim disjE; simp add: delete_children_keep; simp add: wf_defs opt_in_nulled image_image comp_def distinct_map_filter del: split_paired_All)

text \<open>Nothing refers to the sources any more.\<close>

definition unreferenced :: "string set \<Rightarrow> rdb \<Rightarrow> bool" where
  "unreferenced ids d \<longleftrightarrow> (\<forall>x\<in>set (rd_sources d). \<not> ref_in (sr_replaced_by x) ids)
     \<and> (\<forall>x\<in>set (rd_locations d). lo_source x \<notin> ids)
     \<and> (\<forall>x\<in>set (rd_pubs d). \<not> ref_in (pb_source x) ids) \<and> (\<forall>x\<in>set (rd_attempts d). ap_source x \<notin> ids)
     \<and> (\<forall>x\<in>set (rd_jobs d). \<not> ref_in (source_id x) ids) \<and> (\<forall>x\<in>set (rd_children d). snd x \<notin> ids)
     \<and> (\<forall>x\<in>set (rd_assignments d). fst x \<notin> ids) \<and> (\<forall>x\<in>set (rd_runs d). snd x \<notin> ids)
     \<and> (\<forall>x\<in>set (rd_candidates d). fst x \<notin> ids)
     \<and> (\<forall>x\<in>set (rd_decisions d). \<not> ref_in (dc_source x) ids \<and> \<not> ref_in (dc_baseline x) ids)
     \<and> (\<forall>x\<in>set (rd_revisions d). \<not> ref_in (rv_source x) ids) \<and> (\<forall>x\<in>set (rd_events d). \<not> ref_in (ev_source x) ids)"

lemma opt_in_kept: "opt_in v A \<Longrightarrow> \<not> ref_in v ids \<Longrightarrow> opt_in v (A - ids)"
  by (cases v) auto

lemma delete_sources_keep:
  assumes "wf_rdb d" "unreferenced ids d"
  shows "wf_rdb (delete_sources ids d)"
proof -
  have s: "sr_id ` {x \<in> set (rd_sources d). sr_id x \<notin> ids} = sr_id ` set (rd_sources d) - ids" by auto
  have "source_refs_ok d" using assms(1) by (simp add: wf_rdb_def refs_ok_def)
  then have "source_refs_ok (delete_sources ids d)" using assms(2)
    by (simp add: source_refs_ok_def unreferenced_def delete_sources_def source_ids_def s opt_in_kept Let_def)
  then show ?thesis using assms(1) by (simp add: wf_defs delete_sources_def distinct_map_filter)
qed

lemma not_ref_in_nulled [simp]: "\<not> ref_in (nulled ids v) ids"
  by (simp add: nulled_def)

lemma ref_in_nulled_None: "\<not> ref_in v ids \<Longrightarrow> nulled ids v = v"
  by (simp add: nulled_def)

lemma unreferenced_cleared:
  assumes "\<forall>x\<in>set (rd_pubs d). \<not> ref_in (pb_source x) ids" "\<forall>x\<in>set (rd_attempts d). ap_source x \<notin> ids"
    "\<forall>x\<in>set (rd_jobs d). \<not> ref_in (source_id x) ids"
  shows "unreferenced ids (fold (\<lambda>f. f) (clear_sources ids) (delete_runs ids (fold (\<lambda>f. f) (clear_candidates ids) d)))"
proof -
  have "snd x \<notin> ids" if "(fst x = Overrides \<longrightarrow> snd x \<notin> ids)" "(fst x = Tags \<longrightarrow> snd x \<notin> ids)" "(fst x = Artwork \<longrightarrow> snd x \<notin> ids)"
    "(fst x = ProviderAttempts \<longrightarrow> snd x \<notin> ids)" "(fst x = Reviews \<longrightarrow> snd x \<notin> ids)" "(fst x = Fingerprints \<longrightarrow> snd x \<notin> ids)"
    "(fst x = DecoderEvidence \<longrightarrow> snd x \<notin> ids)" for x :: "child_table \<times> string"
    using that by (cases "fst x") auto
  then show ?thesis using assms
    by (simp add: unreferenced_def clear_sources_def delete_runs_def clear_candidates_def delete_children_def)
      (metis child_table.exhaust)
qed

lemma forget_job_rows_keep: "f \<in> set (forget_job_rows js) \<Longrightarrow> wf_rdb d \<Longrightarrow> wf_rdb (f d)"
  by (simp only: forget_job_rows_def list.set insert_iff empty_iff simp_thms)
    (elim disjE; simp add: wf_defs opt_in_nulled rows_ok_forget image_image)

lemma execute_all_wf:
  assumes "\<And>f d. f \<in> set fs \<Longrightarrow> wf_rdb d \<Longrightarrow> wf_rdb (f d)" "wf_rdb d"
  shows "execute_all fs d = Inr (fold (\<lambda>f. f) fs d)" "wf_rdb (fold (\<lambda>f. f) fs d)"
  using assms execute_all_keeps [where P = wf_rdb and fs = fs and d = d] by (auto simp: wf_rdb_def)

lemma delete_jobs_ok:
  assumes "wf_rdb d" "\<forall>j\<in>set (rd_jobs d). p j \<longrightarrow> attempts j = [] \<and> job_id j \<in> js"
    "\<forall>x\<in>set (rd_receipts d). \<not> ref_in x js"
  shows "delete_jobs p d = Inr (d\<lparr>rd_jobs := filter (\<lambda>j. \<not> p j) (rd_jobs d)\<rparr>) \<and> wf_rdb (d\<lparr>rd_jobs := filter (\<lambda>j. \<not> p j) (rd_jobs d)\<rparr>)"
proof -
  have "opt_in x (job_id ` {j \<in> set (rd_jobs d). \<not> p j})" if x: "x \<in> set (rd_receipts d)" for x
    unfolding opt_in_iff
  proof (intro allI impI)
    fix i
    assume i: "x = Some i"
    have "\<forall>x\<in>set (rd_receipts d). opt_in x (job_id ` set (rd_jobs d))" using assms(1) by (simp add: wf_defs)
    then obtain j where j: "j \<in> set (rd_jobs d)" "i = job_id j" using x i by force
    have "\<not> p j" using assms(2, 3) j x i by fastforce
    then show "i \<in> job_id ` {j \<in> set (rd_jobs d). \<not> p j}" using j by blast
  qed
  then have w: "wf_rdb (d\<lparr>rd_jobs := filter (\<lambda>j. \<not> p j) (rd_jobs d)\<rparr>)"
    using assms(1) by (simp add: wf_defs rows_ok_filter)
  moreover have "\<not> list_ex (\<lambda>j. p j \<and> attempts j \<noteq> []) (rd_jobs d)" using assms(2) by (simp add: list_ex_iff)
  ultimately show ?thesis by (simp add: delete_jobs_def execute_def wf_rdb_def)
qed

text \<open>What the tables are after the sources have been deleted.\<close>

definition sources_gone :: "string set \<Rightarrow> string set \<Rightarrow> rdb \<Rightarrow> rdb \<Rightarrow> bool" where
  "sources_gone ids js d d' \<longleftrightarrow> rd_roots d' = rd_roots d \<and> rd_records d' = rd_records d
     \<and> rd_consolidations d' = rd_consolidations d
     \<and> rd_sources d' = filter (\<lambda>x. sr_id x \<notin> ids) (map (\<lambda>x. x\<lparr>sr_replaced_by := nulled ids (sr_replaced_by x)\<rparr>) (rd_sources d))
     \<and> rd_locations d' = filter (\<lambda>x. lo_source x \<notin> ids) (rd_locations d)
     \<and> rd_jobs d' = filter (\<lambda>j. \<not> ref_in (source_id j) ids) (map (forgotten js) (rd_jobs d))
     \<and> rd_revisions d' = map (\<lambda>x. x\<lparr>rv_source := nulled ids (rv_source x)\<rparr>) (rd_revisions d)
     \<and> rd_pubs d' = map (\<lambda>p. p\<lparr>pb_source := nulled ids (pb_source p)\<rparr>)
          (filter (\<lambda>p. \<not> (ref_in (pb_source p) ids \<and> pb_state p \<noteq> ''current'')) (rd_pubs d))"

lemma source_deletion:
  assumes "wf_rdb d" "\<forall>j\<in>set (rd_jobs d). ref_in (source_id j) ids \<longrightarrow> job_id j \<in> js"
  shows "\<exists>d'. bindR (execute_all (before_jobs ids) d) (\<lambda>d.
        bindR (if js = {} then Inr d else execute_all (forget_job_rows js) d) (\<lambda>d.
        bindR (delete_jobs (\<lambda>j. ref_in (source_id j) ids) d) (execute_all (after_jobs ids)))) = Inr d'
      \<and> wf_rdb d' \<and> sources_gone ids js d d'"
proof -
  let ?f = "fold (\<lambda>f. f)"
  define d1 where "d1 = ?f (before_jobs ids) d"
  have 1: "execute_all (before_jobs ids) d = Inr d1" "wf_rdb d1"
    unfolding d1_def by (rule execute_all_wf [OF _ assms(1)], erule (1) before_jobs_keep)+
  define d2 where "d2 = (if js = {} then d1 else ?f (forget_job_rows js) d1)"
  have 2: "(if js = {} then Inr d1 else execute_all (forget_job_rows js) d1) = Inr d2" "wf_rdb d2"
  proof -
    have "execute_all (forget_job_rows js) d1 = Inr (?f (forget_job_rows js) d1)" "wf_rdb (?f (forget_job_rows js) d1)"
      by (rule execute_all_wf [OF _ 1(2)], erule (1) forget_job_rows_keep)+
    then show "(if js = {} then Inr d1 else execute_all (forget_job_rows js) d1) = Inr d2" "wf_rdb d2"
      using 1(2) by (simp_all add: d2_def)
  qed
  have j2: "rd_jobs d2 = map (forgotten js) (rd_jobs d)"
    by (simp add: d2_def d1_def before_jobs_def forget_job_rows_def)
  have r2: "\<forall>x\<in>set (rd_receipts d2). \<not> ref_in x js"
    by (cases "js = {}") (simp_all add: d2_def d1_def before_jobs_def forget_job_rows_def)
  have a2: "\<forall>j\<in>set (rd_jobs d2). ref_in (source_id j) ids \<longrightarrow> attempts j = [] \<and> job_id j \<in> js"
    using assms(2) by (auto simp: j2 forgotten_def)
  define d3 where "d3 = d2\<lparr>rd_jobs := filter (\<lambda>j. \<not> ref_in (source_id j) ids) (rd_jobs d2)\<rparr>"
  have 3: "delete_jobs (\<lambda>j. ref_in (source_id j) ids) d2 = Inr d3" "wf_rdb d3"
    using delete_jobs_ok [OF 2(2) a2 r2] by (simp_all add: d3_def)
  define d4 where "d4 = ?f (clear_candidates ids) d3"
  have 4: "execute_all (clear_candidates ids) d3 = Inr d4" "wf_rdb d4"
    unfolding d4_def by (rule execute_all_wf [OF _ 3(2)], erule (1) clear_candidates_keep)+
  have "\<forall>c\<in>set (rd_candidates d4). fst c \<notin> ids" by (simp add: d4_def clear_candidates_def)
  then have 5: "wf_rdb (delete_runs ids d4)" using 4(2) by (intro delete_runs_keep)
  then have 5: "execute (delete_runs ids) d4 = Inr (delete_runs ids d4)" "wf_rdb (delete_runs ids d4)"
    by (simp_all add: execute_def wf_rdb_def)
  define d6 where "d6 = ?f (clear_sources ids) (delete_runs ids d4)"
  have 6: "execute_all (clear_sources ids) (delete_runs ids d4) = Inr d6" "wf_rdb d6"
    unfolding d6_def by (rule execute_all_wf [OF _ 5(2)], erule (1) clear_sources_keep)+
  have p3: "rd_pubs d3 = map (\<lambda>p. p\<lparr>pb_source := nulled ids (pb_source p)\<rparr>)
          (filter (\<lambda>p. \<not> (ref_in (pb_source p) ids \<and> pb_state p \<noteq> ''current'')) (rd_pubs d))"
    "rd_attempts d3 = filter (\<lambda>x. ap_source x \<notin> ids) (rd_attempts d)"
    by (simp_all add: d3_def d2_def d1_def before_jobs_def forget_job_rows_def)
  have "unreferenced ids d6" unfolding d6_def d4_def
    by (rule unreferenced_cleared) (auto simp: p3, simp add: d3_def)
  then have 7: "wf_rdb (delete_sources ids d6)" using 6(2) by (intro delete_sources_keep)
  then have 7: "execute (delete_sources ids) d6 = Inr (delete_sources ids d6)" "wf_rdb (delete_sources ids d6)"
    by (simp_all add: execute_def wf_rdb_def)
  have "sources_gone ids js d (delete_sources ids d6)"
    by (simp add: sources_gone_def delete_sources_def d6_def clear_sources_def delete_runs_def d4_def clear_candidates_def
        delete_children_def p3) (simp add: d3_def j2, simp add: d2_def d1_def before_jobs_def forget_job_rows_def)
  then show ?thesis using 1 2 3 4 5 6 7 by (auto simp: after_jobs_def execute_all_append)
qed

lemma sources_gone_none: "sources_gone {} {} d d"
  by (simp add: sources_gone_def)

lemma source_deletion_facts:
  assumes "wf_rdb d" "\<forall>j\<in>set (rd_jobs d). ref_in (source_id j) (set sids) \<longrightarrow> job_id j \<in> set jids"
  shows "\<exists>d'. delete_source_records sids jids d = Inr d' \<and> wf_rdb d'
    \<and> sources_gone (set sids) (if sids = [] then {} else set jids) d d'"
proof (cases "sids = []")
  case True
  have "sources_gone {} {} d d" using sources_gone_none .
  then show ?thesis using True assms(1) by (simp add: delete_source_records_def del: sources_gone_none)
next
  case False
  then show ?thesis using source_deletion [OF assms] by (simp add: delete_source_records_def Let_def)
qed

section \<open>Deleting records\<close>

text \<open>Nothing that is kept refers to the records.\<close>

definition records_free :: "string set \<Rightarrow> rdb \<Rightarrow> bool" where
  "records_free rs d \<longleftrightarrow> (\<forall>x\<in>set (rd_sources d). \<not> ref_in (sr_record x) rs)
     \<and> (\<forall>j\<in>set (rd_jobs d). \<not> ref_in (library_record_id j) rs)
     \<and> (\<forall>v\<in>set (rd_revisions d). \<forall>j\<in>set (rd_jobs d). metadata_revision_id j = Some (rv_id v) \<longrightarrow> rv_record v \<notin> rs)"

lemma unbound_fields [simp]: "rr_id (unbound rs x) = rr_id x"
  "rr_lyrics_publication (unbound rs x) = (if rr_id x \<in> rs then None else rr_lyrics_publication x)"
  by (simp_all add: unbound_def)

lemma unbind_lyrics_keep: "wf_rdb d \<Longrightarrow> wf_rdb (unbind_lyrics rs d)"
  by (simp add: unbind_lyrics_def wf_defs image_image comp_def)

lemma delete_attempts_keep: "wf_rdb d \<Longrightarrow> wf_rdb (delete_attempts rs d)"
  by (simp add: delete_attempts_def wf_defs)

lemma delete_publications_keep:
  assumes "wf_rdb d" "\<forall>x\<in>set (rd_records d). rr_id x \<in> rs \<longrightarrow> rr_lyrics_publication x = None"
  shows "wf_rdb (delete_publications rs d)"
proof -
  have "opt_in (rr_lyrics_publication x) (pb_id ` {p \<in> set (rd_pubs d). pb_record p \<notin> rs})" if x: "x \<in> set (rd_records d)" for x
  proof (cases "rr_id x \<in> rs")
    case False
    show ?thesis by (rule lyrics_kept [OF assms(1) x]) (use False in auto)
  qed (use assms(2) x in auto)
  then show ?thesis using assms(1) by (simp add: delete_publications_def wf_defs)
qed

lemma revision_kept:
  assumes "opt_in w (rv_id ` V)" "\<And>v. v \<in> V \<Longrightarrow> w = Some (rv_id v) \<Longrightarrow> rv_record v \<notin> rs"
  shows "opt_in w (rv_id ` {v \<in> V. rv_record v \<notin> rs})"
  using assms by (cases w) auto

lemma delete_revisions_keep:
  assumes "wf_rdb d" "\<forall>p\<in>set (rd_pubs d). pb_record p \<notin> rs" "\<forall>a\<in>set (rd_attempts d). ap_record a \<notin> rs" "records_free rs d"
  shows "wf_rdb (delete_revisions rs d)"
proof -
  let ?V = "set (rd_revisions d)"
  have r: "revision_refs_ok d" "revisions_owned d" using assms(1) by (simp_all add: wf_rdb_def refs_ok_def)
  have p: "opt_in (pb_revision p) (rv_id ` {v \<in> ?V. rv_record v \<notin> rs})" if "p \<in> set (rd_pubs d)" for p
    by (rule revision_kept) (use r assms(2) that in \<open>auto simp: revision_refs_ok_def revisions_owned_def Let_def\<close>)
  have a: "opt_in (ap_revision p) (rv_id ` {v \<in> ?V. rv_record v \<notin> rs})" if "p \<in> set (rd_attempts d)" for p
    by (rule revision_kept) (use r assms(3) that in \<open>auto simp: revision_refs_ok_def revisions_owned_def Let_def\<close>)
  have j: "opt_in (metadata_revision_id j) (rv_id ` {v \<in> ?V. rv_record v \<notin> rs})" if "j \<in> set (rd_jobs d)" for j
    by (rule revision_kept) (use r assms(4) that in \<open>auto simp: revision_refs_ok_def records_free_def Let_def\<close>)
  show ?thesis using assms(1) p a j by (simp add: delete_revisions_def wf_defs distinct_map_filter)
qed

lemma clear_records_keep: "f \<in> set (clear_records rs) \<Longrightarrow> wf_rdb d \<Longrightarrow> wf_rdb (f d)"
  by (simp only: clear_records_def list.set insert_iff empty_iff simp_thms)
    (elim disjE; simp add: wf_defs del: split_paired_All)

definition records_unreferenced :: "string set \<Rightarrow> rdb \<Rightarrow> bool" where
  "records_unreferenced rs d \<longleftrightarrow>
     (\<forall>x\<in>set (rd_sources d). \<not> ref_in (sr_record x) rs) \<and> (\<forall>x\<in>set (rd_pubs d). pb_record x \<notin> rs)
     \<and> (\<forall>x\<in>set (rd_attempts d). ap_record x \<notin> rs) \<and> (\<forall>x\<in>set (rd_jobs d). \<not> ref_in (library_record_id x) rs)
     \<and> (\<forall>x\<in>set (rd_assignments d). \<not> ref_in (snd x) rs) \<and> (\<forall>x\<in>set (rd_decisions d). dc_record x \<notin> rs)
     \<and> (\<forall>x\<in>set (rd_revisions d). rv_record x \<notin> rs) \<and> (\<forall>x\<in>set (rd_events d). ev_record x \<notin> rs)
     \<and> (\<forall>x\<in>set (rd_consolidations d). fst x \<notin> rs \<and> snd x \<notin> rs)"

lemma delete_records_keep:
  assumes "wf_rdb d" "records_unreferenced rs d"
  shows "wf_rdb (delete_records rs d)"
proof -
  have s: "rr_id ` {x \<in> set (rd_records d). rr_id x \<notin> rs} = rr_id ` set (rd_records d) - rs" by auto
  have "record_refs_ok d" using assms(1) by (simp add: wf_rdb_def refs_ok_def)
  then have "record_refs_ok (delete_records rs d)" using assms(2)
    by (simp add: record_refs_ok_def records_unreferenced_def delete_records_def record_ids_def s opt_in_kept Let_def)
  moreover have "lyrics_owned (delete_records rs d)" "other_refs_ok (delete_records rs d)" "keys_ok (delete_records rs d)"
    using assms(1) by (auto simp: wf_defs delete_records_def distinct_map_filter)
  ultimately show ?thesis using assms(1)
    by (simp add: wf_rdb_def refs_ok_def)
      (simp add: source_refs_ok_def revision_refs_ok_def runs_owned_def revisions_owned_def delete_records_def source_ids_def)
qed

lemma execute_wf: "wf_rdb (f d) \<Longrightarrow> execute f d = Inr (f d)"
  by (simp add: execute_def wf_rdb_def)

definition records_gone :: "string set \<Rightarrow> rdb \<Rightarrow> rdb \<Rightarrow> bool" where
  "records_gone rs d d' \<longleftrightarrow> rd_roots d' = rd_roots d \<and> rd_sources d' = rd_sources d \<and> rd_locations d' = rd_locations d
     \<and> record_ids d' = record_ids d - rs \<and> rd_pubs d' = filter (\<lambda>x. pb_record x \<notin> rs) (rd_pubs d)
     \<and> rd_consolidations d' = filter (\<lambda>x. \<not> (fst x \<in> rs \<or> snd x \<in> rs)) (rd_consolidations d)"

lemma record_deletion:
  assumes "wf_rdb d" "records_free rs d"
  shows "\<exists>d'. execute_all (record_deletions rs) d = Inr d' \<and> wf_rdb d' \<and> records_gone rs d d'"
proof -
  let ?f = "fold (\<lambda>f. f)"
  define d2 where "d2 = delete_attempts rs (unbind_lyrics rs d)"
  have 1: "wf_rdb (unbind_lyrics rs d)" "wf_rdb d2"
    using assms(1) by (simp_all add: d2_def delete_attempts_keep unbind_lyrics_keep)
  have 3: "wf_rdb (delete_publications rs d2)"
    by (rule delete_publications_keep [OF 1(2)]) (auto simp: d2_def delete_attempts_def unbind_lyrics_def)
  define d4 where "d4 = delete_revisions rs (delete_publications rs d2)"
  have 4: "wf_rdb d4" unfolding d4_def
    by (rule delete_revisions_keep [OF 3])
      (use assms(2) in \<open>auto simp: d2_def delete_attempts_def unbind_lyrics_def delete_publications_def records_free_def\<close>)
  define d5 where "d5 = ?f (clear_records rs) d4"
  have 5: "execute_all (clear_records rs) d4 = Inr d5" "wf_rdb d5"
    unfolding d5_def by (rule execute_all_wf [OF _ 4], erule (1) clear_records_keep)+
  have u: "records_unreferenced rs d5" using assms(2)
    by (simp add: d5_def clear_records_def d4_def delete_revisions_def delete_publications_def d2_def delete_attempts_def
        unbind_lyrics_def records_unreferenced_def records_free_def)
  have 6: "wf_rdb (delete_records rs d5)" by (rule delete_records_keep [OF 5(2) u])
  have "rr_id ` {x \<in> unbound rs ` A. rr_id x \<notin> rs} = rr_id ` A - rs" for A
  proof -
    have "{x \<in> unbound rs ` A. rr_id x \<notin> rs} = unbound rs ` {x \<in> A. rr_id x \<notin> rs}" by auto
    moreover have "rr_id ` {x \<in> A. rr_id x \<notin> rs} = rr_id ` A - rs" by auto
    ultimately show ?thesis by (simp add: image_image)
  qed
  then have "records_gone rs d (delete_records rs d5)"
    by (simp add: records_gone_def d5_def clear_records_def d4_def delete_revisions_def delete_publications_def d2_def
        delete_attempts_def unbind_lyrics_def delete_records_def record_ids_def)
  then show ?thesis using 1 3 4 5 6
    by (auto simp: record_deletions_def execute_all_append execute_wf d2_def d4_def)
qed

text \<open>A job that stays holds on to a revision of a record that is to go.\<close>

definition revisions_kept :: "string set \<Rightarrow> rdb \<Rightarrow> bool" where
  "revisions_kept rs d \<longleftrightarrow> (\<exists>v\<in>set (rd_revisions d). \<exists>j\<in>set (rd_jobs d). metadata_revision_id j = Some (rv_id v)
     \<and> rv_record v \<in> rs \<and> \<not> ref_in (library_record_id j) rs)"

lemma execute_all_result: "execute_all fs d = Inr d' \<Longrightarrow> d' = fold (\<lambda>f. f) fs d \<and> (fs \<noteq> [] \<longrightarrow> refs_ok d')"
proof (induction fs arbitrary: d)
  case (Cons f fs)
  then show ?case by (cases fs) (auto simp: execute_def bindR_Inr_iff split: if_splits)
qed simp

lemma forget_job_rows_result: "execute_all (forget_job_rows js) d = Inr d' \<Longrightarrow>
    rd_revisions d' = rd_revisions d \<and> rd_jobs d' = map (forgotten js) (rd_jobs d)"
  by (drule execute_all_result) (simp add: forget_job_rows_def)

lemma delete_jobs_result: "delete_jobs p d = Inr d' \<Longrightarrow> d' = d\<lparr>rd_jobs := filter (\<lambda>j. \<not> p j) (rd_jobs d)\<rparr>"
  by (auto simp: delete_jobs_def execute_def split: if_splits)

lemma record_deletion_refused:
  assumes "refs_ok d" and k: "revisions_kept (set rids) d"
  shows "delete_library_records rids d = Inl IntegrityError"
proof (cases "delete_library_records rids d")
  case (Inl e)
  then show ?thesis by (cases e) simp
next
  case (Inr d')
  let ?rs = "set rids"
  obtain v j where v: "v \<in> set (rd_revisions d)" "j \<in> set (rd_jobs d)" "metadata_revision_id j = Some (rv_id v)"
      "rv_record v \<in> ?rs" "\<not> ref_in (library_record_id j) ?rs"
    using k unfolding revisions_kept_def by blast
  define jids where "jids = map job_id (filter (\<lambda>j. ref_in (library_record_id j) ?rs) (rd_jobs d))"
  have "rids \<noteq> []" using v(4) by auto
  then obtain d2 where 1: "(if jids = [] then Inr d
      else bindR (execute_all (forget_job_rows (set jids)) d) (delete_jobs (\<lambda>j. job_id j \<in> set jids))) = Inr d2"
    and 2: "execute_all (record_deletions ?rs) d2 = Inr d'"
    using Inr unfolding delete_library_records_def Let_def jids_def [symmetric]
    by (simp only: if_False) (auto simp: bindR_Inr_iff)
  have "distinct (map job_id (rd_jobs d))" using assms(1) by (simp add: refs_ok_def keys_ok_def rows_ok_def)
  then have out: "job_id j \<notin> set jids"
    using v(2,5) unfolding jids_def by (auto dest: inj_onD [OF iffD1 [OF distinct_map, THEN conjunct2]])
  have d2: "rd_revisions d2 = rd_revisions d" "forgotten (set jids) j \<in> set (rd_jobs d2)"
    using 1 v(2) out
    by (auto simp: bindR_Inr_iff forgotten_def dest!: forget_job_rows_result delete_jobs_result split: if_splits)
  have refs: "refs_ok d'" using execute_all_result [OF 2] by (auto simp: record_deletions_def)
  have final: "rd_revisions d' = filter (\<lambda>x. rv_record x \<notin> ?rs) (rd_revisions d)" "rd_jobs d' = rd_jobs d2"
    using execute_all_result [OF 2] d2(1) by (simp_all add: record_deletions_def unbind_lyrics_def delete_attempts_def
        delete_publications_def delete_revisions_def clear_records_def delete_records_def)
  have "revision_refs_ok d'" using refs by (simp add: refs_ok_def)
  then have "opt_in (metadata_revision_id (forgotten (set jids) j)) (rv_id ` set (rd_revisions d'))"
    using d2(2) final(2) unfolding revision_refs_ok_def Let_def by metis
  then have "rv_id v \<in> rv_id ` {u \<in> set (rd_revisions d). rv_record u \<notin> ?rs}"
    using v(3) by (simp add: opt_in_iff final(1))
  then obtain u where u: "u \<in> set (rd_revisions d)" "rv_record u \<notin> ?rs" "rv_id u = rv_id v" by auto
  have "distinct (map rv_id (rd_revisions d))" using assms(1) by (simp add: refs_ok_def keys_ok_def)
  then have "u = v" using v(1) u by (auto dest: inj_onD [OF iffD1 [OF distinct_map, THEN conjunct2]])
  then show ?thesis using v(4) u(2) by simp
qed

lemma record_deletion_facts:
  assumes w: "wf_rdb d" and o: "\<not> revisions_kept (set rids) d"
    and f: "\<forall>s\<in>set (rd_sources d). \<not> ref_in (sr_record s) (set rids)"
  shows "\<exists>d'. delete_library_records rids d = Inr d' \<and> wf_rdb d' \<and> records_gone (set rids) d d'"
proof (cases "rids = []")
  case True
  then show ?thesis using w by (simp add: delete_library_records_def records_gone_def)
next
  case False
  let ?rs = "set rids"
  define jids where "jids = map job_id (filter (\<lambda>j. ref_in (library_record_id j) ?rs) (rd_jobs d))"
  define d1 where "d1 = (if jids = [] then d else fold (\<lambda>f. f) (forget_job_rows (set jids)) d)"
  have 1: "execute_all (forget_job_rows (set jids)) d = Inr d1 \<or> jids = []" "wf_rdb d1"
  proof -
    have "execute_all (forget_job_rows (set jids)) d = Inr (fold (\<lambda>f. f) (forget_job_rows (set jids)) d)"
      "wf_rdb (fold (\<lambda>f. f) (forget_job_rows (set jids)) d)"
      by (rule execute_all_wf [OF _ w], erule (1) forget_job_rows_keep)+
    then show "execute_all (forget_job_rows (set jids)) d = Inr d1 \<or> jids = []" "wf_rdb d1" using w by (simp_all add: d1_def)
  qed
  have d1: "rd_jobs d1 = map (forgotten (set jids)) (rd_jobs d)" "\<forall>x\<in>set (rd_receipts d1). \<not> ref_in x (set jids)"
    "rd_sources d1 = rd_sources d" "rd_revisions d1 = rd_revisions d" "rd_roots d1 = rd_roots d"
    "rd_locations d1 = rd_locations d" "rd_records d1 = rd_records d" "rd_pubs d1 = rd_pubs d"
    "rd_consolidations d1 = rd_consolidations d"
    by (cases "jids = []"; simp add: d1_def forget_job_rows_def)+
  define d2 where "d2 = d1\<lparr>rd_jobs := filter (\<lambda>j. job_id j \<notin> set jids) (rd_jobs d1)\<rparr>"
  have 2: "delete_jobs (\<lambda>j. job_id j \<in> set jids) d1 = Inr d2" "wf_rdb d2"
  proof -
    have a: "\<forall>j\<in>set (rd_jobs d1). job_id j \<in> set jids \<longrightarrow> attempts j = [] \<and> job_id j \<in> set jids"
      unfolding d1(1) by (auto simp: forgotten_def)
    show "delete_jobs (\<lambda>j. job_id j \<in> set jids) d1 = Inr d2" "wf_rdb d2"
      unfolding d2_def using delete_jobs_ok [OF 1(2) a d1(2)] by blast+
  qed
  have "records_free ?rs d2" unfolding records_free_def
  proof (intro conjI ballI impI)
    show "\<not> ref_in (sr_record x) ?rs" if "x \<in> set (rd_sources d2)" for x using that f by (simp add: d2_def d1)
    show "\<not> ref_in (library_record_id j) ?rs" if "j \<in> set (rd_jobs d2)" for j
      using that by (auto simp: d2_def d1 jids_def)
    fix v j
    assume v: "v \<in> set (rd_revisions d2)" "j \<in> set (rd_jobs d2)" "metadata_revision_id j = Some (rv_id v)"
    obtain i where i: "i \<in> set (rd_jobs d)" "j = forgotten (set jids) i" using v(2) by (auto simp: d2_def d1)
    have "v \<in> set (rd_revisions d)" "metadata_revision_id i = Some (rv_id v)" using v i by (simp_all add: d2_def d1)
    moreover have "\<not> ref_in (library_record_id i) ?rs" using v(2) i by (auto simp: d2_def d1 jids_def)
    ultimately show "rv_record v \<notin> ?rs" using o i(1) unfolding revisions_kept_def by blast
  qed
  then obtain d' where 3: "execute_all (record_deletions ?rs) d2 = Inr d'" "wf_rdb d'" "records_gone ?rs d2 d'"
    using record_deletion [OF 2(2)] by blast
  have "d2 = d \<or> jids \<noteq> []" by (simp add: d2_def d1_def)
  moreover have "delete_library_records rids d = bindR (if jids = [] then Inr d
      else bindR (execute_all (forget_job_rows (set jids)) d) (delete_jobs (\<lambda>j. job_id j \<in> set jids))) (execute_all (record_deletions ?rs))"
    unfolding delete_library_records_def Let_def jids_def [symmetric] using False by (simp only: if_False)
  ultimately have "delete_library_records rids d = Inr d'" using 1(1) 2(1) 3(1) by (cases "jids = []") auto
  moreover have "records_gone ?rs d d'" using 3(3) by (simp add: records_gone_def d2_def d1 record_ids_def)
  ultimately show ?thesis using 3(2) by blast
qed

section \<open>The cleanup removes exactly what nothing needs\<close>

inductive dispensable :: "rdb \<Rightarrow> string \<Rightarrow> bool" for d where
  dispensable: "r \<in> record_ids d
    \<Longrightarrow> \<forall>s\<in>set (rd_sources d). sr_record s = Some r \<longrightarrow> sr_id s \<notin> lo_source ` set (rd_locations d)
    \<Longrightarrow> \<forall>p\<in>set (rd_pubs d). pb_record p = r \<longrightarrow> pb_state p \<noteq> ''current''
    \<Longrightarrow> \<forall>q. (q, r) \<in> set (rd_consolidations d) \<longrightarrow> dispensable d q
    \<Longrightarrow> dispensable d r"

lemma unlocated_sources_set: "set (unlocated_sources d) = source_ids d - lo_source ` set (rd_locations d)"
  by (auto simp: unlocated_sources_def source_ids_def)

lemma candidate_records_iff:
  "r \<in> set (candidate_records (unlocated_sources d) d) \<longleftrightarrow> r \<in> record_ids d
    \<and> (\<forall>s\<in>set (rd_sources d). sr_record s = Some r \<longrightarrow> sr_id s \<notin> lo_source ` set (rd_locations d))
    \<and> (\<forall>p\<in>set (rd_pubs d). pb_record p = r \<longrightarrow> pb_state p \<noteq> ''current'')"
  by (auto simp: candidate_records_def deletable_record_def list_ex_iff unlocated_sources_set record_ids_def source_ids_def)

lemma canonical_predecessors_iff: "q \<in> set (canonical_predecessors d r) \<longleftrightarrow> (q, r) \<in> set (rd_consolidations d)"
  by (auto simp: canonical_predecessors_def intro: rev_image_eqI)

lemma closure_loop_dispensable:
  assumes "cands = candidate_records (unlocated_sources d) d" "preds = canonical_predecessors d"
    "\<forall>r\<in>set chosen. dispensable d r"
  shows "set (closure_loop cands preds chosen) = {r. dispensable d r}"
  using assms
proof (induction cands preds chosen rule: closure_loop.induct)
  case (1 cands preds chosen)
  define additions where "additions = filter (\<lambda>r. r \<notin> set chosen \<and> set (preds r) \<subseteq> set chosen) cands"
  have step: "closure_loop cands preds chosen = (if additions = [] then chosen else closure_loop cands preds (chosen @ additions))"
    by (subst closure_loop.simps) (simp add: additions_def Let_def)
  have new: "\<forall>r\<in>set additions. dispensable d r"
  proof
    fix r
    assume "r \<in> set additions"
    then have r: "r \<in> set cands" "set (preds r) \<subseteq> set chosen" by (auto simp: additions_def)
    show "dispensable d r"
    proof (rule dispensable.intros)
      show "\<forall>q. (q, r) \<in> set (rd_consolidations d) \<longrightarrow> dispensable d q"
        using r(2) 1(4) unfolding 1(3) by (auto simp: canonical_predecessors_iff subset_iff)
    qed (use r(1) in \<open>simp_all add: 1(2) candidate_records_iff\<close>)
  qed
  show ?case
  proof (cases "additions = []")
    case True
    have "dispensable d r \<Longrightarrow> r \<in> set chosen" for r
    proof (induction rule: dispensable.induct)
      case (dispensable r)
      then have "r \<in> set cands" "set (preds r) \<subseteq> set chosen"
        by (auto simp: 1(2, 3) candidate_records_iff canonical_predecessors_iff)
      then show ?case using True by (auto simp: additions_def filter_empty_conv)
    qed
    then show ?thesis using 1(4) True step by auto
  next
    case False
    then show ?thesis using 1(1) [OF additions_def] 1(2-4) new step by auto
  qed
qed

lemma cleanup_targets_sets:
  "set (fst (cleanup_targets d)) = source_ids d - lo_source ` set (rd_locations d)"
  "set (snd (cleanup_targets d)) = {r. dispensable d r}"
  by (simp_all add: cleanup_targets_def Let_def unlocated_sources_set closure_loop_dispensable)

lemma sources_gone_kept:
  assumes "sources_gone ids js d d'"
  shows "revisions_kept rs d' \<longleftrightarrow> (\<exists>v\<in>set (rd_revisions d). \<exists>j\<in>set (rd_jobs d). metadata_revision_id j = Some (rv_id v)
     \<and> rv_record v \<in> rs \<and> \<not> ref_in (library_record_id j) rs \<and> \<not> ref_in (source_id j) ids)"
  using assms unfolding revisions_kept_def sources_gone_def by auto

text \<open>The jobs that stay in a cleanup are those of no unlocated source and of no dispensable record; one
  that refers to a revision of a dispensable record stands in the way.\<close>

definition cleanup_blocked :: "rdb \<Rightarrow> bool" where
  "cleanup_blocked d \<longleftrightarrow> (\<exists>v\<in>set (rd_revisions d). \<exists>j\<in>set (rd_jobs d). metadata_revision_id j = Some (rv_id v)
     \<and> dispensable d (rv_record v) \<and> \<not> ref_in (library_record_id j) {r. dispensable d r}
     \<and> \<not> ref_in (source_id j) (source_ids d - lo_source ` set (rd_locations d)))"

lemma cleanup_facts:
  assumes w: "wf_rdb d"
  shows "if cleanup_blocked d then current_state_cleanup True d = Inl IntegrityError
    else \<exists>rep d1 d'. current_state_cleanup True d = Inr (rep, d') \<and> wf_rdb d'
    \<and> set (cu_sources rep) = source_ids d - lo_source ` set (rd_locations d)
    \<and> set (cu_records rep) = {r. dispensable d r}
    \<and> sources_gone (set (cu_sources rep)) (if cu_sources rep = [] then {} else
         job_id ` {j \<in> set (rd_jobs d). ref_in (source_id j) (set (cu_sources rep))}) d d1
    \<and> records_gone (set (cu_records rep)) d1 d'"
proof -
  obtain sids rids where t: "cleanup_targets d = (sids, rids)" by fastforce
  have s: "set sids = source_ids d - lo_source ` set (rd_locations d)" and r: "set rids = {r. dispensable d r}"
    using cleanup_targets_sets [of d] t by simp_all
  define jids where "jids = map job_id (filter (\<lambda>j. ref_in (source_id j) (set sids)) (rd_jobs d))"
  have js: "set jids = job_id ` {j \<in> set (rd_jobs d). ref_in (source_id j) (set sids)}" by (simp add: jids_def)
  obtain d1 where d1: "delete_source_records sids jids d = Inr d1" "wf_rdb d1"
    "sources_gone (set sids) (if sids = [] then {} else set jids) d d1"
    using source_deletion_facts [OF w, of sids jids] by (auto simp: jids_def)
  have run: "current_state_cleanup True d = bindR (delete_library_records rids d1)
      (\<lambda>d. Inr (\<lparr>cu_sources = sids, cu_records = rids, cu_applied = True\<rparr>, d))"
    using d1(1) by (simp add: current_state_cleanup_def t jids_def)
  have blocked: "cleanup_blocked d \<longleftrightarrow> revisions_kept (set rids) d1"
    unfolding cleanup_blocked_def sources_gone_kept [OF d1(3)] s r by auto
  show ?thesis
  proof (cases "cleanup_blocked d")
    case True
    then have "delete_library_records rids d1 = Inl IntegrityError"
      using record_deletion_refused [of d1 rids] d1(2) by (simp add: blocked wf_rdb_def)
    then show ?thesis using True run by simp
  next
    case False
    have "\<forall>x\<in>set (rd_sources d1). \<not> ref_in (sr_record x) (set rids)"
    proof
      fix x
      assume "x \<in> set (rd_sources d1)"
      then obtain y where y: "y \<in> set (rd_sources d)" "sr_id y \<notin> set sids" "sr_record x = sr_record y"
        using d1(3) by (auto simp: sources_gone_def)
      then have l: "sr_id y \<in> lo_source ` set (rd_locations d)" using s by (auto simp: source_ids_def)
      have "sr_record y \<noteq> Some q" if "dispensable d q" for q using that y(1) l by cases blast
      then show "\<not> ref_in (sr_record x) (set rids)" using y(3) r by (auto simp: ref_in_def split: option.splits)
    qed
    from record_deletion_facts [OF d1(2) _ this] False blocked
    obtain d' where d': "delete_library_records rids d1 = Inr d'" "wf_rdb d'" "records_gone (set rids) d1 d'" by blast
    moreover have "sources_gone (set sids) (if sids = [] then {} else
        job_id ` {j \<in> set (rd_jobs d). ref_in (source_id j) (set sids)}) d d1" using d1(3) unfolding js .
    ultimately have "\<exists>rep d1 d'. current_state_cleanup True d = Inr (rep, d') \<and> wf_rdb d'
      \<and> set (cu_sources rep) = source_ids d - lo_source ` set (rd_locations d)
      \<and> set (cu_records rep) = {r. dispensable d r}
      \<and> sources_gone (set (cu_sources rep)) (if cu_sources rep = [] then {} else
           job_id ` {j \<in> set (rd_jobs d). ref_in (source_id j) (set (cu_sources rep))}) d d1
      \<and> records_gone (set (cu_records rep)) d1 d'"
      using s r run
      by (intro exI [of _ "\<lparr>cu_sources = sids, cu_records = rids, cu_applied = True\<rparr>"] exI [of _ d1] exI [of _ d'] conjI)
        (simp_all only: cleanup_report.simps bindR.simps)
    then show ?thesis using False by (simp only: if_False)
  qed
qed

lemma sources_gone_ids: "sources_gone ids js d d' \<Longrightarrow> source_ids d' = source_ids d - ids"
  by (auto simp: sources_gone_def source_ids_def filter_map comp_def image_image)

lemma sources_gone_current:
  assumes "sources_gone ids js d d'"
  shows "map (\<lambda>p. (pb_id p, pb_record p)) (filter (\<lambda>p. pb_state p = ''current'') (rd_pubs d'))
    = map (\<lambda>p. (pb_id p, pb_record p)) (filter (\<lambda>p. pb_state p = ''current'') (rd_pubs d))"
proof -
  have "filter (\<lambda>x. (ref_in (pb_source x) ids \<longrightarrow> pb_state x = ''current'') \<and> pb_state x = ''current'') (rd_pubs d)
      = filter (\<lambda>p. pb_state p = ''current'') (rd_pubs d)" by (rule filter_cong) auto
  then show ?thesis using assms by (simp add: sources_gone_def filter_map comp_def)
qed

definition current_publications :: "rdb \<Rightarrow> (string \<times> string) set" where
  "current_publications d = (\<lambda>p. (pb_id p, pb_record p)) ` set (filter (\<lambda>p. pb_state p = ''current'') (rd_pubs d))"

lemma current_publications_map:
  "current_publications d = set (map (\<lambda>p. (pb_id p, pb_record p)) (filter (\<lambda>p. pb_state p = ''current'') (rd_pubs d)))"
  by (simp only: current_publications_def set_map)

text \<open>C17. Deleting sources never violates a constraint, provided the jobs passed include those of the
  sources: the tables are consistent before and after, the sources are gone, and the library records, the
  locations of other sources and every current publication stay.\<close>

theorem source_deletion_accepted:
  assumes "wf_rdb d" "\<forall>j\<in>set (rd_jobs d). ref_in (source_id j) (set sids) \<longrightarrow> job_id j \<in> set jids"
  shows "\<exists>d'. delete_source_records sids jids d = Inr d' \<and> wf_rdb d' \<and> source_ids d' = source_ids d - set sids
    \<and> rd_records d' = rd_records d \<and> rd_locations d' = filter (\<lambda>l. lo_source l \<notin> set sids) (rd_locations d)
    \<and> current_publications d' = current_publications d"
proof -
  obtain js d' where d': "delete_source_records sids jids d = Inr d'" "wf_rdb d'" "sources_gone (set sids) js d d'"
    using source_deletion_facts [OF assms] by auto
  show ?thesis using d' sources_gone_ids [OF d'(3)] sources_gone_current [OF d'(3)]
    by (intro exI [of _ d']) (simp add: current_publications_map sources_gone_def)
qed

text \<open>C18. Of consistent tables, the cleanup is refused exactly when a job that stays refers to a revision
  of a record that is to go; nothing is changed then. Otherwise it removes exactly the sources that are at
  no location and the records that nothing needs (no located source, no current publication, and every
  record retired into it removed with it), leaves consistent tables, and keeps every location and every
  current publication.\<close>

theorem cleanup_removes_dispensable:
  assumes "wf_rdb d"
  shows "if cleanup_blocked d then current_state_cleanup True d = Inl IntegrityError
    else \<exists>rep d'. current_state_cleanup True d = Inr (rep, d') \<and> wf_rdb d'
    \<and> source_ids d' = lo_source ` set (rd_locations d) \<and> record_ids d' = {r \<in> record_ids d. \<not> dispensable d r}
    \<and> rd_locations d' = rd_locations d \<and> current_publications d' = current_publications d"
proof (cases "cleanup_blocked d")
  case True
  then show ?thesis using cleanup_facts [OF assms] by simp
next
  case False
  obtain rep d1 d' js where f: "current_state_cleanup True d = Inr (rep, d')" "wf_rdb d'"
    "set (cu_sources rep) = source_ids d - lo_source ` set (rd_locations d)" "set (cu_records rep) = {r. dispensable d r}"
    "sources_gone (set (cu_sources rep)) js d d1" "records_gone (set (cu_records rep)) d1 d'"
    using cleanup_facts [OF assms] False by (simp only: if_False) (elim exE conjE, rule that)
  have l: "lo_source ` set (rd_locations d) \<subseteq> source_ids d"
    using assms(1) by (auto simp: wf_rdb_def refs_ok_def source_refs_ok_def Let_def)
  have s: "source_ids d' = lo_source ` set (rd_locations d)"
    using f(6) sources_gone_ids [OF f(5)] f(3) l by (auto simp: records_gone_def source_ids_def)
  have "filter (\<lambda>x. lo_source x \<notin> set (cu_sources rep)) (rd_locations d) = rd_locations d" by (simp add: f(3) filter_id_conv)
  then have loc: "rd_locations d' = rd_locations d" using f(5,6) by (simp add: records_gone_def sources_gone_def)
  have "record_ids d' = {r \<in> record_ids d. \<not> dispensable d r}"
    using f(4,5,6) by (auto simp: records_gone_def sources_gone_def record_ids_def)
  moreover have "current_publications d' = current_publications d"
  proof -
    have "\<not> dispensable d (pb_record p)" if "p \<in> set (rd_pubs d)" "pb_state p = ''current''" for p
      using that dispensable.cases by blast
    then have n: "\<not> dispensable d r" if "(i, r) \<in> current_publications d" for i r
      using that by (auto simp: current_publications_def)
    have e: "current_publications d1 = current_publications d"
      by (simp only: current_publications_map sources_gone_current [OF f(5)])
    have "\<not> dispensable d (pb_record p)" if "p \<in> set (rd_pubs d1)" "pb_state p = ''current''" for p
    proof (rule n [of "pb_id p"])
      have "(pb_id p, pb_record p) \<in> current_publications d1" using that by (simp add: current_publications_def)
      then show "(pb_id p, pb_record p) \<in> current_publications d" by (simp only: e)
    qed
    then have "current_publications d' = current_publications d1"
      using f(4,6) by (auto simp: current_publications_def records_gone_def)
    then show ?thesis using e by simp
  qed
  ultimately show ?thesis using False f(1,2) s loc by auto
qed

definition sample_source_row :: "string \<Rightarrow> string \<Rightarrow> source_row" where
  "sample_source_row s r = \<lparr>sr_id = s, sr_key = ''7:10:3'', sr_root = ''root'', sr_path = ''/m/a.mp3'', sr_device = 1, sr_inode = 7,
     sr_size = 10, sr_mtime = 3, sr_sha256 = ''ab'', sr_origin = ''manual'', sr_state = ''ready'', sr_record = Some r,
     sr_replaced_by = None, sr_disappeared = None\<rparr>"

definition sample_record_row :: "string \<Rightarrow> record_row" where
  "sample_record_row r = \<lparr>rr_id = r, rr_source_state = ''present'', rr_processing = ''complete'', rr_lyrics_publication = None,
     rr_created = 0, rr_updated = 0\<rparr>"

text \<open>Source \<open>s1\<close> is at a location, \<open>s2\<close> is not; a finished job of \<open>s1\<close> has published revision 1.\<close>

definition sample_tables :: "string \<Rightarrow> rdb" where
  "sample_tables owner = \<lparr>rd_roots = [\<lparr>rt_id = ''root'', rt_path = ''/m'', rt_enabled = True, rt_state = ''scanned'', rt_updated = 0\<rparr>],
     rd_records = [sample_record_row ''r1'', sample_record_row ''r2''],
     rd_sources = [sample_source_row ''s1'' ''r1'', sample_source_row ''s2'' ''r2''],
     rd_locations = [\<lparr>lo_id = 1, lo_source = ''s1'', lo_root = ''root'', lo_path = ''/m/a.mp3''\<rparr>],
     rd_pubs = [], rd_attempts = [],
     rd_jobs = [(new_job ''final_publish-1'' ''final_publish'' 0)\<lparr>source_id := Some ''s1'', job_state := ''complete'',
       metadata_revision_id := Some 1\<rparr>],
     rd_receipts = [], rd_children = [(Tags, ''s1''), (Tags, ''s2'')], rd_assignments = [(''s2'', Some ''r2'')], rd_runs = [],
     rd_candidates = [], rd_decisions = [],
     rd_revisions = [\<lparr>rv_id = 1, rv_record = owner, rv_source = Some ''s1''\<rparr>], rd_events = [], rd_consolidations = []\<rparr>"

lemma sample_tables_ok: "wf_rdb (sample_tables ''r1'')" "wf_rdb (sample_tables ''r2'')"
  by code_simp+

theorem source_deletion_accepted_witness:
  "\<exists>d'. delete_source_records [''s2''] [] (sample_tables ''r1'') = Inr d' \<and> source_ids d' = {''s1''}"
proof -
  have j: "\<forall>j\<in>set (rd_jobs (sample_tables ''r1'')). ref_in (source_id j) (set [''s2'']) \<longrightarrow> job_id j \<in> set []" by code_simp
  have s: "source_ids (sample_tables ''r1'') - set [''s2''] = {''s1''}"
    by (auto simp: source_ids_def sample_tables_def sample_source_row_def)
  show ?thesis using source_deletion_accepted [OF sample_tables_ok(1) j] unfolding s by blast
qed

theorem cleanup_removes_dispensable_witness:
  "(\<exists>rep d'. current_state_cleanup True (sample_tables ''r1'') = Inr (rep, d') \<and> source_ids d' = {''s1''})
    \<and> cleanup_blocked (sample_tables ''r2'')"
proof
  have s: "lo_source ` set (rd_locations (sample_tables ''r1'')) = {''s1''}" by (simp add: sample_tables_def)
  have "isl (current_state_cleanup True (sample_tables ''r1'')) = False" by code_simp
  then show "\<exists>rep d'. current_state_cleanup True (sample_tables ''r1'') = Inr (rep, d') \<and> source_ids d' = {''s1''}"
    using cleanup_removes_dispensable [OF sample_tables_ok(1)] unfolding s by (auto split: if_splits)
  have "isl (current_state_cleanup True (sample_tables ''r2''))" by code_simp
  then show "cleanup_blocked (sample_tables ''r2'')"
    using cleanup_removes_dispensable [OF sample_tables_ok(2)] by (auto split: if_splits)
qed

text \<open>A source that has been associated with another record keeps its finished jobs, and one that
  published a revision of its old record keeps that record from being deleted: the whole cleanup is refused.\<close>

lemma moved_source_blocks_cleanup: "current_state_cleanup True (sample_tables ''r2'') = Inl IntegrityError"
  by code_simp

end
