(* ===== verification/ScanPlan.thy ===== *)
theory ScanPlan imports Deletion Publication Json begin

text \<open>
  \<^bold>\<open>Reconciliation of the source roots\<close> (\<open>services/reconciliation.py\<close>, \<open>services/source_boundary.py\<close>): the
  files below each root, the plan computed from a snapshot of the tables and those files, and its application.

  The file system is an argument of the scan, as it is at that moment: what paths resolve to, kinds, \<open>stat\<close>
  results, and the entries below each directory in the order \<open>os.walk\<close> lists them. SHA-256 and the
  texts of \<open>uuid4\<close> are arguments. Paths are their texts; \<open>Path(p).resolve(strict=False)\<close> is an argument.
\<close>

section \<open>Files below a root\<close>

datatype file_kind = RegularFile | DirectoryFile | SymbolicLink | OtherFile

record file_status =
  st_device :: int
  st_inode :: int
  st_size :: int
  st_mtime :: int

text \<open>The entries of a directory: its subdirectories with their entries, the links to directories, and
  every other name.\<close>

datatype dir_entry = SubDir string "dir_entry list" | LinkedDir string | FileName string

text \<open>The answer of a system call: \<open>Missing\<close> is \<open>FileNotFoundError\<close>, \<open>Denied\<close> any other \<open>OSError\<close>.\<close>

datatype 'a os_answer = Found 'a | Missing | Denied

record file_view =
  fv_strict :: "string \<Rightarrow> string os_answer" \<comment> \<open>\<open>resolve(strict=True)\<close>\<close>
  fv_lstat :: "string \<Rightarrow> file_kind os_answer"
  fv_is_dir :: "string \<Rightarrow> bool"
  fv_opened :: "string \<Rightarrow> file_kind os_answer" \<comment> \<open>\<open>fstat\<close> after \<open>os.open\<close> without following a link\<close>
  fv_stat :: "string \<Rightarrow> (file_kind \<times> file_status) os_answer"
  fv_entries :: "string \<Rightarrow> dir_entry list"

text \<open>\<open>SourceBoundaryError\<close>, or an \<open>OSError\<close> that is not caught.\<close>

datatype boundary_error = SourceBoundaryError | UncaughtOSError

text \<open>An answer inside \<open>try ... except FileNotFoundError\<close>, and one outside.\<close>

fun guarded_answer :: "'a os_answer \<Rightarrow> boundary_error + 'a" where
  "guarded_answer (Found x) = Inr x"
| "guarded_answer Missing = Inl SourceBoundaryError"
| "guarded_answer Denied = Inl UncaughtOSError"

fun plain_answer :: "'a os_answer \<Rightarrow> boundary_error + 'a" where
  "plain_answer (Found x) = Inr x"
| "plain_answer Missing = Inl UncaughtOSError"
| "plain_answer Denied = Inl UncaughtOSError"

definition join_path :: "string \<Rightarrow> string \<Rightarrow> string" where
  "join_path d n = (if d = ''/'' then ''/'' @ n else d @ ''/'' @ n)"

definition path_below :: "string \<Rightarrow> string \<Rightarrow> bool" where
  "path_below p d \<longleftrightarrow> p = d \<or> str_startswith p (if d = ''/'' then d else d @ ''/'')"

definition resolve_regular_file :: "file_view \<Rightarrow> string \<Rightarrow> string \<Rightarrow> boundary_error + string" where
  "resolve_regular_file v p root_path =
     bindR (guarded_answer (fv_strict v root_path)) (\<lambda>canonical.
     bindR (guarded_answer (fv_lstat v canonical)) (\<lambda>root_status.
     bindR (guarded_answer (fv_lstat v p)) (\<lambda>k.
       if fv_lstat v root_path = Found SymbolicLink \<or> \<not> fv_is_dir v canonical \<or> k \<noteq> RegularFile
       then Inl SourceBoundaryError
       else if fv_lstat v p = Found SymbolicLink then Inl SourceBoundaryError
       else (case fv_strict v p of
           Found resolved \<Rightarrow>
             if \<not> path_below resolved canonical then Inl SourceBoundaryError
             else bindR (plain_answer (fv_opened v resolved)) (\<lambda>opened.
               if opened \<noteq> RegularFile then Inl SourceBoundaryError else Inr resolved)
         | _ \<Rightarrow> Inl SourceBoundaryError))))"

record owned_root =
  or_id :: string
  or_enabled :: bool
  or_path :: string

definition resolve_owned_source :: "file_view \<Rightarrow> owned_root option \<Rightarrow> string \<Rightarrow> boundary_error + string" where
  "resolve_owned_source v owner p = (case owner of
     None \<Rightarrow> Inl SourceBoundaryError
   | Some r \<Rightarrow> if \<not> or_enabled r \<or> or_id r = ''historical-unmanaged'' \<or> str_startswith (or_path r) ''historical-unmanaged://''
       then Inl SourceBoundaryError
       else resolve_regular_file v p (or_path r))"

record fingerprint =
  fp_path :: string
  fp_root :: string
  fp_device :: int
  fp_inode :: int
  fp_size :: int
  fp_mtime :: int
  fp_sha256 :: string

definition stat_fingerprint :: "(string \<Rightarrow> string) \<Rightarrow> file_view \<Rightarrow> string \<Rightarrow> string \<Rightarrow> string \<Rightarrow> boundary_error + fingerprint" where
  "stat_fingerprint sha v p root_path rid = bindR (resolve_regular_file v p root_path) (\<lambda>resolved.
     bindR (plain_answer (fv_stat v resolved)) (\<lambda>(k, st).
       if k \<noteq> RegularFile then Inl SourceBoundaryError
       else Inr \<lparr>fp_path = resolved, fp_root = rid, fp_device = st_device st, fp_inode = st_inode st,
         fp_size = st_size st, fp_mtime = st_mtime st,
         fp_sha256 = sha (json_int (st_size st) @ '':'' @ json_int (st_mtime st) @ '':'' @ json_int (st_inode st))\<rparr>))"

definition AUDIO_SUFFIXES :: "string list" where
  "AUDIO_SUFFIXES = [''.aac'', ''.aiff'', ''.alac'', ''.ape'', ''.asf'', ''.dff'', ''.dsf'', ''.flac'', ''.m4a'', ''.mka'',
     ''.mp3'', ''.mp4'', ''.mpc'', ''.ofr'', ''.ofs'', ''.oga'', ''.ogg'', ''.opus'', ''.spx'', ''.tak'', ''.tta'', ''.wav'',
     ''.wma'', ''.wv'']"

text \<open>\<open>os.walk(followlinks=False)\<close> after the links among the directories are removed: the names of each
  directory, then those of its subdirectories.\<close>

fun walk_names :: "string \<Rightarrow> dir_entry list \<Rightarrow> (string \<times> string) list" and walk_below :: "string \<Rightarrow> dir_entry list \<Rightarrow> (string \<times> string) list" where
  "walk_names d es = [(d, n). FileName n \<leftarrow> es] @ walk_below d es"
| "walk_below d [] = []"
| "walk_below d (SubDir n es # rest) = walk_names (join_path d n) es @ walk_below d rest"
| "walk_below d (LinkedDir n # rest) = walk_below d rest"
| "walk_below d (FileName n # rest) = walk_below d rest"

record root_snapshot =
  rs_id :: string
  rs_path :: string

definition scan_candidate :: "(string \<Rightarrow> string) \<Rightarrow> file_view \<Rightarrow> string \<Rightarrow> string \<Rightarrow> string \<times> string
    \<Rightarrow> boundary_error + fingerprint option" where
  "scan_candidate sha v canonical rid e = (case e of (d, n) \<Rightarrow>
     if str_casefold (name_suffix n) \<notin> set AUDIO_SUFFIXES then Inr None
     else (case stat_fingerprint sha v (join_path d n) canonical rid of
         Inr f \<Rightarrow> Inr (Some f)
       | Inl SourceBoundaryError \<Rightarrow> Inr None
       | Inl UncaughtOSError \<Rightarrow> Inl UncaughtOSError))"

fun scan_entries :: "('a \<Rightarrow> boundary_error + fingerprint option) \<Rightarrow> 'a list \<Rightarrow> boundary_error + fingerprint list" where
  "scan_entries g [] = Inr []"
| "scan_entries g (e # es) = bindR (g e) (\<lambda>x. bindR (scan_entries g es) (\<lambda>fs.
     Inr (case x of None \<Rightarrow> fs | Some f \<Rightarrow> f # fs)))"

definition root_files :: "(string \<Rightarrow> string) \<Rightarrow> file_view \<Rightarrow> root_snapshot \<Rightarrow> boundary_error + fingerprint list option" where
  "root_files sha v r = (case fv_strict v (rs_path r) of
     Missing \<Rightarrow> Inr None
   | Denied \<Rightarrow> Inl UncaughtOSError
   | Found canonical \<Rightarrow>
       if fv_lstat v (rs_path r) = Found SymbolicLink \<or> \<not> fv_is_dir v canonical then Inr None
       else bindR (scan_entries (scan_candidate sha v canonical (rs_id r)) (walk_names canonical (fv_entries v canonical)))
         (\<lambda>fs. Inr (Some (sort_key fp_path fs))))"

section \<open>The snapshot\<close>

record source_snapshot =
  ss_id :: string
  ss_root :: string
  ss_path :: string
  ss_device :: int
  ss_inode :: int
  ss_size :: int
  ss_mtime :: int
  ss_state :: string
  ss_record :: "string option"

record job_snapshot =
  js_id :: string
  js_source :: "string option"
  js_record :: "string option"
  js_kind :: string
  js_state :: string

record snapshot =
  sn_roots :: "root_snapshot list"
  sn_sources :: "source_snapshot list"
  sn_locations :: "location_row list"
  sn_jobs :: "job_snapshot list"
  sn_published :: "string list"
  sn_refreshing :: "string list"

definition source_seen :: "source_row \<Rightarrow> source_snapshot" where
  "source_seen x = \<lparr>ss_id = sr_id x, ss_root = sr_root x, ss_path = sr_path x, ss_device = sr_device x,
     ss_inode = sr_inode x, ss_size = sr_size x, ss_mtime = sr_mtime x, ss_state = sr_state x, ss_record = sr_record x\<rparr>"

definition job_seen :: "job \<Rightarrow> job_snapshot" where
  "job_seen j = \<lparr>js_id = job_id j, js_source = source_id j, js_record = library_record_id j, js_kind = job_kind j,
     js_state = job_state j\<rparr>"

definition load_reconciliation_snapshot :: "rdb \<Rightarrow> snapshot" where
  "load_reconciliation_snapshot d = \<lparr>
     sn_roots = map (\<lambda>r. \<lparr>rs_id = rt_id r, rs_path = rt_path r\<rparr>) (filter rt_enabled (rd_roots d)),
     sn_sources = map source_seen (rd_sources d),
     sn_locations = sort_key lo_id (rd_locations d),
     sn_jobs = map job_seen (sort_key job_id (rd_jobs d)),
     sn_published = List.map_filter pb_source (filter (\<lambda>p. pb_state p = ''current'') (rd_pubs d)),
     sn_refreshing = List.map_filter library_record_id
       (filter (\<lambda>j. job_kind j = ''selection_refresh'' \<and> is_active j) (rd_jobs d))\<rparr>"

section \<open>The plan\<close>

type_synonym file_identity = "int \<times> int \<times> int"

definition file_identity :: "fingerprint \<Rightarrow> file_identity" where
  "file_identity f = (fp_inode f, fp_size f, fp_mtime f)"

definition source_identity :: "source_snapshot \<Rightarrow> file_identity" where
  "source_identity x = (ss_inode x, ss_size x, ss_mtime x)"

definition identity_key :: "fingerprint \<Rightarrow> string" where
  "identity_key f = json_int (fp_inode f) @ '':'' @ json_int (fp_size f) @ '':'' @ json_int (fp_mtime f)"

definition scan_source_id :: "(string \<Rightarrow> string) \<Rightarrow> fingerprint \<Rightarrow> string" where
  "scan_source_id sha f = sha (identity_key f)"

definition inventory_state :: "string \<Rightarrow> string" where
  "inventory_state p = ''needs_review''"

text \<open>A dictionary filled with \<open>setdefault\<close> keeps the first value of a key, a comprehension the last.\<close>

definition source_by_identity :: "snapshot \<Rightarrow> file_identity \<Rightarrow> source_snapshot option" where
  "source_by_identity sn i = find (\<lambda>x. source_identity x = i)
     (sort_key (\<lambda>x. (ss_state x \<in> {''replaced'', ''disappeared''}, ss_id x)) (sn_sources sn))"

definition source_by_id :: "snapshot \<Rightarrow> string \<Rightarrow> source_snapshot option" where
  "source_by_id sn s = find (\<lambda>x. ss_id x = s) (rev (sn_sources sn))"

definition fallback_location :: "source_snapshot \<Rightarrow> location_row" where
  "fallback_location x = \<lparr>lo_id = 0, lo_source = ss_id x, lo_root = ss_root x, lo_path = ss_path x\<rparr>"

definition fallback_locations :: "snapshot \<Rightarrow> location_row list" where
  "fallback_locations sn = map fallback_location
     (filter (\<lambda>x. ss_id x \<notin> lo_source ` set (sn_locations sn)) (sn_sources sn))"

definition location_by_path :: "(string \<Rightarrow> string) \<Rightarrow> snapshot \<Rightarrow> string \<Rightarrow> string \<Rightarrow> location_row option" where
  "location_by_path res sn r p =
     (case find (\<lambda>l. lo_root l = r \<and> res (lo_path l) = p) (rev (sn_locations sn)) of
        Some l \<Rightarrow> Some l
      | None \<Rightarrow> find (\<lambda>l. lo_root l = r \<and> res (lo_path l) = p) (fallback_locations sn))"

definition locations_by_source :: "snapshot \<Rightarrow> string \<Rightarrow> location_row list" where
  "locations_by_source sn s = (case filter (\<lambda>l. lo_source l = s) (sn_locations sn) of
     [] \<Rightarrow> filter (\<lambda>l. lo_source l = s) (fallback_locations sn) | ls \<Rightarrow> ls)"

definition scan_job_states :: "snapshot \<Rightarrow> string \<rightharpoonup> string" where
  "scan_job_states sn = fold (\<lambda>j m. case js_source j of
       Some s \<Rightarrow> if js_kind j = ''filesystem_scan'' then m(s \<mapsto> js_state j) else m | None \<Rightarrow> m) (sn_jobs sn) Map.empty"

record new_source =
  ns_id :: string
  ns_record :: string
  ns_root :: string
  ns_fingerprint :: fingerprint
  ns_state :: string

record plan_state =
  ps_jobs :: "string \<rightharpoonup> string"
  ps_new_sources :: "new_source list"
  ps_updates :: "(string \<times> string \<times> string \<times> int) list"
  ps_new_locations :: "(string \<times> string \<times> string) list"
  ps_deleted_locations :: "int list"
  ps_reappeared :: "(string \<times> string) list"
  ps_replacements :: "(string \<times> string \<times> string) list"
  ps_inserts :: "string list"
  ps_reactivations :: "string list"
  ps_refresh :: "string list"
  ps_added :: nat
  ps_changed :: nat
  ps_moved :: nat
  ps_queued :: nat
  ps_seen :: "string list"

definition plan_enqueue :: "string \<Rightarrow> plan_state \<Rightarrow> plan_state" where
  "plan_enqueue s ps = (case ps_jobs ps s of
     None \<Rightarrow> ps\<lparr>ps_inserts := ps_inserts ps @ [s], ps_jobs := (ps_jobs ps)(s \<mapsto> ''queued''), ps_queued := ps_queued ps + 1\<rparr>
   | Some st \<Rightarrow> if st \<in> {''quarantined'', ''blocked_infrastructure''}
       then ps\<lparr>ps_reactivations := ps_reactivations ps @ [s], ps_jobs := (ps_jobs ps)(s \<mapsto> ''queued''),
         ps_queued := ps_queued ps + 1\<rparr>
       else ps)"

text \<open>\<open>sources_by_id[location.source_id]\<close> raises if the location's source was not read; so may the scan of
  a root.\<close>

datatype plan_error = PlanKeyError string | PlanOSError

fun path_sources :: "(string \<Rightarrow> string) \<Rightarrow> snapshot \<Rightarrow> fingerprint list \<Rightarrow> plan_error + source_snapshot list" where
  "path_sources res sn [] = Inr []"
| "path_sources res sn (f # fs) = (case location_by_path res sn (fp_root f) (fp_path f) of
     None \<Rightarrow> path_sources res sn fs
   | Some l \<Rightarrow> (case source_by_id sn (lo_source l) of
       None \<Rightarrow> Inl (PlanKeyError (lo_source l))
     | Some x \<Rightarrow> bindR (path_sources res sn fs) (\<lambda>xs. Inr (x # xs))))"

text \<open>\<open>uuid\<close> gives the text of the new record's \<open>uuid4\<close> for the new source.\<close>

record plan_env =
  pe_sha :: "string \<Rightarrow> string"
  pe_resolve :: "string \<Rightarrow> string"
  pe_uuid :: "string \<Rightarrow> string"

definition introduce_source :: "plan_env \<Rightarrow> fingerprint \<Rightarrow> source_snapshot list \<Rightarrow> plan_state \<Rightarrow> plan_state" where
  "introduce_source env f known ps =
     (let path_source = (case known of [] \<Rightarrow> None | x # _ \<Rightarrow> Some x);
          rec = (case path_source of None \<Rightarrow> None | Some x \<Rightarrow> ss_record x);
          sid = scan_source_id (pe_sha env) f;
          ps = ps\<lparr>ps_new_sources := ps_new_sources ps @ [\<lparr>ns_id = sid,
            ns_record = (case rec of Some r \<Rightarrow> if r = [] then ''record-'' @ pe_uuid env sid else r | None \<Rightarrow> ''record-'' @ pe_uuid env sid),
            ns_root = fp_root f, ns_fingerprint = f, ns_state = inventory_state (fp_path f)\<rparr>]\<rparr>
      in case path_source of
           None \<Rightarrow> ps\<lparr>ps_added := ps_added ps + 1\<rparr>
         | Some x \<Rightarrow> (let ps = ps\<lparr>ps_changed := ps_changed ps + 1\<rparr> in
             case rec of None \<Rightarrow> ps
             | Some r \<Rightarrow> ps\<lparr>ps_replacements := ps_replacements ps @ [(ss_id x, sid, r)], ps_refresh := ps_refresh ps @ [r]\<rparr>))"

definition recognise_source :: "snapshot \<Rightarrow> fingerprint list \<Rightarrow> source_snapshot \<Rightarrow> plan_state \<Rightarrow> plan_state" where
  "recognise_source sn hits x ps =
     (let old_paths = map (\<lambda>l. (lo_root l, lo_path l)) (locations_by_source sn (ss_id x));
          observed = map (\<lambda>f. (fp_root f, fp_path f)) hits;
          ps = (if old_paths \<noteq> [] \<and> set old_paths \<inter> set observed = {} then ps\<lparr>ps_moved := ps_moved ps + 1\<rparr> else ps)
      in if ss_state x = ''disappeared''
         then (case ss_record x of Some r \<Rightarrow> ps\<lparr>ps_reappeared := ps_reappeared ps @ [(ss_id x, r)]\<rparr> | None \<Rightarrow> ps)
         else ps)"

definition claim_file :: "plan_env \<Rightarrow> snapshot \<Rightarrow> string \<Rightarrow> fingerprint \<Rightarrow> plan_state \<Rightarrow> plan_state" where
  "claim_file env sn owner f ps =
     (case location_by_path (pe_resolve env) sn (fp_root f) (fp_path f) of
        None \<Rightarrow> ps\<lparr>ps_new_locations := ps_new_locations ps @ [(owner, fp_root f, fp_path f)]\<rparr>
      | Some l \<Rightarrow> if lo_source l \<noteq> owner
          then ps\<lparr>ps_deleted_locations := ps_deleted_locations ps @ [lo_id l],
            ps_new_locations := ps_new_locations ps @ [(owner, fp_root f, fp_path f)]\<rparr>
          else ps)"

definition plan_group :: "plan_env \<Rightarrow> snapshot \<Rightarrow> fingerprint list \<Rightarrow> plan_state \<Rightarrow> plan_error + plan_state" where
  "plan_group env sn identity_files ps =
     (let hits = sort_key (\<lambda>f. (fp_root f, fp_path f)) identity_files; canonical = hd hits in
      bindR (path_sources (pe_resolve env) sn hits) (\<lambda>known.
        (let (owner, ps) = (case source_by_identity sn (file_identity canonical) of
               None \<Rightarrow> (scan_source_id (pe_sha env) canonical, introduce_source env canonical known ps)
             | Some x \<Rightarrow> (ss_id x, recognise_source sn hits x ps));
             ps = ps\<lparr>ps_seen := ps_seen ps @ [owner],
               ps_updates := ps_updates ps @ [(owner, fp_root canonical, fp_path canonical, fp_device canonical)]\<rparr>
         in Inr (plan_enqueue owner (fold (claim_file env sn owner) hits ps)))))"

fun plan_groups :: "plan_env \<Rightarrow> snapshot \<Rightarrow> fingerprint list list \<Rightarrow> plan_state \<Rightarrow> plan_error + plan_state" where
  "plan_groups env sn [] ps = Inr ps"
| "plan_groups env sn (g # gs) ps = bindR (plan_group env sn g ps) (plan_groups env sn gs)"

definition files_by_identity :: "fingerprint list \<Rightarrow> fingerprint list list" where
  "files_by_identity fs = map (\<lambda>i. filter (\<lambda>f. file_identity f = i) fs) (rev (remdups (rev (map file_identity fs))))"

record scan_result =
  sc_added :: int
  sc_changed :: int
  sc_removed :: int
  sc_moved :: int
  sc_unchanged :: int
  sc_queued_jobs :: int

record plan =
  pl_result :: scan_result
  pl_scanned :: "string list"
  pl_unavailable :: "string list"
  pl_new_sources :: "new_source list"
  pl_updates :: "(string \<times> string \<times> string \<times> int) list"
  pl_new_locations :: "(string \<times> string \<times> string) list"
  pl_deleted_locations :: "int list"
  pl_reappeared :: "(string \<times> string) list"
  pl_replacements :: "(string \<times> string \<times> string) list"
  pl_disappeared :: "(string \<times> string) list"
  pl_deleted_sources :: "string list"
  pl_deleted_jobs :: "string list"
  pl_inserts :: "string list"
  pl_reactivations :: "string list"
  pl_refresh :: "string list"

definition initial_plan_state :: "snapshot \<Rightarrow> plan_state" where
  "initial_plan_state sn = \<lparr>ps_jobs = scan_job_states sn, ps_new_sources = [], ps_updates = [], ps_new_locations = [],
     ps_deleted_locations = [], ps_reappeared = [], ps_replacements = [], ps_inserts = [], ps_reactivations = [],
     ps_refresh = [], ps_added = 0, ps_changed = 0, ps_moved = 0, ps_queued = 0, ps_seen = []\<rparr>"

text \<open>The loop over the roots; \<open>scan\<close> is \<open>_root_files\<close>, what the scan of each root finds.\<close>

fun scan_roots :: "(root_snapshot \<Rightarrow> boundary_error + fingerprint list option) \<Rightarrow> root_snapshot list
    \<Rightarrow> boundary_error + string list \<times> string list \<times> fingerprint list" where
  "scan_roots scan [] = Inr ([], [], [])"
| "scan_roots scan (r # rs) = bindR (scan r) (\<lambda>found. bindR (scan_roots scan rs) (\<lambda>(scanned, unavailable, fs).
     case found of
       None \<Rightarrow> Inr (scanned, rs_id r # unavailable, fs)
     | Some xs \<Rightarrow> Inr (rs_id r # scanned, unavailable, xs @ fs)))"

definition missing_locations :: "plan_env \<Rightarrow> snapshot \<Rightarrow> string list \<Rightarrow> fingerprint list \<Rightarrow> int list" where
  "missing_locations env sn scanned found = map lo_id (filter (\<lambda>l. lo_root l \<in> set scanned
     \<and> (lo_root l, pe_resolve env (lo_path l)) \<notin> (\<lambda>f. (fp_root f, fp_path f)) ` set found) (sn_locations sn))"

definition deleted_locations :: "plan_env \<Rightarrow> snapshot \<Rightarrow> string list \<Rightarrow> fingerprint list \<Rightarrow> plan_state \<Rightarrow> int list" where
  "deleted_locations env sn scanned found ps = ps_deleted_locations ps @ missing_locations env sn scanned found"

definition live_sources :: "snapshot \<Rightarrow> int list \<Rightarrow> plan_state \<Rightarrow> string list" where
  "live_sources sn deleted ps =
     map lo_source (filter (\<lambda>l. lo_id l \<notin> set deleted) (sn_locations sn)) @ map fst (ps_new_locations ps)"

definition gone_sources :: "snapshot \<Rightarrow> string list \<Rightarrow> plan_state \<Rightarrow> source_snapshot list" where
  "gone_sources sn live ps = filter (\<lambda>x. \<not> (ss_id x \<in> set live \<or> ss_id x \<in> set (ps_seen ps))) (sn_sources sn)"

definition finish_plan :: "plan_env \<Rightarrow> snapshot \<Rightarrow> string list \<Rightarrow> string list \<Rightarrow> fingerprint list \<Rightarrow> plan_state \<Rightarrow> plan" where
  "finish_plan env sn scanned unavailable found ps =
     (let deleted = deleted_locations env sn scanned found ps;
          live = live_sources sn deleted ps;
          replacements = filter (\<lambda>(old, _). old \<notin> set live) (ps_replacements ps);
          gone = gone_sources sn live ps;
          removed = filter (\<lambda>x. ss_id x \<notin> fst ` set replacements) gone;
          refresh = filter (\<lambda>r. r \<notin> set (sn_refreshing sn)) (ps_refresh ps @ List.map_filter ss_record gone);
          observed = int (ps_added ps + ps_changed ps + ps_moved ps)
      in \<lparr>pl_result = \<lparr>sc_added = int (ps_added ps), sc_changed = int (ps_changed ps), sc_removed = int (length removed),
             sc_moved = int (ps_moved ps), sc_unchanged = int (length found) - observed, sc_queued_jobs = int (ps_queued ps)\<rparr>,
           pl_scanned = scanned, pl_unavailable = unavailable, pl_new_sources = ps_new_sources ps,
           pl_updates = ps_updates ps, pl_new_locations = ps_new_locations ps,
           pl_deleted_locations = sort (remdups deleted), pl_reappeared = ps_reappeared ps,
           pl_replacements = replacements, pl_disappeared = [], pl_deleted_sources = map ss_id gone,
           pl_deleted_jobs = map js_id (filter (\<lambda>j. ref_in (js_source j) (ss_id ` set gone)) (sn_jobs sn)),
           pl_inserts = ps_inserts ps, pl_reactivations = ps_reactivations ps,
           pl_refresh = sort (remdups refresh)\<rparr>)"

definition plan_reconciliation :: "plan_env \<Rightarrow> (root_snapshot \<Rightarrow> boundary_error + fingerprint list option) \<Rightarrow> snapshot
    \<Rightarrow> plan_error + plan" where
  "plan_reconciliation env scan sn =
     (case scan_roots scan (sn_roots sn) of
        Inl e \<Rightarrow> Inl PlanOSError
      | Inr (scanned, unavailable, found) \<Rightarrow>
          bindR (plan_groups env sn (files_by_identity found) (initial_plan_state sn))
            (\<lambda>ps. Inr (finish_plan env sn scanned unavailable found ps)))"

section \<open>Applying the plan\<close>

text \<open>A statement of the session is one step against the tables, a batch of parameter sets included.\<close>

definition mark_roots :: "string list \<Rightarrow> string list \<Rightarrow> timestamp \<Rightarrow> rdb \<Rightarrow> rdb" where
  "mark_roots scanned unavailable now d = d\<lparr>rd_roots := map (\<lambda>r.
     if rt_id r \<in> set unavailable then r\<lparr>rt_state := ''unavailable'', rt_updated := now\<rparr>
     else if rt_id r \<in> set scanned then r\<lparr>rt_state := ''scanned'', rt_updated := now\<rparr> else r) (rd_roots d)\<rparr>"

definition new_record_row :: "timestamp \<Rightarrow> string \<Rightarrow> record_row" where
  "new_record_row now r = \<lparr>rr_id = r, rr_source_state = ''present'', rr_processing = ''queued'', rr_lyrics_publication = None,
     rr_created = now, rr_updated = now\<rparr>"

definition insert_records :: "new_source list \<Rightarrow> timestamp \<Rightarrow> rdb \<Rightarrow> rdb" where
  "insert_records news now d = d\<lparr>rd_records := rd_records d @ map (new_record_row now)
     (sort (filter (\<lambda>r. r \<notin> record_ids d) (remdups (map ns_record news))))\<rparr>"

definition new_source_row :: "new_source \<Rightarrow> source_row" where
  "new_source_row n = (let f = ns_fingerprint n in \<lparr>sr_id = ns_id n, sr_key = identity_key f, sr_root = ns_root n,
     sr_path = fp_path f, sr_device = fp_device f, sr_inode = fp_inode f, sr_size = fp_size f, sr_mtime = fp_mtime f,
     sr_sha256 = fp_sha256 f, sr_origin = ''manual'', sr_state = ns_state n, sr_record = Some (ns_record n),
     sr_replaced_by = None, sr_disappeared = None\<rparr>)"

definition insert_sources :: "new_source list \<Rightarrow> rdb \<Rightarrow> rdb" where
  "insert_sources news d = d\<lparr>rd_sources := rd_sources d @ map new_source_row news\<rparr>"

definition delete_locations :: "int list \<Rightarrow> rdb \<Rightarrow> rdb" where
  "delete_locations ls d = d\<lparr>rd_locations := filter (\<lambda>l. lo_id l \<notin> set ls) (rd_locations d)\<rparr>"

definition update_source_path :: "string \<times> string \<times> string \<times> int \<Rightarrow> rdb \<Rightarrow> rdb" where
  "update_source_path u d = (case u of (s, r, p, dev) \<Rightarrow> d\<lparr>rd_sources := map (\<lambda>x. if sr_id x = s
     then x\<lparr>sr_root := r, sr_path := p, sr_device := dev\<rparr> else x) (rd_sources d)\<rparr>)"

definition fresh_location_id :: "rdb \<Rightarrow> int" where
  "fresh_location_id d = fold max (map lo_id (rd_locations d)) 0 + 1"

definition insert_location :: "string \<times> string \<times> string \<Rightarrow> rdb \<Rightarrow> rdb" where
  "insert_location u d = (case u of (s, r, p) \<Rightarrow> d\<lparr>rd_locations := rd_locations d
     @ [\<lparr>lo_id = fresh_location_id d, lo_source = s, lo_root = r, lo_path = p\<rparr>]\<rparr>)"

definition reappear_sources :: "string set \<Rightarrow> rdb \<Rightarrow> rdb" where
  "reappear_sources ss d = d\<lparr>rd_sources := map (\<lambda>x. if sr_id x \<in> ss
     then x\<lparr>sr_state := ''needs_review'', sr_disappeared := None\<rparr> else x) (rd_sources d)\<rparr>"

definition set_record_state :: "string \<Rightarrow> string set \<Rightarrow> timestamp \<Rightarrow> rdb \<Rightarrow> rdb" where
  "set_record_state st rs now d = d\<lparr>rd_records := map (\<lambda>x. if rr_id x \<in> rs
     then x\<lparr>rr_source_state := st, rr_updated := now\<rparr> else x) (rd_records d)\<rparr>"

definition retire_sources :: "string \<Rightarrow> string set \<Rightarrow> timestamp \<Rightarrow> rdb \<Rightarrow> rdb" where
  "retire_sources st ss now d = d\<lparr>rd_sources := map (\<lambda>x. if sr_id x \<in> ss
     then x\<lparr>sr_state := st, sr_disappeared := Some now\<rparr> else x) (rd_sources d)\<rparr>"

definition link_replacement :: "string \<times> string \<times> string \<Rightarrow> rdb \<Rightarrow> rdb" where
  "link_replacement u d = (case u of (old, new, _) \<Rightarrow> d\<lparr>rd_sources := map (\<lambda>x. if sr_id x = old
     then x\<lparr>sr_replaced_by := Some new\<rparr> else x) (rd_sources d)\<rparr>)"

definition set_job_state :: "string \<Rightarrow> string set \<Rightarrow> string set \<Rightarrow> rdb \<Rightarrow> rdb" where
  "set_job_state st old ss d = d\<lparr>rd_jobs := map (\<lambda>j. if ref_in (source_id j) ss \<and> job_state j \<in> old
     then j\<lparr>job_state := st, next_attempt_at := None\<rparr> else j) (rd_jobs d)\<rparr>"

definition scan_job :: "timestamp \<Rightarrow> string \<Rightarrow> job" where
  "scan_job now s = (new_job (''filesystem-'' @ s) ''filesystem_scan'' now)\<lparr>source_id := Some s\<rparr>"

definition refresh_job :: "(string \<Rightarrow> string) \<Rightarrow> timestamp \<Rightarrow> string \<Rightarrow> job" where
  "refresh_job uuids now r =
     (new_job (''selection_refresh-'' @ uuids r) ''selection_refresh'' now)\<lparr>library_record_id := Some r\<rparr>"

definition insert_jobs :: "job list \<Rightarrow> rdb \<Rightarrow> rdb" where
  "insert_jobs js d = d\<lparr>rd_jobs := rd_jobs d @ js\<rparr>"

definition when_any :: "'a list \<Rightarrow> (rdb \<Rightarrow> rdb) list \<Rightarrow> (rdb \<Rightarrow> rdb) list" where
  "when_any xs fs = (if xs = [] then [] else fs)"

definition disappearance :: "timestamp \<Rightarrow> string \<times> string \<Rightarrow> event" where
  "disappearance now u = disappeared_event (snd u) (fst u) ''queued'' now"

definition before_deletion :: "plan \<Rightarrow> timestamp \<Rightarrow> (rdb \<Rightarrow> rdb) list" where
  "before_deletion p now =
     when_any (pl_scanned p @ pl_unavailable p) [mark_roots (pl_scanned p) (pl_unavailable p) now]
     @ [insert_records (pl_new_sources p) now]
     @ when_any (pl_new_sources p) [insert_sources (pl_new_sources p)]
     @ when_any (pl_deleted_locations p) [delete_locations (pl_deleted_locations p)]
     @ [fold update_source_path (filter (\<lambda>u. fst u \<notin> ns_id ` set (pl_new_sources p)) (pl_updates p))]
     @ when_any (pl_new_locations p) [fold insert_location (pl_new_locations p)]
     @ when_any (pl_reappeared p) [reappear_sources (fst ` set (pl_reappeared p)),
         set_record_state ''present'' (snd ` set (pl_reappeared p)) now]
     @ when_any (pl_replacements p) [retire_sources ''replaced'' (fst ` set (pl_replacements p)) now,
         fold link_replacement (pl_replacements p),
         set_job_state ''superseded'' {''queued'', ''running''} (fst ` set (pl_replacements p))]
     @ when_any (pl_disappeared p) [retire_sources ''disappeared'' (fst ` set (pl_disappeared p)) now,
         set_record_state ''disappeared'' (snd ` set (pl_disappeared p)) now,
         \<lambda>d. d\<lparr>rd_events := rd_events d @ map (disappearance now) (pl_disappeared p)\<rparr>]"

definition after_deletion :: "(string \<Rightarrow> string) \<Rightarrow> plan \<Rightarrow> timestamp \<Rightarrow> (rdb \<Rightarrow> rdb) list" where
  "after_deletion uuids p now =
     when_any (pl_reactivations p)
       [set_job_state ''queued'' {''quarantined'', ''blocked_infrastructure''} (set (pl_reactivations p))]
     @ when_any (pl_inserts p) [insert_jobs (map (scan_job now) (pl_inserts p))]
     @ when_any (pl_refresh p) [insert_jobs (map (refresh_job uuids now) (pl_refresh p))]"

definition apply_reconciliation_plan :: "(string \<Rightarrow> string) \<Rightarrow> plan \<Rightarrow> timestamp \<Rightarrow> rdb \<Rightarrow> db_error + scan_result \<times> rdb" where
  "apply_reconciliation_plan uuids p now d =
     bindR (execute_all (before_deletion p now) d) (\<lambda>d.
     bindR (delete_source_records (pl_deleted_sources p) (pl_deleted_jobs p) d) (\<lambda>d.
     bindR (execute_all (after_deletion uuids p now) d) (\<lambda>d. Inr (pl_result p, d))))"

text \<open>The job handler: a plan that raises or a refused statement fails the job.\<close>

datatype scan_failure = ScanKeyError string | ScanIntegrityError | ScanOSError

definition reconcile_roots ::
  "plan_env \<Rightarrow> (string \<Rightarrow> string) \<Rightarrow> file_view \<Rightarrow> timestamp \<Rightarrow> rdb \<Rightarrow> scan_failure + scan_result \<times> rdb" where
  "reconcile_roots env uuids v now d =
     (case plan_reconciliation env (root_files (pe_sha env) v) (load_reconciliation_snapshot d) of
        Inl (PlanKeyError s) \<Rightarrow> Inl (ScanKeyError s)
      | Inl PlanOSError \<Rightarrow> Inl ScanOSError
      | Inr p \<Rightarrow> (case apply_reconciliation_plan uuids p now d of
          Inl _ \<Rightarrow> Inl ScanIntegrityError
        | Inr r \<Rightarrow> Inr r))"

section \<open>What the statements do to sources and locations\<close>

definition location_facts :: "rdb \<Rightarrow> (string \<times> string \<times> string) set" where
  "location_facts d = (\<lambda>l. (lo_source l, lo_root l, lo_path l)) ` set (rd_locations d)"

definition source_facts :: "rdb \<Rightarrow> (string \<times> file_identity) set" where
  "source_facts d = (\<lambda>x. (sr_id x, sr_inode x, sr_size x, sr_mtime x)) ` set (rd_sources d)"

lemma execute_all_Inr: "execute_all fs d = Inr d' \<Longrightarrow> d' = fold (\<lambda>f. f) fs d"
  by (induction fs arbitrary: d) (auto simp: execute_def bindR_Inr_iff split: if_splits)

named_theorems scan_effects \<comment> \<open>what a statement does to sources and locations\<close>

lemma locations_kept [scan_effects]:
  "rd_locations (mark_roots a b now d) = rd_locations d" "rd_locations (insert_records news now d) = rd_locations d"
  "rd_locations (insert_sources news d) = rd_locations d" "rd_locations (reappear_sources ss d) = rd_locations d"
  "rd_locations (set_record_state st rs now d) = rd_locations d" "rd_locations (retire_sources st ss now d) = rd_locations d"
  "rd_locations (set_job_state st old ss d) = rd_locations d" "rd_locations (insert_jobs js d) = rd_locations d"
  "rd_locations (link_replacement u d) = rd_locations d" "rd_locations (update_source_path w d) = rd_locations d"
  "rd_locations (delete_locations ls d) = filter (\<lambda>l. lo_id l \<notin> set ls) (rd_locations d)"
  by (simp_all add: mark_roots_def insert_records_def insert_sources_def reappear_sources_def set_record_state_def
      retire_sources_def set_job_state_def insert_jobs_def link_replacement_def update_source_path_def delete_locations_def
      split: prod.split)

lemma sources_kept [scan_effects]:
  "source_facts (mark_roots a b now d) = source_facts d" "source_facts (insert_records news now d) = source_facts d"
  "source_facts (set_record_state st rs now d) = source_facts d" "source_facts (set_job_state st old ss d) = source_facts d"
  "source_facts (insert_jobs js d) = source_facts d" "source_facts (delete_locations ls d) = source_facts d"
  "source_facts (insert_location l d) = source_facts d"
  by (simp_all add: source_facts_def mark_roots_def insert_records_def set_record_state_def set_job_state_def
      insert_jobs_def delete_locations_def insert_location_def split: prod.split)

lemma source_facts_map:
  assumes "\<And>x. sr_id (f x) = sr_id x \<and> sr_inode (f x) = sr_inode x \<and> sr_size (f x) = sr_size x \<and> sr_mtime (f x) = sr_mtime x"
  shows "source_facts (d\<lparr>rd_sources := map f (rd_sources d)\<rparr>) = source_facts d"
  using assms by (simp add: source_facts_def image_image)

lemma source_update_kept [scan_effects]:
  "source_facts (reappear_sources ss d) = source_facts d" "source_facts (retire_sources st ss now d) = source_facts d"
  "source_facts (link_replacement u d) = source_facts d" "source_facts (update_source_path w d) = source_facts d"
  unfolding reappear_sources_def retire_sources_def link_replacement_def update_source_path_def
  by (auto intro!: source_facts_map split: prod.split)

lemma source_facts_insert [scan_effects]:
  "source_facts (insert_sources news d) = source_facts d \<union> (\<lambda>n. (ns_id n, file_identity (ns_fingerprint n))) ` set news"
  by (auto simp: source_facts_def insert_sources_def new_source_row_def file_identity_def Let_def image_Un image_image)

lemma fold_links_kept [scan_effects]:
  "rd_locations (fold link_replacement us d) = rd_locations d" "source_facts (fold link_replacement us d) = source_facts d"
  by (induction us arbitrary: d) (simp_all add: scan_effects)

lemma fold_paths_kept [scan_effects]:
  "rd_locations (fold update_source_path ws d) = rd_locations d" "source_facts (fold update_source_path ws d) = source_facts d"
  by (induction ws arbitrary: d) (simp_all add: scan_effects)

lemma fold_insert_sources [scan_effects]: "source_facts (fold insert_location ls d) = source_facts d"
  by (induction ls arbitrary: d) (simp_all add: scan_effects)

lemma location_facts_insert [scan_effects]:
  "location_facts (fold insert_location ls d) = location_facts d \<union> set ls"
  by (induction ls arbitrary: d) (auto simp: location_facts_def insert_location_def)

lemma fold_when_any: "fold (\<lambda>f. f) (when_any xs fs) d = (if xs = [] then d else fold (\<lambda>f. f) fs d)"
  by (simp add: when_any_def)

lemma location_facts_cong: "rd_locations d = rd_locations e \<Longrightarrow> location_facts d = location_facts e"
  by (simp add: location_facts_def)

lemma before_deletion_sources:
  "source_facts (fold (\<lambda>f. f) (before_deletion p now) d) =
     source_facts d \<union> (\<lambda>n. (ns_id n, file_identity (ns_fingerprint n))) ` set (pl_new_sources p)"
proof -
  have e: "source_facts (d\<lparr>rd_events := ev\<rparr>) = source_facts d" for d :: rdb and ev by (simp add: source_facts_def)
  show ?thesis by (simp add: before_deletion_def fold_when_any scan_effects e)
qed

lemma before_deletion_locations:
  "location_facts (fold (\<lambda>f. f) (before_deletion p now) d) =
     (\<lambda>l. (lo_source l, lo_root l, lo_path l)) ` {l \<in> set (rd_locations d). lo_id l \<notin> set (pl_deleted_locations p)}
       \<union> set (pl_new_locations p)"
proof -
  have keep: "location_facts (f d) = location_facts d" if "\<And>d. rd_locations (f d) = rd_locations d" for f d
    by (rule location_facts_cong) (rule that)
  have i: "location_facts (fold insert_location ls e) = (\<lambda>l. (lo_source l, lo_root l, lo_path l)) ` set (rd_locations e) \<union> set ls" for ls e
    by (simp add: location_facts_insert) (simp add: location_facts_def)
  have n: "location_facts e = (\<lambda>l. (lo_source l, lo_root l, lo_path l)) ` set (rd_locations e)" for e
    by (simp add: location_facts_def)
  show ?thesis
    by (cases "pl_new_locations p = []")
      (simp_all add: before_deletion_def fold_when_any keep scan_effects i, simp_all add: n scan_effects)
qed

lemma delete_source_records_effects:
  assumes "delete_source_records sids jids d = Inr d'"
  shows "source_facts d' = {x \<in> source_facts d. fst x \<notin> set sids}"
    "location_facts d' = {x \<in> location_facts d. fst x \<notin> set sids}"
proof -
  let ?f = "fold (\<lambda>f. f)"
  have "source_facts d' = {x \<in> source_facts d. fst x \<notin> set sids} \<and> location_facts d' = {x \<in> location_facts d. fst x \<notin> set sids}"
  proof (cases "sids = []")
    case True
    then show ?thesis using assms by (simp add: delete_source_records_def)
  next
    case False
    let ?ids = "set sids"
    from assms False obtain d1 d2 d3 where s: "execute_all (before_jobs ?ids) d = Inr d1"
      "(if jids = [] then Inr d1 else execute_all (forget_job_rows (set jids)) d1) = Inr d2"
      "delete_jobs (\<lambda>j. ref_in (source_id j) ?ids) d2 = Inr d3" "execute_all (after_jobs ?ids) d3 = Inr d'"
      by (auto simp: delete_source_records_def Let_def bindR_Inr_iff)
    have 3: "rd_sources d3 = rd_sources d" "rd_locations d3 = rd_locations d"
  proof -
      have 1: "rd_sources d1 = rd_sources d" "rd_locations d1 = rd_locations d"
        unfolding execute_all_Inr [OF s(1)] by (simp_all add: before_jobs_def)
      have 2: "rd_sources d2 = rd_sources d1 \<and> rd_locations d2 = rd_locations d1"
      proof (cases "jids = []")
        case False
        then have "execute_all (forget_job_rows (set jids)) d1 = Inr d2" using s(2) by simp
        from execute_all_Inr [OF this] show ?thesis by (simp add: forget_job_rows_def)
      qed (use s(2) in simp)
      have "rd_sources d3 = rd_sources d2 \<and> rd_locations d3 = rd_locations d2"
        using s(3) by (auto simp: delete_jobs_def execute_def split: if_splits)
      then show "rd_sources d3 = rd_sources d" "rd_locations d3 = rd_locations d" using 1 2 by simp_all
    qed
    have 4: "d' = ?f (after_jobs ?ids) d3" by (rule execute_all_Inr [OF s(4)])
    have "rd_locations d' = filter (\<lambda>x. lo_source x \<notin> ?ids) (rd_locations d)"
      "rd_sources d' = filter (\<lambda>x. sr_id x \<notin> ?ids) (map (\<lambda>x. x\<lparr>sr_replaced_by := nulled ?ids (sr_replaced_by x)\<rparr>) (rd_sources d))"
      by (simp_all add: 4 3 after_jobs_def clear_candidates_def clear_sources_def delete_runs_def delete_sources_def
          delete_children_def)
    then show ?thesis by (simp add: source_facts_def location_facts_def filter_map comp_def image_image) auto
  qed
  then show "source_facts d' = {x \<in> source_facts d. fst x \<notin> set sids}"
    "location_facts d' = {x \<in> location_facts d. fst x \<notin> set sids}" by simp_all
qed

section \<open>What the plan contains\<close>

definition identity_text :: "file_identity \<Rightarrow> string" where
  "identity_text i = (case i of (a, b, c) \<Rightarrow> json_int a @ '':'' @ json_int b @ '':'' @ json_int c)"

lemma identity_key_text: "identity_key f = identity_text (file_identity f)"
  by (simp add: identity_key_def identity_text_def file_identity_def)

text \<open>The source a file of that identity belongs to after the scan.\<close>

definition owner_of :: "plan_env \<Rightarrow> snapshot \<Rightarrow> file_identity \<Rightarrow> string" where
  "owner_of env sn i = (case source_by_identity sn i of None \<Rightarrow> pe_sha env (identity_text i) | Some x \<Rightarrow> ss_id x)"

definition claims :: "plan_env \<Rightarrow> snapshot \<Rightarrow> fingerprint \<Rightarrow> bool" where
  "claims env sn f \<longleftrightarrow> (case location_by_path (pe_resolve env) sn (fp_root f) (fp_path f) of
     None \<Rightarrow> True | Some l \<Rightarrow> lo_source l \<noteq> owner_of env sn (file_identity f))"

definition claimed :: "plan_env \<Rightarrow> snapshot \<Rightarrow> fingerprint \<Rightarrow> string \<times> string \<times> string" where
  "claimed env sn f = (owner_of env sn (file_identity f), fp_root f, fp_path f)"

definition overruled :: "plan_env \<Rightarrow> snapshot \<Rightarrow> fingerprint \<Rightarrow> int set" where
  "overruled env sn f = {lo_id l | l. location_by_path (pe_resolve env) sn (fp_root f) (fp_path f) = Some l
     \<and> lo_source l \<noteq> owner_of env sn (file_identity f)}"

text \<open>What the plan has collected for a set of files.\<close>

definition collected :: "plan_env \<Rightarrow> snapshot \<Rightarrow> fingerprint set \<Rightarrow> plan_state \<Rightarrow> plan_state \<Rightarrow> bool" where
  "collected env sn F ps ps' \<longleftrightarrow>
     set (ps_new_locations ps') = set (ps_new_locations ps) \<union> claimed env sn ` {f \<in> F. claims env sn f}
     \<and> set (ps_deleted_locations ps') = set (ps_deleted_locations ps) \<union> (\<Union>f\<in>F. overruled env sn f)
     \<and> set (ps_seen ps') = set (ps_seen ps) \<union> owner_of env sn ` file_identity ` F
     \<and> (\<lambda>n. (ns_id n, file_identity (ns_fingerprint n))) ` set (ps_new_sources ps')
         = (\<lambda>n. (ns_id n, file_identity (ns_fingerprint n))) ` set (ps_new_sources ps)
           \<union> (\<lambda>i. (owner_of env sn i, i)) ` {i \<in> file_identity ` F. source_by_identity sn i = None}"

lemma claim_one:
  assumes "file_identity f = i"
  shows "ps_new_locations (claim_file env sn (owner_of env sn i) f ps)
      = ps_new_locations ps @ (if claims env sn f then [claimed env sn f] else [])"
    "set (ps_deleted_locations (claim_file env sn (owner_of env sn i) f ps)) = set (ps_deleted_locations ps) \<union> overruled env sn f"
    "ps_seen (claim_file env sn (owner_of env sn i) f ps) = ps_seen ps"
    "ps_new_sources (claim_file env sn (owner_of env sn i) f ps) = ps_new_sources ps"
  using assms by (auto simp: claim_file_def claims_def claimed_def overruled_def split: option.splits)

lemma claim_files:
  assumes "\<forall>f\<in>set fs. file_identity f = i"
  shows "ps_new_locations (fold (claim_file env sn (owner_of env sn i)) fs ps)
      = ps_new_locations ps @ map (claimed env sn) (filter (claims env sn) fs)
    \<and> set (ps_deleted_locations (fold (claim_file env sn (owner_of env sn i)) fs ps))
      = set (ps_deleted_locations ps) \<union> (\<Union>f\<in>set fs. overruled env sn f)
    \<and> ps_seen (fold (claim_file env sn (owner_of env sn i)) fs ps) = ps_seen ps
    \<and> ps_new_sources (fold (claim_file env sn (owner_of env sn i)) fs ps) = ps_new_sources ps"
  using assms
proof (induction fs arbitrary: ps)
  case (Cons f fs)
  then have "file_identity f = i" by simp
  note one = claim_one [OF this, of env sn]
  show ?case using Cons by (simp add: one Un_assoc)
qed simp

lemma plan_enqueue_kept [simp]:
  "ps_new_locations (plan_enqueue s ps) = ps_new_locations ps" "ps_deleted_locations (plan_enqueue s ps) = ps_deleted_locations ps"
  "ps_seen (plan_enqueue s ps) = ps_seen ps" "ps_new_sources (plan_enqueue s ps) = ps_new_sources ps"
  by (simp_all add: plan_enqueue_def split: option.split)

lemma introduce_source_kept [simp]:
  "ps_new_locations (introduce_source env f known ps) = ps_new_locations ps"
  "ps_deleted_locations (introduce_source env f known ps) = ps_deleted_locations ps"
  "ps_seen (introduce_source env f known ps) = ps_seen ps"
  by (simp_all add: introduce_source_def Let_def split: option.split list.split)

lemma introduce_source_new:
  "\<exists>n. ps_new_sources (introduce_source env f known ps) = ps_new_sources ps @ [n] \<and> ns_id n = scan_source_id (pe_sha env) f
     \<and> ns_fingerprint n = f"
  by (simp add: introduce_source_def Let_def split: option.split list.split)

lemma recognise_source_kept [simp]:
  "ps_new_locations (recognise_source sn fs x ps) = ps_new_locations ps"
  "ps_deleted_locations (recognise_source sn fs x ps) = ps_deleted_locations ps"
  "ps_seen (recognise_source sn fs x ps) = ps_seen ps" "ps_new_sources (recognise_source sn fs x ps) = ps_new_sources ps"
  by (simp_all add: recognise_source_def Let_def split: option.split)

lemma plan_group_collects:
  assumes "plan_group env sn g ps = Inr ps'" "g \<noteq> []" "\<forall>f\<in>set g. file_identity f = i"
  shows "collected env sn (set g) ps ps'"
proof -
  define fs where "fs = sort_key (\<lambda>f. (fp_root f, fp_path f)) g"
  have fs: "set fs = set g" "fs \<noteq> []" using assms(2) by (simp_all add: fs_def) (metis set_empty set_sort)
  then have hd: "hd fs \<in> set g" using hd_in_set by blast
  then have hi: "file_identity (hd fs) = i" using assms(3) by blast
  have all: "\<forall>f\<in>set fs. file_identity f = i" using assms(3) fs(1) by simp
  have img: "file_identity ` set g = {i}" using assms(2,3) hd hi by auto
  obtain known where k: "path_sources (pe_resolve env) sn fs = Inr known"
    using assms(1) by (auto simp: plan_group_def Let_def fs_def [symmetric] bindR_Inr_iff)
  define ps1 where "ps1 = (case source_by_identity sn i of None \<Rightarrow> introduce_source env (hd fs) known ps
     | Some x \<Rightarrow> recognise_source sn fs x ps)"
  define ps2 where "ps2 = ps1\<lparr>ps_seen := ps_seen ps1 @ [owner_of env sn i],
     ps_updates := ps_updates ps1 @ [(owner_of env sn i, fp_root (hd fs), fp_path (hd fs), fp_device (hd fs))]\<rparr>"
  have o: "(case source_by_identity sn (file_identity (hd fs)) of
       None \<Rightarrow> (scan_source_id (pe_sha env) (hd fs), introduce_source env (hd fs) known ps)
     | Some x \<Rightarrow> (ss_id x, recognise_source sn fs x ps)) = (owner_of env sn i, ps1)"
    by (simp add: ps1_def owner_of_def hi scan_source_id_def identity_key_text split: option.split)
  have p: "ps' = plan_enqueue (owner_of env sn i) (fold (claim_file env sn (owner_of env sn i)) fs ps2)"
    using assms(1) unfolding plan_group_def fs_def [symmetric] Let_def k bindR.simps o ps2_def by simp
  have 1: "ps_new_locations ps2 = ps_new_locations ps" "ps_deleted_locations ps2 = ps_deleted_locations ps"
    "ps_seen ps2 = ps_seen ps @ [owner_of env sn i]"
    by (simp_all add: ps2_def ps1_def split: option.split)
  have n: "(\<lambda>n. (ns_id n, file_identity (ns_fingerprint n))) ` set (ps_new_sources ps2)
      = (\<lambda>n. (ns_id n, file_identity (ns_fingerprint n))) ` set (ps_new_sources ps)
        \<union> (\<lambda>i. (owner_of env sn i, i)) ` {i \<in> file_identity ` set g. source_by_identity sn i = None}"
  proof (cases "source_by_identity sn i")
    case None
    obtain m where "ps_new_sources ps2 = ps_new_sources ps @ [m]" "ns_id m = scan_source_id (pe_sha env) (hd fs)" "ns_fingerprint m = hd fs"
      using introduce_source_new [of env "hd fs" known ps] None by (auto simp: ps2_def ps1_def)
    moreover have "{j \<in> {i}. source_by_identity sn j = None} = {i}" using None by auto
    ultimately show ?thesis using None unfolding img
      by (simp add: owner_of_def hi scan_source_id_def identity_key_text)
  next
    case (Some x)
    then have e: "{j \<in> {i}. source_by_identity sn j = None} = {}" by auto
    show ?thesis unfolding img e using Some by (simp add: ps2_def ps1_def)
  qed
  show ?thesis using claim_files [OF all, of env sn ps2] n
    by (simp add: collected_def p 1 fs(1) img)
qed

lemma collected_trans:
  assumes "collected env sn A ps ps1" "collected env sn B ps1 ps2"
  shows "collected env sn (A \<union> B) ps ps2"
proof -
  have s: "{f \<in> A \<union> B. P f} = {f \<in> A. P f} \<union> {f \<in> B. P f}" for P :: "fingerprint \<Rightarrow> bool" by auto
  have t: "{i \<in> file_identity ` (A \<union> B). P i} = {i \<in> file_identity ` A. P i} \<union> {i \<in> file_identity ` B. P i}" for P by auto
  show ?thesis using assms unfolding collected_def s t by (simp add: image_Un Un_assoc)
qed

lemma plan_groups_collect:
  assumes "plan_groups env sn gs ps = Inr ps'" "\<forall>g\<in>set gs. g \<noteq> [] \<and> (\<exists>i. \<forall>f\<in>set g. file_identity f = i)"
  shows "collected env sn (\<Union>g\<in>set gs. set g) ps ps'"
  using assms
proof (induction gs arbitrary: ps)
  case Nil
  then show ?case by (simp add: collected_def)
next
  case (Cons g gs)
  obtain ps1 where 1: "plan_group env sn g ps = Inr ps1" "plan_groups env sn gs ps1 = Inr ps'"
    using Cons.prems(1) by (auto simp: bindR_Inr_iff)
  obtain i where "\<forall>f\<in>set g. file_identity f = i" "g \<noteq> []" using Cons.prems(2) by auto
  then have "collected env sn (set g) ps ps1" using plan_group_collects [OF 1(1)] by blast
  moreover have "collected env sn (\<Union>g\<in>set gs. set g) ps1 ps'" using Cons.IH [OF 1(2)] Cons.prems(2) by simp
  ultimately show ?case using collected_trans by simp
qed

lemma files_by_identity_groups:
  "\<forall>g\<in>set (files_by_identity fs). g \<noteq> [] \<and> (\<exists>i. \<forall>f\<in>set g. file_identity f = i)"
  "(\<Union>g\<in>set (files_by_identity fs). set g) = set fs"
  by (auto simp: files_by_identity_def filter_empty_conv simp del: split_paired_Ex)

lemma scan_entries_in:
  "scan_entries g es = Inr fs \<Longrightarrow> f \<in> set fs \<Longrightarrow> \<exists>e\<in>set es. g e = Inr (Some f)"
  by (induction es arbitrary: fs) (auto simp: bindR_Inr_iff split: option.splits)

definition status_identity :: "file_view \<Rightarrow> string \<Rightarrow> file_identity" where
  "status_identity v p = (case fv_stat v p of Found (k, st) \<Rightarrow> (st_inode st, st_size st, st_mtime st) | _ \<Rightarrow> (0, 0, 0))"

lemma plain_answer_Inr: "plain_answer a = Inr x \<longleftrightarrow> a = Found x"
  by (cases a) auto

lemma root_files_facts:
  assumes "root_files sha v r = Inr (Some fs)" "f \<in> set fs"
  shows "fp_root f = rs_id r" "file_identity f = status_identity v (fp_path f)"
proof -
  obtain canonical es e where c: "scan_candidate sha v canonical (rs_id r) e = Inr (Some f)"
    using assms by (fastforce simp: root_files_def bindR_Inr_iff dest: scan_entries_in split: os_answer.splits if_splits)
  obtain dn n where "stat_fingerprint sha v (join_path dn n) canonical (rs_id r) = Inr f"
    using c by (auto simp: scan_candidate_def split: prod.splits if_splits sum.splits boundary_error.splits)
  then show "fp_root f = rs_id r" "file_identity f = status_identity v (fp_path f)"
    by (auto simp: stat_fingerprint_def bindR_Inr_iff plain_answer_Inr file_identity_def status_identity_def split: if_splits)
qed

text \<open>What a scan of all the roots finds, where it ends.\<close>

definition scan_found :: "plan_env \<Rightarrow> file_view \<Rightarrow> rdb \<Rightarrow> boundary_error + string list \<times> string list \<times> fingerprint list" where
  "scan_found env v d = scan_roots (root_files (pe_sha env) v) (sn_roots (load_reconciliation_snapshot d))"

definition scanned_roots :: "plan_env \<Rightarrow> file_view \<Rightarrow> rdb \<Rightarrow> string set" where
  "scanned_roots env v d = (case scan_found env v d of Inr (scanned, unavailable, found) \<Rightarrow> set scanned | Inl e \<Rightarrow> {})"

definition scanned_files :: "plan_env \<Rightarrow> file_view \<Rightarrow> rdb \<Rightarrow> fingerprint set" where
  "scanned_files env v d = (case scan_found env v d of Inr (scanned, unavailable, found) \<Rightarrow> set found | Inl e \<Rightarrow> {})"

lemma scan_roots_facts:
  assumes "scan_roots scan rs = Inr (scanned, unavailable, found)" and "f \<in> set found"
  shows "\<exists>r fs. scan r = Inr (Some fs) \<and> f \<in> set fs \<and> rs_id r \<in> set scanned"
  using assms
  by (induction rs arbitrary: scanned unavailable found) (fastforce simp: bindR_Inr_iff split: option.splits)+

lemma scanned_files_facts:
  assumes "f \<in> scanned_files env v d"
  shows "fp_root f \<in> scanned_roots env v d" "file_identity f = status_identity v (fp_path f)"
proof -
  obtain scanned unavailable found where s: "scan_found env v d = Inr (scanned, unavailable, found)" "f \<in> set found"
    using assms by (auto simp: scanned_files_def split: sum.splits)
  obtain r fs where r: "root_files (pe_sha env) v r = Inr (Some fs)" "f \<in> set fs" "rs_id r \<in> set scanned"
    using scan_roots_facts [OF s(1) [unfolded scan_found_def] s(2)] by blast
  show "fp_root f \<in> scanned_roots env v d"
    using s(1) r root_files_facts(1) [OF r(1,2)] by (simp add: scanned_roots_def)
  show "file_identity f = status_identity v (fp_path f)"
    by (rule root_files_facts(2) [OF r(1,2)])
qed

text \<open>Every source is at a location, and the stored paths are resolved.\<close>

definition located :: "rdb \<Rightarrow> bool" where
  "located d \<longleftrightarrow> source_ids d \<subseteq> lo_source ` set (rd_locations d)"

definition resolved_paths :: "plan_env \<Rightarrow> rdb \<Rightarrow> bool" where
  "resolved_paths env d \<longleftrightarrow> (\<forall>l\<in>set (rd_locations d). pe_resolve env (lo_path l) = lo_path l)"

lemma find_in: "find P xs = Some x \<Longrightarrow> x \<in> set xs \<and> P x"
  by (induction xs) (auto split: if_splits)

lemma location_by_path_located:
  assumes "refs_ok d" "located d" "resolved_paths env d"
  shows "location_by_path (pe_resolve env) (load_reconciliation_snapshot d) r p = Some l
    \<longleftrightarrow> l \<in> set (rd_locations d) \<and> lo_root l = r \<and> lo_path l = p"
proof -
  let ?sn = "load_reconciliation_snapshot d"
  let ?P = "\<lambda>l. lo_root l = r \<and> pe_resolve env (lo_path l) = p"
  have "fallback_locations ?sn = []" using assms(2)
    by (auto simp: fallback_locations_def load_reconciliation_snapshot_def located_def source_ids_def source_seen_def filter_empty_conv)
  then have e: "location_by_path (pe_resolve env) ?sn r p = find ?P (rev (sort_key lo_id (rd_locations d)))"
    by (simp add: location_by_path_def load_reconciliation_snapshot_def split: option.split)
  have u: "l = l'" if "l \<in> set (rd_locations d)" "l' \<in> set (rd_locations d)" "lo_root l = lo_root l'" "lo_path l = lo_path l'" for l l'
    using assms(1) that unfolding refs_ok_def keys_ok_def by (auto simp: distinct_map inj_on_def)
  show ?thesis
  proof
    assume "location_by_path (pe_resolve env) ?sn r p = Some l"
    then have "l \<in> set (rd_locations d)" "?P l" unfolding e by (auto dest!: find_in)
    then show "l \<in> set (rd_locations d) \<and> lo_root l = r \<and> lo_path l = p" using assms(3) by (auto simp: resolved_paths_def)
  next
    assume l: "l \<in> set (rd_locations d) \<and> lo_root l = r \<and> lo_path l = p"
    then have "?P l" using assms(3) by (auto simp: resolved_paths_def)
    then have "find ?P (rev (sort_key lo_id (rd_locations d))) \<noteq> None" using l by (auto simp: find_None_iff)
    then obtain l' where l': "find ?P (rev (sort_key lo_id (rd_locations d))) = Some l'" by blast
    then have "l' \<in> set (rd_locations d)" "?P l'" by (auto dest!: find_in)
    then have "l' = l" using u [of l' l] l assms(3) by (auto simp: resolved_paths_def)
    then show "location_by_path (pe_resolve env) ?sn r p = Some l" using l' e by simp
  qed
qed

lemma snapshot_fields [simp]:
  "sn_sources (load_reconciliation_snapshot d) = map source_seen (rd_sources d)"
  "set (sn_locations (load_reconciliation_snapshot d)) = set (rd_locations d)"
  by (simp_all add: load_reconciliation_snapshot_def)

text \<open>What a plan is made of, in terms of what the loop over the identities has collected.\<close>

lemma finish_plan_parts:
  "pl_new_locations (finish_plan env sn a b c ps) = ps_new_locations ps"
  "pl_new_sources (finish_plan env sn a b c ps) = ps_new_sources ps"
  "set (pl_deleted_locations (finish_plan env sn a b c ps)) = set (deleted_locations env sn a c ps)"
  "pl_deleted_sources (finish_plan env sn a b c ps)
    = map ss_id (gone_sources sn (live_sources sn (deleted_locations env sn a c ps) ps) ps)"
  by (simp_all add: finish_plan_def Let_def)

lemma plan_reconciliation_parts:
  assumes "plan_reconciliation env scan sn = Inr p" "scan_roots scan (sn_roots sn) = Inr (scanned, unavailable, found)"
  shows "\<exists>ps. collected env sn (set found) (initial_plan_state sn) ps \<and> p = finish_plan env sn scanned unavailable found ps"
proof -
  obtain ps where ps: "plan_groups env sn (files_by_identity found) (initial_plan_state sn) = Inr ps"
    "p = finish_plan env sn scanned unavailable found ps"
    using assms by (auto simp: plan_reconciliation_def bindR_Inr_iff)
  have "collected env sn (set found) (initial_plan_state sn) ps"
    using plan_groups_collect [OF ps(1) files_by_identity_groups(1)] by (simp only: files_by_identity_groups(2))
  then show ?thesis using ps(2) by blast
qed

definition scan_facts :: "plan_env \<Rightarrow> file_view \<Rightarrow> rdb \<Rightarrow> rdb \<Rightarrow> bool" where
  "scan_facts env v d d' \<longleftrightarrow>
     location_facts d' = {x \<in> location_facts d. fst (snd x) \<notin> scanned_roots env v d}
       \<union> claimed env (load_reconciliation_snapshot d) ` scanned_files env v d
     \<and> (\<forall>f\<in>scanned_files env v d. (owner_of env (load_reconciliation_snapshot d) (file_identity f), file_identity f) \<in> source_facts d')
     \<and> fst ` source_facts d' = fst ` location_facts d'"

lemma after_deletion_kept:
  "rd_locations (fold (\<lambda>f. f) (after_deletion uuids p now) d) = rd_locations d"
  "source_facts (fold (\<lambda>f. f) (after_deletion uuids p now) d) = source_facts d"
  by (simp_all add: after_deletion_def fold_when_any scan_effects)

lemma source_by_identity_Some:
  "source_by_identity sn i = Some x \<Longrightarrow> x \<in> set (sn_sources sn) \<and> source_identity x = i"
  by (auto simp: source_by_identity_def dest!: find_in)

lemma apply_parts:
  assumes "apply_reconciliation_plan uuids p now d = Inr (res, d')"
  shows "\<exists>d2. delete_source_records (pl_deleted_sources p) (pl_deleted_jobs p) (fold (\<lambda>f. f) (before_deletion p now) d) = Inr d2
    \<and> d' = fold (\<lambda>f. f) (after_deletion uuids p now) d2"
proof -
  obtain d1 d2 where e: "execute_all (before_deletion p now) d = Inr d1"
    "delete_source_records (pl_deleted_sources p) (pl_deleted_jobs p) d1 = Inr d2"
    "execute_all (after_deletion uuids p now) d2 = Inr d'"
    using assms by (simp only: apply_reconciliation_plan_def bindR_Inr_iff) blast
  show ?thesis using e(2) execute_all_Inr [OF e(1)] execute_all_Inr [OF e(3)] by blast
qed

lemma reconcile_roots_parts:
  assumes "reconcile_roots env uuids v now d = Inr r"
  shows "\<exists>p. plan_reconciliation env (root_files (pe_sha env) v) (load_reconciliation_snapshot d) = Inr p
    \<and> apply_reconciliation_plan uuids p now d = Inr r"
proof (cases "plan_reconciliation env (root_files (pe_sha env) v) (load_reconciliation_snapshot d)")
  case (Inl e)
  then show ?thesis using assms by (cases e) (simp_all add: reconcile_roots_def)
next
  case (Inr p)
  then show ?thesis using assms by (cases "apply_reconciliation_plan uuids p now d") (simp_all add: reconcile_roots_def)
qed

text \<open>What the scan starts from: consistent tables, and files that are below the scanned roots and
  have one identity per path.\<close>

definition scan_input :: "plan_env \<Rightarrow> rdb \<Rightarrow> string list \<Rightarrow> fingerprint list \<Rightarrow> bool" where
  "scan_input env d scanned found \<longleftrightarrow> refs_ok d \<and> located d \<and> resolved_paths env d
     \<and> fp_root ` set found \<subseteq> set scanned
     \<and> (\<forall>f\<in>set found. \<forall>g\<in>set found. fp_path f = fp_path g \<longrightarrow> file_identity f = file_identity g)"

lemma location_id_unique:
  assumes "refs_ok d" "l \<in> set (rd_locations d)" "l' \<in> set (rd_locations d)" "lo_id l = lo_id l'"
  shows "l = l'"
  using assms unfolding refs_ok_def keys_ok_def by (auto simp: distinct_map inj_on_def)

lemma missing_locations_iff:
  assumes "refs_ok d" "resolved_paths env d" "l \<in> set (rd_locations d)"
  shows "lo_id l \<in> set (missing_locations env (load_reconciliation_snapshot d) scanned found)
    \<longleftrightarrow> lo_root l \<in> set scanned \<and> (\<forall>f\<in>set found. (lo_root l, lo_path l) \<noteq> (fp_root f, fp_path f))"
proof -
  let ?Q = "\<lambda>k. lo_root k \<in> set scanned \<and> (\<forall>f\<in>set found. (lo_root k, lo_path k) \<noteq> (fp_root f, fp_path f))"
  have "set (missing_locations env (load_reconciliation_snapshot d) scanned found) = lo_id ` {k \<in> set (rd_locations d). lo_root k \<in> set scanned
      \<and> (lo_root k, pe_resolve env (lo_path k)) \<notin> (\<lambda>f. (fp_root f, fp_path f)) ` set found}"
    by (simp add: missing_locations_def)
  also have "\<dots> = lo_id ` {k \<in> set (rd_locations d). ?Q k}"
    by (rule arg_cong [of _ _ "image lo_id"]) (use assms(2) in \<open>auto simp: resolved_paths_def\<close>)
  finally show ?thesis using assms(3) location_id_unique [OF assms(1)] by auto
qed

lemma overruled_iff:
  assumes "scan_input env d scanned found" "l \<in> set (rd_locations d)"
  shows "lo_id l \<in> overruled env (load_reconciliation_snapshot d) f \<longleftrightarrow> lo_root l = fp_root f \<and> lo_path l = fp_path f
    \<and> lo_source l \<noteq> owner_of env (load_reconciliation_snapshot d) (file_identity f)"
proof -
  have ok: "refs_ok d" "located d" "resolved_paths env d" using assms(1) by (simp_all add: scan_input_def)
  show ?thesis unfolding overruled_def location_by_path_located [OF ok] mem_Collect_eq
    using assms(2) location_id_unique [OF ok(1)] by blast
qed

lemma claimed_at:
  assumes "scan_input env d scanned found" "f \<in> set found" "lo_root l = fp_root f" "lo_path l = fp_path f"
  shows "(lo_source l, lo_root l, lo_path l) \<in> claimed env sn ` set found \<longleftrightarrow> lo_source l = owner_of env sn (file_identity f)"
proof
  assume "(lo_source l, lo_root l, lo_path l) \<in> claimed env sn ` set found"
  then obtain g where g: "g \<in> set found" "lo_path l = fp_path g" "lo_source l = owner_of env sn (file_identity g)"
    by (auto simp: claimed_def)
  then have "file_identity g = file_identity f" using assms(1,2,4) unfolding scan_input_def by metis
  then show "lo_source l = owner_of env sn (file_identity f)" using g(3) by simp
next
  assume "lo_source l = owner_of env sn (file_identity f)"
  then have "(lo_source l, lo_root l, lo_path l) = claimed env sn f" using assms(3,4) by (simp add: claimed_def)
  then show "(lo_source l, lo_root l, lo_path l) \<in> claimed env sn ` set found" using assms(2) by blast
qed

text \<open>A location of a scanned root is deleted unless the file found there belongs to its source.\<close>

lemma deleted_location_iff:
  assumes i: "scan_input env d scanned found" and l: "l \<in> set (rd_locations d)"
    and c: "collected env (load_reconciliation_snapshot d) (set found) (initial_plan_state (load_reconciliation_snapshot d)) ps"
  shows "lo_id l \<in> set (deleted_locations env (load_reconciliation_snapshot d) scanned found ps) \<longleftrightarrow> lo_root l \<in> set scanned
    \<and> (lo_source l, lo_root l, lo_path l) \<notin> claimed env (load_reconciliation_snapshot d) ` set found"
proof -
  let ?sn = "load_reconciliation_snapshot d"
  let ?own = "\<lambda>f. owner_of env ?sn (file_identity f)"
  have ok: "refs_ok d" "resolved_paths env d" using i by (simp_all add: scan_input_def)
  have "set (ps_deleted_locations ps) = (\<Union>f\<in>set found. overruled env ?sn f)"
    using c by (simp add: collected_def initial_plan_state_def)
  then have e: "lo_id l \<in> set (deleted_locations env ?sn scanned found ps) \<longleftrightarrow>
      (\<exists>f\<in>set found. lo_root l = fp_root f \<and> lo_path l = fp_path f \<and> lo_source l \<noteq> ?own f)
        \<or> lo_root l \<in> set scanned \<and> (\<forall>f\<in>set found. (lo_root l, lo_path l) \<noteq> (fp_root f, fp_path f))"
    using missing_locations_iff [OF ok l] overruled_iff [OF i l] by (simp add: deleted_locations_def)
  show ?thesis
  proof (cases "\<exists>f\<in>set found. lo_root l = fp_root f \<and> lo_path l = fp_path f")
    case True
    then obtain f where f: "f \<in> set found" "lo_root l = fp_root f" "lo_path l = fp_path f" by blast
    have "lo_root l \<in> set scanned" using f i by (auto simp: scan_input_def)
    moreover have own: "?own g = ?own f" if "g \<in> set found" "lo_path l = fp_path g" for g
      using i f that unfolding scan_input_def by metis
    moreover have "(\<exists>g\<in>set found. lo_root l = fp_root g \<and> lo_path l = fp_path g \<and> lo_source l \<noteq> ?own g) \<longleftrightarrow> lo_source l \<noteq> ?own f"
      using f own by metis
    moreover have "\<not> (\<forall>f\<in>set found. (lo_root l, lo_path l) \<noteq> (fp_root f, fp_path f))" using f by blast
    ultimately show ?thesis unfolding e claimed_at [OF i f] by blast
  next
    case False
    then have "(lo_source l, lo_root l, lo_path l) \<notin> claimed env ?sn ` set found" by (auto simp: claimed_def)
    then show ?thesis unfolding e using False by blast
  qed
qed

lemma locations_after:
  assumes i: "scan_input env d scanned found"
    and c: "collected env (load_reconciliation_snapshot d) (set found) (initial_plan_state (load_reconciliation_snapshot d)) ps"
  shows "(\<lambda>l. (lo_source l, lo_root l, lo_path l)) ` {l \<in> set (rd_locations d).
        lo_id l \<notin> set (deleted_locations env (load_reconciliation_snapshot d) scanned found ps)} \<union> set (ps_new_locations ps)
    = {x \<in> location_facts d. fst (snd x) \<notin> set scanned} \<union> claimed env (load_reconciliation_snapshot d) ` set found" (is "?L = ?R")
proof (intro set_eqI iffI)
  let ?sn = "load_reconciliation_snapshot d"
  note kept = deleted_location_iff [OF i _ c]
  have new: "set (ps_new_locations ps) = claimed env ?sn ` {f \<in> set found. claims env ?sn f}"
    using c by (simp add: collected_def initial_plan_state_def)
  fix x
  {
    assume "x \<in> ?L"
    then show "x \<in> ?R" by (auto simp: new location_facts_def kept)
  next
    assume "x \<in> ?R"
    then consider l where "l \<in> set (rd_locations d)" "x = (lo_source l, lo_root l, lo_path l)" "lo_root l \<notin> set scanned"
      | f where "f \<in> set found" "x = claimed env ?sn f" by (auto simp: location_facts_def)
    then show "x \<in> ?L"
    proof cases
      case 1
      then have "lo_id l \<notin> set (deleted_locations env ?sn scanned found ps)" using kept [OF 1(1)] by simp
      then show ?thesis using 1 by blast
    next
      case (2 f)
      show ?thesis
      proof (cases "claims env ?sn f")
        case True
        then show ?thesis using 2 by (simp add: new)
      next
        case False
        have ok: "refs_ok d" "located d" "resolved_paths env d" using i by (simp_all add: scan_input_def)
        from False obtain l where "location_by_path (pe_resolve env) ?sn (fp_root f) (fp_path f) = Some l"
          "lo_source l = owner_of env ?sn (file_identity f)" by (auto simp: claims_def split: option.splits)
        then have l: "l \<in> set (rd_locations d)" "x = (lo_source l, lo_root l, lo_path l)"
          using 2 by (auto simp: location_by_path_located [OF ok] claimed_def)
        have "(lo_source l, lo_root l, lo_path l) \<in> claimed env ?sn ` set found" using 2 l(2) by (metis imageI)
        then have "lo_id l \<notin> set (deleted_locations env ?sn scanned found ps)" using kept [OF l(1)] by simp
        then show ?thesis using l by blast
      qed
    qed
  }
qed

lemma owners_found:
  assumes c: "collected env (load_reconciliation_snapshot d) (set found) (initial_plan_state (load_reconciliation_snapshot d)) ps"
    and f: "f \<in> set found"
  shows "(owner_of env (load_reconciliation_snapshot d) (file_identity f), file_identity f)
    \<in> source_facts d \<union> (\<lambda>n. (ns_id n, file_identity (ns_fingerprint n))) ` set (ps_new_sources ps)"
proof (cases "source_by_identity (load_reconciliation_snapshot d) (file_identity f)")
  case None
  have "(\<lambda>n. (ns_id n, file_identity (ns_fingerprint n))) ` set (ps_new_sources ps)
      = (\<lambda>i. (owner_of env (load_reconciliation_snapshot d) i, i)) ` {i \<in> file_identity ` set found.
          source_by_identity (load_reconciliation_snapshot d) i = None}"
    using c by (simp add: collected_def initial_plan_state_def)
  then show ?thesis using None f by blast
next
  case (Some x)
  then have "x \<in> source_seen ` set (rd_sources d)" "source_identity x = file_identity f"
    using source_by_identity_Some [OF Some] by simp_all
  then have "(ss_id x, file_identity f) \<in> source_facts d" by (auto simp: source_facts_def source_seen_def source_identity_def)
  then show ?thesis using Some by (simp add: owner_of_def)
qed

lemma source_facts_ids: "fst ` source_facts d = source_ids d"
  by (simp add: source_facts_def source_ids_def image_image)

text \<open>The sources deleted by a plan are those without a location afterwards.\<close>

lemma gone_without_location:
  assumes c: "collected env sn (set found) (initial_plan_state sn) ps" and sn: "sn = load_reconciliation_snapshot d"
    and L: "L = (\<lambda>l. (lo_source l, lo_root l, lo_path l)) ` {l \<in> set (rd_locations d). lo_id l \<notin> set deleted} \<union> set (ps_new_locations ps)"
    and o: "owner_of env sn ` file_identity ` set found \<subseteq> fst ` L"
  shows "ss_id ` set (gone_sources sn (live_sources sn deleted ps) ps) = source_ids d - fst ` L"
proof -
  have live: "set (live_sources sn deleted ps) = fst ` L"
    by (simp add: live_sources_def L sn image_Un image_image)
  have "ps_seen (initial_plan_state sn) = []" by (simp add: initial_plan_state_def)
  then have "set (ps_seen ps) \<subseteq> fst ` L" using c o by (simp add: collected_def)
  then have "set (gone_sources sn (live_sources sn deleted ps) ps) = {x \<in> set (sn_sources sn). ss_id x \<notin> fst ` L}"
    by (auto simp: gone_sources_def live)
  moreover have "ss_id ` {x \<in> A. ss_id x \<notin> B} = ss_id ` A - B" for A :: "source_snapshot set" and B by auto
  moreover have "ss_id ` set (sn_sources sn) = source_ids d" by (simp add: sn source_ids_def source_seen_def image_image)
  ultimately show ?thesis by simp
qed

lemma scan_input_scanned:
  assumes "refs_ok d" "located d" "resolved_paths env d"
    "scan_found env v d = Inr (scanned, unavailable, found)"
  shows "scan_input env d scanned found" "set scanned = scanned_roots env v d" "set found = scanned_files env v d"
proof -
  show e: "set scanned = scanned_roots env v d" "set found = scanned_files env v d"
    using assms(4) by (simp_all add: scanned_roots_def scanned_files_def)
  show "scan_input env d scanned found" unfolding scan_input_def e
    using assms(1-3) scanned_files_facts by (auto simp: Let_def)
qed

lemma reconcile_roots_facts:
  assumes ok: "refs_ok d" "located d" "resolved_paths env d" and r: "reconcile_roots env uuids v now d = Inr (res, d')"
  shows "scan_facts env v d d'"
proof -
  define sn where "sn = load_reconciliation_snapshot d"
  obtain p where p: "plan_reconciliation env (root_files (pe_sha env) v) sn = Inr p"
    and a: "apply_reconciliation_plan uuids p now d = Inr (res, d')"
    using reconcile_roots_parts [OF r] unfolding sn_def by blast
  obtain scanned unavailable found where sc: "scan_roots (root_files (pe_sha env) v) (sn_roots sn) = Inr (scanned, unavailable, found)"
    using p by (auto simp: plan_reconciliation_def split: sum.splits)
  note input = scan_input_scanned [OF ok sc [unfolded sn_def, folded scan_found_def]]
  obtain ps where ps: "collected env sn (set found) (initial_plan_state sn) ps" "p = finish_plan env sn scanned unavailable found ps"
    using plan_reconciliation_parts [OF p sc] by blast
  let ?own = "\<lambda>f. owner_of env sn (file_identity f)"
  let ?new = "(\<lambda>n. (ns_id n, file_identity (ns_fingerprint n))) ` set (ps_new_sources ps)"
  define L where "L = {x \<in> location_facts d. fst (snd x) \<notin> set scanned} \<union> claimed env sn ` set found"
  define G where "G = set (pl_deleted_sources p)"
  note parts = finish_plan_parts [of env sn scanned unavailable found ps, folded ps(2)]
  have after: "L = (\<lambda>l. (lo_source l, lo_root l, lo_path l)) ` {l \<in> set (rd_locations d).
      lo_id l \<notin> set (deleted_locations env sn scanned found ps)} \<union> set (ps_new_locations ps)"
    unfolding L_def sn_def by (rule locations_after [OF input(1) ps(1) [unfolded sn_def], symmetric])
  obtain d2 where d2: "delete_source_records (pl_deleted_sources p) (pl_deleted_jobs p) (fold (\<lambda>f. f) (before_deletion p now) d) = Inr d2"
    and d3: "d' = fold (\<lambda>f. f) (after_deletion uuids p now) d2"
    using apply_parts [OF a] by (elim exE conjE) (rule that)
  have own: "?own f \<in> fst ` L" if "f \<in> set found" for f using that by (force simp: L_def claimed_def)
  have G: "G = source_ids d - fst ` L"
    unfolding G_def parts list.set_map by (rule gone_without_location [OF ps(1) sn_def after]) (use own in auto)
  have L1: "location_facts d' = L"
    using delete_source_records_effects(2) [OF d2] location_facts_cong [OF after_deletion_kept(1) [of uuids p now d2]]
    unfolding d3 before_deletion_locations parts after [symmetric] G_def [unfolded parts, symmetric] G by auto
  have S1: "source_facts d' = {x \<in> source_facts d \<union> ?new. fst x \<notin> G}"
    using delete_source_records_effects(1) [OF d2] by (simp add: d3 after_deletion_kept before_deletion_sources parts G_def)
  have found: "(?own f, file_identity f) \<in> source_facts d'" if "f \<in> set found" for f
    using owners_found [OF ps(1) [unfolded sn_def] that, folded sn_def] own [OF that] unfolding S1 G by simp
  have new: "fst ` ?new \<subseteq> fst ` L"
    using ps(1) own by (auto simp: collected_def initial_plan_state_def)
  have "fst ` location_facts d \<subseteq> source_ids d"
    using ok(1) by (auto simp: location_facts_def refs_ok_def source_refs_ok_def Let_def)
  moreover have "fst ` claimed env sn ` set found \<subseteq> fst ` source_facts d'"
    using found by (auto simp: claimed_def intro!: rev_image_eqI)
  ultimately have "fst ` L \<subseteq> source_ids d \<union> fst ` source_facts d'" unfolding L_def by blast
  moreover have "fst ` source_facts d' = (source_ids d \<union> fst ` ?new) - G"
  proof -
    have "fst ` {x \<in> A. fst x \<notin> B} = fst ` A - B" for A :: "(string \<times> file_identity) set" and B by auto
    then show ?thesis unfolding S1 by (simp only: image_Un source_facts_ids)
  qed
  ultimately have "fst ` source_facts d' = fst ` L" using new unfolding G by blast
  then show ?thesis unfolding scan_facts_def input(2,3) [symmetric] sn_def [symmetric] L1
    by (intro conjI ballI) (rule L_def, erule found, assumption)
qed

section \<open>A scan makes the locations the files\<close>

lemma path_sources_total:
  assumes "refs_ok d"
  shows "\<exists>xs. path_sources res (load_reconciliation_snapshot d) fs = Inr xs"
proof (induction fs)
  case (Cons f fs)
  let ?sn = "load_reconciliation_snapshot d"
  have known: "source_by_id ?sn (lo_source l) \<noteq> None" if "location_by_path res ?sn r q = Some l" for l r q
  proof -
    have "l \<in> set (rd_locations d) \<or> l \<in> set (fallback_locations ?sn)"
      using that by (auto simp: location_by_path_def split: option.splits dest!: find_in)
    then have "lo_source l \<in> source_ids d"
      using assms by (auto simp: refs_ok_def source_refs_ok_def Let_def fallback_locations_def fallback_location_def
          source_ids_def source_seen_def)
    then show ?thesis by (auto simp: source_by_id_def find_None_iff source_ids_def source_seen_def)
  qed
  show ?case
  proof (cases "location_by_path res ?sn (fp_root f) (fp_path f)")
    case (Some l)
    obtain x where "source_by_id ?sn (lo_source l) = Some x" using known [OF Some] by blast
    then show ?thesis using Cons Some by auto
  qed (use Cons in auto)
qed simp

lemma plan_groups_total:
  assumes "refs_ok d"
  shows "\<exists>ps'. plan_groups env (load_reconciliation_snapshot d) gs ps = Inr ps'"
proof (induction gs arbitrary: ps)
  case (Cons g gs)
  obtain xs where "path_sources (pe_resolve env) (load_reconciliation_snapshot d) (sort_key (\<lambda>f. (fp_root f, fp_path f)) g) = Inr xs"
    using path_sources_total [OF assms] by blast
  then have "\<exists>ps1. plan_group env (load_reconciliation_snapshot d) g ps = Inr ps1"
    by (simp add: plan_group_def Let_def case_prod_beta)
  then show ?case using Cons by auto
qed simp

lemma scan_never_raises_KeyError: "refs_ok d \<Longrightarrow> reconcile_roots env uuids v now d \<noteq> Inl (ScanKeyError s)"
proof -
  assume r: "refs_ok d"
  let ?sn = "load_reconciliation_snapshot d"
  have "\<forall>found. \<exists>ps. plan_groups env ?sn (files_by_identity found) (initial_plan_state ?sn) = Inr ps"
    using plan_groups_total [OF r] by blast
  then obtain pss where "\<forall>found. plan_groups env ?sn (files_by_identity found) (initial_plan_state ?sn) = Inr (pss found)"
    by (rule choice [THEN exE])
  then have "plan_reconciliation env (root_files (pe_sha env) v) ?sn \<noteq> Inl (PlanKeyError s)"
    by (auto simp: plan_reconciliation_def bindR_Inl_iff split: sum.splits)
  then show ?thesis by (auto simp: reconcile_roots_def split: sum.splits plan_error.splits)
qed

lemma scan_OSError_iff:
  assumes "refs_ok d"
  shows "reconcile_roots env uuids v now d = Inl ScanOSError \<longleftrightarrow> (\<exists>e. scan_found env v d = Inl e)"
proof -
  let ?sn = "load_reconciliation_snapshot d"
  have "\<forall>found. \<exists>ps. plan_groups env ?sn (files_by_identity found) (initial_plan_state ?sn) = Inr ps"
    using plan_groups_total [OF assms] by blast
  then obtain pss where "\<forall>found. plan_groups env ?sn (files_by_identity found) (initial_plan_state ?sn) = Inr (pss found)"
    by (rule choice [THEN exE])
  then show ?thesis
    by (auto simp: reconcile_roots_def plan_reconciliation_def scan_found_def split: sum.splits plan_error.splits)
qed

text \<open>C16. A scan of tables in which every source is at a location and the stored paths are resolved. It
  fails with an OSError exactly when the reading of some root does, or it is refused by the database, and
  never raises on a location whose source is missing. Otherwise it makes the locations of the scanned roots
  exactly the audio files found there, each belonging to a source with the identity (inode, size,
  modification time) of its file, leaves the locations of every other root alone, and keeps exactly the
  sources that are at a location. The lemma below on sources without a location shows that the first
  assumption cannot be dropped.\<close>

theorem scan_matches_files:
  assumes "refs_ok d" "located d" "resolved_paths env d"
  shows "case reconcile_roots env uuids v now d of
      Inl e \<Rightarrow> e = ScanOSError \<and> (\<exists>x. scan_found env v d = Inl x) \<or> e = ScanIntegrityError \<and> (\<exists>x. scan_found env v d = Inr x)
    | Inr (res, d') \<Rightarrow>
        snd ` {x \<in> location_facts d'. fst (snd x) \<in> scanned_roots env v d} = (\<lambda>f. (fp_root f, fp_path f)) ` scanned_files env v d
        \<and> (\<forall>f\<in>scanned_files env v d. \<forall>s. (s, fp_root f, fp_path f) \<in> location_facts d' \<longrightarrow> (s, file_identity f) \<in> source_facts d')
        \<and> {x \<in> location_facts d'. fst (snd x) \<notin> scanned_roots env v d} = {x \<in> location_facts d. fst (snd x) \<notin> scanned_roots env v d}
        \<and> source_ids d' = lo_source ` set (rd_locations d')"
proof (cases "reconcile_roots env uuids v now d")
  case (Inl e)
  then show ?thesis using scan_never_raises_KeyError [OF assms(1)] scan_OSError_iff [OF assms(1), of env uuids v now]
    by (cases e; cases "scan_found env v d") auto
next
  case (Inr r)
  obtain res d' where r: "reconcile_roots env uuids v now d = Inr (res, d')" using Inr by (cases r) simp
  have f: "scan_facts env v d d'" by (rule reconcile_roots_facts [OF assms r])
  let ?sn = "load_reconciliation_snapshot d"
  let ?F = "scanned_files env v d"
  have root_in: "fp_root f \<in> scanned_roots env v d" if "f \<in> ?F" for f by (rule scanned_files_facts(1) [OF that])
  have L: "location_facts d' = {x \<in> location_facts d. fst (snd x) \<notin> scanned_roots env v d} \<union> claimed env ?sn ` ?F"
    using f by (simp add: scan_facts_def)
  have "{x \<in> location_facts d'. fst (snd x) \<in> scanned_roots env v d} = claimed env ?sn ` ?F"
    unfolding L using root_in by (auto simp: claimed_def)
  then have 1: "snd ` {x \<in> location_facts d'. fst (snd x) \<in> scanned_roots env v d} = (\<lambda>f. (fp_root f, fp_path f)) ` ?F"
    by (simp add: claimed_def image_image)
  have 2: "(s, file_identity f) \<in> source_facts d'" if t: "f \<in> ?F" "(s, fp_root f, fp_path f) \<in> location_facts d'" for f s
  proof -
    obtain g where g: "g \<in> ?F" "s = owner_of env ?sn (file_identity g)" "fp_path g = fp_path f"
      using t root_in [OF t(1)] unfolding L by (auto simp: claimed_def)
    then have "file_identity f = file_identity g" using scanned_files_facts(2) [OF t(1)] scanned_files_facts(2) [OF g(1)] by simp
    then show ?thesis using f g by (simp add: scan_facts_def)
  qed
  have 3: "{x \<in> location_facts d'. fst (snd x) \<notin> scanned_roots env v d} = {x \<in> location_facts d. fst (snd x) \<notin> scanned_roots env v d}"
    unfolding L using root_in by (auto simp: claimed_def)
  have "source_ids d' = lo_source ` set (rd_locations d')"
  proof -
    have "source_ids d' = fst ` location_facts d'" using f by (simp only: scan_facts_def source_facts_ids)
    then show ?thesis by (simp add: location_facts_def image_image)
  qed
  then show ?thesis using r 1 2 3 by simp
qed

text \<open>A root with one audio file, a text file and a linked directory.\<close>

definition sample_view :: "int \<Rightarrow> file_view" where
  "sample_view inode = \<lparr>fv_strict = Found, fv_lstat = (\<lambda>p. if p = ''/m'' then Found DirectoryFile else Found RegularFile),
     fv_is_dir = (\<lambda>p. p = ''/m''), fv_opened = (\<lambda>p. Found RegularFile),
     fv_stat = (\<lambda>p. Found (RegularFile, \<lparr>st_device = 1, st_inode = inode, st_size = 10, st_mtime = 3\<rparr>)),
     fv_entries = (\<lambda>p. [FileName ''b.MP3'', FileName ''x.txt'', LinkedDir ''l''])\<rparr>"

definition sample_plan_env :: plan_env where
  "sample_plan_env = \<lparr>pe_sha = id, pe_resolve = id, pe_uuid = id\<rparr>"

definition sample_located :: rdb where
  "sample_located = (sample_tables ''r1'')\<lparr>rd_sources := [sample_source_row ''s1'' ''r1''], rd_jobs := [], rd_assignments := [],
     rd_children := []\<rparr>"

lemma sample_scan: "case reconcile_roots sample_plan_env id (sample_view 8) 5 sample_located of Inl e \<Rightarrow> False
    | Inr (res, d') \<Rightarrow> map lo_path (rd_locations d') = [''/m/b.MP3''] \<and> sc_added res = 1"
  by code_simp

lemma sample_located_ok: "refs_ok sample_located" "located sample_located" "resolved_paths sample_plan_env sample_located"
  by code_simp+

theorem scan_matches_files_witness:
  "case reconcile_roots sample_plan_env id (sample_view 8) 5 sample_located of Inl e \<Rightarrow> False
    | Inr (res, d') \<Rightarrow> map lo_path (rd_locations d') = [''/m/b.MP3''] \<and> source_ids d' = lo_source ` set (rd_locations d')"
  using scan_matches_files [OF sample_located_ok, where uuids = id and v = "sample_view 8" and now = 5] sample_scan
  by (simp split: sum.splits prod.splits)

section \<open>Where the scan surprises\<close>

text \<open>The scan requeues every quarantined job of a source whose quarantined scan it requeues. Two
  quarantined refreshes of one source (a second one is queued once the first has failed) then collide in
  the index of active refreshes, and the whole scan is refused.\<close>

definition quarantined :: "string \<Rightarrow> string \<Rightarrow> job" where
  "quarantined i k = (new_job i k 0)\<lparr>source_id := Some ''s1'', job_state := ''quarantined''\<rparr>"

definition tables_with_quarantine :: rdb where
  "tables_with_quarantine = sample_located\<lparr>rd_jobs := [quarantined ''filesystem-s1'' ''filesystem_scan'',
     quarantined ''m-1'' ''musicbrainz_refresh'', quarantined ''m-2'' ''musicbrainz_refresh'']\<rparr>"

lemma quarantined_refreshes_refuse_scan:
  "refs_ok tables_with_quarantine \<and> located tables_with_quarantine
    \<and> reconcile_roots sample_plan_env id (sample_view 7) 5 tables_with_quarantine = Inl ScanIntegrityError"
  by code_simp

text \<open>A source without a location row is taken to be at its stored path. While the root is unavailable it
  is deleted all the same; a file found at that path gives it no location row, and the cleanup then deletes
  the source of a file that is there.\<close>

lemma unlocated_source_of_unavailable_root_deleted:
  "case reconcile_roots sample_plan_env id (sample_view 7\<lparr>fv_strict := \<lambda>p. Missing\<rparr>) 5 (sample_tables ''r1'') of Inl e \<Rightarrow> False
    | Inr (res, d') \<Rightarrow> map sr_id (rd_sources d') = [''s1''] \<and> map rt_state (rd_roots d') = [''unavailable'']"
  by code_simp

definition unlocated_tables :: rdb where
  "unlocated_tables = sample_located\<lparr>rd_locations := [],
     rd_sources := [(sample_source_row ''s1'' ''r1'')\<lparr>sr_path := ''/m/b.MP3''\<rparr>]\<rparr>"

lemma present_source_cleaned_up:
  "case reconcile_roots sample_plan_env id (sample_view 7) 5 unlocated_tables of Inl e \<Rightarrow> False
    | Inr (res, d') \<Rightarrow> map sr_id (rd_sources d') = [''s1''] \<and> rd_locations d' = []
        \<and> (case current_state_cleanup True d' of Inl e \<Rightarrow> False | Inr (rep, d'') \<Rightarrow> rd_sources d'' = [])"
  by code_simp

end
