(* ===== verification/Media.thy ===== *)
theory Media imports Publication Base64 Inspectors Json begin

text \<open>
  \<^bold>\<open>Media tools\<close>: the external programs that read and write audio files. \<^verbatim>\<open>adapters/remux.py\<close> (stream copy
  into another container), \<^verbatim>\<open>adapters/inspectors/media_capabilities.py\<close> (container, codec and technical
  properties from \<^verbatim>\<open>ffprobe\<close>), \<^verbatim>\<open>adapters/inspectors/decoder.py\<close> (a decoding run) and
  \<^verbatim>\<open>services/enrichment/fingerprints.py\<close> (the fingerprint of \<^verbatim>\<open>fpcalc\<close>).

  The state is the file system, a map from resolved paths to the octets of a file. An external
  program is an argument: a function from its command line and the files to the way the process
  ended and the files it leaves. Operations are actions that return a value or an exception and
  always a file system, since an exception does not undo what was written before.
\<close>

section \<open>Actions that may raise\<close>

type_synonym media_fs = "path \<rightharpoonup> octets"

text \<open>The exceptions of the media stages: those of the standard library and of Mutagen, and the
  program's own with what they carry.\<close>

datatype media_exc =
    MutagenExc | OSExc | FileExistsExc | KeyExc | IndexExc | ValueExc | UnicodeDecodeExc
  | JSONDecodeExc | OtherExc string
  | RemuxFailure path path tool_evidence
  | MetadataTagError path
  | MetadataWriteError string
  | MediaPipelineInfrastructureError tool_state
  | SourceAudioCorruptionError path path tool_evidence tool_evidence
  | PipelineOutputFailure path path tool_evidence tool_evidence

text \<open>\<open>FileExistsError\<close> is an \<open>OSError\<close>.\<close>

definition is_os_error :: "media_exc \<Rightarrow> bool" where
  "is_os_error e \<longleftrightarrow> e \<in> {OSExc, FileExistsExc}"

type_synonym 'a media_act = "media_fs \<Rightarrow> (media_exc + 'a) \<times> media_fs"

definition giveM :: "'a \<Rightarrow> 'a media_act" where
  "giveM x fs = (Inr x, fs)"

definition raiseM :: "media_exc \<Rightarrow> 'a media_act" where
  "raiseM e fs = (Inl e, fs)"

definition bindM :: "'a media_act \<Rightarrow> ('a \<Rightarrow> 'b media_act) \<Rightarrow> 'b media_act" where
  "bindM m f fs = (case m fs of (Inl e, fs') \<Rightarrow> (Inl e, fs') | (Inr x, fs') \<Rightarrow> f x fs')"

text \<open>A result computed without touching the files.\<close>

definition pureM :: "media_exc + 'a \<Rightarrow> 'a media_act" where
  "pureM r fs = (r, fs)"

text \<open>\<open>try: m except ...: raise E(...) from error\<close>: some exceptions are turned into another.\<close>

definition rethrowM :: "(media_exc \<Rightarrow> bool) \<Rightarrow> media_exc \<Rightarrow> 'a media_act \<Rightarrow> 'a media_act" where
  "rethrowM caught e m fs = (case m fs of (Inl x, fs') \<Rightarrow> (Inl (if caught x then e else x), fs')
     | (Inr v, fs') \<Rightarrow> (Inr v, fs'))"

text \<open>\<open>try: m finally: c\<close> with a clean-up that does not raise.\<close>

definition finallyM :: "'a media_act \<Rightarrow> (media_fs \<Rightarrow> media_fs) \<Rightarrow> 'a media_act" where
  "finallyM m c fs = (case m fs of (r, fs') \<Rightarrow> (r, c fs'))"

named_theorems media_simps \<comment> \<open>unfolding rules of the actions on media files\<close>

lemma bindM_Inr_iff [media_simps]:
  "bindM m f fs = (Inr y, fs') \<longleftrightarrow> (\<exists>x fs1. m fs = (Inr x, fs1) \<and> f x fs1 = (Inr y, fs'))"
  by (auto simp: bindM_def split: prod.splits sum.splits)

lemma bindM_Inl_iff [media_simps]:
  "bindM m f fs = (Inl e, fs') \<longleftrightarrow> m fs = (Inl e, fs') \<or> (\<exists>x fs1. m fs = (Inr x, fs1) \<and> f x fs1 = (Inl e, fs'))"
  by (auto simp: bindM_def split: prod.splits sum.splits)

lemma giveM_iff [media_simps]: "giveM x fs = (r, fs') \<longleftrightarrow> r = Inr x \<and> fs' = fs"
  by (auto simp: giveM_def)

lemma raiseM_iff [media_simps]: "raiseM e fs = (r, fs') \<longleftrightarrow> r = Inl e \<and> fs' = fs"
  by (auto simp: raiseM_def)

lemma pureM_iff [media_simps]: "pureM r fs = (r', fs') \<longleftrightarrow> r' = r \<and> fs' = fs"
  by (auto simp: pureM_def)

lemma rethrowM_Inr_iff [media_simps]: "rethrowM c e m fs = (Inr v, fs') \<longleftrightarrow> m fs = (Inr v, fs')"
  by (auto simp: rethrowM_def split: prod.splits sum.splits)

lemma rethrowM_Inl_iff [media_simps]:
  "rethrowM c e m fs = (Inl x, fs') \<longleftrightarrow> (\<exists>y. m fs = (Inl y, fs') \<and> x = (if c y then e else y))"
  by (auto simp: rethrowM_def split: prod.splits sum.splits)

lemma finallyM_iff [media_simps]:
  "finallyM m c fs = (r, fs') \<longleftrightarrow> (\<exists>fs1. m fs = (r, fs1) \<and> fs' = c fs1)"
  by (auto simp: finallyM_def split: prod.splits)

text \<open>What an action may change: every path but those of a set is left as it is.\<close>

definition touches :: "path set \<Rightarrow> 'a media_act \<Rightarrow> bool" where
  "touches P m \<longleftrightarrow> (\<forall>fs p. p \<notin> P \<longrightarrow> snd (m fs) p = fs p)"

lemma touchesD: "touches P m \<Longrightarrow> m fs = (r, fs') \<Longrightarrow> p \<notin> P \<Longrightarrow> fs' p = fs p"
  unfolding touches_def by (metis snd_conv)

lemma touches_mono: "touches P m \<Longrightarrow> P \<subseteq> Q \<Longrightarrow> touches Q m"
  by (auto simp: touches_def)

lemma touches_none: "touches {} m \<Longrightarrow> snd (m fs) = fs"
  by (auto simp: touches_def)

lemma touches_give [simp, intro]: "touches P (giveM x)"
  by (simp add: touches_def giveM_def)

lemma touches_raise [simp, intro]: "touches P (raiseM e)"
  by (simp add: touches_def raiseM_def)

lemma touches_pure [simp, intro]: "touches P (pureM r)"
  by (simp add: touches_def pureM_def)

lemma snd_bindM: "snd (bindM m f fs) = (case m fs of (Inl e, fs') \<Rightarrow> fs' | (Inr x, fs') \<Rightarrow> snd (f x fs'))"
  by (simp add: bindM_def split: prod.split sum.split)

lemma snd_rethrowM [simp]: "snd (rethrowM c e m fs) = snd (m fs)"
  by (simp add: rethrowM_def split: prod.split sum.split)

lemma touches_bind [intro]:
  assumes "touches P m" and "\<And>x. touches P (f x)"
  shows "touches P (bindM m f)"
  unfolding touches_def
proof (intro allI impI)
  fix fs p assume p: "p \<notin> P"
  obtain r fs1 where m: "m fs = (r, fs1)" by fastforce
  have "fs1 p = fs p" by (rule touchesD [OF assms(1) m p])
  moreover have "snd (f x fs1) p = fs1 p" for x using assms(2) [of x] p by (simp add: touches_def)
  ultimately show "snd (bindM m f fs) p = fs p" by (simp add: snd_bindM m split: sum.split)
qed

lemma touches_rethrow [intro]: "touches P m \<Longrightarrow> touches P (rethrowM c e m)"
  by (simp add: touches_def)

lemma touches_if [intro]: "touches P m \<Longrightarrow> touches P m' \<Longrightarrow> touches P (if b then m else m')"
  by simp

section \<open>The machine\<close>

text \<open>Command lines name files by their path.\<close>

definition path_str :: "path \<Rightarrow> string" where
  "path_str p = CHR ''/'' # str_join ''/'' p"

text \<open>\<open>me_tool\<close> runs an external program, \<open>me_resolve\<close> is \<open>Path.resolve\<close>, \<open>me_is_dir\<close> tells the
  directories, \<open>me_is_link\<close> the symbolic links, \<open>me_temp\<close> is the name \<open>mkstemp\<close> makes up in a directory
  for a suffix, if it can, and \<open>me_fault\<close> what a write that fails leaves of the octets it was to write.\<close>

record media_env =
  me_tool :: "string list \<Rightarrow> media_fs \<Rightarrow> process_end \<times> media_fs"
  me_resolve :: "path \<Rightarrow> path"
  me_is_dir :: "path \<Rightarrow> bool"
  me_is_link :: "path \<Rightarrow> bool"
  me_temp :: "path \<Rightarrow> string \<Rightarrow> media_fs \<Rightarrow> path option"
  me_fault :: "path \<Rightarrow> octets \<Rightarrow> media_fs \<Rightarrow> octets option"
  me_sha256 :: "octets \<Rightarrow> string"

definition path_exists :: "media_env \<Rightarrow> path \<Rightarrow> media_fs \<Rightarrow> bool" where
  "path_exists E p fs \<longleftrightarrow> fs p \<noteq> None \<or> me_is_dir E p"

text \<open>\<open>path.resolve(strict=True)\<close>.\<close>

definition resolve_strict :: "media_env \<Rightarrow> path \<Rightarrow> path media_act" where
  "resolve_strict E p fs = (if path_exists E (me_resolve E p) fs then (Inr (me_resolve E p), fs) else (Inl OSExc, fs))"

abbreviation tool_ok :: "tool_evidence \<Rightarrow> bool" where
  "tool_ok ev \<equiv> t_state ev = tool_state.SUCCESS"

definition tool_act :: "media_env \<Rightarrow> string list \<Rightarrow> tool_evidence media_act" where
  "tool_act E cmd fs = (case me_tool E cmd fs of (end, fs') \<Rightarrow> (Inr (run_tool end), fs'))"

lemma tool_act_result: "tool_act E cmd fs = (Inr (run_tool (fst (me_tool E cmd fs))), snd (me_tool E cmd fs))"
  by (simp add: tool_act_def case_prod_beta)

text \<open>\<open>path.unlink(missing_ok=True)\<close>.\<close>

definition unlink :: "media_env \<Rightarrow> path \<Rightarrow> unit media_act" where
  "unlink E p fs = (if me_is_dir E p then (Inl OSExc, fs) else (Inr (), fs(p := None)))"

lemma touches_resolve [simp, intro]: "touches P (resolve_strict E p)"
  by (simp add: touches_def resolve_strict_def)

lemma touches_unlink [intro]: "p \<in> P \<Longrightarrow> touches P (unlink E p)"
  by (auto simp: touches_def unlink_def)

section \<open>Remuxing\<close>

definition muxer :: "string \<Rightarrow> media_exc + string" where
  "muxer suffix = (let s = str_casefold suffix in
     if s = ''.mka'' then Inr ''matroska'' else if s = ''.flac'' then Inr ''flac''
     else if s \<in> {''.m4a'', ''.mp4''} then Inr ''ipod'' else if s = ''.mp3'' then Inr ''mp3''
     else if s = ''.ogg'' then Inr ''ogg'' else if s = ''.opus'' then Inr ''opus'' else Inl ValueExc)"

definition remux_command :: "string \<Rightarrow> path \<Rightarrow> string \<Rightarrow> path \<Rightarrow> string list" where
  "remux_command ffmpeg src mux out =
     [ffmpeg, ''-nostdin'', ''-hide_banner'', ''-v'', ''error'', ''-xerror'', ''-i'', path_str src, ''-map'', ''0:a:0'',
      ''-map_metadata'', ''-1'', ''-map_chapters'', ''-1'', ''-c:a'', ''copy'', ''-f'', mux, ''-n'', path_str out]"

definition remux_stream_copy :: "media_env \<Rightarrow> path \<Rightarrow> path \<Rightarrow> string \<Rightarrow> tool_evidence media_act" where
  "remux_stream_copy E source output ffmpeg =
     bindM (resolve_strict E source) (\<lambda>src fs.
       if me_is_link E output \<or> path_exists E (me_resolve E output) fs then (Inl FileExistsExc, fs)
       else (let out = me_resolve E output in
         bindM (pureM (muxer (path_suffix out))) (\<lambda>mux.
         bindM (tool_act E (remux_command ffmpeg src mux out)) (\<lambda>ev fs.
           if \<not> tool_ok ev \<or> fs out = None
           then bindM (unlink E out) (\<lambda>_. raiseM (RemuxFailure src out ev)) fs
           else (Inr ev, fs))) fs))"

section \<open>Decoding\<close>

definition decoder_command :: "path \<Rightarrow> string \<Rightarrow> string list" where
  "decoder_command p ffmpeg =
     [ffmpeg, ''-v'', ''error'', ''-i'', path_str p, ''-map'', ''0:a:0'', ''-f'', ''null'', ''-'']"

definition decoder_evidence :: "media_env \<Rightarrow> path \<Rightarrow> string \<Rightarrow> tool_evidence media_act" where
  "decoder_evidence E p ffmpeg = tool_act E (decoder_command p ffmpeg)"

section \<open>Integers in texts\<close>

text \<open>The digits of \<open>int(s)\<close>: single underscores may stand between two of them. The white space
  around the number is dropped, a sign may precede it, and more than 4300 digits raise.\<close>

fun int_digits :: "string \<Rightarrow> string option" where
  "int_digits [] = None"
| "int_digits [c] = (if is_digit c then Some [c] else None)"
| "int_digits (c # d # s) = (if \<not> is_digit c then None
     else map_option ((#) c) (int_digits (if d = CHR ''_'' then s else d # s)))"

fun int_sign :: "string \<Rightarrow> int \<times> string" where
  "int_sign [] = (1, [])"
| "int_sign (c # s) = (if c = CHR ''-'' then (- 1, s) else if c = CHR ''+'' then (1, s) else (1, c # s))"

definition py_int_of :: "string \<Rightarrow> int option" where
  "py_int_of s = (case int_sign (str_strip s) of (sign, t) \<Rightarrow> (case int_digits t of
     None \<Rightarrow> None | Some ds \<Rightarrow> if 4300 < length ds then None else Some (sign * int (digits_value ds))))"

section \<open>Capabilities\<close>

record media_capability =
  cap_container :: string
  cap_codec :: string

record media_technical =
  mt_bit_depth :: "int option"
  mt_sample_rate :: "int option"
  mt_channels :: "int option"
  mt_bitrate :: "int option"

record capability_inspection =
  ci_capability :: "media_capability option"
  ci_ffprobe :: tool_evidence
  ci_streams :: nat
  ci_technical :: "media_technical option"

definition DECLARED_PUBLICATION_CAPABILITIES :: "media_capability list" where
  "DECLARED_PUBLICATION_CAPABILITIES = map (\<lambda>(c, d). \<lparr>cap_container = c, cap_codec = d\<rparr>)
     [(''flac'', ''flac''), (''mov,mp4,m4a,3gp,3g2,mj2'', ''alac''), (''mov,mp4,m4a,3gp,3g2,mj2'', ''aac''),
      (''mp3'', ''mp3''), (''ogg'', ''opus''), (''ogg'', ''vorbis''),
      (''matroska,webm'', ''aac''), (''matroska,webm'', ''alac''), (''matroska,webm'', ''flac''),
      (''matroska,webm'', ''mp3''), (''matroska,webm'', ''opus''), (''matroska,webm'', ''vorbis'')]"

fun positive_int :: "json option \<Rightarrow> int option" where
  "positive_int (Some (JInt i)) = (if 0 < i then Some i else None)"
| "positive_int (Some (JStr s)) = (case py_int_of s of Some i \<Rightarrow> if 0 < i then Some i else None | None \<Rightarrow> None)"
| "positive_int _ = None"

fun or_else :: "'a option \<Rightarrow> 'a option \<Rightarrow> 'a option" where
  "or_else (Some x) _ = Some x"
| "or_else None y = y"

fun is_mapping :: "json \<Rightarrow> bool" where
  "is_mapping (JObj kvs) = True"
| "is_mapping _ = False"

definition audio_stream :: "json \<Rightarrow> bool" where
  "audio_stream j \<longleftrightarrow> (case obj_get j ''codec_name'' of Some (JStr s) \<Rightarrow> True | _ \<Rightarrow> False)
     \<and> obj_get j ''codec_type'' = Some (JStr ''audio'')"

definition technical_of :: "json \<Rightarrow> media_technical" where
  "technical_of s = \<lparr>
     mt_bit_depth = or_else (positive_int (obj_get s ''bits_per_sample'')) (positive_int (obj_get s ''bits_per_raw_sample'')),
     mt_sample_rate = positive_int (obj_get s ''sample_rate''), mt_channels = positive_int (obj_get s ''channels''),
     mt_bitrate = positive_int (obj_get s ''bit_rate'')\<rparr>"

text \<open>\<open>json.loads\<close> raises on a text that is no JSON.\<close>

definition parse_capability ::
  "string \<Rightarrow> bool \<Rightarrow> media_exc + media_capability option \<times> nat \<times> media_technical option" where
  "parse_capability payload publication_only = (case loads payload of
     None \<Rightarrow> Inl JSONDecodeExc
   | Some j \<Rightarrow> (case (obj_get j ''format'', obj_get j ''streams'') of
       (Some (JObj fmt), Some (JArr streams)) \<Rightarrow>
         (let audio = filter audio_stream (filter is_mapping streams) in
          case (map_of fmt ''format_name'', audio) of
            (Some (JStr names), [stream]) \<Rightarrow> (case obj_get stream ''codec_name'' of
              Some (JStr codec) \<Rightarrow>
                (let cap = \<lparr>cap_container = names, cap_codec = codec\<rparr> in
                 if publication_only \<and> cap \<notin> set DECLARED_PUBLICATION_CAPABILITIES then Inr (None, 1, None)
                 else Inr (Some cap, 1, Some (technical_of stream)))
            | _ \<Rightarrow> Inr (None, 1, None))
          | _ \<Rightarrow> Inr (None, length audio, None))
     | _ \<Rightarrow> Inr (None, 0, None)))"

definition capability_command :: "path \<Rightarrow> string \<Rightarrow> string list" where
  "capability_command p ffprobe =
     [ffprobe, ''-v'', ''error'', ''-show_entries'',
      ''format=format_name:stream=codec_type,codec_name,bits_per_sample,bits_per_raw_sample,sample_rate,channels,bit_rate'',
      ''-of'', ''json'', path_str p]"

definition inspect_media_capability ::
  "media_env \<Rightarrow> path \<Rightarrow> string \<Rightarrow> bool \<Rightarrow> capability_inspection media_act" where
  "inspect_media_capability E p ffprobe publication_only =
     bindM (tool_act E (capability_command p ffprobe)) (\<lambda>ev.
       if \<not> tool_ok ev
       then giveM \<lparr>ci_capability = None, ci_ffprobe = ev, ci_streams = 0, ci_technical = None\<rparr>
       else bindM (pureM (parse_capability (t_stdout ev) publication_only)) (\<lambda>(cap, n, tech).
         giveM \<lparr>ci_capability = cap, ci_ffprobe = ev, ci_streams = n, ci_technical = tech\<rparr>))"

section \<open>Fingerprints\<close>

datatype fingerprint_state = FpSuccess | FpSkippedQuarantined | FpFailed | FpUnavailable | FpExecutionFailed
  | FpTimedOut | FpMalformed

record fingerprint_result =
  fr_state :: fingerprint_state
  fr_fingerprint :: "string option"
  fr_duration :: "json option"
  fr_version :: "string option"
  fr_sha256 :: string
  fr_tool :: "tool_evidence option"
  fr_version_tool :: "tool_evidence option"

text \<open>\<open>^fpcalc version (?P<version>[^\s]+)\<close> at the beginning of some line.\<close>

definition version_prefix :: string where "version_prefix = ''fpcalc version ''"

fun find_version :: "bool \<Rightarrow> string \<Rightarrow> string option" where
  "find_version line_start [] = None"
| "find_version line_start (c # s) =
     (let v = takeWhile (\<lambda>x. \<not> is_space x) (drop (length version_prefix) (c # s)) in
      if line_start \<and> str_startswith (c # s) version_prefix \<and> v \<noteq> [] then Some v
      else find_version (c = CHR 0x0A) s)"

definition fpcalc_version :: "tool_evidence \<Rightarrow> string option" where
  "fpcalc_version ev = (if tool_ok ev then find_version True (t_stdout ev) else None)"

fun state_from_tool :: "tool_state \<Rightarrow> fingerprint_state" where
  "state_from_tool SUCCESS = FpMalformed"
| "state_from_tool FAILED = FpFailed"
| "state_from_tool MISSING = FpUnavailable"
| "state_from_tool EXECUTION_FAILED = FpExecutionFailed"
| "state_from_tool TIMED_OUT = FpTimedOut"

text \<open>\<open>payload\<close> is Pydantic's validation of the answer: a fingerprint of at least one character and
  a duration that is not negative.\<close>

definition parse_fingerprint ::
  "media_env \<Rightarrow> (string \<Rightarrow> (string \<times> json) option) \<Rightarrow> tool_evidence \<Rightarrow> string \<Rightarrow> string \<Rightarrow> fingerprint_result media_act" where
  "parse_fingerprint E payload tool sha fpcalc = (case payload (t_stdout tool) of
     None \<Rightarrow> giveM \<lparr>fr_state = FpMalformed, fr_fingerprint = None, fr_duration = None, fr_version = None,
       fr_sha256 = sha, fr_tool = Some tool, fr_version_tool = None\<rparr>
   | Some (fp, dur) \<Rightarrow> bindM (tool_act E [fpcalc, ''-version'']) (\<lambda>vt. giveM
       \<lparr>fr_state = (case fpcalc_version vt of None \<Rightarrow> state_from_tool (t_state vt) | Some _ \<Rightarrow> FpSuccess),
        fr_fingerprint = Some fp, fr_duration = Some dur, fr_version = fpcalc_version vt,
        fr_sha256 = sha, fr_tool = Some tool, fr_version_tool = Some vt\<rparr>))"

definition fingerprint_from_tool ::
  "media_env \<Rightarrow> (string \<Rightarrow> (string \<times> json) option) \<Rightarrow> tool_evidence \<Rightarrow> string \<Rightarrow> fingerprint_result media_act" where
  "fingerprint_from_tool E payload tool fpcalc =
     (let sha = me_sha256 E (str_encode (t_stdout tool)) in
      if tool_ok tool then parse_fingerprint E payload tool sha fpcalc
      else giveM \<lparr>fr_state = state_from_tool (t_state tool), fr_fingerprint = None, fr_duration = None,
        fr_version = None, fr_sha256 = sha, fr_tool = Some tool, fr_version_tool = None\<rparr>)"

definition calculate_fingerprint ::
  "media_env \<Rightarrow> (string \<Rightarrow> (string \<times> json) option) \<Rightarrow> path \<Rightarrow> inspection_state option \<Rightarrow> string
   \<Rightarrow> fingerprint_result media_act" where
  "calculate_fingerprint E payload p inspection fpcalc =
     (if inspection \<notin> {None, Some VALID}
      then giveM \<lparr>fr_state = FpSkippedQuarantined, fr_fingerprint = None, fr_duration = None, fr_version = None,
        fr_sha256 = me_sha256 E [], fr_tool = None, fr_version_tool = None\<rparr>
      else bindM (tool_act E [fpcalc, ''-json'', path_str p]) (\<lambda>tool. fingerprint_from_tool E payload tool fpcalc))"

record fingerprint_row =
  fw_id :: nat
  fw_source :: string
  fw_result :: fingerprint_result

text \<open>The latest successful row of a source is used again; otherwise the result becomes a row.\<close>

definition successful_evidence :: "string \<Rightarrow> fingerprint_row list \<Rightarrow> fingerprint_row option" where
  "successful_evidence src rows = first_min (\<lambda>r. - int (fw_id r))
     (filter (\<lambda>r. fw_source r = src \<and> fr_state (fw_result r) = FpSuccess) rows)"

definition fingerprint_source ::
  "media_env \<Rightarrow> (string \<Rightarrow> (string \<times> json) option) \<Rightarrow> string \<Rightarrow> path \<Rightarrow> inspection_state option \<Rightarrow> string \<Rightarrow> nat
   \<Rightarrow> fingerprint_row list \<Rightarrow> (fingerprint_result \<times> fingerprint_row list) media_act" where
  "fingerprint_source E payload src p inspection fpcalc new rows =
     (case successful_evidence src rows of
        Some r \<Rightarrow> giveM ((fw_result r)\<lparr>fr_tool := None, fr_version_tool := None\<rparr>, rows)
      | None \<Rightarrow> bindM (calculate_fingerprint E payload p inspection fpcalc) (\<lambda>res.
          giveM (res, rows @ [\<lparr>fw_id = new, fw_source = src, fw_result = res\<rparr>])))"

lemma fingerprint_success_complete:
  assumes "calculate_fingerprint E payload p inspection fpcalc fs = (Inr res, fs')" and "fr_state res = FpSuccess"
  shows "fr_fingerprint res \<noteq> None \<and> fr_duration res \<noteq> None \<and> fr_version res \<noteq> None \<and> inspection \<in> {None, Some VALID}"
proof -
  have st: "state_from_tool t \<noteq> FpSuccess" for t by (cases t) simp_all
  show ?thesis using assms
    by (auto simp: calculate_fingerprint_def fingerprint_from_tool_def parse_fingerprint_def media_simps Let_def st
        split: if_splits option.splits)
qed

end
