(* ===== verification/Layout.thy ===== *)
theory Layout imports Media Genres begin

text \<open>
  \<^bold>\<open>Canonical metadata and the published layout\<close> (\<^verbatim>\<open>services/metadata.py\<close>): the metadata a source's own
  tags give, the directory and the file name under which a track is published, the counter of names
  for unsorted tracks, and the policies handed to the metadata writer.

  Names are made of tag values, which come from outside. The theory shows that every component of a
  layout is a proper file name: it cannot leave the output directory or split into more components.
\<close>

section \<open>Fallback metadata\<close>

datatype canonical_source = VERIFIED_RELEASE | AUTOMATIC_FALLBACK | REVIEWED_MANUAL | REVIEWED_LOCAL_ONLY

record canonical_metadata =
  cm_source :: canonical_source
  cm_title :: string
  cm_artists :: "string list"
  cm_album :: string
  cm_album_artists :: "string list"
  cm_date :: string
  cm_original_date :: "string option"
  cm_track_number :: int
  cm_track_total :: int
  cm_disc_number :: int
  cm_disc_total :: int
  cm_genres :: "string list"
  cm_recording :: "string option"
  cm_artist_ids :: "string list"
  cm_album_artist_ids :: "string list"
  cm_album_id :: "string option"
  cm_release_group :: "string option"
  cm_isrc :: "string option"
  cm_performer :: "string option"

type_synonym tags = "(string \<times> string) list"

text \<open>\<open>s.split('; ')\<close>; \<open>w\<close> holds the reversed current part.\<close>

fun split_semi_aux :: "string \<Rightarrow> string \<Rightarrow> string list" where
  "split_semi_aux w [] = [rev w]"
| "split_semi_aux w (c # s) =
     (if c = CHR '';'' \<and> take 1 s = '' '' then rev w # split_semi_aux [] (tl s) else split_semi_aux (c # w) s)"

definition split_semi :: "string \<Rightarrow> string list" where
  "split_semi s = split_semi_aux [] s"

definition nonempty :: "string list \<Rightarrow> string list" where
  "nonempty = filter (\<lambda>s. s \<noteq> [])"

text \<open>\<open>tuple(filter(None, values.get(name, '').split('; ')))\<close>.\<close>

definition split_ids :: "string option \<Rightarrow> string list" where
  "split_ids v = nonempty (split_semi (case v of None \<Rightarrow> [] | Some s \<Rightarrow> s))"

definition required_names :: "string list" where
  "required_names = [''TITLE'', ''ARTIST'', ''ALBUM'', ''ALBUMARTIST'', ''DATE'', ''TRACKNUMBER'', ''TRACKTOTAL'',
     ''DISCNUMBER'', ''DISCTOTAL'', ''GENRE'']"

text \<open>\<open>int\<close> of a text that is no number raises a \<open>ValueError\<close>, which is not caught.\<close>

definition int_or_raise :: "string \<Rightarrow> media_exc + int" where
  "int_or_raise s = (case py_int_of s of None \<Rightarrow> Inl ValueExc | Some i \<Rightarrow> Inr i)"

definition fallback_metadata :: "tags \<Rightarrow> canonical_source \<Rightarrow> media_exc + canonical_metadata option" where
  "fallback_metadata tags source =
     (let values = dict_of tags; value = (\<lambda>n. dict_get values n) in
      if list_ex (\<lambda>n. value n = None) required_names then Inr None
      else if nonempty (split_semi (the (value ''GENRE''))) = [] then Inr None
      else bindR (int_or_raise (the (value ''TRACKNUMBER''))) (\<lambda>track.
        bindR (int_or_raise (the (value ''TRACKTOTAL''))) (\<lambda>track_total.
        bindR (int_or_raise (the (value ''DISCNUMBER''))) (\<lambda>disc.
        bindR (int_or_raise (the (value ''DISCTOTAL''))) (\<lambda>disc_total.
        Inr (Some \<lparr>
          cm_source = source, cm_title = the (value ''TITLE''), cm_artists = split_semi (the (value ''ARTIST'')),
          cm_album = the (value ''ALBUM''), cm_album_artists = split_semi (the (value ''ALBUMARTIST'')),
          cm_date = the (value ''DATE''), cm_original_date = value ''ORIGINALDATE'',
          cm_track_number = track, cm_track_total = track_total, cm_disc_number = disc, cm_disc_total = disc_total,
          cm_genres = nonempty (split_semi (the (value ''GENRE''))),
          cm_recording = value ''MUSICBRAINZ_RECORDINGID'',
          cm_artist_ids = split_ids (value ''MUSICBRAINZ_ARTISTID''),
          cm_album_artist_ids = split_ids (value ''MUSICBRAINZ_ALBUMARTISTID''),
          cm_album_id = value ''MUSICBRAINZ_ALBUMID'', cm_release_group = value ''MUSICBRAINZ_RELEASEGROUPID'',
          cm_isrc = value ''ISRC'', cm_performer = value ''PERFORMER''\<rparr>))))))"

section \<open>File names\<close>

text \<open>\<open>[\\/:*?"<>|\x00-\x1f]\<close>.\<close>

definition unsafe_char :: "char \<Rightarrow> bool" where
  "unsafe_char c \<longleftrightarrow> c \<in> {CHR 0x5C, CHR ''/'', CHR '':'', CHR ''*'', CHR ''?'', CHR 0x22, CHR ''<'', CHR ''>'', CHR ''|''}
     \<or> (of_char c :: nat) < 32"

text \<open>\<open>re.sub(unsafe+, '-', s)\<close>: a run of unsafe characters becomes one dash.\<close>

fun dash_runs :: "bool \<Rightarrow> string \<Rightarrow> string" where
  "dash_runs in_run [] = []"
| "dash_runs in_run (c # s) =
     (if \<not> unsafe_char c then c # dash_runs False s
      else if in_run then dash_runs True s else CHR ''-'' # dash_runs True s)"

text \<open>\<open>re.sub(r'\s*-\s*', ' - ', s)\<close>.\<close>

function space_dashes :: "string \<Rightarrow> string" where
  "space_dashes s = (case s of [] \<Rightarrow> [] | c # t \<Rightarrow> (case dropWhile is_space s of
       d # r \<Rightarrow> if d = CHR ''-'' then '' - '' @ space_dashes (dropWhile is_space r) else c # space_dashes t
     | [] \<Rightarrow> c # space_dashes t))"
  by pat_completeness auto

lemma dropWhile_shorter: "dropWhile P s = d # r \<Longrightarrow> length (dropWhile Q r) < length s"
  by (metis impossible_Cons le_less_linear length_dropWhile_le less_le_trans not_less)

termination space_dashes
  by (relation "measure length") (auto dest: dropWhile_shorter simp del: dropWhile.simps)

declare space_dashes.simps [simp del]

text \<open>\<open>s.strip(' .')\<close>.\<close>

definition strip_dots :: "string \<Rightarrow> string" where
  "strip_dots s = (let p = (\<lambda>c. c = CHR '' '' \<or> c = CHR ''.'') in rev (dropWhile p (rev (dropWhile p s))))"

definition safe_component :: "string \<Rightarrow> string \<Rightarrow> string" where
  "safe_component value fallback =
     (let cleaned = strip_dots (space_dashes (dash_runs False value)) in if cleaned = [] then fallback else cleaned)"

definition album_directory :: "string \<Rightarrow> string option \<Rightarrow> string" where
  "album_directory album mbid =
     (let mark = (case mbid of None \<Rightarrow> [] | Some m \<Rightarrow>
        if str_strip m = [] then [] else '' ['' @ take 8 (str_strip m) @ '']'') in
      safe_component (album @ mark) ''Unknown Album'')"

text \<open>\<open>f'{n:02d}'\<close>.\<close>

definition two_digits :: "int \<Rightarrow> string" where
  "two_digits n = (if 0 \<le> n \<and> n < 10 then CHR ''0'' # json_int n else json_int n)"

definition positive_number :: "string option \<Rightarrow> int option" where
  "positive_number v = (case v of None \<Rightarrow> None | Some s \<Rightarrow>
     (case py_int_of s of Some i \<Rightarrow> if 0 < i then Some i else None | None \<Rightarrow> None))"

fun track_prefix :: "int option \<Rightarrow> int option \<Rightarrow> int option \<Rightarrow> string" where
  "track_prefix None disc discs = []"
| "track_prefix (Some track) disc discs =
     (if (case (discs, disc) of (Some t, Some d) \<Rightarrow> 1 < t \<and> d \<noteq> 0 | _ \<Rightarrow> False)
      then two_digits (the disc) @ ''-'' @ two_digits track else two_digits track)"

text \<open>The first of two optional texts that is present and not empty.\<close>

definition text_or :: "string option \<Rightarrow> string option \<Rightarrow> string" where
  "text_or a b = (case a of Some s \<Rightarrow> if s \<noteq> [] then s else (case b of Some t \<Rightarrow> t | None \<Rightarrow> [])
     | None \<Rightarrow> (case b of Some t \<Rightarrow> t | None \<Rightarrow> []))"

definition loose_file_name :: "string \<Rightarrow> int option \<Rightarrow> int option \<Rightarrow> int option \<Rightarrow> string" where
  "loose_file_name title track disc discs =
     (if title = [] then (case track of Some n \<Rightarrow> ''Track '' @ two_digits n @ ''.mka'' | None \<Rightarrow> ''Track 01.mka'')
      else (let prefix = track_prefix track disc discs; safe_title = safe_component title ''Unknown Track'' in
        if prefix \<noteq> [] then prefix @ '' - '' @ safe_title @ ''.mka'' else safe_title @ ''.mka''))"

definition layout_without_metadata :: "(string \<times> string) list \<Rightarrow> string \<times> string" where
  "layout_without_metadata values =
     (let artist = text_or (dict_get values ''ALBUMARTIST'') (dict_get values ''ARTIST'');
          album = text_or (dict_get values ''ALBUM'') None in
      if artist = [] \<or> album = [] then (''Unsorted'', ''Track 01.mka'')
      else (safe_component artist ''Unknown Artist'' @ ''/'' @ album_directory album (dict_get values ''MUSICBRAINZ_ALBUMID''),
        loose_file_name (text_or (dict_get values ''TITLE'') None) (positive_number (dict_get values ''TRACKNUMBER''))
          (positive_number (dict_get values ''DISCNUMBER'')) (positive_number (dict_get values ''DISCTOTAL''))))"

definition layout_with_metadata :: "canonical_metadata \<Rightarrow> string option \<Rightarrow> string \<times> string" where
  "layout_with_metadata m mbid =
     (safe_component (str_join '' & '' (cm_album_artists m)) ''Unknown Artist'' @ ''/'' @ album_directory (cm_album m) mbid,
      track_prefix (Some (cm_track_number m)) (Some (cm_disc_number m)) (Some (cm_disc_total m)) @ '' - '' @
        safe_component (cm_title m) ''Unknown Track'' @ ''.mka'')"

definition publication_layout :: "tags \<Rightarrow> media_exc + string \<times> string" where
  "publication_layout tags = bindR (fallback_metadata tags AUTOMATIC_FALLBACK) (\<lambda>metadata.
     case metadata of
       None \<Rightarrow> Inr (layout_without_metadata (dict_of tags))
     | Some m \<Rightarrow> Inr (layout_with_metadata m (dict_get (dict_of tags) ''MUSICBRAINZ_ALBUMID'')))"

section \<open>Names of unsorted tracks\<close>

text \<open>The counter is one row; the allocation increments it and reads it back in one statement.\<close>

definition allocate_unsorted_filename :: "string \<Rightarrow> int option \<Rightarrow> (string + string) \<times> int option" where
  "allocate_unsorted_filename ending counter =
     (if str_casefold ending \<noteq> ''.mka'' then (Inl ''UnsortedFilenameSuffixError'', counter)
      else (case counter of
        None \<Rightarrow> (Inl ''RuntimeError'', None)
      | Some n \<Rightarrow> (Inr (''Track '' @ two_digits (n + 1) @ str_casefold ending), Some (n + 1))))"

section \<open>Policies\<close>

definition ALLOWED_TAG_KEYS :: "string list" where
  "ALLOWED_TAG_KEYS = [''TITLE'', ''ARTIST'', ''ALBUM'', ''ALBUMARTIST'', ''DATE'', ''ORIGINALDATE'', ''TRACKNUMBER'',
     ''TRACKTOTAL'', ''DISCNUMBER'', ''DISCTOTAL'', ''GENRE'', ''MUSICBRAINZ_RECORDINGID'', ''MUSICBRAINZ_ARTISTID'',
     ''MUSICBRAINZ_ALBUMARTISTID'', ''MUSICBRAINZ_ALBUMID'', ''MUSICBRAINZ_RELEASEGROUPID'', ''ISRC'', ''PERFORMER'']"

record field_policy =
  fp_separator :: string
  fp_keys :: "string list"

definition default_fields :: field_policy where
  "default_fields = \<lparr>fp_separator = ''; '', fp_keys = sort ALLOWED_TAG_KEYS\<rparr>"

text \<open>\<open>GenrePolicy\<close>'s validator, and the policy of a publication: the configured genres, then those of
  the metadata; \<open>configured\<close> are the genres and aliases of the settings.\<close>

definition genre_policy_ok :: "genre_policy \<Rightarrow> bool" where
  "genre_policy_ok pol \<longleftrightarrow> gpol_canonical pol \<noteq> []
     \<and> list_all (\<lambda>(a, t). str_strip a \<noteq> [] \<and> t \<noteq> [] \<and> set t \<subseteq> set (gpol_canonical pol)) (gpol_aliases pol)"

definition make_genre_policy ::
  "string list \<Rightarrow> (string list \<times> (string \<times> string list) list) option \<Rightarrow> media_exc + genre_policy" where
  "make_genre_policy fallback configured =
     (let genres = (case configured of None \<Rightarrow> [] | Some (gs, _) \<Rightarrow> gs);
          aliases = (case configured of None \<Rightarrow> [] | Some (_, as) \<Rightarrow> as);
          pol = \<lparr>gpol_canonical = dedup (genres @ fallback), gpol_aliases = aliases\<rparr> in
      if genre_policy_ok pol then Inr pol else Inl ValueExc)"

section \<open>Every layout consists of proper names\<close>

text \<open>A name of one path component: not empty, no separator or other unsafe character, and no dot or
  blank at either end, so that it is neither of the directory links.\<close>

definition proper_name :: "string \<Rightarrow> bool" where
  "proper_name s \<longleftrightarrow> s \<noteq> [] \<and> list_all (\<lambda>c. \<not> unsafe_char c) s
     \<and> hd s \<notin> {CHR '' '', CHR ''.''} \<and> last s \<notin> {CHR '' '', CHR ''.''}"

lemma proper_name_no_link:
  assumes "proper_name s"
  shows "s \<noteq> ''.'' \<and> s \<noteq> ''..'' \<and> CHR ''/'' \<notin> set s"
proof -
  have "\<not> proper_name ''.''" and "\<not> proper_name ''..''" by (simp_all add: proper_name_def)
  moreover have "unsafe_char (CHR ''/'')" by (simp add: unsafe_char_def)
  ultimately show ?thesis using assms by (auto simp only: proper_name_def list_all_iff)
qed

lemma dash_safe: "\<not> unsafe_char (CHR ''-'')" and blank_safe: "\<not> unsafe_char (CHR '' '')"
  by code_simp+

lemma dash_runs_safe: "list_all (\<lambda>c. \<not> unsafe_char c) (dash_runs b s)"
  by (induction b s rule: dash_runs.induct) (simp_all add: dash_safe)

lemma space_dashes_chars: "set (space_dashes s) \<subseteq> set s \<union> {CHR '' '', CHR ''-''}"
proof (induction s rule: space_dashes.induct)
  case (1 s)
  show ?case
  proof (cases s)
    case (Cons c t)
    show ?thesis
    proof (cases "dropWhile is_space s")
      case Nil
      then have "space_dashes s = c # space_dashes t" unfolding space_dashes.simps [of s] using Cons by simp
      then show ?thesis using "1.IH"(1) [OF Cons Nil] Cons by auto
    next
      case d: (Cons d r)
      have sub: "set r \<subseteq> set s" using set_dropWhileD [of _ is_space s] d by fastforce
      show ?thesis
      proof (cases "d = CHR ''-''")
        case True
        then have "space_dashes s = '' - '' @ space_dashes (dropWhile is_space r)"
          unfolding space_dashes.simps [of s] using Cons d by simp
        then show ?thesis using "1.IH"(2) [OF Cons d True] sub set_dropWhileD [of _ is_space r] by fastforce
      next
        case False
        then have "space_dashes s = c # space_dashes t" unfolding space_dashes.simps [of s] using Cons d by simp
        then show ?thesis using "1.IH"(3) [OF Cons d False] Cons by auto
      qed
    qed
  qed (simp add: space_dashes.simps)
qed

lemma strip_dots_ends:
  assumes "strip_dots s \<noteq> []"
  shows "set (strip_dots s) \<subseteq> set s" and "hd (strip_dots s) \<notin> {CHR '' '', CHR ''.''}"
    and "last (strip_dots s) \<notin> {CHR '' '', CHR ''.''}"
proof -
  define P where "P = (\<lambda>c. c = CHR '' '' \<or> c = CHR ''.'')"
  define t where "t = dropWhile P s"
  define u where "u = dropWhile P (rev t)"
  have e: "strip_dots s = rev u" by (simp add: strip_dots_def P_def t_def u_def Let_def)
  have ne: "u \<noteq> []" using assms e by simp
  obtain v where v: "rev t = v @ u" by (metis u_def takeWhile_dropWhile_id)
  then have tu: "t = rev u @ rev v" by (metis rev_append rev_rev_ident)
  show "set (strip_dots s) \<subseteq> set s" using e tu set_dropWhileD [of _ P s] by (auto simp: t_def)
  have "\<not> P (hd u)" using hd_dropWhile [OF ne [unfolded u_def]] unfolding u_def .
  then show "last (strip_dots s) \<notin> {CHR '' '', CHR ''.''}" using e ne by (simp add: P_def last_rev)
  have "t \<noteq> []" using ne tu by simp
  then have "\<not> P (hd t)" unfolding t_def by (rule hd_dropWhile)
  moreover have "hd t = hd (rev u)" using ne by (simp add: tu)
  ultimately show "hd (strip_dots s) \<notin> {CHR '' '', CHR ''.''}" using e by (simp add: P_def)
qed

lemma safe_component_proper: "proper_name fallback \<Longrightarrow> proper_name (safe_component s fallback)"
proof -
  assume f: "proper_name fallback"
  define t where "t = space_dashes (dash_runs False s)"
  show ?thesis
  proof (cases "strip_dots t = []")
    case True
    then show ?thesis using f by (simp add: safe_component_def t_def)
  next
    case False
    have "list_all (\<lambda>c. \<not> unsafe_char c) t"
      using space_dashes_chars [of "dash_runs False s"] dash_runs_safe [of False s] dash_safe blank_safe
      by (auto simp: list_all_iff t_def)
    then have "list_all (\<lambda>c. \<not> unsafe_char c) (strip_dots t)"
      using strip_dots_ends(1) [OF False] by (auto simp: list_all_iff)
    then have "proper_name (strip_dots t)"
      unfolding proper_name_def using False strip_dots_ends(2,3) [OF False] by blast
    then show ?thesis using False by (simp add: safe_component_def t_def [symmetric] Let_def)
  qed
qed

lemma default_names_proper:
  "proper_name ''Unknown Artist''" "proper_name ''Unknown Album''" "proper_name ''Unknown Track''"
  "proper_name ''Unsorted''" "proper_name ''Track 01.mka''"
  by code_simp+

lemma album_directory_proper: "proper_name (album_directory album mbid)"
  unfolding album_directory_def Let_def by (rule safe_component_proper) (rule default_names_proper)

text \<open>Track numbers are digits with signs and dashes; what follows them ends in \<open>.mka\<close>.\<close>

definition number_char :: "char \<Rightarrow> bool" where
  "number_char c \<longleftrightarrow> is_digit c \<or> c = CHR ''-''"

lemma number_char_safe: "number_char c \<Longrightarrow> \<not> unsafe_char c \<and> c \<notin> {CHR '' '', CHR ''.''}"
proof -
  have "\<forall>c. number_char c \<longrightarrow> \<not> unsafe_char c \<and> c \<notin> {CHR '' '', CHR ''.''}" by code_simp
  then show "number_char c \<Longrightarrow> ?thesis" by blast
qed

lemma two_digits_chars: "list_all number_char (two_digits n) \<and> two_digits n \<noteq> []"
  using nat_digits_ok [of "nat n"] nat_digits_ok [of "nat (- n)"]
  by (auto simp: two_digits_def json_int_def list_all_iff number_char_def is_digit_def)

lemma track_prefix_chars: "list_all number_char (track_prefix track disc discs)"
  using two_digits_chars
  by (cases "(track, disc, discs)" rule: track_prefix.cases) (auto simp: number_char_def list_all_iff)

lemma mka_name_proper:
  assumes "list_all (\<lambda>c. \<not> unsafe_char c) s" and "s \<noteq> []" and "hd s \<notin> {CHR '' '', CHR ''.''}"
  shows "proper_name (s @ ''.mka'') \<and> str_endswith (s @ ''.mka'') ''.mka''"
proof -
  have m: "list_all (\<lambda>c. \<not> unsafe_char c) ''.mka''" by code_simp
  show ?thesis using assms m by (simp add: proper_name_def str_endswith_def)
qed

lemma prefixed_name_proper:
  assumes "list_all number_char p" and "p \<noteq> []" and "proper_name t"
  shows "proper_name (p @ '' - '' @ t @ ''.mka'') \<and> str_endswith (p @ '' - '' @ t @ ''.mka'') ''.mka''"
proof -
  have "list_all (\<lambda>c. \<not> unsafe_char c) (p @ '' - '' @ t)" and "hd (p @ '' - '' @ t) \<notin> {CHR '' '', CHR ''.''}"
    using assms number_char_safe dash_safe blank_safe by (auto simp: proper_name_def list_all_iff hd_append)
  from mka_name_proper [OF this(1) _ this(2)] show ?thesis using assms(2) by simp
qed

lemma number_chars_safe: "list_all number_char s \<Longrightarrow> list_all (\<lambda>c. \<not> unsafe_char c) s"
  using number_char_safe by (simp add: list_all_iff)

lemma track_name_proper:
  "proper_name (''Track '' @ two_digits n @ ''.mka'') \<and> str_endswith (''Track '' @ two_digits n @ ''.mka'') ''.mka''"
proof -
  have t: "list_all (\<lambda>c. \<not> unsafe_char c) ''Track ''" by code_simp
  have d: "list_all (\<lambda>c. \<not> unsafe_char c) (two_digits n)"
    using two_digits_chars [of n] number_chars_safe by blast
  have "list_all (\<lambda>c. \<not> unsafe_char c) (''Track '' @ two_digits n)"
    using t d by (simp only: list_all_append simp_thms)
  moreover have "''Track '' @ two_digits n \<noteq> []" and "hd (''Track '' @ two_digits n) \<notin> {CHR '' '', CHR ''.''}"
    by simp_all
  ultimately show ?thesis unfolding append_assoc [symmetric] by (rule mka_name_proper)
qed

lemma title_name_proper: "proper_name t \<Longrightarrow> proper_name (t @ ''.mka'') \<and> str_endswith (t @ ''.mka'') ''.mka''"
  by (rule mka_name_proper) (simp_all add: proper_name_def)

definition proper_layout :: "string \<times> string \<Rightarrow> bool" where
  "proper_layout l \<longleftrightarrow> fst l \<in> {str_join ''/'' ds |ds. ds \<noteq> [] \<and> length ds \<le> 2 \<and> list_all proper_name ds}
     \<and> proper_name (snd l) \<and> str_endswith (snd l) ''.mka''"

lemma proper_layoutI:
  "proper_name a \<Longrightarrow> proper_name b \<Longrightarrow> proper_name f \<and> str_endswith f ''.mka'' \<Longrightarrow> proper_layout (a @ ''/'' @ b, f)"
  unfolding proper_layout_def by (rule conjI) (auto intro!: exI [of _ "[a, b]"])

lemma unsorted_layout: "proper_layout (''Unsorted'', ''Track 01.mka'')"
proof -
  have e: "str_endswith ''Track 01.mka'' ''.mka''" by code_simp
  show ?thesis unfolding proper_layout_def using default_names_proper(4,5) e
    by (auto intro!: exI [of _ "[''Unsorted'']"])
qed

lemma loose_file_name_proper:
  "proper_name (loose_file_name title track disc discs) \<and> str_endswith (loose_file_name title track disc discs) ''.mka''"
proof -
  have mka: "str_endswith ''Track 01.mka'' ''.mka''" by code_simp
  note t = safe_component_proper [OF default_names_proper(3), of title]
  show ?thesis
    using prefixed_name_proper [OF track_prefix_chars _ t] title_name_proper [OF t] track_name_proper
      default_names_proper(5) mka
    by (simp add: loose_file_name_def Let_def split: option.split)
qed

lemma layout_without_metadata_proper: "proper_layout (layout_without_metadata values)"
  using unsorted_layout proper_layoutI [OF safe_component_proper [OF default_names_proper(1)] album_directory_proper
      loose_file_name_proper]
  by (simp only: layout_without_metadata_def Let_def split: if_split) blast

lemma layout_with_metadata_proper: "proper_layout (layout_with_metadata m mbid)"
proof -
  have "track_prefix (Some track) disc discs \<noteq> []" for track disc discs
    using two_digits_chars by simp
  note prefixed_name_proper [OF track_prefix_chars this safe_component_proper [OF default_names_proper(3)]]
  then show ?thesis unfolding layout_with_metadata_def
    by (intro proper_layoutI safe_component_proper default_names_proper album_directory_proper)
qed

lemma fallback_metadata_raises:
  assumes "fallback_metadata tags src = Inl e"
  shows "e = ValueExc \<and> list_ex (\<lambda>n. case dict_get (dict_of tags) n of Some v \<Rightarrow> py_int_of v = None | None \<Rightarrow> False)
    [''TRACKNUMBER'', ''TRACKTOTAL'', ''DISCNUMBER'', ''DISCTOTAL'']"
proof -
  have p: "\<not> list_ex (\<lambda>n. dict_get (dict_of tags) n = None) required_names"
    using assms by (auto simp: fallback_metadata_def Let_def split: if_splits)
  have i: "int_or_raise s = Inl x \<longleftrightarrow> x = ValueExc \<and> py_int_of s = None" for s x
    by (auto simp: int_or_raise_def split: option.splits)
  obtain a b c d where v: "dict_get (dict_of tags) ''TRACKNUMBER'' = Some a" "dict_get (dict_of tags) ''TRACKTOTAL'' = Some b"
      "dict_get (dict_of tags) ''DISCNUMBER'' = Some c" "dict_get (dict_of tags) ''DISCTOTAL'' = Some d"
    using p by (auto simp: required_names_def)
  show ?thesis using assms unfolding fallback_metadata_def Let_def
    by (auto simp: v i bindR_Inl_iff split: if_splits)
qed

text \<open>C25. The layout of a publication, whatever the tags are: a directory of one or two proper
  names and a proper file name ending in .mka. The only exception is the ValueError for a track
  or disc number that is no integer, which is raised when all the required tags are present.\<close>

theorem publication_layout_safe:
  "case publication_layout tags of
     Inl e \<Rightarrow> e = ValueExc \<and> list_ex (\<lambda>n. case dict_get (dict_of tags) n of Some v \<Rightarrow> py_int_of v = None | None \<Rightarrow> False)
       [''TRACKNUMBER'', ''TRACKTOTAL'', ''DISCNUMBER'', ''DISCTOTAL'']
   | Inr l \<Rightarrow> proper_layout l"
proof (cases "publication_layout tags")
  case (Inl e)
  then have "fallback_metadata tags AUTOMATIC_FALLBACK = Inl e"
    by (auto simp: publication_layout_def bindR_Inl_iff split: option.splits)
  then show ?thesis unfolding Inl sum.case by (rule fallback_metadata_raises)
next
  case (Inr l)
  then show ?thesis using layout_without_metadata_proper layout_with_metadata_proper
    by (auto simp: publication_layout_def bindR_Inr_iff split: option.splits)
qed

text \<open>A side and number of a record, \<open>A1\<close>, is no integer: with all the required tags it raises, with the
  genre missing it is left out of the name.\<close>

definition vinyl_tags :: tags where
  "vinyl_tags = [(''TITLE'', ''T''), (''ARTIST'', ''A''), (''ALBUM'', ''L''), (''ALBUMARTIST'', ''A''), (''DATE'', ''1970''),
     (''TRACKNUMBER'', ''A1''), (''TRACKTOTAL'', ''5''), (''DISCNUMBER'', ''1''), (''DISCTOTAL'', ''1'')]"

lemma vinyl_position_raises:
  "publication_layout (vinyl_tags @ [(''GENRE'', ''Rock'')]) = Inl ValueExc"
  "publication_layout vinyl_tags = Inr (''A/L'', ''T.mka'')"
  by code_simp+

end
