(* ===== verification/Tags.thy ===== *)
theory Tags imports Layout Lrc begin

text \<open>
  \<^bold>\<open>Container tags\<close> (\<^verbatim>\<open>services/normalize/tags.py\<close>, \<^verbatim>\<open>services/normalize/source_values.py\<close>): reading the
  tags of any audio container into canonical names, replacing them, and projecting the observations
  of a source to one value per name.

  Mutagen is an argument. It opens a file's octets as one of its file types and saves tags into them;
  a save that raises may leave other octets. Vorbis comments are lists of values by name, ID3 tags are
  frames under their hash keys, MP4 atoms are lists of texts, pairs or octets.
\<close>

section \<open>The tag library\<close>

datatype vorbis_kind = FLAC | OggVorbis | OggOpus

text \<open>A value of an easy tag: a list, or another object with its truth and its \<open>str\<close>.\<close>

datatype easy_value = EasyList "string list" | EasyOther bool string

text \<open>What \<open>File(path, easy=True)\<close> gives: nothing, a file without tags, tags that cannot be listed, or
  the items of its tags.\<close>

datatype easy_file = NotAudio | Untagged | Unlistable | EasyItems "(string \<times> easy_value) list"

text \<open>The text argument of a frame's constructor.\<close>

datatype frame_arg = OneText string | TextList "string list"

datatype id3_frame = TextFrame string "string list" | UserText string "string list" | UniqueId string octets
  | OtherFrame string

fun hash_key :: "id3_frame \<Rightarrow> string" where
  "hash_key (TextFrame n ts) = n"
| "hash_key (UserText desc ts) = ''TXXX:'' @ desc"
| "hash_key (UniqueId owner d) = ''UFID:'' @ owner"
| "hash_key (OtherFrame k) = k"

type_synonym id3_tags = "(string \<times> id3_frame) list"

definition id3_add :: "id3_frame \<Rightarrow> id3_tags \<Rightarrow> id3_tags" where
  "id3_add f tags = dict_set (hash_key f) f tags"

datatype mp4_value = Mp4Texts "string list" | Mp4Pairs "(int \<times> int) list" | Mp4Free "octets list" | Mp4Other string

type_synonym mp4_tags = "(string \<times> mp4_value) list"

text \<open>\<open>tl_frame_text\<close> is the text a frame of a class keeps of its argument: multi-valued frames split
  it and time stamps are normalised. An absent file is \<open>None\<close>.\<close>

record tag_library =
  tl_easy :: "octets option \<Rightarrow> media_exc + easy_file"
  tl_vorbis_open :: "vorbis_kind \<Rightarrow> octets option \<Rightarrow> media_exc + (string \<times> string list) list"
  tl_vorbis_save :: "vorbis_kind \<Rightarrow> (string \<times> string list) list \<Rightarrow> octets option \<Rightarrow> media_exc option \<times> octets option"
  tl_frame_text :: "string \<Rightarrow> frame_arg \<Rightarrow> string list"
  tl_id3_open :: "octets option \<Rightarrow> media_exc + id3_tags"
  tl_id3_save :: "id3_tags \<Rightarrow> octets option \<Rightarrow> media_exc option \<times> octets option"
  tl_mp4_open :: "octets option \<Rightarrow> media_exc + mp4_tags option"
  tl_mp4_save :: "mp4_tags \<Rightarrow> octets option \<Rightarrow> media_exc option \<times> octets option"
  tl_flac_info :: "octets option \<Rightarrow> media_exc + int \<times> int \<times> int"

text \<open>\<open>x.save()\<close> on the file at a path.\<close>

definition save_act :: "(octets option \<Rightarrow> media_exc option \<times> octets option) \<Rightarrow> path \<Rightarrow> unit media_act" where
  "save_act save p fs = (case save (fs p) of
     (None, c) \<Rightarrow> (Inr (), fs(p := c)) | (Some e, c) \<Rightarrow> (Inl e, fs(p := c)))"

text \<open>Opening the file at a path.\<close>

definition open_act :: "(octets option \<Rightarrow> media_exc + 'a) \<Rightarrow> path \<Rightarrow> 'a media_act" where
  "open_act opener p fs = (opener (fs p), fs)"

lemma touches_save [intro]: "p \<in> P \<Longrightarrow> touches P (save_act save p)"
  by (auto simp: touches_def save_act_def split: prod.split option.split)

lemma touches_open [simp, intro]: "touches P (open_act opener p)"
  by (simp add: touches_def open_act_def)

lemma save_act_Inr_iff [media_simps]:
  "save_act save p fs = (Inr u, fs') \<longleftrightarrow> (\<exists>c. save (fs p) = (None, c) \<and> fs' = fs(p := c))"
  by (auto simp: save_act_def split: prod.splits option.splits)

lemma open_act_iff [media_simps]: "open_act opener p fs = (r, fs') \<longleftrightarrow> r = opener (fs p) \<and> fs' = fs"
  by (auto simp: open_act_def)

section \<open>Reading\<close>

definition tag_aliases :: "(string \<times> string) list" where
  "tag_aliases = [(''title'', ''TITLE''), (''artist'', ''ARTIST''), (''album'', ''ALBUM''), (''albumartist'', ''ALBUMARTIST''),
     (''album artist'', ''ALBUMARTIST''), (''date'', ''DATE''), (''originaldate'', ''ORIGINALDATE''),
     (''tracknumber'', ''TRACKNUMBER''), (''tracktotal'', ''TRACKTOTAL''), (''discnumber'', ''DISCNUMBER''),
     (''disctotal'', ''DISCTOTAL''), (''genre'', ''GENRE''), (''musicbrainz_recordingid'', ''MUSICBRAINZ_RECORDINGID''),
     (''musicbrainz_artistid'', ''MUSICBRAINZ_ARTISTID''), (''musicbrainz_albumartistid'', ''MUSICBRAINZ_ALBUMARTISTID''),
     (''musicbrainz_albumid'', ''MUSICBRAINZ_ALBUMID''), (''musicbrainz_releasegroupid'', ''MUSICBRAINZ_RELEASEGROUPID''),
     (''isrc'', ''ISRC''), (''performer'', ''PERFORMER'')]"

definition tag_alias :: "string \<Rightarrow> string option" where
  "tag_alias name = map_of tag_aliases (str_casefold name)"

fun easy_text :: "easy_value \<Rightarrow> string option" where
  "easy_text (EasyList []) = None"
| "easy_text (EasyList vs) = Some (str_join ''; '' vs)"
| "easy_text (EasyOther truth s) = (if truth then Some s else None)"

fun collect_easy :: "(string \<times> easy_value) list \<Rightarrow> tags \<Rightarrow> tags" where
  "collect_easy [] d = d"
| "collect_easy ((n, v) # items) d = (case (tag_alias n, easy_text v) of
     (Some c, Some t) \<Rightarrow> collect_easy items (dict_set c t d) | _ \<Rightarrow> collect_easy items d)"

text \<open>A position \<open>3/12\<close> is split into the number and the total.\<close>

definition split_position :: "string \<Rightarrow> string \<Rightarrow> tags \<Rightarrow> tags" where
  "split_position num tot d = (case dict_get d num of
     Some p \<Rightarrow> if CHR ''/'' \<in> set p then (case split_once (CHR ''/'') p of (a, b) \<Rightarrow>
         let d = dict_set num a d in if b \<noteq> [] then dict_set tot b d else d) else d
   | None \<Rightarrow> d)"

definition allowed_only :: "tags \<Rightarrow> tags" where
  "allowed_only = filter (\<lambda>(n, v). n \<in> set ALLOWED_TAG_KEYS)"

definition normalize_positions :: "tags \<Rightarrow> tags" where
  "normalize_positions d = allowed_only (split_position ''DISCNUMBER'' ''DISCTOTAL'' (split_position ''TRACKNUMBER'' ''TRACKTOTAL'' d))"

text \<open>\<open>s.splitlines()\<close>; the line breaks are those of the lyrics theory.\<close>

fun char_lines :: "string \<Rightarrow> string \<Rightarrow> string list" where
  "char_lines w [] = (if w = [] then [] else [rev w])"
| "char_lines w (c # s) =
     (if line_break (of_char c) then rev w # char_lines [] (if c = CHR 0x0D \<and> take 1 s = [CHR 0x0A] then tl s else s)
      else char_lines (c # w) s)"

text \<open>\<open>values.setdefault(k, []).append(v)\<close>.\<close>

definition dict_append :: "'k \<Rightarrow> 'v \<Rightarrow> ('k \<times> 'v list) list \<Rightarrow> ('k \<times> 'v list) list" where
  "dict_append k v d = dict_set k (case dict_get d k of None \<Rightarrow> [v] | Some vs \<Rightarrow> vs @ [v]) d"

text \<open>The \<open>TAG:name=value\<close> lines of \<open>ffprobe\<close>.\<close>

definition tag_line :: "string \<Rightarrow> (string \<times> string) option" where
  "tag_line l = (if str_startswith l ''TAG:'' \<and> CHR ''='' \<in> set l then Some (split_once (CHR ''='') (drop 4 l)) else None)"

definition tag_lines :: "string \<Rightarrow> (string \<times> string) list" where
  "tag_lines out = List.map_filter tag_line (char_lines [] out)"

fun collect_named :: "(string \<Rightarrow> string option) \<Rightarrow> (string \<times> string) list \<Rightarrow> (string \<times> string list) list
   \<Rightarrow> (string \<times> string list) list" where
  "collect_named canon [] d = d"
| "collect_named canon ((n, v) # ts) d =
     (case canon n of None \<Rightarrow> collect_named canon ts d | Some c \<Rightarrow> collect_named canon ts (dict_append c v d))"

definition join_values :: "(string \<times> string list) list \<Rightarrow> tags" where
  "join_values = map (\<lambda>(n, vs). (n, str_join ''; '' vs))"

definition ffprobe_tags_command :: "string \<Rightarrow> path \<Rightarrow> string list" where
  "ffprobe_tags_command ffprobe p =
     [ffprobe, ''-v'', ''error'', ''-show_entries'', ''format_tags'', ''-of'', ''default=noprint_wrappers=1:nokey=0'', path_str p]"

definition read_mka :: "media_env \<Rightarrow> path \<Rightarrow> tags media_act" where
  "read_mka E p = bindM (tool_act E (ffprobe_tags_command ''ffprobe'' p)) (\<lambda>ev.
     if \<not> tool_ok ev then raiseM (MetadataTagError p)
     else giveM (normalize_positions (join_values (collect_named tag_alias (tag_lines (t_stdout ev)) []))))"

definition mutagen_error :: "media_exc \<Rightarrow> bool" where
  "mutagen_error e \<longleftrightarrow> e = MutagenExc \<or> is_os_error e \<or> e = KeyExc \<or> e = UnicodeDecodeExc"

definition easy_tags :: "path \<Rightarrow> easy_file \<Rightarrow> media_exc + tags" where
  "easy_tags p audio = (case audio of NotAudio \<Rightarrow> Inl (MetadataTagError p) | Untagged \<Rightarrow> Inr [] | Unlistable \<Rightarrow> Inr []
     | EasyItems items \<Rightarrow> Inr (normalize_positions (collect_easy items [])))"

definition has_suffix :: "path \<Rightarrow> string list \<Rightarrow> bool" where
  "has_suffix p ss \<longleftrightarrow> str_casefold (path_suffix p) \<in> set ss"

lemma casefold_mka: "str_casefold ''.mka'' = ''.mka''"
  by (simp add: str_casefold_def char_lower_def less_eq_char_def)

definition read_normalized_tags :: "tag_library \<Rightarrow> media_env \<Rightarrow> path \<Rightarrow> tags media_act" where
  "read_normalized_tags L E p =
     (if has_suffix p [''.mka''] then read_mka E p
      else rethrowM mutagen_error (MetadataTagError p)
        (bindM (open_act (tl_easy L) p) (\<lambda>audio. pureM (easy_tags p audio))))"

section \<open>Writing\<close>

definition MP4_FIELDS :: "(string \<times> string) list" where
  "MP4_FIELDS = [(''TITLE'', CHR 0xA9 # ''nam''), (''ARTIST'', CHR 0xA9 # ''ART''), (''ALBUM'', CHR 0xA9 # ''alb''),
     (''ALBUMARTIST'', ''aART''), (''DATE'', CHR 0xA9 # ''day''), (''GENRE'', CHR 0xA9 # ''gen'')]"

definition MP4_FREEFORM_PREFIX :: string where "MP4_FREEFORM_PREFIX = ''----:com.apple.iTunes:''"

definition MP4_FREEFORM_FIELDS :: "(string \<times> string) list" where
  "MP4_FREEFORM_FIELDS = [(''ORIGINALDATE'', ''ORIGINALDATE''), (''MUSICBRAINZ_RECORDINGID'', ''MusicBrainz Track Id''),
     (''MUSICBRAINZ_ARTISTID'', ''MusicBrainz Artist Id''), (''MUSICBRAINZ_ALBUMARTISTID'', ''MusicBrainz Album Artist Id''),
     (''MUSICBRAINZ_ALBUMID'', ''MusicBrainz Album Id''), (''MUSICBRAINZ_RELEASEGROUPID'', ''MusicBrainz Release Group Id''),
     (''ISRC'', ''ISRC''), (''PERFORMER'', ''PERFORMER'')]"

definition ID3_TEXT_FIELDS :: "(string \<times> string) list" where
  "ID3_TEXT_FIELDS = [(''TITLE'', ''TIT2''), (''ARTIST'', ''TPE1''), (''ALBUM'', ''TALB''), (''ALBUMARTIST'', ''TPE2''),
     (''PERFORMER'', ''TPE3''), (''DATE'', ''TDRC''), (''ORIGINALDATE'', ''TDOR''), (''GENRE'', ''TCON''), (''ISRC'', ''TSRC'')]"

definition ID3_TXXX_FIELDS :: "(string \<times> string) list" where
  "ID3_TXXX_FIELDS = [(''MUSICBRAINZ_ARTISTID'', ''MusicBrainz Artist Id''),
     (''MUSICBRAINZ_ALBUMARTISTID'', ''MusicBrainz Album Artist Id''), (''MUSICBRAINZ_ALBUMID'', ''MusicBrainz Album Id''),
     (''MUSICBRAINZ_RELEASEGROUPID'', ''MusicBrainz Release Group Id'')]"

definition MUSICBRAINZ_OWNER :: string where "MUSICBRAINZ_OWNER = ''http://musicbrainz.org''"

definition vorbis_kind_of :: "string \<Rightarrow> vorbis_kind option" where
  "vorbis_kind_of ending = (let s = str_casefold ending in
     if s = ''.flac'' then Some FLAC else if s = ''.ogg'' then Some OggVorbis
     else if s = ''.opus'' then Some OggOpus else None)"

text \<open>The file is opened, its comments are cleared, set and saved.\<close>

definition write_vorbis :: "tag_library \<Rightarrow> path \<Rightarrow> tags \<Rightarrow> unit media_act" where
  "write_vorbis L p values = (case vorbis_kind_of (path_suffix p) of
     None \<Rightarrow> raiseM (MetadataTagError p)
   | Some k \<Rightarrow> bindM (open_act (tl_vorbis_open L k) p) (\<lambda>_.
       save_act (tl_vorbis_save L k (map (\<lambda>(n, v). (n, [v])) values)) p))"

text \<open>A frame for every field that is present.\<close>

fun add_frames :: "(string \<Rightarrow> string \<Rightarrow> id3_frame) \<Rightarrow> tags \<Rightarrow> (string \<times> string) list \<Rightarrow> id3_tags \<Rightarrow> id3_tags" where
  "add_frames mk values [] tags = tags"
| "add_frames mk values ((n, frame) # flds) tags = add_frames mk values flds
     (case dict_get values n of None \<Rightarrow> tags | Some v \<Rightarrow> id3_add (mk frame v) tags)"

definition add_position :: "tag_library \<Rightarrow> string \<Rightarrow> string option \<Rightarrow> string option \<Rightarrow> id3_tags \<Rightarrow> id3_tags" where
  "add_position L frame num tot tags = (case num of None \<Rightarrow> tags
   | Some n \<Rightarrow> id3_add (TextFrame frame (tl_frame_text L frame
       (OneText (case tot of None \<Rightarrow> n | Some t \<Rightarrow> n @ ''/'' @ t)))) tags)"

definition mp3_tags :: "tag_library \<Rightarrow> tags \<Rightarrow> id3_tags" where
  "mp3_tags L values =
     (let ts = add_frames (\<lambda>frame v. TextFrame frame (tl_frame_text L frame (TextList (split_semi v)))) values ID3_TEXT_FIELDS [];
          ts = add_position L ''TRCK'' (dict_get values ''TRACKNUMBER'') (dict_get values ''TRACKTOTAL'') ts;
          ts = add_position L ''TPOS'' (dict_get values ''DISCNUMBER'') (dict_get values ''DISCTOTAL'') ts;
          ts = add_frames (\<lambda>desc v. UserText desc (tl_frame_text L ''TXXX'' (OneText v))) values ID3_TXXX_FIELDS ts in
      case dict_get values ''MUSICBRAINZ_RECORDINGID'' of None \<Rightarrow> ts
      | Some r \<Rightarrow> id3_add (UniqueId MUSICBRAINZ_OWNER (str_encode r)) ts)"

definition write_mp3 :: "tag_library \<Rightarrow> path \<Rightarrow> tags \<Rightarrow> unit media_act" where
  "write_mp3 L p values = save_act (tl_id3_save L (mp3_tags L values)) p"

fun set_atoms :: "(string \<Rightarrow> mp4_value) \<Rightarrow> tags \<Rightarrow> (string \<times> string) list \<Rightarrow> mp4_tags \<Rightarrow> mp4_tags" where
  "set_atoms mk values [] atoms = atoms"
| "set_atoms mk values ((n, atom) # flds) atoms = set_atoms mk values flds
     (case dict_get values n of None \<Rightarrow> atoms | Some v \<Rightarrow> dict_set atom (mk v) atoms)"

text \<open>The numbers of an MP4 file are integers: a text that is none raises a \<open>ValueError\<close>.\<close>

definition mp4_position :: "string \<Rightarrow> string option \<Rightarrow> string option \<Rightarrow> mp4_tags \<Rightarrow> media_exc + mp4_tags" where
  "mp4_position atom num tot atoms = (case num of None \<Rightarrow> Inr atoms
   | Some n \<Rightarrow> bindR (int_or_raise n) (\<lambda>i.
       bindR (case tot of None \<Rightarrow> Inr 0 | Some t \<Rightarrow> int_or_raise t) (\<lambda>t. Inr (dict_set atom (Mp4Pairs [(i, t)]) atoms))))"

definition mp4_atoms :: "tags \<Rightarrow> media_exc + mp4_tags" where
  "mp4_atoms values =
     bindR (mp4_position ''trkn'' (dict_get values ''TRACKNUMBER'') (dict_get values ''TRACKTOTAL'')
       (set_atoms (\<lambda>v. Mp4Texts (split_semi v)) values MP4_FIELDS [])) (\<lambda>atoms.
     bindR (mp4_position ''disk'' (dict_get values ''DISCNUMBER'') (dict_get values ''DISCTOTAL'') atoms) (\<lambda>atoms.
     Inr (set_atoms (\<lambda>v. Mp4Free [str_encode v]) values
       (map (\<lambda>(n, a). (n, MP4_FREEFORM_PREFIX @ a)) MP4_FREEFORM_FIELDS) atoms)))"

definition write_mp4 :: "tag_library \<Rightarrow> path \<Rightarrow> tags \<Rightarrow> unit media_act" where
  "write_mp4 L p values = bindM (open_act (tl_mp4_open L) p) (\<lambda>_.
     bindM (pureM (mp4_atoms values)) (\<lambda>atoms. save_act (tl_mp4_save L atoms) p))"

text \<open>Equality of dictionaries does not depend on the order of their keys.\<close>

definition dict_eq :: "('k \<times> 'v) list \<Rightarrow> ('k \<times> 'v) list \<Rightarrow> bool" where
  "dict_eq d e \<longleftrightarrow> list_all (\<lambda>(k, v). dict_get e k = dict_get d k) d \<and> list_all (\<lambda>(k, v). dict_get d k = dict_get e k) e"

lemma dict_eq_iff: "dict_eq d e \<longleftrightarrow> map_of d = map_of e"
proof
  assume eq: "dict_eq d e"
  show "map_of d = map_of e"
  proof
    fix k
    show "map_of d k = map_of e k"
    proof (cases "k \<in> fst ` set d \<or> k \<in> fst ` set e")
      case True
      then show ?thesis using eq by (auto simp: dict_eq_def list_all_iff case_prod_beta)
    next
      case False
      then have "map_of d k = None" and "map_of e k = None" by (auto simp: map_of_eq_None_iff)
      then show ?thesis by simp
    qed
  qed
qed (simp add: dict_eq_def list_all_iff case_prod_beta)

definition write_normalized_tags :: "tag_library \<Rightarrow> media_env \<Rightarrow> path \<Rightarrow> tags \<Rightarrow> tags media_act" where
  "write_normalized_tags L E p tags =
     (let filtered = allowed_only tags; values = dict_of filtered in
      bindM (rethrowM mutagen_error (MetadataTagError p)
        (if has_suffix p [''.flac'', ''.ogg'', ''.opus''] then write_vorbis L p values
         else if has_suffix p [''.mp3''] then write_mp3 L p values
         else if has_suffix p [''.m4a'', ''.mp4''] then write_mp4 L p values
         else raiseM (MetadataTagError p))) (\<lambda>_.
      bindM (read_normalized_tags L E p) (\<lambda>actual.
        if \<not> dict_eq (dict_of actual) values then raiseM (MetadataTagError p) else giveM filtered)))"

section \<open>The current values of a source\<close>

record tag_view =
  tv_name :: string
  tv_value :: string
  tv_selected :: "bool option"
  tv_format :: "string option"

text \<open>\<open>genres\<close> is the property of Mutagen's \<open>TCON\<close> that expands numbered genres.\<close>

definition view_values :: "(string \<Rightarrow> string list) \<Rightarrow> tag_view \<Rightarrow> string list" where
  "view_values genres f = (if tv_name f = ''GENRE'' \<and> tv_format f = Some ''mp3'' then genres (tv_value f) else [tv_value f])"

definition dict_extend :: "'k \<Rightarrow> 'v list \<Rightarrow> ('k \<times> 'v list) list \<Rightarrow> ('k \<times> 'v list) list" where
  "dict_extend k vs d = dict_set k (case dict_get d k of None \<Rightarrow> vs | Some ws \<Rightarrow> ws @ vs) d"

fun collect_views :: "(string \<Rightarrow> string list) \<Rightarrow> tag_view list \<Rightarrow> (string \<times> string list) list \<Rightarrow> (string \<times> string list) list" where
  "collect_views genres [] d = d"
| "collect_views genres (f # fs) d = collect_views genres fs
     (if tv_selected f \<noteq> Some False \<and> tv_name f \<in> set ALLOWED_TAG_KEYS
      then dict_extend (tv_name f) (view_values genres f) d else d)"

text \<open>Unlike the reader of a container, a total that is present wins over the one of a position.\<close>

definition infer_total :: "string \<Rightarrow> string \<Rightarrow> tags \<Rightarrow> tags" where
  "infer_total num tot d = (case dict_get d num of
     Some p \<Rightarrow> if CHR ''/'' \<in> set p then (case split_once (CHR ''/'') p of (a, b) \<Rightarrow>
         let d = dict_set num a d in if b \<noteq> [] \<and> dict_get d tot = None then dict_set tot b d else d) else d
   | None \<Rightarrow> d)"

definition source_values :: "(string \<Rightarrow> string list) \<Rightarrow> tag_view list \<Rightarrow> tags" where
  "source_values genres flds = infer_total ''DISCNUMBER'' ''DISCTOTAL''
     (infer_total ''TRACKNUMBER'' ''TRACKTOTAL'' (join_values (collect_views genres flds [])))"

section \<open>Dictionaries of tags\<close>

lemma distinct_keys_dict_of: "distinct (map fst (dict_of ps))"
proof -
  have "distinct (map fst d) \<Longrightarrow> distinct (map fst (foldl (\<lambda>d (k, v). dict_set k v d) d ps))" for d
    by (induction ps arbitrary: d) (auto simp: dict_set_distinct split: prod.split)
  then show ?thesis by (simp add: dict_of_def)
qed

lemma map_of_dict_of: "map_of (dict_of ps) = map_of (rev ps)"
proof -
  have "map_of (foldl (\<lambda>d (k, v). dict_set k v d) d ps) = map_of d ++ map_of (rev ps)" for d
    by (induction ps arbitrary: d) (auto simp: map_add_assoc [symmetric] split: prod.split)
  then show ?thesis by (simp add: dict_of_def)
qed

lemma keys_of_map: "fst ` set d = dom (map_of d)"
  by (simp add: dom_map_of_conv_image_fst)

lemma keys_dict_of: "fst ` set (dict_of ps) = fst ` set ps"
  by (simp add: keys_of_map map_of_dict_of) (simp add: dom_map_of_conv_image_fst)

lemma map_of_rev_keys: "distinct (map fst d) \<Longrightarrow> map_of (rev d) = map_of d"
proof (induction d)
  case (Cons x d)
  then have "map_of d (fst x) = None" by (simp add: map_of_eq_None_iff)
  with Cons show ?case by (auto simp: map_add_def fun_eq_iff split: option.split)
qed simp

lemma map_of_dict_of_distinct: "distinct (map fst d) \<Longrightarrow> map_of (dict_of d) = map_of d"
  by (simp add: map_of_dict_of map_of_rev_keys)

text \<open>\<open>dict(tags)\<close> over the tags with allowed names.\<close>

lemma keys_allowed: "fst ` set (allowed_only tags) \<subseteq> set ALLOWED_TAG_KEYS"
  by (auto simp: allowed_only_def)

lemma allowed_only_id: "fst ` set d \<subseteq> set ALLOWED_TAG_KEYS \<Longrightarrow> allowed_only d = d"
  unfolding allowed_only_def by (rule filter_True) auto

text \<open>What splitting a position does to the dictionary as a map.\<close>

definition split_map :: "string \<Rightarrow> string \<Rightarrow> (string \<rightharpoonup> string) \<Rightarrow> string \<rightharpoonup> string" where
  "split_map num tot m = (case m num of
     Some p \<Rightarrow> if CHR ''/'' \<in> set p then (case split_once (CHR ''/'') p of (a, b) \<Rightarrow>
         if b \<noteq> [] then m(num \<mapsto> a, tot \<mapsto> b) else m(num \<mapsto> a)) else m
   | None \<Rightarrow> m)"

lemma map_of_split_position: "map_of (split_position num tot d) = split_map num tot (map_of d)"
  by (simp add: split_position_def split_map_def Let_def split: option.split prod.split)

lemma distinct_split_position: "distinct (map fst d) \<Longrightarrow> distinct (map fst (split_position num tot d))"
  by (simp add: split_position_def Let_def dict_set_distinct split: option.split prod.split)

lemma dom_split_map: "dom (split_map num tot m) \<subseteq> insert tot (dom m)"
  by (auto simp: split_map_def split: option.splits prod.splits if_splits)

definition unsplit :: "(string \<rightharpoonup> string) \<Rightarrow> string \<Rightarrow> bool" where
  "unsplit m num \<longleftrightarrow> (case m num of None \<Rightarrow> True | Some p \<Rightarrow> CHR ''/'' \<notin> set p)"

lemma split_map_id: "unsplit m num \<Longrightarrow> split_map num tot m = m"
  by (auto simp: unsplit_def split_map_def split: option.split)

lemma split_map_changes:
  assumes "\<not> unsplit m num" and "num \<noteq> tot"
  shows "split_map num tot m num \<noteq> m num"
proof -
  obtain p where p: "m num = Some p" "CHR ''/'' \<in> set p" using assms(1) by (auto simp: unsplit_def split: option.splits)
  obtain a b where ab: "split_once (CHR ''/'') p = (a, b)" by fastforce
  have "CHR ''/'' \<notin> set a" using split_once_append [OF p(2) ab] by simp
  then have "a \<noteq> p" using p(2) by auto
  then show ?thesis using p ab assms(2) by (simp add: split_map_def)
qed

lemma split_map_other: "k \<noteq> num \<Longrightarrow> k \<noteq> tot \<Longrightarrow> split_map num tot m k = m k"
  by (simp add: split_map_def split: option.split prod.split)

definition normal_map :: "(string \<rightharpoonup> string) \<Rightarrow> string \<rightharpoonup> string" where
  "normal_map m = split_map ''DISCNUMBER'' ''DISCTOTAL'' (split_map ''TRACKNUMBER'' ''TRACKTOTAL'' m)"

lemma normal_map_id_iff: "normal_map m = m \<longleftrightarrow> unsplit m ''TRACKNUMBER'' \<and> unsplit m ''DISCNUMBER''"
proof
  assume eq: "normal_map m = m"
  have n: "''TRACKNUMBER'' \<noteq> ''DISCNUMBER''" "''TRACKNUMBER'' \<noteq> ''DISCTOTAL''" "''TRACKNUMBER'' \<noteq> ''TRACKTOTAL''"
    "''DISCNUMBER'' \<noteq> ''DISCTOTAL''" by simp_all
  have t: "unsplit m ''TRACKNUMBER''"
  proof (rule ccontr)
    assume "\<not> unsplit m ''TRACKNUMBER''"
    then have "normal_map m ''TRACKNUMBER'' \<noteq> m ''TRACKNUMBER''"
      using split_map_changes [OF _ n(3)] split_map_other [OF n(1,2)] by (simp only: normal_map_def)
    then show False unfolding eq by blast
  qed
  then have "split_map ''DISCNUMBER'' ''DISCTOTAL'' m = m" using eq by (simp only: normal_map_def split_map_id)
  then have "unsplit m ''DISCNUMBER''" using split_map_changes [OF _ n(4)] by metis
  with t show "unsplit m ''TRACKNUMBER'' \<and> unsplit m ''DISCNUMBER''" ..
qed (simp add: normal_map_def split_map_id)

lemma normalize_positions_map:
  assumes "distinct (map fst d)" and "fst ` set d \<subseteq> set ALLOWED_TAG_KEYS"
  shows "map_of (normalize_positions d) = normal_map (map_of d) \<and> distinct (map fst (normalize_positions d))"
proof -
  let ?e = "split_position ''DISCNUMBER'' ''DISCTOTAL'' (split_position ''TRACKNUMBER'' ''TRACKTOTAL'' d)"
  have m: "map_of ?e = normal_map (map_of d)" by (simp add: map_of_split_position normal_map_def)
  have a: "{''DISCTOTAL'', ''TRACKTOTAL''} \<subseteq> set ALLOWED_TAG_KEYS" by (simp add: ALLOWED_TAG_KEYS_def)
  have "fst ` set ?e \<subseteq> set ALLOWED_TAG_KEYS"
    unfolding keys_of_map m normal_map_def
    using dom_split_map [of "''DISCNUMBER''" "''DISCTOTAL''"] dom_split_map [of "''TRACKNUMBER''" "''TRACKTOTAL''"]
      assms(2) [unfolded keys_of_map] a by blast
  then have "normalize_positions d = ?e" by (simp add: normalize_positions_def allowed_only_id)
  then show ?thesis using m distinct_split_position [OF distinct_split_position [OF assms(1)]] by simp
qed

section \<open>Tags written and read back\<close>

text \<open>The case mapping at the letters of the names.\<close>

lemma lower_letters:
  "char_lower (CHR ''A'') = CHR ''a''" "char_lower (CHR ''B'') = CHR ''b''" "char_lower (CHR ''C'') = CHR ''c''"
  "char_lower (CHR ''D'') = CHR ''d''" "char_lower (CHR ''E'') = CHR ''e''" "char_lower (CHR ''F'') = CHR ''f''"
  "char_lower (CHR ''G'') = CHR ''g''" "char_lower (CHR ''H'') = CHR ''h''" "char_lower (CHR ''I'') = CHR ''i''"
  "char_lower (CHR ''J'') = CHR ''j''" "char_lower (CHR ''K'') = CHR ''k''" "char_lower (CHR ''L'') = CHR ''l''"
  "char_lower (CHR ''M'') = CHR ''m''" "char_lower (CHR ''N'') = CHR ''n''" "char_lower (CHR ''O'') = CHR ''o''"
  "char_lower (CHR ''P'') = CHR ''p''" "char_lower (CHR ''Q'') = CHR ''q''" "char_lower (CHR ''R'') = CHR ''r''"
  "char_lower (CHR ''S'') = CHR ''s''" "char_lower (CHR ''T'') = CHR ''t''" "char_lower (CHR ''U'') = CHR ''u''"
  "char_lower (CHR ''V'') = CHR ''v''" "char_lower (CHR ''W'') = CHR ''w''" "char_lower (CHR ''X'') = CHR ''x''"
  "char_lower (CHR ''Y'') = CHR ''y''" "char_lower (CHR ''Z'') = CHR ''z''"
  "char_lower (CHR ''_'') = CHR ''_''"
  by (simp_all add: char_lower_def less_eq_char_def char_of_def bit_0)

lemma casefold_allowed:
  "map str_casefold ALLOWED_TAG_KEYS = [''title'', ''artist'', ''album'', ''albumartist'', ''date'', ''originaldate'',
     ''tracknumber'', ''tracktotal'', ''discnumber'', ''disctotal'', ''genre'', ''musicbrainz_recordingid'',
     ''musicbrainz_artistid'', ''musicbrainz_albumartistid'', ''musicbrainz_albumid'', ''musicbrainz_releasegroupid'',
     ''isrc'', ''performer'']"
  by (simp add: ALLOWED_TAG_KEYS_def str_casefold_def lower_letters)

lemma char_lower_idem: "char_lower (char_lower c) = char_lower c"
proof (cases "CHR ''A'' \<le> c \<and> c \<le> CHR ''Z''")
  case True
  then have b: "65 \<le> (of_char c :: nat)" "(of_char c :: nat) \<le> 90" by (simp_all add: less_eq_char_def)
  then have "\<not> char_of (of_char c + 32 :: nat) \<le> CHR ''Z''" by (simp add: less_eq_char_def)
  then show ?thesis using True by (simp add: char_lower_def)
next
  case False
  then have "char_lower c = c" by (simp only: char_lower_def if_False)
  then show ?thesis by simp
qed

lemma casefold_idem: "str_casefold (str_casefold s) = str_casefold s"
  by (simp add: str_casefold_def char_lower_idem)

text \<open>The letter case of a name does not matter.\<close>

lemma tag_alias_any_case: "n \<in> set ALLOWED_TAG_KEYS \<Longrightarrow> str_casefold m = str_casefold n \<Longrightarrow> tag_alias m = Some n"
proof -
  have "map (map_of tag_aliases) (map str_casefold ALLOWED_TAG_KEYS) = map Some ALLOWED_TAG_KEYS"
    unfolding casefold_allowed by code_simp
  then have "\<forall>n \<in> set ALLOWED_TAG_KEYS. map_of tag_aliases (str_casefold n) = Some n"
    unfolding map_map map_eq_conv comp_apply .
  then show "n \<in> set ALLOWED_TAG_KEYS \<Longrightarrow> str_casefold m = str_casefold n \<Longrightarrow> ?thesis"
    unfolding tag_alias_def by simp
qed

lemma collect_easy_map:
  assumes "distinct (map fst es)" and "fst ` set es \<subseteq> set ALLOWED_TAG_KEYS"
  shows "map_of (collect_easy (map (\<lambda>(n, v). (str_casefold n, EasyList [v])) es) d) = map_of d ++ map_of es"
  using assms
proof (induction es arbitrary: d)
  case (Cons e es)
  obtain n v where e: "e = (n, v)" by fastforce
  have "tag_alias (str_casefold n) = Some n" using Cons.prems(2) by (intro tag_alias_any_case) (simp_all add: e casefold_idem)
  moreover have "map_of es n = None" using Cons.prems(1) by (simp add: e map_of_eq_None_iff)
  ultimately show ?case using Cons.IH [of "dict_set n v d"] Cons.prems
    by (simp add: e map_add_upd_left [symmetric] fun_upd_def map_add_def fun_eq_iff split: option.split)
qed simp

lemma collect_easy_keys:
  assumes "distinct (map fst d)" and "fst ` set d \<subseteq> set ALLOWED_TAG_KEYS"
  shows "distinct (map fst (collect_easy items d)) \<and> fst ` set (collect_easy items d) \<subseteq> set ALLOWED_TAG_KEYS"
proof -
  have al: "tag_alias n = Some c \<Longrightarrow> c \<in> set ALLOWED_TAG_KEYS" for n c
    using map_of_SomeD [of tag_aliases "str_casefold n" c]
    by (auto simp: tag_alias_def tag_aliases_def ALLOWED_TAG_KEYS_def)
  show ?thesis using assms
  proof (induction items arbitrary: d)
    case (Cons x items)
    obtain n v where x: "x = (n, v)" by fastforce
    show ?case
    proof (cases "tag_alias n = None \<or> easy_text v = None")
      case True
      then show ?thesis using Cons by (auto simp: x split: option.split)
    next
      case False
      then obtain c t where ct: "tag_alias n = Some c" "easy_text v = Some t" by auto
      have "fst ` set (dict_set c t d) \<subseteq> set ALLOWED_TAG_KEYS"
        using Cons.prems(2) al [OF ct(1)] dict_set_keys [of c t d] by auto
      then show ?thesis using Cons.IH [OF dict_set_distinct [OF Cons.prems(1)]] by (simp add: x ct)
    qed
  qed simp
qed

text \<open>A save that keeps the comments: reading the saved file lists the same comments, under lower-case
  names and in any order, as Mutagen documents for Vorbis comments.\<close>

definition keeps_comments :: "tag_library \<Rightarrow> vorbis_kind \<Rightarrow> tags \<Rightarrow> octets option \<Rightarrow> bool" where
  "keeps_comments L k values content \<longleftrightarrow>
     (\<exists>c es. tl_vorbis_save L k (map (\<lambda>(n, v). (n, [v])) values) content = (None, c) \<and> mset es = mset values
        \<and> tl_easy L c = Inr (EasyItems (map (\<lambda>(n, v). (str_casefold n, EasyList [v])) es)))"

lemma distinct_keys_mset: "mset xs = mset ys \<Longrightarrow> distinct (map fst xs) = distinct (map fst ys)"
  by (metis mset_eq_imp_distinct_iff mset_map)

lemma map_of_mset:
  assumes "mset xs = mset ys" and "distinct (map fst ys)"
  shows "map_of xs = map_of ys"
proof
  fix k
  have d: "distinct (map fst xs)" using assms distinct_keys_mset by blast
  have eq: "map_of xs k = Some v \<longleftrightarrow> map_of ys k = Some v" for v
    using map_of_eq_Some_iff [OF d] map_of_eq_Some_iff [OF assms(2)] mset_eq_setD [OF assms(1)] by simp
  show "map_of xs k = map_of ys k"
  proof (cases "map_of ys k")
    case None
    then have "map_of xs k \<noteq> Some v" for v using eq by (metis option.distinct(1))
    then show ?thesis using None by (cases "map_of xs k") (metis, metis)
  next
    case (Some v)
    then show ?thesis using eq by metis
  qed
qed

lemma collect_easy_stored:
  assumes "mset es = mset values" and "distinct (map fst values)" and "fst ` set values \<subseteq> set ALLOWED_TAG_KEYS"
  shows "map_of (normalize_positions (collect_easy (map (\<lambda>(n, v). (str_casefold n, EasyList [v])) es) [])) =
      normal_map (map_of values)"
    and "distinct (map fst (normalize_positions (collect_easy (map (\<lambda>(n, v). (str_casefold n, EasyList [v])) es) [])))"
proof -
  let ?d = "collect_easy (map (\<lambda>(n, v). (str_casefold n, EasyList [v])) es) []"
  have dk: "distinct (map fst ?d)" "fst ` set ?d \<subseteq> set ALLOWED_TAG_KEYS"
    using collect_easy_keys [of "[]"] by auto
  have es: "distinct (map fst es)" "fst ` set es \<subseteq> set ALLOWED_TAG_KEYS" "map_of es = map_of values"
    using assms(2,3) distinct_keys_mset [OF assms(1)] mset_eq_setD [OF assms(1)] map_of_mset [OF assms(1,2)] by simp_all
  have "map_of ?d = map_of values" using collect_easy_map [OF es(1,2), of "[]"] es(3) by simp
  then show "map_of (normalize_positions ?d) = normal_map (map_of values)" and "distinct (map fst (normalize_positions ?d))"
    using normalize_positions_map [OF dk] by simp_all
qed

lemma vorbis_suffix:
  assumes "has_suffix p [''.flac'', ''.ogg'', ''.opus'']"
  shows "\<not> has_suffix p [''.mka'']" and "\<exists>k. vorbis_kind_of (path_suffix p) = Some k"
  using assms by (auto simp: has_suffix_def vorbis_kind_of_def Let_def)

lemma write_vorbis_kept:
  assumes "vorbis_kind_of (path_suffix p) = Some k" and "tl_vorbis_open L k (fs p) = Inr cs"
    and "tl_vorbis_save L k (map (\<lambda>(n, v). (n, [v])) values) (fs p) = (None, c)"
  shows "write_vorbis L p values fs = (Inr (), fs(p := c))"
  using assms by (simp add: write_vorbis_def bindM_def open_act_def save_act_def)

text \<open>Tags replaced in a FLAC, Ogg or Opus file whose library keeps the comments it is given: the
  call returns the allowed tags, and leaves a file that reads back as these tags, exactly when neither
  position contains a slash; otherwise it raises, because reading splits such a position. No other
  file is touched.\<close>

lemma vorbis_tags_round_trip:
  assumes "has_suffix p [''.flac'', ''.ogg'', ''.opus'']" and "vorbis_kind_of (path_suffix p) = Some k"
    and "tl_vorbis_open L k (fs p) = Inr cs" and "keeps_comments L k (dict_of (allowed_only tags)) (fs p)"
  shows "\<exists>c. write_normalized_tags L E p tags fs =
      (if unsplit (map_of (dict_of (allowed_only tags))) ''TRACKNUMBER'' \<and> unsplit (map_of (dict_of (allowed_only tags))) ''DISCNUMBER''
       then Inr (allowed_only tags) else Inl (MetadataTagError p), fs(p := c))
    \<and> (\<exists>d. read_normalized_tags L E p (fs(p := c)) = (Inr d, fs(p := c))
         \<and> map_of d = normal_map (map_of (dict_of (allowed_only tags))))"
proof -
  let ?v = "dict_of (allowed_only tags)"
  have v: "distinct (map fst ?v)" "fst ` set ?v \<subseteq> set ALLOWED_TAG_KEYS"
    using distinct_keys_dict_of keys_dict_of [of "allowed_only tags"] keys_allowed by auto
  obtain c es where sv: "tl_vorbis_save L k (map (\<lambda>(n, v). (n, [v])) ?v) (fs p) = (None, c)" and es: "mset es = mset ?v"
    and rd: "tl_easy L c = Inr (EasyItems (map (\<lambda>(n, v). (str_casefold n, EasyList [v])) es))"
    using assms(4) by (auto simp: keeps_comments_def)
  let ?d = "normalize_positions (collect_easy (map (\<lambda>(n, v). (str_casefold n, EasyList [v])) es) [])"
  note d = collect_easy_stored [OF es v]
  have r: "read_normalized_tags L E p (fs(p := c)) = (Inr ?d, fs(p := c))"
    using vorbis_suffix(1) [OF assms(1)] rd
    by (simp add: read_normalized_tags_def rethrowM_def bindM_def open_act_def pureM_def easy_tags_def)
  have eq: "dict_eq (dict_of ?d) ?v \<longleftrightarrow> unsplit (map_of ?v) ''TRACKNUMBER'' \<and> unsplit (map_of ?v) ''DISCNUMBER''"
    unfolding dict_eq_iff map_of_dict_of_distinct [OF d(2)] d(1) by (rule normal_map_id_iff)
  have "write_normalized_tags L E p tags fs =
      (if dict_eq (dict_of ?d) ?v then Inr (allowed_only tags) else Inl (MetadataTagError p), fs(p := c))"
    using assms(1) r write_vorbis_kept [where fs = fs, OF assms(2,3) sv]
    by (simp add: write_normalized_tags_def Let_def bindM_def rethrowM_def raiseM_def giveM_def)
  then show ?thesis using r d(1) unfolding eq by blast
qed

text \<open>A file whose library stores one title.\<close>

definition title_library :: tag_library where
  "title_library = \<lparr>
     tl_easy = (\<lambda>c. Inr (EasyItems [(''title'', EasyList [''Song''])])),
     tl_vorbis_open = (\<lambda>k c. Inr []), tl_vorbis_save = (\<lambda>k vs c. (None, Some [1])),
     tl_frame_text = (\<lambda>f a. []), tl_id3_open = (\<lambda>c. Inl MutagenExc), tl_id3_save = (\<lambda>ts c. (Some MutagenExc, c)),
     tl_mp4_open = (\<lambda>c. Inl MutagenExc), tl_mp4_save = (\<lambda>ts c. (Some MutagenExc, c)),
     tl_flac_info = (\<lambda>c. Inl MutagenExc)\<rparr>"

definition still_machine :: media_env where
  "still_machine = \<lparr>me_tool = (\<lambda>cmd fs. (TimeoutExpired, fs)), me_resolve = id, me_is_dir = (\<lambda>p. False),
     me_is_link = (\<lambda>p. False), me_temp = (\<lambda>d x fs. Some (d @ [''.metadata-0'' @ x])), me_fault = (\<lambda>p c fs. None),
     me_sha256 = (\<lambda>c. [])\<rparr>"

lemma vorbis_tags_kept:
  "\<exists>c. write_normalized_tags title_library still_machine [''a.flac''] [(''TITLE'', ''Song''), (''MOOD'', ''x'')] Map.empty =
      (Inr [(''TITLE'', ''Song'')], Map.empty([''a.flac''] := c))"
proof -
  have p: "path_suffix [''a.flac''] = ''.flac''" by (simp add: path_suffix_def name_suffix_def Let_def)
  have f: "str_casefold ''.flac'' = ''.flac''" by code_simp
  have a: "allowed_only [(''TITLE'', ''Song''), (''MOOD'', ''x'')] = [(''TITLE'', ''Song'')]"
    by (simp add: allowed_only_def ALLOWED_TAG_KEYS_def)
  have d: "dict_of [(''TITLE'', ''Song'')] = [(''TITLE'', ''Song'')]" by (simp add: dict_of_def)
  have t: "str_casefold ''TITLE'' = ''title''" by code_simp
  have k: "keeps_comments title_library FLAC [(''TITLE'', ''Song'')] None"
    unfolding keeps_comments_def
    by (rule exI [of _ "Some [1]"], rule exI [of _ "[(''TITLE'', ''Song'')]"]) (simp add: title_library_def t)
  show ?thesis
    using vorbis_tags_round_trip [of "[''a.flac'']" FLAC title_library Map.empty "[]" "[(''TITLE'', ''Song''), (''MOOD'', ''x'')]"
        still_machine] k
    by (auto simp: a d unsplit_def has_suffix_def p f vorbis_kind_of_def title_library_def)
qed

end
