(* ===== verification/Metadata.thy ===== *)
theory Metadata imports Tags begin

text \<open>
  \<^bold>\<open>The metadata writer\<close> (\<^verbatim>\<open>services/normalize/metadata.py\<close>) and the media stage that uses it
  (\<^verbatim>\<open>workers/media_stage.py\<close>): canonical or observed tags are written into a staged copy, read back and
  compared before the copy becomes the output of the stage.
\<close>

section \<open>The canonical tags\<close>

definition write_error :: "string \<Rightarrow> media_exc + 'a" where
  "write_error reason = Inl (MetadataWriteError reason)"

definition local_identifiers :: "canonical_metadata \<Rightarrow> string list" where
  "local_identifiers m = (case cm_recording m of None \<Rightarrow> [] | Some s \<Rightarrow> [s]) @ cm_artist_ids m @ cm_album_artist_ids m
     @ (case cm_album_id m of None \<Rightarrow> [] | Some s \<Rightarrow> [s]) @ (case cm_release_group m of None \<Rightarrow> [] | Some s \<Rightarrow> [s])"

definition required_tags :: "canonical_metadata \<Rightarrow> string \<Rightarrow> string list \<Rightarrow> tags" where
  "required_tags m sep genres =
     [(''TITLE'', cm_title m), (''ARTIST'', str_join sep (cm_artists m)), (''ALBUM'', cm_album m),
      (''ALBUMARTIST'', str_join sep (cm_album_artists m)), (''DATE'', cm_date m),
      (''TRACKNUMBER'', json_int (cm_track_number m)), (''TRACKTOTAL'', json_int (cm_track_total m)),
      (''DISCNUMBER'', json_int (cm_disc_number m)), (''DISCTOTAL'', json_int (cm_disc_total m)),
      (''GENRE'', str_join sep genres)]"

definition optional_tags :: "canonical_metadata \<Rightarrow> (string \<times> string option) list" where
  "optional_tags m =
     [(''ORIGINALDATE'', cm_original_date m), (''MUSICBRAINZ_RECORDINGID'', cm_recording m)]
     @ map (\<lambda>i. (''MUSICBRAINZ_ARTISTID'', Some i)) (cm_artist_ids m)
     @ map (\<lambda>i. (''MUSICBRAINZ_ALBUMARTISTID'', Some i)) (cm_album_artist_ids m)
     @ [(''MUSICBRAINZ_ALBUMID'', cm_album_id m), (''MUSICBRAINZ_RELEASEGROUPID'', cm_release_group m),
        (''ISRC'', cm_isrc m), (''PERFORMER'', cm_performer m)]"

definition canonical_tags :: "canonical_metadata \<Rightarrow> field_policy \<Rightarrow> genre_policy \<Rightarrow> media_exc + tags" where
  "canonical_tags m flds pol =
     (if set (fp_keys flds) \<noteq> set ALLOWED_TAG_KEYS
      then write_error ''field policy does not allow the canonical tag set''
      else if cm_title m = [] \<or> cm_album m = [] \<or> cm_artists m = [] \<or> cm_album_artists m = []
      then write_error ''canonical title, album, artists, and album artists are required''
      else if min (min (cm_track_number m) (cm_track_total m)) (min (cm_disc_number m) (cm_disc_total m)) < 1
      then write_error ''canonical sequence values must be positive''
      else if cm_track_total m < cm_track_number m \<or> cm_disc_total m < cm_disc_number m
      then write_error ''canonical sequence values exceed their totals''
      else if cm_source m = REVIEWED_LOCAL_ONLY \<and> nonempty (local_identifiers m) \<noteq> []
      then write_error ''local-only metadata cannot carry MusicBrainz identifiers''
      else (case normalize_genres (cm_genres m) pol of
        Inl v \<Rightarrow> write_error (''genre is not approved by policy: '' @ v)
      | Inr genres \<Rightarrow>
          if genres = [] then write_error ''at least one approved canonical genre is required''
          else Inr (required_tags m (fp_separator flds) genres
            @ List.map_filter (\<lambda>(n, v). map_option (\<lambda>s. (n, s)) v) (optional_tags m))))"

section \<open>Matroska\<close>

fun collect_tags :: "tags \<Rightarrow> (string \<times> string list) list \<Rightarrow> (string \<times> string list) list" where
  "collect_tags [] d = d"
| "collect_tags ((n, v) # ts) d = collect_tags ts (if v = [] then d else dict_append n v d)"

definition collapse_tags :: "tags \<Rightarrow> tags" where
  "collapse_tags tags = join_values (collect_tags tags [])"

definition metadata_arguments :: "tags \<Rightarrow> string list" where
  "metadata_arguments tags = concat (map (\<lambda>(n, v). [''-metadata'', n @ ''='' @ v]) (collapse_tags tags))"

definition mka_command :: "string \<Rightarrow> path \<Rightarrow> tags \<Rightarrow> path \<Rightarrow> string list" where
  "mka_command ffmpeg src tags out =
     [ffmpeg, ''-nostdin'', ''-hide_banner'', ''-v'', ''error'', ''-xerror'', ''-i'', path_str src, ''-map'', ''0:a:0'',
      ''-map_metadata'', ''-1'', ''-map_chapters'', ''-1'', ''-c:a'', ''copy'']
     @ metadata_arguments tags @ [''-f'', ''matroska'', ''-n'', path_str out]"

definition mka_values :: "string \<Rightarrow> tags" where
  "mka_values out = allowed_only (join_values (collect_named (\<lambda>n. Some (str_upper n)) (tag_lines out) []))"

definition read_mka_tags :: "media_env \<Rightarrow> path \<Rightarrow> string \<Rightarrow> tags media_act" where
  "read_mka_tags E p ffprobe = bindM (tool_act E (ffprobe_tags_command ffprobe p)) (\<lambda>ev.
     if \<not> tool_ok ev then raiseM (MetadataWriteError ''FFprobe could not reopen Matroska metadata'')
     else giveM (mka_values (t_stdout ev)))"

definition unlink_and_raise :: "media_env \<Rightarrow> path \<Rightarrow> string \<Rightarrow> unit media_act" where
  "unlink_and_raise E p reason = bindM (unlink E p) (\<lambda>_. raiseM (MetadataWriteError reason))"

definition write_mka_tags :: "media_env \<Rightarrow> path \<Rightarrow> path \<Rightarrow> tags \<Rightarrow> string \<Rightarrow> string \<Rightarrow> unit media_act" where
  "write_mka_tags E src out tags ffmpeg ffprobe =
     bindM (tool_act E (mka_command ffmpeg src tags out)) (\<lambda>ev fs.
       if \<not> tool_ok ev \<or> fs out = None
       then unlink_and_raise E out ''FFmpeg could not write canonical Matroska metadata'' fs
       else bindM (read_mka_tags E out ffprobe) (\<lambda>actual.
         if \<not> dict_eq actual (collapse_tags tags)
         then unlink_and_raise E out ''FFprobe did not observe the required canonical Matroska tags''
         else giveM ()) fs)"

section \<open>Vorbis comments\<close>

definition mutagen_or_os :: "media_exc \<Rightarrow> bool" where
  "mutagen_or_os e \<longleftrightarrow> e = MutagenExc \<or> is_os_error e"

fun group_tags :: "tags \<Rightarrow> (string \<times> string list) list \<Rightarrow> (string \<times> string list) list" where
  "group_tags [] d = d"
| "group_tags ((n, v) # ts) d = group_tags ts (dict_append n v d)"

definition write_vorbis_comments :: "tag_library \<Rightarrow> vorbis_kind \<Rightarrow> path \<Rightarrow> tags \<Rightarrow> unit media_act" where
  "write_vorbis_comments L k p tags =
     rethrowM mutagen_or_os (MetadataWriteError ''Mutagen rejected canonical Vorbis comments'')
       (bindM (open_act (tl_vorbis_open L k) p) (\<lambda>_. save_act (tl_vorbis_save L k (group_tags tags [])) p))"

text \<open>The verification of an output is a function of its content.\<close>

definition verify_vorbis :: "tag_library \<Rightarrow> vorbis_kind \<Rightarrow> tags \<Rightarrow> octets option \<Rightarrow> media_exc + unit" where
  "verify_vorbis L k expected content = (case tl_vorbis_open L k content of
     Inl e \<Rightarrow> Inl (if mutagen_or_os e then MetadataWriteError ''Mutagen could not reopen canonical Vorbis comments'' else e)
   | Inr items \<Rightarrow> if set (concat (map (\<lambda>(n, vs). map (\<lambda>v. (str_upper n, v)) vs) items)) \<noteq> set expected
       then write_error ''Mutagen did not produce the required canonical tags'' else Inr ())"

section \<open>ID3\<close>

definition pair_text :: "int \<Rightarrow> int \<Rightarrow> string" where
  "pair_text a b = json_int a @ ''/'' @ json_int b"

text \<open>The identifiers that become user text frames; empty ones have no frame.\<close>

definition txxx_values :: "canonical_metadata \<Rightarrow> (string \<times> string list) list" where
  "txxx_values m = filter (\<lambda>(n, vs). vs \<noteq> [])
     [(''MusicBrainz Artist Id'', cm_artist_ids m), (''MusicBrainz Album Artist Id'', cm_album_artist_ids m),
      (''MusicBrainz Album Id'', case cm_album_id m of None \<Rightarrow> [] | Some i \<Rightarrow> [i]),
      (''MusicBrainz Release Group Id'', case cm_release_group m of None \<Rightarrow> [] | Some i \<Rightarrow> [i])]"

definition text_frame :: "tag_library \<Rightarrow> string \<Rightarrow> frame_arg \<Rightarrow> id3_frame" where
  "text_frame L name a = TextFrame name (tl_frame_text L name a)"

definition canonical_frames :: "tag_library \<Rightarrow> canonical_metadata \<Rightarrow> id3_frame list" where
  "canonical_frames L m =
     [text_frame L ''TIT2'' (OneText (cm_title m)), text_frame L ''TPE1'' (TextList (cm_artists m)),
      text_frame L ''TPE2'' (TextList (cm_album_artists m)), text_frame L ''TALB'' (OneText (cm_album m)),
      text_frame L ''TRCK'' (OneText (pair_text (cm_track_number m) (cm_track_total m))),
      text_frame L ''TPOS'' (OneText (pair_text (cm_disc_number m) (cm_disc_total m))),
      text_frame L ''TDRC'' (OneText (cm_date m))]
     @ (case cm_original_date m of None \<Rightarrow> [] | Some d \<Rightarrow> [text_frame L ''TDOR'' (OneText d)])
     @ [text_frame L ''TCON'' (TextList (cm_genres m))]
     @ (case cm_isrc m of None \<Rightarrow> [] | Some i \<Rightarrow> [text_frame L ''TSRC'' (OneText i)])
     @ (case cm_recording m of None \<Rightarrow> [] | Some r \<Rightarrow> [UniqueId MUSICBRAINZ_OWNER (str_encode r)])
     @ map (\<lambda>(n, vs). UserText n (tl_frame_text L ''TXXX''
         (if n \<in> {''MusicBrainz Artist Id'', ''MusicBrainz Album Artist Id''} then TextList vs else OneText (hd vs)))) (txxx_values m)"

definition write_mp3_tags :: "tag_library \<Rightarrow> path \<Rightarrow> canonical_metadata \<Rightarrow> unit media_act" where
  "write_mp3_tags L p m = rethrowM mutagen_or_os (MetadataWriteError ''Mutagen rejected canonical MP3 metadata'')
     (save_act (tl_id3_save L (foldl (\<lambda>ts f. id3_add f ts) [] (canonical_frames L m))) p)"

definition id3_text :: "id3_tags \<Rightarrow> string \<Rightarrow> media_exc + string list" where
  "id3_text tags key = (case dict_get tags key of None \<Rightarrow> Inl KeyExc | Some (TextFrame n ts) \<Rightarrow> Inr ts
     | Some f \<Rightarrow> Inl (OtherExc ''AttributeError''))"

definition id3_first :: "id3_tags \<Rightarrow> string \<Rightarrow> media_exc + string list" where
  "id3_first tags key = bindR (id3_text tags key) (\<lambda>ts. case ts of [] \<Rightarrow> Inl IndexExc | t # _ \<Rightarrow> Inr [t])"

definition id3_getall :: "string \<Rightarrow> id3_tags \<Rightarrow> id3_frame list" where
  "id3_getall key tags = (case dict_get tags key of Some f \<Rightarrow> [f]
     | None \<Rightarrow> map snd (filter (\<lambda>(k, f). str_startswith k (key @ '':'')) tags))"

fun read_frames :: "(id3_tags \<Rightarrow> media_exc + string list) list \<Rightarrow> id3_tags \<Rightarrow> media_exc + string list list" where
  "read_frames [] tags = Inr []"
| "read_frames (r # rs) tags = bindR (r tags) (\<lambda>x. bindR (read_frames rs tags) (\<lambda>xs. Inr (x # xs)))"

text \<open>The frames that are compared, as the metadata has them and as they are read.\<close>

definition expected_frames :: "canonical_metadata \<Rightarrow> string list list" where
  "expected_frames m =
     [[cm_title m], cm_artists m, cm_album_artists m, [cm_album m], [pair_text (cm_track_number m) (cm_track_total m)],
      [pair_text (cm_disc_number m) (cm_disc_total m)], [cm_date m], cm_genres m]
     @ (case cm_original_date m of None \<Rightarrow> [] | Some d \<Rightarrow> [[d]]) @ (case cm_isrc m of None \<Rightarrow> [] | Some i \<Rightarrow> [[i]])"

definition frame_readers :: "canonical_metadata \<Rightarrow> (id3_tags \<Rightarrow> media_exc + string list) list" where
  "frame_readers m =
     map (\<lambda>(whole, key) tags. if whole then id3_text tags key else id3_first tags key)
      ([(False, ''TIT2''), (True, ''TPE1''), (True, ''TPE2''), (False, ''TALB''), (False, ''TRCK''), (False, ''TPOS''),
        (False, ''TDRC''), (True, ''TCON'')]
       @ (case cm_original_date m of None \<Rightarrow> [] | Some d \<Rightarrow> [(False, ''TDOR'')])
       @ (case cm_isrc m of None \<Rightarrow> [] | Some i \<Rightarrow> [(False, ''TSRC'')]))"

text \<open>The first unique file identifier must be the recording; octets that are no UTF-8 raise.\<close>

definition verify_ufid :: "canonical_metadata \<Rightarrow> id3_tags \<Rightarrow> media_exc + unit" where
  "verify_ufid m tags = (case cm_recording m of None \<Rightarrow> Inr ()
   | Some r \<Rightarrow> (case id3_getall (''UFID:'' @ MUSICBRAINZ_OWNER) tags of
       UniqueId owner d # _ \<Rightarrow> (case utf8_decode d of None \<Rightarrow> Inl UnicodeDecodeExc
         | Some cps \<Rightarrow> if cps = map of_char r then Inr ()
             else write_error ''Mutagen did not produce the required MusicBrainz UFID'')
     | [] \<Rightarrow> write_error ''Mutagen did not produce the required MusicBrainz UFID''
     | _ \<Rightarrow> Inl (OtherExc ''AttributeError'')))"

fun user_text :: "id3_frame \<Rightarrow> (string \<times> string list) option" where
  "user_text (UserText desc ts) = Some (desc, ts)"
| "user_text _ = None"

definition verify_txxx :: "canonical_metadata \<Rightarrow> id3_tags \<Rightarrow> media_exc + unit" where
  "verify_txxx m tags =
     (if \<not> dict_eq (dict_of (List.map_filter user_text (id3_getall ''TXXX'' tags))) (txxx_values m)
      then write_error ''Mutagen did not produce the required MusicBrainz ID3 frames'' else Inr ())"

definition reopen_error :: "string \<Rightarrow> media_exc + 'a \<Rightarrow> media_exc + 'a" where
  "reopen_error reason r = (case r of Inl e \<Rightarrow> Inl (if mutagen_or_os e \<or> e = KeyExc then MetadataWriteError reason else e)
     | Inr x \<Rightarrow> Inr x)"

definition verify_mp3 :: "tag_library \<Rightarrow> canonical_metadata \<Rightarrow> octets option \<Rightarrow> media_exc + unit" where
  "verify_mp3 L m content =
     bindR (reopen_error ''Mutagen could not reopen canonical MP3 metadata''
       (bindR (tl_id3_open L content) (\<lambda>tags. bindR (read_frames (frame_readers m) tags) (\<lambda>actual.
        bindR (verify_ufid m tags) (\<lambda>_. bindR (verify_txxx m tags) (\<lambda>_. Inr actual)))))) (\<lambda>actual.
     if actual \<noteq> expected_frames m then write_error ''Mutagen did not produce the required canonical MP3 frames'' else Inr ())"

section \<open>MP4\<close>

definition free_atom :: "string \<Rightarrow> string" where
  "free_atom name = MP4_FREEFORM_PREFIX @ name"

definition encoded :: "string option \<Rightarrow> octets list" where
  "encoded v = (case v of None \<Rightarrow> [] | Some s \<Rightarrow> [str_encode s])"

text \<open>The atoms of the metadata: the same table is written and expected back.\<close>

definition canonical_atoms :: "canonical_metadata \<Rightarrow> mp4_tags" where
  "canonical_atoms m =
     [(CHR 0xA9 # ''nam'', Mp4Texts [cm_title m]), (CHR 0xA9 # ''ART'', Mp4Texts (cm_artists m)),
      (''aART'', Mp4Texts (cm_album_artists m)), (CHR 0xA9 # ''alb'', Mp4Texts [cm_album m]),
      (''trkn'', Mp4Pairs [(cm_track_number m, cm_track_total m)]), (''disk'', Mp4Pairs [(cm_disc_number m, cm_disc_total m)]),
      (CHR 0xA9 # ''day'', Mp4Texts [cm_date m]), (CHR 0xA9 # ''gen'', Mp4Texts [str_join ''; '' (cm_genres m)])]
     @ map (\<lambda>(n, ds). (free_atom n, Mp4Free ds)) (filter (\<lambda>(n, ds). ds \<noteq> [])
        [(''ISRC'', encoded (cm_isrc m)), (''MusicBrainz Track Id'', encoded (cm_recording m)),
         (''MusicBrainz Artist Id'', map str_encode (cm_artist_ids m)),
         (''MusicBrainz Album Artist Id'', map str_encode (cm_album_artist_ids m)),
         (''MusicBrainz Album Id'', encoded (cm_album_id m)), (''MusicBrainz Release Group Id'', encoded (cm_release_group m))])"

definition write_mp4_tags :: "tag_library \<Rightarrow> path \<Rightarrow> canonical_metadata \<Rightarrow> unit media_act" where
  "write_mp4_tags L p m = rethrowM mutagen_or_os (MetadataWriteError ''Mutagen rejected canonical MP4 metadata'')
     (bindM (open_act (tl_mp4_open L) p) (\<lambda>_. save_act (tl_mp4_save L (canonical_atoms m)) p))"

definition verify_mp4 :: "tag_library \<Rightarrow> canonical_metadata \<Rightarrow> octets option \<Rightarrow> media_exc + unit" where
  "verify_mp4 L m content =
     bindR (reopen_error ''Mutagen could not reopen canonical MP4 metadata'' (tl_mp4_open L content)) (\<lambda>opened.
       case opened of None \<Rightarrow> write_error ''Mutagen could not reopen canonical MP4 metadata''
       | Some tags \<Rightarrow>
           if list_all (\<lambda>(n, v). dict_get tags n = Some v) (canonical_atoms m) then Inr ()
           else write_error ''Mutagen did not produce the required canonical MP4 atoms'')"

section \<open>The writer\<close>

record write_request =
  wq_source :: path
  wq_output :: path
  wq_staging :: path
  wq_metadata :: canonical_metadata
  wq_fields :: field_policy
  wq_genres :: genre_policy
  wq_capability :: "media_capability option"
  wq_ffmpeg :: string
  wq_ffprobe :: string

record metadata_result =
  wr_output :: path
  wr_tags :: tags

definition supported_suffixes :: "string list" where
  "supported_suffixes = [''.flac'', ''.ogg'', ''.opus'', ''.mp3'', ''.m4a'', ''.mp4'', ''.mka'']"

definition validate_paths :: "media_env \<Rightarrow> write_request \<Rightarrow> (path \<times> path \<times> path) media_act" where
  "validate_paths E rq =
     bindM (resolve_strict E (wq_source rq)) (\<lambda>src.
     (let out = me_resolve E (wq_output rq) in
     bindM (resolve_strict E (wq_staging rq)) (\<lambda>staging fs.
       if \<not> me_is_dir E staging \<or> butlast out \<noteq> staging
       then (write_error ''metadata output must be directly inside controlled staging'', fs)
       else if \<not> has_suffix out supported_suffixes
       then (write_error ''canonical metadata output must be a supported audio publication file'', fs)
       else if src = out \<or> path_exists E out fs
       then (write_error ''metadata source and destination must be distinct and unused'', fs)
       else (Inr (src, out, staging), fs))))"

text \<open>Writing octets to a file; a write that fails leaves a part of them.\<close>

definition write_octets :: "media_env \<Rightarrow> path \<Rightarrow> octets \<Rightarrow> unit media_act" where
  "write_octets E p content fs = (case me_fault E p content fs of
     None \<Rightarrow> (Inr (), fs(p \<mapsto> content)) | Some part \<Rightarrow> (Inl OSExc, fs(p \<mapsto> part)))"

text \<open>\<open>shutil.copyfileobj\<close> and \<open>shutil.copy2\<close> as far as the content goes.\<close>

definition copy_file :: "media_env \<Rightarrow> path \<Rightarrow> path \<Rightarrow> unit media_act" where
  "copy_file E src dst fs = (case fs src of None \<Rightarrow> (Inl OSExc, fs) | Some content \<Rightarrow> write_octets E dst content fs)"

definition staged_copy :: "media_env \<Rightarrow> path \<Rightarrow> path \<Rightarrow> path media_act" where
  "staged_copy E src temp fs =
     (case copy_file E src temp (fs(temp \<mapsto> [])) of
        (Inl e, fs') \<Rightarrow> (if is_os_error e then (write_error ''unable to stage media for metadata writing'', fs'(temp := None))
          else (Inl e, fs'))
      | (Inr _, fs') \<Rightarrow> (Inr temp, fs'))"

definition copy_to_staging ::
  "media_env \<Rightarrow> path \<Rightarrow> path \<Rightarrow> string \<Rightarrow> media_capability option \<Rightarrow> path media_act" where
  "copy_to_staging E src staging ending capability =
     bindM (case capability of Some c \<Rightarrow> giveM True
        | None \<Rightarrow> bindM (inspect_media_capability E src ''ffprobe'' False) (\<lambda>i. giveM (ci_capability i \<noteq> None)))
      (\<lambda>declared fs.
        if \<not> declared \<and> str_casefold ending \<noteq> ''.mp3'' then (write_error ''source has no declared capability'', fs)
        else (case me_temp E staging ending fs of
          None \<Rightarrow> (Inl OSExc, fs) | Some temp \<Rightarrow> staged_copy E src temp fs))"

text \<open>The staged copy is changed and verified by the container of the output.\<close>

definition write_container :: "tag_library \<Rightarrow> media_env \<Rightarrow> write_request \<Rightarrow> tags \<Rightarrow> path \<Rightarrow> path \<Rightarrow> unit media_act" where
  "write_container L E rq tags out temp =
     (if has_suffix out [''.mka''] then write_mka_tags E temp out tags (wq_ffmpeg rq) (wq_ffprobe rq)
      else bindM
        (if has_suffix out [''.mp3'']
         then bindM (write_mp3_tags L temp (wq_metadata rq)) (\<lambda>_. open_act (verify_mp3 L (wq_metadata rq)) temp)
         else if has_suffix out [''.m4a'', ''.mp4'']
         then bindM (write_mp4_tags L temp (wq_metadata rq)) (\<lambda>_. open_act (verify_mp4 L (wq_metadata rq)) temp)
         else (case vorbis_kind_of (path_suffix out) of
           None \<Rightarrow> raiseM (MetadataWriteError (''unsupported Vorbis-comment suffix: '' @ str_casefold (path_suffix out)))
         | Some k \<Rightarrow> bindM (write_vorbis_comments L k temp tags) (\<lambda>_. open_act (verify_vorbis L k tags) temp)))
        (\<lambda>_. rethrowM (\<lambda>e. e = FileExistsExc) (MetadataWriteError ''metadata destination already exists'')
          (copy_file E temp out)))"

definition write_canonical_metadata :: "tag_library \<Rightarrow> media_env \<Rightarrow> write_request \<Rightarrow> metadata_result media_act" where
  "write_canonical_metadata L E rq =
     bindM (validate_paths E rq) (\<lambda>(src, out, staging).
     bindM (pureM (canonical_tags (wq_metadata rq) (wq_fields rq) (wq_genres rq))) (\<lambda>tags.
     bindM (copy_to_staging E src staging (path_suffix out) (wq_capability rq)) (\<lambda>temp.
     bindM (finallyM (write_container L E rq tags out temp) (\<lambda>fs. fs(temp := None))) (\<lambda>_.
     giveM \<lparr>wr_output = out, wr_tags = tags\<rparr>))))"

definition with_name :: "path \<Rightarrow> string \<Rightarrow> path" where
  "with_name p n = butlast p @ [n]"

text \<open>\<open>src.replace(dst)\<close>.\<close>

definition rename_over :: "media_env \<Rightarrow> path \<Rightarrow> path \<Rightarrow> unit media_act" where
  "rename_over E src dst fs = (if fs src = None \<or> me_is_dir E dst then (Inl OSExc, fs)
     else (Inr (), (fs(src := None))(dst := fs src)))"

fun is_tag_error :: "media_exc \<Rightarrow> bool" where
  "is_tag_error (MetadataTagError q) = True"
| "is_tag_error _ = False"

definition write_observed_metadata :: "tag_library \<Rightarrow> media_env \<Rightarrow> path \<Rightarrow> tags \<Rightarrow> metadata_result media_act" where
  "write_observed_metadata L E p tags =
     (let filtered = allowed_only tags in
      if has_suffix p [''.mka''] then
        (let temp = with_name p (''.'' @ last p @ ''.metadata'') in
         bindM (write_mka_tags E p temp filtered ''ffmpeg'' ''ffprobe'') (\<lambda>_.
         bindM (rename_over E temp p) (\<lambda>_. giveM \<lparr>wr_output = p, wr_tags = filtered\<rparr>)))
      else bindM (rethrowM is_tag_error (MetadataWriteError ''Mutagen rejected observed metadata'')
          (write_normalized_tags L E p filtered)) (\<lambda>_. giveM \<lparr>wr_output = p, wr_tags = filtered\<rparr>))"

section \<open>The media stage\<close>

record stage_plan =
  sp_source :: path
  sp_tags :: tags
  sp_metadata :: "canonical_metadata option"
  sp_directory :: string
  sp_name :: string

record pipeline_request =
  pq_plan :: stage_plan
  pq_capability :: media_capability
  pq_staging :: path
  pq_name :: string
  pq_ffmpeg :: string
  pq_fpcalc :: string
  pq_settings :: "(string list \<times> (string \<times> string list) list) option"
  pq_fingerprint :: bool

record pipeline_result =
  pr_output :: path
  pr_tags :: tags
  pr_fingerprint :: "fingerprint_result option"
  pr_flac :: "(int \<times> int \<times> int) option"

definition plan_media_stage :: "tag_library \<Rightarrow> media_env \<Rightarrow> path \<Rightarrow> tags option \<Rightarrow> stage_plan media_act" where
  "plan_media_stage L E src given =
     bindM (case given of Some ts \<Rightarrow> giveM ts
        | None \<Rightarrow> rethrowM is_tag_error (OtherExc ''SourceMetadataError'') (read_normalized_tags L E src)) (\<lambda>tags.
     bindM (pureM (fallback_metadata tags AUTOMATIC_FALLBACK)) (\<lambda>m.
     bindM (pureM (publication_layout tags)) (\<lambda>(dir, name).
     giveM \<lparr>sp_source = src, sp_tags = tags, sp_metadata = m, sp_directory = dir, sp_name = name\<rparr>)))"

text \<open>\<open>Path(name).name == name\<close> and no directory link; \<open>with_suffix\<close> replaces the suffix of a name.\<close>

definition single_name :: "string \<Rightarrow> bool" where
  "single_name n \<longleftrightarrow> n \<notin> {[], ''.'', ''..''} \<and> CHR ''/'' \<notin> set n"

definition with_suffix :: "string \<Rightarrow> string \<Rightarrow> string" where
  "with_suffix n ending = take (length n - length (name_suffix n)) n @ ending"

definition final_error :: "media_env \<Rightarrow> path \<Rightarrow> path \<Rightarrow> string \<Rightarrow> tool_evidence \<Rightarrow> unit media_act" where
  "final_error E src out ffmpeg staged =
     (if t_state staged \<noteq> FAILED then raiseM (MediaPipelineInfrastructureError (t_state staged))
      else bindM (decoder_evidence E src ffmpeg) (\<lambda>source.
        if t_state source = FAILED then raiseM (SourceAudioCorruptionError src out source staged)
        else if tool_ok source then raiseM (PipelineOutputFailure src out source staged)
        else raiseM (MediaPipelineInfrastructureError (t_state source))))"

definition validate_final_output :: "media_env \<Rightarrow> path \<Rightarrow> path \<Rightarrow> string \<Rightarrow> unit media_act" where
  "validate_final_output E src out ffmpeg =
     bindM (decoder_evidence E out ffmpeg) (\<lambda>staged.
       if tool_ok staged then giveM () else final_error E src out ffmpeg staged)"

definition write_staged_metadata ::
  "tag_library \<Rightarrow> media_env \<Rightarrow> pipeline_request \<Rightarrow> path \<Rightarrow> path \<Rightarrow> tags media_act" where
  "write_staged_metadata L E rq remux out = (case sp_metadata (pq_plan rq) of
     None \<Rightarrow> bindM (write_observed_metadata L E remux (sp_tags (pq_plan rq))) (\<lambda>observed.
       bindM (rename_over E remux out) (\<lambda>_. giveM (wr_tags observed)))
   | Some m \<Rightarrow> bindM (pureM (make_genre_policy (cm_genres m) (pq_settings rq))) (\<lambda>pol.
       bindM (write_canonical_metadata L E \<lparr>wq_source = remux, wq_output = out, wq_staging = pq_staging rq,
           wq_metadata = m, wq_fields = default_fields, wq_genres = pol, wq_capability = Some (pq_capability rq),
           wq_ffmpeg = pq_ffmpeg rq, wq_ffprobe = ''ffprobe''\<rparr>) (\<lambda>result.
       bindM (unlink E remux) (\<lambda>_. giveM (wr_tags result)))))"

text \<open>The remux and the fingerprint run side by side; both are awaited, and an exception of the
  fingerprint comes before one of the remux.\<close>

definition catchM :: "'a media_act \<Rightarrow> (media_exc + 'a) media_act" where
  "catchM m fs = (case m fs of (r, fs') \<Rightarrow> (Inr r, fs'))"

definition remux_and_fingerprint ::
  "media_env \<Rightarrow> (string \<Rightarrow> (string \<times> json) option) \<Rightarrow> pipeline_request \<Rightarrow> path \<Rightarrow> path \<Rightarrow> fingerprint_result option media_act" where
  "remux_and_fingerprint E payload rq src remux =
     bindM (catchM (remux_stream_copy E src remux (pq_ffmpeg rq))) (\<lambda>remuxed.
     bindM (if pq_fingerprint rq
        then bindM (calculate_fingerprint E payload src None (pq_fpcalc rq)) (\<lambda>f. giveM (Some f))
        else giveM None) (\<lambda>fingerprint.
     case remuxed of Inl e \<Rightarrow> raiseM e | Inr _ \<Rightarrow> giveM fingerprint))"

definition process_media ::
  "tag_library \<Rightarrow> media_env \<Rightarrow> (string \<Rightarrow> (string \<times> json) option) \<Rightarrow> pipeline_request \<Rightarrow> pipeline_result media_act" where
  "process_media L E payload rq =
     bindM (resolve_strict E (pq_staging rq)) (\<lambda>staging.
     if \<not> me_is_dir E staging then raiseM ValueExc
     else bindM (resolve_strict E (sp_source (pq_plan rq))) (\<lambda>src.
       let out = staging @ [with_suffix (pq_name rq) ''.mka'']; remux = staging @ [''.remux.mka''] in
       if \<not> single_name (pq_name rq) then raiseM ValueExc
       else if out = remux \<or> src \<in> {out, remux} then raiseM ValueExc
       else bindM (unlink E out) (\<lambda>_. bindM (unlink E remux) (\<lambda>_.
         bindM (remux_and_fingerprint E payload rq src remux) (\<lambda>fingerprint.
         bindM (write_staged_metadata L E rq remux out) (\<lambda>tags.
         bindM (validate_final_output E src out (pq_ffmpeg rq)) (\<lambda>_.
         bindM (unlink E remux) (\<lambda>_.
         bindM (if has_suffix src [''.flac''] then bindM (open_act (tl_flac_info L) src) (\<lambda>i. giveM (Some i)) else giveM None)
           (\<lambda>flac. giveM \<lparr>pr_output = out, pr_tags = tags, pr_fingerprint = fingerprint, pr_flac = flac\<rparr>)))))))))"

section \<open>What the tools may do\<close>

text \<open>A program changes no file but the one named last on its command line, and that one only if it is
  told not to overwrite (\<open>-n\<close>): the reading programs have no such option.\<close>

definition tools_confined :: "media_env \<Rightarrow> bool" where
  "tools_confined E \<longleftrightarrow> (\<forall>cmd fs p. ''-n'' \<notin> set (tl cmd) \<or> last cmd \<noteq> path_str p \<longrightarrow> snd (me_tool E cmd fs) p = fs p)"

definition same_file :: "path \<Rightarrow> path set" where
  "same_file p = {q. path_str q = path_str p}"

lemma same_file_self [simp]: "p \<in> same_file p"
  by (simp add: same_file_def)

lemma touches_tool_read:
  assumes "tools_confined E" and "''-n'' \<notin> set (tl cmd)"
  shows "touches P (tool_act E cmd)"
  using assms by (auto simp: tools_confined_def touches_def tool_act_def split: prod.split)
    (metis snd_conv)

lemma touches_tool_write:
  assumes "tools_confined E" and "last cmd = path_str p"
  shows "touches (same_file p) (tool_act E cmd)"
  using assms by (auto simp: tools_confined_def touches_def tool_act_def same_file_def split: prod.split)
    (metis snd_conv)

lemma path_str_no_option: "path_str p \<noteq> ''-n''" "''-n'' \<noteq> path_str p"
  by (simp_all add: path_str_def)

lemmas read_commands = ffprobe_tags_command_def capability_command_def decoder_command_def

lemma touches_read_mka_tags: "tools_confined E \<Longrightarrow> touches P (read_mka_tags E p ffprobe)"
  unfolding read_mka_tags_def
  by (intro touches_bind touches_tool_read touches_if touches_raise touches_give)
    (auto simp: read_commands path_str_no_option)

lemma touches_inspect: "tools_confined E \<Longrightarrow> touches P (inspect_media_capability E p ffprobe pub)"
  unfolding inspect_media_capability_def
  by (intro touches_bind touches_tool_read touches_if touches_give touches_pure)
    (auto simp: read_commands path_str_no_option split: prod.split)

lemma touches_decoder: "tools_confined E \<Longrightarrow> touches P (decoder_evidence E p ffmpeg)"
  unfolding decoder_evidence_def by (rule touches_tool_read) (auto simp: read_commands path_str_no_option)

lemma touches_mka_command: "tools_confined E \<Longrightarrow> touches (same_file out) (tool_act E (mka_command ffmpeg src tags out))"
  by (rule touches_tool_write) (simp_all add: mka_command_def)

lemma touches_unlink_and_raise: "p \<in> P \<Longrightarrow> touches P (unlink_and_raise E p reason)"
  unfolding unlink_and_raise_def by (intro touches_bind touches_unlink touches_raise)

section \<open>The Matroska writer\<close>

text \<open>\<open>probe\<close> is what \<open>ffprobe\<close> answers for the content of a file.\<close>

definition probe_of :: "media_env \<Rightarrow> string \<Rightarrow> (octets option \<Rightarrow> process_end) \<Rightarrow> bool" where
  "probe_of E ffprobe probe \<longleftrightarrow> (\<forall>p fs. fst (me_tool E (ffprobe_tags_command ffprobe p) fs) = probe (fs p))"

definition mka_verified :: "(octets option \<Rightarrow> process_end) \<Rightarrow> tags \<Rightarrow> octets \<Rightarrow> bool" where
  "mka_verified probe tags c \<longleftrightarrow> tool_ok (run_tool (probe (Some c)))
     \<and> dict_eq (mka_values (t_stdout (run_tool (probe (Some c))))) (collapse_tags tags)"

definition reopen_failed :: media_exc where
  "reopen_failed = MetadataWriteError ''FFprobe could not reopen Matroska metadata''"

lemma read_mka_tags_result:
  assumes "tools_confined E" and "probe_of E ffprobe probe"
  shows "fst (read_mka_tags E p ffprobe fs) =
    (let ev = run_tool (probe (fs p)) in if tool_ok ev then Inr (mka_values (t_stdout ev)) else Inl reopen_failed)"
  using assms(2) unfolding probe_of_def
  by (auto simp: read_mka_tags_def bindM_def tool_act_def raiseM_def giveM_def reopen_failed_def Let_def split: prod.split)
    (metis fst_conv)+

lemma read_mka_tags_kept: "tools_confined E \<Longrightarrow> snd (read_mka_tags E p ffprobe fs) = fs"
  using touches_read_mka_tags [of E "{}"] by (auto simp: touches_def)

lemma touches_if_fs: "touches P m \<Longrightarrow> touches P m' \<Longrightarrow> touches P (\<lambda>fs. if b fs then m fs else m' fs)"
  by (simp add: touches_def)

lemma touches_write_mka: "tools_confined E \<Longrightarrow> touches (same_file out) (write_mka_tags E src out tags ffmpeg ffprobe)"
  unfolding write_mka_tags_def
  by (intro touches_bind touches_mka_command touches_if_fs touches_unlink_and_raise touches_read_mka_tags touches_if touches_give)
    simp_all

lemma unlink_and_raise_result:
  "\<not> me_is_dir E p \<Longrightarrow> unlink_and_raise E p reason fs = (Inl (MetadataWriteError reason), fs(p := None))"
  by (simp add: unlink_and_raise_def bindM_def unlink_def raiseM_def)

text \<open>What the writer leaves: a verified output, no output, or one that could not be read back.\<close>

lemma write_mka_tags_outcome:
  assumes "tools_confined E" and "probe_of E ffprobe probe" and "\<not> me_is_dir E out"
    and "write_mka_tags E src out tags ffmpeg ffprobe fs = (r, fs')"
  shows "case r of Inr _ \<Rightarrow> \<exists>c. fs' out = Some c \<and> mka_verified probe tags c
    | Inl e \<Rightarrow> fs' out = None \<or> e = reopen_failed"
proof -
  obtain ev fs1 where t: "tool_act E (mka_command ffmpeg src tags out) fs = (Inr ev, fs1)"
    using tool_act_result by blast
  show ?thesis
  proof (cases "\<not> tool_ok ev \<or> fs1 out = None")
    case True
    then have "write_mka_tags E src out tags ffmpeg ffprobe fs =
        (Inl (MetadataWriteError ''FFmpeg could not write canonical Matroska metadata''), fs1(out := None))"
      by (simp add: write_mka_tags_def bindM_def t unlink_and_raise_result [OF assms(3)])
    then show ?thesis using assms(4) by auto
  next
    case False
    then obtain c where c: "fs1 out = Some c" by auto
    obtain a where a: "read_mka_tags E out ffprobe fs1 = (a, fs1)"
      using read_mka_tags_kept [OF assms(1), of out ffprobe fs1] by (metis prod.collapse)
    have av: "a = (let ev = run_tool (probe (Some c)) in if tool_ok ev then Inr (mka_values (t_stdout ev)) else Inl reopen_failed)"
      using read_mka_tags_result [OF assms(1,2), of out fs1] by (simp add: a c)
    have w: "write_mka_tags E src out tags ffmpeg ffprobe fs = (case a of Inl e \<Rightarrow> (Inl e, fs1)
       | Inr actual \<Rightarrow> if \<not> dict_eq actual (collapse_tags tags)
           then (Inl (MetadataWriteError ''FFprobe did not observe the required canonical Matroska tags''), fs1(out := None))
           else (Inr (), fs1))"
      using False by (simp add: write_mka_tags_def bindM_def t a c unlink_and_raise_result [OF assms(3)] giveM_def split: sum.split)
    show ?thesis
    proof (cases "tool_ok (run_tool (probe (Some c)))")
      case False
      then have "a = Inl reopen_failed" by (simp add: av Let_def)
      then show ?thesis using assms(4) w by auto
    next
      case ok: True
      then have "a = Inr (mka_values (t_stdout (run_tool (probe (Some c)))))" by (simp add: av Let_def)
      then show ?thesis using assms(4) w ok c by (auto simp: mka_verified_def split: if_splits)
    qed
  qed
qed

text \<open>A file that \<open>ffprobe\<close> cannot read back stays at the output path.\<close>

lemma unreadable_output_left:
  assumes "me_tool E (mka_command ffmpeg src tags out) fs = (Completed 0 o1 e1, fs1)" and "fs1 out = Some c"
    and "me_tool E (ffprobe_tags_command ffprobe out) fs1 = (TimeoutExpired, fs1)"
  shows "write_mka_tags E src out tags ffmpeg ffprobe fs = (Inl reopen_failed, fs1) \<and> fs1 out \<noteq> None"
  using assms
  by (simp add: write_mka_tags_def bindM_def tool_act_result read_mka_tags_def raiseM_def reopen_failed_def)

section \<open>Only verified files are published\<close>

text \<open>The verification that belongs to the container of the output.\<close>

definition output_verified ::
  "tag_library \<Rightarrow> (octets option \<Rightarrow> process_end) \<Rightarrow> path \<Rightarrow> tags \<Rightarrow> canonical_metadata \<Rightarrow> octets \<Rightarrow> bool" where
  "output_verified L probe out tags m c \<longleftrightarrow>
     (if has_suffix out [''.mka''] then mka_verified probe tags c
      else if has_suffix out [''.mp3''] then verify_mp3 L m (Some c) = Inr ()
      else if has_suffix out [''.m4a'', ''.mp4''] then verify_mp4 L m (Some c) = Inr ()
      else (case vorbis_kind_of (path_suffix out) of None \<Rightarrow> False | Some k \<Rightarrow> verify_vorbis L k tags (Some c) = Inr ()))"

text \<open>\<open>mkstemp\<close> makes up a name that is not in use, nor that of the output.\<close>

definition temp_fresh :: "media_env \<Rightarrow> path \<Rightarrow> bool" where
  "temp_fresh E out \<longleftrightarrow> (\<forall>d x fs t. me_temp E d x fs = Some t \<longrightarrow> fs t = None \<and> path_str t \<noteq> path_str out)"

lemma touches_write_octets: "p \<in> P \<Longrightarrow> touches P (write_octets E p content)"
  by (auto simp: touches_def write_octets_def split: option.split)

lemma touches_copy_file: "dst \<in> P \<Longrightarrow> touches P (copy_file E src dst)"
  using touches_write_octets [of dst P E] by (auto simp: touches_def copy_file_def split: option.split)

lemma touches_save_rethrown: "p \<in> P \<Longrightarrow> touches P (rethrowM c e (save_act sv p))"
  by (intro touches_rethrow touches_save)

text \<open>Everything before the copy to the output happens in the temporary file.\<close>

lemma touches_write_mp3: "touches {temp} (write_mp3_tags L temp m)"
  unfolding write_mp3_tags_def by (intro touches_save_rethrown) simp

lemma touches_write_mp4: "touches {temp} (write_mp4_tags L temp m)"
  unfolding write_mp4_tags_def by (intro touches_bind touches_rethrow touches_save touches_open) simp

lemma touches_write_vorbis: "touches {temp} (write_vorbis_comments L k temp tags)"
  unfolding write_vorbis_comments_def by (intro touches_bind touches_rethrow touches_save touches_open) simp

lemma touches_mp3: "touches {temp} (bindM (write_mp3_tags L temp m) (\<lambda>_. open_act v temp))"
  by (intro touches_bind touches_write_mp3 touches_open)

lemma touches_mp4: "touches {temp} (bindM (write_mp4_tags L temp m) (\<lambda>_. open_act v temp))"
  by (intro touches_bind touches_write_mp4 touches_open)

lemma touches_vorbis: "touches {temp} (bindM (write_vorbis_comments L k temp tags) (\<lambda>_. open_act v temp))"
  by (intro touches_bind touches_write_vorbis touches_open)

text \<open>A change verified in the temporary file and then copied.\<close>

lemma verified_copy:
  assumes "touches {temp} m" and "temp \<noteq> out"
    and "bindM (bindM m (\<lambda>_. open_act v temp)) (\<lambda>_. rethrowM c x (copy_file E temp out)) fs = (r, fs')"
    and "\<not> c OSExc"
  shows "touches {temp, out} (bindM (bindM m (\<lambda>_. open_act v temp)) (\<lambda>_. rethrowM c x (copy_file E temp out)))"
    and "case r of Inr _ \<Rightarrow> \<exists>d. fs' out = Some d \<and> (\<exists>u. v (Some d) = Inr u) | Inl e \<Rightarrow> fs' out = fs out \<or> e = OSExc"
proof -
  show "touches {temp, out} (bindM (bindM m (\<lambda>_. open_act v temp)) (\<lambda>_. rethrowM c x (copy_file E temp out)))"
    by (intro touches_bind touches_rethrow touches_copy_file touches_open touches_mono [OF assms(1)]) simp_all
  obtain q fs1 where q: "m fs = (q, fs1)" by fastforce
  have keep: "fs1 out = fs out" using touchesD [OF assms(1) q] assms(2) by simp
  show "case r of Inr _ \<Rightarrow> \<exists>d. fs' out = Some d \<and> (\<exists>u. v (Some d) = Inr u) | Inl e \<Rightarrow> fs' out = fs out \<or> e = OSExc"
  proof (cases q)
    case (Inl e)
    then show ?thesis using assms(3) keep by (auto simp: bindM_def q)
  next
    case (Inr y)
    show ?thesis
    proof (cases "v (fs1 temp)")
      case (Inl e)
      then show ?thesis using assms(3) keep \<open>q = Inr y\<close> by (auto simp: bindM_def q open_act_def)
    next
      case v: (Inr u)
      show ?thesis
      proof (cases "fs1 temp")
        case None
        then show ?thesis using assms(3,4) keep v \<open>q = Inr y\<close>
          by (auto simp: bindM_def q open_act_def rethrowM_def copy_file_def)
      next
        case (Some d)
        then show ?thesis using assms(3,4) keep v \<open>q = Inr y\<close>
          by (auto simp: bindM_def q open_act_def rethrowM_def copy_file_def write_octets_def split: option.splits)
      qed
    qed
  qed
qed

lemma touches_container:
  assumes "tools_confined E" and "temp \<noteq> out"
  shows "touches (insert temp (same_file out)) (write_container L E rq tags out temp)"
proof -
  let ?P = "insert temp (same_file out)"
  have mka: "touches ?P (write_mka_tags E temp out tags f g)" for f g
    by (rule touches_mono [OF touches_write_mka [OF assms(1)]]) auto
  have copy: "touches ?P (rethrowM c x (copy_file E temp out))" for c x
    by (intro touches_rethrow touches_copy_file) simp
  have w: "touches ?P (write_mp3_tags L temp m)" "touches ?P (write_mp4_tags L temp m)"
    "touches ?P (write_vorbis_comments L k temp tags)" for m k
    by (rule touches_mono [OF touches_write_mp3] touches_mono [OF touches_write_mp4]
        touches_mono [OF touches_write_vorbis], simp)+
  then show ?thesis unfolding write_container_def
    by (intro touches_if mka touches_bind copy w touches_open) (auto intro!: touches_bind w split: option.split)
qed

lemma write_container_outcome:
  assumes "tools_confined E" and "probe_of E (wq_ffprobe rq) probe" and "\<not> me_is_dir E out" and "temp \<noteq> out"
    and "fs out = None" and "write_container L E rq tags out temp fs = (r, fs')"
  shows "case r of Inr _ \<Rightarrow> \<exists>c. fs' out = Some c \<and> output_verified L probe out tags (wq_metadata rq) c
    | Inl e \<Rightarrow> fs' out = None \<or> e = OSExc \<or> e = reopen_failed"
proof -
  let ?copy = "\<lambda>_. rethrowM (\<lambda>e. e = FileExistsExc) (MetadataWriteError ''metadata destination already exists'') (copy_file E temp out)"
  have nf: "\<not> (OSExc = FileExistsExc)" by simp
  consider (mka) "has_suffix out [''.mka'']" | (mp3) "\<not> has_suffix out [''.mka'']" "has_suffix out [''.mp3'']"
    | (mp4) "\<not> has_suffix out [''.mka'']" "\<not> has_suffix out [''.mp3'']" "has_suffix out [''.m4a'', ''.mp4'']"
    | (other) "\<not> has_suffix out [''.mka'']" "\<not> has_suffix out [''.mp3'']" "\<not> has_suffix out [''.m4a'', ''.mp4'']"
    by blast
  then show ?thesis
  proof cases
    case mka
    then have "write_mka_tags E temp out tags (wq_ffmpeg rq) (wq_ffprobe rq) fs = (r, fs')"
      using assms(6) by (simp add: write_container_def)
    from write_mka_tags_outcome [OF assms(1-3) this] mka show ?thesis
      by (auto simp: output_verified_def split: sum.splits)
  next
    case mp3
    then have "bindM (bindM (write_mp3_tags L temp (wq_metadata rq)) (\<lambda>_. open_act (verify_mp3 L (wq_metadata rq)) temp)) ?copy fs = (r, fs')"
      using assms(6) by (simp add: write_container_def)
    from verified_copy(2) [OF touches_write_mp3 assms(4) this nf] mp3 assms(5) show ?thesis
      by (auto simp: output_verified_def split: sum.splits)
  next
    case mp4
    then have "bindM (bindM (write_mp4_tags L temp (wq_metadata rq)) (\<lambda>_. open_act (verify_mp4 L (wq_metadata rq)) temp)) ?copy fs = (r, fs')"
      using assms(6) by (simp add: write_container_def)
    from verified_copy(2) [OF touches_write_mp4 assms(4) this nf] mp4 assms(5) show ?thesis
      by (auto simp: output_verified_def split: sum.splits)
  next
    case other
    show ?thesis
    proof (cases "vorbis_kind_of (path_suffix out)")
      case None
      then show ?thesis using assms(5,6) other by (auto simp: write_container_def bindM_def raiseM_def)
    next
      case (Some k)
      then have "bindM (bindM (write_vorbis_comments L k temp tags) (\<lambda>_. open_act (verify_vorbis L k tags) temp)) ?copy fs = (r, fs')"
        using assms(6) other by (simp add: write_container_def)
      from verified_copy(2) [OF touches_write_vorbis assms(4) this nf] other Some assms(5) show ?thesis
        by (auto simp: output_verified_def split: sum.splits)
    qed
  qed
qed

text \<open>The staged copy: a new temporary file, and nothing else.\<close>

lemma copy_to_staging_outcome:
  assumes "tools_confined E" and "temp_fresh E out"
    and "copy_to_staging E src staging ending capability fs = (r, fs')"
  shows "case r of Inr temp \<Rightarrow> fs temp = None \<and> path_str temp \<noteq> path_str out \<and> (\<forall>p. p \<noteq> temp \<longrightarrow> fs' p = fs p)
    | Inl e \<Rightarrow> fs' = fs"
proof -
  define decl where "decl = (case capability of Some c \<Rightarrow> giveM True
     | None \<Rightarrow> bindM (inspect_media_capability E src ''ffprobe'' False) (\<lambda>i. giveM (ci_capability i \<noteq> None)))"
  have "touches {} decl" unfolding decl_def
    by (cases capability) (auto intro!: touches_bind touches_inspect assms(1))
  then have "snd (decl fs) = fs" by (rule touches_none)
  then obtain d where d: "decl fs = (d, fs)" by (metis prod.collapse)
  have c: "bindM decl (\<lambda>declared fs.
        if \<not> declared \<and> str_casefold ending \<noteq> ''.mp3'' then (write_error ''source has no declared capability'', fs)
        else (case me_temp E staging ending fs of
          None \<Rightarrow> (Inl OSExc, fs) | Some temp \<Rightarrow> staged_copy E src temp fs)) fs = (r, fs')"
    using assms(3) by (simp only: copy_to_staging_def decl_def)
  have st: "case q of Inr t \<Rightarrow> t = temp \<and> (\<forall>p. p \<noteq> temp \<longrightarrow> fs1 p = fs p) | Inl e \<Rightarrow> fs1 = fs"
    if s: "staged_copy E src temp fs = (q, fs1)" and n: "fs temp = None" for temp q fs1
  proof -
    have restored: "fs(temp := None) = fs" using n by (simp add: fun_upd_idem)
    show ?thesis using s
      by (auto simp: staged_copy_def copy_file_def write_octets_def is_os_error_def write_error_def restored split: option.splits if_splits sum.splits)
  qed
  show ?thesis
  proof (cases d)
    case (Inl e)
    then show ?thesis using c by (auto simp: bindM_def d)
  next
    case (Inr b)
    show ?thesis
    proof (cases "\<not> b \<and> str_casefold ending \<noteq> ''.mp3''")
      case True
      then show ?thesis using c Inr by (auto simp: bindM_def d write_error_def)
    next
      case False
      show ?thesis
      proof (cases "me_temp E staging ending fs")
        case None
        then show ?thesis using c Inr False by (auto simp: bindM_def d)
      next
        case (Some t)
        then have "fs t = None" "path_str t \<noteq> path_str out" using assms(2) by (auto simp: temp_fresh_def)
        moreover have "staged_copy E src t fs = (r, fs')" using c Inr False Some by (auto simp: bindM_def d)
        ultimately show ?thesis using st [of t r fs'] by (auto split: sum.splits)
      qed
    qed
  qed
qed

lemma finallyM_frame: "snd (finallyM m c fs) = c (snd (m fs))"
  by (simp add: finallyM_def case_prod_beta)

lemma validate_paths_result:
  assumes "validate_paths E rq fs = (r, fs')"
  shows "fs' = fs" and "r = Inr (src, out, staging) \<Longrightarrow> out = me_resolve E (wq_output rq) \<and> fs out = None \<and> \<not> me_is_dir E out"
  using assms by (auto simp: validate_paths_def bindM_def resolve_strict_def path_exists_def write_error_def Let_def
      split: if_splits)

text \<open>The container step together with the removal of the temporary file.\<close>

lemma staged_write_outcome:
  assumes "tools_confined E" and "probe_of E (wq_ffprobe rq) probe" and "\<not> me_is_dir E out" and "fs out = None"
    and "fs temp = None" and "path_str temp \<noteq> path_str out" and "\<And>p. p \<noteq> temp \<Longrightarrow> fs1 p = fs p"
    and "finallyM (write_container L E rq tags out temp) (\<lambda>fs. fs(temp := None)) fs1 = (r, fs')"
  shows "case r of Inr _ \<Rightarrow> \<exists>c. fs' out = Some c \<and> output_verified L probe out tags (wq_metadata rq) c
      | Inl e \<Rightarrow> fs' out = None \<or> e = OSExc \<or> e = reopen_failed"
    and "path_str p \<noteq> path_str out \<Longrightarrow> fs' p = fs p"
proof -
  obtain fs2 where w: "write_container L E rq tags out temp fs1 = (r, fs2)" and f: "fs' = fs2(temp := None)"
    using assms(8) by (auto simp: finallyM_iff)
  have ne: "temp \<noteq> out" using assms(6) by auto
  have "fs1 out = None" using assms(4) assms(7) [of out] ne by simp
  from write_container_outcome [OF assms(1-3) ne this w] ne
  show "case r of Inr _ \<Rightarrow> \<exists>c. fs' out = Some c \<and> output_verified L probe out tags (wq_metadata rq) c
      | Inl e \<Rightarrow> fs' out = None \<or> e = OSExc \<or> e = reopen_failed"
    by (simp add: f split: sum.splits)
  show "path_str p \<noteq> path_str out \<Longrightarrow> fs' p = fs p"
    using touchesD [OF touches_container [OF assms(1) ne] w, of p] assms(5) assms(7) [of p]
    by (cases "p = temp") (auto simp: f same_file_def)
qed

lemma canonical_write_facts:
  assumes "tools_confined E" and "probe_of E (wq_ffprobe rq) probe" and "temp_fresh E (me_resolve E (wq_output rq))"
    and "write_canonical_metadata L E rq fs = (r, fs')"
  shows "case r of
      Inr res \<Rightarrow> wr_output res = me_resolve E (wq_output rq) \<and> fs (wr_output res) = None
        \<and> canonical_tags (wq_metadata rq) (wq_fields rq) (wq_genres rq) = Inr (wr_tags res)
        \<and> (\<exists>c. fs' (wr_output res) = Some c \<and> output_verified L probe (wr_output res) (wr_tags res) (wq_metadata rq) c)
    | Inl e \<Rightarrow> fs' (me_resolve E (wq_output rq)) = fs (me_resolve E (wq_output rq)) \<or> e = OSExc \<or> e = reopen_failed"
    and "path_str p \<noteq> path_str (me_resolve E (wq_output rq)) \<Longrightarrow> fs' p = fs p"
proof -
  let ?out = "me_resolve E (wq_output rq)"
  let ?goal = "(case r of
      Inr res \<Rightarrow> wr_output res = ?out \<and> fs (wr_output res) = None
        \<and> canonical_tags (wq_metadata rq) (wq_fields rq) (wq_genres rq) = Inr (wr_tags res)
        \<and> (\<exists>c. fs' (wr_output res) = Some c \<and> output_verified L probe (wr_output res) (wr_tags res) (wq_metadata rq) c)
    | Inl e \<Rightarrow> fs' ?out = fs ?out \<or> e = OSExc \<or> e = reopen_failed) \<and> (path_str p \<noteq> path_str ?out \<longrightarrow> fs' p = fs p)"
  have ?goal
  proof (cases "validate_paths E rq fs")
    case (Pair v fs0)
    note same = validate_paths_result(1) [OF Pair]
    show ?thesis
    proof (cases v)
      case (Inl e)
      then show ?thesis using assms(4) by (auto simp: write_canonical_metadata_def bindM_def Pair same)
    next
      case (Inr paths)
      obtain src out staging where paths: "paths = (src, out, staging)" by (cases paths) auto
      have out: "out = ?out" "fs out = None" "\<not> me_is_dir E out"
        using validate_paths_result(2) [OF Pair] Inr paths by auto
      show ?thesis
      proof (cases "canonical_tags (wq_metadata rq) (wq_fields rq) (wq_genres rq)")
        case (Inl e)
        then show ?thesis using assms(4) \<open>v = Inr paths\<close>
          by (auto simp: write_canonical_metadata_def bindM_def Pair same paths pureM_def)
      next
        case tags: (Inr tags)
        obtain t fs1 where t: "copy_to_staging E src staging (path_suffix out) (wq_capability rq) fs = (t, fs1)" by fastforce
        note staged = copy_to_staging_outcome [OF assms(1) assms(3) t]
        show ?thesis
        proof (cases t)
          case (Inl e)
          then show ?thesis using assms(4) \<open>v = Inr paths\<close> tags staged
            by (auto simp: write_canonical_metadata_def bindM_def Pair same paths pureM_def t)
        next
          case temp: (Inr temp)
          obtain q fs2 where q: "finallyM (write_container L E rq tags out temp) (\<lambda>fs. fs(temp := None)) fs1 = (q, fs2)" by fastforce
          have tf: "fs temp = None" "path_str temp \<noteq> path_str out" "\<And>p. p \<noteq> temp \<Longrightarrow> fs1 p = fs p"
            using staged temp out(1) by auto
          note w = staged_write_outcome [OF assms(1,2) out(3,2) tf q]
          have res: "r = (case q of Inl e \<Rightarrow> Inl e | Inr _ \<Rightarrow> Inr \<lparr>wr_output = out, wr_tags = tags\<rparr>)" "fs' = fs2"
            using assms(4) \<open>v = Inr paths\<close> tags t temp q
            by (auto simp: write_canonical_metadata_def bindM_def Pair same paths pureM_def giveM_def split: sum.splits)
          show ?thesis using w(1) w(2) [of p] tags out res by (auto split: sum.splits)
        qed
      qed
    qed
  qed
  then show "case r of
      Inr res \<Rightarrow> wr_output res = ?out \<and> fs (wr_output res) = None
        \<and> canonical_tags (wq_metadata rq) (wq_fields rq) (wq_genres rq) = Inr (wr_tags res)
        \<and> (\<exists>c. fs' (wr_output res) = Some c \<and> output_verified L probe (wr_output res) (wr_tags res) (wq_metadata rq) c)
    | Inl e \<Rightarrow> fs' ?out = fs ?out \<or> e = OSExc \<or> e = reopen_failed"
    and "path_str p \<noteq> path_str ?out \<Longrightarrow> fs' p = fs p" by blast+
qed

section \<open>Tags that survive Matroska\<close>

definition breaks :: "string \<Rightarrow> bool" where
  "breaks s \<longleftrightarrow> list_ex (\<lambda>c. line_break (of_char c)) s"

lemma char_lines_word: "\<not> breaks l \<Longrightarrow> char_lines w (l @ s) = char_lines (rev l @ w) s"
  by (induction l arbitrary: w) (auto simp: breaks_def)

lemma char_lines_print:
  "list_all (\<lambda>l. \<not> breaks l) ls \<Longrightarrow> char_lines [] (concat (map (\<lambda>l. l @ [CHR 0x0A]) ls)) = ls"
proof (induction ls)
  case (Cons l ls)
  have lf: "line_break 10" by (simp add: line_break_def)
  show ?case using Cons by (simp add: char_lines_word lf)
qed simp

lemma char_lines_no_breaks: "\<not> breaks w \<Longrightarrow> l \<in> set (char_lines w s) \<Longrightarrow> \<not> breaks l"
proof (induction w s rule: char_lines.induct)
  case (2 w c s)
  show ?case
  proof (cases "line_break (of_char c)")
    case True
    then show ?thesis using "2.IH"(1) 2 by (auto simp: breaks_def list_ex_iff split: if_splits)
  next
    case False
    then show ?thesis using "2.IH"(2) 2 by (auto simp: breaks_def list_ex_iff)
  qed
qed (auto simp: breaks_def list_ex_iff split: if_splits)

text \<open>The lines \<open>ffprobe\<close> prints for the tags of a file.\<close>

definition probe_output :: "tags \<Rightarrow> string" where
  "probe_output d = concat (map (\<lambda>(n, v). ''TAG:'' @ n @ ''='' @ v @ [CHR 0x0A]) d)"

lemma tag_line_print:
  assumes "CHR ''='' \<notin> set n"
  shows "tag_line (''TAG:'' @ n @ ''='' @ v) = Some (n, v)"
proof -
  have "str_startswith (''TAG:'' @ n @ ''='' @ v) ''TAG:''" by (simp add: str_startswith_append)
  moreover have "split_once (CHR ''='') (n @ CHR ''='' # v) = (n, v)" by (rule split_once_eq [OF assms])
  ultimately show ?thesis by (simp add: tag_line_def)
qed

definition plain_tag :: "string \<times> string \<Rightarrow> bool" where
  "plain_tag t \<longleftrightarrow> CHR ''='' \<notin> set (fst t) \<and> \<not> breaks (fst t) \<and> \<not> breaks (snd t)"

lemma tag_lines_print: "list_all plain_tag d \<Longrightarrow> tag_lines (probe_output d) = d"
proof -
  assume d: "list_all plain_tag d"
  let ?ls = "map (\<lambda>(n, v). ''TAG:'' @ n @ ''='' @ v) d"
  have p: "probe_output d = concat (map (\<lambda>l. l @ [CHR 0x0A]) ?ls)" unfolding probe_output_def by (induction d) auto
  have "\<not> breaks ''TAG:''" and "\<not> breaks ''=''" by (simp_all add: breaks_def line_break_def)
  then have "list_all (\<lambda>l. \<not> breaks l) ?ls" using d by (auto simp: list_all_iff plain_tag_def breaks_def)
  then have "char_lines [] (probe_output d) = ?ls" unfolding p by (rule char_lines_print)
  moreover have "List.map_filter tag_line ?ls = d"
    using d by (induction d) (auto simp: List.map_filter_def plain_tag_def tag_line_print [simplified])
  ultimately show ?thesis by (simp only: tag_lines_def)
qed

lemma upper_letters:
  "char_upper (CHR ''A'') = CHR ''A''" "char_upper (CHR ''B'') = CHR ''B''" "char_upper (CHR ''C'') = CHR ''C''"
  "char_upper (CHR ''D'') = CHR ''D''" "char_upper (CHR ''E'') = CHR ''E''" "char_upper (CHR ''F'') = CHR ''F''"
  "char_upper (CHR ''G'') = CHR ''G''" "char_upper (CHR ''H'') = CHR ''H''" "char_upper (CHR ''I'') = CHR ''I''"
  "char_upper (CHR ''J'') = CHR ''J''" "char_upper (CHR ''K'') = CHR ''K''" "char_upper (CHR ''L'') = CHR ''L''"
  "char_upper (CHR ''M'') = CHR ''M''" "char_upper (CHR ''N'') = CHR ''N''" "char_upper (CHR ''O'') = CHR ''O''"
  "char_upper (CHR ''P'') = CHR ''P''" "char_upper (CHR ''Q'') = CHR ''Q''" "char_upper (CHR ''R'') = CHR ''R''"
  "char_upper (CHR ''S'') = CHR ''S''" "char_upper (CHR ''T'') = CHR ''T''" "char_upper (CHR ''U'') = CHR ''U''"
  "char_upper (CHR ''V'') = CHR ''V''" "char_upper (CHR ''W'') = CHR ''W''" "char_upper (CHR ''X'') = CHR ''X''"
  "char_upper (CHR ''Y'') = CHR ''Y''" "char_upper (CHR ''Z'') = CHR ''Z''"
  "char_upper (CHR ''_'') = CHR ''_''"
  by (simp_all add: char_upper_def less_eq_char_def)

lemma upper_allowed: "n \<in> set ALLOWED_TAG_KEYS \<Longrightarrow> str_upper n = n"
proof -
  have "map str_upper ALLOWED_TAG_KEYS = map (\<lambda>n. n) ALLOWED_TAG_KEYS"
    by (simp add: ALLOWED_TAG_KEYS_def str_upper_def upper_letters)
  then show "n \<in> set ALLOWED_TAG_KEYS \<Longrightarrow> ?thesis" unfolding map_eq_conv by blast
qed

text \<open>What \<open>ffprobe\<close> may list for a file that holds \<open>want\<close>: names in any letter case, in any order, and tags
  of the muxer's own (such as ENCODER or DURATION) among them, which take one line each.\<close>

definition own_tags :: "tags \<Rightarrow> tags" where
  "own_tags printed = filter (\<lambda>(n, v). n \<in> set ALLOWED_TAG_KEYS) (map (\<lambda>(n, v). (str_upper n, v)) printed)"

definition lists_tags :: "tags \<Rightarrow> tags \<Rightarrow> bool" where
  "lists_tags printed want \<longleftrightarrow> distinct (map fst (own_tags printed)) \<and> set (own_tags printed) = set want
     \<and> list_all (\<lambda>(n, v). plain_tag (n, if str_upper n \<in> set ALLOWED_TAG_KEYS then [] else v)) printed"

lemma collected_get:
  "dict_get (collect_named canon ts d) k =
    (case map snd (filter (\<lambda>t. canon (fst t) = Some k) ts) of
       [] \<Rightarrow> dict_get d k
     | v # vs \<Rightarrow> Some ((case dict_get d k of None \<Rightarrow> [] | Some us \<Rightarrow> us) @ v # vs))"
  by (induction canon ts d rule: collect_named.induct)
    (auto simp: dict_append_def split: option.split list.split)

lemma map_of_allowed: "k \<in> set ALLOWED_TAG_KEYS \<Longrightarrow> map_of (allowed_only d) k = map_of d k"
  unfolding allowed_only_def by (induction d) auto

lemma map_of_join: "map_of (join_values d) k = map_option (str_join ''; '') (map_of d k)"
  by (induction d) (auto simp: join_values_def)

lemma filter_distinct_key:
  "distinct (map fst d) \<Longrightarrow> filter (\<lambda>t. fst t = k) d = (case map_of d k of None \<Rightarrow> [] | Some v \<Rightarrow> [(k, v)])"
proof (induction d)
  case (Cons x d)
  show ?case
  proof (cases "fst x = k")
    case True
    then have "filter (\<lambda>t. fst t = k) d = []" using Cons.prems by (auto simp: filter_empty_conv image_iff)
    then show ?thesis using True by (cases x) simp
  next
    case False
    then show ?thesis using Cons by (cases x) simp
  qed
qed simp

lemma mka_values_listed:
  assumes "lists_tags printed want" and "distinct (map fst want)" and "tag_lines out = printed"
  shows "map_of (mka_values out) = map_of want"
proof
  fix k
  note p = assms(1) [unfolded lists_tags_def]
  have own: "map_of (own_tags printed) = map_of want" using p assms(2) map_of_inject_set by metis
  have sel: "map snd (filter (\<lambda>t. fst t = k) (own_tags printed)) = map snd (filter (\<lambda>t. str_upper (fst t) = k) printed)"
    if "k \<in> set ALLOWED_TAG_KEYS"
    using that unfolding own_tags_def by (induction printed) auto
  show "map_of (mka_values out) k = map_of want k"
  proof (cases "k \<in> set ALLOWED_TAG_KEYS")
    case True
    have "map_of (mka_values out) k = map_of (join_values (collect_named (\<lambda>n. Some (str_upper n)) printed [])) k"
      using True by (simp add: mka_values_def assms(3) map_of_allowed)
    also have "\<dots> = map_option (str_join ''; '')
        (case map snd (filter (\<lambda>t. fst t = k) (own_tags printed)) of [] \<Rightarrow> None | v # vs \<Rightarrow> Some (v # vs))"
      by (simp add: map_of_join collected_get sel [OF True] del: map_map) (simp split: list.split)
    also have "\<dots> = map_of (own_tags printed) k"
      using p by (simp add: filter_distinct_key split: option.split)
    finally show ?thesis by (simp add: own)
  next
    case False
    then have "k \<notin> fst ` set (mka_values out)" by (auto simp: mka_values_def allowed_only_def)
    moreover have "k \<notin> fst ` set (own_tags printed)" using False by (auto simp: own_tags_def)
    ultimately show ?thesis unfolding own [symmetric] by (metis map_of_eq_None_iff)
  qed
qed

text \<open>The pairs a dictionary of lists holds.\<close>

definition held_pairs :: "('k \<times> 'v list) list \<Rightarrow> ('k \<times> 'v) set" where
  "held_pairs d = {(k, v). \<exists>vs. (k, vs) \<in> set d \<and> v \<in> set vs}"

lemma held_simps [simp]: "held_pairs [] = {}" "held_pairs ((k, vs) # d) = Pair k ` set vs \<union> held_pairs d"
  by (auto simp: held_pairs_def)

lemma dict_append_distinct: "distinct (map fst d) \<Longrightarrow> distinct (map fst (dict_append k v d))"
  by (simp add: dict_append_def dict_set_distinct)

lemma dict_append_keys: "fst ` set (dict_append k v d) = insert k (fst ` set d)"
  using dict_set_keys [of k _ d] by (simp add: dict_append_def)

lemma held_pairs_append: "distinct (map fst d) \<Longrightarrow> held_pairs (dict_append k v d) = insert (k, v) (held_pairs d)"
proof (induction d)
  case (Cons x d)
  obtain a vs where x: "x = (a, vs)" by fastforce
  show ?case
  proof (cases "a = k")
    case True
    then show ?thesis by (auto simp: x dict_append_def)
  next
    case False
    then have "dict_append k v (x # d) = (a, vs) # dict_append k v d" by (simp add: x dict_append_def split: option.split)
    then show ?thesis using Cons by (auto simp: x)
  qed
qed (simp add: dict_append_def)

lemma collect_tags_facts:
  assumes "distinct (map fst d)"
  shows "distinct (map fst (collect_tags tags d)) \<and> fst ` set (collect_tags tags d) \<subseteq> fst ` set d \<union> fst ` set tags
    \<and> held_pairs (collect_tags tags d) = held_pairs d \<union> {t \<in> set tags. snd t \<noteq> []}"
  using assms
proof (induction tags arbitrary: d)
  case (Cons x tags)
  obtain n v where x: "x = (n, v)" by fastforce
  show ?case
  proof (cases "v = []")
    case True
    then show ?thesis using Cons by (auto simp: x)
  next
    case False
    have "distinct (map fst (dict_append n v d))" by (rule dict_append_distinct [OF Cons.prems])
    from Cons.IH [OF this] False show ?thesis
      by (auto simp: x held_pairs_append [OF Cons.prems] dict_append_keys)
  qed
qed simp

lemma breaks_join: "breaks (str_join ''; '' vs) \<longleftrightarrow> list_ex breaks vs"
proof -
  have "\<not> breaks ''; ''" by (simp add: breaks_def line_break_def)
  then show ?thesis by (induction "''; ''" vs rule: str_join.induct) (auto simp: breaks_def)
qed

lemma collapse_tags_facts:
  assumes "fst ` set tags \<subseteq> set ALLOWED_TAG_KEYS"
  shows "distinct (map fst (collapse_tags tags))" and "fst ` set (collapse_tags tags) \<subseteq> set ALLOWED_TAG_KEYS"
    and "list_ex (\<lambda>(n, v). breaks v) (collapse_tags tags) \<longleftrightarrow> list_ex (\<lambda>(n, v). breaks v) tags"
proof -
  note f = collect_tags_facts [of "[]" tags]
  have m: "map fst (join_values d) = map fst d" for d by (simp add: join_values_def case_prod_beta comp_def)
  show "distinct (map fst (collapse_tags tags))" using f by (simp add: collapse_tags_def m)
  have k: "fst ` set (join_values d) = fst ` set d" for d by (metis m list.set_map)
  have "fst ` set (collect_tags tags []) \<subseteq> fst ` set tags" using f by simp
  then show "fst ` set (collapse_tags tags) \<subseteq> set ALLOWED_TAG_KEYS"
    unfolding collapse_tags_def k using assms by (rule order_trans)
  have j: "list_ex (\<lambda>(n, v). breaks v) (join_values d) \<longleftrightarrow> (\<exists>t \<in> held_pairs d. breaks (snd t))" for d
  proof (induction d)
    case (Cons x d)
    obtain n vs where x: "x = (n, vs)" by fastforce
    have "list_ex (\<lambda>(n, v). breaks v) (join_values (x # d)) \<longleftrightarrow>
        list_ex breaks vs \<or> list_ex (\<lambda>(n, v). breaks v) (join_values d)"
      by (simp add: join_values_def x breaks_join)
    also have "\<dots> \<longleftrightarrow> (\<exists>t \<in> held_pairs (x # d). breaks (snd t))"
      unfolding Cons x held_simps bex_Un by (simp add: list_ex_iff)
    finally show ?case .
  qed (simp add: join_values_def)
  have "\<not> breaks []" by (simp add: breaks_def)
  then have ne: "breaks (snd t) \<Longrightarrow> snd t \<noteq> []" for t :: "string \<times> string" by metis
  have l: "held_pairs (collect_tags tags []) = {t \<in> set tags. snd t \<noteq> []}" using f by simp
  have "(\<exists>t \<in> held_pairs (collect_tags tags []). breaks (snd t)) \<longleftrightarrow> list_ex (\<lambda>(n, v). breaks v) tags"
    unfolding l list_ex_iff case_prod_beta using ne by blast
  then show "list_ex (\<lambda>(n, v). breaks v) (collapse_tags tags) \<longleftrightarrow> list_ex (\<lambda>(n, v). breaks v) tags"
    by (simp only: collapse_tags_def j)
qed

text \<open>Nothing that is read back contains a line break.\<close>

lemma tag_line_no_breaks: "tag_line l = Some (n, v) \<Longrightarrow> \<not> breaks l \<Longrightarrow> \<not> breaks v"
proof -
  assume t: "tag_line l = Some (n, v)" and l: "\<not> breaks l"
  have v: "v = tl (dropWhile (\<lambda>x. x \<noteq> CHR ''='') (drop 4 l))" using t
    by (simp add: tag_line_def split_once_def split: if_splits)
  have "set (tl xs) \<subseteq> set xs" for xs :: string by (cases xs) auto
  then have "set v \<subseteq> set (drop 4 l)" unfolding v using set_dropWhileD by fastforce
  then have "set v \<subseteq> set l" using set_drop_subset by fastforce
  then show "\<not> breaks v" using l by (auto simp: breaks_def list_ex_iff)
qed

lemma collect_named_listed:
  "distinct (map fst d) \<Longrightarrow> snd ` held_pairs (collect_named canon ts d) \<subseteq> snd ` held_pairs d \<union> snd ` set ts"
proof (induction ts arbitrary: d)
  case (Cons x ts)
  obtain n v where x: "x = (n, v)" by fastforce
  show ?case
  proof (cases "canon n")
    case None
    then show ?thesis using Cons by (auto simp: x)
  next
    case (Some c)
    have "snd ` held_pairs (collect_named canon ts (dict_append c v d)) \<subseteq> snd ` held_pairs (dict_append c v d) \<union> snd ` set ts"
      by (rule Cons.IH [OF dict_append_distinct [OF Cons.prems]])
    then show ?thesis by (auto simp: x Some held_pairs_append [OF Cons.prems])
  qed
qed simp

lemma tag_lines_no_breaks:
  assumes "(n, v) \<in> set (tag_lines out)"
  shows "\<not> breaks v"
proof -
  have nb: "\<not> breaks []" by (simp add: breaks_def)
  obtain l where l: "l \<in> set (char_lines [] out)" "tag_line l = Some (n, v)"
    using assms by (auto simp: tag_lines_def List.map_filter_def)
  show ?thesis by (rule tag_line_no_breaks [OF l(2) char_lines_no_breaks [OF nb l(1)]])
qed

lemma mka_values_no_breaks: "(n, v) \<in> set (mka_values out) \<Longrightarrow> \<not> breaks v"
proof -
  let ?c = "collect_named (\<lambda>n. Some (str_upper n)) (tag_lines out) []"
  assume "(n, v) \<in> set (mka_values out)"
  then have "(n, v) \<in> set (join_values ?c)" by (simp add: mka_values_def allowed_only_def)
  then obtain vs where vs: "(n, vs) \<in> set ?c" "v = str_join ''; '' vs" by (auto simp: join_values_def)
  have "\<not> breaks u" if u: "u \<in> set vs" for u
  proof -
    have "(n, u) \<in> held_pairs ?c" using vs(1) u by (auto simp: held_pairs_def)
    then have "u \<in> snd ` set (tag_lines out)"
      using collect_named_listed [of "[]" "\<lambda>n. Some (str_upper n)" "tag_lines out"] by force
    then show ?thesis using tag_lines_no_breaks by force
  qed
  then show "\<not> breaks v" by (simp add: vs(2) breaks_join list_ex_iff)
qed

lemma mka_values_lines: "char_lines [] s = char_lines [] t \<Longrightarrow> mka_values s = mka_values t"
  by (simp add: mka_values_def tag_lines_def)

lemma allowed_plain: "n \<in> set ALLOWED_TAG_KEYS \<Longrightarrow> CHR ''='' \<notin> set n \<and> \<not> breaks n"
proof -
  have "list_all (\<lambda>n. CHR ''='' \<notin> set n \<and> \<not> breaks n) ALLOWED_TAG_KEYS"
    by (simp add: ALLOWED_TAG_KEYS_def breaks_def line_break_def)
  then show "n \<in> set ALLOWED_TAG_KEYS \<Longrightarrow> ?thesis" unfolding list_all_iff by blast
qed

lemma observed_tags_iff:
  assumes "fst ` set tags \<subseteq> set ALLOWED_TAG_KEYS" and "lists_tags printed (collapse_tags tags)"
    and "char_lines [] s = char_lines [] (probe_output printed)"
  shows "dict_eq (mka_values s) (collapse_tags tags) \<longleftrightarrow> \<not> list_ex (\<lambda>(n, v). breaks v) tags"
proof
  note c = collapse_tags_facts [OF assms(1)]
  assume eq: "dict_eq (mka_values s) (collapse_tags tags)"
  show "\<not> list_ex (\<lambda>(n, v). breaks v) tags"
  proof
    assume "list_ex (\<lambda>(n, v). breaks v) tags"
    then obtain n v where nv: "(n, v) \<in> set (collapse_tags tags)" "breaks v" using c(3) by (auto simp: list_ex_iff)
    have "map_of (collapse_tags tags) n = Some v" using nv(1) c(1) by simp
    then have "(n, v) \<in> set (mka_values s)" using eq map_of_SomeD by (metis dict_eq_iff)
    then show False using mka_values_no_breaks nv(2) by blast
  qed
next
  note c = collapse_tags_facts [OF assms(1)]
  note l = assms(2) [unfolded lists_tags_def]
  assume "\<not> list_ex (\<lambda>(n, v). breaks v) tags"
  then have nb: "\<not> list_ex (\<lambda>(n, v). breaks v) (collapse_tags tags)" unfolding c(3) .
  have "plain_tag (n, v)" if "(n, v) \<in> set printed" for n v
  proof (cases "str_upper n \<in> set ALLOWED_TAG_KEYS")
    case True
    then have "(str_upper n, v) \<in> set (own_tags printed)" using that by (force simp: own_tags_def)
    then have "\<not> breaks v" using nb l by (auto simp: list_ex_iff)
    then show ?thesis using l that True by (fastforce simp: list_all_iff plain_tag_def)
  next
    case False
    then show ?thesis using l that by (fastforce simp: list_all_iff)
  qed
  then have "tag_lines (probe_output printed) = printed" by (intro tag_lines_print) (auto simp: list_all_iff)
  then have "tag_lines s = printed" using assms(3) by (simp add: tag_lines_def)
  then show "dict_eq (mka_values s) (collapse_tags tags)"
    unfolding dict_eq_iff by (rule mka_values_listed [OF assms(2) c(1)])
qed

lemma mka_write_facts:
  assumes "fst ` set tags \<subseteq> set ALLOWED_TAG_KEYS" and "\<not> me_is_dir E out"
    and "me_tool E (mka_command ffmpeg src tags out) fs = (Completed 0 o1 e1, fs1)" and "fs1 out = Some c"
    and "me_tool E (ffprobe_tags_command ffprobe out) fs1 = (Completed 0 s e2, fs1)"
    and "lists_tags printed (collapse_tags tags)" and "char_lines [] s = char_lines [] (probe_output printed)"
  shows "write_mka_tags E src out tags ffmpeg ffprobe fs =
    (if list_ex (\<lambda>(n, v). breaks v) tags
     then (Inl (MetadataWriteError ''FFprobe did not observe the required canonical Matroska tags''), fs1(out := None))
     else (Inr (), fs1))"
proof -
  have r: "read_mka_tags E out ffprobe fs1 = (Inr (mka_values s), fs1)"
    by (simp add: read_mka_tags_def bindM_def tool_act_result assms(5) giveM_def)
  have w: "write_mka_tags E src out tags ffmpeg ffprobe fs =
      (if \<not> dict_eq (mka_values s) (collapse_tags tags)
       then unlink_and_raise E out ''FFprobe did not observe the required canonical Matroska tags'' fs1 else giveM () fs1)"
    by (simp add: write_mka_tags_def bindM_def tool_act_result assms(3,4) r)
  show ?thesis unfolding w observed_tags_iff [OF assms(1,6,7)] unlink_and_raise_result [OF assms(2)] giveM_def by simp
qed

lemma upper_foreign: "str_upper ''ENCODER'' = ''ENCODER''" "str_upper ''title'' = ''TITLE''"
  by (simp_all add: str_upper_def upper_letters) (simp_all add: char_upper_def less_eq_char_def char_of_def bit_numeral_rec bit_0)

lemma lists_own:
  assumes "fst ` set d \<subseteq> set ALLOWED_TAG_KEYS" and "distinct (map fst d)"
  shows "lists_tags d d"
proof -
  have a: "str_upper n = n \<and> n \<in> set ALLOWED_TAG_KEYS" if "(n, v) \<in> set d" for n v
    using assms(1) upper_allowed that by force
  have m: "map (\<lambda>(n, v). (str_upper n, v)) d = d" by (rule map_idI) (use a in auto)
  have "own_tags d = d" unfolding own_tags_def m by (rule filter_True) (use a in auto)
  then show ?thesis using assms(2) a allowed_plain by (auto simp: lists_tags_def list_all_iff plain_tag_def breaks_def)
qed

text \<open>C24. Canonical tags in a Matroska file, when ffmpeg writes the file and ffprobe then lists its tags, one
  line each, in any order and letter case and with foreign tags such as ENCODER among them: the write is accepted
  exactly when no value contains a line break (among them the control characters and U+0085 of splitlines); with
  one the output is removed and the tags are reported missing.\<close>

theorem mka_tags_round_trip:
  assumes "fst ` set tags \<subseteq> set ALLOWED_TAG_KEYS" and "\<not> me_is_dir E out"
    and "me_tool E (mka_command ffmpeg src tags out) fs = (Completed 0 o1 e1, fs1)" and "fs1 out = Some c"
    and "me_tool E (ffprobe_tags_command ffprobe out) fs1 = (Completed 0 s e2, fs1)"
    and "lists_tags printed (collapse_tags tags)" and "char_lines [] s = char_lines [] (probe_output printed)"
  shows "write_mka_tags E src out tags ffmpeg ffprobe fs =
    (if list_ex (\<lambda>(n, v). breaks v) tags
     then (Inl (MetadataWriteError ''FFprobe did not observe the required canonical Matroska tags''), fs1(out := None))
     else (Inr (), fs1))"
  by (rule mka_write_facts [OF assms])

section \<open>The output of the media stage\<close>

lemma dots_suffix: "name_suffix (s @ ''.mka'') \<in> {''.mka'', []}"
proof -
  define d where "d = (\<lambda>c. c = CHR ''.'')"
  have d: "dropWhile d (s @ ''.mka'') = (if dropWhile d s = [] then ''mka'' else dropWhile d s @ ''.mka'')"
    by (auto simp: dropWhile_append d_def dropWhile_eq_Nil_conv)
  show ?thesis by (simp add: name_suffix_def d [unfolded d_def] Let_def)
qed

lemma mka_only:
  assumes "has_suffix (dir @ [with_suffix n ''.mka'']) supported_suffixes"
  shows "has_suffix (dir @ [with_suffix n ''.mka'']) [''.mka'']"
proof -
  have s: "path_suffix (dir @ [with_suffix n ''.mka'']) \<in> {''.mka'', []}"
    using dots_suffix [of "take (length n - length (name_suffix n)) n"] by (simp add: path_suffix_def with_suffix_def)
  have e: "str_casefold [] = []" by (simp add: str_casefold_def)
  show ?thesis
  proof (cases "path_suffix (dir @ [with_suffix n ''.mka'']) = []")
    case True
    then show ?thesis using assms by (simp add: has_suffix_def e supported_suffixes_def)
  next
    case False
    then have p: "path_suffix (dir @ [with_suffix n ''.mka'']) = ''.mka''" using s by simp
    show ?thesis by (simp add: has_suffix_def p casefold_mka)
  qed
qed

lemma touches_unlink_self: "touches (same_file p) (unlink E p)"
  by (rule touches_unlink) simp

lemma touches_remux:
  assumes "tools_confined E" and "me_resolve E output = output"
  shows "touches (same_file output) (remux_stream_copy E source output ffmpeg)"
proof -
  have t: "touches (same_file output) (tool_act E (remux_command ffmpeg src mux output))" for src mux
    by (rule touches_tool_write [OF assms(1)]) (simp add: remux_command_def)
  have u: "touches (same_file output) (\<lambda>fs. if b fs then bindM (unlink E output) (\<lambda>_. raiseM e) fs else (Inr ev, fs))"
    for b e and ev :: tool_evidence
  proof -
    have "touches (same_file output) (bindM (unlink E output) (\<lambda>_. raiseM e) :: tool_evidence media_act)"
      by (intro touches_bind touches_unlink_self touches_raise)
    then show ?thesis by (simp add: touches_def)
  qed
  have m: "touches (same_file output) (bindM (pureM (muxer (path_suffix output))) (\<lambda>mux.
      bindM (tool_act E (remux_command ffmpeg src mux output)) (\<lambda>ev fs.
        if \<not> tool_ok ev \<or> fs output = None
        then bindM (unlink E output) (\<lambda>_. raiseM (RemuxFailure src output ev)) fs else (Inr ev, fs))))" for src
    by (intro touches_bind touches_pure t u)
  show ?thesis unfolding remux_stream_copy_def assms(2) Let_def
    by (intro touches_bind touches_resolve) (use m in \<open>simp add: touches_def\<close>)
qed

lemma touches_fingerprint: "tools_confined E \<Longrightarrow> touches P (calculate_fingerprint E payload p inspection fpcalc)"
proof -
  assume c: "tools_confined E"
  have "touches P (parse_fingerprint E payload tool sha fpcalc)" for tool sha
    unfolding parse_fingerprint_def
    by (auto intro!: touches_bind touches_tool_read c split: option.split)
  then have "touches P (fingerprint_from_tool E payload tool fpcalc)" for tool
    unfolding fingerprint_from_tool_def Let_def by (intro touches_if touches_give)
  then show ?thesis unfolding calculate_fingerprint_def
    by (intro touches_if touches_give touches_bind touches_tool_read c) (auto simp: path_str_no_option)
qed

lemma touches_catch: "touches P m \<Longrightarrow> touches P (catchM m)"
  by (simp add: touches_def catchM_def case_prod_beta)

lemma touches_remux_and_fingerprint:
  assumes "tools_confined E" and "me_resolve E remux = remux"
  shows "touches (same_file remux) (remux_and_fingerprint E payload rq src remux)"
  unfolding remux_and_fingerprint_def
  by (intro touches_bind touches_catch touches_remux touches_if touches_fingerprint touches_give assms)
    (auto split: sum.split)

lemma touches_replace: "touches {src, dst} (rename_over E src dst)"
  by (auto simp: touches_def rename_over_def)

lemma rename_over_Inr:
  "rename_over E src dst fs = (Inr u, fs') \<Longrightarrow> src \<noteq> dst \<Longrightarrow> fs' dst = fs src \<and> fs' src = None \<and> fs src \<noteq> None"
  by (auto simp: rename_over_def split: if_splits)

definition observed_temp :: "path \<Rightarrow> path" where
  "observed_temp p = with_name p (''.'' @ last p @ ''.metadata'')"

lemma touches_observed:
  assumes "tools_confined E" and "has_suffix p [''.mka'']"
  shows "touches (insert p (same_file (observed_temp p))) (write_observed_metadata L E p tags)"
proof -
  let ?P = "insert p (same_file (observed_temp p))"
  have "touches ?P (write_mka_tags E p (observed_temp p) (allowed_only tags) f g)" for f g
    by (rule touches_mono [OF touches_write_mka [OF assms(1)]]) auto
  moreover have "touches ?P (rename_over E (observed_temp p) p)"
    by (rule touches_mono [OF touches_replace]) auto
  ultimately show ?thesis
    unfolding write_observed_metadata_def Let_def observed_temp_def [symmetric] if_P [OF assms(2)]
    by (intro touches_bind touches_give)
qed

lemma observed_verified:
  assumes "tools_confined E" and "probe_of E ''ffprobe'' probe" and "\<not> me_is_dir E (observed_temp p)"
    and "has_suffix p [''.mka'']" and "observed_temp p \<noteq> p"
    and "write_observed_metadata L E p tags fs = (Inr res, fs')"
  shows "wr_tags res = allowed_only tags \<and> (\<exists>c. fs' p = Some c \<and> mka_verified probe (allowed_only tags) c)"
proof -
  obtain fs1 u fs2 w where m: "write_mka_tags E p (observed_temp p) (allowed_only tags) ''ffmpeg'' ''ffprobe'' fs = (Inr u, fs1)"
    and r: "rename_over E (observed_temp p) p fs1 = (Inr w, fs2)" and res: "res = \<lparr>wr_output = p, wr_tags = allowed_only tags\<rparr>"
      "fs' = fs2"
    using assms(6) unfolding write_observed_metadata_def Let_def observed_temp_def [symmetric] if_P [OF assms(4)]
    by (auto simp: media_simps)
  from write_mka_tags_outcome [OF assms(1-3) m] rename_over_Inr [OF r assms(5)] res show ?thesis by auto
qed

lemma canonical_write_suffix:
  assumes "write_canonical_metadata L E rq fs = (Inr res, fs')"
  shows "has_suffix (me_resolve E (wq_output rq)) supported_suffixes"
proof -
  obtain v fs1 where v: "validate_paths E rq fs = (Inr v, fs1)"
    using assms by (auto simp: write_canonical_metadata_def media_simps)
  then show ?thesis
    by (auto simp: validate_paths_def bindM_def resolve_strict_def write_error_def Let_def split: if_splits)
qed

text \<open>The directory a stage works in: the names of its files resolve to themselves and are no
  directories, and the temporary names are other than these.\<close>

definition stage_ready :: "media_env \<Rightarrow> path \<Rightarrow> path \<Rightarrow> path \<Rightarrow> bool" where
  "stage_ready E staging out remux \<longleftrightarrow>
     me_resolve E out = out \<and> me_resolve E remux = remux \<and> \<not> me_is_dir E (observed_temp remux)
     \<and> temp_fresh E out \<and> out = staging @ [last out] \<and> remux = staging @ [''.remux.mka''] \<and> path_str out \<noteq> path_str remux"

definition stage_files :: "path \<Rightarrow> path \<Rightarrow> path set" where
  "stage_files out remux = same_file out \<union> same_file remux \<union> same_file (observed_temp remux)"

lemma remux_suffix: "has_suffix (staging @ [''.remux.mka'']) [''.mka'']"
proof -
  have n: "name_suffix ''.remux.mka'' = ''.mka''" by (simp add: name_suffix_def Let_def)
  show ?thesis by (simp add: has_suffix_def path_suffix_def n casefold_mka)
qed

lemma observed_temp_other: "observed_temp (staging @ [''.remux.mka'']) \<noteq> staging @ [''.remux.mka'']"
  by (simp add: observed_temp_def with_name_def)

lemma write_staged_outcome:
  assumes "tools_confined E" and "probe_of E ''ffprobe'' probe" and "stage_ready E staging out remux"
    and "out = staging @ [with_suffix n ''.mka'']" and "write_staged_metadata L E rq remux out fs = (r, fs')"
  shows "case r of Inr tags \<Rightarrow> (\<exists>c. fs' out = Some c \<and> mka_verified probe tags c) | Inl e \<Rightarrow> True"
    and "p \<notin> stage_files out remux \<Longrightarrow> fs' p = fs p"
proof -
  have ready: "me_resolve E out = out" "me_resolve E remux = remux" "\<not> me_is_dir E (observed_temp remux)" "temp_fresh E out"
      "remux = staging @ [''.remux.mka'']" "path_str out \<noteq> path_str remux"
    using assms(3) unfolding stage_ready_def by blast+
  have ne: "out \<noteq> remux" using ready(6) by auto
  have suf: "has_suffix remux [''.mka'']" and ot: "observed_temp remux \<noteq> remux"
    unfolding ready(5) by (rule remux_suffix, rule observed_temp_other)
  have goal: "(case r of Inr tags \<Rightarrow> (\<exists>c. fs' out = Some c \<and> mka_verified probe tags c) | Inl e \<Rightarrow> True)
    \<and> (p \<notin> stage_files out remux \<longrightarrow> fs' p = fs p)"
  proof (cases "sp_metadata (pq_plan rq)")
    case None
    let ?m = "bindM (write_observed_metadata L E remux (sp_tags (pq_plan rq))) (\<lambda>observed.
       bindM (rename_over E remux out) (\<lambda>_. giveM (wr_tags observed)))"
    have m: "?m fs = (r, fs')" using assms(5) None by (simp add: write_staged_metadata_def)
    have tm: "touches (stage_files out remux) ?m"
      by (intro touches_bind touches_give touches_mono [OF touches_observed [OF assms(1) suf]] touches_mono [OF touches_replace])
        (auto simp: stage_files_def)
    have f: "p \<notin> stage_files out remux \<longrightarrow> fs' p = fs p"
      using touchesD [where m = ?m and fs = fs, OF tm m] by blast
    show ?thesis
    proof (cases r)
      case (Inr tags)
      then obtain res fs1 u where o: "write_observed_metadata L E remux (sp_tags (pq_plan rq)) fs = (Inr res, fs1)"
          and rep: "rename_over E remux out fs1 = (Inr u, fs')" and t: "tags = wr_tags res"
        using m by (auto simp: media_simps)
      from observed_verified [OF assms(1,2) ready(3) suf ot o] rename_over_Inr [OF rep] ne t Inr f show ?thesis by auto
    qed (use f in simp)
  next
    case (Some m)
    define wq where "wq pol = \<lparr>wq_source = remux, wq_output = out, wq_staging = pq_staging rq,
        wq_metadata = m, wq_fields = default_fields, wq_genres = pol, wq_capability = Some (pq_capability rq),
        wq_ffmpeg = pq_ffmpeg rq, wq_ffprobe = ''ffprobe''\<rparr>" for pol
    have e: "bindM (pureM (make_genre_policy (cm_genres m) (pq_settings rq))) (\<lambda>pol.
       bindM (write_canonical_metadata L E (wq pol)) (\<lambda>result.
       bindM (unlink E remux) (\<lambda>_. giveM (wr_tags result)))) fs = (r, fs')"
      using assms(5) Some by (simp add: write_staged_metadata_def wq_def)
    show ?thesis
    proof (cases "make_genre_policy (cm_genres m) (pq_settings rq)")
      case (Inl x)
      then show ?thesis using e by (auto simp: bindM_def pureM_def)
    next
      case (Inr pol)
      obtain q fs1 where w: "write_canonical_metadata L E (wq pol) fs = (q, fs1)" by fastforce
      have fresh: "temp_fresh E (me_resolve E (wq_output (wq pol)))" and pr: "probe_of E (wq_ffprobe (wq pol)) probe"
        using ready(1,4) assms(2) by (simp_all add: wq_def)
      note facts = canonical_write_facts [OF assms(1) pr fresh w]
      have e1: "(case q of Inl x \<Rightarrow> (Inl x, fs1) | Inr result \<Rightarrow> bindM (unlink E remux) (\<lambda>_. giveM (wr_tags result)) fs1) = (r, fs')"
        using e Inr by (simp add: bindM_def pureM_def w split: sum.splits)
      have out: "me_resolve E (wq_output (wq pol)) = out" by (simp add: wq_def ready(1))
      have un: "fs' = fs1 \<or> fs' = fs1(remux := None)"
        using e1 by (auto simp: bindM_def unlink_def giveM_def split: sum.splits if_splits)
      then have f: "p \<notin> stage_files out remux \<longrightarrow> fs' p = fs p"
        using facts(2) [of p] unfolding out by (auto simp: stage_files_def same_file_def)
      show ?thesis
      proof (cases r)
        case (Inr tags)
        then obtain res where q: "q = Inr res" "tags = wr_tags res" "fs' = fs1(remux := None)"
          using e1 by (auto simp: bindM_def unlink_def giveM_def split: sum.splits if_splits)
        from facts(1) obtain c where c: "fs1 out = Some c" "output_verified L probe out tags m c"
          unfolding q(1) sum.case out by (auto simp: q(2) wq_def)
        have "has_suffix out supported_suffixes" using canonical_write_suffix [OF w [unfolded q(1)]] by (simp only: out)
        then have "has_suffix out [''.mka'']" unfolding assms(4) by (rule mka_only)
        then have "mka_verified probe tags c" using c(2) by (simp add: output_verified_def)
        then show ?thesis using c(1) f Inr ne q(3) by auto
      qed (use f in simp)
    qed
  qed
  show "case r of Inr tags \<Rightarrow> (\<exists>c. fs' out = Some c \<and> mka_verified probe tags c) | Inl e \<Rightarrow> True"
    using goal by (rule conjunct1)
  show "p \<notin> stage_files out remux \<Longrightarrow> fs' p = fs p" using goal by blast
qed

text \<open>What the stage has done when it returns, for a staging directory that is ready.\<close>

definition stage_published ::
  "media_env \<Rightarrow> (octets option \<Rightarrow> process_end) \<Rightarrow> string \<Rightarrow> path \<Rightarrow> path \<Rightarrow> pipeline_result \<Rightarrow> media_fs \<Rightarrow> bool" where
  "stage_published E probe ffmpeg out remux res fs' \<longleftrightarrow>
     pr_output res = out \<and> fs' remux = None \<and> (\<exists>c. fs' out = Some c \<and> mka_verified probe (pr_tags res) c)
     \<and> (\<exists>fs. fs out = fs' out \<and> tool_ok (run_tool (fst (me_tool E (decoder_command out ffmpeg) fs))))"

lemma final_error_raises: "fst (final_error E src out ffmpeg staged fs) \<noteq> Inr u"
  by (auto simp: final_error_def raiseM_def bindM_def split: prod.split sum.split)

lemma validate_final_output_Inr:
  assumes "tools_confined E" and "validate_final_output E src out ffmpeg fs = (Inr u, fs')"
  shows "fs' = fs \<and> tool_ok (run_tool (fst (me_tool E (decoder_command out ffmpeg) fs)))"
proof -
  obtain ev fs1 where d: "decoder_evidence E out ffmpeg fs = (Inr ev, fs1)"
    and r: "(if tool_ok ev then giveM () else final_error E src out ffmpeg ev) fs1 = (Inr u, fs')"
    using assms(2) by (auto simp: validate_final_output_def media_simps)
  have ev: "ev = run_tool (fst (me_tool E (decoder_command out ffmpeg) fs))"
    using d by (simp add: decoder_evidence_def tool_act_result)
  have "tool_ok ev" using r final_error_raises [of E src out ffmpeg ev fs1 u] by (auto split: if_splits)
  moreover have "fs1 = fs" using touches_none [OF touches_decoder [OF assms(1)], of out ffmpeg fs] d by simp
  ultimately show ?thesis using r ev by (simp add: giveM_def)
qed

lemma touches_final_error: "tools_confined E \<Longrightarrow> touches P (final_error E src out ffmpeg staged)"
  unfolding final_error_def by (intro touches_if touches_raise touches_bind touches_decoder)

lemma touches_validate_final: "tools_confined E \<Longrightarrow> touches P (validate_final_output E src out ffmpeg)"
  unfolding validate_final_output_def
  by (intro touches_bind touches_decoder touches_if touches_give touches_final_error)

lemma touches_write_staged:
  assumes "tools_confined E" and "probe_of E ''ffprobe'' probe" and "stage_ready E staging out remux"
    and "out = staging @ [with_suffix n ''.mka'']"
  shows "touches (stage_files out remux) (write_staged_metadata L E rq remux out)"
  unfolding touches_def
proof (intro allI impI)
  fix fs p assume p: "p \<notin> stage_files out remux"
  obtain r fs' where w: "write_staged_metadata L E rq remux out fs = (r, fs')" by fastforce
  show "snd (write_staged_metadata L E rq remux out fs) p = fs p"
    using write_staged_outcome(2) [OF assms w p] by (simp add: w)
qed

text \<open>The steps after the guards.\<close>

definition stage_steps ::
  "tag_library \<Rightarrow> media_env \<Rightarrow> (string \<Rightarrow> (string \<times> json) option) \<Rightarrow> pipeline_request \<Rightarrow> path \<Rightarrow> path \<Rightarrow> path
   \<Rightarrow> pipeline_result media_act" where
  "stage_steps L E payload rq src out remux =
     bindM (unlink E out) (\<lambda>_. bindM (unlink E remux) (\<lambda>_.
     bindM (remux_and_fingerprint E payload rq src remux) (\<lambda>fingerprint.
     bindM (write_staged_metadata L E rq remux out) (\<lambda>tags.
     bindM (validate_final_output E src out (pq_ffmpeg rq)) (\<lambda>_.
     bindM (unlink E remux) (\<lambda>_.
     bindM (if has_suffix src [''.flac''] then bindM (open_act (tl_flac_info L) src) (\<lambda>i. giveM (Some i)) else giveM None)
       (\<lambda>flac. giveM \<lparr>pr_output = out, pr_tags = tags, pr_fingerprint = fingerprint, pr_flac = flac\<rparr>)))))))"

lemma stage_steps_frame:
  assumes "tools_confined E" and "probe_of E ''ffprobe'' probe" and "stage_ready E staging out remux"
    and "out = staging @ [with_suffix n ''.mka'']"
  shows "touches (stage_files out remux) (stage_steps L E payload rq src out remux)"
proof -
  have r: "me_resolve E remux = remux" using assms(3) unfolding stage_ready_def by blast
  have "touches (stage_files out remux) (unlink E out)" and u: "touches (stage_files out remux) (unlink E remux)"
    by (rule touches_unlink, simp add: stage_files_def)+
  moreover have "touches (stage_files out remux) (remux_and_fingerprint E payload rq src remux)"
    by (rule touches_mono [OF touches_remux_and_fingerprint [OF assms(1) r]]) (auto simp: stage_files_def)
  ultimately show ?thesis unfolding stage_steps_def
    by (intro touches_bind touches_write_staged [OF assms] touches_validate_final assms(1) touches_if touches_open touches_give)
qed

lemma stage_steps_published:
  assumes "tools_confined E" and "probe_of E ''ffprobe'' probe" and "stage_ready E staging out remux"
    and "out = staging @ [with_suffix n ''.mka'']" and "stage_steps L E payload rq src out remux fs = (Inr res, fs')"
  shows "stage_published E probe (pq_ffmpeg rq) out remux res fs'"
proof -
  have ne: "out \<noteq> remux" using assms(3) unfolding stage_ready_def by auto
  obtain fs1 tags fs2 u fs3 where w: "write_staged_metadata L E rq remux out fs1 = (Inr tags, fs2)"
    and v: "validate_final_output E src out (pq_ffmpeg rq) fs2 = (Inr u, fs3)"
    and f: "fs' = fs3(remux := None)" and res: "pr_output res = out" "pr_tags res = tags"
    using assms(5) unfolding stage_steps_def
    by (auto simp: media_simps unlink_def split: if_splits)
  have fs3: "fs3 = fs2" "tool_ok (run_tool (fst (me_tool E (decoder_command out (pq_ffmpeg rq)) fs2)))"
    using validate_final_output_Inr [OF assms(1) v] by auto
  obtain c where "fs2 out = Some c" "mka_verified probe tags c"
    using write_staged_outcome(1) [OF assms(1-4) w] by auto
  then show ?thesis using fs3 f ne res by (auto simp: stage_published_def)
qed

lemma process_media_steps:
  assumes "process_media L E payload rq fs = (r, fs')" and "staging = me_resolve E (pq_staging rq)"
    and "out = staging @ [with_suffix (pq_name rq) ''.mka'']" and "remux = staging @ [''.remux.mka'']"
  shows "(\<exists>e. r = Inl e \<and> fs' = fs) \<or>
    (\<exists>src. src \<notin> {out, remux} \<and> stage_steps L E payload rq src out remux fs = (r, fs'))"
  using assms unfolding process_media_def stage_steps_def [symmetric] Let_def
  by (auto simp: bindM_def [of "resolve_strict _ _"] resolve_strict_def raiseM_def split: if_splits)

text \<open>C22. The media stage, when tools change only the file they are told to write and ffprobe's answer
  depends on the content alone: if it returns, the output exists, ffprobe reads exactly the returned
  tags from it, the decoder accepted it and the remux is gone; and whether it returns or raises, every
  file but the output, the remux and its temporary name is as before.\<close>

theorem process_media_publishes:
  assumes "tools_confined E" and "probe_of E ''ffprobe'' probe"
    and "staging = me_resolve E (pq_staging rq)" and "out = staging @ [with_suffix (pq_name rq) ''.mka'']"
    and "remux = staging @ [''.remux.mka'']" and "stage_ready E staging out remux"
  shows "(case process_media L E payload rq fs of
      (Inr res, fs') \<Rightarrow> stage_published E probe (pq_ffmpeg rq) out remux res fs' | (Inl e, fs') \<Rightarrow> True)
    \<and> (\<forall>p. p \<notin> stage_files out remux \<longrightarrow> snd (process_media L E payload rq fs) p = fs p)"
proof -
  obtain r fs' where r: "process_media L E payload rq fs = (r, fs')" by fastforce
  from process_media_steps [OF r assms(3-5)] show ?thesis
  proof (elim disjE exE conjE)
    fix src assume s: "stage_steps L E payload rq src out remux fs = (r, fs')"
    note frame = touchesD [where fs = fs, OF stage_steps_frame [OF assms(1,2,6,4)] s]
    show ?thesis using stage_steps_published [OF assms(1,2,6,4), of L payload rq src fs] s frame r by (cases r) auto
  qed (simp add: r)
qed

text \<open>C23. The metadata writer on any container, under the same conditions: if it returns, the output did
  not exist before, holds a content whose tags were read back and compared, and the result is the list of
  canonical tags; if it raises, the output is as before, except after a failed copy and after a failure
  to read the written file back. Every other file, the temporary one included, is as before.\<close>

theorem canonical_write_verified:
  assumes "tools_confined E" and "probe_of E (wq_ffprobe rq) probe" and "temp_fresh E (me_resolve E (wq_output rq))"
  shows "(case write_canonical_metadata L E rq fs of
      (Inr res, fs') \<Rightarrow> wr_output res = me_resolve E (wq_output rq) \<and> fs (wr_output res) = None
        \<and> canonical_tags (wq_metadata rq) (wq_fields rq) (wq_genres rq) = Inr (wr_tags res)
        \<and> (\<exists>c. fs' (wr_output res) = Some c \<and> output_verified L probe (wr_output res) (wr_tags res) (wq_metadata rq) c)
    | (Inl e, fs') \<Rightarrow> fs' (me_resolve E (wq_output rq)) = fs (me_resolve E (wq_output rq)) \<or> e = OSExc \<or> e = reopen_failed)
    \<and> (\<forall>p. path_str p \<noteq> path_str (me_resolve E (wq_output rq)) \<longrightarrow> snd (write_canonical_metadata L E rq fs) p = fs p)"
proof -
  obtain r fs' where r: "write_canonical_metadata L E rq fs = (r, fs')" by fastforce
  show ?thesis using canonical_write_facts [OF assms r] unfolding r by (auto split: sum.split)
qed

section \<open>A machine\<close>

text \<open>Every writing command writes seven, every reading command answers with the tags \<open>d\<close>.\<close>

definition echo_machine :: "tags \<Rightarrow> media_env" where
  "echo_machine d = \<lparr>
     me_tool = (\<lambda>cmd fs. if ''-n'' \<in> set (tl cmd)
       then (Completed 0 [] [], \<lambda>p. if path_str p = last cmd then Some [7] else fs p)
       else (Completed 0 (probe_output d) [], fs)),
     me_resolve = (\<lambda>p. p), me_is_dir = (\<lambda>p. p = [''s'']), me_is_link = (\<lambda>p. False),
     me_temp = (\<lambda>dir x fs. if dir = [''s''] \<and> x = ''.mka'' \<and> fs [''s'', ''.metadata-0.mka''] = None
       then Some [''s'', ''.metadata-0.mka''] else None),
     me_fault = (\<lambda>p c fs. None), me_sha256 = (\<lambda>c. [])\<rparr>"

definition song_tags :: tags where
  "song_tags = [(''TITLE'', ''Song'')]"

definition song_request :: pipeline_request where
  "song_request = \<lparr>
     pq_plan = \<lparr>sp_source = [''m'', ''a.mka''], sp_tags = song_tags, sp_metadata = None, sp_directory = ''Unsorted'', sp_name = ''x.mka''\<rparr>,
     pq_capability = \<lparr>cap_container = ''matroska,webm'', cap_codec = ''opus''\<rparr>, pq_staging = [''s''], pq_name = ''x.mka'',
     pq_ffmpeg = ''ffmpeg'', pq_fpcalc = ''fpcalc'', pq_settings = None, pq_fingerprint = False\<rparr>"

lemma echo_confined: "tools_confined (echo_machine d)"
  by (auto simp: tools_confined_def echo_machine_def)

lemma echo_probe: "probe_of (echo_machine d) ffprobe (\<lambda>c. Completed 0 (probe_output d) [])"
  by (auto simp: probe_of_def echo_machine_def ffprobe_tags_command_def path_str_no_option)

lemma echo_write:
  assumes "fst ` set tags \<subseteq> set ALLOWED_TAG_KEYS" and "\<not> list_ex (\<lambda>(n, v). breaks v) tags" and "out \<noteq> [''s'']"
  shows "write_mka_tags (echo_machine (collapse_tags tags)) src out tags ffmpeg ffprobe fs =
    (Inr (), \<lambda>p. if path_str p = path_str out then Some [7] else fs p)"
proof -
  let ?E = "echo_machine (collapse_tags tags)" and ?fs1 = "\<lambda>p. if path_str p = path_str out then Some [7] else fs p"
  have w: "me_tool ?E (mka_command ffmpeg src tags out) fs = (Completed 0 [] [], ?fs1)"
    by (simp add: echo_machine_def mka_command_def)
  have r: "me_tool ?E (ffprobe_tags_command ffprobe out) ?fs1 = (Completed 0 (probe_output (collapse_tags tags)) [], ?fs1)"
    by (simp add: echo_machine_def ffprobe_tags_command_def path_str_no_option)
  have d: "\<not> me_is_dir ?E out" using assms(3) by (simp add: echo_machine_def)
  show ?thesis using mka_write_facts [OF assms(1) d w _ r lists_own [OF collapse_tags_facts(2,1)] refl, of "[7]"] assms(1,2) by simp
qed

lemma song_facts:
  "collapse_tags song_tags = song_tags" "allowed_only song_tags = song_tags" "fst ` set song_tags \<subseteq> set ALLOWED_TAG_KEYS"
  "\<not> list_ex (\<lambda>(n, v). breaks v) song_tags"
  by (simp_all add: collapse_tags_def song_tags_def dict_append_def join_values_def allowed_only_def ALLOWED_TAG_KEYS_def
      breaks_def line_break_def)

lemmas act_defs = bindM_def giveM_def raiseM_def pureM_def catchM_def

lemma song_names:
  "single_name ''x.mka''" "with_suffix ''x.mka'' ''.mka'' = ''x.mka''" "name_suffix ''.remux.mka'' = ''.mka''" "name_suffix ''a.mka'' = ''.mka''"
  "str_casefold ''.mka'' = ''.mka''"
  by (simp_all add: single_name_def with_suffix_def name_suffix_def Let_def casefold_mka)

definition song_fs :: media_fs where
  "song_fs = [[''m'', ''a.mka''] \<mapsto> [1]]"

lemma song_files:
  "song_fs [''m'', ''a.mka''] = Some [1]" "song_fs [''s'', ''.remux.mka''] = None" "song_fs [''s'', ''x.mka''] = None"
  by (simp_all add: song_fs_def)

lemma song_remux:
  "remux_stream_copy (echo_machine song_tags) [''m'', ''a.mka''] [''s'', ''.remux.mka''] ''ffmpeg'' song_fs =
    (Inr \<lparr>t_state = tool_state.SUCCESS, t_return_code = Some 0, t_stdout = [], t_stderr = []\<rparr>,
     \<lambda>p. if path_str p = path_str [''s'', ''.remux.mka''] then Some [7] else song_fs p)"
proof -
  have m: "muxer ''.mka'' = Inr ''matroska''" by (simp add: muxer_def Let_def song_names)
  show ?thesis
    by (simp add: remux_stream_copy_def act_defs resolve_strict_def path_exists_def echo_machine_def path_suffix_def song_names m song_files
        tool_act_def remux_command_def Let_def)
qed

lemma song_observed:
  "write_observed_metadata title_library (echo_machine song_tags) [''s'', ''.remux.mka''] song_tags fs =
    (Inr \<lparr>wr_output = [''s'', ''.remux.mka''], wr_tags = song_tags\<rparr>,
     (\<lambda>p. if path_str p = ''/s/..remux.mka.metadata'' then Some [7] else fs p)
       ([''s'', ''..remux.mka.metadata''] := None, [''s'', ''.remux.mka''] := Some [7]))"
proof -
  have w: "write_mka_tags (echo_machine song_tags) [''s'', ''.remux.mka''] [''s'', ''..remux.mka.metadata''] song_tags ''ffmpeg'' ''ffprobe'' fs =
      (Inr (), \<lambda>p. if path_str p = path_str [''s'', ''..remux.mka.metadata''] then Some [7] else fs p)"
    using echo_write [of song_tags "[''s'', ''..remux.mka.metadata'']"] song_facts by simp
  have "rename_over (echo_machine song_tags) [''s'', ''..remux.mka.metadata''] [''s'', ''.remux.mka''] f = (Inr (),
      f([''s'', ''..remux.mka.metadata''] := None, [''s'', ''.remux.mka''] := f [''s'', ''..remux.mka.metadata'']))"
    if "f [''s'', ''..remux.mka.metadata''] \<noteq> None" for f
    using that by (simp add: rename_over_def echo_machine_def)
  then show ?thesis
    by (simp add: write_observed_metadata_def has_suffix_def path_suffix_def song_names song_facts(2) with_name_def act_defs w
        Let_def path_str_def)
qed

lemma song_runs:
  "case process_media title_library (echo_machine song_tags) (\<lambda>s. None) song_request song_fs of
     (Inl e, fs') \<Rightarrow> False | (Inr res, fs') \<Rightarrow> pr_tags res = song_tags"
proof -
  have e: "me_resolve (echo_machine song_tags) p = p" "me_is_dir (echo_machine song_tags) p = (p = [''s''])" for p
    by (simp_all add: echo_machine_def)
  have d: "decoder_evidence (echo_machine song_tags) p f fs =
      (Inr \<lparr>t_state = tool_state.SUCCESS, t_return_code = Some 0, t_stdout = probe_output song_tags, t_stderr = []\<rparr>, fs)" for p f fs
    by (simp add: decoder_evidence_def tool_act_def echo_machine_def decoder_command_def path_str_no_option)
  have q: "pq_staging song_request = [''s'']" "pq_name song_request = ''x.mka''" "sp_source (pq_plan song_request) = [''m'', ''a.mka'']"
    "sp_metadata (pq_plan song_request) = None" "sp_tags (pq_plan song_request) = song_tags" "pq_fingerprint song_request = False"
    "pq_ffmpeg song_request = ''ffmpeg''"
    by (simp_all add: song_request_def)
  have rn: "rename_over (echo_machine song_tags) [''s'', ''.remux.mka''] [''s'', ''x.mka''] f = (Inr (),
      f([''s'', ''.remux.mka''] := None, [''s'', ''x.mka''] := f [''s'', ''.remux.mka'']))"
    if "f [''s'', ''.remux.mka''] \<noteq> None" for f
    using that by (simp add: rename_over_def e)
  have c: "song_fs ([''s'', ''x.mka''] := None, [''s'', ''.remux.mka''] := None) = song_fs"
    by (simp add: fun_eq_iff song_fs_def)
  show ?thesis
    by (simp add: process_media_def act_defs resolve_strict_def path_exists_def e q song_names song_files unlink_def c
        remux_and_fingerprint_def song_remux write_staged_metadata_def song_observed rn validate_final_output_def d
        has_suffix_def path_suffix_def Let_def)
qed

theorem process_media_publishes_witness:
  "case process_media title_library (echo_machine song_tags) (\<lambda>s. None) song_request song_fs of
     (Inl e, fs') \<Rightarrow> False
   | (Inr res, fs') \<Rightarrow> stage_published (echo_machine song_tags) (\<lambda>c. Completed 0 (probe_output song_tags) []) ''ffmpeg''
       [''s'', ''x.mka''] [''s'', ''.remux.mka''] res fs' \<and> fs' [''m'', ''a.mka''] = Some [1]"
proof -
  let ?E = "echo_machine song_tags" and ?fs = "song_fs"
  have ready: "stage_ready ?E [''s''] [''s'', ''x.mka''] [''s'', ''.remux.mka'']"
    by (auto simp: stage_ready_def echo_machine_def observed_temp_def with_name_def temp_fresh_def path_str_def split: if_splits)
  have st: "[''s''] = me_resolve ?E (pq_staging song_request)" by (simp add: echo_machine_def song_request_def)
  have out: "[''s'', ''x.mka''] = [''s''] @ [with_suffix (pq_name song_request) ''.mka'']"
    by (simp add: song_request_def song_names)
  have rm: "[''s'', ''.remux.mka''] = [''s''] @ [''.remux.mka'']" by simp
  have src: "[''m'', ''a.mka''] \<notin> stage_files [''s'', ''x.mka''] [''s'', ''.remux.mka'']"
    by (simp add: stage_files_def same_file_def observed_temp_def with_name_def path_str_def)
  have ff: "pq_ffmpeg song_request = ''ffmpeg''" by (simp add: song_request_def)
  show ?thesis
    using process_media_publishes [OF echo_confined echo_probe st out rm ready, of title_library "\<lambda>s. None" ?fs]
      song_runs src song_files
    by (cases "process_media title_library ?E (\<lambda>s. None) song_request ?fs") (auto simp: ff split: sum.splits)
qed

definition muxed_tags :: tags where
  "muxed_tags = [(''ENCODER'', ''Lavf61''), (''title'', ''Song'')]"

lemma muxed_listed: "lists_tags muxed_tags (collapse_tags song_tags)"
  unfolding song_facts lists_tags_def
  by (simp add: muxed_tags_def song_tags_def own_tags_def upper_foreign ALLOWED_TAG_KEYS_def plain_tag_def breaks_def line_break_def)

text \<open>A title that is listed after the muxer's ENCODER under a lower-case name is accepted, and a title of two
  lines is refused although the file holds it.\<close>

theorem mka_tags_round_trip_witness:
  "write_mka_tags (echo_machine muxed_tags) [''s'', ''r.mka''] [''s'', ''x.mka''] song_tags ''ffmpeg'' ''ffprobe'' song_fs =
     (Inr (), \<lambda>p. if path_str p = path_str [''s'', ''x.mka''] then Some [7] else song_fs p)
   \<and> write_mka_tags (echo_machine [(''TITLE'', [CHR ''a'', CHR 0x0A, CHR ''b''])]) [''s'', ''r.mka''] [''s'', ''x.mka'']
       [(''TITLE'', [CHR ''a'', CHR 0x0A, CHR ''b''])] ''ffmpeg'' ''ffprobe'' song_fs =
     (Inl (MetadataWriteError ''FFprobe did not observe the required canonical Matroska tags''),
      (\<lambda>p. if path_str p = path_str [''s'', ''x.mka''] then Some [7] else song_fs p)([''s'', ''x.mka''] := None))"
proof
  let ?fs1 = "\<lambda>p. if path_str p = path_str [''s'', ''x.mka''] then Some [7] else song_fs p"
  have d: "\<not> me_is_dir (echo_machine d) [''s'', ''x.mka'']" for d by (simp add: echo_machine_def)
  have w: "me_tool (echo_machine d) (mka_command ''ffmpeg'' [''s'', ''r.mka''] t [''s'', ''x.mka'']) song_fs = (Completed 0 [] [], ?fs1)" for d t
    by (simp add: echo_machine_def mka_command_def)
  have p: "me_tool (echo_machine d) (ffprobe_tags_command ''ffprobe'' [''s'', ''x.mka'']) ?fs1 = (Completed 0 (probe_output d) [], ?fs1)" for d
    by (simp add: echo_machine_def ffprobe_tags_command_def path_str_no_option)
  show "write_mka_tags (echo_machine muxed_tags) [''s'', ''r.mka''] [''s'', ''x.mka''] song_tags ''ffmpeg'' ''ffprobe'' song_fs = (Inr (), ?fs1)"
    using mka_tags_round_trip [OF song_facts(3) d w _ p muxed_listed refl, of "[7]"] song_facts(4) by simp
  let ?t = "[(''TITLE'', [CHR ''a'', CHR 0x0A, CHR ''b''])]"
  have c: "collapse_tags ?t = ?t" by (simp add: collapse_tags_def dict_append_def join_values_def)
  have a: "fst ` set ?t \<subseteq> set ALLOWED_TAG_KEYS" by (simp add: ALLOWED_TAG_KEYS_def)
  have l: "lists_tags ?t (collapse_tags ?t)" unfolding c by (rule lists_own [OF a]) simp
  have b: "list_ex (\<lambda>(n, v). breaks v) ?t" by (simp add: breaks_def line_break_def)
  show "write_mka_tags (echo_machine ?t) [''s'', ''r.mka''] [''s'', ''x.mka''] ?t ''ffmpeg'' ''ffprobe'' song_fs =
     (Inl (MetadataWriteError ''FFprobe did not observe the required canonical Matroska tags''), ?fs1([''s'', ''x.mka''] := None))"
    using mka_tags_round_trip [OF a d w _ p l refl, of "[7]"] b by simp
qed

definition song_metadata :: canonical_metadata where
  "song_metadata = \<lparr>cm_source = AUTOMATIC_FALLBACK, cm_title = ''Song'', cm_artists = [''A'', ''B''], cm_album = ''L'',
     cm_album_artists = [''A''], cm_date = ''2020'', cm_original_date = None, cm_track_number = 1, cm_track_total = 2,
     cm_disc_number = 1, cm_disc_total = 1, cm_genres = [''Rock''], cm_recording = None, cm_artist_ids = [],
     cm_album_artist_ids = [], cm_album_id = None, cm_release_group = None, cm_isrc = None, cm_performer = None\<rparr>"

definition song_canonical :: tags where
  "song_canonical = required_tags song_metadata ''; '' [''Rock'']"

definition song_write :: write_request where
  "song_write = \<lparr>wq_source = [''m'', ''a.mka''], wq_output = [''s'', ''x.mka''], wq_staging = [''s''],
     wq_metadata = song_metadata, wq_fields = default_fields, wq_genres = \<lparr>gpol_canonical = [''Rock''], gpol_aliases = []\<rparr>,
     wq_capability = Some \<lparr>cap_container = ''matroska,webm'', cap_codec = ''opus''\<rparr>, wq_ffmpeg = ''ffmpeg'', wq_ffprobe = ''ffprobe''\<rparr>"

lemma song_canonical_tags:
  "canonical_tags song_metadata default_fields \<lparr>gpol_canonical = [''Rock''], gpol_aliases = []\<rparr> = Inr song_canonical"
proof -
  have g: "normalize_genres [''Rock''] \<lparr>gpol_canonical = [''Rock''], gpol_aliases = []\<rparr> = Inr [''Rock'']"
    by (simp add: normalize_genres_def alias_target_def dict_of_def)
  show ?thesis
    by (simp add: canonical_tags_def song_metadata_def default_fields_def g song_canonical_def optional_tags_def
        List.map_filter_def)
qed

lemma song_canonical_facts:
  "collapse_tags song_canonical = song_canonical" "fst ` set song_canonical \<subseteq> set ALLOWED_TAG_KEYS"
  "\<not> list_ex (\<lambda>(n, v). breaks v) song_canonical"
  by (simp_all add: collapse_tags_def song_canonical_def required_tags_def song_metadata_def dict_append_def join_values_def
      ALLOWED_TAG_KEYS_def breaks_def line_break_def json_int_def nat_digits.simps)

lemma song_write_runs:
  "case write_canonical_metadata title_library (echo_machine song_canonical) song_write song_fs of
     (Inl e, fs') \<Rightarrow> False | (Inr res, fs') \<Rightarrow> wr_tags res = song_canonical"
proof -
  have w: "write_mka_tags (echo_machine song_canonical) src [''s'', ''x.mka''] song_canonical ffmpeg ffprobe fs =
      (Inr (), \<lambda>p. if path_str p = path_str [''s'', ''x.mka''] then Some [7] else fs p)" for src ffmpeg ffprobe fs
    using echo_write [of song_canonical "[''s'', ''x.mka'']"] song_canonical_facts by simp
  have q: "wq_source song_write = [''m'', ''a.mka'']" "wq_output song_write = [''s'', ''x.mka'']" "wq_staging song_write = [''s'']"
    "wq_metadata song_write = song_metadata" "wq_fields song_write = default_fields"
    "wq_genres song_write = \<lparr>gpol_canonical = [''Rock''], gpol_aliases = []\<rparr>"
    "wq_capability song_write = Some \<lparr>cap_container = ''matroska,webm'', cap_codec = ''opus''\<rparr>"
    by (simp_all add: song_write_def)
  have e: "me_resolve (echo_machine d) p = p" "me_is_dir (echo_machine d) p = (p = [''s''])" "me_fault (echo_machine d) p c f = None"
    "me_temp (echo_machine d) [''s''] ''.mka'' song_fs = Some [''s'', ''.metadata-0.mka'']" for d p c f
    by (simp_all add: echo_machine_def song_fs_def)
  have n: "name_suffix ''x.mka'' = ''.mka''" by (simp add: name_suffix_def Let_def)
  have s: "has_suffix [''s'', ''x.mka''] [''.mka'']" "has_suffix [''s'', ''x.mka''] supported_suffixes"
    "path_suffix [''s'', ''x.mka''] = ''.mka''"
    by (simp_all add: has_suffix_def path_suffix_def n song_names supported_suffixes_def)
  have v: "validate_paths (echo_machine song_canonical) song_write song_fs = (Inr ([''m'', ''a.mka''], [''s'', ''x.mka''], [''s'']), song_fs)"
    by (simp add: validate_paths_def bindM_def resolve_strict_def path_exists_def q e song_files s Let_def)
  show ?thesis
    by (simp add: write_canonical_metadata_def act_defs v q song_canonical_tags copy_to_staging_def s e staged_copy_def copy_file_def
        song_files write_octets_def finallyM_def write_container_def w)
qed

theorem canonical_write_verified_witness:
  "case write_canonical_metadata title_library (echo_machine song_canonical) song_write song_fs of
     (Inl e, fs') \<Rightarrow> False
   | (Inr res, fs') \<Rightarrow> wr_tags res = song_canonical \<and> fs' [''s'', ''x.mka''] \<noteq> None
       \<and> fs' [''s'', ''.metadata-0.mka''] = None \<and> fs' [''m'', ''a.mka''] = Some [1]"
proof -
  let ?E = "echo_machine song_canonical"
  have out: "me_resolve ?E (wq_output song_write) = [''s'', ''x.mka'']" by (simp add: echo_machine_def song_write_def)
  have fresh: "temp_fresh ?E (me_resolve ?E (wq_output song_write))"
    unfolding out by (auto simp: temp_fresh_def echo_machine_def path_str_def split: if_splits)
  have o: "path_str [''s'', ''.metadata-0.mka''] \<noteq> path_str [''s'', ''x.mka'']" "path_str [''m'', ''a.mka''] \<noteq> path_str [''s'', ''x.mka'']"
    "song_fs [''s'', ''.metadata-0.mka''] = None"
    by (simp_all add: path_str_def song_fs_def)
  show ?thesis
    using canonical_write_verified [where L = title_library and fs = song_fs, OF echo_confined echo_probe fresh] song_write_runs o song_files
    by (cases "write_canonical_metadata title_library ?E song_write song_fs") (auto simp: out split: sum.splits)
qed

end
