(* ===== verification/Spec2Isabelle.thy ===== *)
theory Spec2Isabelle imports Prelude QualityPolicy Inspectors JobQueue Worker Publication Library Catalog
  Scoring Evidence LyricFetch Genres Association ScanPlan Media Layout Tags Metadata begin

text \<open>
  \<^bold>\<open>MusicEnreachment: a verification library.\<close> The program (Python, \<^verbatim>\<open>src/src/music_ingest\<close>) watches
  directories of music files, identifies every file with MusicBrainz and AcoustID, lets a quality policy
  choose the best source of each recording, and publishes it with canonical tags, artwork and synced lyrics.
  Its state is a relational database and the published files. Durable jobs drive the work: API calls,
  webhooks and scans enqueue them, a worker claims them, runs a handler and records the outcome.

  \<^bold>\<open>Parts and theories.\<close> Each theory opens with the files it models; its definitions follow their order
  and keep the source's names where Isabelle allows it.

  \<^item> \<^verbatim>\<open>Prelude\<close>, \<^verbatim>\<open>Json\<close>, \<^verbatim>\<open>Base64\<close>, \<^verbatim>\<open>Bytes\<close>: the Python and library operations the program uses (strings,
    first minimum, keyed tables, \<^verbatim>\<open>json\<close>, \<^verbatim>\<open>base64\<close>, byte readers) with the lemmas the components share.
  \<^item> \<^verbatim>\<open>QualityPolicy\<close>: \<^verbatim>\<open>services/quality_policy.py\<close>, the choice among the sources of a record.
  \<^item> \<^verbatim>\<open>FlacSanitizer\<close>, \<^verbatim>\<open>Inspectors\<close>: \<^verbatim>\<open>adapters/sanitizers/flac.py\<close> and \<^verbatim>\<open>adapters/inspectors\<close>, the parsers of
    FLAC and MP3 containers and the rewriting of a damaged FLAC wrapper.
  \<^item> \<^verbatim>\<open>JobQueue\<close>, \<^verbatim>\<open>Worker\<close>: \<^verbatim>\<open>repositories/jobs.py\<close> over \<^verbatim>\<open>models/workflow.py\<close> (claims, leases, retries,
    coalescing, recovery) and \<^verbatim>\<open>workers/worker.py\<close>, which runs a handler, an argument, in a transaction.
  \<^item> \<^verbatim>\<open>Publication\<close>: \<^verbatim>\<open>services/publication/attempts.py\<close> and \<^verbatim>\<open>cleanup.py\<close>, the journal that makes the exposure of
    files recoverable after a crash, and the removal of superseded files.
  \<^item> \<^verbatim>\<open>Library\<close>, \<^verbatim>\<open>Catalog\<close>: \<^verbatim>\<open>services/library/service.py\<close>, the stable records, their append-only metadata
    layers and effective source decisions, and the queries over them.
  \<^item> \<^verbatim>\<open>Scoring\<close>, \<^verbatim>\<open>Evidence\<close>, \<^verbatim>\<open>MusicBrainz\<close>, \<^verbatim>\<open>Genres\<close>: \<^verbatim>\<open>services/matching\<close> and \<^verbatim>\<open>adapters/external\<close>, the scores of
    candidates, cached and scheduled provider requests, the web service clients and the genre catalogue.
  \<^item> \<^verbatim>\<open>Lrc\<close>, \<^verbatim>\<open>Lrclib\<close>, \<^verbatim>\<open>LyricFetch\<close>: \<^verbatim>\<open>services/lyrics\<close>, \<^verbatim>\<open>adapters/external/lrclib.py\<close> and the handler that writes
    lyric sidecars.
  \<^item> \<^verbatim>\<open>Association\<close>: \<^verbatim>\<open>services/association/service.py\<close>, moving sources between records.
  \<^item> \<^verbatim>\<open>Deletion\<close>, \<^verbatim>\<open>ScanPlan\<close>: \<^verbatim>\<open>services/reconciliation.py\<close>, the scan of the roots, the plan, its application,
    and the deletion of sources and records against the foreign keys.
  \<^item> \<^verbatim>\<open>Media\<close>, \<^verbatim>\<open>Layout\<close>, \<^verbatim>\<open>Tags\<close>, \<^verbatim>\<open>Metadata\<close>: the media stage of a job. \<^verbatim>\<open>adapters/remux.py\<close>, the capability
    probe, decoder and fingerprint; \<^verbatim>\<open>services/metadata.py\<close>, the names of published files;
    \<^verbatim>\<open>services/normalize/tags.py\<close> and \<^verbatim>\<open>metadata.py\<close>, reading and writing container tags;
    \<^verbatim>\<open>workers/media_stage.py\<close>, which drives them.

  \<^bold>\<open>State and operations.\<close> A table is a list of rows (a record per row) and a statement a function on the
  tables, refused where the database would refuse it. A transaction is a function from the state to an error
  or a new state; operations that can meet another session's commits take these as an argument. The file
  system is a map from paths to contents, its operations ordered lists of steps, so that a crash after any
  number of them can be stated. Exceptions are values of error types; every raise of the source is a branch.
  Which system call fails, where the code handles or passes on an \<^verbatim>\<open>OSError\<close>, is an argument: of the
  sanitizer, the sidecar writer, the scan of the roots, the media stage and the HTTP transport.

  \<^bold>\<open>Arguments of the model.\<close> What is not in the repository is an argument, with documented behaviour as
  named hypotheses where a property needs it: SHA-256, \<^verbatim>\<open>uuid4\<close>, clocks, HTTP transport, the
  string-distance and transliteration libraries, Mutagen, the external tools, path resolution and \<^verbatim>\<open>stat\<close>.

  \<^bold>\<open>Interfaces.\<close> The locales \<^verbatim>\<open>keyed_write\<close> (a write to one row of a table), its extension \<^verbatim>\<open>row_write\<close> for the
  job tables, \<^verbatim>\<open>coalescing_enqueue\<close> (what every coalescing enqueue promises) and \<^verbatim>\<open>identity_write\<close> (what
  every write of an association keeps) are interpreted on the model's operations in the theories that
  provide them; their clients' lemmas are proved once inside them.

  \<^bold>\<open>Lemma groups.\<close> For each component: an invariant of its tables and its preservation, the result of each
  operation on its branches, and what it leaves alone. On top of them the properties C1 to C39, each stated
  in words before its theorem; a theorem with hypotheses is followed by a witness at a concrete input.

  \<^bold>\<open>Bounds and loops.\<close> Loops over data are structural or have a measure: the block loops decrease the bytes
  left, the closure of the cleanup the candidates left. The JSON reader gets twice the length of its text
  as fuel, which it cannot use up because every step consumes a character within two calls. The recovery
  loop of an attempt runs with fuel three and is proved to end by then. The paging loops of the web
  clients, which a server could keep going, are partial functions where \<^verbatim>\<open>None\<close> is not returning; that they
  return is proved against servers with a fixed catalogue.

  \<^bold>\<open>Not modelled.\<close> HTTP routing, request and response schemas, the front end, threads and signals, ORM
  loading, migrations, and the job handlers that only sequence modelled
  services. Strings are lists of characters, with case folding exact for ASCII; lyric text is a list of
  code points. Row and advisory locks appear only through the interleavings they allow.
\<close>

end
